(* ===== verification/Encodr_Prelude.thy ===== *)
theory Encodr_Prelude
  imports Complex_Main "HOL-Library.Sublist" "HOL-Library.Product_Lexorder"
begin

text \<open>
  The Python vocabulary the component theories share: strings, truthiness, ordered
  de-duplication, \<open>max\<close> and \<open>sorted\<close> with a key, and decimal rendering.

  A Python \<open>str\<close> is a \<open>string\<close> whose characters are the code points below 256
  (Latin-1); \<open>lower\<close> and \<open>strip\<close> follow \<open>str.lower\<close> and \<open>str.strip\<close> on that range.
\<close>

named_theorems py_str \<open>evaluation of the string helpers\<close>
named_theorems frame \<open>fields an operation leaves alone\<close>

subsection \<open>Strings\<close>

definition code_point :: "char \<Rightarrow> nat" where
  "code_point c = of_char c"

definition lower_char :: "char \<Rightarrow> char" where
  "lower_char c =
     (let n = code_point c in
      if (65 \<le> n \<and> n \<le> 90) \<or> (192 \<le> n \<and> n \<le> 222 \<and> n \<noteq> 215) then char_of (n + 32) else c)"

definition py_lower :: "string \<Rightarrow> string" where
  "py_lower s = map lower_char s"

definition is_space :: "char \<Rightarrow> bool" where
  "is_space c =
     (let n = code_point c in
      (9 \<le> n \<and> n \<le> 13) \<or> (28 \<le> n \<and> n \<le> 32) \<or> n = 133 \<or> n = 160)"

definition py_lstrip :: "string \<Rightarrow> string" where
  "py_lstrip s = dropWhile is_space s"

definition rstrip_by :: "(char \<Rightarrow> bool) \<Rightarrow> string \<Rightarrow> string" where
  "rstrip_by p s = rev (dropWhile p (rev s))"

definition py_strip :: "string \<Rightarrow> string" where
  "py_strip s = rstrip_by is_space (py_lstrip s)"

fun py_join :: "string \<Rightarrow> string list \<Rightarrow> string" where
  "py_join sep [] = []"
| "py_join sep [x] = x"
| "py_join sep (x # y # zs) = x @ sep @ py_join sep (y # zs)"

text \<open>\<open>needle in hay\<close> for strings.\<close>

fun py_in :: "string \<Rightarrow> string \<Rightarrow> bool" where
  "py_in needle [] = (needle = [])"
| "py_in needle (c # cs) = (prefix needle (c # cs) \<or> py_in needle cs)"

lemma py_in_sublist: "py_in needle hay \<longleftrightarrow> sublist needle hay"
  by (induction hay) (auto simp: sublist_Cons_right)

text \<open>\<open>s.split(sep)\<close> for a one-character separator.\<close>

fun split_on :: "char \<Rightarrow> string \<Rightarrow> string list" where
  "split_on sep [] = [[]]"
| "split_on sep (c # cs) =
     (if c = sep then [] # split_on sep cs
      else (case split_on sep cs of [] \<Rightarrow> [[c]] | w # ws \<Rightarrow> (c # w) # ws))"

lemma split_on_nonempty [simp]: "split_on sep s \<noteq> []"
  by (induction s) (auto split: list.splits)

lemma split_on_no_sep: "w \<in> set (split_on sep s) \<Longrightarrow> sep \<notin> set w"
  by (induction s arbitrary: w) (fastforce split: list.splits if_splits)+

lemma join_split_on: "py_join [sep] (split_on sep s) = s"
proof (induction s)
  case Nil
  show ?case by simp
next
  case (Cons c cs)
  obtain w ws where ws: "split_on sep cs = w # ws"
    by (cases "split_on sep cs") auto
  with Cons show ?case by (cases ws) auto
qed

lemma split_on_plain: "sep \<notin> set w \<Longrightarrow> split_on sep w = [w]"
  by (induction w) auto

lemma split_on_append: "sep \<notin> set w \<Longrightarrow> split_on sep (w @ sep # s) = w # split_on sep s"
  by (induction w) auto

lemma split_on_join:
  "ws \<noteq> [] \<Longrightarrow> \<forall>w\<in>set ws. sep \<notin> set w \<Longrightarrow> split_on sep (py_join [sep] ws) = ws"
proof (induction ws rule: induct_list012)
  case (3 x y zs)
  then show ?case by (simp add: split_on_append)
qed (auto simp: split_on_plain)


lemma py_join_append: "xs \<noteq> [] \<Longrightarrow> ys \<noteq> [] \<Longrightarrow> py_join sep (xs @ ys) = py_join sep xs @ sep @ py_join sep ys"
proof (induction xs rule: induct_list012)
  case (2 x)
  then show ?case by (cases ys) auto
qed auto

lemma split_on_join_append:
  "ws \<noteq> [] \<Longrightarrow> \<forall>w\<in>set ws. sep \<notin> set w \<Longrightarrow>
     split_on sep (py_join [sep] ws @ sep # r) = ws @ split_on sep r"
proof (induction ws rule: induct_list012)
  case (3 x y zs)
  then show ?case by (simp add: split_on_append)
qed (auto simp: split_on_append)

subsection \<open>Case and white space\<close>

lemma code_point_lower:
  "code_point (lower_char c) =
     (let n = code_point c in
      if (65 \<le> n \<and> n \<le> 90) \<or> (192 \<le> n \<and> n \<le> 222 \<and> n \<noteq> 215) then n + 32 else n)"
  by (auto simp: lower_char_def code_point_def Let_def of_char_of)

lemma code_point_inject: "code_point c = code_point d \<longleftrightarrow> c = d"
  by (simp add: code_point_def)

lemma lower_char_idem [simp]: "lower_char (lower_char c) = lower_char c"
  by (auto simp: code_point_inject [symmetric] code_point_lower Let_def)

lemma is_space_lower [simp]: "is_space (lower_char c) = is_space c"
  by (auto simp: is_space_def code_point_lower Let_def)

lemma py_lower_idem [simp]: "py_lower (py_lower s) = py_lower s"
  by (simp add: py_lower_def)

lemma py_lower_append: "py_lower (s @ t) = py_lower s @ py_lower t"
  by (simp add: py_lower_def)

lemma py_lower_eq_Nil [simp]: "py_lower s = [] \<longleftrightarrow> s = []"
  by (simp add: py_lower_def)

lemma length_py_lower [simp]: "length (py_lower s) = length s"
  by (simp add: py_lower_def)

lemma dropWhile_lower: "dropWhile is_space (map lower_char s) = map lower_char (dropWhile is_space s)"
  by (simp add: dropWhile_map comp_def)

lemma py_strip_lower: "py_strip (py_lower s) = py_lower (py_strip s)"
  by (simp add: py_strip_def py_lstrip_def rstrip_by_def py_lower_def dropWhile_lower rev_map)

lemma dropWhile_hd: "dropWhile p xs = [] \<or> \<not> p (hd (dropWhile p xs))"
  by (induction xs) auto

lemma dropWhile_id: "xs = [] \<or> \<not> p (hd xs) \<Longrightarrow> dropWhile p xs = xs"
  by (cases xs) auto

lemma py_strip_ends:
  "py_strip s = [] \<or> (\<not> is_space (hd (py_strip s)) \<and> \<not> is_space (last (py_strip s)))"
proof (cases "py_strip s = []")
  case False
  let ?l = "dropWhile is_space s" and ?r = "dropWhile is_space (rev (dropWhile is_space s))"
  have st: "py_strip s = rev ?r" by (simp add: py_strip_def py_lstrip_def rstrip_by_def)
  have r: "?r \<noteq> []" using False by (simp add: st)
  have last: "\<not> is_space (last (py_strip s))"
    using dropWhile_hd [of is_space "rev ?l"] r unfolding st by (simp only: last_rev) blast
  obtain t where t: "rev ?l = t @ ?r" by (metis takeWhile_dropWhile_id)
  have "?l = rev ?r @ rev t" using arg_cong [OF t, of rev] by simp
  moreover have "hd (rev ?r @ rev t) = hd (rev ?r)" "rev ?r @ rev t \<noteq> []"
    using r by (simp_all only: hd_append rev_is_Nil_conv append_is_Nil_conv if_False) blast
  ultimately have "hd ?l = hd (rev ?r)" "?l \<noteq> []" by metis+
  moreover have "\<not> is_space (hd ?l)" using dropWhile_hd [of is_space s] calculation(2) by blast
  ultimately show ?thesis using last unfolding st by metis
qed simp

lemma py_strip_id: "s = [] \<or> (\<not> is_space (hd s) \<and> \<not> is_space (last s)) \<Longrightarrow> py_strip s = s"
  by (auto simp: py_strip_def py_lstrip_def rstrip_by_def dropWhile_id hd_rev)

lemma py_strip_idem [simp]: "py_strip (py_strip s) = py_strip s"
  by (rule py_strip_id [OF py_strip_ends])

subsection \<open>Truthiness: \<open>x or default\<close>\<close>

fun or_str :: "string option \<Rightarrow> string \<Rightarrow> string" where
  "or_str None d = d"
| "or_str (Some s) d = (if s = [] then d else s)"

fun or_zero :: "int option \<Rightarrow> int" where
  "or_zero None = 0"
| "or_zero (Some n) = n"

definition int_or :: "int option \<Rightarrow> int option \<Rightarrow> int option" where
  "int_or a b = (case a of Some n \<Rightarrow> if n = 0 then b else Some n | None \<Rightarrow> b)"

definition of_flag :: "bool \<Rightarrow> int" where
  "of_flag b = (if b then 1 else 0)"

lemma of_flag_range: "of_flag b = 0 \<or> of_flag b = 1"
  by (simp add: of_flag_def)

subsection \<open>Dictionaries: \<open>k in d\<close>\<close>

definition has_key :: "('k \<rightharpoonup> 'v) \<Rightarrow> 'k \<Rightarrow> bool" where
  "has_key d k \<longleftrightarrow> d k \<noteq> None"

lemma has_key_dom: "has_key d k \<longleftrightarrow> k \<in> dom d"
  by (simp add: has_key_def domIff)

subsection \<open>Ordered de-duplication\<close>

text \<open>
  Four routines of the code build a list of the distinct images of their input in order of
  first occurrence. The contract they share, and what their clients use of it:
\<close>

locale ordered_dedup =
  fixes dedup :: "'a list \<Rightarrow> 'b list" and key :: "'a \<Rightarrow> 'b"
  assumes dedup_Nil: "dedup [] = []"
    and dedup_snoc: "dedup (xs @ [x]) = (if key x \<in> set (dedup xs) then dedup xs else dedup xs @ [key x])"
begin

lemma set_dedup: "set (dedup xs) = key ` set xs"
  by (induction xs rule: rev_induct) (auto simp: dedup_Nil dedup_snoc)

lemma distinct_dedup: "distinct (dedup xs)"
  by (induction xs rule: rev_induct) (auto simp: dedup_Nil dedup_snoc)

lemma length_dedup: "length (dedup xs) \<le> length xs"
  by (induction xs rule: rev_induct) (auto simp: dedup_Nil dedup_snoc)

lemma dedup_fixpoint: "distinct (map key xs) \<Longrightarrow> dedup xs = map key xs"
proof (induction xs rule: rev_induct)
  case (snoc x xs)
  then show ?case by (auto simp: dedup_snoc)
qed (simp add: dedup_Nil)

lemma dedup_eq_Nil [simp]: "dedup xs = [] \<longleftrightarrow> xs = []"
  using set_dedup [of xs] by (auto simp: dedup_Nil)

lemma dedup_length_eq: "length (dedup xs) = length xs \<longleftrightarrow> distinct (map key xs)"
proof
  assume len: "length (dedup xs) = length xs"
  have "card (key ` set xs) = length (dedup xs)"
    using distinct_card [OF distinct_dedup [of xs]] by (simp add: set_dedup)
  with len show "distinct (map key xs)"
    by (intro card_distinct) simp
qed (simp add: dedup_fixpoint)

end

text \<open>\<open>list(dict.fromkeys(xs))\<close> and loops that append a value not seen before.\<close>

fun dedup_acc :: "'a list \<Rightarrow> 'a list \<Rightarrow> 'a list" where
  "dedup_acc acc [] = acc"
| "dedup_acc acc (x # xs) = dedup_acc (if x \<in> set acc then acc else acc @ [x]) xs"

lemma dedup_acc_append: "dedup_acc acc (xs @ ys) = dedup_acc (dedup_acc acc xs) ys"
  by (induction xs arbitrary: acc) auto

subsection \<open>\<open>max\<close> and \<open>sorted\<close> with a key\<close>

text \<open>\<open>max(xs, key=f)\<close>: the first element with the greatest key; a \<open>ValueError\<close> (here \<open>None\<close>) on [].\<close>

fun max_from :: "('a \<Rightarrow> 'k::linorder) \<Rightarrow> 'a \<Rightarrow> 'a list \<Rightarrow> 'a" where
  "max_from f best [] = best"
| "max_from f best (x # xs) = max_from f (if f best < f x then x else best) xs"

definition py_max :: "('a \<Rightarrow> 'k::linorder) \<Rightarrow> 'a list \<Rightarrow> 'a option" where
  "py_max f xs = (case xs of [] \<Rightarrow> None | y # ys \<Rightarrow> Some (max_from f y ys))"

lemma max_from_in: "max_from f b xs \<in> insert b (set xs)"
  by (induction f b xs rule: max_from.induct) (auto split: if_splits)

lemma max_from_ge_best: "f b \<le> f (max_from f b xs)"
proof (induction f b xs rule: max_from.induct)
  case (2 f best x xs)
  then show ?case by (cases "f best < f x") auto
qed simp

lemma max_from_ge: "x \<in> set xs \<Longrightarrow> f x \<le> f (max_from f b xs)"
proof (induction f b xs rule: max_from.induct)
  case (2 f best y xs)
  show ?case
  proof (cases "x = y")
    case True
    have "f y \<le> f (if f best < f y then y else best)" by (cases "f best < f y") auto
    also have "\<dots> \<le> f (max_from f (if f best < f y then y else best) xs)"
      by (rule max_from_ge_best)
    finally show ?thesis using True by simp
  next
    case False
    with 2 show ?thesis by simp
  qed
qed simp

lemma py_max_eq_None [simp]: "py_max f xs = None \<longleftrightarrow> xs = []"
  by (simp add: py_max_def split: list.splits)

lemma py_max_in: "py_max f xs = Some m \<Longrightarrow> m \<in> set xs"
  using max_from_in by (fastforce simp: py_max_def split: list.splits)

lemma py_max_ge: "py_max f xs = Some m \<Longrightarrow> x \<in> set xs \<Longrightarrow> f x \<le> f m"
  by (auto simp: py_max_def max_from_ge max_from_ge_best split: list.splits)

text \<open>
  \<open>sorted(xs, key=f, reverse=True)\<close>: descending, elements with equal keys in their original
  order; CPython reverses, sorts ascending with a stable sort, and reverses again.
\<close>

definition sorted_desc :: "('a \<Rightarrow> 'k::linorder) \<Rightarrow> 'a list \<Rightarrow> 'a list" where
  "sorted_desc f xs = rev (sort_key f (rev xs))"

lemma set_sorted_desc [simp]: "set (sorted_desc f xs) = set xs"
  by (simp add: sorted_desc_def)

lemma length_sorted_desc [simp]: "length (sorted_desc f xs) = length xs"
  by (simp add: sorted_desc_def)

lemma distinct_sorted_desc [simp]: "distinct (sorted_desc f xs) = distinct xs"
  by (simp add: sorted_desc_def)

lemma sorted_desc_Nil [simp]: "sorted_desc f [] = []"
  by (simp add: sorted_desc_def)

lemma sorted_desc_sorted: "sorted (map f (rev (sorted_desc f xs)))"
  by (simp add: sorted_desc_def)

subsection \<open>Decimal rendering of integers: \<open>str(n)\<close>\<close>

definition digit_char :: "nat \<Rightarrow> char" where
  "digit_char d = char_of (48 + d)"

fun show_nat :: "nat \<Rightarrow> string" where
  "show_nat n = (if n < 10 then [digit_char n] else show_nat (n div 10) @ [digit_char (n mod 10)])"

declare show_nat.simps [simp del]

definition show_int :: "int \<Rightarrow> string" where
  "show_int i = (if i < 0 then CHR ''-'' # show_nat (nat (- i)) else show_nat (nat i))"

definition digit_value :: "char \<Rightarrow> nat option" where
  "digit_value c = (let n = code_point c in if 48 \<le> n \<and> n \<le> 57 then Some (n - 48) else None)"

fun read_digits :: "nat \<Rightarrow> string \<Rightarrow> nat option" where
  "read_digits acc [] = Some acc"
| "read_digits acc (c # cs) =
     (case digit_value c of None \<Rightarrow> None | Some d \<Rightarrow> read_digits (acc * 10 + d) cs)"

definition read_nat :: "string \<Rightarrow> nat option" where
  "read_nat s = (if s = [] then None else read_digits 0 s)"

definition read_int :: "string \<Rightarrow> int option" where
  "read_int s =
     (case s of
        [] \<Rightarrow> None
      | c # cs \<Rightarrow> if c = CHR ''-'' then map_option (\<lambda>n. - int n) (read_nat cs)
                  else map_option int (read_nat s))"

lemma digit_value_digit_char [simp]: "d < 10 \<Longrightarrow> digit_value (digit_char d) = Some d"
  by (simp add: digit_value_def digit_char_def code_point_def Let_def of_char_of)

lemma read_digits_append:
  "read_digits acc (xs @ ys) = Option.bind (read_digits acc xs) (\<lambda>a. read_digits a ys)"
  by (induction acc xs rule: read_digits.induct) (auto split: option.splits)

lemma read_digits_show_nat: "read_digits 0 (show_nat n) = Some n"
proof (induction n rule: show_nat.induct)
  case (1 n)
  show ?case
  proof (cases "n < 10")
    case True
    then show ?thesis by (subst show_nat.simps) simp
  next
    case False
    with 1 have "read_digits 0 (show_nat (n div 10)) = Some (n div 10)" by simp
    with False show ?thesis by (subst show_nat.simps) (simp add: read_digits_append)
  qed
qed

lemma show_nat_nonempty [simp]: "show_nat n \<noteq> []"
  by (subst show_nat.simps) simp

lemma read_nat_show_nat [simp]: "read_nat (show_nat n) = Some n"
  by (simp add: read_nat_def read_digits_show_nat)

lemma show_nat_head: "\<exists>c cs. show_nat n = c # cs \<and> digit_value c \<noteq> None"
proof -
  obtain c cs where s: "show_nat n = c # cs" by (cases "show_nat n") auto
  have "read_digits 0 (c # cs) = Some n" using read_digits_show_nat [of n] s by simp
  then have "digit_value c \<noteq> None" by (auto split: option.splits)
  with s show ?thesis by blast
qed

lemma read_int_show_int [simp]: "read_int (show_int i) = Some i"
proof (cases "i < 0")
  case True
  then show ?thesis by (simp add: show_int_def read_int_def)
next
  case False
  obtain c cs where s: "show_nat (nat i) = c # cs" and d: "digit_value c \<noteq> None"
    using show_nat_head by blast
  have "c \<noteq> CHR ''-''" using d by (auto simp: digit_value_def code_point_def)
  then have "read_int (show_nat (nat i)) = map_option int (read_nat (show_nat (nat i)))"
    by (simp add: read_int_def s)
  with False show ?thesis by (simp add: show_int_def)
qed

lemma show_int_inject [simp]: "show_int i = show_int j \<longleftrightarrow> i = j"
  by (metis option.inject read_int_show_int)

text \<open>Facts on characters that evaluate closed strings.\<close>

lemmas str_eval [py_str] =
  py_lower_def lower_char_def code_point_def is_space_def py_strip_def py_lstrip_def
  rstrip_by_def Let_def

end
