(* ===== verification/Py_Float.thy ===== *)
theory Py_Float
  imports Encodr_Prelude "HOL-Library.Log_Nat"
begin

text \<open>
  Python's \<open>float\<close>: binary64 values as rationals, every arithmetic operation rounded to the
  nearest value with a 53-bit significand, ties to even. The exponent is not bounded, so
  overflow to infinity, subnormals and NaN are not part of the model; the quantities of the
  code (sizes, bit rates, seconds, percentages) stay far from both ends.
\<close>

subsection \<open>Rounding to an integer: \<open>round(x)\<close>\<close>

definition round_even :: "rat \<Rightarrow> int" where
  "round_even x =
     (let f = \<lfloor>x\<rfloor>; d = x - of_int f in
      if d < 1/2 then f else if 1/2 < d then f + 1 else if even f then f else f + 1)"

text \<open>\<open>int(x)\<close> truncates towards zero, \<open>math.floor\<close> rounds down.\<close>

definition py_trunc :: "rat \<Rightarrow> int" where
  "py_trunc x = (if x < 0 then - \<lfloor>- x\<rfloor> else \<lfloor>x\<rfloor>)"

lemma round_even_bounds: "\<lfloor>x\<rfloor> \<le> round_even x" "round_even x \<le> \<lfloor>x\<rfloor> + 1"
  by (simp_all add: round_even_def Let_def)

lemma round_even_error: "\<bar>of_int (round_even x) - x\<bar> \<le> 1/2"
proof -
  have a: "of_int \<lfloor>x\<rfloor> \<le> x" "x < of_int \<lfloor>x\<rfloor> + 1" by linarith+
  show ?thesis using a by (auto simp: round_even_def Let_def abs_le_iff)
qed

lemma round_even_of_int [simp]: "round_even (of_int n) = n"
  by (simp add: round_even_def)

lemma round_even_mono: "x \<le> y \<Longrightarrow> round_even x \<le> round_even y"
proof -
  assume le: "x \<le> y"
  show ?thesis
  proof (cases "\<lfloor>x\<rfloor> = \<lfloor>y\<rfloor>")
    case True
    with le show ?thesis by (auto simp: round_even_def Let_def)
  next
    case False
    with le have "\<lfloor>x\<rfloor> + 1 \<le> \<lfloor>y\<rfloor>" by (meson floor_mono int_one_le_iff_zero_less le_less zle_add1_eq_le zless_add1_eq add1_zle_eq)
    then show ?thesis using round_even_bounds [of x] round_even_bounds [of y] by linarith
  qed
qed

lemma round_even_nonneg: "0 \<le> x \<Longrightarrow> 0 \<le> round_even x"
  using round_even_mono [of 0 x] round_even_of_int [of 0] by simp

lemma py_trunc_of_int [simp]: "py_trunc (of_int n) = n"
  by (simp add: py_trunc_def flip: of_int_minus)

lemma py_trunc_nonneg: "0 \<le> x \<Longrightarrow> 0 \<le> py_trunc x"
  by (simp add: py_trunc_def)

subsection \<open>The binade of a positive rational\<close>

definition floor_log2 :: "rat \<Rightarrow> int" where
  "floor_log2 x =
     (let (p, q) = quotient_of x; k = bitlen p - bitlen q in
      if 2 powi k \<le> x then k else k - 1)"

lemma powi_less_exp: "(2::rat) powi a < 2 powi b \<Longrightarrow> a < b"
  using power_int_increasing [of b a "2::rat"] by (meson linorder_not_le leD one_le_numeral)

lemma bitlen_powi:
  assumes "0 < (n::int)"
  shows "2 powi (bitlen n - 1) \<le> (of_int n :: rat)" "(of_int n :: rat) < 2 powi (bitlen n)"
proof -
  have b: "2 ^ nat (bitlen n - 1) \<le> n" "n < 2 ^ nat (bitlen n)"
    using bitlen_bounds [OF assms] by auto
  have pos: "0 < bitlen n"
    using assms bitlen_nonneg [of n] bitlen_eq_zero_iff [of n] by linarith
  have "(of_int (2 ^ nat (bitlen n - 1)) :: rat) \<le> of_int n"
    using b(1) by (simp only: of_int_le_iff)
  then show "2 powi (bitlen n - 1) \<le> (of_int n :: rat)"
    using pos by (simp add: power_int_def)
  have "(of_int n :: rat) < of_int (2 ^ nat (bitlen n))"
    using b(2) by (simp only: of_int_less_iff)
  then show "(of_int n :: rat) < 2 powi (bitlen n)"
    using pos by (simp add: power_int_def)
qed

lemma floor_log2_bounds:
  assumes "0 < x"
  shows "2 powi (floor_log2 x) \<le> x" "x < 2 powi (floor_log2 x + 1)"
proof -
  obtain p q where pq: "quotient_of x = (p, q)" by (cases "quotient_of x")
  have q: "0 < q" using quotient_of_denom_pos [OF pq] .
  have x: "x = of_int p / of_int q" using quotient_of_div [OF pq] .
  have p: "0 < p" using assms q unfolding x by (simp add: zero_less_divide_iff)
  let ?k = "bitlen p - bitlen q"
  have up: "x < 2 powi (?k + 1)"
  proof -
    have "x < 2 powi (bitlen p) / of_int q"
      unfolding x using bitlen_powi(2) [OF p] q by (simp add: divide_strict_right_mono)
    also have "\<dots> \<le> 2 powi (bitlen p) / 2 powi (bitlen q - 1)"
      using bitlen_powi(1) [OF q] q by (intro divide_left_mono) (auto simp: zero_less_power_int)
    also have "\<dots> = 2 powi (?k + 1)"
      by (simp flip: power_int_diff add: algebra_simps)
    finally show ?thesis .
  qed
  have lo: "2 powi (?k - 1) \<le> x"
  proof -
    have "2 powi (?k - 1) = (2 powi (bitlen p - 1) / 2 powi (bitlen q) :: rat)"
      by (simp flip: power_int_diff add: algebra_simps)
    also have "\<dots> \<le> 2 powi (bitlen p - 1) / of_int q"
      using bitlen_powi(2) [OF q] q by (intro divide_left_mono) (auto simp: zero_less_power_int)
    also have "\<dots> \<le> x"
      unfolding x using bitlen_powi(1) [OF p] q by (simp add: divide_right_mono)
    finally show ?thesis .
  qed
  show "2 powi (floor_log2 x) \<le> x" "x < 2 powi (floor_log2 x + 1)"
    using up lo by (auto simp: floor_log2_def pq Let_def)
qed

lemma floor_log2_unique:
  assumes "2 powi e \<le> x" "x < 2 powi (e + 1)"
  shows "floor_log2 x = e"
proof -
  have x: "0 < x" using assms(1) by (rule less_le_trans [rotated]) simp
  note b = floor_log2_bounds [OF x]
  have "(2::rat) powi e < 2 powi (floor_log2 x + 1)" using assms(1) b(2) by (rule le_less_trans)
  then have "e < floor_log2 x + 1" by (rule powi_less_exp)
  moreover have "(2::rat) powi (floor_log2 x) < 2 powi (e + 1)" using b(1) assms(2) by (rule le_less_trans)
  then have "floor_log2 x < e + 1" by (rule powi_less_exp)
  ultimately show ?thesis by simp
qed

lemma floor_log2_mono: "0 < x \<Longrightarrow> x \<le> y \<Longrightarrow> floor_log2 x \<le> floor_log2 y"
proof -
  assume "0 < x" "x \<le> y"
  then have "(2::rat) powi (floor_log2 x) < 2 powi (floor_log2 y + 1)"
    using floor_log2_bounds(1) [of x] floor_log2_bounds(2) [of y] by linarith
  then have "floor_log2 x < floor_log2 y + 1" by (rule powi_less_exp)
  then show ?thesis by simp
qed

subsection \<open>Rounding to binary64\<close>

definition ulp :: "rat \<Rightarrow> rat" where
  "ulp x = 2 powi (floor_log2 x - 52)"

definition fl_pos :: "rat \<Rightarrow> rat" where
  "fl_pos x = of_int (round_even (x / ulp x)) * ulp x"

definition fl64 :: "rat \<Rightarrow> rat" where
  "fl64 x = (if x = 0 then 0 else if x < 0 then - fl_pos (- x) else fl_pos x)"

lemma ulp_pos [simp]: "0 < ulp x"
  by (simp add: ulp_def)

lemma fl_pos_bounds:
  assumes "0 < x"
  shows "2 powi (floor_log2 x) \<le> fl_pos x" "fl_pos x \<le> 2 powi (floor_log2 x + 1)"
proof -
  let ?e = "floor_log2 x"
  have p: "(2::rat) powi a / 2 powi b = 2 powi (a - b)" for a b
    by (simp add: power_int_diff)
  have s1: "2 powi ?e / ulp x = of_int (2 ^ 52)" "2 powi (?e + 1) / ulp x = of_int (2 ^ 53)"
    unfolding ulp_def p by (simp_all add: power_int_def)
  have "2 powi ?e / ulp x \<le> x / ulp x" "x / ulp x \<le> 2 powi (?e + 1) / ulp x"
    by (rule divide_right_mono [OF floor_log2_bounds(1) [OF assms] less_imp_le [OF ulp_pos]],
        rule divide_right_mono [OF less_imp_le [OF floor_log2_bounds(2) [OF assms]] less_imp_le [OF ulp_pos]])
  then have "(of_int (2 ^ 52) :: rat) \<le> x / ulp x" "x / ulp x \<le> of_int (2 ^ 53)"
    unfolding s1 by simp_all
  from this [THEN round_even_mono]
  have "2 ^ 52 \<le> round_even (x / ulp x)" "round_even (x / ulp x) \<le> 2 ^ 53"
    by (simp_all only: round_even_of_int)
  then have r: "(of_int (2 ^ 52) :: rat) \<le> of_int (round_even (x / ulp x))"
      "(of_int (round_even (x / ulp x)) :: rat) \<le> of_int (2 ^ 53)"
    by (simp_all only: of_int_le_iff)
  have u: "of_int (2 ^ 52) * ulp x = 2 powi ?e" "of_int (2 ^ 53) * ulp x = 2 powi (?e + 1)"
    unfolding s1 [symmetric] using less_imp_neq [OF ulp_pos [of x], symmetric] by simp_all
  show "2 powi ?e \<le> fl_pos x"
    using mult_right_mono [OF r(1) less_imp_le [OF ulp_pos [of x]]] unfolding u fl_pos_def .
  show "fl_pos x \<le> 2 powi (?e + 1)"
    using mult_right_mono [OF r(2) less_imp_le [OF ulp_pos [of x]]] unfolding u fl_pos_def .
qed

lemma fl_pos_pos: "0 < x \<Longrightarrow> 0 < fl_pos x"
  by (rule less_le_trans [OF _ fl_pos_bounds(1)]) simp_all

lemma fl_pos_mono:
  assumes "0 < x" "x \<le> y"
  shows "fl_pos x \<le> fl_pos y"
proof (cases "floor_log2 x = floor_log2 y")
  case True
  then have u: "ulp x = ulp y" by (simp add: ulp_def)
  have "x / ulp y \<le> y / ulp y" using assms by (simp add: divide_right_mono less_imp_le)
  then have "round_even (x / ulp y) \<le> round_even (y / ulp y)" by (rule round_even_mono)
  then show ?thesis unfolding fl_pos_def u by (simp add: mult_right_mono less_imp_le)
next
  case False
  with floor_log2_mono [OF assms] have lt: "floor_log2 x + 1 \<le> floor_log2 y" by simp
  have "fl_pos x \<le> 2 powi (floor_log2 x + 1)" by (rule fl_pos_bounds(2) [OF assms(1)])
  also have "\<dots> \<le> 2 powi (floor_log2 y)" using lt by (intro power_int_increasing) auto
  also have "\<dots> \<le> fl_pos y" using assms by (intro fl_pos_bounds(1)) linarith
  finally show ?thesis .
qed

lemma fl64_zero [simp]: "fl64 0 = 0"
  by (simp add: fl64_def)

lemma fl64_minus: "fl64 (- x) = - fl64 x"
  by (simp add: fl64_def)

lemma fl64_pos_iff [simp]: "0 < fl64 x \<longleftrightarrow> 0 < x"
  using fl_pos_pos [of x] fl_pos_pos [of "- x"] by (auto simp: fl64_def)

lemma fl64_neg_iff [simp]: "fl64 x < 0 \<longleftrightarrow> x < 0"
  using fl64_pos_iff [of "- x"] by (simp add: fl64_minus)

lemma fl64_nonneg_iff [simp]: "0 \<le> fl64 x \<longleftrightarrow> 0 \<le> x"
  using fl64_neg_iff [of x] by linarith

lemma fl64_mono: "x \<le> y \<Longrightarrow> fl64 x \<le> fl64 y"
proof -
  assume le: "x \<le> y"
  consider "0 < x" | "y < 0" | "x \<le> 0" "0 \<le> y" by linarith
  then show ?thesis
  proof cases
    case 1
    with le show ?thesis by (simp add: fl64_def fl_pos_mono)
  next
    case 2
    with le have "fl_pos (- y) \<le> fl_pos (- x)" by (intro fl_pos_mono) auto
    with 2 le show ?thesis by (simp add: fl64_def)
  next
    case 3
    have "fl64 x \<le> 0" using fl64_pos_iff [of x] 3(1) by linarith
    also have "0 \<le> fl64 y" using 3(2) by simp
    finally show ?thesis .
  qed
qed

text \<open>Values with a 53-bit significand are exact; so are the integers up to \<open>2 ^ 53\<close>.\<close>

lemma fl_pos_exact:
  assumes "0 < x" "x = of_int m * ulp x"
  shows "fl_pos x = x"
proof -
  have "x / ulp x = of_int m"
    by (subst assms(2)) (simp add: less_imp_neq [OF ulp_pos, symmetric])
  then show ?thesis using assms(2) by (simp add: fl_pos_def)
qed

lemma fl_pos_of_int:
  assumes "0 < n" "n \<le> 2 ^ 53"
  shows "fl_pos (of_int n) = of_int n"
proof -
  let ?x = "of_int n :: rat"
  have x: "0 < ?x" using assms by simp
  show ?thesis
  proof (cases "n = 2 ^ 53")
    case True
    have "floor_log2 (of_int (2 ^ 53)) = 53"
      by (rule floor_log2_unique) (simp_all add: power_int_def)
    with True have "?x = of_int (2 ^ 52) * ulp ?x" by (simp add: ulp_def power_int_def)
    then show ?thesis by (rule fl_pos_exact [OF x])
  next
    case False
    with assms have "n < 2 ^ 53" by simp
    then have "?x < of_int (2 ^ 53)" by (simp only: of_int_less_iff)
    moreover have "2 powi (floor_log2 ?x) \<le> ?x" by (rule floor_log2_bounds [OF x])
    ultimately have "(2::rat) powi (floor_log2 ?x) < 2 powi 53" by (simp add: power_int_def)
    then have e: "floor_log2 ?x < 53" by (rule powi_less_exp)
    have "?x = of_int (n * 2 ^ nat (52 - floor_log2 ?x)) * ulp ?x"
    proof -
      have "ulp ?x = 1 / 2 powi (52 - floor_log2 ?x)"
        using power_int_diff [of "2::rat" 0 "52 - floor_log2 ?x"] by (simp add: ulp_def)
      also have "\<dots> = 1 / 2 ^ nat (52 - floor_log2 ?x)" using e by (simp add: power_int_def)
      finally show ?thesis by simp
    qed
    then show ?thesis by (rule fl_pos_exact [OF x])
  qed
qed

lemma fl64_of_int: "\<bar>n\<bar> \<le> 2 ^ 53 \<Longrightarrow> fl64 (of_int n) = of_int n"
  using fl_pos_of_int [of n] fl_pos_of_int [of "- n"] by (auto simp: fl64_def)

lemma fl64_numeral: "(numeral k :: int) \<le> 2 ^ 53 \<Longrightarrow> fl64 (numeral k) = numeral k"
  using fl64_of_int [of "numeral k"] by simp

subsection \<open>Arithmetic\<close>

text \<open>Python's \<open>*\<close>, \<open>/\<close>, \<open>+\<close>, \<open>-\<close> on floats; an \<open>int\<close> operand is converted first (\<open>to_float\<close>).\<close>

definition to_float :: "int \<Rightarrow> rat" where "to_float n = fl64 (of_int n)"
definition fmul :: "rat \<Rightarrow> rat \<Rightarrow> rat" where "fmul x y = fl64 (x * y)"
definition fdiv :: "rat \<Rightarrow> rat \<Rightarrow> rat" where "fdiv x y = fl64 (x / y)"
definition fadd :: "rat \<Rightarrow> rat \<Rightarrow> rat" where "fadd x y = fl64 (x + y)"
definition fsub :: "rat \<Rightarrow> rat \<Rightarrow> rat" where "fsub x y = fl64 (x - y)"

text \<open>\<open>int / int\<close> is correctly rounded from the exact quotient; the divisor is never 0 where used.\<close>

definition int_div :: "int \<Rightarrow> int \<Rightarrow> rat" where
  "int_div a b = fl64 (of_int a / of_int b)"

lemma to_float_exact: "\<bar>n\<bar> \<le> 2 ^ 53 \<Longrightarrow> to_float n = of_int n"
  by (simp add: to_float_def fl64_of_int)

lemma to_float_mono: "m \<le> n \<Longrightarrow> to_float m \<le> to_float n"
  by (simp add: to_float_def fl64_mono)

lemma fmul_mono: "x \<le> y \<Longrightarrow> 0 \<le> z \<Longrightarrow> fmul x z \<le> fmul y z"
  by (simp add: fmul_def fl64_mono mult_right_mono)

end
