(* ===== verification/Py_Path.thy ===== *)
theory Py_Path
  imports Encodr_Prelude
begin

text \<open>
  \<open>pathlib.PurePosixPath\<close> (Python 3.11 to 3.13): the anchor and the list of components, with
  the lexical operations the code uses. Operations that ask the file system (\<open>exists\<close>,
  \<open>resolve\<close>) are not here: the components that need them take a file-system state or a
  function.
\<close>

record path =
  root :: string
  parts :: "string list"

definition keep_part :: "string \<Rightarrow> bool" where
  "keep_part w \<longleftrightarrow> w \<noteq> [] \<and> w \<noteq> ''.''"

definition split_root :: "string \<Rightarrow> string \<times> string" where
  "split_root s =
     (if prefix ''//'' s \<and> \<not> prefix ''///'' s then (''//'', drop 2 s)
      else if prefix ''/'' s then (''/'', dropWhile (\<lambda>c. c = CHR ''/'') s)
      else ('''', s))"

definition path_of :: "string \<Rightarrow> path" where
  "path_of s = (let (r, rest) = split_root s in
     \<lparr>root = r, parts = filter keep_part (split_on (CHR ''/'') rest)\<rparr>)"

definition as_posix :: "path \<Rightarrow> string" where
  "as_posix p =
     (if root p = [] \<and> parts p = [] then ''.'' else root p @ py_join ''/'' (parts p))"

text \<open>The shape every parsed path has; lexical operations keep it.\<close>

definition wf_name :: "string \<Rightarrow> bool" where
  "wf_name w \<longleftrightarrow> keep_part w \<and> CHR ''/'' \<notin> set w"

definition wf_path :: "path \<Rightarrow> bool" where
  "wf_path p \<longleftrightarrow> root p \<in> {'''', ''/'', ''//''} \<and> (\<forall>w\<in>set (parts p). wf_name w)"

definition path_name :: "path \<Rightarrow> string" where
  "path_name p = (if parts p = [] then [] else last (parts p))"

definition parent :: "path \<Rightarrow> path" where
  "parent p = p\<lparr>parts := butlast (parts p)\<rparr>"

text \<open>The split of a file name at its last dot, when the dot is neither first nor last.\<close>

definition split_dot :: "string \<Rightarrow> (string \<times> string) option" where
  "split_dot name =
     (let r = takeWhile (\<lambda>c. c \<noteq> CHR ''.'') (rev name);
          i = length name - length r - 1
      in if CHR ''.'' \<in> set name \<and> 0 < i \<and> r \<noteq> [] then Some (take i name, drop i name) else None)"

definition name_suffix :: "string \<Rightarrow> string" where
  "name_suffix name = (case split_dot name of None \<Rightarrow> [] | Some (_, s) \<Rightarrow> s)"

definition name_stem :: "string \<Rightarrow> string" where
  "name_stem name = (case split_dot name of None \<Rightarrow> name | Some (s, _) \<Rightarrow> s)"

definition path_suffix :: "path \<Rightarrow> string" where
  "path_suffix p = name_suffix (path_name p)"

definition path_stem :: "path \<Rightarrow> string" where
  "path_stem p = name_stem (path_name p)"

text \<open>\<open>with_name\<close> and \<open>with_suffix\<close>; a \<open>ValueError\<close> is \<open>None\<close>.\<close>

definition with_name :: "path \<Rightarrow> string \<Rightarrow> path option" where
  "with_name p n =
     (if path_name p = [] \<or> \<not> wf_name n then None
      else Some (p\<lparr>parts := butlast (parts p) @ [n]\<rparr>))"

definition with_suffix :: "path \<Rightarrow> string \<Rightarrow> path option" where
  "with_suffix p ext =
     (if (ext \<noteq> [] \<and> \<not> prefix ''.'' ext) \<or> ext = ''.'' then None
      else with_name p (path_stem p @ ext))"

definition join_path :: "path \<Rightarrow> string \<Rightarrow> path" where
  "join_path p s =
     (let q = path_of s in
      if root q \<noteq> [] then q else p\<lparr>parts := parts p @ parts q\<rparr>)"

subsection \<open>Parsing and printing\<close>

lemma wf_nameD: "wf_name w \<Longrightarrow> w \<noteq> [] \<and> w \<noteq> ''.'' \<and> CHR ''/'' \<notin> set w"
  by (simp add: wf_name_def keep_part_def)

lemma join_parts_head:
  assumes "\<forall>w\<in>set ws. wf_name w"
  shows "\<not> prefix ''/'' (py_join ''/'' ws)"
proof (cases ws rule: remdups_adj.cases)
  case (2 x)
  with assms show ?thesis by (cases x) (auto dest: wf_nameD)
next
  case (3 x y zs)
  with assms show ?thesis by (cases x) (auto dest: wf_nameD)
qed simp

lemma split_join_parts:
  assumes "\<forall>w\<in>set ws. wf_name w"
  shows "filter keep_part (split_on (CHR ''/'') (py_join ''/'' ws)) = ws"
proof (cases "ws = []")
  case True
  then show ?thesis by (simp add: keep_part_def)
next
  case False
  have "split_on (CHR ''/'') (py_join ''/'' ws) = ws"
    by (rule split_on_join) (use False assms in \<open>auto dest: wf_nameD\<close>)
  then show ?thesis using assms by (auto simp: wf_name_def intro!: filter_True)
qed

lemma split_root_append:
  assumes "r \<in> {'''', ''/'', ''//''}" "\<not> prefix ''/'' s"
  shows "split_root (r @ s) = (r, s)"
  using assms by (cases s) (auto simp: split_root_def)

lemma path_of_as_posix:
  assumes "wf_path p"
  shows "path_of (as_posix p) = p"
proof (cases "root p = [] \<and> parts p = []")
  case True
  then have "as_posix p = ''.''" by (simp add: as_posix_def)
  moreover have "path_of ''.'' = \<lparr>root = [], parts = []\<rparr>"
    by (simp add: path_of_def split_root_def keep_part_def)
  ultimately show ?thesis using True by (cases p) simp
next
  case False
  have h: "\<not> prefix ''/'' (py_join ''/'' (parts p))"
    using assms by (intro join_parts_head) (simp add: wf_path_def)
  have "split_root (as_posix p) = (root p, py_join ''/'' (parts p))"
    using split_root_append [OF _ h, of "root p"] assms False
    by (auto simp: as_posix_def wf_path_def)
  then show ?thesis
    using assms by (cases p) (auto simp: path_of_def wf_path_def split_join_parts)
qed

lemma wf_path_of: "wf_path (path_of s)"
proof -
  have "\<forall>w\<in>set (filter keep_part (split_on (CHR ''/'') t)). wf_name w" for t
    by (auto simp: wf_name_def dest: split_on_no_sep)
  then show ?thesis
    by (auto simp: wf_path_def path_of_def split_root_def Let_def)
qed

lemma as_posix_inject: "wf_path p \<Longrightarrow> wf_path q \<Longrightarrow> as_posix p = as_posix q \<longleftrightarrow> p = q"
  using path_of_as_posix by metis

subsection \<open>Names\<close>

lemma split_dot_append: "split_dot n = Some (a, b) \<Longrightarrow> n = a @ b \<and> a \<noteq> [] \<and> b \<noteq> []"
  by (auto simp: split_dot_def Let_def split: if_splits)

lemma stem_suffix: "name_stem n @ name_suffix n = n"
  by (auto simp: name_stem_def name_suffix_def dest!: split_dot_append split: option.splits)

lemma name_stem_nonempty: "n \<noteq> [] \<Longrightarrow> name_stem n \<noteq> []"
  by (auto simp: name_stem_def dest: split_dot_append split: option.splits)

lemma takeWhile_stop: "\<forall>x\<in>set xs. p x \<Longrightarrow> \<not> p y \<Longrightarrow> takeWhile p (xs @ y # ys) = xs"
  by (induction xs) auto

lemma split_dot_snoc:
  assumes "a \<noteq> []" "e \<noteq> []" "CHR ''.'' \<notin> set e"
  shows "split_dot (a @ CHR ''.'' # e) = Some (a, CHR ''.'' # e)"
proof -
  have t: "takeWhile (\<lambda>c. c \<noteq> CHR ''.'') (rev (a @ CHR ''.'' # e)) = rev e"
    using assms(3) by (auto intro!: takeWhile_stop simp del: rev_append simp add: rev_append)
  show ?thesis
    unfolding split_dot_def Let_def t using assms by simp
qed

lemma name_suffix_ext:
  "a \<noteq> [] \<Longrightarrow> e \<noteq> [] \<Longrightarrow> CHR ''.'' \<notin> set e \<Longrightarrow> name_suffix (a @ CHR ''.'' # e) = CHR ''.'' # e"
  by (simp add: name_suffix_def split_dot_snoc)

lemma name_stem_ext:
  "a \<noteq> [] \<Longrightarrow> e \<noteq> [] \<Longrightarrow> CHR ''.'' \<notin> set e \<Longrightarrow> name_stem (a @ CHR ''.'' # e) = a"
  by (simp add: name_stem_def split_dot_snoc)

lemma with_name_Some:
  "with_name p n = Some q \<longleftrightarrow> path_name p \<noteq> [] \<and> wf_name n \<and> q = p\<lparr>parts := butlast (parts p) @ [n]\<rparr>"
  by (auto simp: with_name_def)

lemma with_name_name: "with_name p n = Some q \<Longrightarrow> path_name q = n"
  by (auto simp: with_name_Some path_name_def)

lemma with_name_parent: "with_name p n = Some q \<Longrightarrow> parent q = parent p"
  by (auto simp: with_name_Some parent_def)

lemma with_name_wf: "wf_path p \<Longrightarrow> with_name p n = Some q \<Longrightarrow> wf_path q"
  by (auto simp: with_name_Some wf_path_def dest: in_set_butlastD)

lemma with_name_eq_iff:
  "with_name p n = Some q \<Longrightarrow> with_name p m = Some r \<Longrightarrow> q = r \<longleftrightarrow> n = m"
  by (metis option.inject with_name_name)

lemma with_name_self: "with_name p n = Some q \<Longrightarrow> q = p \<longleftrightarrow> n = path_name p"
proof
  assume q: "with_name p n = Some q"
  show "n = path_name p" if "q = p" using that with_name_name [OF q] by simp
  show "q = p" if "n = path_name p"
    using q that by (cases p) (auto simp: with_name_Some path_name_def split: if_splits)
qed

lemma set_name_suffix: "set (name_suffix n) \<subseteq> set n"
  using stem_suffix [of n] by (metis Un_upper2 set_append)

lemma set_name_stem: "set (name_stem n) \<subseteq> set n"
  using stem_suffix [of n] by (metis Un_upper1 set_append)

subsection \<open>Prefixes\<close>

lemma no_slash: "wf_path p \<Longrightarrow> w \<in> set (parts p) \<Longrightarrow> CHR ''/'' \<notin> set w"
  by (auto simp: wf_path_def dest: wf_nameD)

lemma join_last:
  "\<forall>w\<in>set ws. wf_name w \<Longrightarrow> ws \<noteq> [] \<Longrightarrow> py_join ''/'' ws \<noteq> [] \<and> last (py_join ''/'' ws) \<noteq> CHR ''/''"
proof (induction ws rule: rev_induct)
  case (snoc x xs)
  then have x: "x \<noteq> []" "CHR ''/'' \<notin> set x" by (auto dest: wf_nameD)
  then have "last x \<noteq> CHR ''/''" using last_in_set [of x] by metis
  note x = x(1) this
  show ?case
  proof (cases "xs = []")
    case False
    then have "py_join ''/'' (xs @ [x]) = py_join ''/'' xs @ ''/'' @ x" by (simp add: py_join_append)
    then show ?thesis using x by simp
  qed (use x in simp)
qed simp

lemma join_prefix_iff:
  assumes ws: "ws \<noteq> []" "\<forall>w\<in>set ws. wf_name w" and vs: "\<forall>v\<in>set vs. wf_name v"
  shows "py_join ''/'' vs = py_join ''/'' ws \<or> prefix (py_join ''/'' ws @ ''/'') (py_join ''/'' vs)
     \<longleftrightarrow> prefix ws vs"
proof -
  have ns: "\<forall>w\<in>set ws. CHR ''/'' \<notin> set w" "\<forall>v\<in>set vs. CHR ''/'' \<notin> set v"
    using ws(2) vs by (auto dest: wf_nameD)
  show ?thesis (is "?L \<longleftrightarrow> ?R")
  proof (rule iffI)
    assume "py_join ''/'' vs = py_join ''/'' ws \<or> prefix (py_join ''/'' ws @ ''/'') (py_join ''/'' vs)"
    then show "prefix ws vs"
    proof
      assume "py_join ''/'' vs = py_join ''/'' ws"
      then have "vs = ws" using split_join_parts [OF vs] split_join_parts [OF ws(2)] by metis
      then show ?thesis by simp
    next
      assume "prefix (py_join ''/'' ws @ ''/'') (py_join ''/'' vs)"
      then obtain r where r: "py_join ''/'' vs = py_join ''/'' ws @ CHR ''/'' # r"
        by (auto simp: prefix_def)
      then have v: "vs \<noteq> []" by auto
      have "vs = split_on (CHR ''/'') (py_join ''/'' vs)" using split_on_join [OF v ns(2)] by simp
      also have "\<dots> = ws @ split_on (CHR ''/'') r" unfolding r by (rule split_on_join_append [OF ws(1) ns(1)])
      finally show ?thesis by (metis prefixI)
    qed
  next
    assume "prefix ws vs"
    then obtain us where us: "vs = ws @ us" by (auto simp: prefix_def)
    show "py_join ''/'' vs = py_join ''/'' ws \<or> prefix (py_join ''/'' ws @ ''/'') (py_join ''/'' vs)"
      using ws(1) by (cases "us = []") (auto simp: us py_join_append)
  qed
qed

lemma root_cancel:
  assumes "r1 \<in> {'''', ''/'', ''//''}" "r2 \<in> {'''', ''/'', ''//''}"
    "\<not> prefix ''/'' a" "\<not> prefix ''/'' b" "a \<noteq> []" "b \<noteq> []"
  shows "prefix (r1 @ a) (r2 @ b) \<longleftrightarrow> r1 = r2 \<and> prefix a b" "r2 @ b = r1 @ a \<longleftrightarrow> r1 = r2 \<and> b = a"
  using assms by (cases a; cases b; auto)+

end
