(* ===== verification/Media.thy ===== *)
theory Media
  imports Py_Float Py_Path
begin

text \<open>
  The media model (\<open>encodr_core/media\<close>): streams, containers and files as the probe
  normaliser builds them, the bit-rate quality helpers of \<open>quality.py\<close>, and the file-name
  exclusions of \<open>exclusions.py\<close>. Raw probe payloads kept on the models are JSON values.
\<close>

datatype json =
    JNull | JBool bool | JInt int | JFloat rat | JStr string
  | JList "json list" | JObj "(string \<times> json) list"

text \<open>The truth value of a JSON value.\<close>

fun json_truthy :: "json \<Rightarrow> bool" where
  "json_truthy JNull = False"
| "json_truthy (JBool b) = b"
| "json_truthy (JInt n) = (n \<noteq> 0)"
| "json_truthy (JFloat x) = (x \<noteq> 0)"
| "json_truthy (JStr s) = (s \<noteq> [])"
| "json_truthy (JList xs) = (xs \<noteq> [])"
| "json_truthy (JObj kvs) = (kvs \<noteq> [])"

text \<open>\<open>d.get(key)\<close> of a dictionary given by its items; a missing key is \<open>None\<close>.\<close>

definition jget :: "(string \<times> json) list \<Rightarrow> string \<Rightarrow> json" where
  "jget d k = (case map_of d k of None \<Rightarrow> JNull | Some v \<Rightarrow> v)"

fun json_text :: "(json \<Rightarrow> string) \<Rightarrow> json \<Rightarrow> string" where
  "json_text repr (JStr s) = s"
| "json_text repr v = repr v"

datatype stream_type = ST_VIDEO | ST_AUDIO | ST_SUBTITLE | ST_ATTACHMENT | ST_DATA | ST_UNKNOWN

datatype subtitle_kind = SK_TEXT | SK_IMAGE | SK_DATA | SK_UNKNOWN

record stream_disposition =
  d_default :: bool
  d_dub :: bool
  d_original :: bool
  d_commentary :: bool
  d_lyrics :: bool
  d_karaoke :: bool
  d_forced :: bool
  d_hearing_impaired :: bool
  d_visual_impaired :: bool
  d_clean_effects :: bool
  d_attached_pic :: bool
  d_timed_thumbnails :: bool
  d_captions :: bool
  d_descriptions :: bool
  d_metadata :: bool
  d_dependent :: bool
  d_still_image :: bool
  d_raw :: "(string \<times> bool) list"

definition StreamDisposition :: stream_disposition where
  "StreamDisposition = \<lparr>d_default = False, d_dub = False, d_original = False,
     d_commentary = False, d_lyrics = False, d_karaoke = False, d_forced = False,
     d_hearing_impaired = False, d_visual_impaired = False, d_clean_effects = False,
     d_attached_pic = False, d_timed_thumbnails = False, d_captions = False,
     d_descriptions = False, d_metadata = False, d_dependent = False, d_still_image = False,
     d_raw = []\<rparr>"

record stream_tags =
  t_language :: "string option"
  t_title :: "string option"
  t_handler_name :: "string option"
  t_vendor_id :: "string option"
  t_mimetype :: "string option"
  t_filename :: "string option"
  t_raw :: "(string \<times> string) list"

definition StreamTags :: stream_tags where
  "StreamTags = \<lparr>t_language = None, t_title = None, t_handler_name = None, t_vendor_id = None,
     t_mimetype = None, t_filename = None, t_raw = []\<rparr>"

record dynamic_range_metadata =
  dr_is_hdr_candidate :: bool
  dr_is_dolby_vision_candidate :: bool
  dr_side_data_types :: "string list"
  dr_mastering_display_metadata_present :: bool
  dr_content_light_metadata_present :: bool
  dr_dolby_vision_metadata_present :: bool
  dr_hdr_format :: "string option"

definition DynamicRangeMetadata :: dynamic_range_metadata where
  "DynamicRangeMetadata = \<lparr>dr_is_hdr_candidate = False, dr_is_dolby_vision_candidate = False,
     dr_side_data_types = [], dr_mastering_display_metadata_present = False,
     dr_content_light_metadata_present = False, dr_dolby_vision_metadata_present = False,
     dr_hdr_format = None\<rparr>"

record base_stream =
  index :: int
  stream_order :: int
  stream_type :: stream_type
  codec_name :: "string option"
  codec_long_name :: "string option"
  profile :: "string option"
  codec_tag_string :: "string option"
  codec_tag :: "string option"
  tags :: stream_tags
  disposition :: stream_disposition
  raw_stream :: "(string \<times> json) list"

definition language :: "'a base_stream_scheme \<Rightarrow> string option" where
  "language s = t_language (tags s)"

definition title :: "'a base_stream_scheme \<Rightarrow> string option" where
  "title s = t_title (tags s)"

record video_stream = base_stream +
  width :: "int option"
  height :: "int option"
  coded_width :: "int option"
  coded_height :: "int option"
  sample_aspect_ratio :: "string option"
  display_aspect_ratio :: "string option"
  pixel_format :: "string option"
  field_order :: "string option"
  frame_rate :: "rat option"
  raw_frame_rate :: "string option"
  average_frame_rate :: "rat option"
  raw_average_frame_rate :: "string option"
  v_bit_rate :: "int option"
  v_level :: "int option"
  color_range :: "string option"
  color_space :: "string option"
  color_transfer :: "string option"
  color_primaries :: "string option"
  chroma_location :: "string option"
  bits_per_raw_sample :: "int option"
  dynamic_range :: dynamic_range_metadata
  v_is_4k :: bool

record audio_stream = base_stream +
  channels :: "int option"
  channel_layout :: "string option"
  sample_rate_hz :: "int option"
  a_bit_rate :: "int option"
  is_commentary_candidate :: bool
  is_surround_candidate :: bool
  is_atmos_capable :: bool

record subtitle_stream = base_stream +
  subtitle_kind :: subtitle_kind
  is_forced :: bool
  is_hearing_impaired_candidate :: bool

record media_chapter =
  ch_id :: "int option"
  ch_time_base :: "string option"
  ch_start :: "int option"
  ch_start_time :: "rat option"
  ch_end :: "int option"
  ch_end_time :: "rat option"
  ch_title :: "string option"
  ch_tags :: "(string \<times> string) list"

record container_format =
  c_file_path :: path
  c_file_name :: string
  c_extension :: "string option"
  format_name :: "string option"
  format_long_name :: "string option"
  duration_seconds :: "rat option"
  start_time_seconds :: "rat option"
  c_bit_rate :: "int option"
  size_bytes :: "int option"
  probe_score :: "int option"
  stream_count :: nat
  c_tags :: "(string \<times> string) list"

record media_file =
  container :: container_format
  video_streams :: "video_stream list"
  audio_streams :: "audio_stream list"
  subtitle_streams :: "subtitle_stream list"
  attachment_streams :: "base_stream list"
  data_streams :: "base_stream list"
  unknown_streams :: "base_stream list"
  chapters :: "media_chapter list"
  raw_format :: "(string \<times> json) list"
  is_4k :: bool
  is_hdr_candidate :: bool
  has_english_audio :: bool
  has_forced_english_subtitle :: bool
  has_surround_audio :: bool
  has_atmos_capable_audio :: bool

definition file_path :: "media_file \<Rightarrow> path" where
  "file_path m = c_file_path (container m)"

definition file_name :: "media_file \<Rightarrow> string" where
  "file_name m = c_file_name (container m)"

definition extension :: "media_file \<Rightarrow> string option" where
  "extension m = c_extension (container m)"

text \<open>The default instances of the stream models, from which closed examples are built.\<close>

definition base_defaults :: "int \<Rightarrow> stream_type \<Rightarrow> base_stream" where
  "base_defaults i ty = \<lparr>index = i, stream_order = i, stream_type = ty, codec_name = None,
     codec_long_name = None, profile = None, codec_tag_string = None, codec_tag = None,
     tags = StreamTags, disposition = StreamDisposition, raw_stream = []\<rparr>"

definition AudioStream :: "int \<Rightarrow> audio_stream" where
  "AudioStream i = base_stream.extend (base_defaults i ST_AUDIO)
     (audio_stream.fields None None None None False False False)"

definition SubtitleStream :: "int \<Rightarrow> subtitle_stream" where
  "SubtitleStream i = base_stream.extend (base_defaults i ST_SUBTITLE)
     (subtitle_stream.fields SK_UNKNOWN False False)"

definition VideoStream :: "int \<Rightarrow> video_stream" where
  "VideoStream i = base_stream.extend (base_defaults i ST_VIDEO)
     (video_stream.fields None None None None None None None None None None None None None None
        None None None None None None DynamicRangeMetadata False)"

definition ContainerFormat :: "path \<Rightarrow> nat \<Rightarrow> container_format" where
  "ContainerFormat p n = \<lparr>c_file_path = p, c_file_name = path_name p, c_extension = None,
     format_name = None, format_long_name = None, duration_seconds = None,
     start_time_seconds = None, c_bit_rate = None, size_bytes = None, probe_score = None,
     stream_count = n, c_tags = []\<rparr>"

definition MediaFile :: "container_format \<Rightarrow> media_file" where
  "MediaFile c = \<lparr>container = c, video_streams = [], audio_streams = [], subtitle_streams = [],
     attachment_streams = [], data_streams = [], unknown_streams = [], chapters = [],
     raw_format = [], is_4k = False, is_hdr_candidate = False, has_english_audio = False,
     has_forced_english_subtitle = False, has_surround_audio = False,
     has_atmos_capable_audio = False\<rparr>"

text \<open>\<open>value or "und"\<close>, written three times in the code.\<close>

definition language_code :: "string option \<Rightarrow> string" where
  "language_code v = or_str v ''und''"

lemma language_code_simps [simp]:
  "language_code None = ''und''"
  "language_code (Some []) = ''und''"
  "language_code (Some (c # cs)) = c # cs"
  by (simp_all add: language_code_def)

lemma language_code_nonempty [simp]: "language_code v \<noteq> []"
  by (cases v) (auto simp: language_code_def)

lemma language_code_idem [simp]: "language_code (Some (language_code v)) = language_code v"
  by (cases v) (auto simp: language_code_def)

subsection \<open>Bit-rate helpers (\<open>quality.py\<close>)\<close>

definition mbps_to_bps :: "rat option \<Rightarrow> int option" where
  "mbps_to_bps v = map_option (\<lambda>x. round_even (fmul x 1000000)) v"

definition stream_height :: "video_stream \<Rightarrow> int option" where
  "stream_height v = int_or (height v) (coded_height v)"

definition resolution_bucket :: "video_stream \<Rightarrow> string" where
  "resolution_bucket v =
     (case stream_height v of
        None \<Rightarrow>
          (case int_or (width v) (coded_width v) of
             Some w \<Rightarrow> if w \<le> 1280 then ''720p'' else ''1080p''
           | None \<Rightarrow> ''1080p'')
      | Some h \<Rightarrow> if h \<le> 720 then ''720p'' else ''1080p'')"

definition low_bitrate_threshold_bps :: "video_stream \<Rightarrow> rat option \<Rightarrow> rat option \<Rightarrow> int option" where
  "low_bitrate_threshold_bps v t1080 t720 =
     mbps_to_bps (if resolution_bucket v = ''720p'' then t720 else t1080)"

definition minimum_output_bitrate_bps :: "video_stream \<Rightarrow> rat option \<Rightarrow> rat option \<Rightarrow> int option" where
  "minimum_output_bitrate_bps v f1080 f720 =
     mbps_to_bps (if resolution_bucket v = ''720p'' then f720 else f1080)"

definition is_low_bitrate_source :: "video_stream \<Rightarrow> int option \<Rightarrow> bool" where
  "is_low_bitrate_source v threshold =
     (case (threshold, v_bit_rate v) of (Some t, Some b) \<Rightarrow> b < t | _ \<Rightarrow> False)"

text \<open>\<open>format(x, ".kf")\<close>: the exact binary value rounded to \<open>k\<close> decimals, ties to even.\<close>

definition pad_left :: "nat \<Rightarrow> string \<Rightarrow> string" where
  "pad_left k s = replicate (k - length s) (CHR ''0'') @ s"

definition format_fixed :: "nat \<Rightarrow> rat \<Rightarrow> string" where
  "format_fixed k x =
     (let n = round_even (\<bar>x\<bar> * 10 ^ k); q = nat n div 10 ^ k; r = nat n mod 10 ^ k in
      (if x < 0 then ''-'' else []) @ show_nat q @
      (if k = 0 then [] else ''.'' @ pad_left k (show_nat r)))"

definition format_bitrate :: "rat option \<Rightarrow> string" where
  "format_bitrate bps =
     (case bps of
        None \<Rightarrow> ''unknown''
      | Some b \<Rightarrow>
          let mbps = fdiv (fl64 b) 1000000 in
          (if 10 \<le> mbps then format_fixed 1 mbps else format_fixed 2 mbps) @ '' Mbps'')"

lemma resolution_bucket_cases: "resolution_bucket v = ''720p'' \<or> resolution_bucket v = ''1080p''"
  by (auto simp: resolution_bucket_def split: option.splits)

lemma mbps_to_bps_nonneg: "mbps_to_bps (Some x) = Some b \<Longrightarrow> 0 \<le> x \<Longrightarrow> 0 \<le> b"
  by (auto simp: mbps_to_bps_def fmul_def intro!: round_even_nonneg)

lemma mbps_to_bps_mono: "x \<le> y \<Longrightarrow> mbps_to_bps (Some x) = Some b \<Longrightarrow> mbps_to_bps (Some y) = Some c \<Longrightarrow> b \<le> c"
  by (auto simp: mbps_to_bps_def intro!: round_even_mono fmul_mono)

text \<open>Whole megabits per second convert exactly.\<close>

lemma mbps_to_bps_whole: "\<bar>n\<bar> \<le> 9007199254 \<Longrightarrow> mbps_to_bps (Some (of_int n)) = Some (n * 1000000)"
proof -
  assume "\<bar>n\<bar> \<le> 9007199254"
  then have "\<bar>n * 1000000\<bar> \<le> 2 ^ 53" by (simp add: abs_mult)
  from fl64_of_int [OF this] show ?thesis by (simp add: mbps_to_bps_def fmul_def) (metis of_int_mult of_int_numeral round_even_of_int)
qed

subsection \<open>Files Encodr must not process (\<open>exclusions.py\<close>)\<close>

datatype exclusion = BACKUP_FILE | RESTORED_REPLACEMENT | TEMP_FILE | SCRATCH_FILE

text \<open>
  \<open>_is_relative_to\<close>: both paths are resolved by the file system (\<open>resolve\<close>, \<open>None\<close> when it
  raises \<open>OSError\<close> or \<open>RuntimeError\<close>), then compared component by component.
\<close>

definition is_relative_to :: "(path \<Rightarrow> path option) \<Rightarrow> path \<Rightarrow> path \<Rightarrow> bool" where
  "is_relative_to resolve p par =
     (case (resolve p, resolve par) of
        (Some a, Some b) \<Rightarrow> root a = root b \<and> prefix (parts b) (parts a)
      | _ \<Rightarrow> False)"

definition encodr_exclusion_reason ::
    "(path \<Rightarrow> path option) \<Rightarrow> path \<Rightarrow> path option \<Rightarrow> exclusion option" where
  "encodr_exclusion_reason resolve p scratch_dir =
     (let name = py_lower (path_name p) in
      if (case scratch_dir of None \<Rightarrow> False | Some d \<Rightarrow> is_relative_to resolve p d) then Some SCRATCH_FILE
      else if py_in ''.encodr-backup.'' name \<or> suffix ''.encodr-backup'' name then Some BACKUP_FILE
      else if py_in ''.encodr-restored-replacement.'' name
              \<or> suffix ''.encodr-restored-replacement'' name then Some RESTORED_REPLACEMENT
      else if py_in ''.tmp.'' name \<or> suffix ''.tmp'' name then Some TEMP_FILE
      else if py_in ''.partial.'' name \<or> suffix ''.partial'' name then Some TEMP_FILE
      else if py_in ''.encodr-scratch.'' name \<or> prefix ''encodr-scratch.'' name then Some SCRATCH_FILE
      else None)"

definition is_encodr_excluded_path :: "(path \<Rightarrow> path option) \<Rightarrow> path \<Rightarrow> path option \<Rightarrow> bool" where
  "is_encodr_excluded_path resolve p scratch_dir =
     (encodr_exclusion_reason resolve p scratch_dir \<noteq> None)"

end
