(* ===== verification/Policy.thy ===== *)
theory Policy
  imports Media
begin

text \<open>
  The processing policy (\<open>encodr_core/config/base.py\<close>, \<open>policy.py\<close>, \<open>profiles.py\<close>): rule
  records, the constraints and validators that run when a rule model is constructed, and the
  profile overrides with every field optional. A construction that pydantic rejects is \<open>Inl\<close>:
  a declared field constraint or a \<open>ValueError\<close> raised by a validator.
\<close>

subsection \<open>Enumerations\<close>

datatype output_container = MKV | MP4
datatype policy_decision = D_SKIP | D_REMUX | D_TRANSCODE
datatype video_codec = H264 | HEVC | AV1 | MPEG2 | VP9
datatype video_quality_mode = HIGH_QUALITY | BALANCED | EFFICIENT
datatype four_k_mode = STRIP_ONLY | POLICY_CONTROLLED

fun output_container_value :: "output_container \<Rightarrow> string" where
  "output_container_value MKV = ''mkv''"
| "output_container_value MP4 = ''mp4''"

fun video_codec_value :: "video_codec \<Rightarrow> string" where
  "video_codec_value H264 = ''h264''"
| "video_codec_value HEVC = ''hevc''"
| "video_codec_value AV1 = ''av1''"
| "video_codec_value MPEG2 = ''mpeg2''"
| "video_codec_value VP9 = ''vp9''"

fun video_quality_mode_value :: "video_quality_mode \<Rightarrow> string" where
  "video_quality_mode_value HIGH_QUALITY = ''high_quality''"
| "video_quality_mode_value BALANCED = ''balanced''"
| "video_quality_mode_value EFFICIENT = ''efficient''"

subsection \<open>Rule models\<close>

record language_preferences =
  preferred_audio :: "string list"
  preferred_subtitles :: "string list"
  preserve_forced_subtitles :: bool
  drop_undetermined_audio :: bool
  drop_undetermined_subtitles :: bool

record subtitle_rules =
  s_keep_languages :: "string list"
  s_keep_forced_languages :: "string list"
  keep_commentary :: bool
  keep_hearing_impaired :: bool
  keep_one_full_preferred_subtitle :: bool
  drop_other_subtitles :: bool

record audio_rules =
  a_keep_languages :: "string list"
  keep_only_preferred_languages :: bool
  preserve_best_surround :: bool
  preserve_seven_one :: bool
  preserve_atmos_capable :: bool
  preferred_codecs :: "string list"
  allow_commentary :: bool
  max_tracks_to_keep :: int

record non_four_k_video_rules =
  n_decision_order :: "policy_decision list"
  n_preferred_codec :: video_codec
  n_allow_transcode :: bool
  n_quality_mode :: video_quality_mode
  n_quality_crf :: "int option"
  n_max_video_reduction_percent :: int
  n_max_video_bitrate_mbps :: int
  n_max_width :: int
  n_low_bitrate_skip_threshold_1080p_mbps :: rat
  n_low_bitrate_skip_threshold_720p_mbps :: rat
  n_minimum_output_bitrate_1080p_mbps :: rat
  n_minimum_output_bitrate_720p_mbps :: rat
  n_output_larger_than_input_review_percent :: "int option"

record four_k_video_rules =
  f_mode :: four_k_mode
  f_preferred_codec :: video_codec
  f_preserve_original_video :: bool
  f_preserve_original_audio :: bool
  f_allow_transcode :: bool
  f_quality_mode :: video_quality_mode
  f_quality_crf :: "int option"
  f_max_video_reduction_percent :: int
  f_minimum_output_bitrate_1080p_mbps :: rat
  f_minimum_output_bitrate_720p_mbps :: rat
  f_output_larger_than_input_review_percent :: "int option"
  f_remove_non_english_audio :: bool
  f_remove_non_english_subtitles :: bool

record video_rules =
  output_container :: output_container
  non_4k :: non_four_k_video_rules
  four_k :: four_k_video_rules

record replacement_rules =
  r_in_place :: bool
  r_require_verification :: bool
  r_keep_original_until_verified :: bool
  r_delete_replaced_source :: bool

record rename_tag_rules =
  include_resolution :: bool
  include_video_codec :: bool
  include_edition :: bool

record rename_templates =
  rn_enabled :: bool
  rn_movies_template :: string
  rn_episodes_template :: string
  sanitise_for_filesystem :: bool
  tag_rules :: rename_tag_rules

record path_profile_override =
  path_prefix :: string
  po_profile :: string

record policy_config =
  p_version :: int
  p_name :: string
  p_description :: string
  languages :: language_preferences
  subtitles :: subtitle_rules
  audio :: audio_rules
  video :: video_rules
  replacement :: replacement_rules
  renaming :: rename_templates
  path_overrides :: "path_profile_override list"

subsection \<open>Profile overrides\<close>

record profile_subtitle_rules =
  ps_keep_languages :: "string list option"
  ps_keep_forced_languages :: "string list option"
  ps_keep_commentary :: "bool option"
  ps_keep_hearing_impaired :: "bool option"
  ps_keep_one_full_preferred_subtitle :: "bool option"
  ps_drop_other_subtitles :: "bool option"

record profile_audio_rules =
  pa_keep_languages :: "string list option"
  pa_keep_only_preferred_languages :: "bool option"
  pa_preserve_best_surround :: "bool option"
  pa_preserve_seven_one :: "bool option"
  pa_preserve_atmos_capable :: "bool option"
  pa_preferred_codecs :: "string list option"
  pa_allow_commentary :: "bool option"
  pa_max_tracks_to_keep :: "int option"

record profile_non_four_k_video_rules =
  pn_decision_order :: "policy_decision list option"
  pn_preferred_codec :: "video_codec option"
  pn_allow_transcode :: "bool option"
  pn_quality_mode :: "video_quality_mode option"
  pn_quality_crf :: "int option"
  pn_max_video_reduction_percent :: "int option"
  pn_max_video_bitrate_mbps :: "int option"
  pn_max_width :: "int option"
  pn_low_bitrate_skip_threshold_1080p_mbps :: "rat option"
  pn_low_bitrate_skip_threshold_720p_mbps :: "rat option"
  pn_minimum_output_bitrate_1080p_mbps :: "rat option"
  pn_minimum_output_bitrate_720p_mbps :: "rat option"
  pn_output_larger_than_input_review_percent :: "int option"

record profile_four_k_video_rules =
  pf_mode :: "four_k_mode option"
  pf_preferred_codec :: "video_codec option"
  pf_preserve_original_video :: "bool option"
  pf_preserve_original_audio :: "bool option"
  pf_allow_transcode :: "bool option"
  pf_quality_mode :: "video_quality_mode option"
  pf_quality_crf :: "int option"
  pf_max_video_reduction_percent :: "int option"
  pf_minimum_output_bitrate_1080p_mbps :: "rat option"
  pf_minimum_output_bitrate_720p_mbps :: "rat option"
  pf_output_larger_than_input_review_percent :: "int option"
  pf_remove_non_english_audio :: "bool option"
  pf_remove_non_english_subtitles :: "bool option"

record profile_video_rules =
  pv_output_container :: "output_container option"
  pv_non_4k :: "profile_non_four_k_video_rules option"
  pv_four_k :: "profile_four_k_video_rules option"

record profile_rename_config =
  pr_template :: "string option"
  pr_movies_template :: "string option"
  pr_episodes_template :: "string option"

record profile_config =
  pc_name :: string
  pc_description :: string
  pc_subtitles :: "profile_subtitle_rules option"
  pc_audio :: "profile_audio_rules option"
  pc_video :: "profile_video_rules option"
  pc_renaming :: "profile_rename_config option"

text \<open>The two fields of \<open>ConfigBundle\<close> that planning reads.\<close>

record config_bundle =
  policy :: policy_config
  profiles :: "string \<rightharpoonup> profile_config"

subsection \<open>Construction: constraints and validators\<close>

datatype config_error = FieldConstraint string | ValueErr string

fun dedup_loop :: "string set \<Rightarrow> string list \<Rightarrow> string list \<Rightarrow> string list" where
  "dedup_loop seen result [] = result"
| "dedup_loop seen result (v # vs) =
     (if v \<notin> seen then dedup_loop (insert v seen) (result @ [v]) vs
      else dedup_loop seen result vs)"

definition deduplicate_preserving_order :: "string list \<Rightarrow> string list" where
  "deduplicate_preserving_order vs = dedup_loop {} [] vs"

fun dedup_decisions_loop :: "policy_decision set \<Rightarrow> policy_decision list \<Rightarrow> policy_decision list \<Rightarrow> policy_decision list" where
  "dedup_decisions_loop seen result [] = result"
| "dedup_decisions_loop seen result (v # vs) =
     (if v \<notin> seen then dedup_decisions_loop (insert v seen) (result @ [v]) vs
      else dedup_decisions_loop seen result vs)"

definition normalise_language_list :: "string list \<Rightarrow> string list" where
  "normalise_language_list vs = map (\<lambda>s. py_lower (py_strip s)) vs"

definition is_language_code :: "string \<Rightarrow> bool" where
  "is_language_code s \<longleftrightarrow> length s = 3 \<and> (\<forall>c\<in>set s. 97 \<le> code_point c \<and> code_point c \<le> 122)"

definition language_list :: "string \<Rightarrow> string list \<Rightarrow> config_error + string list" where
  "language_list field vs =
     (let ns = normalise_language_list vs in
      if ns = [] \<or> (\<exists>s\<in>set ns. \<not> is_language_code s) then Inl (FieldConstraint field)
      else Inr (deduplicate_preserving_order ns))"

definition codec_list :: "string list \<Rightarrow> config_error + string list" where
  "codec_list vs =
     (let ns = normalise_language_list vs in
      if ns = [] \<or> [] \<in> set ns then Inl (FieldConstraint ''preferred_codecs'')
      else Inr (deduplicate_preserving_order ns))"

definition construct_language_preferences ::
    "language_preferences \<Rightarrow> config_error + language_preferences" where
  "construct_language_preferences r =
     (case language_list ''preferred_audio'' (preferred_audio r) of
        Inl e \<Rightarrow> Inl e
      | Inr a \<Rightarrow>
          (case language_list ''preferred_subtitles'' (preferred_subtitles r) of
             Inl e \<Rightarrow> Inl e
           | Inr s \<Rightarrow> Inr (r\<lparr>preferred_audio := a, preferred_subtitles := s\<rparr>)))"

definition construct_subtitle_rules :: "subtitle_rules \<Rightarrow> config_error + subtitle_rules" where
  "construct_subtitle_rules r =
     (case language_list ''keep_languages'' (s_keep_languages r) of
        Inl e \<Rightarrow> Inl e
      | Inr k \<Rightarrow>
          (case language_list ''keep_forced_languages'' (s_keep_forced_languages r) of
             Inl e \<Rightarrow> Inl e
           | Inr f \<Rightarrow> Inr (r\<lparr>s_keep_languages := k, s_keep_forced_languages := f\<rparr>)))"

definition construct_audio_rules :: "audio_rules \<Rightarrow> config_error + audio_rules" where
  "construct_audio_rules r =
     (case language_list ''keep_languages'' (a_keep_languages r) of
        Inl e \<Rightarrow> Inl e
      | Inr k \<Rightarrow>
          (case codec_list (preferred_codecs r) of
             Inl e \<Rightarrow> Inl e
           | Inr c \<Rightarrow>
               if max_tracks_to_keep r \<le> 0 then Inl (FieldConstraint ''max_tracks_to_keep'')
               else Inr (r\<lparr>a_keep_languages := k, preferred_codecs := c\<rparr>)))"

definition unique_decisions :: "policy_decision list \<Rightarrow> config_error + policy_decision list" where
  "unique_decisions vs =
     (let d = dedup_decisions_loop {} [] vs in
      if length d \<noteq> length vs
      then Inl (ValueErr ''decision_order must not contain duplicate values.'')
      else Inr d)"

definition validate_transcode_setting ::
    "non_four_k_video_rules \<Rightarrow> config_error + non_four_k_video_rules" where
  "validate_transcode_setting r =
     (if \<not> n_allow_transcode r \<and> D_TRANSCODE \<in> set (n_decision_order r)
      then Inl (ValueErr ''decision_order cannot include 'transcode' when allow_transcode is false.'')
      else Inr r)"

definition opt_range :: "int \<Rightarrow> int \<Rightarrow> int option \<Rightarrow> bool" where
  "opt_range lo hi v = (case v of None \<Rightarrow> True | Some n \<Rightarrow> lo \<le> n \<and> n \<le> hi)"

definition non_four_k_constraints :: "non_four_k_video_rules \<Rightarrow> bool" where
  "non_four_k_constraints r \<longleftrightarrow>
     n_decision_order r \<noteq> [] \<and> opt_range 0 51 (n_quality_crf r)
     \<and> 0 \<le> n_max_video_reduction_percent r \<and> 0 < n_max_video_bitrate_mbps r \<and> 0 < n_max_width r
     \<and> 0 \<le> n_low_bitrate_skip_threshold_1080p_mbps r \<and> 0 \<le> n_low_bitrate_skip_threshold_720p_mbps r
     \<and> 0 \<le> n_minimum_output_bitrate_1080p_mbps r \<and> 0 \<le> n_minimum_output_bitrate_720p_mbps r
     \<and> opt_range 0 100 (n_output_larger_than_input_review_percent r)"

definition construct_non_four_k ::
    "non_four_k_video_rules \<Rightarrow> config_error + non_four_k_video_rules" where
  "construct_non_four_k r =
     (if \<not> non_four_k_constraints r then Inl (FieldConstraint ''non_4k'')
      else case unique_decisions (n_decision_order r) of
             Inl e \<Rightarrow> Inl e
           | Inr d \<Rightarrow> validate_transcode_setting (r\<lparr>n_decision_order := d\<rparr>))"

definition validate_mode :: "four_k_video_rules \<Rightarrow> config_error + four_k_video_rules" where
  "validate_mode r =
     (if f_mode r = STRIP_ONLY \<and> f_allow_transcode r
      then Inl (ValueErr ''strip_only mode cannot allow 4K transcoding.'')
      else Inr r)"

definition four_k_constraints :: "four_k_video_rules \<Rightarrow> bool" where
  "four_k_constraints r \<longleftrightarrow>
     opt_range 0 51 (f_quality_crf r) \<and> 0 \<le> f_max_video_reduction_percent r
     \<and> 0 \<le> f_minimum_output_bitrate_1080p_mbps r \<and> 0 \<le> f_minimum_output_bitrate_720p_mbps r
     \<and> opt_range 0 100 (f_output_larger_than_input_review_percent r)"

definition construct_four_k :: "four_k_video_rules \<Rightarrow> config_error + four_k_video_rules" where
  "construct_four_k r =
     (if \<not> four_k_constraints r then Inl (FieldConstraint ''four_k'') else validate_mode r)"

definition validate_replacement_safety ::
    "replacement_rules \<Rightarrow> config_error + replacement_rules" where
  "validate_replacement_safety r =
     (if r_delete_replaced_source r \<and> \<not> r_require_verification r
      then Inl (ValueErr ''delete_replaced_source requires verification to be enabled.'')
      else Inr r)"

fun unique_path_prefixes_loop ::
    "string set \<Rightarrow> path_profile_override list \<Rightarrow> config_error option" where
  "unique_path_prefixes_loop seen [] = None"
| "unique_path_prefixes_loop seen (o1 # os) =
     (if path_prefix o1 \<in> seen
      then Some (ValueErr (''path_overrides contains duplicate path_prefix '' @ [CHR 0x27] @ path_prefix o1
              @ [CHR 0x27] @ ''.''))
      else unique_path_prefixes_loop (insert (path_prefix o1) seen) os)"

definition unique_path_prefixes ::
    "path_profile_override list \<Rightarrow> config_error + path_profile_override list" where
  "unique_path_prefixes os =
     (case unique_path_prefixes_loop {} os of Some e \<Rightarrow> Inl e | None \<Rightarrow> Inr os)"

text \<open>\<open>validate_policy_profile_references\<close>: the positions whose profile is not loaded.\<close>

definition missing_profile_references ::
    "policy_config \<Rightarrow> (string \<rightharpoonup> profile_config) \<Rightarrow> (nat \<times> string) list" where
  "missing_profile_references p loaded =
     map (\<lambda>(i, ov). (i, po_profile ov))
       (filter (\<lambda>(i, ov). loaded (po_profile ov) = None) (enumerate 0 (path_overrides p)))"

definition validate_policy_profile_references ::
    "policy_config \<Rightarrow> (string \<rightharpoonup> profile_config) \<Rightarrow> (nat \<times> string) list + unit" where
  "validate_policy_profile_references p loaded =
     (let missing = missing_profile_references p loaded in
      if missing \<noteq> [] then Inl missing else Inr ())"

subsection \<open>What construction guarantees\<close>

lemma dedup_loop_snoc:
  "dedup_loop seen acc (xs @ [x]) =
     (if x \<in> seen \<union> set xs then dedup_loop seen acc xs else dedup_loop seen acc xs @ [x])"
  by (induction xs arbitrary: seen acc) auto

lemma set_dedup_loop: "set (dedup_loop seen acc xs) = set acc \<union> (set xs - seen)"
  by (induction xs arbitrary: seen acc) auto

lemma dedup_decisions_loop_snoc:
  "dedup_decisions_loop seen acc (xs @ [x]) =
     (if x \<in> seen \<union> set xs then dedup_decisions_loop seen acc xs
      else dedup_decisions_loop seen acc xs @ [x])"
  by (induction xs arbitrary: seen acc) auto

lemma set_dedup_decisions_loop: "set (dedup_decisions_loop seen acc xs) = set acc \<union> (set xs - seen)"
  by (induction xs arbitrary: seen acc) auto

interpretation dd: ordered_dedup deduplicate_preserving_order "\<lambda>s. s"
  by unfold_locales (simp_all add: deduplicate_preserving_order_def dedup_loop_snoc set_dedup_loop)

interpretation dec: ordered_dedup "dedup_decisions_loop {} []" "\<lambda>d. d"
  by unfold_locales (simp_all add: dedup_decisions_loop_snoc set_dedup_decisions_loop)

definition wf_language_list :: "string list \<Rightarrow> bool" where
  "wf_language_list vs \<longleftrightarrow> vs \<noteq> [] \<and> distinct vs \<and> (\<forall>s\<in>set vs. is_language_code s)"

definition wf_codec_list :: "string list \<Rightarrow> bool" where
  "wf_codec_list vs \<longleftrightarrow> vs \<noteq> [] \<and> distinct vs \<and> (\<forall>s\<in>set vs. s \<noteq> [] \<and> py_lower (py_strip s) = s)"

definition wf_audio_rules :: "audio_rules \<Rightarrow> bool" where
  "wf_audio_rules r \<longleftrightarrow>
     wf_language_list (a_keep_languages r) \<and> wf_codec_list (preferred_codecs r) \<and> 0 < max_tracks_to_keep r"

definition wf_subtitle_rules :: "subtitle_rules \<Rightarrow> bool" where
  "wf_subtitle_rules r \<longleftrightarrow>
     wf_language_list (s_keep_languages r) \<and> wf_language_list (s_keep_forced_languages r)"

definition wf_non_four_k :: "non_four_k_video_rules \<Rightarrow> bool" where
  "wf_non_four_k r \<longleftrightarrow>
     non_four_k_constraints r \<and> distinct (n_decision_order r)
     \<and> (D_TRANSCODE \<in> set (n_decision_order r) \<longrightarrow> n_allow_transcode r)"

definition wf_four_k :: "four_k_video_rules \<Rightarrow> bool" where
  "wf_four_k r \<longleftrightarrow> four_k_constraints r \<and> (f_mode r = STRIP_ONLY \<longrightarrow> \<not> f_allow_transcode r)"

lemma language_code_lower_id:
  assumes "is_language_code s"
  shows "py_lower (py_strip s) = s"
proof -
  have lo: "lower_char c = c" and sp: "\<not> is_space c" if "c \<in> set s" for c
    using assms that by (auto simp: is_language_code_def lower_char_def is_space_def Let_def)
  have "s \<noteq> []" using assms by (auto simp: is_language_code_def)
  then have "py_strip s = s" using sp by (intro py_strip_id) auto
  then show ?thesis using lo by (simp add: py_lower_def map_idI)
qed

lemma language_list_Inr:
  "language_list f vs = Inr ws \<Longrightarrow> wf_language_list ws \<and> set ws = (\<lambda>s. py_lower (py_strip s)) ` set vs"
  by (auto simp: language_list_def wf_language_list_def normalise_language_list_def Let_def
      dd.set_dedup dd.distinct_dedup split: if_splits)

lemma language_list_fixpoint: "wf_language_list vs \<Longrightarrow> language_list f vs = Inr vs"
proof -
  assume wf: "wf_language_list vs"
  then have n: "normalise_language_list vs = vs"
    unfolding normalise_language_list_def
    by (intro map_idI language_code_lower_id) (simp add: wf_language_list_def)
  show ?thesis
    using wf dd.dedup_fixpoint [of vs] by (auto simp: language_list_def n wf_language_list_def)
qed

lemma codec_list_Inr: "codec_list vs = Inr ws \<Longrightarrow> wf_codec_list ws"
  by (auto simp: codec_list_def wf_codec_list_def normalise_language_list_def Let_def
      dd.set_dedup dd.distinct_dedup py_strip_lower split: if_splits)

lemma codec_list_fixpoint: "wf_codec_list vs \<Longrightarrow> codec_list vs = Inr vs"
proof -
  assume wf: "wf_codec_list vs"
  then have n: "normalise_language_list vs = vs"
    unfolding normalise_language_list_def by (intro map_idI) (simp add: wf_codec_list_def)
  show ?thesis using wf dd.dedup_fixpoint [of vs] by (auto simp: codec_list_def n wf_codec_list_def)
qed

lemma construct_audio_rules_wf: "construct_audio_rules r = Inr r' \<Longrightarrow> wf_audio_rules r'"
  by (auto simp: construct_audio_rules_def wf_audio_rules_def
      dest: language_list_Inr codec_list_Inr split: sum.splits if_splits)

lemma construct_audio_rules_fixpoint: "wf_audio_rules r \<Longrightarrow> construct_audio_rules r = Inr r"
  by (simp add: construct_audio_rules_def wf_audio_rules_def language_list_fixpoint codec_list_fixpoint)

lemma construct_subtitle_rules_wf: "construct_subtitle_rules r = Inr r' \<Longrightarrow> wf_subtitle_rules r'"
  by (auto simp: construct_subtitle_rules_def wf_subtitle_rules_def
      dest: language_list_Inr split: sum.splits)

lemma construct_subtitle_rules_fixpoint: "wf_subtitle_rules r \<Longrightarrow> construct_subtitle_rules r = Inr r"
  by (simp add: construct_subtitle_rules_def wf_subtitle_rules_def language_list_fixpoint)

lemma unique_decisions_iff:
  "unique_decisions vs = (if distinct vs then Inr vs
     else Inl (ValueErr ''decision_order must not contain duplicate values.''))"
  using dec.dedup_length_eq [of vs] dec.dedup_fixpoint [of vs] by (simp add: unique_decisions_def)

lemma construct_non_four_k_iff: "construct_non_four_k r = Inr r' \<longleftrightarrow> wf_non_four_k r \<and> r' = r"
  by (auto simp: construct_non_four_k_def unique_decisions_iff validate_transcode_setting_def
      wf_non_four_k_def split: if_splits)

lemma construct_four_k_iff: "construct_four_k r = Inr r' \<longleftrightarrow> wf_four_k r \<and> r' = r"
  by (auto simp: construct_four_k_def validate_mode_def wf_four_k_def split: if_splits)

lemma unique_path_prefixes_loop_None:
  "unique_path_prefixes_loop seen os = None \<longleftrightarrow>
     distinct (map path_prefix os) \<and> seen \<inter> path_prefix ` set os = {}"
  by (induction os arbitrary: seen) auto

lemma unique_path_prefixes_Inr:
  "unique_path_prefixes os = Inr os' \<longleftrightarrow> distinct (map path_prefix os) \<and> os' = os"
  using unique_path_prefixes_loop_None [of "{}" os]
  by (auto simp: unique_path_prefixes_def split: option.splits)

lemma validate_references_ok:
  "validate_policy_profile_references p loaded = Inr () \<longleftrightarrow>
     (\<forall>ov\<in>set (path_overrides p). loaded (po_profile ov) \<noteq> None)"
proof -
  have "missing_profile_references p loaded = [] \<longleftrightarrow>
      (\<forall>iv\<in>set (enumerate 0 (path_overrides p)). loaded (po_profile (snd iv)) \<noteq> None)"
    by (auto simp: missing_profile_references_def filter_empty_conv)
  also have "\<dots> \<longleftrightarrow> (\<forall>ov\<in>snd ` set (enumerate 0 (path_overrides p)). loaded (po_profile ov) \<noteq> None)"
    by simp
  also have "snd ` set (enumerate 0 (path_overrides p)) = set (path_overrides p)"
    by (metis list.set_map map_snd_enumerate)
  finally show ?thesis by (simp add: validate_policy_profile_references_def)
qed

end
