(* ===== verification/Plan.thy ===== *)
theory Plan
  imports Policy
begin

text \<open>
  The processing plan (\<open>encodr_core/planning/enums.py\<close>, \<open>models.py\<close>, \<open>reasons.py\<close>): what
  planning decides and what execution, verification and replacement read.
\<close>

datatype plan_action = SKIP | REMUX | TRANSCODE | MANUAL_REVIEW
datatype confidence_level = HIGH | MEDIUM | LOW
datatype video_handling = PRESERVE_VIDEO | TRANSCODE_TO_POLICY
datatype container_handling = PRESERVE_CONTAINER | REMUX_TO_TARGET
datatype rename_template_kind = MOVIE | EPISODE | GENERIC
datatype rename_template_source = FROM_POLICY | FROM_PROFILE | DISABLED

record plan_reason =
  r_code :: string
  r_message :: string
  r_metadata :: "(string \<times> json) list"

definition make_reason :: "string \<Rightarrow> string \<Rightarrow> (string \<times> json) list \<Rightarrow> plan_reason" where
  "make_reason code message metadata = \<lparr>r_code = code, r_message = message, r_metadata = metadata\<rparr>"

text \<open>Reasons and warnings have the same fields.\<close>

type_synonym plan_warning = plan_reason

definition make_warning :: "string \<Rightarrow> string \<Rightarrow> (string \<times> json) list \<Rightarrow> plan_warning" where
  "make_warning code message metadata = \<lparr>r_code = code, r_message = message, r_metadata = metadata\<rparr>"

definition j_ints :: "int list \<Rightarrow> json" where
  "j_ints xs = JList (map JInt xs)"

definition j_opt_str :: "string option \<Rightarrow> json" where
  "j_opt_str s = (case s of None \<Rightarrow> JNull | Some t \<Rightarrow> JStr t)"

definition j_opt_int :: "int option \<Rightarrow> json" where
  "j_opt_int n = (case n of None \<Rightarrow> JNull | Some i \<Rightarrow> JInt i)"

record selected_stream_set =
  video_stream_indices :: "int list"
  audio_stream_indices :: "int list"
  subtitle_stream_indices :: "int list"
  attachment_stream_indices :: "int list"
  data_stream_indices :: "int list"
  unknown_stream_indices :: "int list"

record audio_selection_intent =
  a_selected :: "int list"
  a_dropped :: "int list"
  a_required_language_codes :: "string list"
  primary_stream_index :: "int option"
  preserved_atmos :: "int list"
  preserved_surround :: "int list"
  commentary_removed :: "int list"
  available_preferred :: "int list"
  missing_required_audio :: bool

record subtitle_selection_intent =
  s_selected :: "int list"
  s_dropped :: "int list"
  s_required_language_codes :: "string list"
  s_required_forced_language_codes :: "string list"
  forced_stream_indices :: "int list"
  main_stream_index :: "int option"
  hearing_impaired_stream_indices :: "int list"
  ambiguous_forced_stream_indices :: "int list"

record video_plan =
  vp_primary_stream_index :: "int option"
  vp_handling :: video_handling
  preserve_original :: bool
  target_codec :: "string option"
  transcode_required :: bool
  quality_mode :: "string option"
  quality_crf :: "int option"
  source_bitrate_bps :: "int option"
  low_bitrate_skip_threshold :: "int option"
  minimum_output_bitrate :: "int option"
  max_allowed_video_reduction_percent :: "int option"
  output_larger_than_input_review_percent :: "int option"

record container_plan =
  source_extension :: "string option"
  target_container :: output_container
  cp_handling :: container_handling
  change_required :: bool

record rename_plan =
  rename_enabled :: bool
  template_kind :: "rename_template_kind option"
  template_source :: rename_template_source
  template_value :: "string option"

record replace_plan =
  in_place :: bool
  require_verification :: bool
  keep_original_until_verified :: bool
  delete_replaced_source :: bool
  existing_backup_strategy :: string

record policy_context =
  policy_name :: string
  policy_version :: int
  selected_profile_name :: "string option"
  selected_profile_description :: "string option"
  matched_path_prefix :: "string option"
  source_path :: path

record plan_summary =
  ps_action :: plan_action
  ps_confidence :: confidence_level
  ps_is_already_compliant :: bool
  ps_should_treat_as_protected :: bool

record processing_plan =
  action :: plan_action
  summary :: plan_summary
  plan_context :: policy_context
  selected_streams :: selected_stream_set
  plan_audio :: audio_selection_intent
  plan_subtitles :: subtitle_selection_intent
  plan_video :: video_plan
  plan_container :: container_plan
  plan_rename :: rename_plan
  plan_replace :: replace_plan
  reasons :: "plan_reason list"
  warnings :: "plan_warning list"
  confidence :: confidence_level
  is_already_compliant :: bool
  should_treat_as_protected :: bool

end
