(* ===== verification/Rules.thy ===== *)
theory Rules
  imports Plan
begin

text \<open>
  Policy resolution (\<open>encodr_core/planning/rules.py\<close>): the profile whose path prefix matches
  the source best, the merge of its overrides into the policy, and the rename and replace
  plans. \<open>resolve_profile_for_path\<close> raises \<open>KeyError\<close> for a profile that is not loaded: \<open>Inl\<close>.
\<close>

datatype lookup_error = KeyError string

record resolved_planning_policy =
  rp_context :: policy_context
  rp_audio_rules :: audio_rules
  rp_subtitle_rules :: subtitle_rules
  rp_video_rules :: video_rules
  rp_replacement_rules :: replacement_rules
  rp_renaming_rules :: rename_templates
  rp_rename_override :: "profile_rename_config option"

subsection \<open>Path prefixes\<close>

definition strip_slashes :: "string \<Rightarrow> string" where
  "strip_slashes s = (let t = rstrip_by (\<lambda>c. c = CHR ''/'') s in if t = [] then ''/'' else t)"

definition path_matches_prefix :: "string \<Rightarrow> string \<Rightarrow> bool" where
  "path_matches_prefix src pre =
     (let s = strip_slashes (as_posix (path_of src)); p = strip_slashes (as_posix (path_of pre)) in
      if p = ''/'' then prefix ''/'' s
      else s = p \<or> prefix (p @ ''/'') s)"

definition posix_text :: "string \<Rightarrow> string" where
  "posix_text s = as_posix (path_of s)"

definition resolve_profile_for_path ::
    "path_profile_override list \<Rightarrow> config_bundle \<Rightarrow> path
     \<Rightarrow> lookup_error + (profile_config option \<times> string option)" where
  "resolve_profile_for_path overrides bundle src =
     (let source_text = as_posix src;
          matches = filter (\<lambda>ov. path_matches_prefix source_text (posix_text (path_prefix ov))) overrides
      in case py_max (\<lambda>ov. length (posix_text (path_prefix ov))) matches of
           None \<Rightarrow> Inr (None, None)
         | Some ov \<Rightarrow>
             (case profiles bundle (po_profile ov) of
                None \<Rightarrow> Inl (KeyError (po_profile ov))
              | Some p \<Rightarrow> Inr (Some p, Some (path_prefix ov))))"

subsection \<open>Merging: \<open>base.model_copy(update=override.model_dump(exclude_none=True))\<close>\<close>

definition over :: "'a \<Rightarrow> 'a option \<Rightarrow> 'a" where
  "over base v = (case v of None \<Rightarrow> base | Some x \<Rightarrow> x)"

definition over_opt :: "'a option \<Rightarrow> 'a option \<Rightarrow> 'a option" where
  "over_opt base v = (case v of None \<Rightarrow> base | Some x \<Rightarrow> Some x)"

definition merge_audio_rules :: "audio_rules \<Rightarrow> profile_audio_rules option \<Rightarrow> audio_rules" where
  "merge_audio_rules b ov =
     (case ov of
        None \<Rightarrow> b
      | Some v \<Rightarrow>
          \<lparr>a_keep_languages = over (a_keep_languages b) (pa_keep_languages v),
           keep_only_preferred_languages =
             over (keep_only_preferred_languages b) (pa_keep_only_preferred_languages v),
           preserve_best_surround = over (preserve_best_surround b) (pa_preserve_best_surround v),
           preserve_seven_one = over (preserve_seven_one b) (pa_preserve_seven_one v),
           preserve_atmos_capable = over (preserve_atmos_capable b) (pa_preserve_atmos_capable v),
           preferred_codecs = over (preferred_codecs b) (pa_preferred_codecs v),
           allow_commentary = over (allow_commentary b) (pa_allow_commentary v),
           max_tracks_to_keep = over (max_tracks_to_keep b) (pa_max_tracks_to_keep v)\<rparr>)"

definition merge_subtitle_rules :: "subtitle_rules \<Rightarrow> profile_subtitle_rules option \<Rightarrow> subtitle_rules" where
  "merge_subtitle_rules b ov =
     (case ov of
        None \<Rightarrow> b
      | Some v \<Rightarrow>
          \<lparr>s_keep_languages = over (s_keep_languages b) (ps_keep_languages v),
           s_keep_forced_languages = over (s_keep_forced_languages b) (ps_keep_forced_languages v),
           keep_commentary = over (keep_commentary b) (ps_keep_commentary v),
           keep_hearing_impaired = over (keep_hearing_impaired b) (ps_keep_hearing_impaired v),
           keep_one_full_preferred_subtitle =
             over (keep_one_full_preferred_subtitle b) (ps_keep_one_full_preferred_subtitle v),
           drop_other_subtitles = over (drop_other_subtitles b) (ps_drop_other_subtitles v)\<rparr>)"

definition merge_non_four_k ::
    "non_four_k_video_rules \<Rightarrow> profile_non_four_k_video_rules option \<Rightarrow> non_four_k_video_rules" where
  "merge_non_four_k b ov =
     (case ov of
        None \<Rightarrow> b
      | Some v \<Rightarrow>
          \<lparr>n_decision_order = over (n_decision_order b) (pn_decision_order v),
           n_preferred_codec = over (n_preferred_codec b) (pn_preferred_codec v),
           n_allow_transcode = over (n_allow_transcode b) (pn_allow_transcode v),
           n_quality_mode = over (n_quality_mode b) (pn_quality_mode v),
           n_quality_crf = over_opt (n_quality_crf b) (pn_quality_crf v),
           n_max_video_reduction_percent =
             over (n_max_video_reduction_percent b) (pn_max_video_reduction_percent v),
           n_max_video_bitrate_mbps = over (n_max_video_bitrate_mbps b) (pn_max_video_bitrate_mbps v),
           n_max_width = over (n_max_width b) (pn_max_width v),
           n_low_bitrate_skip_threshold_1080p_mbps =
             over (n_low_bitrate_skip_threshold_1080p_mbps b) (pn_low_bitrate_skip_threshold_1080p_mbps v),
           n_low_bitrate_skip_threshold_720p_mbps =
             over (n_low_bitrate_skip_threshold_720p_mbps b) (pn_low_bitrate_skip_threshold_720p_mbps v),
           n_minimum_output_bitrate_1080p_mbps =
             over (n_minimum_output_bitrate_1080p_mbps b) (pn_minimum_output_bitrate_1080p_mbps v),
           n_minimum_output_bitrate_720p_mbps =
             over (n_minimum_output_bitrate_720p_mbps b) (pn_minimum_output_bitrate_720p_mbps v),
           n_output_larger_than_input_review_percent =
             over_opt (n_output_larger_than_input_review_percent b)
               (pn_output_larger_than_input_review_percent v)\<rparr>)"

definition merge_four_k ::
    "four_k_video_rules \<Rightarrow> profile_four_k_video_rules option \<Rightarrow> four_k_video_rules" where
  "merge_four_k b ov =
     (case ov of
        None \<Rightarrow> b
      | Some v \<Rightarrow>
          \<lparr>f_mode = over (f_mode b) (pf_mode v),
           f_preferred_codec = over (f_preferred_codec b) (pf_preferred_codec v),
           f_preserve_original_video = over (f_preserve_original_video b) (pf_preserve_original_video v),
           f_preserve_original_audio = over (f_preserve_original_audio b) (pf_preserve_original_audio v),
           f_allow_transcode = over (f_allow_transcode b) (pf_allow_transcode v),
           f_quality_mode = over (f_quality_mode b) (pf_quality_mode v),
           f_quality_crf = over_opt (f_quality_crf b) (pf_quality_crf v),
           f_max_video_reduction_percent =
             over (f_max_video_reduction_percent b) (pf_max_video_reduction_percent v),
           f_minimum_output_bitrate_1080p_mbps =
             over (f_minimum_output_bitrate_1080p_mbps b) (pf_minimum_output_bitrate_1080p_mbps v),
           f_minimum_output_bitrate_720p_mbps =
             over (f_minimum_output_bitrate_720p_mbps b) (pf_minimum_output_bitrate_720p_mbps v),
           f_output_larger_than_input_review_percent =
             over_opt (f_output_larger_than_input_review_percent b)
               (pf_output_larger_than_input_review_percent v),
           f_remove_non_english_audio =
             over (f_remove_non_english_audio b) (pf_remove_non_english_audio v),
           f_remove_non_english_subtitles =
             over (f_remove_non_english_subtitles b) (pf_remove_non_english_subtitles v)\<rparr>)"

definition merge_video_rules :: "video_rules \<Rightarrow> profile_video_rules option \<Rightarrow> video_rules" where
  "merge_video_rules b ov =
     (case ov of
        None \<Rightarrow> b
      | Some v \<Rightarrow>
          \<lparr>output_container = over (output_container b) (pv_output_container v),
           non_4k = merge_non_four_k (non_4k b) (pv_non_4k v),
           four_k = merge_four_k (four_k b) (pv_four_k v)\<rparr>)"

subsection \<open>Resolution\<close>

definition resolve_planning_policy ::
    "media_file \<Rightarrow> config_bundle \<Rightarrow> path option \<Rightarrow> lookup_error + resolved_planning_policy" where
  "resolve_planning_policy m bundle src =
     (let effective = (case src of Some p \<Rightarrow> p | None \<Rightarrow> file_path m);
          pol = policy bundle
      in case resolve_profile_for_path (path_overrides pol) bundle effective of
           Inl e \<Rightarrow> Inl e
         | Inr (prof, matched) \<Rightarrow>
             Inr \<lparr>rp_context =
                    \<lparr>policy_name = p_name pol, policy_version = p_version pol,
                     selected_profile_name = map_option pc_name prof,
                     selected_profile_description = map_option pc_description prof,
                     matched_path_prefix = matched, source_path = effective\<rparr>,
                  rp_audio_rules = merge_audio_rules (audio pol) (Option.bind prof pc_audio),
                  rp_subtitle_rules = merge_subtitle_rules (subtitles pol) (Option.bind prof pc_subtitles),
                  rp_video_rules = merge_video_rules (video pol) (Option.bind prof pc_video),
                  rp_replacement_rules = replacement pol,
                  rp_renaming_rules = renaming pol,
                  rp_rename_override = Option.bind prof pc_renaming\<rparr>)"

definition build_replace_plan :: "resolved_planning_policy \<Rightarrow> replace_plan" where
  "build_replace_plan rp =
     (let r = rp_replacement_rules rp in
      \<lparr>in_place = r_in_place r, require_verification = r_require_verification r,
       keep_original_until_verified = r_keep_original_until_verified r,
       delete_replaced_source = r_delete_replaced_source r,
       existing_backup_strategy = ''fail''\<rparr>)"

text \<open>\<open>EPISODE_PATTERN\<close>: \<open>s\d{2}e\d{2}\<close> anywhere in a lower-cased name.\<close>

definition is_digit :: "char \<Rightarrow> bool" where
  "is_digit c \<longleftrightarrow> digit_value c \<noteq> None"

fun episode_at :: "string \<Rightarrow> bool" where
  "episode_at (a # b # c # d # e # f # _) =
     (lower_char a = CHR ''s'' \<and> is_digit b \<and> is_digit c \<and> lower_char d = CHR ''e''
      \<and> is_digit e \<and> is_digit f)"
| "episode_at _ = False"

fun episode_search :: "string \<Rightarrow> bool" where
  "episode_search [] = False"
| "episode_search (c # cs) = (episode_at (c # cs) \<or> episode_search cs)"

definition infer_template_kind :: "path \<Rightarrow> media_file \<Rightarrow> string option \<Rightarrow> rename_template_kind" where
  "infer_template_kind src m profile_name =
     (let source_text = py_lower (as_posix src);
          file_name_text = py_lower (file_name m);
          profile_text = py_lower (or_str profile_name [])
      in if py_in ''tv'' source_text \<or> py_in ''season'' source_text \<or> py_in ''tv'' profile_text then EPISODE
         else if episode_search file_name_text then EPISODE
         else if py_in ''movie'' source_text \<or> py_in ''movies'' source_text \<or> py_in ''movie'' profile_text
              then MOVIE
         else GENERIC)"

definition truthy :: "string option \<Rightarrow> bool" where
  "truthy s = (case s of None \<Rightarrow> False | Some t \<Rightarrow> t \<noteq> [])"

definition build_rename_plan :: "resolved_planning_policy \<Rightarrow> media_file \<Rightarrow> rename_plan" where
  "build_rename_plan rp m =
     (let rn = rp_renaming_rules rp in
      if \<not> rn_enabled rn then
        \<lparr>rename_enabled = False, template_kind = None, template_source = DISABLED, template_value = None\<rparr>
      else
        let kind = infer_template_kind (source_path (rp_context rp)) m
                     (selected_profile_name (rp_context rp));
            from_profile = (\<lambda>v. \<lparr>rename_enabled = True, template_kind = Some kind,
                                 template_source = FROM_PROFILE, template_value = v\<rparr>);
            from_policy = \<lparr>rename_enabled = True, template_kind = Some kind,
                           template_source = FROM_POLICY,
                           template_value = Some (if kind = EPISODE then rn_episodes_template rn
                                                  else rn_movies_template rn)\<rparr>
        in case rp_rename_override rp of
             None \<Rightarrow> from_policy
           | Some ov \<Rightarrow>
               if truthy (pr_template ov) then from_profile (pr_template ov)
               else if kind = EPISODE \<and> truthy (pr_episodes_template ov)
                    then from_profile (pr_episodes_template ov)
               else if kind = MOVIE \<and> truthy (pr_movies_template ov)
                    then from_profile (pr_movies_template ov)
               else from_policy)"

definition target_container_extension :: "output_container \<Rightarrow> string" where
  "target_container_extension c = output_container_value c"

lemma strip_slashes_posix:
  assumes "wf_path p" "parts p \<noteq> []"
  shows "strip_slashes (as_posix p) = root p @ py_join ''/'' (parts p)"
proof -
  let ?s = "root p @ py_join ''/'' (parts p)"
  have j: "py_join ''/'' (parts p) \<noteq> []" "last (py_join ''/'' (parts p)) \<noteq> CHR ''/''"
    using join_last [of "parts p"] assms by (auto simp: wf_path_def)
  have "rstrip_by (\<lambda>c. c = CHR ''/'') ?s = ?s"
    using j by (simp add: rstrip_by_def dropWhile_id hd_rev)
  then show ?thesis using j assms(2) by (simp add: strip_slashes_def as_posix_def)
qed

lemma path_matches_prefix_parts:
  assumes "wf_path p" "wf_path q" "parts q \<noteq> []"
  shows "path_matches_prefix (as_posix p) (as_posix q) \<longleftrightarrow> root p = root q \<and> prefix (parts q) (parts p)"
proof -
  let ?J = "py_join ''/''"
  have wfs: "\<forall>w\<in>set (parts p). wf_name w" "\<forall>w\<in>set (parts q). wf_name w"
    using assms by (auto simp: wf_path_def)
  have q: "strip_slashes (as_posix q) = root q @ ?J (parts q)"
    using strip_slashes_posix [OF assms(2,3)] .
  have jq: "?J (parts q) \<noteq> []" "\<not> prefix ''/'' (?J (parts q))"
    using join_last [OF wfs(2) assms(3)] join_parts_head [OF wfs(2)] by auto
  have q_root: "root q @ ?J (parts q) \<noteq> ''/''"
    using jq by (cases "root q") (auto simp: Cons_eq_append_conv)
  show ?thesis
  proof (cases "parts p = []")
    case True
    have "strip_slashes (as_posix p) \<in> {''.'', ''/''}"
      using assms(1) True by (auto simp: strip_slashes_def as_posix_def wf_path_def rstrip_by_def)
    moreover have "root q @ ?J (parts q) \<noteq> ''.''"
    proof
      assume e: "root q @ ?J (parts q) = ''.''"
      then have "as_posix q = ''.''" using assms(3) by (simp add: as_posix_def)
      then have "path_of (as_posix q) = path_of ''.''" by simp
      then have "q = path_of ''.''" using path_of_as_posix [OF assms(2)] by simp
      then show False using assms(3) by (simp add: path_of_def split_root_def keep_part_def)
    qed
    moreover have "\<not> prefix ((root q @ ?J (parts q)) @ ''/'') x" if "x \<in> {''.'', ''/''}" for x
    proof
      assume "prefix ((root q @ ?J (parts q)) @ ''/'') x"
      then have "length ((root q @ ?J (parts q)) @ ''/'') \<le> length x" by (rule prefix_length_le)
      with that jq(1) show False by (cases "?J (parts q)") auto
    qed
    ultimately have n: "strip_slashes (as_posix p) \<noteq> root q @ ?J (parts q)"
      "\<not> prefix ((root q @ ?J (parts q)) @ ''/'') (strip_slashes (as_posix p))"
      using q_root by (metis insertE singletonD)+
    have "\<not> path_matches_prefix (as_posix p) (as_posix q)"
      unfolding path_matches_prefix_def Let_def path_of_as_posix [OF assms(1)]
        path_of_as_posix [OF assms(2)] q using n q_root by simp
    then show ?thesis using True assms(3) by simp
  next
    case False
    have p: "strip_slashes (as_posix p) = root p @ ?J (parts p)"
      using strip_slashes_posix [OF assms(1) False] .
    have jp: "?J (parts p) \<noteq> []" "\<not> prefix ''/'' (?J (parts p))"
      using join_last [OF wfs(1) False] join_parts_head [OF wfs(1)] by auto
    have jq': "\<not> prefix ''/'' (?J (parts q) @ ''/'')" "?J (parts q) @ ''/'' \<noteq> []"
      using jq by (cases "?J (parts q)"; simp)+
    have "path_matches_prefix (as_posix p) (as_posix q) \<longleftrightarrow>
        root p @ ?J (parts p) = root q @ ?J (parts q)
        \<or> prefix (root q @ (?J (parts q) @ ''/'')) (root p @ ?J (parts p))"
      using p q q_root path_of_as_posix [OF assms(1)] path_of_as_posix [OF assms(2)]
      by (simp add: path_matches_prefix_def Let_def)
    also have "\<dots> \<longleftrightarrow> root q = root p \<and>
        (?J (parts p) = ?J (parts q) \<or> prefix (?J (parts q) @ ''/'') (?J (parts p)))"
      using root_cancel(2) [of "root q" "root p" "?J (parts q)" "?J (parts p)"]
        root_cancel(1) [of "root q" "root p" "?J (parts q) @ ''/''" "?J (parts p)"]
        assms(1,2) jp jq jq' by (auto simp: wf_path_def)
    also have "\<dots> \<longleftrightarrow> root p = root q \<and> prefix (parts q) (parts p)"
      using join_prefix_iff [OF assms(3) wfs(2) wfs(1)] by auto
    finally show ?thesis .
  qed
qed

subsection \<open>What resolution picks\<close>

definition prefix_matches :: "path \<Rightarrow> path_profile_override \<Rightarrow> bool" where
  "prefix_matches src ov \<longleftrightarrow> path_matches_prefix (as_posix src) (posix_text (path_prefix ov))"

definition prefix_length :: "path_profile_override \<Rightarrow> nat" where
  "prefix_length ov = length (posix_text (path_prefix ov))"

lemma resolve_profile_cases:
  "(\<forall>ov\<in>set os. \<not> prefix_matches src ov) \<and> resolve_profile_for_path os b src = Inr (None, None)
   \<or> (\<exists>ov\<in>set os. prefix_matches src ov
        \<and> (\<forall>ov'\<in>set os. prefix_matches src ov' \<longrightarrow> prefix_length ov' \<le> prefix_length ov)
        \<and> resolve_profile_for_path os b src =
            (case profiles b (po_profile ov) of
               None \<Rightarrow> Inl (KeyError (po_profile ov))
             | Some p \<Rightarrow> Inr (Some p, Some (path_prefix ov))))"
proof -
  let ?ms = "filter (prefix_matches src) os"
  have r: "resolve_profile_for_path os b src =
      (case py_max prefix_length ?ms of
         None \<Rightarrow> Inr (None, None)
       | Some ov \<Rightarrow> (case profiles b (po_profile ov) of
                      None \<Rightarrow> Inl (KeyError (po_profile ov))
                    | Some p \<Rightarrow> Inr (Some p, Some (path_prefix ov))))"
    by (simp add: resolve_profile_for_path_def prefix_matches_def [abs_def] prefix_length_def [abs_def])
  show ?thesis
  proof (cases "py_max prefix_length ?ms")
    case None
    then have "\<forall>ov\<in>set os. \<not> prefix_matches src ov" by (simp add: filter_empty_conv)
    then show ?thesis unfolding r None by simp
  next
    case (Some ov)
    then show ?thesis using py_max_in [OF Some] py_max_ge [OF Some] by (auto simp: r)
  qed
qed

lemma merge_none [simp]:
  "merge_audio_rules b None = b" "merge_subtitle_rules c None = c" "merge_video_rules v None = v"
  "merge_non_four_k n None = n" "merge_four_k f None = f"
  by (simp_all add: merge_audio_rules_def merge_subtitle_rules_def merge_video_rules_def
      merge_non_four_k_def merge_four_k_def)

lemma resolve_profile_in_ran:
  "resolve_profile_for_path os b src = Inr (Some p, q) \<Longrightarrow> p \<in> ran (profiles b)"
  using resolve_profile_cases [of os src b] by (auto simp: ran_def split: option.splits)

end
