(* ===== verification/Selection.thy ===== *)
theory Selection
  imports Plan
begin

text \<open>
  Stream selection (\<open>encodr_core/planning/selection.py\<close>): which audio and subtitle streams a
  plan keeps. Scores are the code's tuples, compared lexicographically (\<open>Product_Lexorder\<close>);
  \<open>max\<close> and \<open>sorted\<close> are \<open>py_max\<close> and \<open>sorted_desc\<close> of the prelude. The list
  comprehensions keep their order and loops with \<open>break\<close> are recursive functions.
\<close>

subsection \<open>Language codes\<close>

fun ordered_codes_loop :: "string list \<Rightarrow> string option list \<Rightarrow> string list" where
  "ordered_codes_loop ordered [] = ordered"
| "ordered_codes_loop ordered (v # vs) =
     (let l = language_code v in
      ordered_codes_loop (if l \<in> set ordered then ordered else ordered @ [l]) vs)"

definition ordered_language_codes :: "string list \<Rightarrow> string list" where
  "ordered_language_codes vs = ordered_codes_loop [] (map Some vs)"

definition unique_languages :: "string option list \<Rightarrow> string list" where
  "unique_languages vs = ordered_codes_loop [] vs"

text \<open>\<open>language_ranks\<close>: earlier languages rank higher, the last one ranks 1.\<close>

definition language_ranks :: "string list \<Rightarrow> string \<rightharpoonup> int" where
  "language_ranks vs =
     (let ordered = ordered_language_codes vs in
      map_of (map (\<lambda>(i, l). (l, int (length ordered) - int i)) (enumerate 0 ordered)))"

definition rank_or_zero :: "(string \<rightharpoonup> int) \<Rightarrow> string \<Rightarrow> int" where
  "rank_or_zero ranks l = (case ranks l of None \<Rightarrow> 0 | Some r \<Rightarrow> r)"

subsection \<open>Scores\<close>

fun position :: "string \<Rightarrow> string list \<Rightarrow> nat option" where
  "position x [] = None"
| "position x (y # ys) = (if x = y then Some 0 else map_option Suc (position x ys))"

definition score_codec_preference :: "string option \<Rightarrow> string list \<Rightarrow> int" where
  "score_codec_preference codec preferred =
     (case codec of
        None \<Rightarrow> 0
      | Some c \<Rightarrow>
          (let ranked = map py_lower preferred in
           case position (py_lower c) ranked of
             None \<Rightarrow> 0
           | Some i \<Rightarrow> int (length ranked) - int i))"

definition is_seven_one_candidate :: "audio_stream \<Rightarrow> bool" where
  "is_seven_one_candidate s \<longleftrightarrow>
     8 \<le> or_zero (channels s) \<or> py_in ''7.1'' (py_lower (or_str (channel_layout s) []))"

type_synonym quality_score = "int \<times> int \<times> int \<times> int \<times> int \<times> int \<times> int"

definition audio_quality_score :: "audio_rules \<Rightarrow> audio_stream \<Rightarrow> quality_score" where
  "audio_quality_score r s =
     (of_flag (is_atmos_capable s \<and> preserve_atmos_capable r),
      of_flag (is_seven_one_candidate s \<and> preserve_seven_one r),
      of_flag (is_surround_candidate s \<and> preserve_best_surround r),
      or_zero (channels s),
      score_codec_preference (codec_name s) (preferred_codecs r),
      of_flag (d_default (disposition s)),
      - index s)"

definition audio_stream_score ::
    "audio_rules \<Rightarrow> (string \<rightharpoonup> int) \<Rightarrow> audio_stream \<Rightarrow> int \<times> quality_score" where
  "audio_stream_score r ranks s =
     (rank_or_zero ranks (language_code (language s)),
      of_flag (is_atmos_capable s \<and> preserve_atmos_capable r),
      of_flag (is_seven_one_candidate s \<and> preserve_seven_one r),
      of_flag (is_surround_candidate s \<and> preserve_best_surround r),
      or_zero (channels s),
      score_codec_preference (codec_name s) (preferred_codecs r),
      of_flag (d_default (disposition s)),
      - index s)"

definition subtitle_stream_score ::
    "(string \<rightharpoonup> int) \<Rightarrow> subtitle_stream \<Rightarrow> int \<times> int \<times> int \<times> int" where
  "subtitle_stream_score ranks s =
     (rank_or_zero ranks (language_code (language s)), of_flag (d_default (disposition s)),
      of_flag (is_forced s), - index s)"

definition contains_forced_marker :: "subtitle_stream \<Rightarrow> bool" where
  "contains_forced_marker s =
     py_in ''forced'' (py_lower (py_join '' ''
       ([or_str (title s) [], or_str (t_handler_name (tags s)) []] @ map snd (t_raw (tags s)))))"

subsection \<open>The best stream of each language\<close>

fun select_best_audio_by_language ::
    "audio_stream list \<Rightarrow> audio_rules \<Rightarrow> string list \<Rightarrow> audio_stream list" where
  "select_best_audio_by_language streams r [] = []"
| "select_best_audio_by_language streams r (l # ls) =
     (case py_max (audio_quality_score r) (filter (\<lambda>s. language_code (language s) = l) streams) of
        None \<Rightarrow> select_best_audio_by_language streams r ls
      | Some s \<Rightarrow> s # select_best_audio_by_language streams r ls)"

fun select_best_subtitle_by_language ::
    "subtitle_stream list \<Rightarrow> string list \<Rightarrow> subtitle_stream list" where
  "select_best_subtitle_by_language streams [] = []"
| "select_best_subtitle_by_language streams (l # ls) =
     (case py_max (subtitle_stream_score Map.empty)
             (filter (\<lambda>s. language_code (language s) = l) streams) of
        None \<Rightarrow> select_best_subtitle_by_language streams ls
      | Some s \<Rightarrow> s # select_best_subtitle_by_language streams ls)"

subsection \<open>Audio\<close>

record audio_selection_result =
  ar_intent :: audio_selection_intent
  ar_reasons :: "plan_reason list"
  ar_warnings :: "plan_warning list"
  ar_requires_manual_review :: bool

text \<open>The loop that tops the selection up to \<open>max_tracks_to_keep\<close>; it stops after a check that
  follows every stream, taken or not.\<close>

fun fill_tracks :: "int \<Rightarrow> audio_stream list \<Rightarrow> audio_stream list \<Rightarrow> audio_stream list" where
  "fill_tracks max_tracks selected [] = selected"
| "fill_tracks max_tracks selected (s # ss) =
     (let selected' = (if s \<in> set selected then selected else selected @ [s]) in
      if max_tracks \<le> int (length selected') then selected'
      else fill_tracks max_tracks selected' ss)"

definition preferred_audio_streams :: "media_file \<Rightarrow> audio_rules \<Rightarrow> audio_stream list" where
  "preferred_audio_streams m r =
     filter (\<lambda>s. has_key (language_ranks (ordered_language_codes (a_keep_languages r))) (language_code (language s)))
       (audio_streams m)"

definition candidate_audio_streams :: "media_file \<Rightarrow> audio_rules \<Rightarrow> audio_stream list" where
  "candidate_audio_streams m r =
     (if keep_only_preferred_languages r then preferred_audio_streams m r else audio_streams m)"

definition selectable_audio_streams :: "media_file \<Rightarrow> audio_rules \<Rightarrow> audio_stream list" where
  "selectable_audio_streams m r =
     filter (\<lambda>s. allow_commentary r \<or> \<not> is_commentary_candidate s) (candidate_audio_streams m r)"

definition commentary_removed_indices :: "media_file \<Rightarrow> audio_rules \<Rightarrow> int list" where
  "commentary_removed_indices m r =
     map index (filter (\<lambda>s. is_commentary_candidate s \<and> \<not> allow_commentary r)
       (candidate_audio_streams m r))"

definition selected_audio :: "media_file \<Rightarrow> audio_rules \<Rightarrow> audio_stream list" where
  "selected_audio m r =
     (let order = ordered_language_codes (a_keep_languages r);
          ranks = language_ranks order;
          selectable = selectable_audio_streams m r;
          best = select_best_audio_by_language selectable r order;
          filled = (if keep_only_preferred_languages r then best
                    else fill_tracks (max_tracks_to_keep r) best
                           (sorted_desc (audio_stream_score r ranks) selectable))
      in take (nat (max (max_tracks_to_keep r) (int (length order)))) filled)"

text \<open>The two early returns: every audio stream is dropped and a person has to look.\<close>

definition audio_manual_review ::
    "media_file \<Rightarrow> audio_rules \<Rightarrow> plan_reason list \<Rightarrow> plan_warning list \<Rightarrow> audio_selection_result" where
  "audio_manual_review m r rs ws =
     \<lparr>ar_intent =
        \<lparr>a_selected = [], a_dropped = map index (audio_streams m), a_required_language_codes = [],
         primary_stream_index = None, preserved_atmos = [], preserved_surround = [],
         commentary_removed = commentary_removed_indices m r,
         available_preferred = map index (preferred_audio_streams m r),
         missing_required_audio = True\<rparr>,
      ar_reasons = rs, ar_warnings = ws, ar_requires_manual_review = True\<rparr>"

definition select_audio_streams ::
    "media_file \<Rightarrow> audio_rules \<Rightarrow> language_preferences \<Rightarrow> audio_selection_result" where
  "select_audio_streams m r lr =
     (let preferred = preferred_audio_streams m r;
          commentary = commentary_removed_indices m r;
          pref_langs = language_ranks (ordered_language_codes (a_keep_languages r));
          undetermined = list_ex (\<lambda>s. language_code (language s) = ''und'') (audio_streams m);
          rs0 = (if commentary \<noteq> []
                 then [make_reason ''commentary_audio_removed''
                         ''Commentary audio tracks are not selected under the active policy.''
                         [(''stream_indices'', j_ints commentary)]] else [])
      in
      if keep_only_preferred_languages r \<and> preferred = [] then
        audio_manual_review m r
          (rs0 @ [make_reason ''manual_review_missing_english_audio''
                    ''No acceptable preferred-language audio track was found.'' []])
          (if undetermined \<and> \<not> drop_undetermined_audio lr
           then [make_warning ''undetermined_audio_present''
                   ''Undetermined audio tracks are present but no preferred-language audio was found.'' []]
           else [])
      else if selectable_audio_streams m r = [] then
        audio_manual_review m r
          (rs0 @ [make_reason ''manual_review_no_usable_audio''
                    ''No acceptable audio track remained after applying the active audio rules.'' []]) []
      else
        let selected = selected_audio m r;
            selected_indices = map index selected;
            dropped = filter (\<lambda>i. i \<notin> set selected_indices) (map index (audio_streams m));
            non_preferred_removed =
              map index (filter (\<lambda>s. \<not> has_key pref_langs (language_code (language s)) \<and> index s \<in> set dropped)
                (audio_streams m));
            atmos = map index (filter is_atmos_capable selected);
            surround = map index (filter is_surround_candidate selected);
            rs = rs0
              @ (if keep_only_preferred_languages r \<and> non_preferred_removed \<noteq> []
                 then [make_reason ''non_preferred_audio_removed''
                         ''Non-preferred-language audio tracks are not selected.''
                         [(''stream_indices'', j_ints non_preferred_removed)]] else [])
              @ (if atmos \<noteq> []
                 then [make_reason ''atmos_audio_preserved''
                         ''Atmos-capable preferred-language audio is preserved.''
                         [(''stream_indices'', j_ints atmos)]] else [])
              @ (if surround \<noteq> []
                 then [make_reason ''best_surround_audio_preserved''
                         ''Best available surround-capable preferred-language audio is preserved.''
                         [(''stream_indices'', j_ints surround)]] else []);
            ws = (if keep_only_preferred_languages r \<and> undetermined
                  then [make_warning ''undetermined_audio_not_selected''
                          ''Some audio tracks do not declare a language and are not selected automatically.'' []]
                  else [])
        in \<lparr>ar_intent =
              \<lparr>a_selected = selected_indices, a_dropped = dropped,
               a_required_language_codes = unique_languages (map language selected),
               primary_stream_index = (case selected of [] \<Rightarrow> None | s # _ \<Rightarrow> Some (index s)),
               preserved_atmos = atmos, preserved_surround = surround,
               commentary_removed = commentary, available_preferred = map index preferred,
               missing_required_audio = False\<rparr>,
            ar_reasons = rs, ar_warnings = ws, ar_requires_manual_review = False\<rparr>)"

subsection \<open>Subtitles\<close>

record subtitle_selection_result =
  sr_intent :: subtitle_selection_intent
  sr_reasons :: "plan_reason list"
  sr_warnings :: "plan_warning list"
  sr_requires_manual_review :: bool

fun append_new :: "subtitle_stream list \<Rightarrow> subtitle_stream list \<Rightarrow> subtitle_stream list" where
  "append_new selected [] = selected"
| "append_new selected (s # ss) = append_new (if s \<in> set selected then selected else selected @ [s]) ss"

definition forced_candidates :: "media_file \<Rightarrow> subtitle_rules \<Rightarrow> language_preferences \<Rightarrow> subtitle_stream list" where
  "forced_candidates m r lr =
     (if preserve_forced_subtitles lr
      then filter (\<lambda>s. has_key (language_ranks (ordered_language_codes (s_keep_forced_languages r))) (language_code (language s))
                       \<and> d_forced (disposition s)) (subtitle_streams m)
      else [])"

definition ambiguous_forced :: "media_file \<Rightarrow> subtitle_rules \<Rightarrow> language_preferences \<Rightarrow> subtitle_stream list" where
  "ambiguous_forced m r lr =
     (if preserve_forced_subtitles lr
      then filter (\<lambda>s. has_key (language_ranks (ordered_language_codes (s_keep_forced_languages r))) (language_code (language s))
                       \<and> \<not> d_forced (disposition s) \<and> contains_forced_marker s) (subtitle_streams m)
      else [])"

definition main_candidates :: "media_file \<Rightarrow> subtitle_rules \<Rightarrow> subtitle_stream list" where
  "main_candidates m r =
     filter (\<lambda>s. has_key (language_ranks (ordered_language_codes (s_keep_languages r))) (language_code (language s))
                 \<and> \<not> d_forced (disposition s) \<and> \<not> contains_forced_marker s
                 \<and> \<not> is_hearing_impaired_candidate s) (subtitle_streams m)"

definition hearing_impaired_candidates :: "media_file \<Rightarrow> subtitle_rules \<Rightarrow> subtitle_stream list" where
  "hearing_impaired_candidates m r =
     filter (\<lambda>s. has_key (language_ranks (ordered_language_codes (s_keep_languages r))) (language_code (language s))
                 \<and> is_hearing_impaired_candidate s) (subtitle_streams m)"

definition main_subtitles :: "media_file \<Rightarrow> subtitle_rules \<Rightarrow> subtitle_stream list" where
  "main_subtitles m r =
     (if keep_one_full_preferred_subtitle r \<and> main_candidates m r \<noteq> []
      then select_best_subtitle_by_language (main_candidates m r)
             (ordered_language_codes (s_keep_languages r))
      else [])"

definition hearing_impaired_subtitles :: "media_file \<Rightarrow> subtitle_rules \<Rightarrow> subtitle_stream list" where
  "hearing_impaired_subtitles m r =
     (if keep_hearing_impaired r \<and> hearing_impaired_candidates m r \<noteq> []
      then select_best_subtitle_by_language (hearing_impaired_candidates m r)
             (ordered_language_codes (s_keep_languages r))
      else [])"

definition selected_subtitles ::
    "media_file \<Rightarrow> subtitle_rules \<Rightarrow> language_preferences \<Rightarrow> subtitle_stream list" where
  "selected_subtitles m r lr =
     (let forced_ranks = language_ranks (ordered_language_codes (s_keep_forced_languages r));
          forced = sorted_desc (subtitle_stream_score forced_ranks) (forced_candidates m r lr);
          with_main = append_new forced (main_subtitles m r);
          with_hi = append_new with_main (hearing_impaired_subtitles m r)
      in if drop_other_subtitles r then with_hi else subtitle_streams m)"

definition select_subtitle_streams ::
    "media_file \<Rightarrow> subtitle_rules \<Rightarrow> language_preferences \<Rightarrow> subtitle_selection_result" where
  "select_subtitle_streams m r lr =
     (let forced = forced_candidates m r lr;
          ambiguous = ambiguous_forced m r lr;
          pref_langs = language_ranks (ordered_language_codes (s_keep_languages r));
          selected = selected_subtitles m r lr;
          selected_indices = map index selected;
          dropped = filter (\<lambda>i. i \<notin> set selected_indices) (map index (subtitle_streams m));
          removed =
            map index (filter (\<lambda>s. \<not> has_key pref_langs (language_code (language s)) \<and> index s \<in> set dropped)
              (subtitle_streams m));
          review_code = ''manual_review_low_confidence_subtitle_metadata'';
          ambiguous_meta = [(''stream_indices'', j_ints (map index ambiguous))]
      in \<lparr>sr_intent =
            \<lparr>s_selected = selected_indices, s_dropped = dropped,
             s_required_language_codes = unique_languages (map language selected),
             s_required_forced_language_codes = unique_languages (map language forced),
             forced_stream_indices = map index forced,
             main_stream_index = (case main_subtitles m r of [] \<Rightarrow> None | s # _ \<Rightarrow> Some (index s)),
             hearing_impaired_stream_indices = map index (hearing_impaired_subtitles m r),
             ambiguous_forced_stream_indices = map index ambiguous\<rparr>,
          sr_reasons =
            (if ambiguous \<noteq> [] \<and> preserve_forced_subtitles lr
             then [make_reason review_code
                     ''Forced subtitle metadata is ambiguous and requires manual review.'' ambiguous_meta]
             else [])
            @ (if drop_other_subtitles r \<and> removed \<noteq> []
               then [make_reason ''non_preferred_subtitles_removed''
                       ''Non-preferred-language subtitle tracks are not selected.''
                       [(''stream_indices'', j_ints removed)]] else [])
            @ (if forced \<noteq> []
               then [make_reason ''forced_english_subtitles_preserved''
                       ''Forced preferred-language subtitle tracks are preserved.''
                       [(''stream_indices'', j_ints (map index forced))]] else []),
          sr_warnings =
            (if ambiguous \<noteq> [] \<and> preserve_forced_subtitles lr
             then [make_warning review_code
                     ''Forced subtitle intent looks ambiguous in metadata.'' ambiguous_meta] else [])
            @ (if selected = [] \<and> subtitle_streams m \<noteq> []
               then [make_warning ''english_subtitle_not_found''
                       ''No preferred-language subtitle tracks were selected.'' []] else []),
          sr_requires_manual_review = ambiguous \<noteq> []\<rparr>)"

subsection \<open>Ranks\<close>


lemma ordered_codes_loop_append:
  "ordered_codes_loop acc (xs @ ys) = ordered_codes_loop (ordered_codes_loop acc xs) ys"
  by (induction xs arbitrary: acc) (auto simp: Let_def)

interpretation ul: ordered_dedup unique_languages language_code
  by unfold_locales (simp_all add: unique_languages_def ordered_codes_loop_append Let_def)

interpretation olc: ordered_dedup ordered_language_codes "\<lambda>v. language_code (Some v)"
  by unfold_locales (simp_all add: ordered_language_codes_def ordered_codes_loop_append Let_def)

lemma language_code_ordered: "l \<in> set (ordered_language_codes vs) \<Longrightarrow> language_code (Some l) = l"
  by (auto simp: olc.set_dedup language_code_def split: option.splits)

lemma ordered_language_codes_idem [simp]:
  "ordered_language_codes (ordered_language_codes vs) = ordered_language_codes vs"
proof -
  have m: "map (\<lambda>v. language_code (Some v)) (ordered_language_codes vs) = ordered_language_codes vs"
    by (rule map_idI) (rule language_code_ordered)
  show ?thesis using olc.dedup_fixpoint [of "ordered_language_codes vs"] olc.distinct_dedup [of vs]
    by (simp add: m)
qed

lemma map_of_enumerate:
  "distinct ls \<Longrightarrow> k < length ls \<Longrightarrow>
     map_of (map (\<lambda>(i, l). (l, f i)) (enumerate j ls)) (ls ! k) = Some (f (j + k))"
proof (induction ls arbitrary: j k)
  case (Cons l ls)
  show ?case
  proof (cases k)
    case (Suc k')
    with Cons have "ls ! k' \<noteq> l" by (metis distinct.simps(2) length_Cons not_less_eq nth_mem)
    with Suc Cons show ?thesis by simp
  qed simp
qed simp

lemma dom_map_of_enumerate: "dom (map_of (map (\<lambda>(i, l). (l, f i)) (enumerate j ls))) = set ls"
  by (induction ls arbitrary: j) auto

lemma dom_language_ranks [simp]: "dom (language_ranks vs) = set (ordered_language_codes vs)"
  by (simp add: language_ranks_def dom_map_of_enumerate Let_def)

lemma has_key_language_ranks [simp]:
  "has_key (language_ranks vs) l \<longleftrightarrow> l \<in> set (ordered_language_codes vs)"
  by (simp add: has_key_dom)

lemma language_ranks_nth:
  "k < length (ordered_language_codes vs) \<Longrightarrow>
     language_ranks vs (ordered_language_codes vs ! k) = Some (int (length (ordered_language_codes vs)) - int k)"
  by (simp add: language_ranks_def Let_def map_of_enumerate olc.distinct_dedup)

lemma rank_or_zero_pos: "0 < rank_or_zero (language_ranks vs) l \<longleftrightarrow> l \<in> set (ordered_language_codes vs)"
proof
  assume "l \<in> set (ordered_language_codes vs)"
  then obtain k where "k < length (ordered_language_codes vs)" "l = ordered_language_codes vs ! k"
    by (metis in_set_conv_nth)
  then show "0 < rank_or_zero (language_ranks vs) l"
    by (simp add: rank_or_zero_def language_ranks_nth)
next
  assume "0 < rank_or_zero (language_ranks vs) l"
  then have "l \<in> dom (language_ranks vs)"
    by (cases "language_ranks vs l") (simp_all add: rank_or_zero_def domIff del: dom_language_ranks)
  then show "l \<in> set (ordered_language_codes vs)" by simp
qed

lemma rank_or_zero_inj:
  "l \<in> set (ordered_language_codes vs) \<Longrightarrow>
     rank_or_zero (language_ranks vs) l = rank_or_zero (language_ranks vs) l' \<Longrightarrow> l' = l"
proof -
  assume l: "l \<in> set (ordered_language_codes vs)"
    and e: "rank_or_zero (language_ranks vs) l = rank_or_zero (language_ranks vs) l'"
  then have l': "l' \<in> set (ordered_language_codes vs)" using rank_or_zero_pos by metis
  obtain k k' where "k < length (ordered_language_codes vs)" "l = ordered_language_codes vs ! k"
    "k' < length (ordered_language_codes vs)" "l' = ordered_language_codes vs ! k'"
    using l l' by (metis in_set_conv_nth)
  with e show ?thesis by (simp add: rank_or_zero_def language_ranks_nth)
qed

subsection \<open>The shared contract of the two per-language selections\<close>

locale best_by_language =
  fixes select :: "'a list \<Rightarrow> string list \<Rightarrow> 'a list"
    and lang :: "'a \<Rightarrow> string"
    and score :: "'a \<Rightarrow> 'k::linorder"
  assumes select_Nil: "select ss [] = []"
    and select_Cons: "select ss (l # ls) =
      (case py_max score (filter (\<lambda>s. lang s = l) ss) of
         None \<Rightarrow> select ss ls | Some s \<Rightarrow> s # select ss ls)"
begin

lemma select_subset: "s \<in> set (select ss ls) \<Longrightarrow> s \<in> set ss \<and> lang s \<in> set ls"
proof (induction ls)
  case (Cons l ls)
  then show ?case by (auto simp: select_Cons split: option.splits dest: py_max_in)
qed (simp add: select_Nil)

lemma select_languages: "map lang (select ss ls) = filter (\<lambda>l. \<exists>s\<in>set ss. lang s = l) ls"
proof (induction ls)
  case (Cons l ls)
  then show ?case
    by (auto simp: select_Cons filter_empty_conv split: option.splits dest: py_max_in)
qed (simp add: select_Nil)

lemma select_maximal:
  "s \<in> set (select ss ls) \<Longrightarrow> t \<in> set ss \<Longrightarrow> lang t = lang s \<Longrightarrow> score t \<le> score s"
proof (induction ls)
  case (Cons l ls)
  show ?case
  proof (cases "py_max score (filter (\<lambda>s. lang s = l) ss)")
    case None
    with Cons show ?thesis by (simp add: select_Cons)
  next
    case (Some b)
    have b: "lang b = l" using py_max_in [OF Some] by simp
    show ?thesis
    proof (cases "s = b")
      case True
      with b Cons.prems have "t \<in> set (filter (\<lambda>s. lang s = l) ss)" by simp
      from py_max_ge [OF Some this] True show ?thesis by simp
    next
      case False
      with Cons Some show ?thesis by (simp add: select_Cons)
    qed
  qed
qed (simp add: select_Nil)

lemma select_length: "length (select ss ls) \<le> length ls"
  using arg_cong [OF select_languages, of length ss ls] by (simp add: length_filter_le)

lemma select_distinct: "distinct ls \<Longrightarrow> distinct (map lang (select ss ls))"
  by (simp add: select_languages)

lemma select_covers:
  "l \<in> set ls \<Longrightarrow> s \<in> set ss \<Longrightarrow> lang s = l \<Longrightarrow> \<exists>t\<in>set (select ss ls). lang t = l"
proof -
  assume "l \<in> set ls" "s \<in> set ss" "lang s = l"
  then have "l \<in> set (map lang (select ss ls))" by (auto simp: select_languages)
  then show ?thesis by auto
qed

end

interpretation ba: best_by_language "\<lambda>ss ls. select_best_audio_by_language ss r ls"
    "\<lambda>s. language_code (language s)" "audio_quality_score r" for r
  by unfold_locales simp_all

interpretation bs: best_by_language select_best_subtitle_by_language
    "\<lambda>s. language_code (language s)" "subtitle_stream_score Map.empty"
  by unfold_locales simp_all


subsection \<open>Audio selection\<close>

lemma fill_tracks_set: "set (fill_tracks n sel ss) \<subseteq> set sel \<union> set ss"
proof (induction n sel ss rule: fill_tracks.induct)
  case (2 n sel s ss)
  then show ?case by (auto simp: Let_def split: if_splits)
qed simp

lemma fill_tracks_prefix: "prefix sel (fill_tracks n sel ss)"
proof (induction n sel ss rule: fill_tracks.induct)
  case (2 n sel s ss)
  then show ?case by (auto simp: Let_def dest: append_prefixD)
qed simp

lemma fill_tracks_distinct: "distinct sel \<Longrightarrow> distinct (fill_tracks n sel ss)"
proof (induction n sel ss rule: fill_tracks.induct)
  case (2 n sel s ss)
  then show ?case by (auto simp: Let_def)
qed simp

lemma fill_tracks_length:
  "int (length sel) < n \<Longrightarrow> int (length (fill_tracks n sel ss)) \<le> n"
proof (induction n sel ss rule: fill_tracks.induct)
  case (2 n sel s ss)
  then show ?case by (auto simp: Let_def)
qed simp

lemma fill_tracks_complete:
  "int (length (fill_tracks n sel ss)) < n \<Longrightarrow> set ss \<subseteq> set (fill_tracks n sel ss)"
proof (induction n sel ss rule: fill_tracks.induct)
  case (2 n sel s ss)
  let ?sel' = "if s \<in> set sel then sel else sel @ [s]"
  have e: "fill_tracks n sel (s # ss) = fill_tracks n ?sel' ss" and le: "\<not> n \<le> int (length ?sel')"
    using 2(2) by (auto simp: Let_def split: if_splits)
  have "set ss \<subseteq> set (fill_tracks n ?sel' ss)" using 2 le e by (simp add: Let_def)
  moreover have "s \<in> set (fill_tracks n ?sel' ss)"
    using set_mono_prefix [OF fill_tracks_prefix [of ?sel' n ss]] by auto
  ultimately show ?case unfolding e by simp
qed simp

lemma audio_stream_score_le:
  "audio_stream_score r ranks s \<le> audio_stream_score r ranks t \<longleftrightarrow>
     rank_or_zero ranks (language_code (language s)) < rank_or_zero ranks (language_code (language t))
     \<or> rank_or_zero ranks (language_code (language s)) = rank_or_zero ranks (language_code (language t))
        \<and> audio_quality_score r s \<le> audio_quality_score r t"
proof -
  have e: "audio_stream_score r ranks u =
      (rank_or_zero ranks (language_code (language u)), audio_quality_score r u)" for u
    by (simp add: audio_stream_score_def audio_quality_score_def)
  show ?thesis unfolding e less_eq_prod_simp by auto
qed

lemma audio_quality_score_inj: "audio_quality_score r s = audio_quality_score r t \<Longrightarrow> index s = index t"
  by (simp add: audio_quality_score_def)

lemma sorted_desc_hd:
  assumes "xs \<noteq> []" "x \<in> set xs"
  shows "f x \<le> f (hd (sorted_desc f xs))"
proof -
  let ?ys = "sorted_desc f xs"
  have ne: "?ys \<noteq> []" using assms(1) by (metis length_0_conv length_sorted_desc)
  then obtain y ys where ys: "?ys = y # ys" by (cases ?ys) auto
  have "sorted (map f (rev ys @ [y]))" using sorted_desc_sorted [of f xs] ys by simp
  moreover have "x \<in> set (y # ys)" using assms(2) ys by (metis set_sorted_desc)
  ultimately show ?thesis using ys by (auto simp: sorted_append)
qed


abbreviation selectable_best :: "media_file \<Rightarrow> audio_rules \<Rightarrow> audio_stream list" where
  "selectable_best m r \<equiv>
     select_best_audio_by_language (selectable_audio_streams m r) r (ordered_language_codes (a_keep_languages r))"

lemma sorted_top_in_best:
  assumes dist: "distinct (map index (audio_streams m))"
    and ne: "selectable_best m r \<noteq> []"
  shows "hd (sorted_desc (audio_stream_score r (language_ranks (ordered_language_codes (a_keep_languages r))))
           (selectable_audio_streams m r)) \<in> set (selectable_best m r)" (is "?top \<in> _")
proof -
  let ?o = "ordered_language_codes (a_keep_languages r)" and ?ss = "selectable_audio_streams m r"
  let ?rk = "rank_or_zero (language_ranks ?o)" and ?lang = "\<lambda>s::audio_stream. language_code (language s)"
  let ?f = "audio_stream_score r (language_ranks ?o)"
  obtain b where b: "b \<in> set (selectable_best m r)" using ne by fastforce
  have bs: "b \<in> set ?ss" "?lang b \<in> set ?o" using ba.select_subset [OF b] by auto
  then have ssne: "?ss \<noteq> []" by auto
  have "set (sorted_desc ?f ?ss) = set ?ss" by simp
  moreover have "sorted_desc ?f ?ss \<noteq> []" using ssne by (metis length_0_conv length_sorted_desc)
  ultimately have top: "?top \<in> set ?ss" by (metis hd_in_set)
  have "0 < ?rk (?lang b)" using bs(2) rank_or_zero_pos [of ?o] by simp
  moreover have "?f b \<le> ?f ?top" using sorted_desc_hd [OF ssne bs(1)] .
  ultimately have "0 < ?rk (?lang ?top)" unfolding audio_stream_score_le by auto
  then have lt: "?lang ?top \<in> set ?o" using rank_or_zero_pos [of ?o] by simp
  obtain t where t: "t \<in> set (selectable_best m r)" "?lang t = ?lang ?top"
    using ba.select_covers [OF lt top refl] by blast
  have "audio_quality_score r ?top \<le> audio_quality_score r t"
    using ba.select_maximal [OF t(1) top] t(2) by simp
  moreover have ts: "t \<in> set ?ss" using ba.select_subset [OF t(1)] by simp
  have "audio_quality_score r t \<le> audio_quality_score r ?top"
    using sorted_desc_hd [OF ssne ts, of ?f] t(2) unfolding audio_stream_score_le by auto
  ultimately have "index t = index ?top" by (intro audio_quality_score_inj) (rule order.antisym)
  moreover have "t \<in> set (audio_streams m)" "?top \<in> set (audio_streams m)"
    using ts top by (auto simp: selectable_audio_streams_def candidate_audio_streams_def
        preferred_audio_streams_def split: if_splits)
  ultimately have "t = ?top" using dist by (meson distinct_map inj_onD)
  then show ?thesis using t(1) by simp
qed


lemma selectable_subset: "set (selectable_audio_streams m r) \<subseteq> set (audio_streams m)"
  by (auto simp: selectable_audio_streams_def candidate_audio_streams_def preferred_audio_streams_def
      split: if_splits)

lemma selectable_best_subset: "set (selectable_best m r) \<subseteq> set (selectable_audio_streams m r)"
  using ba.select_subset by blast

lemma selectable_best_distinct: "distinct (selectable_best m r)"
  using ba.select_distinct [OF olc.distinct_dedup] by (simp add: distinct_map)

lemma selected_audio_preferred:
  "keep_only_preferred_languages r \<Longrightarrow> selected_audio m r = selectable_best m r"
  using ba.select_length [of "selectable_audio_streams m r" r "ordered_language_codes (a_keep_languages r)"]
  by (simp add: selected_audio_def Let_def)

lemma selected_audio_subset: "set (selected_audio m r) \<subseteq> set (selectable_audio_streams m r)"
proof (cases "keep_only_preferred_languages r")
  case True
  then show ?thesis using selectable_best_subset by (simp add: selected_audio_preferred)
next
  case False
  then show ?thesis using selectable_best_subset [of m r] fill_tracks_set
    by (fastforce simp: selected_audio_def Let_def dest: in_set_takeD)
qed

lemma selected_audio_distinct: "distinct (selected_audio m r)"
  by (simp add: selected_audio_def Let_def fill_tracks_distinct selectable_best_distinct)

lemma selected_audio_best_first: "prefix (selectable_best m r) (selected_audio m r)"
proof (cases "keep_only_preferred_languages r")
  case False
  let ?o = "ordered_language_codes (a_keep_languages r)"
  let ?f = "fill_tracks (max_tracks_to_keep r) (selectable_best m r)
     (sorted_desc (audio_stream_score r (language_ranks ?o)) (selectable_audio_streams m r))"
  have "prefix (selectable_best m r) ?f" by (rule fill_tracks_prefix)
  moreover have "length (selectable_best m r) \<le> nat (max (max_tracks_to_keep r) (int (length ?o)))"
    using ba.select_length [of "selectable_audio_streams m r" r ?o] by simp
  ultimately show ?thesis using False
    by (auto simp: selected_audio_def Let_def prefix_def)
qed (simp add: selected_audio_preferred)

lemma selected_audio_length:
  assumes dist: "distinct (map index (audio_streams m))" and pos: "0 < max_tracks_to_keep r"
  shows "int (length (selected_audio m r)) \<le> max (max_tracks_to_keep r) (int (length (selectable_best m r)))"
proof (cases "keep_only_preferred_languages r")
  case False
  let ?n = "max_tracks_to_keep r" and ?b = "selectable_best m r"
  let ?o = "ordered_language_codes (a_keep_languages r)"
  let ?s = "sorted_desc (audio_stream_score r (language_ranks ?o)) (selectable_audio_streams m r)"
  have "int (length (fill_tracks ?n ?b ?s)) \<le> max ?n (int (length ?b))"
  proof (cases "int (length ?b) < ?n")
    case True
    then show ?thesis using fill_tracks_length [of ?b ?n ?s] by simp
  next
    case F: False
    then have ne: "?b \<noteq> []" using pos by auto
    then have "selectable_audio_streams m r \<noteq> []" using selectable_best_subset [of m r] by auto
    then obtain t ts where s: "?s = t # ts" by (metis length_0_conv length_sorted_desc list.exhaust)
    then have "t \<in> set ?b" using sorted_top_in_best [OF dist ne] by simp
    then show ?thesis using F s by simp
  qed
  with False show ?thesis by (simp add: selected_audio_def Let_def)
qed (simp add: selected_audio_preferred)

lemma selected_audio_nonempty:
  assumes "selectable_audio_streams m r \<noteq> []" "0 < max_tracks_to_keep r"
  shows "selected_audio m r \<noteq> []"
proof (cases "keep_only_preferred_languages r")
  case True
  obtain s where s: "s \<in> set (selectable_audio_streams m r)" using assms(1) by fastforce
  then have "language_code (language s) \<in> set (ordered_language_codes (a_keep_languages r))"
    using True by (auto simp: selectable_audio_streams_def candidate_audio_streams_def
        preferred_audio_streams_def)
  from ba.select_covers [OF this s refl, of r] True show ?thesis
    by (auto simp: selected_audio_preferred)
next
  case False
  let ?o = "ordered_language_codes (a_keep_languages r)"
  let ?s = "sorted_desc (audio_stream_score r (language_ranks ?o)) (selectable_audio_streams m r)"
  obtain t ts where s: "?s = t # ts" using assms(1) by (metis length_0_conv length_sorted_desc list.exhaust)
  have "t \<in> set (fill_tracks (max_tracks_to_keep r) (selectable_best m r) (t # ts))"
    using set_mono_prefix [OF fill_tracks_prefix] by (fastforce simp: Let_def)
  then show ?thesis using False s assms(2) by (auto simp: selected_audio_def Let_def)
qed

lemma select_audio_manual:
  "ar_requires_manual_review (select_audio_streams m r lr) \<longleftrightarrow> selectable_audio_streams m r = []"
  by (auto simp: select_audio_streams_def audio_manual_review_def Let_def
      selectable_audio_streams_def candidate_audio_streams_def)

lemma select_audio_selected:
  "a_selected (ar_intent (select_audio_streams m r lr)) =
     (if selectable_audio_streams m r = [] then [] else map index (selected_audio m r))"
  by (auto simp: select_audio_streams_def audio_manual_review_def Let_def
      selectable_audio_streams_def candidate_audio_streams_def)

lemma select_audio_dropped:
  "a_dropped (ar_intent (select_audio_streams m r lr)) =
     filter (\<lambda>i. i \<notin> set (a_selected (ar_intent (select_audio_streams m r lr)))) (map index (audio_streams m))"
  by (auto simp: select_audio_streams_def audio_manual_review_def Let_def
      selectable_audio_streams_def candidate_audio_streams_def)

lemma select_audio_primary:
  "primary_stream_index (ar_intent (select_audio_streams m r lr)) =
     (case a_selected (ar_intent (select_audio_streams m r lr)) of [] \<Rightarrow> None | i # _ \<Rightarrow> Some i)"
  by (auto simp: select_audio_streams_def audio_manual_review_def Let_def
      selectable_audio_streams_def candidate_audio_streams_def split: list.splits)

lemma select_audio_missing:
  "missing_required_audio (ar_intent (select_audio_streams m r lr)) \<longleftrightarrow> selectable_audio_streams m r = []"
  by (auto simp: select_audio_streams_def audio_manual_review_def Let_def
      selectable_audio_streams_def candidate_audio_streams_def)

subsection \<open>What audio selection guarantees\<close>


text \<open>Audio selection partitions the file's audio streams: every stream index is either
  selected or dropped, never both, and none is selected twice.\<close>

theorem audio_selection_partition:
  assumes "distinct (map index (audio_streams m))"
  shows "let i = ar_intent (select_audio_streams m r lr) in
      distinct (a_selected i) \<and> distinct (a_dropped i) \<and> set (a_selected i) \<inter> set (a_dropped i) = {}
      \<and> set (a_selected i) \<union> set (a_dropped i) = index ` set (audio_streams m)"
proof -
  have sub: "set (selected_audio m r) \<subseteq> set (audio_streams m)"
    using selected_audio_subset selectable_subset by blast
  then have "inj_on index (set (selected_audio m r))"
    using assms by (auto simp: distinct_map intro: inj_on_subset)
  then have "distinct (map index (selected_audio m r))"
    by (simp add: distinct_map selected_audio_distinct)
  moreover have "set (a_selected (ar_intent (select_audio_streams m r lr))) \<subseteq> index ` set (audio_streams m)"
    using sub by (auto simp: select_audio_selected)
  ultimately show ?thesis using assms
    by (auto simp: Let_def select_audio_dropped select_audio_selected)
qed

text \<open>With a preferred-languages-only policy, the selected audio is one stream per policy
  language that has a selectable stream, in policy order; each is the best of its language by
  the quality score, and the primary stream is the one of the first such language.\<close>

theorem audio_best_per_language:
  assumes "keep_only_preferred_languages r"
  shows "let sel = selected_audio m r; order = ordered_language_codes (a_keep_languages r);
           avail = selectable_audio_streams m r in
      map (\<lambda>s. language_code (language s)) sel = filter (\<lambda>l. \<exists>s\<in>set avail. language_code (language s) = l) order
      \<and> (\<forall>s\<in>set sel. s \<in> set avail
           \<and> (\<forall>t\<in>set avail. language_code (language t) = language_code (language s)
                 \<longrightarrow> audio_quality_score r t \<le> audio_quality_score r s))
      \<and> (avail \<noteq> [] \<longrightarrow> a_selected (ar_intent (select_audio_streams m r lr)) = map index sel)
      \<and> primary_stream_index (ar_intent (select_audio_streams m r lr))
          = (case sel of [] \<Rightarrow> None | s # _ \<Rightarrow> Some (index s))"
proof -
  let ?sel = "selectable_best m r"
  have "selectable_audio_streams m r = [] \<Longrightarrow> ?sel = []"
    using selectable_best_subset [of m r] by simp
  moreover have "\<forall>s\<in>set ?sel. s \<in> set (selectable_audio_streams m r) \<and>
      (\<forall>t\<in>set (selectable_audio_streams m r). language_code (language t) = language_code (language s)
         \<longrightarrow> audio_quality_score r t \<le> audio_quality_score r s)"
    using ba.select_maximal ba.select_subset by blast
  ultimately show ?thesis
    by (auto simp: Let_def selected_audio_preferred assms ba.select_languages
        select_audio_primary select_audio_selected split: list.splits)
qed

text \<open>Nothing usable is the only way audio goes to manual review: it is required exactly when
  no stream is selected, which is also when the intent reports the required audio missing, and
  exactly when every audio stream is commentary the policy refuses or in a language a
  preferred-only policy refuses.\<close>

theorem audio_review_iff_nothing_selected:
  assumes "wf_audio_rules r"
  shows "let res = select_audio_streams m r lr; i = ar_intent res in
      (ar_requires_manual_review res \<longleftrightarrow> a_selected i = [])
      \<and> (missing_required_audio i \<longleftrightarrow> a_selected i = [])
      \<and> (a_selected i = [] \<longleftrightarrow>
           (\<forall>s\<in>set (audio_streams m).
              is_commentary_candidate s \<and> \<not> allow_commentary r
              \<or> keep_only_preferred_languages r \<and> language_code (language s) \<notin> set (a_keep_languages r)))"
proof -
  have pos: "0 < max_tracks_to_keep r" using assms by (simp add: wf_audio_rules_def)
  have codes: "set (ordered_language_codes (a_keep_languages r)) = set (a_keep_languages r)"
  proof -
    have "language_code (Some l) = l" if "l \<in> set (a_keep_languages r)" for l
      using assms that by (auto simp: wf_audio_rules_def wf_language_list_def is_language_code_def
          language_code_def)
    then show ?thesis by (simp add: olc.set_dedup)
  qed
  have "selectable_audio_streams m r = [] \<longleftrightarrow>
      (\<forall>s\<in>set (audio_streams m).
          is_commentary_candidate s \<and> \<not> allow_commentary r
          \<or> keep_only_preferred_languages r \<and> language_code (language s) \<notin> set (a_keep_languages r))"
    by (auto simp: selectable_audio_streams_def candidate_audio_streams_def
        preferred_audio_streams_def filter_empty_conv codes)
  then show ?thesis using selected_audio_nonempty [OF _ pos, of m]
    by (auto simp: Let_def select_audio_manual select_audio_missing select_audio_selected)
qed

text \<open>The number of selected audio streams is bounded by \<open>max_tracks_to_keep\<close>, which only the
  one-per-language choices can exceed; every one of those is selected, first and in order, and a
  policy that keeps other languages leaves a selectable stream out only when the limit is reached.\<close>

theorem audio_track_limit:
  assumes "distinct (map index (audio_streams m))" "0 < max_tracks_to_keep r"
  shows "let best = select_best_audio_by_language (selectable_audio_streams m r) r
             (ordered_language_codes (a_keep_languages r)); sel = selected_audio m r in
      int (length sel) \<le> max (max_tracks_to_keep r) (int (length best)) \<and> prefix best sel
      \<and> (\<not> keep_only_preferred_languages r \<and> int (length sel) < max_tracks_to_keep r
          \<longrightarrow> set sel = set (selectable_audio_streams m r))"
proof -
  have "set (selected_audio m r) = set (selectable_audio_streams m r)"
    if k: "\<not> keep_only_preferred_languages r" "int (length (selected_audio m r)) < max_tracks_to_keep r"
  proof -
    let ?o = "ordered_language_codes (a_keep_languages r)"
    let ?f = "fill_tracks (max_tracks_to_keep r) (selectable_best m r)
       (sorted_desc (audio_stream_score r (language_ranks ?o)) (selectable_audio_streams m r))"
    have "int (length ?f) < max_tracks_to_keep r" "selected_audio m r = ?f"
      using k by (auto simp: selected_audio_def Let_def min_def split: if_splits)
    then show ?thesis
      using fill_tracks_complete [of "max_tracks_to_keep r" "selectable_best m r"] selected_audio_subset [of m r]
      by fastforce
  qed
  then show ?thesis using selected_audio_length [OF assms] selected_audio_best_first
    unfolding Let_def by blast
qed


text \<open>Concrete streams and rules for the closed instances.\<close>

definition sample_audio :: "int \<Rightarrow> string \<Rightarrow> int \<Rightarrow> bool \<Rightarrow> audio_stream" where
  "sample_audio i l ch com =
     (AudioStream i)\<lparr>tags := StreamTags\<lparr>t_language := Some l\<rparr>, codec_name := Some ''AC3'',
        channels := Some ch, is_commentary_candidate := com, is_surround_candidate := 6 \<le> ch\<rparr>"

definition sample_audio_rules :: audio_rules where
  "sample_audio_rules =
     \<lparr>a_keep_languages = [''eng'', ''fra''], keep_only_preferred_languages = True,
      preserve_best_surround = True, preserve_seven_one = True, preserve_atmos_capable = True,
      preferred_codecs = [''truehd'', ''ac3''], allow_commentary = False, max_tracks_to_keep = 1\<rparr>"

definition sample_language_rules :: language_preferences where
  "sample_language_rules =
     \<lparr>preferred_audio = [''eng''], preferred_subtitles = [''eng''], preserve_forced_subtitles = True,
      drop_undetermined_audio = False, drop_undetermined_subtitles = False\<rparr>"

definition sample_media :: media_file where
  "sample_media =
     (MediaFile (ContainerFormat (path_of ''/media/a.mkv'') 5))
       \<lparr>audio_streams := [sample_audio 1 ''jpn'' 2 False, sample_audio 2 ''eng'' 2 False,
          sample_audio 3 ''eng'' 6 False, sample_audio 4 ''eng'' 8 True, sample_audio 5 ''fra'' 2 False]\<rparr>"

lemma audio_selection_partition_witness:
  "let i = ar_intent (select_audio_streams sample_media sample_audio_rules sample_language_rules) in
      distinct (a_selected i) \<and> distinct (a_dropped i) \<and> set (a_selected i) \<inter> set (a_dropped i) = {}
      \<and> set (a_selected i) \<union> set (a_dropped i) = index ` set (audio_streams sample_media)"
  by (rule audio_selection_partition) code_simp

lemma sample_selection:
  "a_selected (ar_intent (select_audio_streams sample_media sample_audio_rules sample_language_rules)) = [3, 5]"
  by code_simp

lemma audio_best_per_language_witness:
  "let sel = selected_audio sample_media sample_audio_rules;
       order = ordered_language_codes (a_keep_languages sample_audio_rules);
       avail = selectable_audio_streams sample_media sample_audio_rules in
      map (\<lambda>s. language_code (language s)) sel = filter (\<lambda>l. \<exists>s\<in>set avail. language_code (language s) = l) order
      \<and> (\<forall>s\<in>set sel. s \<in> set avail
           \<and> (\<forall>t\<in>set avail. language_code (language t) = language_code (language s)
                 \<longrightarrow> audio_quality_score sample_audio_rules t \<le> audio_quality_score sample_audio_rules s))
      \<and> (avail \<noteq> [] \<longrightarrow> a_selected (ar_intent (select_audio_streams sample_media sample_audio_rules
             sample_language_rules)) = map index sel)
      \<and> primary_stream_index (ar_intent (select_audio_streams sample_media sample_audio_rules
             sample_language_rules))
          = (case sel of [] \<Rightarrow> None | s # _ \<Rightarrow> Some (index s))"
  by (rule audio_best_per_language) code_simp

lemma audio_review_iff_nothing_selected_witness:
  "let res = select_audio_streams sample_media sample_audio_rules sample_language_rules; i = ar_intent res in
      (ar_requires_manual_review res \<longleftrightarrow> a_selected i = [])
      \<and> (missing_required_audio i \<longleftrightarrow> a_selected i = [])
      \<and> (a_selected i = [] \<longleftrightarrow>
           (\<forall>s\<in>set (audio_streams sample_media).
              is_commentary_candidate s \<and> \<not> allow_commentary sample_audio_rules
              \<or> keep_only_preferred_languages sample_audio_rules
                \<and> language_code (language s) \<notin> set (a_keep_languages sample_audio_rules)))"
  by (rule audio_review_iff_nothing_selected) code_simp

lemma audio_track_limit_witness:
  "let best = select_best_audio_by_language (selectable_audio_streams sample_media sample_audio_rules)
             sample_audio_rules (ordered_language_codes (a_keep_languages sample_audio_rules));
       sel = selected_audio sample_media sample_audio_rules in
      int (length sel) \<le> max (max_tracks_to_keep sample_audio_rules) (int (length best)) \<and> prefix best sel
      \<and> (\<not> keep_only_preferred_languages sample_audio_rules
          \<and> int (length sel) < max_tracks_to_keep sample_audio_rules
          \<longrightarrow> set sel = set (selectable_audio_streams sample_media sample_audio_rules))"
  by (rule audio_track_limit) code_simp+

subsection \<open>Subtitle selection\<close>

lemma set_append_new [simp]: "set (append_new sel ss) = set sel \<union> set ss"
  by (induction sel ss rule: append_new.induct) auto

lemma distinct_append_new [simp]: "distinct (append_new sel ss) \<longleftrightarrow> distinct sel"
  by (induction sel ss rule: append_new.induct) auto

lemma length_append_new: "length (append_new sel ss) \<le> length sel + length ss"
  by (induction sel ss rule: append_new.induct) auto

lemma append_new_prefix: "prefix sel (append_new sel ss)"
  by (induction sel ss rule: append_new.induct) (auto dest: append_prefixD split: if_splits)

lemma main_subtitles_subset: "set (main_subtitles m r) \<subseteq> set (main_candidates m r)"
  using bs.select_subset by (fastforce simp: main_subtitles_def)

lemma hearing_impaired_subset:
  "set (hearing_impaired_subtitles m r) \<subseteq> set (hearing_impaired_candidates m r)"
  using bs.select_subset by (fastforce simp: hearing_impaired_subtitles_def)

lemma selected_subtitles_set:
  "set (selected_subtitles m r lr) =
     (if drop_other_subtitles r
      then set (forced_candidates m r lr) \<union> set (main_subtitles m r) \<union> set (hearing_impaired_subtitles m r)
      else set (subtitle_streams m))"
  by (auto simp: selected_subtitles_def Let_def)

lemma selected_subtitles_subset: "set (selected_subtitles m r lr) \<subseteq> set (subtitle_streams m)"
  using main_subtitles_subset [of m r] hearing_impaired_subset [of m r]
  by (auto simp: selected_subtitles_set forced_candidates_def main_candidates_def
      hearing_impaired_candidates_def)

lemma selected_subtitles_distinct:
  "distinct (subtitle_streams m) \<Longrightarrow> distinct (selected_subtitles m r lr)"
  by (auto simp: selected_subtitles_def Let_def forced_candidates_def)

lemma per_language_distinct:
  "distinct (map (\<lambda>s. language_code (language s)) (main_subtitles m r))"
  "distinct (map (\<lambda>s. language_code (language s)) (hearing_impaired_subtitles m r))"
  by (simp_all add: main_subtitles_def hearing_impaired_subtitles_def bs.select_distinct olc.distinct_dedup)

lemma per_language_length:
  "length (main_subtitles m r) \<le> length (ordered_language_codes (s_keep_languages r))"
  "length (hearing_impaired_subtitles m r) \<le> length (ordered_language_codes (s_keep_languages r))"
  by (simp_all add: main_subtitles_def hearing_impaired_subtitles_def bs.select_length)

lemma select_subtitle_fields:
  "s_selected (sr_intent (select_subtitle_streams m r lr)) = map index (selected_subtitles m r lr)"
  "s_dropped (sr_intent (select_subtitle_streams m r lr)) =
     filter (\<lambda>i. i \<notin> set (map index (selected_subtitles m r lr))) (map index (subtitle_streams m))"
  "forced_stream_indices (sr_intent (select_subtitle_streams m r lr)) = map index (forced_candidates m r lr)"
  "ambiguous_forced_stream_indices (sr_intent (select_subtitle_streams m r lr)) =
     map index (ambiguous_forced m r lr)"
  "s_required_language_codes (sr_intent (select_subtitle_streams m r lr)) =
     unique_languages (map language (selected_subtitles m r lr))"
  "s_required_forced_language_codes (sr_intent (select_subtitle_streams m r lr)) =
     unique_languages (map language (forced_candidates m r lr))"
  "main_stream_index (sr_intent (select_subtitle_streams m r lr)) =
     (case main_subtitles m r of [] \<Rightarrow> None | s # _ \<Rightarrow> Some (index s))"
  "sr_requires_manual_review (select_subtitle_streams m r lr) \<longleftrightarrow> ambiguous_forced m r lr \<noteq> []"
  by (simp_all add: select_subtitle_streams_def Let_def)

lemma selected_subtitles_first: "drop_other_subtitles r \<Longrightarrow>
   prefix (sorted_desc (subtitle_stream_score (language_ranks (ordered_language_codes (s_keep_forced_languages r))))
             (forced_candidates m r lr)) (selected_subtitles m r lr)"
  using append_new_prefix by (simp add: selected_subtitles_def Let_def) (metis prefix_order.trans)

text \<open>Subtitle selection partitions the file's subtitle streams into selected and dropped.\<close>

theorem subtitle_selection_partition:
  assumes "distinct (map index (subtitle_streams m))"
  shows "let i = sr_intent (select_subtitle_streams m r lr) in
      distinct (s_selected i) \<and> set (s_selected i) \<inter> set (s_dropped i) = {}
      \<and> set (s_selected i) \<union> set (s_dropped i) = index ` set (subtitle_streams m)"
proof -
  have "inj_on index (set (selected_subtitles m r lr))"
    using assms selected_subtitles_subset [of m r lr] by (auto simp: distinct_map intro: inj_on_subset)
  moreover have "distinct (selected_subtitles m r lr)"
    using assms by (simp add: distinct_map selected_subtitles_distinct)
  ultimately show ?thesis using selected_subtitles_subset [of m r lr]
    by (auto simp: Let_def select_subtitle_fields distinct_map)
qed

text \<open>C35: When the policy preserves forced subtitles, every subtitle flagged forced in a forced-keep
  language is selected, and a stream of such a language that only looks forced (a marker in its
  title, handler name or tags) sends the plan to manual review; nothing else does.\<close>

theorem forced_subtitles_never_lost:
  assumes "preserve_forced_subtitles lr"
  shows "let res = select_subtitle_streams m r lr; i = sr_intent res;
             keep = set (ordered_language_codes (s_keep_forced_languages r)) in
      (\<forall>s\<in>set (subtitle_streams m). language_code (language s) \<in> keep \<and> d_forced (disposition s)
          \<longrightarrow> index s \<in> set (s_selected i) \<and> index s \<in> set (forced_stream_indices i)
              \<and> language_code (language s) \<in> set (s_required_forced_language_codes i))
      \<and> (sr_requires_manual_review res \<longleftrightarrow>
           (\<exists>s\<in>set (subtitle_streams m). language_code (language s) \<in> keep
              \<and> \<not> d_forced (disposition s) \<and> contains_forced_marker s))"
proof -
  have f: "s \<in> set (forced_candidates m r lr)"
    if "s \<in> set (subtitle_streams m)" "language_code (language s) \<in> set (ordered_language_codes (s_keep_forced_languages r))"
      "d_forced (disposition s)" for s
    using that assms by (simp add: forced_candidates_def)
  then have "s \<in> set (selected_subtitles m r lr)"
    if "s \<in> set (subtitle_streams m)" "language_code (language s) \<in> set (ordered_language_codes (s_keep_forced_languages r))"
      "d_forced (disposition s)" for s
    using that by (simp add: selected_subtitles_set)
  with f show ?thesis
    by (auto simp: Let_def select_subtitle_fields ul.set_dedup ambiguous_forced_def filter_empty_conv assms)
qed

text \<open>With \<open>drop_other_subtitles\<close>, what is kept is exactly the forced candidates, first and in
  score order, then the best full subtitle of each kept language and the best
  hearing-impaired one, so at most two per language beside the forced ones; a hearing-impaired,
  forced or forced-marked stream is never taken as the main subtitle.\<close>

theorem subtitle_selection_contents:
  assumes "drop_other_subtitles r"
  shows "let sel = selected_subtitles m r lr; forced = forced_candidates m r lr in
      set sel = set forced \<union> set (main_subtitles m r) \<union> set (hearing_impaired_subtitles m r)
      \<and> take (length forced) sel
          = sorted_desc (subtitle_stream_score (language_ranks (ordered_language_codes (s_keep_forced_languages r)))) forced
      \<and> length sel \<le> length forced + 2 * length (ordered_language_codes (s_keep_languages r))
      \<and> distinct (map (\<lambda>s. language_code (language s)) (main_subtitles m r))
      \<and> (\<forall>s\<in>set (main_subtitles m r). \<not> d_forced (disposition s) \<and> \<not> contains_forced_marker s
            \<and> \<not> is_hearing_impaired_candidate s
            \<and> (\<forall>t\<in>set (main_candidates m r). language_code (language t) = language_code (language s)
                 \<longrightarrow> subtitle_stream_score Map.empty t \<le> subtitle_stream_score Map.empty s))"
proof -
  let ?f = "sorted_desc (subtitle_stream_score (language_ranks (ordered_language_codes (s_keep_forced_languages r))))
      (forced_candidates m r lr)"
  have sel: "selected_subtitles m r lr =
      append_new (append_new ?f (main_subtitles m r)) (hearing_impaired_subtitles m r)"
    using assms by (simp add: selected_subtitles_def Let_def)
  have "length (selected_subtitles m r lr) \<le>
      length ?f + length (main_subtitles m r) + length (hearing_impaired_subtitles m r)"
    unfolding sel by (metis length_append_new add_le_mono1 le_trans)
  then have len: "length (selected_subtitles m r lr) \<le>
      length (forced_candidates m r lr) + 2 * length (ordered_language_codes (s_keep_languages r))"
    using per_language_length [of m r] by simp
  obtain rest where "selected_subtitles m r lr = ?f @ rest"
    using selected_subtitles_first [OF assms, of m lr] by (auto elim: prefixE)
  then have "take (length ?f) (selected_subtitles m r lr) = ?f" by simp
  moreover have "subtitle_stream_score Map.empty t \<le> subtitle_stream_score Map.empty s"
    if "s \<in> set (main_subtitles m r)" "t \<in> set (main_candidates m r)"
      "language_code (language t) = language_code (language s)" for s t
    using that bs.select_maximal by (fastforce simp: main_subtitles_def split: if_splits)
  moreover have "\<not> d_forced (disposition s) \<and> \<not> contains_forced_marker s \<and> \<not> is_hearing_impaired_candidate s"
    if "s \<in> set (main_subtitles m r)" for s
    using that main_subtitles_subset [of m r] by (auto simp: main_candidates_def)
  ultimately show ?thesis using len per_language_distinct [of m r] assms
    by (auto simp: Let_def selected_subtitles_set)
qed

definition sample_subtitle :: "int \<Rightarrow> string \<Rightarrow> bool \<Rightarrow> bool \<Rightarrow> string \<Rightarrow> subtitle_stream" where
  "sample_subtitle i l forced hi ti =
     (SubtitleStream i)\<lparr>tags := StreamTags\<lparr>t_language := Some l, t_title := Some ti\<rparr>,
        disposition := StreamDisposition\<lparr>d_forced := forced\<rparr>, is_forced := forced,
        is_hearing_impaired_candidate := hi\<rparr>"

definition sample_subtitle_rules :: subtitle_rules where
  "sample_subtitle_rules =
     \<lparr>s_keep_languages = [''eng''], s_keep_forced_languages = [''eng''], keep_commentary = False,
      keep_hearing_impaired = True, keep_one_full_preferred_subtitle = True, drop_other_subtitles = True\<rparr>"

definition sample_subtitled :: media_file where
  "sample_subtitled = sample_media\<lparr>subtitle_streams :=
     [sample_subtitle 6 ''fra'' False False ''Full'', sample_subtitle 7 ''eng'' False False ''Full'',
      sample_subtitle 8 ''eng'' True False ''Signs'', sample_subtitle 9 ''eng'' False True ''SDH'',
      sample_subtitle 10 ''eng'' False False ''Forced''] \<rparr>"

lemma subtitle_selection_partition_witness:
  "let i = sr_intent (select_subtitle_streams sample_subtitled sample_subtitle_rules sample_language_rules) in
      distinct (s_selected i) \<and> set (s_selected i) \<inter> set (s_dropped i) = {}
      \<and> set (s_selected i) \<union> set (s_dropped i) = index ` set (subtitle_streams sample_subtitled)"
  by (rule subtitle_selection_partition) code_simp

lemma forced_subtitles_never_lost_witness:
  "index (sample_subtitle 8 ''eng'' True False ''Signs'')
     \<in> set (s_selected (sr_intent (select_subtitle_streams sample_subtitled sample_subtitle_rules
          sample_language_rules)))
   \<and> sr_requires_manual_review (select_subtitle_streams sample_subtitled sample_subtitle_rules
          sample_language_rules)"
proof -
  have p: "preserve_forced_subtitles sample_language_rules" by code_simp
  have k: "''eng'' \<in> set (ordered_language_codes (s_keep_forced_languages sample_subtitle_rules))" by code_simp
  have s: "sample_subtitle 8 ''eng'' True False ''Signs'' \<in> set (subtitle_streams sample_subtitled)"
    "d_forced (disposition (sample_subtitle 8 ''eng'' True False ''Signs''))"
    "language_code (language (sample_subtitle 8 ''eng'' True False ''Signs'')) = ''eng''"
    by code_simp+
  have a: "sample_subtitle 10 ''eng'' False False ''Forced'' \<in> set (subtitle_streams sample_subtitled)"
    "\<not> d_forced (disposition (sample_subtitle 10 ''eng'' False False ''Forced''))"
    "language_code (language (sample_subtitle 10 ''eng'' False False ''Forced'')) = ''eng''"
    "contains_forced_marker (sample_subtitle 10 ''eng'' False False ''Forced'')"
    by code_simp+
  show ?thesis
    using forced_subtitles_never_lost [OF p, of sample_subtitled sample_subtitle_rules] k s a
    unfolding Let_def by metis
qed

lemma subtitle_selection_contents_witness:
  "set (selected_subtitles sample_subtitled sample_subtitle_rules sample_language_rules) =
     set (forced_candidates sample_subtitled sample_subtitle_rules sample_language_rules)
     \<union> set (main_subtitles sample_subtitled sample_subtitle_rules)
     \<union> set (hearing_impaired_subtitles sample_subtitled sample_subtitle_rules)"
proof -
  have "drop_other_subtitles sample_subtitle_rules" by code_simp
  from subtitle_selection_contents [OF this, of sample_subtitled sample_language_rules]
  show ?thesis unfolding Let_def by blast
qed

lemma sample_subtitle_selection:
  "s_selected (sr_intent (select_subtitle_streams sample_subtitled sample_subtitle_rules sample_language_rules))
     = [8, 7, 9]"
  by code_simp

end
