(* ===== verification/Planner.thy ===== *)
theory Planner
  imports Rules Selection
begin

text \<open>
  The planner (\<open>encodr_core/planning/planner.py\<close>): the video plan for 4K and other files, the
  container plan, the action and its confidence, composed by \<open>build_processing_plan\<close>. A video plan
  comes with its reasons and whether it needs manual review. The only way planning raises is the
  \<open>KeyError\<close> of a profile that is not loaded.
\<close>

fun four_k_mode_value :: "four_k_mode \<Rightarrow> string" where
  "four_k_mode_value STRIP_ONLY = ''strip_only''"
| "four_k_mode_value POLICY_CONTROLLED = ''policy_controlled''"

type_synonym video_planning = "video_plan \<times> plan_reason list \<times> bool"

definition build_4k_video_plan :: "video_stream \<Rightarrow> resolved_planning_policy \<Rightarrow> video_planning" where
  "build_4k_video_plan v rp =
     (let rules = four_k (rp_video_rules rp);
          target = video_codec_value (f_preferred_codec rules);
          floor = minimum_output_bitrate_bps v (Some (f_minimum_output_bitrate_1080p_mbps rules))
                    (Some (f_minimum_output_bitrate_720p_mbps rules));
          preserved =
            \<lparr>vp_primary_stream_index = Some (index v), vp_handling = PRESERVE_VIDEO,
             preserve_original = True, target_codec = codec_name v, transcode_required = False,
             quality_mode = Some (video_quality_mode_value (f_quality_mode rules)),
             quality_crf = f_quality_crf rules, source_bitrate_bps = v_bit_rate v,
             low_bitrate_skip_threshold = None, minimum_output_bitrate = floor,
             max_allowed_video_reduction_percent = Some (f_max_video_reduction_percent rules),
             output_larger_than_input_review_percent = f_output_larger_than_input_review_percent rules\<rparr>
      in
      if f_mode rules = STRIP_ONLY \<and> \<not> f_allow_transcode rules then
        (preserved,
         [make_reason ''video_preserved_for_4k_policy''
            ''4K video is preserved under the effective 4K policy.''
            [(''stream_index'', JInt (index v))]],
         False)
      else if \<not> f_allow_transcode rules then
        (preserved,
         [make_reason ''manual_review_unsupported_4k_policy_mode''
            ''The effective 4K rule is not configured to allow video transcoding.''
            [(''mode'', JStr (four_k_mode_value (f_mode rules)))]],
         True)
      else
        let needed = (codec_name v \<noteq> Some target) in
        (\<lparr>vp_primary_stream_index = Some (index v),
          vp_handling = (if needed then TRANSCODE_TO_POLICY else PRESERVE_VIDEO),
          preserve_original = \<not> needed, target_codec = Some target, transcode_required = needed,
          quality_mode = Some (video_quality_mode_value (f_quality_mode rules)),
          quality_crf = f_quality_crf rules, source_bitrate_bps = v_bit_rate v,
          low_bitrate_skip_threshold = None, minimum_output_bitrate = floor,
          max_allowed_video_reduction_percent = Some (f_max_video_reduction_percent rules),
          output_larger_than_input_review_percent = f_output_larger_than_input_review_percent rules\<rparr>,
         (if needed
          then [make_reason ''video_transcode_required_for_4k_policy_codec''
                  ''4K video codec does not match the effective 4K policy target.''
                  [(''source_codec'', j_opt_str (codec_name v)), (''target_codec'', JStr target)],
                make_reason ''video_reduction_limit_applies''
                  ''Compression safety will be checked after encoding using video-only reduction and bitrate safeguards.''
                  [(''max_allowed_video_reduction_percent'', JInt (f_max_video_reduction_percent rules)),
                   (''minimum_output_bitrate_bps'', j_opt_int floor)]]
          else []),
         False))"

definition exceeds_bitrate :: "video_stream \<Rightarrow> non_four_k_video_rules \<Rightarrow> bool" where
  "exceeds_bitrate v rules =
     (case v_bit_rate v of None \<Rightarrow> False | Some b \<Rightarrow> n_max_video_bitrate_mbps rules * 1000000 < b)"

definition exceeds_width :: "video_stream \<Rightarrow> non_four_k_video_rules \<Rightarrow> bool" where
  "exceeds_width v rules = (case width v of None \<Rightarrow> False | Some w \<Rightarrow> n_max_width rules < w)"

definition build_non_4k_video_plan :: "video_stream \<Rightarrow> resolved_planning_policy \<Rightarrow> video_planning" where
  "build_non_4k_video_plan v rp =
     (let rules = non_4k (rp_video_rules rp);
          target = video_codec_value (n_preferred_codec rules);
          source_bitrate = v_bit_rate v;
          low_threshold = low_bitrate_threshold_bps v (Some (n_low_bitrate_skip_threshold_1080p_mbps rules))
                            (Some (n_low_bitrate_skip_threshold_720p_mbps rules));
          floor = minimum_output_bitrate_bps v (Some (n_minimum_output_bitrate_1080p_mbps rules))
                    (Some (n_minimum_output_bitrate_720p_mbps rules));
          low = is_low_bitrate_source v low_threshold;
          wrong_codec = (\<not> low \<and> codec_name v \<noteq> Some target);
          too_fast = (\<not> low \<and> exceeds_bitrate v rules);
          too_wide = (\<not> low \<and> exceeds_width v rules);
          needed = (wrong_codec \<or> too_fast \<or> too_wide);
          rs =
            (if low
             then [make_reason ''video_skip_low_bitrate_source''
                     ''Source bitrate is already low; transcoding may reduce quality.''
                     [(''source_bitrate_bps'', j_opt_int source_bitrate),
                      (''low_bitrate_skip_threshold_bps'', j_opt_int low_threshold),
                      (''source_bitrate'', JStr (format_bitrate (map_option of_int source_bitrate))),
                      (''threshold'', JStr (format_bitrate (map_option of_int low_threshold)))]]
             else [])
            @ (if wrong_codec
               then [make_reason ''video_transcode_required_for_policy_codec''
                       ''Video codec does not match the effective non-4K policy target.''
                       [(''source_codec'', j_opt_str (codec_name v)), (''target_codec'', JStr target)]]
               else [])
            @ (if too_fast
               then [make_reason ''video_transcode_required_for_policy_bitrate''
                       ''Video bitrate exceeds the effective non-4K policy limit.''
                       [(''bit_rate'', j_opt_int source_bitrate),
                        (''max_bit_rate'', JInt (n_max_video_bitrate_mbps rules * 1000000))]]
               else [])
            @ (if too_wide
               then [make_reason ''video_transcode_required_for_policy_width''
                       ''Video width exceeds the effective non-4K policy limit.''
                       [(''width'', j_opt_int (width v)), (''max_width'', JInt (n_max_width rules))]]
               else [])
            @ (if needed
               then make_reason ''video_reduction_limit_applies''
                      ''Compression safety will be checked after encoding using video-only reduction and bitrate safeguards.''
                      [(''max_allowed_video_reduction_percent'', JInt (n_max_video_reduction_percent rules)),
                       (''minimum_output_bitrate_bps'', j_opt_int floor)]
                    # (case n_output_larger_than_input_review_percent rules of
                         None \<Rightarrow> []
                       | Some pct \<Rightarrow>
                           [make_reason ''output_larger_than_input_guard_applies''
                              ''Output size will be checked after encoding and sent to review if it grows beyond the configured guard.''
                              [(''output_larger_than_input_review_percent'', JInt pct)]])
               else [])
      in
      (\<lparr>vp_primary_stream_index = Some (index v),
        vp_handling = (if needed then TRANSCODE_TO_POLICY else PRESERVE_VIDEO),
        preserve_original = \<not> needed, target_codec = Some target, transcode_required = needed,
        quality_mode = Some (video_quality_mode_value (n_quality_mode rules)),
        quality_crf = n_quality_crf rules, source_bitrate_bps = source_bitrate,
        low_bitrate_skip_threshold = low_threshold, minimum_output_bitrate = floor,
        max_allowed_video_reduction_percent = Some (n_max_video_reduction_percent rules),
        output_larger_than_input_review_percent = n_output_larger_than_input_review_percent rules\<rparr>,
       rs, False))"

definition ambiguous_video_plan :: video_plan where
  "ambiguous_video_plan =
     \<lparr>vp_primary_stream_index = None, vp_handling = PRESERVE_VIDEO, preserve_original = True,
      target_codec = None, transcode_required = False, quality_mode = None, quality_crf = None,
      source_bitrate_bps = None, low_bitrate_skip_threshold = None, minimum_output_bitrate = None,
      max_allowed_video_reduction_percent = None, output_larger_than_input_review_percent = None\<rparr>"

definition build_video_plan :: "media_file \<Rightarrow> resolved_planning_policy \<Rightarrow> video_planning" where
  "build_video_plan m rp =
     (case video_streams m of
        [v] \<Rightarrow> if is_4k m then build_4k_video_plan v rp else build_non_4k_video_plan v rp
      | vs \<Rightarrow>
          (ambiguous_video_plan,
           [make_reason ''manual_review_video_stream_ambiguity''
              ''The file does not expose exactly one video stream, so planning requires manual review.''
              [(''stream_count'', JInt (int (length vs)))]],
           True))"

definition build_container_plan :: "media_file \<Rightarrow> output_container \<Rightarrow> container_plan" where
  "build_container_plan m target =
     (let change = (extension m \<noteq> Some (target_container_extension target)) in
      \<lparr>source_extension = extension m, target_container = target,
       cp_handling = (if change then REMUX_TO_TARGET else PRESERVE_CONTAINER),
       change_required = change\<rparr>)"

definition determine_action ::
    "media_file \<Rightarrow> resolved_planning_policy \<Rightarrow> video_plan \<Rightarrow> bool \<Rightarrow> bool \<Rightarrow> bool \<Rightarrow> bool \<Rightarrow> plan_action" where
  "determine_action m rp vp compliance_candidate stream_cleanup container_change manual_review =
     (let order = n_decision_order (non_4k (rp_video_rules rp)) in
      if manual_review then MANUAL_REVIEW
      else if is_4k m then
        (if transcode_required vp
         then (if \<not> f_allow_transcode (four_k (rp_video_rules rp)) then MANUAL_REVIEW else TRANSCODE)
         else if compliance_candidate then SKIP
         else REMUX)
      else if transcode_required vp then
        (if \<not> n_allow_transcode (non_4k (rp_video_rules rp)) then MANUAL_REVIEW
         else if D_TRANSCODE \<notin> set order then MANUAL_REVIEW
         else TRANSCODE)
      else if stream_cleanup \<or> container_change then
        (if D_REMUX \<notin> set order then MANUAL_REVIEW else REMUX)
      else if compliance_candidate \<and> D_SKIP \<in> set order then SKIP
      else MANUAL_REVIEW)"

definition determine_confidence :: "plan_action \<Rightarrow> plan_warning list \<Rightarrow> confidence_level" where
  "determine_confidence a ws =
     (if a = MANUAL_REVIEW then LOW else if ws \<noteq> [] then MEDIUM else HIGH)"

definition build_resolved_plan ::
    "media_file \<Rightarrow> language_preferences \<Rightarrow> resolved_planning_policy \<Rightarrow> processing_plan" where
  "build_resolved_plan m lp rp =
     (let ar = select_audio_streams m (rp_audio_rules rp) lp;
          sr = select_subtitle_streams m (rp_subtitle_rules rp) lp;
          (vp, vreasons, vreview) = build_video_plan m rp;
          cp = build_container_plan m (output_container (rp_video_rules rp));
          ws = ar_warnings ar @ sr_warnings sr;
          protected = (is_4k m \<or> is_hdr_candidate m \<or> has_atmos_capable_audio m);
          cleanup = (a_dropped (ar_intent ar) \<noteq> [] \<or> s_dropped (sr_intent sr) \<noteq> []);
          candidate = (\<not> transcode_required vp \<and> \<not> cleanup \<and> \<not> change_required cp \<and> ws = []
                       \<and> \<not> missing_required_audio (ar_intent ar)
                       \<and> ambiguous_forced_stream_indices (sr_intent sr) = []);
          review = (vreview \<or> ar_requires_manual_review ar \<or> sr_requires_manual_review sr);
          act = determine_action m rp vp candidate cleanup (change_required cp) review;
          conf = determine_confidence act ws
      in \<lparr>action = act,
          summary = \<lparr>ps_action = act, ps_confidence = conf, ps_is_already_compliant = (act = SKIP),
                     ps_should_treat_as_protected = protected\<rparr>,
          plan_context = rp_context rp,
          selected_streams =
            \<lparr>video_stream_indices = (case vp_primary_stream_index vp of None \<Rightarrow> [] | Some i \<Rightarrow> [i]),
             audio_stream_indices = a_selected (ar_intent ar),
             subtitle_stream_indices = s_selected (sr_intent sr),
             attachment_stream_indices = map index (attachment_streams m),
             data_stream_indices = map index (data_streams m),
             unknown_stream_indices = []\<rparr>,
          plan_audio = ar_intent ar, plan_subtitles = sr_intent sr, plan_video = vp,
          plan_container = cp, plan_rename = build_rename_plan rp m,
          plan_replace = build_replace_plan rp,
          reasons = ar_reasons ar @ sr_reasons sr @ vreasons
            @ (if act = SKIP
               then [make_reason ''already_compliant''
                       ''The file already appears to comply with the effective policy.'' []] else []),
          warnings = ws, confidence = conf, is_already_compliant = (act = SKIP),
          should_treat_as_protected = protected\<rparr>)"

definition build_processing_plan ::
    "media_file \<Rightarrow> config_bundle \<Rightarrow> path option \<Rightarrow> lookup_error + processing_plan" where
  "build_processing_plan m bundle src =
     (case resolve_planning_policy m bundle src of
        Inl e \<Rightarrow> Inl e
      | Inr rp \<Rightarrow> Inr (build_resolved_plan m (languages (policy bundle)) rp))"

subsection \<open>What a plan guarantees\<close>


lemma resolved_plan_fields:
  "action (build_resolved_plan m lp rp) =
     (let p = build_resolved_plan m lp rp;
          ar = select_audio_streams m (rp_audio_rules rp) lp;
          sr = select_subtitle_streams m (rp_subtitle_rules rp) lp;
          cleanup = (a_dropped (plan_audio p) \<noteq> [] \<or> s_dropped (plan_subtitles p) \<noteq> [])
      in determine_action m rp (plan_video p)
           (\<not> transcode_required (plan_video p) \<and> \<not> cleanup \<and> \<not> change_required (plan_container p)
            \<and> warnings p = [] \<and> \<not> missing_required_audio (plan_audio p)
            \<and> ambiguous_forced_stream_indices (plan_subtitles p) = [])
           cleanup (change_required (plan_container p))
           (snd (snd (build_video_plan m rp)) \<or> ar_requires_manual_review ar \<or> sr_requires_manual_review sr))"
  "plan_audio (build_resolved_plan m lp rp) = ar_intent (select_audio_streams m (rp_audio_rules rp) lp)"
  "plan_subtitles (build_resolved_plan m lp rp) = sr_intent (select_subtitle_streams m (rp_subtitle_rules rp) lp)"
  "plan_video (build_resolved_plan m lp rp) = fst (build_video_plan m rp)"
  "plan_container (build_resolved_plan m lp rp) =
     build_container_plan m (output_container (rp_video_rules rp))"
  "warnings (build_resolved_plan m lp rp) =
     ar_warnings (select_audio_streams m (rp_audio_rules rp) lp)
     @ sr_warnings (select_subtitle_streams m (rp_subtitle_rules rp) lp)"
  "selected_streams (build_resolved_plan m lp rp) =
     \<lparr>video_stream_indices = (case vp_primary_stream_index (fst (build_video_plan m rp)) of
                                 None \<Rightarrow> [] | Some i \<Rightarrow> [i]),
      audio_stream_indices = a_selected (plan_audio (build_resolved_plan m lp rp)),
      subtitle_stream_indices = s_selected (plan_subtitles (build_resolved_plan m lp rp)),
      attachment_stream_indices = map index (attachment_streams m),
      data_stream_indices = map index (data_streams m), unknown_stream_indices = []\<rparr>"
  "confidence (build_resolved_plan m lp rp) =
     determine_confidence (action (build_resolved_plan m lp rp)) (warnings (build_resolved_plan m lp rp))"
  by (simp_all add: build_resolved_plan_def Let_def split_beta)

lemma build_processing_plan_Inr:
  "build_processing_plan m b src = Inr p \<longleftrightarrow>
     (\<exists>rp. resolve_planning_policy m b src = Inr rp \<and> p = build_resolved_plan m (languages (policy b)) rp)"
  by (auto simp: build_processing_plan_def split: sum.splits)

lemma video_review:
  "snd (snd (build_video_plan m rp)) \<longleftrightarrow>
     length (video_streams m) \<noteq> 1
     \<or> is_4k m \<and> \<not> f_allow_transcode (four_k (rp_video_rules rp)) \<and> f_mode (four_k (rp_video_rules rp)) \<noteq> STRIP_ONLY"
  by (auto simp: build_video_plan_def build_4k_video_plan_def build_non_4k_video_plan_def Let_def
      split: list.splits)

lemma video_primary:
  "vp_primary_stream_index (fst (build_video_plan m rp)) =
     (case video_streams m of [v] \<Rightarrow> Some (index v) | _ \<Rightarrow> None)"
  by (auto simp: build_video_plan_def build_4k_video_plan_def build_non_4k_video_plan_def Let_def
      ambiguous_video_plan_def split: list.splits)

lemma video_transcode:
  "transcode_required (fst (build_video_plan m rp)) \<longleftrightarrow>
     (\<exists>v. video_streams m = [v] \<and>
        (if is_4k m
         then f_allow_transcode (four_k (rp_video_rules rp))
              \<and> codec_name v \<noteq> Some (video_codec_value (f_preferred_codec (four_k (rp_video_rules rp))))
         else (let rules = non_4k (rp_video_rules rp) in
               \<not> is_low_bitrate_source v
                   (low_bitrate_threshold_bps v (Some (n_low_bitrate_skip_threshold_1080p_mbps rules))
                      (Some (n_low_bitrate_skip_threshold_720p_mbps rules)))
               \<and> (codec_name v \<noteq> Some (video_codec_value (n_preferred_codec rules))
                  \<or> exceeds_bitrate v rules \<or> exceeds_width v rules))))"
  by (auto simp: build_video_plan_def build_4k_video_plan_def build_non_4k_video_plan_def Let_def
      ambiguous_video_plan_def split: list.splits)

lemma video_handling_transcode:
  "vp_handling (fst (build_video_plan m rp)) =
     (if transcode_required (fst (build_video_plan m rp)) then TRANSCODE_TO_POLICY else PRESERVE_VIDEO)"
  "preserve_original (fst (build_video_plan m rp)) \<longleftrightarrow> \<not> transcode_required (fst (build_video_plan m rp))"
  by (auto simp: build_video_plan_def build_4k_video_plan_def build_non_4k_video_plan_def Let_def
      ambiguous_video_plan_def split: list.splits)

lemma determine_action_cases:
  "determine_action m rp vp cand cl cc review = TRANSCODE \<longleftrightarrow>
     \<not> review \<and> transcode_required vp \<and>
     (if is_4k m then f_allow_transcode (four_k (rp_video_rules rp))
      else n_allow_transcode (non_4k (rp_video_rules rp))
           \<and> D_TRANSCODE \<in> set (n_decision_order (non_4k (rp_video_rules rp))))"
  "determine_action m rp vp cand cl cc True = MANUAL_REVIEW"
  "determine_action m rp vp cand cl cc review = SKIP \<longleftrightarrow>
     \<not> review \<and> \<not> transcode_required vp \<and> cand
     \<and> (is_4k m \<or> \<not> cl \<and> \<not> cc \<and> D_SKIP \<in> set (n_decision_order (non_4k (rp_video_rules rp))))"
  by (auto simp: determine_action_def Let_def)

lemma filter_notin_Nil: "filter (\<lambda>i. i \<notin> S) xs = [] \<longleftrightarrow> set xs \<subseteq> S"
  by (auto simp: filter_empty_conv)

lemma select_audio_subset:
  "set (a_selected (ar_intent (select_audio_streams m r lr))) \<subseteq> index ` set (audio_streams m)"
  using selected_audio_subset [of m r] selectable_subset [of m r]
  by (auto simp: select_audio_selected)

lemma select_subtitle_subset:
  "set (s_selected (sr_intent (select_subtitle_streams m r lr))) \<subseteq> index ` set (subtitle_streams m)"
  using selected_subtitles_subset [of m r lr] by (auto simp: select_subtitle_fields)

text \<open>C6: A plan that may run without a person is executable: the file has exactly one video
  stream and it is the one mapped, at least one audio stream is kept, no forced subtitle is in
  doubt, and its confidence is not low.\<close>

theorem automatic_plan_is_executable:
  assumes "build_processing_plan m b src = Inr p" "action p \<noteq> MANUAL_REVIEW"
    and "resolve_planning_policy m b src = Inr rp" "wf_audio_rules (rp_audio_rules rp)"
  shows "\<exists>v. video_streams m = [v] \<and> video_stream_indices (selected_streams p) = [index v]
      \<and> audio_stream_indices (selected_streams p) \<noteq> []
      \<and> set (audio_stream_indices (selected_streams p)) \<subseteq> index ` set (audio_streams m)
      \<and> set (subtitle_stream_indices (selected_streams p)) \<subseteq> index ` set (subtitle_streams m)
      \<and> ambiguous_forced_stream_indices (plan_subtitles p) = [] \<and> confidence p \<noteq> LOW"
proof -
  let ?ar = "select_audio_streams m (rp_audio_rules rp) (languages (policy b))"
  have p: "p = build_resolved_plan m (languages (policy b)) rp"
    using assms(1,3) by (simp add: build_processing_plan_Inr)
  have nr: "\<not> snd (snd (build_video_plan m rp))" "\<not> ar_requires_manual_review ?ar"
    "\<not> sr_requires_manual_review (select_subtitle_streams m (rp_subtitle_rules rp) (languages (policy b)))"
    using assms(2) by (auto simp: p resolved_plan_fields(1) Let_def determine_action_cases(2))
  then obtain v where v: "video_streams m = [v]" by (auto simp: video_review length_Suc_conv)
  have pos: "0 < max_tracks_to_keep (rp_audio_rules rp)" using assms(4) by (simp add: wf_audio_rules_def)
  have "a_selected (ar_intent ?ar) \<noteq> []"
    using nr(2) selected_audio_nonempty [OF _ pos, of m]
    by (auto simp: select_audio_manual select_audio_selected)
  moreover have "set (a_selected (ar_intent ?ar)) \<subseteq> index ` set (audio_streams m)"
    by (rule select_audio_subset)
  moreover have "set (s_selected (plan_subtitles p)) \<subseteq> index ` set (subtitle_streams m)"
    unfolding p resolved_plan_fields by (rule select_subtitle_subset)
  moreover have "confidence p \<noteq> LOW" using assms(2)
    by (auto simp: p resolved_plan_fields(8) determine_confidence_def)
  moreover have "ambiguous_forced_stream_indices (plan_subtitles p) = []"
    using nr(3) by (simp add: p resolved_plan_fields(3) select_subtitle_fields)
  ultimately show ?thesis using v
    by (simp add: p resolved_plan_fields(2,3,7) video_primary)
qed

text \<open>A skipped file already is what the plan asks for: every audio and subtitle stream is
  selected, the container is the target one, the video needs no transcode, there is no warning and
  the confidence is high.\<close>

theorem skip_changes_nothing:
  assumes "build_processing_plan m b src = Inr p" "action p = SKIP"
  shows "a_dropped (plan_audio p) = [] \<and> s_dropped (plan_subtitles p) = []
      \<and> set (audio_stream_indices (selected_streams p)) = index ` set (audio_streams m)
      \<and> set (subtitle_stream_indices (selected_streams p)) = index ` set (subtitle_streams m)
      \<and> extension m = Some (target_container_extension (target_container (plan_container p)))
      \<and> vp_handling (plan_video p) = PRESERVE_VIDEO \<and> warnings p = [] \<and> confidence p = HIGH"
proof -
  obtain rp where p: "p = build_resolved_plan m (languages (policy b)) rp"
    using assms(1) by (auto simp: build_processing_plan_Inr)
  let ?ai = "plan_audio p" and ?si = "plan_subtitles p"
  have d: "a_dropped ?ai = []" "s_dropped ?si = []" "\<not> change_required (plan_container p)"
    "\<not> transcode_required (plan_video p)" "warnings p = []"
    using assms(2) unfolding p resolved_plan_fields(1) Let_def determine_action_cases(3) by blast+
  have a: "set (a_selected ?ai) = index ` set (audio_streams m)"
  proof
    show "set (a_selected ?ai) \<subseteq> index ` set (audio_streams m)"
      unfolding p resolved_plan_fields by (rule select_audio_subset)
    show "index ` set (audio_streams m) \<subseteq> set (a_selected ?ai)"
      using d(1) unfolding p resolved_plan_fields select_audio_dropped by (simp add: filter_notin_Nil)
  qed
  have s: "set (s_selected ?si) = index ` set (subtitle_streams m)"
  proof
    show "set (s_selected ?si) \<subseteq> index ` set (subtitle_streams m)"
      unfolding p resolved_plan_fields by (rule select_subtitle_subset)
    show "index ` set (subtitle_streams m) \<subseteq> set (s_selected ?si)"
      using d(2) unfolding p resolved_plan_fields select_subtitle_fields by (simp add: filter_notin_Nil)
  qed
  have "audio_stream_indices (selected_streams p) = a_selected ?ai"
    "subtitle_stream_indices (selected_streams p) = s_selected ?si"
    by (simp_all add: p resolved_plan_fields(7))
  moreover have "extension m = Some (target_container_extension (target_container (plan_container p)))"
    using d(3) by (simp add: p resolved_plan_fields(5) build_container_plan_def Let_def)
  moreover have "vp_handling (plan_video p) = PRESERVE_VIDEO"
    using d(4) by (simp add: p resolved_plan_fields(4) video_handling_transcode)
  moreover have "confidence p = HIGH"
    using d(5) assms(2) by (simp add: p resolved_plan_fields(8) determine_confidence_def)
  ultimately show ?thesis using d(1,2,5) a s by simp
qed

text \<open>C31: The video is re-encoded only where the effective policy allows it: a transcode plan comes
  from a 4K rule that allows transcoding, or from a non-4K rule that allows it and lists it, and
  then the source is not below the low bit-rate threshold and breaks the codec, bit-rate or width rule.\<close>

theorem transcode_needs_permission:
  assumes "build_processing_plan m b src = Inr p" "action p = TRANSCODE"
    and "resolve_planning_policy m b src = Inr rp"
  shows "\<exists>v. video_streams m = [v] \<and> vp_handling (plan_video p) = TRANSCODE_TO_POLICY \<and>
      (if is_4k m then f_allow_transcode (four_k (rp_video_rules rp))
         \<and> codec_name v \<noteq> Some (video_codec_value (f_preferred_codec (four_k (rp_video_rules rp))))
       else let rules = non_4k (rp_video_rules rp) in
         n_allow_transcode rules \<and> D_TRANSCODE \<in> set (n_decision_order rules)
         \<and> \<not> is_low_bitrate_source v
               (low_bitrate_threshold_bps v (Some (n_low_bitrate_skip_threshold_1080p_mbps rules))
                  (Some (n_low_bitrate_skip_threshold_720p_mbps rules)))
         \<and> (codec_name v \<noteq> Some (video_codec_value (n_preferred_codec rules))
            \<or> exceeds_bitrate v rules \<or> exceeds_width v rules))"
proof -
  have p: "p = build_resolved_plan m (languages (policy b)) rp"
    using assms(1,3) by (simp add: build_processing_plan_Inr)
  have t: "transcode_required (fst (build_video_plan m rp))"
    "if is_4k m then f_allow_transcode (four_k (rp_video_rules rp))
     else n_allow_transcode (non_4k (rp_video_rules rp))
           \<and> D_TRANSCODE \<in> set (n_decision_order (non_4k (rp_video_rules rp)))"
    using assms(2) unfolding p resolved_plan_fields(1,4) Let_def determine_action_cases(1) by blast+
  then show ?thesis
    by (auto simp: video_transcode p resolved_plan_fields(4) video_handling_transcode Let_def
        split: if_splits)
qed


subsection \<open>A sample policy\<close>

definition sample_video_rules :: video_rules where
  "sample_video_rules =
     \<lparr>output_container = MKV,
      non_4k = \<lparr>n_decision_order = [D_SKIP, D_REMUX, D_TRANSCODE], n_preferred_codec = HEVC,
        n_allow_transcode = True, n_quality_mode = BALANCED, n_quality_crf = None,
        n_max_video_reduction_percent = 60, n_max_video_bitrate_mbps = 10, n_max_width = 1920,
        n_low_bitrate_skip_threshold_1080p_mbps = 3, n_low_bitrate_skip_threshold_720p_mbps = 3 / 2,
        n_minimum_output_bitrate_1080p_mbps = 7 / 4, n_minimum_output_bitrate_720p_mbps = 1,
        n_output_larger_than_input_review_percent = Some 5\<rparr>,
      four_k = \<lparr>f_mode = STRIP_ONLY, f_preferred_codec = HEVC, f_preserve_original_video = True,
        f_preserve_original_audio = True, f_allow_transcode = False, f_quality_mode = HIGH_QUALITY,
        f_quality_crf = None, f_max_video_reduction_percent = 40,
        f_minimum_output_bitrate_1080p_mbps = 7 / 4, f_minimum_output_bitrate_720p_mbps = 1,
        f_output_larger_than_input_review_percent = None, f_remove_non_english_audio = True,
        f_remove_non_english_subtitles = True\<rparr>\<rparr>"

definition sample_policy :: policy_config where
  "sample_policy =
     \<lparr>p_version = 1, p_name = ''default'', p_description = [], languages = sample_language_rules,
      subtitles = sample_subtitle_rules, audio = sample_audio_rules, video = sample_video_rules,
      replacement = \<lparr>r_in_place = True, r_require_verification = True,
        r_keep_original_until_verified = True, r_delete_replaced_source = False\<rparr>,
      renaming = \<lparr>rn_enabled = False, rn_movies_template = [], rn_episodes_template = [],
        sanitise_for_filesystem = True,
        tag_rules = \<lparr>include_resolution = True, include_video_codec = True, include_edition = True\<rparr>\<rparr>,
      path_overrides = [\<lparr>path_prefix = ''/media/uhd'', po_profile = ''uhd''\<rparr>]\<rparr>"

definition four_k_override :: profile_four_k_video_rules where
  "four_k_override =
     \<lparr>pf_mode = None, pf_preferred_codec = None, pf_preserve_original_video = None,
      pf_preserve_original_audio = None, pf_allow_transcode = Some True, pf_quality_mode = None,
      pf_quality_crf = None, pf_max_video_reduction_percent = None,
      pf_minimum_output_bitrate_1080p_mbps = None, pf_minimum_output_bitrate_720p_mbps = None,
      pf_output_larger_than_input_review_percent = None, pf_remove_non_english_audio = None,
      pf_remove_non_english_subtitles = None\<rparr>"

definition sample_profile :: "profile_video_rules option \<Rightarrow> profile_config" where
  "sample_profile v =
     \<lparr>pc_name = ''uhd'', pc_description = [], pc_subtitles = None, pc_audio = None,
      pc_video = v, pc_renaming = None\<rparr>"

definition sample_bundle :: "profile_video_rules option \<Rightarrow> config_bundle" where
  "sample_bundle v = \<lparr>policy = sample_policy, profiles = [''uhd'' \<mapsto> sample_profile v]\<rparr>"

definition sample_video :: "string \<Rightarrow> int \<Rightarrow> video_stream" where
  "sample_video codec w =
     (VideoStream 0)\<lparr>codec_name := Some codec, width := Some w, height := Some 1080,
        v_bit_rate := Some 8000000\<rparr>"

definition sample_file :: "string \<Rightarrow> string \<Rightarrow> bool \<Rightarrow> audio_stream list \<Rightarrow> media_file" where
  "sample_file folder codec uhd as =
     (MediaFile ((ContainerFormat (path_of (folder @ ''/a.mkv'')) 3)\<lparr>c_extension := Some ''mkv''\<rparr>))
       \<lparr>video_streams := [sample_video codec (if uhd then 3840 else 1920)], is_4k := uhd, audio_streams := as\<rparr>"

abbreviation sample_compliant :: media_file where
  "sample_compliant \<equiv> sample_file ''/media/tv'' ''hevc'' False [sample_audio 1 ''eng'' 6 False]"

abbreviation sample_old_codec :: media_file where
  "sample_old_codec \<equiv> sample_file ''/media/tv'' ''h264'' False
     [sample_audio 1 ''eng'' 6 False, sample_audio 2 ''jpn'' 6 False]"

abbreviation sample_uhd :: media_file where
  "sample_uhd \<equiv> sample_file ''/media/uhd'' ''h264'' True [sample_audio 1 ''eng'' 6 False]"

abbreviation sample_uhd_bundle :: config_bundle where
  "sample_uhd_bundle \<equiv> sample_bundle
     (Some \<lparr>pv_output_container = None, pv_non_4k = None, pv_four_k = Some four_k_override\<rparr>)"

lemma planned: "\<not> isl r \<Longrightarrow> r = Inr (projr r)"
  by (simp add: sum.collapse(2))

lemma automatic_plan_is_executable_witness:
  "let p = projr (build_processing_plan sample_old_codec (sample_bundle None) None) in
     action p = TRANSCODE \<and> audio_stream_indices (selected_streams p) \<noteq> [] \<and> confidence p \<noteq> LOW"
proof -
  let ?r = "build_processing_plan sample_old_codec (sample_bundle None) None"
  let ?q = "resolve_planning_policy sample_old_codec (sample_bundle None) None"
  have "\<not> isl ?r" "\<not> isl ?q" by code_simp+
  then have r: "?r = Inr (projr ?r)" and q: "?q = Inr (projr ?q)" by (blast intro: planned)+
  have a: "action (projr ?r) = TRANSCODE" by code_simp
  have w: "wf_audio_rules (rp_audio_rules (projr ?q))" by code_simp
  have "action (projr ?r) \<noteq> MANUAL_REVIEW" using a by simp
  from automatic_plan_is_executable [OF r this q w] a show ?thesis by (auto simp: Let_def)
qed

lemma skip_changes_nothing_witness:
  "let p = projr (build_processing_plan sample_compliant (sample_bundle None) None) in
     a_dropped (plan_audio p) = [] \<and> confidence p = HIGH"
proof -
  let ?r = "build_processing_plan sample_compliant (sample_bundle None) None"
  have "\<not> isl ?r" by code_simp
  then have r: "?r = Inr (projr ?r)" by (rule planned)
  have "action (projr ?r) = SKIP" by code_simp
  from skip_changes_nothing [OF r this] show ?thesis by (auto simp: Let_def)
qed

lemma transcode_needs_permission_witness:
  "vp_handling (plan_video (projr (build_processing_plan sample_old_codec (sample_bundle None) None)))
     = TRANSCODE_TO_POLICY"
proof -
  let ?r = "build_processing_plan sample_old_codec (sample_bundle None) None"
  let ?q = "resolve_planning_policy sample_old_codec (sample_bundle None) None"
  have "\<not> isl ?r" "\<not> isl ?q" by code_simp+
  then have r: "?r = Inr (projr ?r)" and q: "?q = Inr (projr ?q)" by (blast intro: planned)+
  have "action (projr ?r) = TRANSCODE" by code_simp
  from transcode_needs_permission [OF r this q] show ?thesis by blast
qed

text \<open>C32: Planning fails only with the \<open>KeyError\<close> of a path override whose profile is not loaded; the
  reference check made when the configuration is loaded excludes it.\<close>

theorem planning_total_on_checked_policy:
  "(\<forall>e. build_processing_plan m b src = Inl e \<longrightarrow>
      (\<exists>ov\<in>set (path_overrides (policy b)). profiles b (po_profile ov) = None \<and> e = KeyError (po_profile ov)))
   \<and> (validate_policy_profile_references (policy b) (profiles b) = Inr () \<longrightarrow>
        (\<exists>p. build_processing_plan m b src = Inr p))"
proof -
  let ?s = "case src of Some p \<Rightarrow> p | None \<Rightarrow> file_path m"
  have e: "\<exists>ov\<in>set (path_overrides (policy b)). profiles b (po_profile ov) = None \<and> e = KeyError (po_profile ov)"
    if "build_processing_plan m b src = Inl e" for e
  proof -
    have "resolve_profile_for_path (path_overrides (policy b)) b ?s = Inl e"
      using that by (auto simp: build_processing_plan_def resolve_planning_policy_def Let_def
          split: sum.splits prod.splits)
    then show ?thesis using resolve_profile_cases [of "path_overrides (policy b)" ?s b]
      by (auto split: option.splits)
  qed
  then show ?thesis
    by (metis sum.exhaust validate_references_ok)
qed

lemma planning_total_on_checked_policy_witness:
  "\<exists>p. build_processing_plan sample_old_codec (sample_bundle None) None = Inr p"
proof -
  have "validate_policy_profile_references (policy (sample_bundle None)) (profiles (sample_bundle None)) = Inr ()"
    by code_simp
  with planning_total_on_checked_policy [of sample_old_codec "sample_bundle None" None]
  show ?thesis by blast
qed

lemma merge_four_k_unset:
  "Option.bind (Option.bind prof pc_video) pv_four_k = None \<Longrightarrow>
     four_k (merge_video_rules v (Option.bind prof pc_video)) = four_k v"
  by (cases "Option.bind prof pc_video") (simp_all add: merge_video_rules_def)

lemma resolved_profile:
  "resolve_planning_policy m b src = Inr rp \<Longrightarrow>
     \<exists>prof. (\<forall>pr. prof = Some pr \<longrightarrow> pr \<in> ran (profiles b))
       \<and> rp_video_rules rp = merge_video_rules (video (policy b)) (Option.bind prof pc_video)
       \<and> rp_audio_rules rp = merge_audio_rules (audio (policy b)) (Option.bind prof pc_audio)"
proof -
  let ?s = "case src of Some p \<Rightarrow> p | None \<Rightarrow> file_path m"
  assume a: "resolve_planning_policy m b src = Inr rp"
  then obtain prof q where r: "resolve_profile_for_path (path_overrides (policy b)) b ?s = Inr (prof, q)"
    and rp: "rp_video_rules rp = merge_video_rules (video (policy b)) (Option.bind prof pc_video)"
      "rp_audio_rules rp = merge_audio_rules (audio (policy b)) (Option.bind prof pc_audio)"
    by (auto simp: resolve_planning_policy_def Let_def split: sum.splits)
  then show ?thesis using resolve_profile_in_ran by metis
qed

text \<open>A strip-only 4K rule that construction accepts, and that no profile overrides, keeps the
  video of every 4K file with one video stream: the plan never transcodes it.\<close>

theorem strip_only_preserves_4k_video:
  assumes "construct_four_k r = Inr (four_k (video (policy b)))" "f_mode (four_k (video (policy b))) = STRIP_ONLY"
    and "\<forall>pr\<in>ran (profiles b). Option.bind (pc_video pr) pv_four_k = None"
    and "is_4k m" "build_processing_plan m b src = Inr p"
  shows "action p \<noteq> TRANSCODE \<and> vp_handling (plan_video p) = PRESERVE_VIDEO
      \<and> (\<forall>v. video_streams m = [v] \<longrightarrow> target_codec (plan_video p) = codec_name v)"
proof -
  obtain rp where q: "resolve_planning_policy m b src = Inr rp"
    and p: "p = build_resolved_plan m (languages (policy b)) rp"
    using assms(5) by (auto simp: build_processing_plan_Inr)
  obtain prof where prof: "\<And>pr. prof = Some pr \<Longrightarrow> pr \<in> ran (profiles b)"
    and rp: "rp_video_rules rp = merge_video_rules (video (policy b)) (Option.bind prof pc_video)"
    using resolved_profile [OF q] by blast
  have "Option.bind (Option.bind prof pc_video) pv_four_k = None"
    using assms(3) prof by (cases prof) auto
  then have f: "four_k (rp_video_rules rp) = four_k (video (policy b))"
    unfolding rp by (rule merge_four_k_unset)
  have no: "\<not> f_allow_transcode (four_k (rp_video_rules rp))"
    using assms(1,2) by (auto simp: f construct_four_k_iff wf_four_k_def)
  then have nt: "\<not> transcode_required (fst (build_video_plan m rp))"
    using assms(4) by (auto simp: video_transcode)
  then have "action p \<noteq> TRANSCODE"
    unfolding p resolved_plan_fields(1,4) Let_def determine_action_cases(1) by blast
  moreover have "target_codec (plan_video p) = codec_name v" if "video_streams m = [v]" for v
    using that assms(2,4) no by (simp add: p resolved_plan_fields(4) build_video_plan_def
        build_4k_video_plan_def Let_def f)
  ultimately show ?thesis using nt by (simp add: p resolved_plan_fields(4) video_handling_transcode)
qed

lemma strip_only_preserves_4k_video_witness:
  "action (projr (build_processing_plan sample_uhd (sample_bundle None) None)) \<noteq> TRANSCODE"
proof -
  let ?r = "build_processing_plan sample_uhd (sample_bundle None) None"
  let ?f = "four_k (video (policy (sample_bundle None)))"
  have "\<not> isl ?r" by code_simp
  then have r: "?r = Inr (projr ?r)" by (rule planned)
  have c: "construct_four_k ?f = Inr ?f" unfolding construct_four_k_iff by code_simp
  have s: "f_mode ?f = STRIP_ONLY" by code_simp
  have pr: "\<forall>pr\<in>ran (profiles (sample_bundle None)). Option.bind (pc_video pr) pv_four_k = None"
    by (simp add: sample_bundle_def sample_profile_def)
  have u: "is_4k sample_uhd" by code_simp
  from strip_only_preserves_4k_video [OF c s pr u r] show ?thesis by blast
qed

text \<open>A profile override is merged without running the validators of the merged rule: a valid
  strip-only policy and a profile that only sets \<open>allow_transcode\<close> give an effective rule that
  construction would reject, and a 4K file under it is transcoded.\<close>

theorem profile_override_escapes_strip_only:
  "let b = sample_uhd_bundle; rp = projr (resolve_planning_policy sample_uhd b None);
       p = projr (build_processing_plan sample_uhd b None) in
     construct_four_k (four_k (video (policy b))) = Inr (four_k (video (policy b)))
     \<and> f_mode (four_k (rp_video_rules rp)) = STRIP_ONLY
     \<and> isl (construct_four_k (four_k (rp_video_rules rp)))
     \<and> action p = TRANSCODE"
  unfolding Let_def construct_four_k_iff by code_simp

lemma override_with_other_audio:
  "audio_streams m' = as \<Longrightarrow> selectable_audio_streams m' r =
     filter (\<lambda>s. allow_commentary r \<or> \<not> is_commentary_candidate s)
       (if keep_only_preferred_languages r
        then filter (\<lambda>s. language_code (language s) \<in> set (ordered_language_codes (a_keep_languages r))) as
        else as)"
  by (simp add: selectable_audio_streams_def candidate_audio_streams_def preferred_audio_streams_def)

text \<open>Audio selection is stable: run again on a file that holds exactly the streams it selected
  (renumbered, as the muxer does), a preferred-languages policy drops nothing.\<close>

theorem audio_selection_stable:
  assumes "keep_only_preferred_languages r"
    and "audio_streams m' = map (\<lambda>s. s\<lparr>index := renum (index s)\<rparr>) (selected_audio m r)"
  shows "a_dropped (ar_intent (select_audio_streams m' r lr)) = []"
proof -
  let ?g = "\<lambda>s::audio_stream. s\<lparr>index := renum (index s)\<rparr>" and ?lang = "\<lambda>s::audio_stream. language_code (language s)"
  let ?o = "ordered_language_codes (a_keep_languages r)"
  have lang: "?lang (?g s) = ?lang s" for s by (simp add: language_def)
  have sel: "s \<in> set (selectable_audio_streams m r)" "?lang s \<in> set ?o"
    if "s \<in> set (selected_audio m r)" for s
    using that ba.select_subset selected_audio_preferred [OF assms(1)] by metis+
  have all: "selectable_audio_streams m' r = audio_streams m'"
    unfolding override_with_other_audio [OF assms(2)] using assms(1,2) sel lang
    by (auto simp: filter_id_conv selectable_audio_streams_def)
  have inj: "inj_on ?lang (set (audio_streams m'))"
  proof -
    have "distinct (map ?lang (audio_streams m'))"
      unfolding assms(2) map_map comp_def lang selected_audio_preferred [OF assms(1)]
      by (rule ba.select_distinct [OF olc.distinct_dedup])
    then show ?thesis by (simp only: distinct_map)
  qed
  have "s \<in> set (selected_audio m' r)" if s: "s \<in> set (audio_streams m')" for s
  proof -
    have "?lang s \<in> set ?o" using s sel(2) lang unfolding assms(2) by auto
    from ba.select_covers [OF this _ refl] s all obtain t where
      t: "t \<in> set (selectable_best m' r)" "?lang t = ?lang s" by metis
    then have "t \<in> set (audio_streams m')" using selectable_best_subset all by fastforce
    then have "t = s" using inj s t(2) by (simp add: inj_on_def)
    with t show ?thesis by (simp add: selected_audio_preferred [OF assms(1)])
  qed
  then have "index ` set (audio_streams m') \<subseteq> set (a_selected (ar_intent (select_audio_streams m' r lr)))"
    using all by (auto simp: select_audio_selected)
  then show ?thesis unfolding select_audio_dropped by (simp add: filter_notin_Nil)
qed

lemma audio_selection_stable_witness:
  "a_dropped (ar_intent (select_audio_streams
      (sample_media\<lparr>audio_streams := map (\<lambda>s. s\<lparr>index := 7 - index s\<rparr>)
         (selected_audio sample_media sample_audio_rules)\<rparr>) sample_audio_rules sample_language_rules)) = []"
  by (rule audio_selection_stable [where m = sample_media and renum = "\<lambda>i. 7 - i"])
     (code_simp, simp)

end
