(* ===== verification/Verification.thy ===== *)
theory Verification
  imports Planner
begin

text \<open>
  Output verification (\<open>encodr_core/verification\<close>): the checks of \<open>rules.py\<close> that compare a probed
  output with the plan and the source, and \<open>OutputVerifier.verify_output\<close>, which runs them in
  order. The file system (\<open>stat\<close>: \<open>None\<close> when the path does not exist, else whether it is a regular
  file and its size) and the probe client (a \<open>ProbeError\<close> or the media) are parameters.
\<close>

datatype verification_status = PASSED | FAILED | NOT_REQUIRED

record verification_check =
  chk_code :: string
  chk_message :: string
  chk_passed :: bool
  chk_metadata :: "(string \<times> json) list"

record verification_issue =
  iss_code :: string
  iss_message :: string
  iss_metadata :: "(string \<times> json) list"

record verification_output_summary =
  os_file_path :: path
  os_container :: "string option"
  os_video_stream_count :: nat
  os_audio_stream_count :: nat
  os_subtitle_stream_count :: nat
  os_is_4k :: bool
  os_has_english_audio :: bool
  os_has_forced_english_subtitle :: bool
  os_has_surround_audio :: bool
  os_has_atmos_capable_audio :: bool
  os_primary_video_codec :: "string option"
  os_primary_audio_codec :: "string option"

record verification_result =
  vr_status :: verification_status
  vr_passed :: bool
  vr_checks :: "verification_check list"
  vr_warnings :: "verification_issue list"
  vr_failures :: "verification_issue list"
  vr_output_summary :: "verification_output_summary option"

definition not_required :: verification_result where
  "not_required = \<lparr>vr_status = NOT_REQUIRED, vr_passed = True, vr_checks = [], vr_warnings = [],
     vr_failures = [], vr_output_summary = None\<rparr>"

record probe_error =
  pe_kind :: string
  pe_message :: string
  pe_dict :: "(string \<times> json) list"

subsection \<open>The checks\<close>

definition output_container_matches :: "media_file \<Rightarrow> output_container \<Rightarrow> bool" where
  "output_container_matches m target =
     (if extension m = Some (output_container_value target) then True
      else output_container_value target \<in> set (split_on (CHR '','') (or_str (format_name (container m)) [])))"

definition output_languages :: "'a base_stream_scheme list \<Rightarrow> string list" where
  "output_languages ss = map (\<lambda>s. language_code (language s)) ss"

definition has_required_audio :: "processing_plan \<Rightarrow> media_file \<Rightarrow> bool" where
  "has_required_audio p out =
     (let required = a_required_language_codes (plan_audio p) in
      if a_selected (plan_audio p) = [] then True
      else if required = [] then has_english_audio out
      else list_all (\<lambda>l. l \<in> set (output_languages (audio_streams out))) required)"

definition has_required_subtitles :: "processing_plan \<Rightarrow> media_file \<Rightarrow> bool" where
  "has_required_subtitles p out =
     (let i = plan_subtitles p;
          required = s_required_language_codes i;
          forced_required = s_required_forced_language_codes i;
          langs = output_languages (subtitle_streams out);
          forced_langs = output_languages
            (filter (\<lambda>s. d_forced (disposition s) \<or> is_forced s) (subtitle_streams out))
      in
      if s_selected i = [] then True
      else if subtitle_streams out = [] then False
      else if required \<noteq> [] \<and> \<not> list_all (\<lambda>l. l \<in> set langs) required then False
      else if forced_stream_indices i \<noteq> [] then
        (if forced_required \<noteq> [] then list_all (\<lambda>l. l \<in> set forced_langs) forced_required
         else has_forced_english_subtitle out)
      else if required \<noteq> [] then True
      else ''eng'' \<in> set langs)"

definition has_required_video :: "processing_plan \<Rightarrow> media_file \<Rightarrow> bool" where
  "has_required_video p out =
     (if vp_primary_stream_index (plan_video p) = None then True
      else case video_streams out of
             [] \<Rightarrow> False
           | v # _ \<Rightarrow>
               if \<not> transcode_required (plan_video p) \<or> target_codec (plan_video p) = None then True
               else codec_name v = target_codec (plan_video p))"

definition has_expected_selected_stream_shape :: "processing_plan \<Rightarrow> media_file \<Rightarrow> bool" where
  "has_expected_selected_stream_shape p out \<longleftrightarrow>
     (let s = selected_streams p in
      length (video_streams out) = length (video_stream_indices s)
      \<and> length (audio_streams out) = length (audio_stream_indices s)
      \<and> length (subtitle_streams out) = length (subtitle_stream_indices s)
      \<and> length (attachment_streams out) = length (attachment_stream_indices s)
      \<and> length (data_streams out) = length (data_stream_indices s)
      \<and> length (unknown_streams out) = length (unknown_stream_indices s))"

text \<open>\<open>{stream.index: stream for ...}\<close>: of two streams with one index the later one stays.\<close>

definition by_index :: "'a base_stream_scheme list \<Rightarrow> int \<rightharpoonup> 'a base_stream_scheme" where
  "by_index ss = map_of (rev (map (\<lambda>s. (index s, s)) ss))"

definition planned_streams :: "'a base_stream_scheme list \<Rightarrow> int list \<Rightarrow> 'a base_stream_scheme list" where
  "planned_streams ss indices = List.map_filter (by_index ss) indices"

definition planned_audio_streams :: "media_file \<Rightarrow> processing_plan \<Rightarrow> audio_stream list" where
  "planned_audio_streams source p =
     planned_streams (audio_streams source) (audio_stream_indices (selected_streams p))"

definition planned_subtitle_streams :: "media_file \<Rightarrow> processing_plan \<Rightarrow> subtitle_stream list" where
  "planned_subtitle_streams source p =
     planned_streams (subtitle_streams source) (subtitle_stream_indices (selected_streams p))"

definition normalised_codec :: "string option \<Rightarrow> string" where
  "normalised_codec v = py_lower (or_str v [])"

definition audio_stream_matches :: "audio_stream \<Rightarrow> audio_stream \<Rightarrow> bool" where
  "audio_stream_matches out planned \<longleftrightarrow>
     language_code (language out) = language_code (language planned)
     \<and> normalised_codec (codec_name out) = normalised_codec (codec_name planned)
     \<and> channels out = channels planned"

definition subtitle_stream_matches :: "subtitle_stream \<Rightarrow> subtitle_stream \<Rightarrow> bool" where
  "subtitle_stream_matches out planned \<longleftrightarrow>
     language_code (language out) = language_code (language planned)
     \<and> normalised_codec (codec_name out) = normalised_codec (codec_name planned)
     \<and> (d_forced (disposition out) \<or> is_forced out) = (d_forced (disposition planned) \<or> is_forced planned)"

definition audio_stream_selection_matches_plan ::
    "media_file \<Rightarrow> processing_plan \<Rightarrow> media_file \<Rightarrow> bool" where
  "audio_stream_selection_matches_plan source p out =
     (let planned = planned_audio_streams source p in
      if length planned \<noteq> length (audio_stream_indices (selected_streams p)) then False
      else if length (audio_streams out) \<noteq> length planned then False
      else list_all (\<lambda>(o', q). audio_stream_matches o' q) (zip (audio_streams out) planned))"

definition subtitle_stream_selection_matches_plan ::
    "media_file \<Rightarrow> processing_plan \<Rightarrow> media_file \<Rightarrow> bool" where
  "subtitle_stream_selection_matches_plan source p out =
     (let planned = planned_subtitle_streams source p in
      if length planned \<noteq> length (subtitle_stream_indices (selected_streams p)) then False
      else if length (subtitle_streams out) \<noteq> length planned then False
      else list_all (\<lambda>(o', q). subtitle_stream_matches o' q) (zip (subtitle_streams out) planned))"

fun list_index :: "int list \<Rightarrow> int \<Rightarrow> nat option" where
  "list_index [] x = None"
| "list_index (y # ys) x = (if y = x then Some 0 else map_option Suc (list_index ys x))"

text \<open>The default flag sits on exactly the output stream at the given position.\<close>

definition default_exactly_at :: "nat \<Rightarrow> 'a base_stream_scheme list \<Rightarrow> bool" where
  "default_exactly_at k ss =
     list_all (\<lambda>(i, s). d_default (disposition s) = (i = k)) (enumerate 0 ss)"

definition audio_default_disposition_matches_plan :: "processing_plan \<Rightarrow> media_file \<Rightarrow> bool" where
  "audio_default_disposition_matches_plan p out =
     (case audio_stream_indices (selected_streams p) of
        [] \<Rightarrow> \<not> list_ex (\<lambda>s. d_default (disposition s)) (audio_streams out)
      | first # rest \<Rightarrow>
          let primary = (case primary_stream_index (plan_audio p) of Some i \<Rightarrow> i | None \<Rightarrow> first) in
          (case list_index (first # rest) primary of
             None \<Rightarrow> False
           | Some k \<Rightarrow> default_exactly_at k (audio_streams out)))"

definition subtitle_default_disposition_matches_plan :: "processing_plan \<Rightarrow> media_file \<Rightarrow> bool" where
  "subtitle_default_disposition_matches_plan p out =
     (let indices = subtitle_stream_indices (selected_streams p);
          none_default = (\<not> list_ex (\<lambda>s. d_default (disposition s)) (subtitle_streams out)) in
      if indices = [] then none_default
      else case main_stream_index (plan_subtitles p) of
             None \<Rightarrow> none_default
           | Some main \<Rightarrow>
               (case list_index indices main of
                  None \<Rightarrow> False
                | Some k \<Rightarrow> default_exactly_at k (subtitle_streams out)))"

definition retains_required_4k :: "media_file \<Rightarrow> processing_plan \<Rightarrow> media_file \<Rightarrow> bool" where
  "retains_required_4k source p out =
     (if \<not> is_4k source then True
      else if \<not> preserve_original (plan_video p) then True
      else is_4k out)"

definition retains_required_surround :: "processing_plan \<Rightarrow> media_file \<Rightarrow> bool" where
  "retains_required_surround p out =
     (if preserved_surround (plan_audio p) = [] then True else has_surround_audio out)"

definition retains_required_atmos :: "processing_plan \<Rightarrow> media_file \<Rightarrow> bool" where
  "retains_required_atmos p out =
     (if preserved_atmos (plan_audio p) = [] then True else has_atmos_capable_audio out)"

definition is_non_empty_output :: "(path \<Rightarrow> (bool \<times> int) option) \<Rightarrow> path \<Rightarrow> bool" where
  "is_non_empty_output stat f =
     (case stat f of None \<Rightarrow> False | Some (is_file, bytes) \<Rightarrow> is_file \<and> 0 < bytes)"

subsection \<open>The verifier\<close>

type_synonym recorded = "verification_check list \<times> verification_issue list"

definition add_check :: "string \<Rightarrow> string \<Rightarrow> bool \<Rightarrow> recorded \<Rightarrow> recorded" where
  "add_check code message passed r =
     (case r of (checks, failures) \<Rightarrow>
        (checks @ [\<lparr>chk_code = code, chk_message = message, chk_passed = passed, chk_metadata = []\<rparr>],
         if \<not> passed then failures @ [\<lparr>iss_code = code, iss_message = message, iss_metadata = []\<rparr>]
         else failures))"

definition plan_checks :: "processing_plan \<Rightarrow> media_file \<Rightarrow> media_file \<Rightarrow> recorded \<Rightarrow> recorded" where
  "plan_checks p source out r0 =
     add_check ''atmos_preserved_when_required'' ''Required Atmos-capable audio remains present.''
       (retains_required_atmos p out)
    (add_check ''surround_preserved_when_required'' ''Required surround capability remains present.''
       (retains_required_surround p out)
    (add_check ''four_k_preserved_when_required''
       ''4K content remains 4K where the plan requires preservation.'' (retains_required_4k source p out)
    (add_check ''video_intent_satisfied'' ''Output contains the expected video stream shape.''
       (has_required_video p out)
    (add_check ''subtitle_default_disposition_satisfied''
       ''Output subtitle default disposition matches the selected primary subtitle.''
       (subtitle_default_disposition_matches_plan p out)
    (add_check ''audio_default_disposition_satisfied''
       ''Output audio default disposition matches the primary selected track.''
       (audio_default_disposition_matches_plan p out)
    (add_check ''subtitle_stream_selection_satisfied''
       ''Output subtitle streams match the selected plan order and metadata.''
       (subtitle_stream_selection_matches_plan source p out)
    (add_check ''audio_stream_selection_satisfied''
       ''Output audio streams match the selected plan order and metadata.''
       (audio_stream_selection_matches_plan source p out)
    (add_check ''selected_stream_shape_satisfied''
       ''Output contains only the streams selected by the plan.''
       (has_expected_selected_stream_shape p out)
    (add_check ''subtitle_intent_satisfied'' ''Required subtitle intent is present in the output.''
       (has_required_subtitles p out)
    (add_check ''required_audio_present'' ''Required audio language intent is present in the output.''
       (has_required_audio p out)
    (add_check ''container_matches_plan'' ''Output container matches the plan.''
       (output_container_matches out (target_container (plan_container p))) r0)))))))))))"

definition failed_early :: "verification_check list \<Rightarrow> verification_issue \<Rightarrow> verification_result" where
  "failed_early checks issue =
     \<lparr>vr_status = FAILED, vr_passed = False, vr_checks = checks, vr_warnings = [],
      vr_failures = [issue], vr_output_summary = None\<rparr>"

definition verify_output ::
    "(path \<Rightarrow> (bool \<times> int) option) \<Rightarrow> (path \<Rightarrow> probe_error + media_file)
     \<Rightarrow> path \<Rightarrow> processing_plan \<Rightarrow> media_file \<Rightarrow> verification_result" where
  "verify_output stat probe staged p source =
     (let present = is_non_empty_output stat staged;
          meta = [(''path'', JStr (as_posix staged))];
          c0 = \<lparr>chk_code = ''output_exists_and_non_empty'',
                chk_message = ''Staged output exists and is not empty.'',
                chk_passed = present, chk_metadata = meta\<rparr>
      in
      if \<not> present then
        failed_early [c0]
          \<lparr>iss_code = ''output_missing_or_empty'',
           iss_message = ''The staged output file is missing or empty.'', iss_metadata = meta\<rparr>
      else case probe staged of
        Inl e \<Rightarrow>
          failed_early
            [c0, \<lparr>chk_code = ''output_probe'',
                  chk_message = ''Staged output could be probed successfully.'',
                  chk_passed = False, chk_metadata = [(''kind'', JStr (pe_kind e))]\<rparr>]
            \<lparr>iss_code = ''probe_failed'', iss_message = pe_message e, iss_metadata = pe_dict e\<rparr>
      | Inr out \<Rightarrow>
          let (checks, failures) =
                plan_checks p source out
                  ([c0, \<lparr>chk_code = ''output_probe'',
                         chk_message = ''Staged output could be probed successfully.'',
                         chk_passed = True, chk_metadata = []\<rparr>], []);
              ambiguous = ambiguous_forced_stream_indices (plan_subtitles p)
          in
          \<lparr>vr_status = (if failures = [] then PASSED else FAILED),
           vr_passed = (failures = []),
           vr_checks = checks,
           vr_warnings =
             (if ambiguous \<noteq> []
              then [\<lparr>iss_code = ''ambiguous_forced_subtitle_metadata'',
                     iss_message = ''Forced subtitle metadata was ambiguous in the source plan.'',
                     iss_metadata = [(''stream_indices'', j_ints ambiguous)]\<rparr>]
              else []),
           vr_failures = failures,
           vr_output_summary = Some
             \<lparr>os_file_path = file_path out,
              os_container = (if truthy (extension out) then extension out else format_name (container out)),
              os_video_stream_count = length (video_streams out),
              os_audio_stream_count = length (audio_streams out),
              os_subtitle_stream_count = length (subtitle_streams out),
              os_is_4k = is_4k out, os_has_english_audio = has_english_audio out,
              os_has_forced_english_subtitle = has_forced_english_subtitle out,
              os_has_surround_audio = has_surround_audio out,
              os_has_atmos_capable_audio = has_atmos_capable_audio out,
              os_primary_video_codec =
                (case video_streams out of [] \<Rightarrow> None | v # _ \<Rightarrow> codec_name v),
              os_primary_audio_codec =
                (case audio_streams out of [] \<Rightarrow> None | s # _ \<Rightarrow> codec_name s)\<rparr>\<rparr>)"

subsection \<open>What verification guarantees\<close>


lemma add_check_fst: "fst (add_check code msg ok r) = fst r @ [\<lparr>chk_code = code, chk_message = msg, chk_passed = ok, chk_metadata = []\<rparr>]"
  by (simp add: add_check_def split: prod.split)

lemma add_check_failures: "snd (add_check code msg ok r) = [] \<longleftrightarrow> ok \<and> snd r = []"
  by (simp add: add_check_def split: prod.split)

text \<open>A run of checks whose failures are exactly the failed checks, in order.\<close>

definition consistent :: "recorded \<Rightarrow> bool" where
  "consistent r \<longleftrightarrow> map (\<lambda>i. (iss_code i, iss_message i)) (snd r)
     = map (\<lambda>c. (chk_code c, chk_message c)) (filter (\<lambda>c. \<not> chk_passed c) (fst r))"

lemma consistent_add_check: "consistent r \<Longrightarrow> consistent (add_check code msg ok r)"
  by (auto simp: consistent_def add_check_def split: prod.splits)

definition all_checks :: "processing_plan \<Rightarrow> media_file \<Rightarrow> media_file \<Rightarrow> bool" where
  "all_checks p source out \<longleftrightarrow>
     output_container_matches out (target_container (plan_container p))
     \<and> has_required_audio p out \<and> has_required_subtitles p out
     \<and> has_expected_selected_stream_shape p out
     \<and> audio_stream_selection_matches_plan source p out
     \<and> subtitle_stream_selection_matches_plan source p out
     \<and> audio_default_disposition_matches_plan p out
     \<and> subtitle_default_disposition_matches_plan p out
     \<and> has_required_video p out \<and> retains_required_4k source p out
     \<and> retains_required_surround p out \<and> retains_required_atmos p out"

lemma plan_checks_failures: "snd (plan_checks p source out r) = [] \<longleftrightarrow> all_checks p source out \<and> snd r = []"
  by (auto simp: plan_checks_def add_check_failures all_checks_def)

lemma plan_checks_consistent: "consistent r \<Longrightarrow> consistent (plan_checks p source out r)"
  by (simp add: plan_checks_def consistent_add_check)

lemma verify_output_passed:
  "vr_passed (verify_output stat probe staged p source) \<longleftrightarrow>
     is_non_empty_output stat staged \<and> (\<exists>out. probe staged = Inr out \<and> all_checks p source out)"
proof (cases "is_non_empty_output stat staged")
  case True
  then show ?thesis
    by (cases "probe staged")
       (simp_all add: verify_output_def failed_early_def Let_def split_beta plan_checks_failures)
qed (simp add: verify_output_def failed_early_def Let_def)

lemma passed_iff_no_failure:
  "consistent r \<Longrightarrow> snd r = [] \<longleftrightarrow> (\<forall>c\<in>set (fst r). chk_passed c)"
proof -
  assume "consistent r"
  then have "map (\<lambda>i. (iss_code i, iss_message i)) (snd r) = [] \<longleftrightarrow>
      map (\<lambda>c. (chk_code c, chk_message c)) (filter (\<lambda>c. \<not> chk_passed c) (fst r)) = []"
    by (simp add: consistent_def)
  then show ?thesis by (simp add: filter_empty_conv)
qed

text \<open>A verification result is honest: it has status passed exactly when \<open>passed\<close> is set,
  exactly when it records no failure, exactly when every recorded check passed; once the output is
  probed, the recorded failures are the failed checks, in order.\<close>

theorem verification_result_honest:
  "let r = verify_output stat probe staged p source in
     (vr_status r = PASSED \<longleftrightarrow> vr_passed r) \<and> (vr_passed r \<longleftrightarrow> vr_failures r = [])
     \<and> (vr_passed r \<longleftrightarrow> (\<forall>c\<in>set (vr_checks r). chk_passed c))
     \<and> (vr_output_summary r \<noteq> None \<longrightarrow>
          map (\<lambda>i. (iss_code i, iss_message i)) (vr_failures r)
          = map (\<lambda>c. (chk_code c, chk_message c)) (filter (\<lambda>c. \<not> chk_passed c) (vr_checks r)))"
proof (cases "is_non_empty_output stat staged")
  case True
  show ?thesis
  proof (cases "probe staged")
    case (Inr out)
    let ?r0 = "([\<lparr>chk_code = ''output_exists_and_non_empty'',
        chk_message = ''Staged output exists and is not empty.'', chk_passed = True,
        chk_metadata = [(''path'', JStr (as_posix staged))]\<rparr>,
        \<lparr>chk_code = ''output_probe'', chk_message = ''Staged output could be probed successfully.'',
         chk_passed = True, chk_metadata = []\<rparr>], []) :: recorded"
    have "consistent ?r0" by (simp add: consistent_def)
    then have c: "consistent (plan_checks p source out ?r0)" by (rule plan_checks_consistent)
    let ?v = "verify_output stat probe staged p source"
    have v: "vr_checks ?v = fst (plan_checks p source out ?r0)"
      "vr_failures ?v = snd (plan_checks p source out ?r0)"
      "vr_passed ?v \<longleftrightarrow> vr_failures ?v = []" "vr_status ?v = (if vr_failures ?v = [] then PASSED else FAILED)"
      using True Inr by (simp_all add: verify_output_def Let_def split_beta)
    show ?thesis unfolding Let_def v(3,4) unfolding v(1,2)
      using passed_iff_no_failure [OF c] c by (auto simp: consistent_def)
  qed (use True in \<open>simp add: verify_output_def failed_early_def Let_def\<close>)
qed (simp add: verify_output_def failed_early_def Let_def)


lemma by_index_distinct:
  "distinct (map index ss) \<Longrightarrow> s \<in> set ss \<Longrightarrow> by_index ss (index s) = Some s"
  unfolding by_index_def
  by (intro map_of_is_SomeI) (auto simp: rev_map [symmetric] comp_def)

lemma planned_streams_selected:
  "distinct (map index ss) \<Longrightarrow> set xs \<subseteq> set ss \<Longrightarrow> planned_streams ss (map index xs) = xs"
  by (induction xs) (auto simp: planned_streams_def by_index_distinct List.map_filter_simps)

lemma list_all2_zip: "length xs = length ys \<Longrightarrow> list_all (\<lambda>(x, y). P x y) (zip xs ys) \<longleftrightarrow> list_all2 P xs ys"
  by (simp add: list_all2_iff list_all_iff)

lemma resolved_audio_indices:
  assumes "p = build_resolved_plan m lp rp" "action p \<noteq> MANUAL_REVIEW"
  shows "audio_stream_indices (selected_streams p) = map index (selected_audio m (rp_audio_rules rp))"
    "subtitle_stream_indices (selected_streams p) = map index (selected_subtitles m (rp_subtitle_rules rp) lp)"
    "length (video_streams m) = 1" "selectable_audio_streams m (rp_audio_rules rp) \<noteq> []"
proof -
  have "\<not> ar_requires_manual_review (select_audio_streams m (rp_audio_rules rp) lp)"
    "\<not> snd (snd (build_video_plan m rp))"
    using assms(2) by (auto simp: assms(1) resolved_plan_fields(1) Let_def determine_action_cases(2))
  then have n: "selectable_audio_streams m (rp_audio_rules rp) \<noteq> []" "\<not> snd (snd (build_video_plan m rp))"
    by (simp_all add: select_audio_manual)
  then show "selectable_audio_streams m (rp_audio_rules rp) \<noteq> []" "length (video_streams m) = 1"
    by (auto simp: video_review)
  show "audio_stream_indices (selected_streams p) = map index (selected_audio m (rp_audio_rules rp))"
    "subtitle_stream_indices (selected_streams p) = map index (selected_subtitles m (rp_subtitle_rules rp) lp)"
    using n by (simp_all add: assms(1) resolved_plan_fields(2,3,7) select_audio_selected select_subtitle_fields)
qed

lemma resolved_planned:
  assumes "p = build_resolved_plan m lp rp" "action p \<noteq> MANUAL_REVIEW"
    and "distinct (map index (audio_streams m))" "distinct (map index (subtitle_streams m))"
  shows "planned_audio_streams m p = selected_audio m (rp_audio_rules rp)"
    "planned_subtitle_streams m p = selected_subtitles m (rp_subtitle_rules rp) lp"
proof -
  have "set (selected_audio m (rp_audio_rules rp)) \<subseteq> set (audio_streams m)"
    using selected_audio_subset selectable_subset by blast
  then show "planned_audio_streams m p = selected_audio m (rp_audio_rules rp)"
    unfolding planned_audio_streams_def resolved_audio_indices(1) [OF assms(1,2)]
    by (rule planned_streams_selected [OF assms(3)])
  show "planned_subtitle_streams m p = selected_subtitles m (rp_subtitle_rules rp) lp"
    unfolding planned_subtitle_streams_def resolved_audio_indices(2) [OF assms(1,2)]
    by (rule planned_streams_selected [OF assms(4) selected_subtitles_subset])
qed

lemma default_exactly_at_nth:
  "default_exactly_at k ss \<longleftrightarrow> (\<forall>i<length ss. d_default (disposition (ss ! i)) \<longleftrightarrow> i = k)"
  by (auto simp: default_exactly_at_def list_all_length nth_enumerate_eq)

lemma resolved_primary:
  assumes "p = build_resolved_plan m lp rp" "action p \<noteq> MANUAL_REVIEW"
    "0 < max_tracks_to_keep (rp_audio_rules rp)"
  obtains s ss where "selected_audio m (rp_audio_rules rp) = s # ss"
    "primary_stream_index (plan_audio p) = Some (index s)"
proof -
  have "selected_audio m (rp_audio_rules rp) \<noteq> []"
    using selected_audio_nonempty [OF resolved_audio_indices(4) [OF assms(1,2)] assms(3)] .
  then show ?thesis using that resolved_audio_indices(4) [OF assms(1,2)]
    by (cases "selected_audio m (rp_audio_rules rp)")
       (auto simp: assms(1) resolved_plan_fields(2) select_audio_primary select_audio_selected)
qed

text \<open>C4: What passing verification guarantees for an automatic plan: the probed output has exactly
  the selected audio and subtitle streams, in plan order, each with the language, codec and channels
  (or forced flag) of its source; the first audio stream and no other is the default; there is one
  video stream, in the target codec when the plan transcodes, and no unknown stream; a 4K source
  whose video is preserved is still 4K.\<close>

theorem verified_output_matches_plan:
  assumes "build_processing_plan m b src = Inr p" "resolve_planning_policy m b src = Inr rp"
    and "action p \<noteq> MANUAL_REVIEW" "0 < max_tracks_to_keep (rp_audio_rules rp)"
    and "distinct (map index (audio_streams m))" "distinct (map index (subtitle_streams m))"
    and "vr_passed (verify_output stat probe staged p m)"
  shows "\<exists>out. probe staged = Inr out
      \<and> list_all2 audio_stream_matches (audio_streams out) (selected_audio m (rp_audio_rules rp))
      \<and> list_all2 subtitle_stream_matches (subtitle_streams out)
           (selected_subtitles m (rp_subtitle_rules rp) (languages (policy b)))
      \<and> (\<forall>i<length (audio_streams out). d_default (disposition (audio_streams out ! i)) \<longleftrightarrow> i = 0)
      \<and> (\<exists>v. video_streams out = [v]
           \<and> (transcode_required (plan_video p) \<longrightarrow> codec_name v = target_codec (plan_video p)))
      \<and> unknown_streams out = [] \<and> (is_4k m \<and> preserve_original (plan_video p) \<longrightarrow> is_4k out)"
proof -
  have p: "p = build_resolved_plan m (languages (policy b)) rp"
    using assms(1,2) by (simp add: build_processing_plan_Inr)
  obtain out where o: "probe staged = Inr out" and c: "all_checks p m out"
    using assms(7) by (auto simp: verify_output_passed)
  note pl = resolved_planned [OF p assms(3,5,6)]
  have a: "list_all2 audio_stream_matches (audio_streams out) (selected_audio m (rp_audio_rules rp))"
    and s: "list_all2 subtitle_stream_matches (subtitle_streams out)
           (selected_subtitles m (rp_subtitle_rules rp) (languages (policy b)))"
    using c by (auto simp: all_checks_def audio_stream_selection_matches_plan_def
        subtitle_stream_selection_matches_plan_def Let_def pl list_all2_zip split: if_splits)
  obtain t ts where t: "selected_audio m (rp_audio_rules rp) = t # ts"
    "primary_stream_index (plan_audio p) = Some (index t)"
    using resolved_primary [OF p assms(3,4)] .
  have "default_exactly_at 0 (audio_streams out)"
    using c t resolved_audio_indices(1) [OF p assms(3)]
    by (simp add: all_checks_def audio_default_disposition_matches_plan_def)
  moreover obtain v where v: "video_streams m = [v]"
    using resolved_audio_indices(3) [OF p assms(3)] by (auto simp: length_Suc_conv)
  have vi: "vp_primary_stream_index (plan_video p) = Some (index v)"
    "video_stream_indices (selected_streams p) = [index v]" "unknown_stream_indices (selected_streams p) = []"
    using v by (simp_all add: p resolved_plan_fields(4,7) video_primary)
  have "length (video_streams out) = 1" "length (unknown_streams out) = 0"
    using c vi by (simp_all add: all_checks_def has_expected_selected_stream_shape_def Let_def)
  then obtain w where w: "video_streams out = [w]" "unknown_streams out = []" by (auto simp: length_Suc_conv)
  moreover have "codec_name w = target_codec (plan_video p)" if "transcode_required (plan_video p)"
  proof -
    have "target_codec (plan_video p) \<noteq> None" using that v
      by (auto simp: p resolved_plan_fields(4) build_video_plan_def build_4k_video_plan_def
          build_non_4k_video_plan_def Let_def split: if_splits)
    then show ?thesis using c that vi w by (auto simp: all_checks_def has_required_video_def split: if_splits)
  qed
  moreover have "is_4k out" if "is_4k m" "preserve_original (plan_video p)"
    using c that by (simp add: all_checks_def retains_required_4k_def)
  ultimately show ?thesis using o a s by (auto simp: default_exactly_at_nth)
qed


definition sample_output :: media_file where
  "sample_output =
     (sample_file ''/scratch'' ''hevc'' False
        [(sample_audio 1 ''eng'' 6 False)\<lparr>disposition := StreamDisposition\<lparr>d_default := True\<rparr>\<rparr>])
       \<lparr>has_surround_audio := True\<rparr>"

definition sample_stat :: "path \<Rightarrow> (bool \<times> int) option" where
  "sample_stat f = Some (True, 1000)"

definition sample_probe :: "path \<Rightarrow> probe_error + media_file" where
  "sample_probe f = Inr sample_output"

lemma verification_result_honest_witness:
  "let r = verify_output sample_stat sample_probe (path_of ''/scratch/a.mkv'')
       (projr (build_processing_plan sample_old_codec (sample_bundle None) None)) sample_old_codec in
     map (\<lambda>i. (iss_code i, iss_message i)) (vr_failures r)
          = map (\<lambda>c. (chk_code c, chk_message c)) (filter (\<lambda>c. \<not> chk_passed c) (vr_checks r))"
proof -
  let ?r = "verify_output sample_stat sample_probe (path_of ''/scratch/a.mkv'')
       (projr (build_processing_plan sample_old_codec (sample_bundle None) None)) sample_old_codec"
  have "\<not> Option.is_none (vr_output_summary ?r)" by code_simp
  then have "vr_output_summary ?r \<noteq> None" by (simp add: Option.is_none_def)
  then show ?thesis
    using verification_result_honest [of sample_stat sample_probe "path_of ''/scratch/a.mkv''"
      "projr (build_processing_plan sample_old_codec (sample_bundle None) None)" sample_old_codec]
    unfolding Let_def by blast
qed

lemma verified_output_matches_plan_witness:
  "\<exists>out. sample_probe (path_of ''/scratch/a.mkv'') = Inr out \<and> unknown_streams out = []"
proof -
  let ?r = "build_processing_plan sample_old_codec (sample_bundle None) None"
  let ?q = "resolve_planning_policy sample_old_codec (sample_bundle None) None"
  have "\<not> isl ?r" "\<not> isl ?q" by code_simp+
  then have r: "?r = Inr (projr ?r)" and q: "?q = Inr (projr ?q)" by (blast intro: planned)+
  have a: "action (projr ?r) \<noteq> MANUAL_REVIEW" by code_simp
  have w: "0 < max_tracks_to_keep (rp_audio_rules (projr ?q))" by code_simp
  have d: "distinct (map index (audio_streams sample_old_codec))"
    "distinct (map index (subtitle_streams sample_old_codec))" by code_simp+
  have v: "vr_passed (verify_output sample_stat sample_probe (path_of ''/scratch/a.mkv'') (projr ?r) sample_old_codec)"
    by code_simp
  from verified_output_matches_plan [OF r q a w d v] show ?thesis by blast
qed

end
