(* ===== verification/Backend.thy ===== *)
theory Backend
  imports Policy
begin

text \<open>
  Backend preferences (\<open>encodr_shared/backend_preferences.py\<close>) and the choice of an encoder
  (\<open>encodr_core/execution/backend_selection.py\<close>). The hardware probes, which run ffmpeg and read
  \<open>/dev\<close>, are a parameter: a list of \<open>hardware_probe\<close> with their details as JSON objects. So are
  whether the host is Windows and the text \<open>str\<close> gives for numbers and containers (\<open>repr\<close>). Log
  records are not modelled. Fallible lookups into the untyped details raise as the code does.
\<close>

subsection \<open>Preferences\<close>

definition supported_backend_preferences :: "string list" where
  "supported_backend_preferences =
     [''cpu_only'', ''prefer_intel_igpu'', ''intel_auto'', ''intel_qsv'', ''intel_vaapi'',
      ''prefer_nvidia_gpu'', ''prefer_amd_gpu'']"

definition backend_preference_labels :: "string \<rightharpoonup> string" where
  "backend_preference_labels = map_of
     [(''cpu_only'', ''CPU only''), (''cpu'', ''CPU only''), (''prefer_intel_igpu'', ''Intel auto''),
      (''intel_igpu'', ''Intel auto''), (''intel_auto'', ''Intel auto''), (''intel_qsv'', ''Intel QSV''),
      (''intel_vaapi'', ''Intel VAAPI''), (''prefer_nvidia_gpu'', ''NVIDIA GPU''),
      (''nvidia_gpu'', ''NVIDIA GPU''), (''prefer_amd_gpu'', ''AMD GPU''), (''amd_gpu'', ''AMD GPU'')]"

definition backend_preference_keys_table :: "string \<rightharpoonup> string" where
  "backend_preference_keys_table = map_of
     [(''cpu'', ''cpu_only''), (''intel_igpu'', ''prefer_intel_igpu''),
      (''nvidia_gpu'', ''prefer_nvidia_gpu''), (''amd_gpu'', ''prefer_amd_gpu'')]"

definition backend_additional_preference_keys :: "string \<rightharpoonup> string list" where
  "backend_additional_preference_keys = map_of
     [(''cpu'', [''cpu'']),
      (''intel_igpu'', [''intel_auto'', ''intel_qsv'', ''intel_vaapi'', ''qsv'', ''vaapi'', ''auto'']),
      (''nvidia_gpu'', [''nvidia_gpu'']), (''amd_gpu'', [''amd_gpu''])]"

definition backend_preference_aliases :: "string \<rightharpoonup> string" where
  "backend_preference_aliases = map_of
     [(''cpu_only'', ''cpu''), (''cpu'', ''cpu''), (''prefer_intel_igpu'', ''intel_auto''),
      (''intel_igpu'', ''intel_auto''), (''intel_auto'', ''intel_auto''), (''auto'', ''intel_auto''),
      (''qsv'', ''intel_qsv''), (''intel_qsv'', ''intel_qsv''), (''vaapi'', ''intel_vaapi''),
      (''intel_vaapi'', ''intel_vaapi''), (''prefer_nvidia_gpu'', ''nvidia_gpu''),
      (''nvidia_gpu'', ''nvidia_gpu''), (''prefer_amd_gpu'', ''amd_gpu''), (''amd_gpu'', ''amd_gpu'')]"

definition intel_backend_preferences :: "string list" where
  "intel_backend_preferences = [''intel_auto'', ''intel_qsv'', ''intel_vaapi'']"

definition get_or :: "('k \<rightharpoonup> 'v) \<Rightarrow> 'k \<Rightarrow> 'v \<Rightarrow> 'v" where
  "get_or d k dflt = (case d k of None \<Rightarrow> dflt | Some v \<Rightarrow> v)"

definition backend_preference_key :: "string \<Rightarrow> string" where
  "backend_preference_key backend = get_or backend_preference_keys_table backend backend"

definition backend_preference_keys :: "string \<Rightarrow> string list" where
  "backend_preference_keys backend =
     dedup_acc [] (backend_preference_key backend # get_or backend_additional_preference_keys backend [])"

definition normalise_backend_preference_key :: "string option \<Rightarrow> string" where
  "normalise_backend_preference_key v =
     get_or backend_preference_aliases (py_strip (or_str v ''cpu_only'')) ''cpu''"

definition coerce_backend_preference :: "string option \<Rightarrow> string \<Rightarrow> string" where
  "coerce_backend_preference v dflt =
     (let cleaned = py_strip (or_str v []) in
      if cleaned \<in> set supported_backend_preferences then cleaned
      else let canonical = backend_preference_key (normalise_backend_preference_key (Some cleaned)) in
           if canonical \<in> set supported_backend_preferences then canonical else dflt)"

definition is_supported_backend_preference :: "string option \<Rightarrow> bool" where
  "is_supported_backend_preference v \<longleftrightarrow> py_strip (or_str v []) \<in> set supported_backend_preferences"

text \<open>\<open>None\<close> where the code would fall through to \<open>cleaned.replace("_", " ").title()\<close>.\<close>

definition backend_preference_label :: "string option \<Rightarrow> string option" where
  "backend_preference_label v =
     (let cleaned = py_strip (or_str v ''cpu_only'') in
      case backend_preference_labels cleaned of
        Some l \<Rightarrow> Some l
      | None \<Rightarrow> backend_preference_labels (normalise_backend_preference_key (Some cleaned)))"

definition probe_backend_for_preference :: "string option \<Rightarrow> string" where
  "probe_backend_for_preference v =
     (let n = normalise_backend_preference_key v in
      if n \<in> set intel_backend_preferences then ''intel_igpu'' else n)"

subsection \<open>Untyped probe details\<close>

record hardware_probe =
  hp_backend :: string
  hp_detected :: bool
  hp_usable :: bool
  hp_status :: string
  hp_message :: string
  hp_details :: "(string \<times> json) list"

datatype backend_error =
    BackendSelectionError string string bool
  | AttributeError
  | ItemError

text \<open>\<open>details.get(key) or {}\<close>, on which \<open>.get\<close> is called next.\<close>

definition nested :: "(string \<times> json) list \<Rightarrow> string \<Rightarrow> backend_error + (string \<times> json) list" where
  "nested details k =
     (let v = jget details k in
      if \<not> json_truthy v then Inr []
      else case v of JObj d \<Rightarrow> Inr d | _ \<Rightarrow> Inl AttributeError)"

text \<open>\<open>(x or [])[0]\<close> when truthy: an item of a list, a character of a string.\<close>

definition first_item :: "json \<Rightarrow> backend_error + json option" where
  "first_item v =
     (if \<not> json_truthy v then Inr None
      else case v of
             JList (x # _) \<Rightarrow> Inr (Some x)
           | JStr (c # _) \<Rightarrow> Inr (Some (JStr [c]))
           | _ \<Rightarrow> Inl ItemError)"

definition string_list :: "json \<Rightarrow> string list" where
  "string_list v =
     (case v of
        JList xs \<Rightarrow> List.map_filter (\<lambda>x. case x of JStr s \<Rightarrow> if py_strip s \<noteq> [] then Some s else None
                                            | _ \<Rightarrow> None) xs
      | _ \<Rightarrow> [])"

fun first_path_in :: "(json \<Rightarrow> string) \<Rightarrow> json list \<Rightarrow> string option" where
  "first_path_in repr [] = None"
| "first_path_in repr (JObj d # xs) =
     (if json_truthy (jget d ''path'') then Some (json_text repr (jget d ''path''))
      else first_path_in repr xs)"
| "first_path_in repr (_ # xs) = first_path_in repr xs"

definition first_device_path :: "(json \<Rightarrow> string) \<Rightarrow> (string \<times> json) list \<Rightarrow> string option" where
  "first_device_path repr details =
     (case jget details ''device_paths'' of JList xs \<Rightarrow> first_path_in repr xs | _ \<Rightarrow> None)"

subsection \<open>Reasons\<close>

definition rstrip_dots :: "string \<Rightarrow> string" where
  "rstrip_dots s = rstrip_by (\<lambda>c. c = CHR ''.'') s"

text \<open>A value that is a string with something beside white space.\<close>

definition reason_text :: "json \<Rightarrow> string option" where
  "reason_text v = (case v of JStr s \<Rightarrow> if py_strip s \<noteq> [] then Some (py_strip s) else None | _ \<Rightarrow> None)"

fun first_reason_in :: "(string \<times> json) list \<Rightarrow> string list \<Rightarrow> string option" where
  "first_reason_in d [] = None"
| "first_reason_in d (k # ks) =
     (case reason_text (jget d k) of Some t \<Rightarrow> Some (rstrip_dots t) | None \<Rightarrow> first_reason_in d ks)"

definition first_reason :: "(string \<times> json) list \<Rightarrow> json \<Rightarrow> string option" where
  "first_reason d fallback =
     (case reason_text fallback of
        Some t \<Rightarrow> Some (rstrip_dots t)
      | None \<Rightarrow> first_reason_in d [''reason_unavailable'', ''validation_state'', ''message''])"

definition qsv_unavailable_reason :: "(string \<times> json) list \<Rightarrow> string option" where
  "qsv_unavailable_reason d =
     (let direct = (if json_truthy (jget d ''qsv_unavailable_reason'') then jget d ''qsv_unavailable_reason''
                    else jget d ''fallback_reason'')
      in case reason_text direct of
           Some t \<Rightarrow> Some t
         | None \<Rightarrow>
             (case jget d ''qsv'' of
                JObj q \<Rightarrow> first_reason_in q [''reason_unavailable'', ''validation_state'', ''message'']
              | _ \<Rightarrow> None))"

definition or_opt :: "string option \<Rightarrow> string option \<Rightarrow> string option" where
  "or_opt a b = (case a of Some s \<Rightarrow> if s \<noteq> [] then Some s else b | None \<Rightarrow> b)"

definition sub_object :: "(string \<times> json) list \<Rightarrow> string \<Rightarrow> (string \<times> json) list" where
  "sub_object d k = (case jget d k of JObj q \<Rightarrow> q | _ \<Rightarrow> [])"

definition selection_failure_reason :: "string \<Rightarrow> hardware_probe option \<Rightarrow> string option" where
  "selection_failure_reason requested probe =
     (case probe of
        None \<Rightarrow> None
      | Some p \<Rightarrow>
          let d = hp_details p in
          if requested \<in> set intel_backend_preferences then
            let qsv_reason = first_reason (sub_object d ''qsv'') (jget d ''qsv_unavailable_reason'');
                vaapi_reason = first_reason (sub_object d ''vaapi'') JNull
            in
            if requested = ''intel_qsv'' then qsv_reason
            else if requested = ''intel_vaapi'' then vaapi_reason
            else (case (or_opt qsv_reason None, or_opt vaapi_reason None) of
                    (Some q, Some v) \<Rightarrow> Some (''QSV unavailable: '' @ q @ ''; VAAPI unavailable: '' @ v)
                  | _ \<Rightarrow> or_opt qsv_reason (or_opt vaapi_reason (first_reason d JNull)))
          else first_reason d JNull)"

subsection \<open>Encoders and quality flags\<close>

definition cpu_encoders :: "string \<rightharpoonup> string" where
  "cpu_encoders = map_of [(''h264'', ''libx264''), (''hevc'', ''libx265''), (''av1'', ''libaom-av1'')]"

definition nvenc_encoders :: "string \<rightharpoonup> string" where
  "nvenc_encoders = map_of [(''h264'', ''h264_nvenc''), (''hevc'', ''hevc_nvenc'')]"

definition qsv_encoders :: "string \<rightharpoonup> string" where
  "qsv_encoders = map_of [(''h264'', ''h264_qsv''), (''hevc'', ''hevc_qsv'')]"

definition vaapi_encoders :: "string \<rightharpoonup> string" where
  "vaapi_encoders = map_of [(''h264'', ''h264_vaapi''), (''hevc'', ''hevc_vaapi'')]"

definition amf_encoders :: "string \<rightharpoonup> string" where
  "amf_encoders = map_of [(''h264'', ''h264_amf''), (''hevc'', ''hevc_amf'')]"

definition cpu_quality_flags :: "string \<rightharpoonup> string list" where
  "cpu_quality_flags = map_of
     [(''high_quality'', [''-preset'', ''slow'', ''-crf'', ''18'']),
      (''balanced'', [''-preset'', ''medium'', ''-crf'', ''20'']),
      (''efficient'', [''-preset'', ''medium'', ''-crf'', ''23''])]"

definition nvenc_quality_flags :: "string \<rightharpoonup> string list" where
  "nvenc_quality_flags = map_of
     [(''high_quality'', [''-preset'', ''p5'', ''-rc'', ''vbr'', ''-cq'', ''19'']),
      (''balanced'', [''-preset'', ''p4'', ''-rc'', ''vbr'', ''-cq'', ''21'']),
      (''efficient'', [''-preset'', ''p3'', ''-rc'', ''vbr'', ''-cq'', ''24''])]"

definition qsv_quality_flags :: "string \<rightharpoonup> string list" where
  "qsv_quality_flags = map_of
     [(''high_quality'', [''-global_quality'', ''19'']), (''balanced'', [''-global_quality'', ''21'']),
      (''efficient'', [''-global_quality'', ''24''])]"

definition vaapi_quality_flags :: "string \<rightharpoonup> string list" where
  "vaapi_quality_flags = map_of
     [(''high_quality'', [''-qp'', ''19'']), (''balanced'', [''-qp'', ''21'']), (''efficient'', [''-qp'', ''24''])]"

definition amf_quality_flags :: "string \<rightharpoonup> string list" where
  "amf_quality_flags = map_of
     [(''high_quality'', [''-quality'', ''quality'', ''-qp_i'', ''19'', ''-qp_p'', ''21'']),
      (''balanced'', [''-quality'', ''balanced'', ''-qp_i'', ''21'', ''-qp_p'', ''23'']),
      (''efficient'', [''-quality'', ''speed'', ''-qp_i'', ''24'', ''-qp_p'', ''26''])]"

text \<open>\<open>flags.get(mode, flags["high_quality"])\<close>\<close>

definition mode_flags :: "(string \<rightharpoonup> string list) \<Rightarrow> string \<Rightarrow> string list" where
  "mode_flags table mode =
     (case table mode of Some f \<Rightarrow> f | None \<Rightarrow> get_or table ''high_quality'' [])"

fun flag_index :: "string list \<Rightarrow> string \<Rightarrow> nat option" where
  "flag_index [] x = None"
| "flag_index (y # ys) x = (if y = x then Some 0 else map_option Suc (flag_index ys x))"

definition replace_quality_value :: "string list \<Rightarrow> string \<Rightarrow> int option \<Rightarrow> string list" where
  "replace_quality_value flags option value =
     (case value of
        None \<Rightarrow> flags
      | Some n \<Rightarrow>
          (case flag_index flags option of
             None \<Rightarrow> flags
           | Some i \<Rightarrow> if length flags \<le> i + 1 then flags else flags[i + 1 := show_int n]))"

definition quality_flags_for_backend :: "string \<Rightarrow> string option \<Rightarrow> int option \<Rightarrow> string list" where
  "quality_flags_for_backend accelerator mode crf =
     (let selected = or_str mode ''high_quality'' in
      if accelerator = ''cpu'' then
        replace_quality_value (mode_flags cpu_quality_flags selected) ''-crf'' crf
      else if accelerator = ''nvenc'' then
        replace_quality_value (mode_flags nvenc_quality_flags selected) ''-cq'' crf
      else if accelerator = ''qsv'' then
        replace_quality_value (mode_flags qsv_quality_flags selected) ''-global_quality'' crf
      else if accelerator = ''vaapi'' then
        replace_quality_value (mode_flags vaapi_quality_flags selected) ''-qp'' crf
      else if accelerator = ''amf'' then
        (let flags = mode_flags amf_quality_flags selected in
         case crf of
           None \<Rightarrow> flags
         | Some q \<Rightarrow>
             replace_quality_value (replace_quality_value flags ''-qp_i'' (Some q)) ''-qp_p''
               (Some (min 51 (q + 2))))
      else [])"

subsection \<open>Selection\<close>

record selected_backend =
  requested_backend :: string
  actual_backend :: string
  accelerator :: string
  video_encoder :: string
  command_prefix :: "string list"
  video_filter :: "string option"
  quality_flags :: "string list"
  fallback_used :: bool
  selection_reason :: "string option"
  device_path :: "string option"

definition cpu_selection ::
    "string \<Rightarrow> string \<Rightarrow> bool \<Rightarrow> string option \<Rightarrow> backend_error + selected_backend" where
  "cpu_selection requested codec fallback reason =
     (case cpu_encoders codec of
        None \<Rightarrow> Inl (BackendSelectionError
                      (''Codec '' @ [CHR 0x27] @ codec @ [CHR 0x27]
                       @ '' is not supported by the CPU execution path.'')
                      requested (fallback \<or> requested = ''cpu''))
      | Some encoder \<Rightarrow>
          Inr \<lparr>requested_backend = requested, actual_backend = ''cpu'', accelerator = ''cpu'',
               video_encoder = encoder, command_prefix = [], video_filter = None,
               quality_flags = mode_flags cpu_quality_flags ''high_quality'',
               fallback_used = fallback, selection_reason = reason, device_path = None\<rparr>)"

text \<open>The common shape of the accelerated choices.\<close>

definition accelerated ::
    "string \<Rightarrow> string \<Rightarrow> string \<Rightarrow> string \<Rightarrow> string list \<Rightarrow> string option \<Rightarrow> string \<Rightarrow> string option
     \<Rightarrow> selected_backend" where
  "accelerated requested actual accel encoder cmd_prefix filter_spec reason device =
     \<lparr>requested_backend = requested, actual_backend = actual, accelerator = accel,
      video_encoder = encoder, command_prefix = cmd_prefix, video_filter = filter_spec,
      quality_flags = [], fallback_used = False, selection_reason = Some reason, device_path = device\<rparr>"

definition qsv_selection ::
    "(json \<Rightarrow> string) \<Rightarrow> bool \<Rightarrow> string \<Rightarrow> string \<Rightarrow> (string \<times> json) list
     \<Rightarrow> backend_error + selected_backend option" where
  "qsv_selection repr windows requested codec qsv =
     (case qsv_encoders codec of
        None \<Rightarrow> Inr None
      | Some encoder \<Rightarrow>
          (case first_item (jget qsv ''render_devices'') of
             Inl e \<Rightarrow> Inl e
           | Inr device \<Rightarrow>
               let configured = string_list (jget qsv ''command_prefix'');
                   generic = (if configured \<noteq> [] then configured
                              else [''-init_hw_device'', ''qsv=qs'', ''-filter_hw_device'', ''qs'']);
                   cmd = (case device of
                            None \<Rightarrow> generic
                          | Some d \<Rightarrow>
                              if windows then generic
                              else if configured \<noteq> [] then configured
                              else [''-init_hw_device'', ''qsv=qs:hw,child_device='' @ json_text repr d,
                                    ''-filter_hw_device'', ''qs''])
               in Inr (Some (accelerated requested ''intel_qsv'' ''qsv'' encoder cmd
                        (Some ''format=nv12,hwupload=extra_hw_frames=64'')
                        ''Using Intel QSV for hardware-accelerated video encoding.''
                        (map_option (json_text repr) device)))))"

definition vaapi_selection ::
    "(json \<Rightarrow> string) \<Rightarrow> string \<Rightarrow> string \<Rightarrow> string \<Rightarrow> string \<Rightarrow> (string \<times> json) list \<Rightarrow> selected_backend option" where
  "vaapi_selection repr requested actual codec reason vaapi =
     (case vaapi_encoders codec of
        None \<Rightarrow> None
      | Some encoder \<Rightarrow>
          (case first_device_path repr vaapi of
             None \<Rightarrow> None
           | Some device \<Rightarrow>
               Some (accelerated requested actual ''vaapi'' encoder [''-vaapi_device'', device]
                       (Some ''format=nv12,hwupload'') reason (Some device))))"

definition intel_selection ::
    "(json \<Rightarrow> string) \<Rightarrow> bool \<Rightarrow> string \<Rightarrow> string \<Rightarrow> (string \<times> json) list
     \<Rightarrow> backend_error + selected_backend option" where
  "intel_selection repr windows requested codec details =
     (case (nested details ''qsv'', nested details ''vaapi'') of
        (Inl e, _) \<Rightarrow> Inl e
      | (_, Inl e) \<Rightarrow> Inl e
      | (Inr qsv, Inr vaapi) \<Rightarrow>
          if requested \<in> {''intel_auto'', ''intel_qsv''} \<and> json_truthy (jget qsv ''usable'')
          then qsv_selection repr windows requested codec qsv
          else if requested \<in> {''intel_auto'', ''intel_vaapi''} \<and> json_truthy (jget vaapi ''usable'')
          then let base = ''Using Intel iGPU / VAAPI for hardware-accelerated video encoding.'';
                   qsv_reason = (if requested = ''intel_auto'' then qsv_unavailable_reason details else None);
                   reason = (case or_opt qsv_reason None of
                               Some q \<Rightarrow> base @ '' QSV unavailable: '' @ q @ ''.''
                             | None \<Rightarrow> base)
               in Inr (vaapi_selection repr requested ''intel_vaapi'' codec reason vaapi)
          else Inr None)"

definition amd_selection ::
    "(json \<Rightarrow> string) \<Rightarrow> string \<Rightarrow> string \<Rightarrow> (string \<times> json) list \<Rightarrow> backend_error + selected_backend option" where
  "amd_selection repr requested codec details =
     (case nested details ''amf'' of
        Inl e \<Rightarrow> Inl e
      | Inr amf \<Rightarrow>
          if json_truthy (jget amf ''usable'') then
            Inr (map_option (\<lambda>encoder. accelerated requested ''amd_gpu'' ''amf'' encoder [] None
                    ''Using AMD AMF for hardware-accelerated video encoding.'' None) (amf_encoders codec))
          else
            (case nested details ''vaapi'' of
               Inl e \<Rightarrow> Inl e
             | Inr vaapi \<Rightarrow>
                 if json_truthy (jget vaapi ''usable'')
                 then Inr (vaapi_selection repr requested ''amd_gpu'' codec
                             ''Using AMD VAAPI for hardware-accelerated video encoding.'' vaapi)
                 else Inr None))"

definition accelerated_selection ::
    "(json \<Rightarrow> string) \<Rightarrow> bool \<Rightarrow> string \<Rightarrow> string \<Rightarrow> hardware_probe option
     \<Rightarrow> backend_error + selected_backend option" where
  "accelerated_selection repr windows requested codec probe =
     (case probe of
        None \<Rightarrow> Inr None
      | Some p \<Rightarrow>
          if \<not> hp_usable p then Inr None
          else if requested \<in> set intel_backend_preferences then
            intel_selection repr windows requested codec (hp_details p)
          else if requested = ''nvidia_gpu'' then
            Inr (map_option (\<lambda>encoder. accelerated requested ''nvidia_gpu'' ''nvenc'' encoder [] None
                    ''Using NVIDIA NVENC for hardware-accelerated video encoding.'' None) (nvenc_encoders codec))
          else if requested = ''amd_gpu'' then amd_selection repr requested codec (hp_details p)
          else Inr None)"

definition probe_for :: "hardware_probe list \<Rightarrow> string \<Rightarrow> hardware_probe option" where
  "probe_for probes key = map_of (rev (map (\<lambda>p. (hp_backend p, p)) probes)) key"

definition target_encoder_codec :: "string option \<Rightarrow> string" where
  "target_encoder_codec c = py_lower (py_strip (or_str c ''hevc''))"

definition select_execution_backend ::
    "(json \<Rightarrow> string) \<Rightarrow> bool \<Rightarrow> hardware_probe list \<Rightarrow> string option \<Rightarrow> bool \<Rightarrow> string option
     \<Rightarrow> backend_error + selected_backend" where
  "select_execution_backend repr windows probes preferred allow_cpu_fallback target_codec =
     (let requested = normalise_backend_preference_key preferred;
          codec = target_encoder_codec target_codec;
          probe = probe_for probes (probe_backend_for_preference (Some requested));
          quoted = ''Preferred backend '' @ [CHR 0x27] @ requested @ [CHR 0x27]
      in
      if requested = ''cpu'' then cpu_selection requested codec False None
      else case accelerated_selection repr windows requested codec probe of
        Inl e \<Rightarrow> Inl e
      | Inr (Some selection) \<Rightarrow> Inr selection
      | Inr None \<Rightarrow>
          let failure = or_opt (selection_failure_reason requested probe) None in
          if allow_cpu_fallback then
            cpu_selection requested codec True
              (Some (case failure of
                       Some r \<Rightarrow> r
                     | None \<Rightarrow> quoted @ '' is unavailable, so Encodr is falling back to CPU execution.''))
          else
            Inl (BackendSelectionError
                   ((case failure of Some r \<Rightarrow> r | None \<Rightarrow> quoted @ '' is not supported.'')
                    @ '' CPU fallback is disabled, so Encodr cannot execute this transcode safely.'')
                   requested allow_cpu_fallback))"

subsection \<open>What preferences guarantee\<close>


definition normalised_backends :: "string list" where
  "normalised_backends = [''cpu'', ''intel_auto'', ''intel_qsv'', ''intel_vaapi'', ''nvidia_gpu'', ''amd_gpu'']"

lemma map_of_all: "map_of kvs k = Some v \<Longrightarrow> list_all (\<lambda>(k, v). P k v) kvs \<Longrightarrow> P k v"
  by (auto simp: list_all_iff dest!: map_of_SomeD)

lemma get_or_all: "P d \<Longrightarrow> list_all (\<lambda>(k, v). P v) kvs \<Longrightarrow> P (get_or (map_of kvs) k d)"
  using map_of_all [of kvs k _ "\<lambda>_. P"] by (auto simp: get_or_def split: option.splits)

lemma normalise_range: "normalise_backend_preference_key v \<in> set normalised_backends"
  unfolding normalise_backend_preference_key_def backend_preference_aliases_def
  by (rule get_or_all) code_simp+

lemma normalise_fixpoint: "x \<in> set normalised_backends \<Longrightarrow> normalise_backend_preference_key (Some x) = x"
proof -
  have "list_all (\<lambda>x. normalise_backend_preference_key (Some x) = x) normalised_backends" by code_simp
  then show "x \<in> set normalised_backends \<Longrightarrow> ?thesis" by (simp add: list_all_iff)
qed

lemma canonical_key_supported: "x \<in> set normalised_backends \<Longrightarrow> backend_preference_key x \<in> set supported_backend_preferences"
proof -
  have "list_all (\<lambda>x. backend_preference_key x \<in> set supported_backend_preferences) normalised_backends" by code_simp
  then show "x \<in> set normalised_backends \<Longrightarrow> ?thesis" by (simp add: list_all_iff)
qed

lemma supported_plain: "x \<in> set supported_backend_preferences \<Longrightarrow> py_strip (or_str (Some x) []) = x"
proof -
  have "list_all (\<lambda>x. py_strip (or_str (Some x) []) = x) supported_backend_preferences" by code_simp
  then show "x \<in> set supported_backend_preferences \<Longrightarrow> ?thesis" by (simp add: list_all_iff del: or_str.simps)
qed

text \<open>Backend preferences normalise to one of six keys, on which normalising again changes
  nothing; coercion always yields a supported preference, whatever the default, and is
  idempotent; every preference has a label, so the title-cased fallback is never reached.\<close>

theorem backend_preferences_normalise:
  "(let k = normalise_backend_preference_key v in
      k \<in> {''cpu'', ''intel_auto'', ''intel_qsv'', ''intel_vaapi'', ''nvidia_gpu'', ''amd_gpu''}
      \<and> normalise_backend_preference_key (Some k) = k
      \<and> probe_backend_for_preference (Some k) = probe_backend_for_preference v)
   \<and> (let c = coerce_backend_preference v d in
        is_supported_backend_preference (Some c) \<and> coerce_backend_preference (Some c) d' = c)
   \<and> backend_preference_label v \<noteq> None"
proof -
  let ?k = "normalise_backend_preference_key v" and ?c = "coerce_backend_preference v d"
  have c: "?c \<in> set supported_backend_preferences"
    using canonical_key_supported [OF normalise_range] by (simp add: coerce_backend_preference_def Let_def)
  then have "coerce_backend_preference (Some ?c) d' = ?c"
    by (simp add: coerce_backend_preference_def Let_def supported_plain del: or_str.simps)
  moreover have "list_all (\<lambda>x. backend_preference_labels x \<noteq> None) normalised_backends" by code_simp
  then have "backend_preference_labels (normalise_backend_preference_key w) \<noteq> None" for w
    using normalise_range by (auto simp: list_all_iff)
  then have "backend_preference_label v \<noteq> None"
    by (auto simp: backend_preference_label_def Let_def split: option.splits)
  ultimately show ?thesis using c normalise_range [of v] normalise_fixpoint [OF normalise_range, of v]
    by (simp add: Let_def is_supported_backend_preference_def supported_plain normalised_backends_def
        probe_backend_for_preference_def del: or_str.simps)
qed

subsection \<open>What selection guarantees\<close>

lemma cpu_selection_Inr:
  "cpu_selection req codec fb reason = Inr s \<longleftrightarrow>
     (\<exists>e. cpu_encoders codec = Some e \<and>
        s = \<lparr>requested_backend = req, actual_backend = ''cpu'', accelerator = ''cpu'',
             video_encoder = e, command_prefix = [], video_filter = None,
             quality_flags = mode_flags cpu_quality_flags ''high_quality'',
             fallback_used = fb, selection_reason = reason, device_path = None\<rparr>)"
  by (auto simp: cpu_selection_def split: option.splits)

lemma accelerated_fields [simp]:
  "requested_backend (accelerated r a acc e c f why d) = r"
  "accelerator (accelerated r a acc e c f why d) = acc"
  "video_encoder (accelerated r a acc e c f why d) = e"
  "fallback_used (accelerated r a acc e c f why d) = False"
  by (simp_all add: accelerated_def)

definition encoder_table :: "string \<Rightarrow> string \<rightharpoonup> string" where
  "encoder_table acc =
     (if acc = ''cpu'' then cpu_encoders else if acc = ''nvenc'' then nvenc_encoders
      else if acc = ''qsv'' then qsv_encoders else if acc = ''vaapi'' then vaapi_encoders
      else if acc = ''amf'' then amf_encoders else Map.empty)"

definition hardware_choice :: "string \<Rightarrow> string \<Rightarrow> selected_backend \<Rightarrow> bool" where
  "hardware_choice requested codec s \<longleftrightarrow>
     requested_backend s = requested \<and> \<not> fallback_used s
     \<and> accelerator s \<in> {''nvenc'', ''qsv'', ''vaapi'', ''amf''}
     \<and> encoder_table (accelerator s) codec = Some (video_encoder s)"

lemma qsv_selection_choice:
  "qsv_selection repr w req codec q = Inr (Some s) \<Longrightarrow> hardware_choice req codec s"
  by (auto simp: qsv_selection_def hardware_choice_def encoder_table_def Let_def
      split: option.splits sum.splits)

lemma vaapi_selection_choice:
  "vaapi_selection repr req act codec why v = Some s \<Longrightarrow> hardware_choice req codec s"
  by (auto simp: vaapi_selection_def hardware_choice_def encoder_table_def split: option.splits)

lemma intel_selection_choice:
  "intel_selection repr w req codec d = Inr (Some s) \<Longrightarrow> hardware_choice req codec s"
  by (auto simp: intel_selection_def Let_def split: sum.splits if_splits
      dest: qsv_selection_choice vaapi_selection_choice)

lemma amd_selection_choice:
  "amd_selection repr req codec d = Inr (Some s) \<Longrightarrow> hardware_choice req codec s"
  by (auto simp: amd_selection_def split: sum.splits if_splits dest: vaapi_selection_choice)
     (auto simp: hardware_choice_def encoder_table_def)

lemma accelerated_selection_choice:
  "accelerated_selection repr w req codec probe = Inr (Some s) \<Longrightarrow>
     hardware_choice req codec s \<and> (\<exists>p. probe = Some p \<and> hp_usable p)"
  by (auto simp: accelerated_selection_def split: option.splits if_splits
      dest: intel_selection_choice amd_selection_choice)
     (auto simp: hardware_choice_def encoder_table_def)

lemma probe_for_Some: "probe_for probes k = Some p \<Longrightarrow> p \<in> set probes \<and> hp_backend p = k"
  unfolding probe_for_def by (auto dest: map_of_SomeD)

text \<open>What a selected backend can be. A CPU request is served by the CPU and is no fallback. Any
  other request is served either by hardware whose probe reported it usable, or, only when
  fallback is allowed, by the CPU and marked as a fallback with a reason; and the encoder is the one
  the accelerator has for the codec.\<close>

theorem selected_backend_cases:
  assumes "select_execution_backend repr w probes preferred allow target = Inr s"
  shows "let req = normalise_backend_preference_key preferred in
      requested_backend s = req
      \<and> encoder_table (accelerator s) (target_encoder_codec target) = Some (video_encoder s)
      \<and> (accelerator s = ''cpu'' \<and> req = ''cpu'' \<and> \<not> fallback_used s
         \<or> accelerator s = ''cpu'' \<and> req \<noteq> ''cpu'' \<and> allow \<and> fallback_used s \<and> selection_reason s \<noteq> None
         \<or> accelerator s \<noteq> ''cpu'' \<and> req \<noteq> ''cpu'' \<and> \<not> fallback_used s
             \<and> (\<exists>p\<in>set probes. hp_backend p = probe_backend_for_preference preferred \<and> hp_usable p))"
proof -
  let ?req = "normalise_backend_preference_key preferred" and ?codec = "target_encoder_codec target"
  let ?probe = "probe_for probes (probe_backend_for_preference (Some ?req))"
  have pb: "probe_backend_for_preference (Some ?req) = probe_backend_for_preference preferred"
    by (simp add: probe_backend_for_preference_def normalise_fixpoint [OF normalise_range] Let_def)
  show ?thesis
  proof (cases "?req = ''cpu''")
    case True
    then show ?thesis using assms
      by (auto simp: select_execution_backend_def Let_def cpu_selection_Inr encoder_table_def)
  next
    case False
    show ?thesis
    proof (cases "accelerated_selection repr w ?req ?codec ?probe")
      case (Inl e)
      then show ?thesis using assms False by (simp add: select_execution_backend_def Let_def)
    next
      case (Inr sel)
      show ?thesis
      proof (cases sel)
        case None
        then show ?thesis using assms False Inr
          by (auto simp: select_execution_backend_def Let_def cpu_selection_Inr encoder_table_def
              split: if_splits)
      next
        case (Some t)
        then have s: "t = s" using assms False Inr by (simp add: select_execution_backend_def Let_def)
        have "hardware_choice ?req ?codec s" "\<exists>p. ?probe = Some p \<and> hp_usable p"
          using accelerated_selection_choice [of repr w ?req ?codec ?probe s] Inr Some s by auto
        then show ?thesis using False probe_for_Some
          by (fastforce simp: hardware_choice_def Let_def pb)
      qed
    qed
  qed
qed


definition no_repr :: "json \<Rightarrow> string" where
  "no_repr v = ''?''"

definition sample_probes :: "hardware_probe list" where
  "sample_probes =
     [\<lparr>hp_backend = ''cpu'', hp_detected = True, hp_usable = True, hp_status = ''healthy'', hp_message = [],
       hp_details = []\<rparr>,
      \<lparr>hp_backend = ''intel_igpu'', hp_detected = True, hp_usable = True, hp_status = ''healthy'',
       hp_message = [],
       hp_details =
         [(''qsv'', JObj [(''usable'', JBool False), (''message'', JStr ''oneVPL smoke test failed.'')]),
          (''vaapi'', JObj [(''usable'', JBool True),
             (''device_paths'', JList [JObj [(''path'', JStr ''/dev/dri/renderD128'')]])])]\<rparr>]"

lemma selected_backend_cases_witness:
  "accelerator (projr (select_execution_backend no_repr False sample_probes (Some ''prefer_intel_igpu'') False (Some ''hevc'')))
     = ''vaapi''
   \<and> (\<exists>p\<in>set sample_probes. hp_backend p = ''intel_igpu'' \<and> hp_usable p)"
proof -
  let ?r = "select_execution_backend no_repr False sample_probes (Some ''prefer_intel_igpu'') False (Some ''hevc'')"
  have "\<not> isl ?r" by code_simp
  then have r: "?r = Inr (projr ?r)" by (simp add: sum.collapse(2))
  have a: "accelerator (projr ?r) = ''vaapi''" by code_simp
  have b: "probe_backend_for_preference (Some ''prefer_intel_igpu'') = ''intel_igpu''" by code_simp
  from selected_backend_cases [OF r] a b show ?thesis by (simp add: Let_def)
qed

lemma encoder_table_codecs:
  "encoder_table acc codec \<noteq> None \<Longrightarrow> codec \<in> {''h264'', ''hevc'', ''av1''}
     \<and> (codec = ''av1'' \<longrightarrow> acc = ''cpu'')"
  by (auto simp: encoder_table_def cpu_encoders_def nvenc_encoders_def qsv_encoders_def
      vaapi_encoders_def amf_encoders_def split: if_splits)

lemma selected_backend_facts:
  "select_execution_backend repr w probes preferred allow target = Inr s \<Longrightarrow>
     \<exists>e. encoder_table (accelerator s) (target_encoder_codec target) = Some e"
  by (auto simp: select_execution_backend_def Let_def cpu_selection_Inr encoder_table_def
      split: if_splits sum.splits option.splits dest!: accelerated_selection_choice)
     (auto simp: hardware_choice_def encoder_table_def split: if_splits)

text \<open>A target codec outside H.264, HEVC and AV1 has no encoder on any path: selection fails
  whatever the hardware and the fallback setting, so the policy codecs MPEG-2 and VP9 can be
  configured but never produced; AV1 is only ever encoded by the CPU.\<close>

theorem unsupported_codec_never_selected:
  "(target_encoder_codec target \<notin> {''h264'', ''hevc'', ''av1''} \<longrightarrow>
      isl (select_execution_backend repr w probes preferred allow target))
   \<and> (\<forall>s. target_encoder_codec target = ''av1''
          \<and> select_execution_backend repr w probes preferred allow target = Inr s \<longrightarrow> accelerator s = ''cpu'')
   \<and> (\<forall>c\<in>{MPEG2, VP9}. target_encoder_codec (Some (video_codec_value c)) \<notin> {''h264'', ''hevc'', ''av1''})"
proof -
  have "list_all (\<lambda>c. target_encoder_codec (Some (video_codec_value c)) \<notin> set [''h264'', ''hevc'', ''av1'']) [MPEG2, VP9]"
    by code_simp
  moreover have "encoder_table (accelerator s) (target_encoder_codec target) \<noteq> None"
    if "select_execution_backend repr w probes preferred allow target = Inr s" for s
    using selected_backend_facts [OF that] by simp
  ultimately show ?thesis using encoder_table_codecs
    by (cases "select_execution_backend repr w probes preferred allow target") fastforce+
qed

lemma unsupported_codec_never_selected_witness:
  "isl (select_execution_backend no_repr False sample_probes (Some ''cpu_only'') True (Some (video_codec_value VP9)))"
proof -
  have "target_encoder_codec (Some (video_codec_value VP9)) \<notin> {''h264'', ''hevc'', ''av1''}" by code_simp
  then show ?thesis using unsupported_codec_never_selected by blast
qed

text \<open>C38: A hardware request with no usable hardware and no fallback is refused with a
  \<open>BackendSelectionError\<close> that names the request, never quietly run on the CPU.\<close>

theorem no_silent_fallback:
  assumes "normalise_backend_preference_key preferred \<noteq> ''cpu''"
    and "\<forall>p\<in>set probes. hp_backend p = probe_backend_for_preference preferred \<longrightarrow> \<not> hp_usable p"
  shows "\<exists>msg. select_execution_backend repr w probes preferred False target =
      Inl (BackendSelectionError msg (normalise_backend_preference_key preferred) False)"
proof -
  let ?req = "normalise_backend_preference_key preferred"
  have "probe_backend_for_preference (Some ?req) = probe_backend_for_preference preferred"
    by (simp add: probe_backend_for_preference_def normalise_fixpoint [OF normalise_range] Let_def)
  then have "accelerated_selection repr w ?req c (probe_for probes (probe_backend_for_preference (Some ?req))) = Inr None" for c
    using assms(2) probe_for_Some by (auto simp: accelerated_selection_def split: option.splits)
  then show ?thesis using assms(1) by (simp add: select_execution_backend_def Let_def)
qed

lemma no_silent_fallback_witness:
  "\<exists>msg. select_execution_backend no_repr False sample_probes (Some ''prefer_nvidia_gpu'') False (Some ''hevc'') =
      Inl (BackendSelectionError msg (normalise_backend_preference_key (Some ''prefer_nvidia_gpu'')) False)"
  by (rule no_silent_fallback; code_simp)

subsection \<open>Quality flags\<close>

definition quality_option :: "string \<Rightarrow> string" where
  "quality_option acc =
     (if acc = ''cpu'' then ''-crf'' else if acc = ''nvenc'' then ''-cq''
      else if acc = ''qsv'' then ''-global_quality'' else if acc = ''vaapi'' then ''-qp'' else ''-qp_i'')"

definition flag_value :: "string list \<Rightarrow> string \<Rightarrow> string option" where
  "flag_value flags opt =
     (case flag_index flags opt of None \<Rightarrow> None | Some i \<Rightarrow> if i + 1 < length flags then Some (flags ! (i + 1)) else None)"

lemmas quality_tables = cpu_quality_flags_def nvenc_quality_flags_def qsv_quality_flags_def
  vaapi_quality_flags_def amf_quality_flags_def

lemma mode_flags_in:
  "mode_flags (map_of [(''high_quality'', a), (''balanced'', b), (''efficient'', c)]) m \<in> {a, b, c}"
  by (auto simp: mode_flags_def get_or_def)

lemma flag_index_update:
  "flag_index xs x = Some i \<Longrightarrow> i < j \<Longrightarrow> flag_index (xs[j := y]) x = Some i"
proof (induction xs arbitrary: i j)
  case (Cons z xs)
  then show ?case by (cases j) (auto split: if_splits)
qed simp

lemma flag_value_replace:
  assumes "flag_value flags opt \<noteq> None"
  shows "flag_value (replace_quality_value flags opt (Some q)) opt = Some (show_int q)"
    "length (replace_quality_value flags opt (Some q)) = length flags"
proof -
  obtain i where i: "flag_index flags opt = Some i" "i + 1 < length flags"
    using assms by (auto simp: flag_value_def split: option.splits if_splits)
  then have "flag_index (flags[i + 1 := show_int q]) opt = Some i"
    by (intro flag_index_update) auto
  with i show "flag_value (replace_quality_value flags opt (Some q)) opt = Some (show_int q)"
    "length (replace_quality_value flags opt (Some q)) = length flags"
    by (simp_all add: replace_quality_value_def flag_value_def)
qed

lemma show_int_no_flag: "show_int q \<noteq> ''-qp_p''"
proof
  assume "show_int q = ''-qp_p''"
  then have "read_int ''-qp_p'' = Some q" by (metis read_int_show_int)
  moreover have "read_int ''-qp_p'' = None" by code_simp
  ultimately show False by simp
qed

lemma quality_options_present:
  "flag_value (mode_flags cpu_quality_flags m) ''-crf'' \<noteq> None"
  "flag_value (mode_flags nvenc_quality_flags m) ''-cq'' \<noteq> None"
  "flag_value (mode_flags qsv_quality_flags m) ''-global_quality'' \<noteq> None"
  "flag_value (mode_flags vaapi_quality_flags m) ''-qp'' \<noteq> None"
  unfolding cpu_quality_flags_def nvenc_quality_flags_def qsv_quality_flags_def vaapi_quality_flags_def
  by (use mode_flags_in [where m = m] in \<open>auto simp: flag_value_def mode_flags_def get_or_def\<close>)

lemma amf_flags_shape: "\<exists>x a b. mode_flags amf_quality_flags m = [''-quality'', x, ''-qp_i'', a, ''-qp_p'', b]
    \<and> x \<in> {''quality'', ''balanced'', ''speed''} \<and> a \<noteq> ''-qp_p'' \<and> a \<noteq> ''-qp_i'' \<and> b \<noteq> ''-qp_i''"
  unfolding amf_quality_flags_def by (simp add: mode_flags_def get_or_def)

text \<open>A configured quality value reaches the encoder: for every accelerator and mode, the flags
  carry exactly that value behind the accelerator's quality option (AMF: also the P-frame value two
  above it, at most 51), and there are as many flags as the mode has; an unknown mode gets the
  flags of \<open>high_quality\<close>.\<close>

theorem quality_value_reaches_encoder:
  assumes "acc \<in> {''cpu'', ''nvenc'', ''qsv'', ''vaapi'', ''amf''}"
  shows "flag_value (quality_flags_for_backend acc mode (Some q)) (quality_option acc) = Some (show_int q)
      \<and> length (quality_flags_for_backend acc mode (Some q)) = length (quality_flags_for_backend acc mode None)
      \<and> (acc = ''amf'' \<longrightarrow>
           flag_value (quality_flags_for_backend acc mode (Some q)) ''-qp_p'' = Some (show_int (min 51 (q + 2))))
      \<and> (or_str mode ''high_quality'' \<notin> {''high_quality'', ''balanced'', ''efficient''} \<longrightarrow>
           quality_flags_for_backend acc mode v = quality_flags_for_backend acc (Some ''high_quality'') v)"
proof -
  have other: "mode_flags (map_of [(''high_quality'', a), (''balanced'', b), (''efficient'', c)]) m = a"
    "mode_flags (map_of [(''high_quality'', a), (''balanced'', b), (''efficient'', c)]) ''high_quality'' = a"
    if "m \<notin> {''high_quality'', ''balanced'', ''efficient''}" for a b c m
    using that by (auto simp: mode_flags_def get_or_def)
  have unknown: "quality_flags_for_backend acc mode v = quality_flags_for_backend acc (Some ''high_quality'') v"
    if "or_str mode ''high_quality'' \<notin> {''high_quality'', ''balanced'', ''efficient''}"
    using other [OF that] by (simp add: quality_flags_for_backend_def Let_def quality_tables)
  obtain x a b where amf: "mode_flags amf_quality_flags (or_str mode ''high_quality'') = [''-quality'', x, ''-qp_i'', a, ''-qp_p'', b]"
    and x: "x \<noteq> ''-qp_i''" "x \<noteq> ''-qp_p''" "a \<noteq> ''-qp_p''" "a \<noteq> ''-qp_i''" "b \<noteq> ''-qp_i''"
    using amf_flags_shape [of "or_str mode ''high_quality''"] by auto
  have known: "flag_value (quality_flags_for_backend acc mode (Some q)) (quality_option acc) = Some (show_int q)
      \<and> length (quality_flags_for_backend acc mode (Some q)) = length (quality_flags_for_backend acc mode None)"
    if "acc \<noteq> ''amf''"
    using assms that quality_options_present flag_value_replace
    by (auto simp: quality_flags_for_backend_def quality_option_def Let_def replace_quality_value_def [of _ _ None])
  have "replace_quality_value [''-quality'', x, ''-qp_i'', a, ''-qp_p'', b] ''-qp_i'' (Some q)
      = [''-quality'', x, ''-qp_i'', show_int q, ''-qp_p'', b]"
    using x by (simp add: replace_quality_value_def)
  moreover have "replace_quality_value [''-quality'', x, ''-qp_i'', show_int q, ''-qp_p'', b] ''-qp_p'' (Some r)
      = [''-quality'', x, ''-qp_i'', show_int q, ''-qp_p'', show_int r]" for r
    using x show_int_no_flag by (simp add: replace_quality_value_def)
  ultimately have "quality_flags_for_backend ''amf'' mode (Some q)
      = [''-quality'', x, ''-qp_i'', show_int q, ''-qp_p'', show_int (min 51 (q + 2))]"
    by (simp add: quality_flags_for_backend_def Let_def amf)
  moreover have "length (quality_flags_for_backend ''amf'' mode None) = 6"
    by (simp add: quality_flags_for_backend_def Let_def amf)
  ultimately show ?thesis using known unknown x show_int_no_flag
    by (cases "acc = ''amf''") (simp_all add: quality_option_def flag_value_def)
qed

lemma quality_value_reaches_encoder_witness:
  "flag_value (quality_flags_for_backend ''amf'' (Some ''balanced'') (Some 50)) ''-qp_p'' = Some (show_int 51)"
proof -
  have "''amf'' \<in> {''cpu'', ''nvenc'', ''qsv'', ''vaapi'', ''amf''}" by simp
  from quality_value_reaches_encoder [OF this, of "Some ''balanced''" 50] show ?thesis by simp
qed

end
