(* ===== verification/Ffmpeg_Builder.thy ===== *)
theory Ffmpeg_Builder
  imports Verification Backend
begin

text \<open>
  The ffmpeg command (\<open>encodr_core/execution/ffmpeg_builder.py\<close>), the outcome of running it
  (\<open>ffmpeg_client.py\<close>) and the runner that turns a plan into an execution result
  (\<open>runner.py\<close>). The process itself is a parameter: \<open>None\<close> when the binary does not exist, else its exit
  code, output and whether cancellation was requested. Progress parsing, threads and time stamps
  are not modelled.
\<close>

record execution_command_plan =
  ec_mode :: string
  ec_input_path :: path
  ec_output_path :: "path option"
  ec_command :: "string list"
  ec_requested_backend :: "string option"
  ec_actual_backend :: "string option"
  ec_actual_accelerator :: "string option"
  ec_fallback_used :: bool
  ec_backend_selection_reason :: "string option"

definition build_temp_output_path :: "path \<Rightarrow> path \<Rightarrow> output_container \<Rightarrow> string option \<Rightarrow> path" where
  "build_temp_output_path input scratch target job_id =
     join_path scratch
       (path_stem input @ ''.'' @ or_str job_id ''pending'' @ ''.tmp.'' @ output_container_value target)"

definition map_flags :: "int list \<Rightarrow> string list" where
  "map_flags indices = concat (map (\<lambda>i. [''-map'', ''0:'' @ show_int i]) indices)"

definition append_selected_stream_maps :: "string list \<Rightarrow> processing_plan \<Rightarrow> string list" where
  "append_selected_stream_maps command p =
     (let s = selected_streams p in
      command @ map_flags (video_stream_indices s) @ map_flags (audio_stream_indices s)
      @ map_flags (subtitle_stream_indices s) @ map_flags (attachment_stream_indices s)
      @ map_flags (data_stream_indices s))"

definition audio_disposition :: "processing_plan \<Rightarrow> int \<Rightarrow> string" where
  "audio_disposition p i =
     (let primary = (case primary_stream_index (plan_audio p) of
                       Some j \<Rightarrow> Some j
                     | None \<Rightarrow> (case audio_stream_indices (selected_streams p) of
                                  [] \<Rightarrow> None | j # _ \<Rightarrow> Some j))
      in if Some i = primary then ''default'' else ''0'')"

definition subtitle_disposition :: "processing_plan \<Rightarrow> int \<Rightarrow> string" where
  "subtitle_disposition p i =
     (if i \<in> set (forced_stream_indices (plan_subtitles p)) then ''forced''
      else if Some i = main_stream_index (plan_subtitles p) then ''default''
      else ''0'')"

definition disposition_flags_for_selected_streams :: "processing_plan \<Rightarrow> string list" where
  "disposition_flags_for_selected_streams p =
     concat (map (\<lambda>(n, i). [''-disposition:a:'' @ show_int (int n), audio_disposition p i])
       (enumerate 0 (audio_stream_indices (selected_streams p))))
     @ concat (map (\<lambda>(n, i). [''-disposition:s:'' @ show_int (int n), subtitle_disposition p i])
         (enumerate 0 (subtitle_stream_indices (selected_streams p))))"

definition remux_reason :: string where
  "remux_reason = ''Remux and strip-only jobs copy streams without video encoding; hardware encoders are not used for this job.''"

definition no_command :: "string \<Rightarrow> path \<Rightarrow> execution_command_plan" where
  "no_command mode input =
     \<lparr>ec_mode = mode, ec_input_path = input, ec_output_path = None, ec_command = [],
      ec_requested_backend = None, ec_actual_backend = None, ec_actual_accelerator = None,
      ec_fallback_used = False, ec_backend_selection_reason = None\<rparr>"

definition build_execution_command_plan ::
    "(json \<Rightarrow> string) \<Rightarrow> bool \<Rightarrow> hardware_probe list \<Rightarrow> processing_plan \<Rightarrow> path \<Rightarrow> path \<Rightarrow> string
     \<Rightarrow> string option \<Rightarrow> string option \<Rightarrow> bool \<Rightarrow> backend_error + execution_command_plan" where
  "build_execution_command_plan repr windows probes p input scratch ffmpeg job_id preferred allow_fallback =
     (if action p = SKIP then Inr (no_command ''skip'' input)
      else if action p = MANUAL_REVIEW then Inr (no_command ''manual_review'' input)
      else
        let out = build_temp_output_path input scratch (target_container (plan_container p)) job_id;
            command = append_selected_stream_maps
              [ffmpeg, ''-y'', ''-i'', as_posix input, ''-nostats'', ''-progress'', ''pipe:1''] p;
            copies = [''-c:a'', ''copy'', ''-c:s'', ''copy'', ''-c:t'', ''copy'', ''-c:d'', ''copy''];
            tail = disposition_flags_for_selected_streams p @ [as_posix out]
        in
        if action p = REMUX then
          Inr \<lparr>ec_mode = ''remux'', ec_input_path = input, ec_output_path = Some out,
               ec_command = command @ [''-c:v'', ''copy''] @ copies @ tail,
               ec_requested_backend = Some ''cpu'', ec_actual_backend = Some ''cpu'',
               ec_actual_accelerator = Some ''cpu'', ec_fallback_used = False,
               ec_backend_selection_reason = Some remux_reason\<rparr>
        else case select_execution_backend repr windows probes preferred allow_fallback
                    (target_codec (plan_video p)) of
          Inl e \<Rightarrow> Inl e
        | Inr b \<Rightarrow>
            Inr \<lparr>ec_mode = ''transcode'', ec_input_path = input, ec_output_path = Some out,
                 ec_command = take 1 command @ command_prefix b @ drop 1 command
                   @ (if truthy (video_filter b) then [''-vf'', or_str (video_filter b) []] else [])
                   @ [''-c:v'', video_encoder b] @ copies
                   @ quality_flags_for_backend (accelerator b) (quality_mode (plan_video p))
                       (quality_crf (plan_video p))
                   @ tail,
                 ec_requested_backend = Some (requested_backend b),
                 ec_actual_backend = Some (actual_backend b),
                 ec_actual_accelerator = Some (accelerator b),
                 ec_fallback_used = fallback_used b,
                 ec_backend_selection_reason = selection_reason b\<rparr>)"

subsection \<open>Running\<close>

record process_outcome =
  po_exit_code :: int
  po_stdout :: string
  po_stderr :: string
  po_cancelled :: bool

datatype execution_error = FFmpegBinaryNotFoundError | ExecutionCancelledError int | FFmpegProcessError int

record execution_result =
  er_mode :: string
  er_status :: string
  er_command :: "string list"
  er_output_path :: "path option"
  er_exit_code :: "int option"
  er_stdout :: "string option"
  er_stderr :: "string option"
  er_failure_message :: "string option"
  er_failure_category :: "string option"
  er_requested_backend :: "string option"
  er_actual_backend :: "string option"
  er_actual_accelerator :: "string option"
  er_backend_fallback_used :: bool
  er_backend_selection_reason :: "string option"

definition ffmpeg_run ::
    "(string list \<Rightarrow> process_outcome option) \<Rightarrow> execution_command_plan \<Rightarrow> execution_error + execution_result" where
  "ffmpeg_run spawn c =
     (case spawn (ec_command c) of
        None \<Rightarrow> Inl FFmpegBinaryNotFoundError
      | Some r \<Rightarrow>
          if po_cancelled r then Inl (ExecutionCancelledError (po_exit_code r))
          else if po_exit_code r \<noteq> 0 then Inl (FFmpegProcessError (po_exit_code r))
          else Inr \<lparr>er_mode = ec_mode c, er_status = ''completed'', er_command = ec_command c,
                    er_output_path = ec_output_path c, er_exit_code = Some (po_exit_code r),
                    er_stdout = Some (po_stdout r), er_stderr = Some (po_stderr r),
                    er_failure_message = None, er_failure_category = None,
                    er_requested_backend = ec_requested_backend c,
                    er_actual_backend = ec_actual_backend c,
                    er_actual_accelerator = ec_actual_accelerator c,
                    er_backend_fallback_used = ec_fallback_used c,
                    er_backend_selection_reason = ec_backend_selection_reason c\<rparr>)"

definition idle_result :: "string \<Rightarrow> string \<Rightarrow> execution_result" where
  "idle_result mode status =
     \<lparr>er_mode = mode, er_status = status, er_command = [], er_output_path = None, er_exit_code = None,
      er_stdout = None, er_stderr = None, er_failure_message = None, er_failure_category = None,
      er_requested_backend = None, er_actual_backend = None, er_actual_accelerator = None,
      er_backend_fallback_used = False, er_backend_selection_reason = None\<rparr>"

datatype runner_error = ClientError execution_error | LookupFailure

definition execute_plan ::
    "(json \<Rightarrow> string) \<Rightarrow> bool \<Rightarrow> hardware_probe list \<Rightarrow> (string list \<Rightarrow> process_outcome option)
     \<Rightarrow> processing_plan \<Rightarrow> path \<Rightarrow> path \<Rightarrow> string \<Rightarrow> string option \<Rightarrow> string option \<Rightarrow> bool
     \<Rightarrow> runner_error + execution_result" where
  "execute_plan repr windows probes spawn p input scratch ffmpeg job_id preferred allow_fallback =
     (case build_execution_command_plan repr windows probes p input scratch ffmpeg job_id preferred
             allow_fallback of
        Inl (BackendSelectionError msg requested allowed) \<Rightarrow>
          Inr ((idle_result ''failed'' ''failed'')
                 \<lparr>er_failure_message := Some msg, er_failure_category := Some ''backend_unavailable'',
                  er_requested_backend := Some requested, er_backend_selection_reason := Some msg\<rparr>)
      | Inl AttributeError \<Rightarrow> Inl LookupFailure
      | Inl ItemError \<Rightarrow> Inl LookupFailure
      | Inr c \<Rightarrow>
          if action p = SKIP then Inr (idle_result ''skip'' ''skipped'')
          else if action p = MANUAL_REVIEW then Inr (idle_result ''manual_review'' ''manual_review'')
          else case ffmpeg_run spawn c of
                 Inl e \<Rightarrow> Inl (ClientError e)
               | Inr r \<Rightarrow> Inr (r\<lparr>er_status := ''staged''\<rparr>))"


subsection \<open>An ideal mux passes verification\<close>

text \<open>
  What ffmpeg makes of the command, as its manual describes stream maps, stream copies and the
  disposition option: the mapped streams in the order of the maps, audio and subtitles unchanged
  but for the dispositions set, the video in the target codec when it is encoded.
\<close>

definition muxed_audio :: "processing_plan \<Rightarrow> media_file \<Rightarrow> audio_stream \<Rightarrow> int \<Rightarrow> bool" where
  "muxed_audio p m o' i =
     (case by_index (audio_streams m) i of
        None \<Rightarrow> False
      | Some s \<Rightarrow> language o' = language s \<and> codec_name o' = codec_name s \<and> channels o' = channels s
          \<and> is_surround_candidate o' = is_surround_candidate s \<and> is_atmos_capable o' = is_atmos_capable s
          \<and> (d_default (disposition o') \<longleftrightarrow> audio_disposition p i = ''default''))"

definition muxed_subtitle :: "processing_plan \<Rightarrow> media_file \<Rightarrow> subtitle_stream \<Rightarrow> int \<Rightarrow> bool" where
  "muxed_subtitle p m o' i =
     (case by_index (subtitle_streams m) i of
        None \<Rightarrow> False
      | Some s \<Rightarrow> language o' = language s \<and> codec_name o' = codec_name s
          \<and> (d_forced (disposition o') \<longleftrightarrow> subtitle_disposition p i = ''forced'')
          \<and> is_forced o' = d_forced (disposition o')
          \<and> (d_default (disposition o') \<longleftrightarrow> subtitle_disposition p i = ''default''))"

definition muxed_video :: "processing_plan \<Rightarrow> media_file \<Rightarrow> video_stream \<Rightarrow> int \<Rightarrow> bool" where
  "muxed_video p m o' i =
     (case by_index (video_streams m) i of
        None \<Rightarrow> False
      | Some v \<Rightarrow> codec_name o' =
          (if transcode_required (plan_video p) then target_codec (plan_video p) else codec_name v))"

definition muxed_from :: "processing_plan \<Rightarrow> media_file \<Rightarrow> media_file \<Rightarrow> bool" where
  "muxed_from p m out \<longleftrightarrow>
     (let sel = selected_streams p in
      extension out = Some (target_container_extension (target_container (plan_container p)))
      \<and> list_all2 (muxed_video p m) (video_streams out) (video_stream_indices sel)
      \<and> list_all2 (muxed_audio p m) (audio_streams out) (audio_stream_indices sel)
      \<and> list_all2 (muxed_subtitle p m) (subtitle_streams out) (subtitle_stream_indices sel)
      \<and> length (attachment_streams out) = length (attachment_stream_indices sel)
      \<and> length (data_streams out) = length (data_stream_indices sel)
      \<and> unknown_streams out = []
      \<and> has_surround_audio out = list_ex is_surround_candidate (audio_streams out)
      \<and> has_atmos_capable_audio out = list_ex is_atmos_capable (audio_streams out)
      \<and> (preserve_original (plan_video p) \<longrightarrow> is_4k out = is_4k m))"

lemma list_all2_map2: "list_all2 P xs (map f ys) \<longleftrightarrow> list_all2 (\<lambda>x y. P x (f y)) xs ys"
  by (simp add: list_all2_map2)

lemma list_index_map:
  "distinct (map f ys) \<Longrightarrow> k < length ys \<Longrightarrow> list_index (map f ys) (f (ys ! k)) = Some k"
proof (induction ys arbitrary: k)
  case (Cons y ys)
  then show ?case by (cases k) (auto dest: nth_mem)
qed simp

lemma default_exactly_at_all2:
  assumes "list_all2 (\<lambda>o' y. d_default (disposition o') \<longleftrightarrow> f y = c) os ys"
    and "distinct (map f ys)" "list_index (map f ys) c = Some k"
  shows "default_exactly_at k os"
proof -
  have k: "k < length ys \<and> f (ys ! k) = c" using assms(3)
  proof (induction ys arbitrary: k)
    case (Cons y ys)
    then show ?case by (cases k) (auto split: if_splits)
  qed simp
  have "d_default (disposition (os ! i)) \<longleftrightarrow> i = k" if "i < length os" for i
  proof -
    have "d_default (disposition (os ! i)) \<longleftrightarrow> f (ys ! i) = c" "i < length ys"
      using assms(1) that by (auto simp: list_all2_conv_all_nth)
    then show ?thesis using k assms(2) nth_eq_iff_index_eq [OF assms(2), of i k] by auto
  qed
  then show ?thesis by (simp add: default_exactly_at_nth)
qed

lemma list_index_in: "x \<in> set xs \<Longrightarrow> \<exists>k. list_index xs x = Some k"
  by (induction xs) auto

lemma all2_languages:
  "list_all2 (\<lambda>o' s. language o' = language s \<and> P o' s) os ss \<Longrightarrow> output_languages os = output_languages ss"
  by (induction rule: list_all2_induct) (auto simp: output_languages_def)

lemma unique_languages_set: "set (unique_languages (map language ss)) = set (output_languages ss)"
  by (auto simp: ul.set_dedup output_languages_def)

text \<open>An automatic plan of the planner and the file an ideal mux makes of it.\<close>

definition mux_run :: "media_file \<Rightarrow> language_preferences \<Rightarrow> resolved_planning_policy \<Rightarrow> processing_plan \<Rightarrow> media_file \<Rightarrow> bool" where
  "mux_run m lp rp p out \<longleftrightarrow>
     p = build_resolved_plan m lp rp \<and> action p \<noteq> MANUAL_REVIEW \<and> 0 < max_tracks_to_keep (rp_audio_rules rp)
     \<and> distinct (map index (audio_streams m)) \<and> distinct (map index (subtitle_streams m))
     \<and> muxed_from p m out
     \<and> (\<forall>s\<in>set (selected_subtitles m (rp_subtitle_rules rp) lp).
          d_forced (disposition s) \<or> is_forced s \<longrightarrow>
            d_forced (disposition s) \<and> s \<in> set (forced_candidates m (rp_subtitle_rules rp) lp))"

lemma mux_runD:
  assumes "mux_run m lp rp p out"
  shows "p = build_resolved_plan m lp rp" "action p \<noteq> MANUAL_REVIEW" "0 < max_tracks_to_keep (rp_audio_rules rp)"
    "distinct (map index (audio_streams m))" "distinct (map index (subtitle_streams m))" "muxed_from p m out"
  using assms by (auto simp: mux_run_def)

lemma mux_audio:
  assumes "mux_run m lp rp p out"
  shows "list_all2 (\<lambda>o' s. language o' = language s \<and> codec_name o' = codec_name s \<and> channels o' = channels s
       \<and> is_surround_candidate o' = is_surround_candidate s \<and> is_atmos_capable o' = is_atmos_capable s
       \<and> (d_default (disposition o') \<longleftrightarrow> audio_disposition p (index s) = ''default''))
     (audio_streams out) (selected_audio m (rp_audio_rules rp))"
proof -
  note r = mux_runD [OF assms]
  have sub: "set (selected_audio m (rp_audio_rules rp)) \<subseteq> set (audio_streams m)"
    using selected_audio_subset selectable_subset by blast
  have "list_all2 (\<lambda>o' s. muxed_audio p m o' (index s)) (audio_streams out) (selected_audio m (rp_audio_rules rp))"
    using r(6) unfolding muxed_from_def Let_def resolved_audio_indices(1) [OF r(1,2)] list_all2_map2 by blast
  then show ?thesis
    by (rule list.rel_mono_strong) (use by_index_distinct [OF r(4)] sub in \<open>auto simp: muxed_audio_def\<close>)
qed

lemma mux_subtitle:
  assumes "mux_run m lp rp p out"
  shows "list_all2 (\<lambda>o' s. language o' = language s \<and> codec_name o' = codec_name s
       \<and> (d_forced (disposition o') \<longleftrightarrow> subtitle_disposition p (index s) = ''forced'')
       \<and> is_forced o' = d_forced (disposition o')
       \<and> (d_default (disposition o') \<longleftrightarrow> subtitle_disposition p (index s) = ''default''))
     (subtitle_streams out) (selected_subtitles m (rp_subtitle_rules rp) lp)"
proof -
  note r = mux_runD [OF assms]
  note sub = selected_subtitles_subset [of m "rp_subtitle_rules rp" lp]
  have "list_all2 (\<lambda>o' s. muxed_subtitle p m o' (index s)) (subtitle_streams out)
      (selected_subtitles m (rp_subtitle_rules rp) lp)"
    using r(6) unfolding muxed_from_def Let_def resolved_audio_indices(2) [OF r(1,2)] list_all2_map2 by blast
  then show ?thesis
    by (rule list.rel_mono_strong) (use by_index_distinct [OF r(5)] sub in \<open>auto simp: muxed_subtitle_def\<close>)
qed

lemma mux_forced_disposition:
  assumes "mux_run m lp rp p out" "s \<in> set (selected_subtitles m (rp_subtitle_rules rp) lp)"
  shows "subtitle_disposition p (index s) = ''forced'' \<longleftrightarrow> s \<in> set (forced_candidates m (rp_subtitle_rules rp) lp)"
    "subtitle_disposition p (index s) = ''forced'' \<longleftrightarrow> d_forced (disposition s) \<or> is_forced s"
proof -
  note r = mux_runD [OF assms(1)]
  have inj: "inj_on index (set (subtitle_streams m))" using r(5) by (simp add: distinct_map)
  have f: "set (forced_candidates m (rp_subtitle_rules rp) lp) \<subseteq> set (subtitle_streams m)"
    by (auto simp: forced_candidates_def)
  have s: "s \<in> set (subtitle_streams m)" using assms(2) selected_subtitles_subset by blast
  have "subtitle_disposition p (index s) = ''forced'' \<longleftrightarrow>
      index s \<in> index ` set (forced_candidates m (rp_subtitle_rules rp) lp)"
    by (simp add: subtitle_disposition_def r(1) resolved_plan_fields(3) select_subtitle_fields)
  also have "\<dots> \<longleftrightarrow> s \<in> set (forced_candidates m (rp_subtitle_rules rp) lp)"
    by (rule inj_on_image_mem_iff [OF inj s f])
  finally show c: "subtitle_disposition p (index s) = ''forced'' \<longleftrightarrow>
      s \<in> set (forced_candidates m (rp_subtitle_rules rp) lp)" .
  have "s \<in> set (forced_candidates m (rp_subtitle_rules rp) lp) \<Longrightarrow> d_forced (disposition s)"
    by (auto simp: forced_candidates_def split: if_splits)
  then show "subtitle_disposition p (index s) = ''forced'' \<longleftrightarrow> d_forced (disposition s) \<or> is_forced s"
    using assms unfolding c mux_run_def by blast
qed

lemma mux_selection:
  assumes "mux_run m lp rp p out"
  shows "audio_stream_selection_matches_plan m p out" "subtitle_stream_selection_matches_plan m p out"
proof -
  note r = mux_runD [OF assms]
  have a: "list_all2 audio_stream_matches (audio_streams out) (selected_audio m (rp_audio_rules rp))"
    using mux_audio [OF assms] by (rule list_all2_mono) (simp add: audio_stream_matches_def)
  have s: "list_all2 subtitle_stream_matches (subtitle_streams out) (selected_subtitles m (rp_subtitle_rules rp) lp)"
    using mux_subtitle [OF assms]
    by (rule list.rel_mono_strong) (simp add: subtitle_stream_matches_def mux_forced_disposition(2) [OF assms])
  show "audio_stream_selection_matches_plan m p out" "subtitle_stream_selection_matches_plan m p out"
    using a s by (simp_all add: audio_stream_selection_matches_plan_def subtitle_stream_selection_matches_plan_def
        Let_def resolved_planned [OF r(1,2,4,5)] resolved_audio_indices(1,2) [OF r(1,2)]
        list_all2_zip list_all2_lengthD)
qed


lemma mux_default_audio:
  assumes "mux_run m lp rp p out"
  shows "audio_default_disposition_matches_plan p out"
proof -
  note r = mux_runD [OF assms]
  let ?sel = "selected_audio m (rp_audio_rules rp)"
  obtain s ss where s: "?sel = s # ss" "primary_stream_index (plan_audio p) = Some (index s)"
    using resolved_primary [OF r(1-3)] .
  note idx = resolved_audio_indices(1) [OF r(1,2)]
  have "inj_on index (set ?sel)"
    using r(4) selected_audio_subset selectable_subset by (meson distinct_map inj_on_subset)
  then have d: "distinct (map index ?sel)" by (simp add: distinct_map selected_audio_distinct)
  have "list_all2 (\<lambda>o' t. d_default (disposition o') \<longleftrightarrow> index t = index s) (audio_streams out) ?sel"
    using mux_audio [OF assms] by (rule list_all2_mono) (auto simp: audio_disposition_def s)
  from default_exactly_at_all2 [OF this d, of 0] show ?thesis
    by (simp add: audio_default_disposition_matches_plan_def idx s)
qed

lemma main_subtitle_selected:
  "s \<in> set (main_subtitles m r) \<Longrightarrow> s \<in> set (selected_subtitles m r lr)"
  using main_subtitles_subset [of m r] by (auto simp: selected_subtitles_set main_candidates_def)

lemma mux_default_subtitle:
  assumes "mux_run m lp rp p out"
  shows "subtitle_default_disposition_matches_plan p out"
proof -
  note r = mux_runD [OF assms]
  let ?r = "rp_subtitle_rules rp" and ?sel = "selected_subtitles m (rp_subtitle_rules rp) lp"
  note idx = resolved_audio_indices(2) [OF r(1,2)]
  note sub = mux_subtitle [OF assms]
  have main: "main_stream_index (plan_subtitles p) =
      (case main_subtitles m ?r of [] \<Rightarrow> None | s # _ \<Rightarrow> Some (index s))"
    by (simp add: r(1) resolved_plan_fields(3) select_subtitle_fields)
  have inj: "inj_on index (set (subtitle_streams m))" using r(5) by (simp add: distinct_map)
  have d: "distinct (map index ?sel)"
    using inj selected_subtitles_subset [of m ?r lp] selected_subtitles_distinct r(5)
    by (auto simp: distinct_map intro: inj_on_subset)
  show ?thesis
  proof (cases "main_subtitles m ?r")
    case Nil
    then have "main_stream_index (plan_subtitles p) = None" by (simp add: main)
    then have "subtitle_disposition p i \<noteq> ''default''" for i by (simp add: subtitle_disposition_def)
    then have "list_all2 (\<lambda>o' s. \<not> d_default (disposition o')) (subtitle_streams out) ?sel"
      using sub by (auto elim!: list_all2_mono)
    then have "\<not> list_ex (\<lambda>s. d_default (disposition s)) (subtitle_streams out)"
      by (auto simp: list_ex_iff list_all2_conv_all_nth in_set_conv_nth)
    then show ?thesis by (simp add: subtitle_default_disposition_matches_plan_def main Nil)
  next
    case (Cons t ts)
    have ts: "t \<in> set ?sel" using main_subtitle_selected Cons by (metis list.set_intros(1))
    have "t \<in> set (main_candidates m ?r)" using main_subtitles_subset [of m ?r] Cons by auto
    then have nf: "subtitle_disposition p (index t) \<noteq> ''forced''"
      unfolding mux_forced_disposition(1) [OF assms ts]
      by (auto simp: main_candidates_def forced_candidates_def split: if_splits)
    have "subtitle_disposition p (index s) = ''default'' \<longleftrightarrow> index s = index t" for s
      using nf by (auto simp: subtitle_disposition_def main Cons split: if_splits)
    then have a2: "list_all2 (\<lambda>o' s. d_default (disposition o') \<longleftrightarrow> index s = index t) (subtitle_streams out) ?sel"
      using sub by (auto elim!: list_all2_mono)
    obtain k where k: "list_index (map index ?sel) (index t) = Some k"
      using list_index_in [of "index t" "map index ?sel"] ts by auto
    from default_exactly_at_all2 [OF a2 d k] k ts show ?thesis
      by (auto simp: subtitle_default_disposition_matches_plan_def idx main Cons Let_def)
  qed
qed

lemma mux_required_audio:
  assumes "mux_run m lp rp p out"
  shows "has_required_audio p out"
proof -
  note r = mux_runD [OF assms]
  have sel: "selectable_audio_streams m (rp_audio_rules rp) \<noteq> []" by (rule resolved_audio_indices(4) [OF r(1,2)])
  then have req: "a_required_language_codes (plan_audio p) =
      unique_languages (map language (selected_audio m (rp_audio_rules rp)))"
    by (auto simp: r(1) resolved_plan_fields(2) select_audio_streams_def Let_def
        selectable_audio_streams_def candidate_audio_streams_def)
  have "output_languages (audio_streams out) = output_languages (selected_audio m (rp_audio_rules rp))"
    by (rule all2_languages [OF mux_audio [OF assms]])
  then have "list_all (\<lambda>l. l \<in> set (output_languages (audio_streams out))) (a_required_language_codes (plan_audio p))"
    by (simp add: req list_all_iff unique_languages_set)
  moreover have "a_required_language_codes (plan_audio p) \<noteq> []"
    using selected_audio_nonempty [OF sel r(3)] by (simp add: req)
  ultimately show ?thesis by (simp add: has_required_audio_def)
qed

lemma mux_required_subtitles:
  assumes "mux_run m lp rp p out"
  shows "has_required_subtitles p out"
proof -
  note r = mux_runD [OF assms]
  let ?r = "rp_subtitle_rules rp" and ?sel = "selected_subtitles m (rp_subtitle_rules rp) lp"
  let ?forced = "forced_candidates m ?r lp"
  let ?of = "filter (\<lambda>s. d_forced (disposition s) \<or> is_forced s) (subtitle_streams out)"
  note sub = mux_subtitle [OF assms]
  have i: "s_selected (plan_subtitles p) = map index ?sel"
    "s_required_language_codes (plan_subtitles p) = unique_languages (map language ?sel)"
    "forced_stream_indices (plan_subtitles p) = map index ?forced"
    "s_required_forced_language_codes (plan_subtitles p) = unique_languages (map language ?forced)"
    by (simp_all add: r(1) resolved_plan_fields(3) select_subtitle_fields)
  have langs: "output_languages (subtitle_streams out) = output_languages ?sel"
    by (rule all2_languages [OF sub])
  have fl: "set (output_languages ?forced) \<subseteq> set (output_languages ?of)"
  proof
    fix l assume "l \<in> set (output_languages ?forced)"
    then obtain s where s: "s \<in> set ?forced" "l = language_code (language s)" by (auto simp: output_languages_def)
    then have ss: "s \<in> set ?sel"
      by (auto simp: selected_subtitles_set forced_candidates_def split: if_splits)
    then obtain k where k: "k < length ?sel" "?sel ! k = s" by (auto simp: in_set_conv_nth)
    have len: "length (subtitle_streams out) = length ?sel" using list_all2_lengthD [OF sub] .
    let ?o = "subtitle_streams out ! k"
    have o': "language ?o = language s" "d_forced (disposition ?o)"
      using list_all2_nthD2 [OF sub k(1)] k(2) mux_forced_disposition(1) [OF assms ss] s(1) by auto
    have "?o \<in> set ?of" using o' k len by simp
    then have "language_code (language ?o) \<in> set (output_languages ?of)"
      unfolding output_languages_def set_map by (rule imageI)
    then show "l \<in> set (output_languages ?of)" using o' s(2) by simp
  qed
  have nonempty: "subtitle_streams out \<noteq> []" if "?sel \<noteq> []"
    using that list_all2_lengthD [OF sub] by auto
  show ?thesis
    using fl nonempty
    by (auto simp: has_required_subtitles_def Let_def i langs list_all_iff unique_languages_set subset_iff)
qed

lemma mux_rest:
  assumes "mux_run m lp rp p out"
  shows "output_container_matches out (target_container (plan_container p))"
    "has_expected_selected_stream_shape p out" "has_required_video p out" "retains_required_4k m p out"
    "retains_required_surround p out" "retains_required_atmos p out"
proof -
  note r = mux_runD [OF assms] and a = mux_audio [OF assms]
  show "output_container_matches out (target_container (plan_container p))"
    using r(6) by (simp add: muxed_from_def Let_def output_container_matches_def target_container_extension_def)
  show shape: "has_expected_selected_stream_shape p out"
    using r(6) by (auto simp: muxed_from_def Let_def has_expected_selected_stream_shape_def
        list_all2_lengthD r(1) resolved_plan_fields(7))
  show "retains_required_4k m p out"
    using r(6) by (simp add: muxed_from_def Let_def retains_required_4k_def)
  obtain v where v: "video_streams m = [v]"
    using resolved_audio_indices(3) [OF r(1,2)] by (auto simp: length_Suc_conv)
  have "video_stream_indices (selected_streams p) = [index v]"
    using v by (simp add: r(1) resolved_plan_fields(7) video_primary)
  then obtain w where "video_streams out = [w]" "muxed_video p m w (index v)"
    using r(6) by (auto simp: muxed_from_def Let_def list_all2_Cons2)
  then show "has_required_video p out"
    by (auto simp: has_required_video_def muxed_video_def split: option.splits)
  have sel: "selectable_audio_streams m (rp_audio_rules rp) \<noteq> []" by (rule resolved_audio_indices(4) [OF r(1,2)])
  then have kept: "preserved_surround (plan_audio p) =
        map index (filter is_surround_candidate (selected_audio m (rp_audio_rules rp)))"
      "preserved_atmos (plan_audio p) =
        map index (filter is_atmos_capable (selected_audio m (rp_audio_rules rp)))"
    by (auto simp: r(1) resolved_plan_fields(2) select_audio_streams_def Let_def
        selectable_audio_streams_def candidate_audio_streams_def)
  have ex: "\<exists>o'\<in>set (audio_streams out). (is_surround_candidate s \<longrightarrow> is_surround_candidate o')
       \<and> (is_atmos_capable s \<longrightarrow> is_atmos_capable o')"
    if sm: "s \<in> set (selected_audio m (rp_audio_rules rp))" for s
  proof -
    obtain k where k: "k < length (selected_audio m (rp_audio_rules rp))" "selected_audio m (rp_audio_rules rp) ! k = s"
      using sm by (metis in_set_conv_nth)
    have "is_surround_candidate (audio_streams out ! k) = is_surround_candidate s"
      "is_atmos_capable (audio_streams out ! k) = is_atmos_capable s"
      using list_all2_nthD2 [OF a k(1)] unfolding k(2) by blast+
    moreover have "audio_streams out ! k \<in> set (audio_streams out)"
      using k(1) list_all2_lengthD [OF a] by simp
    ultimately show ?thesis by blast
  qed
  have flags: "has_surround_audio out \<longleftrightarrow> (\<exists>o'\<in>set (audio_streams out). is_surround_candidate o')"
    "has_atmos_capable_audio out \<longleftrightarrow> (\<exists>o'\<in>set (audio_streams out). is_atmos_capable o')"
    using r(6) by (simp_all add: muxed_from_def Let_def list_ex_iff)
  have "has_surround_audio out" if "preserved_surround (plan_audio p) \<noteq> []"
    using that ex unfolding kept flags(1) by (fastforce simp: filter_empty_conv)
  then show "retains_required_surround p out" by (simp add: retains_required_surround_def)
  have "has_atmos_capable_audio out" if "preserved_atmos (plan_audio p) \<noteq> []"
    using that ex unfolding kept flags(2) by (fastforce simp: filter_empty_conv)
  then show "retains_required_atmos p out" by (simp add: retains_required_atmos_def)
qed




subsection \<open>The command reads back\<close>

fun read_maps :: "string list \<Rightarrow> int list" where
  "read_maps (f # v # rest) =
     (if f = ''-map'' then (case read_int (drop 2 v) of None \<Rightarrow> [] | Some i \<Rightarrow> i # read_maps rest) else [])"
| "read_maps _ = []"

lemma read_maps_map_flags: "read_maps (map_flags is @ rest) = is @ read_maps rest"
  by (induction "is") (simp_all add: map_flags_def)

fun read_dispositions :: "string \<Rightarrow> nat \<Rightarrow> string list \<Rightarrow> string list" where
  "read_dispositions kind n (f # v # rest) =
     (if f = ''-disposition:'' @ kind @ '':'' @ show_int (int n) then v # read_dispositions kind (Suc n) rest else [])"
| "read_dispositions kind n _ = []"

lemma read_dispositions_flags:
  "read_dispositions kind n (concat (map (\<lambda>(k, i). [''-disposition:'' @ kind @ '':'' @ show_int (int k), f i])
       (enumerate n is))) = map f is"
  by (induction "is" arbitrary: n) simp_all



text \<open>The temporary output is a file of the scratch folder whose name has the tag \<open>.tmp.\<close>.\<close>

definition temp_output_name :: "path \<Rightarrow> output_container \<Rightarrow> string option \<Rightarrow> string" where
  "temp_output_name input target job_id =
     path_stem input @ ''.'' @ or_str job_id ''pending'' @ ''.tmp.'' @ output_container_value target"

lemma temp_output_shape:
  assumes "wf_path input" "path_name input \<noteq> []"
    and "case job_id of None \<Rightarrow> True | Some j \<Rightarrow> CHR ''/'' \<notin> set j"
  shows "build_temp_output_path input scratch target job_id
    = scratch\<lparr>parts := parts scratch @ [temp_output_name input target job_id]\<rparr>"
proof -
  let ?n = "temp_output_name input target job_id"
  have "path_name input \<in> set (parts input)" using assms(2) by (auto simp: path_name_def split: if_splits)
  then have "CHR ''/'' \<notin> set (path_name input)" using no_slash [OF assms(1)] by blast
  then have st: "CHR ''/'' \<notin> set (path_stem input)" using set_name_stem by (auto simp: path_stem_def)
  have ne: "path_stem input \<noteq> []" using assms(2) by (simp add: path_stem_def name_stem_nonempty)
  have tok: "CHR ''/'' \<notin> set (or_str job_id ''pending'')"
    using assms(3) by (cases job_id) auto
  have ext: "CHR ''/'' \<notin> set (output_container_value target)" by (cases target) auto
  have ns: "CHR ''/'' \<notin> set ?n" using st tok ext by (simp add: temp_output_name_def)
  then have "split_root ?n = ([], ?n)" using ne by (cases "path_stem input") (auto simp: split_root_def temp_output_name_def)
  moreover have "keep_part ?n" using ne by (auto simp: keep_part_def temp_output_name_def append_eq_Cons_conv)
  ultimately have "path_of ?n = \<lparr>root = [], parts = [?n]\<rparr>"
    using split_on_plain [OF ns] by (simp add: path_of_def)
  then show ?thesis by (simp add: build_temp_output_path_def join_path_def temp_output_name_def)
qed

lemma temp_tag_in_name: "py_in ''.tmp.'' (py_lower (temp_output_name input target job_id))"
proof -
  have "py_lower ''.tmp.'' = ''.tmp.''" by code_simp
  then have "py_lower (temp_output_name input target job_id) =
      (py_lower (path_stem input) @ py_lower ''.'' @ py_lower (or_str job_id ''pending'')) @ ''.tmp.''
      @ py_lower (output_container_value target)"
    by (simp only: temp_output_name_def py_lower_append append_assoc)
  then show ?thesis unfolding py_in_sublist by (metis sublist_appendI)
qed

text \<open>Every staged output is recognised as Encodr's own: whatever the input, job and container, the
  temporary name is one the exclusion rules refuse to process, and it lies in the scratch folder.\<close>

theorem temp_output_is_excluded:
  assumes "wf_path input" "path_name input \<noteq> []"
    and "case job_id of None \<Rightarrow> True | Some j \<Rightarrow> CHR ''/'' \<notin> set j"
  shows "parent (build_temp_output_path input scratch target job_id) = scratch
      \<and> is_encodr_excluded_path resolve (build_temp_output_path input scratch target job_id) sd"
proof -
  note shape = temp_output_shape [OF assms, of scratch target]
  have name: "path_name (build_temp_output_path input scratch target job_id) = temp_output_name input target job_id"
    by (simp add: shape path_name_def)
  have "is_encodr_excluded_path resolve (build_temp_output_path input scratch target job_id) sd"
    unfolding is_encodr_excluded_path_def encodr_exclusion_reason_def Let_def name using temp_tag_in_name by simp
  then show ?thesis by (simp add: shape parent_def)
qed

lemma temp_output_is_excluded_witness:
  "is_encodr_excluded_path Some
     (build_temp_output_path (path_of ''/media/a.mkv'') (path_of ''/scratch'') MKV (Some ''42'')) None"
proof -
  have "wf_path (path_of ''/media/a.mkv'')" by (rule wf_path_of)
  moreover have "path_name (path_of ''/media/a.mkv'') \<noteq> []" by code_simp
  ultimately show ?thesis using temp_output_is_excluded [of _ "Some ''42''" "path_of ''/scratch''" MKV Some None] by simp
qed

text \<open>The runner: a skip or review plan never starts ffmpeg; a staged result means a remux or
  transcode plan whose process ran to exit code 0 without being cancelled, and carries the temporary
  output path; anything else is an error or a failed result with a category.\<close>

theorem runner_outcomes:
  assumes "execute_plan repr w probes spawn p input scratch ffmpeg job preferred allow = Inr r"
  shows "(action p \<in> {SKIP, MANUAL_REVIEW} \<longrightarrow>
            er_status r = (if action p = SKIP then ''skipped'' else ''manual_review'') \<and> er_command r = []
            \<and> er_output_path r = None
            \<and> (\<forall>spawn'. execute_plan repr w probes spawn' p input scratch ffmpeg job preferred allow = Inr r))
      \<and> (action p \<in> {REMUX, TRANSCODE} \<longrightarrow>
           (er_status r = ''staged''
            \<and> er_output_path r = Some (build_temp_output_path input scratch (target_container (plan_container p)) job)
            \<and> (\<exists>o'. spawn (er_command r) = Some o' \<and> po_exit_code o' = 0 \<and> \<not> po_cancelled o'))
           \<or> (action p = TRANSCODE \<and> er_status r = ''failed'' \<and> er_failure_category r = Some ''backend_unavailable''
              \<and> er_command r = []))"
  using assms
  by (cases "action p")
     (auto simp: execute_plan_def build_execution_command_plan_def idle_result_def no_command_def
        ffmpeg_run_def Let_def split: sum.splits backend_error.splits option.splits if_splits)

definition sample_spawn :: "string list \<Rightarrow> process_outcome option" where
  "sample_spawn c = Some \<lparr>po_exit_code = 0, po_stdout = [], po_stderr = [], po_cancelled = False\<rparr>"

lemma runner_outcomes_witness:
  "er_status (projr (execute_plan no_repr False sample_probes sample_spawn
     (projr (build_processing_plan sample_old_codec (sample_bundle None) None)) (path_of ''/media/tv/a.mkv'')
     (path_of ''/scratch'') ''ffmpeg'' None (Some ''cpu_only'') True)) = ''staged''"
proof -
  let ?p = "projr (build_processing_plan sample_old_codec (sample_bundle None) None)"
  let ?e = "execute_plan no_repr False sample_probes sample_spawn ?p (path_of ''/media/tv/a.mkv'')
     (path_of ''/scratch'') ''ffmpeg'' None (Some ''cpu_only'') True"
  have "\<not> isl ?e" by code_simp
  then have e: "?e = Inr (projr ?e)" by (rule planned)
  have a: "action ?p = TRANSCODE" by code_simp
  have f: "er_status (projr ?e) \<noteq> ''failed''" by code_simp
  from runner_outcomes [OF e] a f show ?thesis by auto
qed

definition keep_all_bundle :: config_bundle where
  "keep_all_bundle = \<lparr>policy = sample_policy\<lparr>subtitles := sample_subtitle_rules\<lparr>drop_other_subtitles := False\<rparr>\<rparr>,
     profiles = [''uhd'' \<mapsto> sample_profile None]\<rparr>"

definition forced_french :: media_file where
  "forced_french = sample_old_codec\<lparr>subtitle_streams := [sample_subtitle 6 ''fra'' True False ''Signs'']\<rparr>"

definition forced_french_output :: media_file where
  "forced_french_output = sample_output\<lparr>subtitle_streams := [sample_subtitle 2 ''fra'' False False ''Signs'']\<rparr>"

text \<open>A forced subtitle outside the forced-keep languages cannot pass: when the policy keeps all
  subtitles, the command clears the forced flag of a French forced track that the verifier still
  expects to be forced, so the faithful output of a correct run fails verification.\<close>

theorem forced_flag_cleared_fails_verification:
  "let p = projr (build_processing_plan forced_french keep_all_bundle None) in
     action p = TRANSCODE \<and> muxed_from p forced_french forced_french_output
     \<and> \<not> vr_passed (verify_output sample_stat (\<lambda>_. Inr forced_french_output) (path_of ''/scratch/a.mkv'') p forced_french)
     \<and> \<not> subtitle_stream_selection_matches_plan forced_french p forced_french_output"
  by code_simp

end
