(* ===== verification/Safety.thy ===== *)
theory Safety
  imports Plan
begin

text \<open>
  What an execution is measured by (\<open>encodr_core/execution/metrics.py\<close>) and the check made on the
  measurements before an output may replace its source (\<open>safety.py\<close>). Sizes and bit rates are
  integers; durations, percentages and mixed arithmetic are Python floats (\<open>Py_Float\<close>). The packet
  sizes ffprobe reports are a parameter: \<open>None\<close> when no ffprobe path is given, else a
  function of the file.
\<close>

subsection \<open>Measuring a file\<close>

type_synonym packet_probe = "(path \<Rightarrow> int \<rightharpoonup> int) option"

text \<open>The bit rates that \<open>getattr(stream, "bit_rate", None)\<close> finds: subtitles have none.\<close>

fun sum_rates :: "rat \<Rightarrow> int \<Rightarrow> bool \<Rightarrow> int option list \<Rightarrow> int option" where
  "sum_rates d acc found [] = (if found then Some acc else None)"
| "sum_rates d acc found (None # rs) = sum_rates d acc found rs"
| "sum_rates d acc found (Some r # rs) =
     sum_rates d (acc + py_trunc (fdiv (fmul (to_float r) d) 8)) True rs"

definition estimate_stream_size_from_bitrate :: "int option list \<Rightarrow> rat option \<Rightarrow> int option" where
  "estimate_stream_size_from_bitrate rates duration =
     (case duration of
        None \<Rightarrow> None
      | Some d \<Rightarrow> if d \<le> 0 then None else sum_rates d 0 False rates)"

definition sum_packet_sizes_if_present :: "(int \<rightharpoonup> int) \<Rightarrow> int list \<Rightarrow> int option" where
  "sum_packet_sizes_if_present sizes indices =
     (if \<not> list_ex (\<lambda>i. sizes i \<noteq> None) indices then None
      else Some (sum_list (map (\<lambda>i. case sizes i of None \<Rightarrow> 0 | Some n \<Rightarrow> n) (remdups indices))))"

definition video_rates :: "media_file \<Rightarrow> int option list" where
  "video_rates m = map v_bit_rate (video_streams m)"

definition non_video_rates :: "media_file \<Rightarrow> int option list" where
  "non_video_rates m = map a_bit_rate (audio_streams m) @ map (\<lambda>_. None) (subtitle_streams m)"

definition non_video_indices :: "media_file \<Rightarrow> int list" where
  "non_video_indices m = map index (audio_streams m) @ map index (subtitle_streams m)"

definition estimate_stream_class_sizes :: "packet_probe \<Rightarrow> media_file \<Rightarrow> int option \<times> int option" where
  "estimate_stream_class_sizes probe m =
     (let duration = duration_seconds (container m);
          video0 = estimate_stream_size_from_bitrate (video_rates m) duration;
          other0 = estimate_stream_size_from_bitrate (non_video_rates m) duration;
          (video1, other1) =
            (case probe of
               None \<Rightarrow> (video0, other0)
             | Some f \<Rightarrow>
                 if video0 = None \<or> other0 = None then
                   let sizes = f (file_path m) in
                   (if video0 = None then sum_packet_sizes_if_present sizes (map index (video_streams m)) else video0,
                    if other0 = None then sum_packet_sizes_if_present sizes (non_video_indices m) else other0)
                 else (video0, other0));
          tot = size_bytes (container m);
          video2 = (case (video1, tot, other1) of
                      (None, Some t, Some n) \<Rightarrow> Some (max (t - n) 0) | _ \<Rightarrow> video1);
          other2 = (case (other1, tot, video2) of
                      (None, Some t, Some v) \<Rightarrow> Some (max (t - v) 0) | _ \<Rightarrow> other1)
      in (video2, other2))"

definition estimate_non_video_size_bytes :: "media_file \<Rightarrow> int option" where
  "estimate_non_video_size_bytes m =
     estimate_stream_size_from_bitrate (non_video_rates m) (duration_seconds (container m))"

definition estimate_total_minus_non_video :: "media_file \<Rightarrow> int option" where
  "estimate_total_minus_non_video m =
     (case (size_bytes (container m), estimate_non_video_size_bytes m) of
        (Some t, Some n) \<Rightarrow> Some (max (t - n) 0)
      | _ \<Rightarrow> None)"

definition estimate_video_size_bytes :: "media_file \<Rightarrow> int option" where
  "estimate_video_size_bytes m =
     (case duration_seconds (container m) of
        None \<Rightarrow> None
      | Some d \<Rightarrow>
          if d \<le> 0 then None
          else case sum_rates d 0 False (video_rates m) of
                 Some t \<Rightarrow> Some t
               | None \<Rightarrow> estimate_total_minus_non_video m)"

subsection \<open>Bit rates\<close>

record bitrate_measurement =
  bm_value :: "int option"
  bm_source :: "string option"
  bm_unavailable_reason :: "string option"

definition format_missing_values :: "string list \<Rightarrow> string" where
  "format_missing_values vs =
     (case vs of
        [a] \<Rightarrow> a
      | [a, b] \<Rightarrow> a @ '' or '' @ b
      | _ \<Rightarrow> py_join '', '' (butlast vs) @ '', or '' @ last vs)"

definition first_video_bitrate :: "media_file \<Rightarrow> int option" where
  "first_video_bitrate m = (case video_streams m of [] \<Rightarrow> None | v # _ \<Rightarrow> v_bit_rate v)"

definition measure_video_bitrate :: "media_file \<Rightarrow> int option \<Rightarrow> string \<Rightarrow> bitrate_measurement" where
  "measure_video_bitrate m video_size label =
     (case first_video_bitrate m of
        Some b \<Rightarrow> \<lparr>bm_value = Some b, bm_source = Some ''stream_bit_rate'', bm_unavailable_reason = None\<rparr>
      | None \<Rightarrow>
          let duration = duration_seconds (container m);
              no_duration = (case duration of None \<Rightarrow> True | Some d \<Rightarrow> d \<le> 0);
              missing = [''video stream bit_rate'']
                @ (if video_size = None then [''video size''] else [])
                @ (if no_duration then [''duration''] else [])
          in case (video_size, duration) of
               (Some s, Some d) \<Rightarrow>
                 if d \<le> 0 then
                   \<lparr>bm_value = None, bm_source = None, bm_unavailable_reason = Some
                     (label @ ''_video_bitrate_bps is unavailable because ffprobe did not report ''
                      @ format_missing_values missing @ ''.'')\<rparr>
                 else
                   \<lparr>bm_value = Some (round_even (fdiv (to_float (s * 8)) d)),
                    bm_source = Some ''derived_video_size_duration'', bm_unavailable_reason = None\<rparr>
             | _ \<Rightarrow>
                 \<lparr>bm_value = None, bm_source = None, bm_unavailable_reason = Some
                   (label @ ''_video_bitrate_bps is unavailable because ffprobe did not report ''
                    @ format_missing_values missing @ ''.'')\<rparr>)"

definition compression_unavailable_reason :: "int option \<Rightarrow> int option \<Rightarrow> string option" where
  "compression_unavailable_reason source_size output_size =
     (let missing = (if source_size = None then [''source video size''] else [])
            @ (if output_size = None then [''output video size''] else [])
      in if missing = [] then None
         else Some (''compression_reduction_percent is unavailable because ''
                @ format_missing_values missing @ '' could not be derived.''))"

subsection \<open>Savings\<close>

record media_savings =
  input_size_bytes :: "int option"
  output_size_bytes :: "int option"
  space_saved_bytes :: "int option"
  video_input_size_bytes :: "int option"
  video_output_size_bytes :: "int option"
  video_space_saved_bytes :: "int option"
  source_video_bitrate :: bitrate_measurement
  output_video_bitrate :: bitrate_measurement
  source_duration_seconds :: "rat option"
  output_duration_seconds :: "rat option"
  compression_reduction_unavailable_reason :: "string option"
  non_video_space_saved_bytes :: "int option"
  compression_reduction_percent :: "rat option"

definition opt_minus :: "int option \<Rightarrow> int option \<Rightarrow> int option" where
  "opt_minus a b = (case (a, b) of (Some x, Some y) \<Rightarrow> Some (x - y) | _ \<Rightarrow> None)"

definition opt_minus_floor :: "int option \<Rightarrow> int option \<Rightarrow> int option" where
  "opt_minus_floor a b = map_option (\<lambda>n. max n 0) (opt_minus a b)"

definition reduction_percent :: "int option \<Rightarrow> int option \<Rightarrow> rat option" where
  "reduction_percent source_size saved =
     (case (source_size, saved) of
        (Some s, Some v) \<Rightarrow> if 0 < s then Some (fmul (int_div v s) 100) else None
      | _ \<Rightarrow> None)"

definition calculate_media_savings :: "packet_probe \<Rightarrow> media_file \<Rightarrow> media_file \<Rightarrow> media_savings" where
  "calculate_media_savings probe source out =
     (let total_saved = opt_minus_floor (size_bytes (container source)) (size_bytes (container out));
          (source_video, source_other) = estimate_stream_class_sizes probe source;
          (output_video, output_other) = estimate_stream_class_sizes probe out;
          video0 = opt_minus source_video output_video;
          other0 = opt_minus source_other output_other;
          video1 = (if video0 = None then opt_minus_floor total_saved other0 else video0);
          other1 = (if other0 = None then opt_minus_floor total_saved video1 else other0)
      in \<lparr>input_size_bytes = size_bytes (container source), output_size_bytes = size_bytes (container out),
          space_saved_bytes = total_saved, video_input_size_bytes = source_video,
          video_output_size_bytes = output_video, video_space_saved_bytes = video1,
          source_video_bitrate = measure_video_bitrate source source_video ''source'',
          output_video_bitrate = measure_video_bitrate out output_video ''output'',
          source_duration_seconds = duration_seconds (container source),
          output_duration_seconds = duration_seconds (container out),
          compression_reduction_unavailable_reason = compression_unavailable_reason source_video output_video,
          non_video_space_saved_bytes = other1,
          compression_reduction_percent = reduction_percent source_video video1\<rparr>)"

subsection \<open>The safety check (\<open>safety.py\<close>)\<close>

datatype safety_category =
    OUTPUT_LARGER_THAN_INPUT | SAFETY_UNMEASURABLE | SAFETY_BITRATE_FLOOR | SAFETY_EXCEEDED

record safety_failure =
  sf_category :: safety_category
  sf_message :: string

definition number :: "int option \<Rightarrow> rat option" where
  "number v = map_option to_float v"

definition safe_text :: "string option \<Rightarrow> string \<Rightarrow> string" where
  "safe_text v fallback = (case v of Some s \<Rightarrow> if py_strip s \<noteq> [] then py_strip s else fallback | None \<Rightarrow> fallback)"

definition output_larger_failure :: "processing_plan \<Rightarrow> media_savings \<Rightarrow> safety_failure option" where
  "output_larger_failure p ms =
     (case (output_larger_than_input_review_percent (plan_video p),
            number (input_size_bytes ms), number (output_size_bytes ms)) of
        (Some guard, Some i, Some out) \<Rightarrow>
          if i \<le> 0 then None
          else if out \<le> fmul i (fadd 1 (fdiv (to_float guard) 100)) then None
          else Some \<lparr>sf_category = OUTPUT_LARGER_THAN_INPUT,
                     sf_message = ''Output grew by '' @ format_fixed 1 (fmul (fdiv (fsub out i) i) 100)
                       @ ''%, exceeding configured guard of '' @ show_int guard @ ''%.''\<rparr>
      | _ \<Rightarrow> None)"

definition unmeasurable_bitrate_message ::
    "rat \<Rightarrow> int \<Rightarrow> rat option \<Rightarrow> rat option \<Rightarrow> media_savings \<Rightarrow> string" where
  "unmeasurable_bitrate_message reduction limit minimum out ms =
     (let reasons =
            (if out = None
             then [safe_text (bm_unavailable_reason (output_video_bitrate ms))
                     ''output_video_bitrate_bps is unavailable because ffprobe did not report video stream bit_rate.'']
             else [])
            @ (if minimum = None then [''minimum_output_bitrate_bps is not configured for this plan.''] else [])
      in ''Video compression reduced the picture by '' @ format_fixed 1 reduction @ ''%, above the ''
         @ ''configured review threshold of '' @ show_int limit @ ''%, but output bitrate could not ''
         @ ''be measured against a quality floor. Missing value: '' @ py_join '' '' reasons)"

definition evaluate_execution_safety :: "processing_plan \<Rightarrow> media_savings \<Rightarrow> safety_failure option" where
  "evaluate_execution_safety p ms =
     (case output_larger_failure p ms of
        Some f \<Rightarrow> Some f
      | None \<Rightarrow>
          if \<not> transcode_required (plan_video p) then None
          else case max_allowed_video_reduction_percent (plan_video p) of
            None \<Rightarrow> None
          | Some limit \<Rightarrow>
              (case compression_reduction_percent ms of
                 None \<Rightarrow>
                   Some \<lparr>sf_category = SAFETY_UNMEASURABLE,
                         sf_message = ''Video reduction could not be measured safely, so the output requires manual review. ''
                           @ ''Missing value: '' @ py_join '' ''
                             (safe_text (compression_reduction_unavailable_reason ms)
                                ''compression_reduction_percent could not be derived.''
                              # (case bm_unavailable_reason (output_video_bitrate ms) of
                                   None \<Rightarrow> []
                                 | Some r \<Rightarrow> [safe_text (Some r) ''output_video_bitrate_bps could not be derived.'']))\<rparr>
               | Some reduction \<Rightarrow>
                   let out = number (bm_value (output_video_bitrate ms));
                       minimum = number (minimum_output_bitrate (plan_video p));
                       below = (case (minimum, out) of (Some m, Some b) \<Rightarrow> b < m | _ \<Rightarrow> False);
                       met = (case (minimum, out) of (Some m, Some b) \<Rightarrow> m \<le> b | _ \<Rightarrow> False)
                   in
                   if below then
                     Some \<lparr>sf_category = SAFETY_BITRATE_FLOOR,
                           sf_message = ''Encoded video bitrate is below the configured quality safeguard ''
                             @ ''('' @ format_bitrate out @ '' < '' @ format_bitrate minimum @ '').''\<rparr>
                   else if reduction \<le> of_int limit then None
                   else if met then None
                   else if minimum = None \<or> out = None then
                     Some \<lparr>sf_category = SAFETY_UNMEASURABLE,
                           sf_message = unmeasurable_bitrate_message reduction limit minimum out ms\<rparr>
                   else
                     Some \<lparr>sf_category = SAFETY_EXCEEDED,
                           sf_message = ''Video compression reduced the picture by '' @ format_fixed 1 reduction
                             @ ''% and output bitrate '' @ format_bitrate out
                             @ '' is below the configured safeguard '' @ format_bitrate minimum @ ''.''\<rparr>))"


subsection \<open>What the check decides\<close>

text \<open>The safety check as one decision: an output is accepted unless it grew past the guard, or
  the plan transcodes under a reduction limit and the reduction is unknown, or the output bit rate is
  below the quality floor, or the reduction exceeds the limit with no floor or no bit rate to
  judge it by. In particular an output over the reduction limit is accepted when its bit rate meets
  the floor, and the category \<open>compression_safety_exceeded\<close> is never reported.\<close>

theorem safety_decision:
  "let limit = max_allowed_video_reduction_percent (plan_video p); red = compression_reduction_percent ms;
       floor = minimum_output_bitrate (plan_video p); rate = bm_value (output_video_bitrate ms);
       judged = transcode_required (plan_video p) \<and> limit \<noteq> None;
       r = evaluate_execution_safety p ms
   in (r = None \<longleftrightarrow>
         output_larger_failure p ms = None
         \<and> (judged \<longrightarrow> red \<noteq> None
             \<and> \<not> (floor \<noteq> None \<and> rate \<noteq> None \<and> to_float (the rate) < to_float (the floor))
             \<and> (the red \<le> of_int (the limit) \<or> (floor \<noteq> None \<and> rate \<noteq> None))))
      \<and> map_option sf_category r \<noteq> Some SAFETY_EXCEEDED
      \<and> (r \<noteq> None \<and> output_larger_failure p ms = None \<longrightarrow> transcode_required (plan_video p))"
proof -
  have l: "sf_category f \<noteq> SAFETY_EXCEEDED" if "output_larger_failure p ms = Some f" for f
    using that by (auto simp: output_larger_failure_def split: option.splits if_splits)
  show ?thesis
    using l by (auto simp: evaluate_execution_safety_def Let_def number_def split: option.splits if_splits)
qed

lemma fl64_le_one: "1 \<le> x \<Longrightarrow> 1 \<le> fl64 x"
  using fl64_mono [of 1 x] fl64_of_int [of 1] by simp

lemma guard_factor: "0 \<le> g \<Longrightarrow> 1 \<le> fadd 1 (fdiv (to_float g) 100)"
proof -
  assume "0 \<le> g"
  then have "0 \<le> to_float g" by (simp add: to_float_def)
  then have "0 \<le> fdiv (to_float g) 100" by (simp add: fdiv_def)
  then show ?thesis by (simp add: fadd_def fl64_le_one)
qed


subsection \<open>What the measurements mean\<close>

lemma sum_rates_nonneg:
  "sum_rates d acc found rs = Some t \<Longrightarrow> 0 < d \<Longrightarrow> 0 \<le> acc \<Longrightarrow> \<forall>r\<in>set rs. \<forall>b. r = Some b \<longrightarrow> 0 \<le> b \<Longrightarrow> 0 \<le> t"
proof (induction d acc found rs rule: sum_rates.induct)
  case (3 d acc found r rs)
  have "0 \<le> to_float r" using 3(5) by (simp add: to_float_def)
  then have "0 \<le> py_trunc (fdiv (fmul (to_float r) d) 8)"
    using 3(3) by (intro py_trunc_nonneg) (simp add: fdiv_def fmul_def)
  with 3 show ?case by simp
qed (auto split: if_splits)

lemma reduction_percent_cases:
  assumes "0 < s" "\<bar>v\<bar> \<le> 2 ^ 53" "reduction_percent (Some s) (Some v) = Some x"
  shows "(0 < x \<longleftrightarrow> 0 < v) \<and> (v \<le> s \<longrightarrow> x \<le> 100)"
proof -
  have x: "x = fmul (int_div v s) 100" using assms by (simp add: reduction_percent_def)
  have "0 < x \<longleftrightarrow> 0 < v" using assms(1) by (simp add: x fmul_def int_div_def zero_less_divide_iff)
  moreover have "x \<le> 100" if "v \<le> s"
  proof -
    have "of_int v / of_int s \<le> (1::rat)" using that assms(1) by simp
    then have "int_div v s \<le> 1" using fl64_mono [of _ 1] fl64_of_int [of 1] by (fastforce simp: int_div_def)
    then have "int_div v s * 100 \<le> 100" by simp
    then have "fl64 (int_div v s * 100) \<le> fl64 100" by (rule fl64_mono)
    also have "fl64 100 = 100" using fl64_numeral [of "num.Bit0 (num.Bit0 (num.Bit1 (num.Bit0 (num.Bit0 (num.Bit1 num.One)))))"] by simp
    finally show ?thesis by (simp add: x fmul_def)
  qed
  ultimately show ?thesis by blast
qed

text \<open>The reported reduction is about the video alone: it is positive exactly when the output's
  video is smaller than the source's, it never exceeds 100 percent, and it is there exactly when the
  source's video size is known and positive and some saving could be derived.\<close>

theorem reduction_is_video_only:
  assumes "estimate_stream_class_sizes probe src = (Some a, na)" "estimate_stream_class_sizes probe out = (Some b, nb)"
    and "0 < a" "0 \<le> b" "a \<le> 2 ^ 53" "b \<le> 2 ^ 53"
  shows "\<exists>x. compression_reduction_percent (calculate_media_savings probe src out) = Some x
      \<and> (0 < x \<longleftrightarrow> b < a) \<and> x \<le> 100
      \<and> video_space_saved_bytes (calculate_media_savings probe src out) = Some (a - b)
      \<and> compression_reduction_unavailable_reason (calculate_media_savings probe src out) = None"
proof -
  have "\<bar>a - b\<bar> \<le> 2 ^ 53" using assms(3-6) by linarith
  moreover have r: "reduction_percent (Some a) (Some (a - b)) = Some (fmul (int_div (a - b) a) 100)"
    using assms(3) by (simp add: reduction_percent_def)
  ultimately have "(0 < fmul (int_div (a - b) a) 100 \<longleftrightarrow> 0 < a - b) \<and> (a - b \<le> a \<longrightarrow> fmul (int_div (a - b) a) 100 \<le> 100)"
    using reduction_percent_cases [OF assms(3)] by blast
  then show ?thesis using assms(1-4) r
    by (simp add: calculate_media_savings_def opt_minus_def compression_unavailable_reason_def Let_def)
qed


definition sized_file :: "int \<Rightarrow> int \<Rightarrow> int \<Rightarrow> media_file" where
  "sized_file v a n =
     (MediaFile ((ContainerFormat (path_of ''/media/a.mkv'') 2)\<lparr>duration_seconds := Some 100, size_bytes := Some n\<rparr>))
       \<lparr>video_streams := [(VideoStream 0)\<lparr>v_bit_rate := Some v\<rparr>],
        audio_streams := [(AudioStream 1)\<lparr>a_bit_rate := Some a\<rparr>]\<rparr>"

lemma reduction_is_video_only_witness:
  "\<exists>x. compression_reduction_percent (calculate_media_savings None (sized_file 8000000 640000 108000000)
        (sized_file 4000000 640000 58000000)) = Some x \<and> 0 < x \<and> x \<le> 100"
proof -
  have a: "estimate_stream_class_sizes None (sized_file 8000000 640000 108000000) = (Some 100000000, Some 8000000)"
    and b: "estimate_stream_class_sizes None (sized_file 4000000 640000 58000000) = (Some 50000000, Some 8000000)"
    by code_simp+
  from reduction_is_video_only [OF a b] show ?thesis by auto
qed

definition guarded_plan :: "bool \<Rightarrow> processing_plan" where
  "guarded_plan t =
     \<lparr>action = (if t then TRANSCODE else REMUX),
      summary = \<lparr>ps_action = REMUX, ps_confidence = HIGH, ps_is_already_compliant = False, ps_should_treat_as_protected = False\<rparr>,
      plan_context = \<lparr>policy_name = [], policy_version = 1, selected_profile_name = None,
        selected_profile_description = None, matched_path_prefix = None, source_path = path_of ''/media/a.mkv''\<rparr>,
      selected_streams = \<lparr>video_stream_indices = [0], audio_stream_indices = [1], subtitle_stream_indices = [],
        attachment_stream_indices = [], data_stream_indices = [], unknown_stream_indices = []\<rparr>,
      plan_audio = \<lparr>a_selected = [1], a_dropped = [], a_required_language_codes = [''eng''], primary_stream_index = Some 1,
        preserved_atmos = [], preserved_surround = [], commentary_removed = [], available_preferred = [1],
        missing_required_audio = False\<rparr>,
      plan_subtitles = \<lparr>s_selected = [], s_dropped = [], s_required_language_codes = [],
        s_required_forced_language_codes = [], forced_stream_indices = [], main_stream_index = None,
        hearing_impaired_stream_indices = [], ambiguous_forced_stream_indices = []\<rparr>,
      plan_video = \<lparr>vp_primary_stream_index = Some 0, vp_handling = (if t then TRANSCODE_TO_POLICY else PRESERVE_VIDEO),
        preserve_original = \<not> t, target_codec = Some ''hevc'', transcode_required = t, quality_mode = None,
        quality_crf = None, source_bitrate_bps = None, low_bitrate_skip_threshold = None,
        minimum_output_bitrate = Some 1750000, max_allowed_video_reduction_percent = Some 60,
        output_larger_than_input_review_percent = Some 5\<rparr>,
      plan_container = \<lparr>source_extension = Some ''mkv'', target_container = MKV, cp_handling = PRESERVE_CONTAINER,
        change_required = False\<rparr>,
      plan_rename = \<lparr>rename_enabled = False, template_kind = None, template_source = DISABLED, template_value = None\<rparr>,
      plan_replace = \<lparr>in_place = True, require_verification = True, keep_original_until_verified = True,
        delete_replaced_source = False, existing_backup_strategy = ''fail''\<rparr>,
      reasons = [], warnings = [], confidence = HIGH, is_already_compliant = False, should_treat_as_protected = False\<rparr>"

abbreviation halved :: media_savings where
  "halved \<equiv> calculate_media_savings None (sized_file 8000000 640000 108000000) (sized_file 4000000 640000 58000000)"

lemma safety_decision_witness:
  "evaluate_execution_safety (guarded_plan True) halved = None
   \<and> map_option sf_category (evaluate_execution_safety (guarded_plan True) halved) \<noteq> Some SAFETY_EXCEEDED"
proof -
  have "Option.is_none (evaluate_execution_safety (guarded_plan True) halved)" by code_simp
  then have "evaluate_execution_safety (guarded_plan True) halved = None" by (simp add: Option.is_none_def split: option.splits)
  then show ?thesis using safety_decision [of "guarded_plan True" halved] by (simp add: Let_def)
qed


end
