(* ===== verification/Replacement.thy ===== *)
theory Replacement
  imports Plan "HOL-Library.AList"
begin

text \<open>
  Placing a verified output (\<open>encodr_core/replacement/service.py\<close>, \<open>errors.py\<close>): in place of the
  source with a backup, or beside it. The state is the file system: a partial map from paths to
  file contents, a script of faults (one entry per system call, so any call may fail with any
  error and a copy may be torn), and a counter of the calls made. No other process writes these
  paths. The random names of \<open>uuid4\<close> are a parameter; the loop that draws them is a
  \<open>partial_function\<close>, whose \<open>None\<close> means that it never returns.
\<close>

subsection \<open>The file system\<close>

type_synonym content = string

record os_error =
  oe_errno :: "int option"
  oe_strerror :: "string option"
  oe_message :: string
  oe_type :: string

datatype os_fault = NoFault | Fault os_error | Torn os_error content

record os_state =
  files :: "path \<rightharpoonup> content"
  fault_at :: "nat \<Rightarrow> os_fault"
  calls :: nat

definition exists_file :: "os_state \<Rightarrow> path \<Rightarrow> bool" where
  "exists_file os p \<longleftrightarrow> files os p \<noteq> None"

definition call_fault :: "os_state \<Rightarrow> os_fault" where
  "call_fault os = fault_at os (calls os)"

definition called :: "os_state \<Rightarrow> os_state" where
  "called os = os\<lparr>calls := calls os + 1\<rparr>"

definition not_found :: os_error where
  "not_found = \<lparr>oe_errno = Some 2, oe_strerror = Some ''No such file or directory'',
     oe_message = ''[Errno 2] No such file or directory'', oe_type = ''FileNotFoundError''\<rparr>"

definition same_file :: os_error where
  "same_file = \<lparr>oe_errno = None, oe_strerror = None, oe_message = ''are the same file'', oe_type = ''SameFileError''\<rparr>"

text \<open>\<open>Path.rename\<close> and \<open>Path.replace\<close>: atomic on one POSIX file system.\<close>

definition os_rename :: "path \<Rightarrow> path \<Rightarrow> os_state \<Rightarrow> os_error option \<times> os_state" where
  "os_rename p q os =
     (case call_fault os of
        Fault e \<Rightarrow> (Some e, called os)
      | Torn e _ \<Rightarrow> (Some e, called os)
      | NoFault \<Rightarrow>
          (case files os p of
             None \<Rightarrow> (Some not_found, called os)
           | Some c \<Rightarrow> (None, (called os)\<lparr>files := (files os)(p := None, q := Some c)\<rparr>)))"

definition os_unlink :: "path \<Rightarrow> os_state \<Rightarrow> os_error option \<times> os_state" where
  "os_unlink p os =
     (case call_fault os of
        Fault e \<Rightarrow> (Some e, called os)
      | Torn e _ \<Rightarrow> (Some e, called os)
      | NoFault \<Rightarrow>
          (case files os p of
             None \<Rightarrow> (Some not_found, called os)
           | Some c \<Rightarrow> (None, (called os)\<lparr>files := (files os)(p := None)\<rparr>)))"

text \<open>\<open>shutil.copyfile\<close>: a fault may strike before anything is written, or leave part of the file.\<close>

definition os_copyfile :: "path \<Rightarrow> path \<Rightarrow> os_state \<Rightarrow> os_error option \<times> os_state" where
  "os_copyfile p q os =
     (if p = q then (Some same_file, called os)
      else case call_fault os of
        Fault e \<Rightarrow> (Some e, called os)
      | Torn e part \<Rightarrow> (Some e, (called os)\<lparr>files := (files os)(q := Some part)\<rparr>)
      | NoFault \<Rightarrow>
          (case files os p of
             None \<Rightarrow> (Some not_found, called os)
           | Some c \<Rightarrow> (None, (called os)\<lparr>files := (files os)(q := Some c)\<rparr>)))"

subsection \<open>Results and errors\<close>

type_synonym details = "(string \<times> json) list"

datatype replacement_status = R_SUCCEEDED | R_FAILED | R_NOT_REQUIRED

record replacement_result =
  rr_status :: replacement_status
  rr_final_output_path :: "path option"
  rr_original_backup_path :: "path option"
  rr_deleted_original_source :: bool
  rr_failure_message :: "string option"
  rr_details :: details

record replacement_error =
  re_message :: string
  re_final_output_path :: "path option"
  re_original_backup_path :: "path option"
  re_details :: details

definition replacement_not_required :: replacement_result where
  "replacement_not_required =
     \<lparr>rr_status = R_NOT_REQUIRED, rr_final_output_path = None, rr_original_backup_path = None,
      rr_deleted_original_source = False, rr_failure_message = None, rr_details = []\<rparr>"

text \<open>Dictionary updates keep the position of a key; \<open>merge\<close> is \<open>dict.update\<close> and \<open>**\<close>.\<close>

definition merge :: "details \<Rightarrow> details \<Rightarrow> details" where
  "merge d e = foldl (\<lambda>acc (k, v). AList.update k v acc) d e"

definition exdev :: int where "exdev = 18"

definition reason_of :: "os_error \<Rightarrow> string" where
  "reason_of e = (if or_str (oe_strerror e) [] \<noteq> [] then or_str (oe_strerror e) [] else oe_message e)"

definition replacement_failure_details ::
    "string \<Rightarrow> os_error \<Rightarrow> path \<Rightarrow> path \<Rightarrow> path option \<Rightarrow> path option \<Rightarrow> os_state \<Rightarrow> details" where
  "replacement_failure_details operation e src staged final backup os =
     [(''operation'', JStr operation), (''source_path'', JStr (as_posix src)),
      (''staged_output_path'', JStr (as_posix staged)),
      (''final_output_path'', j_opt_str (map_option as_posix final)),
      (''original_backup_path'', j_opt_str (map_option as_posix backup)),
      (''errno'', j_opt_int (oe_errno e)), (''reason'', JStr (reason_of e)),
      (''exception_type'', JStr (oe_type e)), (''exception_message'', JStr (oe_message e)),
      (''source_exists'', JBool (exists_file os src)),
      (''staged_output_exists'', JBool (exists_file os staged)),
      (''backup_exists'', (case backup of None \<Rightarrow> JNull | Some b \<Rightarrow> JBool (exists_file os b))),
      (''permission_hint'',
        (if oe_errno e \<in> {Some 13, Some 1}
         then JStr ''The destination filesystem denied access. Check NAS share ownership, group membership, and write permissions.''
         else JNull))]"

subsection \<open>The steps\<close>

definition move_generated_output :: "path \<Rightarrow> path \<Rightarrow> os_state \<Rightarrow> (os_error + details) \<times> os_state" where
  "move_generated_output staged final os =
     (case os_rename staged final os of
        (None, os1) \<Rightarrow> (Inr [(''move_strategy'', JStr ''rename'')], os1)
      | (Some e, os1) \<Rightarrow>
          if oe_errno e \<noteq> Some exdev then (Inl e, os1)
          else
            let cross = [(''move_strategy'', JStr ''copyfile''), (''cross_device_errno'', j_opt_int (oe_errno e)),
                         (''cross_device_message'', JStr (oe_message e))]
            in case os_copyfile staged final os1 of
                 (Some e2, os2) \<Rightarrow> (Inl e2, os2)
               | (None, os2) \<Rightarrow>
                   (case os_unlink staged os2 of
                      (None, os3) \<Rightarrow> (Inr cross, os3)
                    | (Some e3, os3) \<Rightarrow>
                        (Inr (cross @ [(''staged_cleanup_failed'', JBool True),
                                       (''staged_cleanup_errno'', j_opt_int (oe_errno e3)),
                                       (''staged_cleanup_error'', JStr (oe_message e3))]), os3)))"

definition temp_backup_name :: "path \<Rightarrow> string \<Rightarrow> path option" where
  "temp_backup_name backup uuid = with_name backup (path_name backup @ ''.replacing-'' @ uuid @ ''.tmp'')"

text \<open>Draws names until one is free; \<open>None\<close> if that never happens. An inner \<open>None\<close> is a \<open>ValueError\<close>.\<close>

partial_function (option) temporary_replaced_backup_path ::
    "(nat \<Rightarrow> string) \<Rightarrow> nat \<Rightarrow> path \<Rightarrow> os_state \<Rightarrow> path option option" where
  "temporary_replaced_backup_path uuids k backup os =
     (case temp_backup_name backup (uuids k) of
        None \<Rightarrow> Some None
      | Some candidate \<Rightarrow>
          if \<not> exists_file os candidate then Some (Some candidate)
          else temporary_replaced_backup_path uuids (Suc k) backup os)"

definition restore_replaced_backup :: "path option \<Rightarrow> path \<Rightarrow> details \<Rightarrow> os_state \<Rightarrow> details \<times> os_state" where
  "restore_replaced_backup temp backup d os =
     (case temp of
        None \<Rightarrow> (d, os)
      | Some t \<Rightarrow>
          let d1 = AList.update ''replaced_backup_temp_path'' (JStr (as_posix t)) d in
          if \<not> exists_file os t then
            (AList.update ''replaced_backup_temp_exists_after_rollback'' (JBool False) d1, os)
          else if exists_file os backup then
            (AList.update ''backup_exists_after_replaced_backup_restore'' (JBool True)
               (AList.update ''replaced_backup_restore_blocked'' (JBool True) d1), os)
          else
            let (err, os1) = os_rename t backup os;
                d2 = (case err of
                        Some e \<Rightarrow> AList.update ''replaced_backup_restore_errno'' (j_opt_int (oe_errno e))
                                   (AList.update ''replaced_backup_restore_error'' (JStr (oe_message e)) d1)
                      | None \<Rightarrow> AList.update ''replaced_backup_restore_succeeded'' (JBool True) d1)
            in (AList.update ''backup_exists_after_replaced_backup_restore'' (JBool (exists_file os1 backup))
                  (AList.update ''replaced_backup_temp_exists_after_rollback'' (JBool (exists_file os1 t)) d2),
                os1))"

definition delete_replaced_backup_temp ::
    "path option \<Rightarrow> path \<Rightarrow> path \<Rightarrow> path \<Rightarrow> path \<Rightarrow> details \<Rightarrow> os_state \<Rightarrow> details \<times> os_state" where
  "delete_replaced_backup_temp temp src staged final backup d os =
     (case temp of
        None \<Rightarrow> (d, os)
      | Some t \<Rightarrow>
          if \<not> exists_file os t then (d, os)
          else case os_unlink t os of
                 (Some e, os1) \<Rightarrow>
                   (AList.update ''replaced_backup_temp_path'' (JStr (as_posix t))
                      (merge (AList.update ''replaced_backup_delete_failed'' (JBool True) d)
                         (replacement_failure_details ''delete_replaced_existing_backup'' e src staged
                            (Some final) (Some backup) os1)), os1)
               | (None, os1) \<Rightarrow> (AList.update ''replaced_existing_backup_deleted'' (JBool True) d, os1))"

definition build_backup_path :: "path \<Rightarrow> path option" where
  "build_backup_path src = with_name src (path_stem src @ ''.encodr-backup'' @ path_suffix src)"

text \<open>The rollback after a failed move: the backup goes back only to a free source path.\<close>

definition rollback_source :: "bool \<Rightarrow> path \<Rightarrow> path \<Rightarrow> path \<Rightarrow> details \<Rightarrow> os_state \<Rightarrow> details \<times> os_state" where
  "rollback_source create_new src staged backup d os =
     (if create_new \<and> exists_file os backup \<and> \<not> exists_file os src then
        let (err, os1) = os_rename backup src os;
            d1 = (case err of
                    Some e \<Rightarrow> AList.update ''rollback_errno'' (j_opt_int (oe_errno e))
                               (AList.update ''rollback_error'' (JStr (oe_message e)) d)
                  | None \<Rightarrow> AList.update ''rollback_succeeded'' (JBool True) d)
        in (AList.update ''staged_output_exists_after_rollback'' (JBool (exists_file os1 staged))
              (AList.update ''backup_exists_after_rollback'' (JBool (exists_file os1 backup))
                 (AList.update ''source_exists_after_rollback'' (JBool (exists_file os1 src)) d1)), os1)
      else (d, os))"

subsection \<open>Placing the output\<close>

text \<open>\<open>Loops\<close>: the name loop never ends. \<open>ValueFailure\<close>: a path without a name.\<close>

datatype 'a run = Loops | ValueFailure os_state | Thrown replacement_error os_state | Done 'a os_state

definition replacement_error_of :: "string \<Rightarrow> path option \<Rightarrow> path option \<Rightarrow> details \<Rightarrow> replacement_error" where
  "replacement_error_of msg final backup d =
     \<lparr>re_message = msg, re_final_output_path = final, re_original_backup_path = backup, re_details = d\<rparr>"

definition succeeded :: "path \<Rightarrow> path option \<Rightarrow> bool \<Rightarrow> details \<Rightarrow> replacement_result" where
  "succeeded final backup deleted d =
     \<lparr>rr_status = R_SUCCEEDED, rr_final_output_path = Some final, rr_original_backup_path = backup,
      rr_deleted_original_source = deleted, rr_failure_message = None, rr_details = d\<rparr>"

text \<open>From the move of the output on; \<open>temp\<close> is where an existing backup was put aside.\<close>

definition finish_in_place ::
    "processing_plan \<Rightarrow> path \<Rightarrow> path \<Rightarrow> path \<Rightarrow> path \<Rightarrow> path option \<Rightarrow> os_state \<Rightarrow> replacement_result run" where
  "finish_in_place p src staged final backup temp os =
     (let strategy = existing_backup_strategy (plan_replace p);
          create_new = (strategy \<noteq> ''keep_existing_backup'')
      in case move_generated_output staged final os of
           (Inl e, os1) \<Rightarrow>
             let d0 = replacement_failure_details ''move_verified_output_into_place'' e src staged
                        (Some final) (Some backup) os1;
                 (d1, os2) = rollback_source create_new src staged backup d0 os1;
                 (d2, os3) = restore_replaced_backup temp backup d1 os2
             in Thrown (replacement_error_of ''Failed to move the verified output into place.''
                          (Some final) (Some backup) d2) os3
         | (Inr moved, os1) \<Rightarrow>
             let d0 = merge [(''mode'', JStr ''replace_in_place''), (''existing_backup_strategy'', JStr strategy)] moved in
             if create_new \<and> delete_replaced_source (plan_replace p) \<and> exists_file os1 backup then
               (case os_unlink backup os1 of
                  (Some e, os2) \<Rightarrow>
                    let (d1, os3) = delete_replaced_backup_temp temp src staged final backup d0 os2 in
                    Done (succeeded final (Some backup) False
                            (merge (AList.update ''backup_delete_failed'' (JBool True) d1)
                               (replacement_failure_details ''delete_replaced_source_backup'' e src staged
                                  (Some final) (Some backup) os3))) os3
                | (None, os2) \<Rightarrow>
                    let (d1, os3) = delete_replaced_backup_temp temp src staged final backup d0 os2 in
                    Done (succeeded final None True d1) os3)
             else
               let (d1, os2) = delete_replaced_backup_temp temp src staged final backup d0 os1 in
               Done (succeeded final (Some backup) False d1) os2)"

definition backup_source ::
    "processing_plan \<Rightarrow> path \<Rightarrow> path \<Rightarrow> path \<Rightarrow> path \<Rightarrow> path option \<Rightarrow> os_state \<Rightarrow> replacement_result run" where
  "backup_source p src staged final backup temp os =
     (if existing_backup_strategy (plan_replace p) \<noteq> ''keep_existing_backup'' then
        (case os_rename src backup os of
           (Some e, os1) \<Rightarrow>
             let d0 = replacement_failure_details ''move_source_to_backup'' e src staged
                        (Some final) (Some backup) os1;
                 (d1, os2) = restore_replaced_backup temp backup d0 os1
             in Thrown (replacement_error_of ''Failed to move the source file to its backup path.''
                          (Some final) (Some backup) d1) os2
         | (None, os1) \<Rightarrow> finish_in_place p src staged final backup temp os1)
      else finish_in_place p src staged final backup temp os)"

definition replace_in_place ::
    "(nat \<Rightarrow> string) \<Rightarrow> processing_plan \<Rightarrow> path \<Rightarrow> path \<Rightarrow> os_state \<Rightarrow> replacement_result run" where
  "replace_in_place uuids p src staged os =
     (if \<not> exists_file os src then
        Thrown (replacement_error_of ''The source file does not exist for in-place replacement.'' None None []) os
      else case (with_suffix src (CHR ''.'' # output_container_value (target_container (plan_container p))),
                 build_backup_path src) of
        (Some final, Some backup) \<Rightarrow>
          let strategy = existing_backup_strategy (plan_replace p);
              backup_exists = exists_file os backup
          in
          if backup_exists \<and> strategy = ''fail'' then
            Thrown (replacement_error_of ''A backup file already exists for the source path.'' (Some final) (Some backup)
                      [(''failure_code'', JStr ''backup_already_exists''),
                       (''existing_backup_strategy'', JStr strategy)]) os
          else if \<not> backup_exists \<and> strategy = ''keep_existing_backup'' then
            Thrown (replacement_error_of ''A backup file must already exist before keeping the original backup.''
                      (Some final) (Some backup)
                      [(''failure_code'', JStr ''backup_missing_for_keep_existing''),
                       (''existing_backup_strategy'', JStr strategy)]) os
          else if final \<noteq> src \<and> exists_file os final then
            Thrown (replacement_error_of ''A destination file already exists for the replacement target.''
                      (Some final) None []) os
          else if backup_exists \<and> strategy = ''replace_backup'' then
            (case temporary_replaced_backup_path uuids 0 backup os of
               None \<Rightarrow> Loops
             | Some None \<Rightarrow> ValueFailure os
             | Some (Some temp) \<Rightarrow>
                 (case os_rename backup temp os of
                    (Some e, os1) \<Rightarrow>
                      Thrown (replacement_error_of ''Failed to move the existing backup aside before replacement.''
                                (Some final) (Some backup)
                                (replacement_failure_details ''move_existing_backup_aside'' e src staged
                                   (Some final) (Some backup) os1)) os1
                  | (None, os1) \<Rightarrow> backup_source p src staged final backup (Some temp) os1))
          else backup_source p src staged final backup None os
      | _ \<Rightarrow> ValueFailure os)"

definition place_alongside_original ::
    "processing_plan \<Rightarrow> path \<Rightarrow> path \<Rightarrow> os_state \<Rightarrow> replacement_result run" where
  "place_alongside_original p src staged os =
     (case with_name src (path_stem src @ ''.encodr.'' @ output_container_value (target_container (plan_container p))) of
        None \<Rightarrow> ValueFailure os
      | Some final \<Rightarrow>
          if exists_file os final then
            Thrown (replacement_error_of ''A destination file already exists for the placed output.'' (Some final) None []) os
          else case move_generated_output staged final os of
            (Inl e, os1) \<Rightarrow>
              Thrown (replacement_error_of ''Failed to place the verified output alongside the source file.''
                        (Some final) None
                        (replacement_failure_details ''place_verified_output_alongside_source'' e src staged
                           (Some final) None os1)) os1
          | (Inr moved, os1) \<Rightarrow>
              Done (succeeded final None False (merge [(''mode'', JStr ''keep_original'')] moved)) os1)"

definition place_verified_output ::
    "(nat \<Rightarrow> string) \<Rightarrow> path \<Rightarrow> path \<Rightarrow> processing_plan \<Rightarrow> os_state \<Rightarrow> replacement_result run" where
  "place_verified_output uuids src staged p os =
     (if \<not> exists_file os staged then
        Done \<lparr>rr_status = R_FAILED, rr_final_output_path = None, rr_original_backup_path = None,
              rr_deleted_original_source = False,
              rr_failure_message = Some ''The staged output file does not exist.'',
              rr_details = [(''staged_output_path'', JStr (as_posix staged))]\<rparr> os
      else case (if in_place (plan_replace p) then replace_in_place uuids p src staged os
                 else place_alongside_original p src staged os) of
        Thrown e os1 \<Rightarrow>
          Done \<lparr>rr_status = R_FAILED, rr_final_output_path = re_final_output_path e,
                rr_original_backup_path = re_original_backup_path e, rr_deleted_original_source = False,
                rr_failure_message = Some (re_message e), rr_details = re_details e\<rparr> os1
      | r \<Rightarrow> r)"


subsection \<open>What one call can do\<close>

lemma files_called [simp]: "files (called os) = files os"
  by (simp add: called_def)

lemma os_rename_cases:
  assumes "os_rename p q os = (r, os')"
  obtains c where "r = None" "files os p = Some c" "files os' = (files os)(p := None, q := Some c)"
  | e where "r = Some e" "files os' = files os"
  using assms by (auto simp: os_rename_def split: os_fault.splits option.splits)

lemma os_unlink_cases:
  assumes "os_unlink p os = (r, os')"
  obtains c where "r = None" "files os p = Some c" "files os' = (files os)(p := None)"
  | e where "r = Some e" "files os' = files os"
  using assms by (auto simp: os_unlink_def split: os_fault.splits option.splits)

lemma os_copyfile_cases:
  assumes "os_copyfile p q os = (r, os')"
  obtains c where "r = None" "p \<noteq> q" "files os p = Some c" "files os' = (files os)(q := Some c)"
  | e where "r = Some e" "files os' = files os"
  | e part where "r = Some e" "p \<noteq> q" "files os' = (files os)(q := Some part)"
  using assms by (auto simp: os_copyfile_def split: os_fault.splits option.splits if_splits)

text \<open>
  The contract of the two ways a file is moved: nothing but the two paths is touched; success
  leaves the content at the destination; failure leaves the source.
\<close>

locale file_mover =
  fixes move :: "path \<Rightarrow> path \<Rightarrow> os_state \<Rightarrow> ('e + 'd) \<times> os_state"
  assumes move_frame: "r \<noteq> p \<Longrightarrow> r \<noteq> q \<Longrightarrow> files (snd (move p q os)) r = files os r"
    and move_done: "move p q os = (Inr d, os') \<Longrightarrow> p \<noteq> q \<Longrightarrow>
      \<exists>c. files os p = Some c \<and> files os' q = Some c \<and> (files os' p = None \<or> files os' p = Some c)"
    and move_failed: "move p q os = (Inl e, os') \<Longrightarrow> p \<noteq> q \<Longrightarrow> files os' p = files os p"
begin

lemma content_survives:
  assumes "files os p = Some c" "p \<noteq> q"
  shows "files (snd (move p q os)) p = Some c \<or> files (snd (move p q os)) q = Some c"
proof (cases "move p q os")
  case (Pair r os')
  then show ?thesis using assms move_done [of p q os] move_failed [of p q os] by (cases r) fastforce+
qed

lemma other_files_survive:
  "files os r = Some c \<Longrightarrow> r \<noteq> q \<Longrightarrow> r \<noteq> p \<Longrightarrow> files (snd (move p q os)) r = Some c"
  by (simp add: move_frame)

lemma source_untouched: "s \<noteq> p \<Longrightarrow> s \<noteq> q \<Longrightarrow> exists_file (snd (move p q os)) s = exists_file os s"
  by (simp add: exists_file_def move_frame)

end

definition rename_result :: "path \<Rightarrow> path \<Rightarrow> os_state \<Rightarrow> (os_error + unit) \<times> os_state" where
  "rename_result p q os = (case os_rename p q os of (None, os') \<Rightarrow> (Inr (), os') | (Some e, os') \<Rightarrow> (Inl e, os'))"

interpretation rn: file_mover rename_result
proof
  show "files (snd (rename_result p q os)) r = files os r" if "r \<noteq> p" "r \<noteq> q" for r p q os
    using that by (cases "os_rename p q os") (auto simp: rename_result_def elim!: os_rename_cases)
  show "\<exists>c. files os p = Some c \<and> files os' q = Some c \<and> (files os' p = None \<or> files os' p = Some c)"
    if "rename_result p q os = (Inr d, os')" "p \<noteq> q" for p q os d os'
    using that by (cases "os_rename p q os") (auto simp: rename_result_def elim!: os_rename_cases)
  show "files os' p = files os p" if "rename_result p q os = (Inl e, os')" "p \<noteq> q" for p q os e os'
    using that by (cases "os_rename p q os") (auto simp: rename_result_def elim!: os_rename_cases)
qed

lemma move_cases:
  assumes "move_generated_output staged final os = (r, os')" "staged \<noteq> final"
  obtains d c where "r = Inr d" "files os staged = Some c" "files os' = (files os)(staged := None, final := Some c)"
  | d c where "r = Inr d" "files os staged = Some c" "files os' = (files os)(final := Some c)"
  | e where "r = Inl e" "files os' = files os"
  | e part where "r = Inl e" "files os' = (files os)(final := Some part)"
proof -
  obtain r1 os1 where 1: "os_rename staged final os = (r1, os1)" by fastforce
  from 1 show thesis
  proof (cases rule: os_rename_cases)
    case (1 c)
    then show thesis using assms(1) \<open>os_rename staged final os = (r1, os1)\<close> that(1)
      by (auto simp: move_generated_output_def)
  next
    case (2 e)
    note f1 = 2(2)
    show thesis
    proof (cases "oe_errno e = Some exdev")
      case False
      then show thesis using assms(1) 1 2 that(3) by (auto simp: move_generated_output_def)
    next
      case True
      obtain r2 os2 where c2: "os_copyfile staged final os1 = (r2, os2)" by fastforce
      from c2 show thesis
      proof (cases rule: os_copyfile_cases)
        case c: (1 c)
        obtain r3 os3 where u: "os_unlink staged os2 = (r3, os3)" by fastforce
        from u show thesis
        proof (cases rule: os_unlink_cases)
          case (1 c')
          then have "r = Inr [(''move_strategy'', JStr ''copyfile''), (''cross_device_errno'', j_opt_int (oe_errno e)),
                         (''cross_device_message'', JStr (oe_message e))]" "os' = os3"
            using assms(1) \<open>os_rename staged final os = (r1, os1)\<close> 2 True c2 c(1) u
            by (auto simp: move_generated_output_def Let_def)
          moreover have "files os3 = (files os)(staged := None, final := Some c)"
            using 1 c f1 assms(2) by (auto simp: fun_upd_twist)
          ultimately show thesis using that(1) c f1 by auto
        next
          case e3: (2 e3)
          have "os' = os3" "\<exists>d. r = Inr d"
            using assms(1) 1 2 True c2 c(1) u e3
            by (auto simp: move_generated_output_def Let_def)
          moreover have "files os3 = (files os)(final := Some c)" using e3 c f1 by simp
          ultimately show thesis using that(2) c f1 by auto
        qed
      next
        case (2 e2)
        then show thesis using assms(1) 1 \<open>r1 = Some e\<close> True c2 f1 that(3)
          by (auto simp: move_generated_output_def Let_def)
      next
        case (3 e2 part)
        then show thesis using assms(1) 1 \<open>r1 = Some e\<close> True c2 f1 that(4)
          by (auto simp: move_generated_output_def Let_def)
      qed
    qed
  qed
qed

interpretation mv: file_mover move_generated_output
proof
  show "files (snd (move_generated_output p q os)) r = files os r" if "r \<noteq> p" "r \<noteq> q" for r p q os
  proof (cases "p = q")
    case True
    then show ?thesis using that
      by (cases "os_rename p q os")
         (auto simp: move_generated_output_def Let_def os_copyfile_def elim!: os_rename_cases)
  next
    case False
    obtain x os' where m: "move_generated_output p q os = (x, os')" by fastforce
    from m False show ?thesis by (cases rule: move_cases) (use that m in auto)
  qed
  show "\<exists>c. files os p = Some c \<and> files os' q = Some c \<and> (files os' p = None \<or> files os' p = Some c)"
    if "move_generated_output p q os = (Inr d, os')" "p \<noteq> q" for p q os d os'
    using that by (cases rule: move_cases) auto
  show "files os' p = files os p" if m: "move_generated_output p q os = (Inl e, os')" "p \<noteq> q" for p q os e os'
    using m by (cases rule: move_cases) (use m(2) in auto)
qed

lemma restore_cases:
  assumes "restore_replaced_backup temp backup d os = (d', os')"
  obtains "files os' = files os"
  | t c where "temp = Some t" "files os t = Some c" "files os backup = None"
      "files os' = (files os)(t := None, backup := Some c)"
proof (cases "\<exists>t. temp = Some t \<and> exists_file os t \<and> \<not> exists_file os backup")
  case False
  then have "os' = os"
    using assms by (cases temp) (auto simp: restore_replaced_backup_def Let_def split: if_splits)
  then show thesis using that(1) by simp
next
  case True
  then obtain t where t: "temp = Some t" "exists_file os t" "\<not> exists_file os backup" by blast
  obtain r os1 where r: "os_rename t backup os = (r, os1)" by fastforce
  have os': "os' = os1" using assms t r by (simp add: restore_replaced_backup_def Let_def)
  from r show thesis
  proof (cases rule: os_rename_cases)
    case (1 c)
    then show thesis using that(2) [of t c] t os' by (simp add: exists_file_def)
  next
    case (2 e)
    then show thesis using that(1) os' by simp
  qed
qed

lemma delete_temp_cases:
  assumes "delete_replaced_backup_temp temp src staged final backup d os = (d', os')"
  obtains "files os' = files os" | t where "temp = Some t" "files os' = (files os)(t := None)"
proof (cases "\<exists>t. temp = Some t \<and> exists_file os t")
  case False
  then have "os' = os"
    using assms by (cases temp) (auto simp: delete_replaced_backup_temp_def split: if_splits)
  then show thesis using that(1) by simp
next
  case True
  then obtain t where t: "temp = Some t" "exists_file os t" by blast
  obtain r os1 where r: "os_unlink t os = (r, os1)" by fastforce
  have os': "os' = os1"
    using assms t r by (cases r) (simp_all add: delete_replaced_backup_temp_def)
  from r show thesis
    by (cases rule: os_unlink_cases) (use that t os' in simp_all)
qed

lemma rollback_cases:
  assumes "rollback_source create_new src staged backup d os = (d', os')"
  obtains "files os' = files os"
  | c where "create_new" "files os backup = Some c" "files os src = None"
      "files os' = (files os)(backup := None, src := Some c)"
proof (cases "create_new \<and> exists_file os backup \<and> \<not> exists_file os src")
  case False
  then have "os' = os" using assms by (auto simp: rollback_source_def)
  then show thesis using that(1) by simp
next
  case True
  obtain r os1 where r: "os_rename backup src os = (r, os1)" by fastforce
  have os': "os' = os1" using assms True r by (simp add: rollback_source_def Let_def)
  from r show thesis
  proof (cases rule: os_rename_cases)
    case (1 c)
    then show thesis using that(2) [of c] True os' by (simp add: exists_file_def)
  next
    case (2 e)
    then show thesis using that(1) os' by simp
  qed
qed


subsection \<open>The paths involved\<close>

lemma backup_distinct:
  assumes "build_backup_path src = Some b"
  shows "b \<noteq> src" "with_suffix src (CHR ''.'' # output_container_value c) = Some f \<Longrightarrow> f \<noteq> b"
    "length (path_name src) < length (path_name b)"
proof -
  have n: "path_name b = path_stem src @ ''.encodr-backup'' @ path_suffix src"
    using assms with_name_name by (simp add: build_backup_path_def)
  have s: "path_name src = path_stem src @ path_suffix src"
    by (simp add: path_stem_def path_suffix_def stem_suffix)
  show l: "length (path_name src) < length (path_name b)" unfolding n s by simp
  then show "b \<noteq> src" by auto
  assume "with_suffix src (CHR ''.'' # output_container_value c) = Some f"
  then have f: "path_name f = path_stem src @ CHR ''.'' # output_container_value c"
    using with_name_name by (auto simp: with_suffix_def split: if_splits)
  have "hd (output_container_value c) = CHR ''m''" "output_container_value c \<noteq> []" by (cases c; simp)+
  then have "path_name f \<noteq> path_name b" unfolding f n by (cases "output_container_value c") auto
  then show "f \<noteq> b" by auto
qed

lemma temp_distinct:
  assumes "build_backup_path src = Some b" "temp_backup_name b u = Some t"
  shows "t \<noteq> b" "t \<noteq> src" "with_suffix src (CHR ''.'' # output_container_value c) = Some f \<Longrightarrow> t \<noteq> f"
proof -
  have t: "path_name t = path_name b @ ''.replacing-'' @ u @ ''.tmp''"
    using assms(2) with_name_name by (simp add: temp_backup_name_def)
  then have "length (path_name b) < length (path_name t)" by simp
  then show "t \<noteq> b" "t \<noteq> src" using backup_distinct(3) [OF assms(1)] by auto
  have n: "path_name b = path_stem src @ ''.encodr-backup'' @ path_suffix src"
    using assms(1) with_name_name by (simp add: build_backup_path_def)
  assume "with_suffix src (CHR ''.'' # output_container_value c) = Some f"
  then have f: "path_name f = path_stem src @ CHR ''.'' # output_container_value c"
    using with_name_name by (auto simp: with_suffix_def split: if_splits)
  have "hd (output_container_value c) = CHR ''m''" "output_container_value c \<noteq> []" by (cases c; simp)+
  then have "path_name t \<noteq> path_name f" unfolding t n f by (cases "output_container_value c") auto
  then show "t \<noteq> f" by auto
qed

lemma temporary_path_free:
  assumes "temporary_replaced_backup_path uuids k backup os = Some r"
  shows "\<forall>t. r = Some t \<longrightarrow> files os t = None \<and> (\<exists>u. temp_backup_name backup u = Some t)"
proof (rule temporary_replaced_backup_path.raw_induct
    [where P = "\<lambda>uuids k backup os r. \<forall>t. r = Some t \<longrightarrow> files os t = None \<and> (\<exists>u. temp_backup_name backup u = Some t)",
     OF _ assms])
  fix f and uuids' :: "nat \<Rightarrow> string" and k' b os' y
  assume IH: "\<And>k backup os b y. f k backup os b = Some y \<Longrightarrow>
      \<forall>t. y = Some t \<longrightarrow> files b t = None \<and> (\<exists>u. temp_backup_name os u = Some t)"
    and run: "(case temp_backup_name b (uuids' k') of None \<Rightarrow> Some None
      | Some t \<Rightarrow> if \<not> exists_file os' t then Some (Some t) else f uuids' (Suc k') b os') = Some y"
  show "\<forall>t. y = Some t \<longrightarrow> files os' t = None \<and> (\<exists>u. temp_backup_name b u = Some t)"
  proof (cases "temp_backup_name b (uuids' k')")
    case None
    then show ?thesis using run by auto
  next
    case (Some t)
    show ?thesis
    proof (cases "exists_file os' t")
      case True
      then have "f uuids' (Suc k') b os' = Some y" using run Some by simp
      then show ?thesis by (rule IH)
    next
      case False
      then show ?thesis using run Some by (auto simp: exists_file_def)
    qed
  qed
qed

lemma temp_backup_name_inj:
  assumes "temp_backup_name b u = Some t" "temp_backup_name b v = Some t"
  shows "u = v"
proof -
  have "path_name b @ ''.replacing-'' @ u @ ''.tmp'' = path_name b @ ''.replacing-'' @ v @ ''.tmp''"
    using assms [unfolded temp_backup_name_def] with_name_name by metis
  then show ?thesis by simp
qed

text \<open>With distinct names, some drawn name is free of any finite set of files.\<close>

lemma temporary_path_returns:
  assumes "finite (dom (files os))" "inj uuids"
  shows "\<exists>r. temporary_replaced_backup_path uuids k backup os = Some r"
proof -
  have found: "\<exists>r. temporary_replaced_backup_path uuids k backup os = Some r"
    if "case temp_backup_name backup (uuids (k + n)) of None \<Rightarrow> True | Some t \<Rightarrow> files os t = None" for n k
    using that
  proof (induction n arbitrary: k)
    case 0
    then show ?case
      by (subst temporary_replaced_backup_path.simps) (auto simp: exists_file_def split: option.splits)
  next
    case (Suc n)
    then have "\<exists>r. temporary_replaced_backup_path uuids (Suc k) backup os = Some r" by simp
    then show ?case
      by (subst temporary_replaced_backup_path.simps) (auto split: option.splits)
  qed
  have "\<exists>n. case temp_backup_name backup (uuids (k + n)) of None \<Rightarrow> True | Some t \<Rightarrow> files os t = None"
  proof (rule ccontr)
    assume "\<not> ?thesis"
    then have no: "\<not> (case temp_backup_name backup (uuids (k + n)) of None \<Rightarrow> True | Some t \<Rightarrow> files os t = None)" for n
      by blast
    have all: "\<exists>t. temp_backup_name backup (uuids (k + n)) = Some t \<and> t \<in> dom (files os)" for n
      using no [of n] by (auto simp: dom_def split: option.splits)
    let ?g = "\<lambda>n. the (temp_backup_name backup (uuids (k + n)))"
    have "inj ?g"
    proof (rule injI)
      fix a b assume e: "?g a = ?g b"
      obtain t where "temp_backup_name backup (uuids (k + a)) = Some t" using all by blast
      moreover have "temp_backup_name backup (uuids (k + b)) = Some t"
        using all [of b] e calculation by auto
      ultimately have "uuids (k + a) = uuids (k + b)"
        by (rule temp_backup_name_inj)
      then show "a = b" using assms(2) by (simp add: inj_eq)
    qed
    moreover have "range ?g \<subseteq> dom (files os)" proof
      fix x assume "x \<in> range ?g"
      then obtain n where "x = ?g n" by blast
      then show "x \<in> dom (files os)" using all [of n] by auto
    qed
    ultimately show False using assms(1) by (meson finite_imageD finite_subset infinite_UNIV_nat)
  qed
  then show ?thesis using found by blast
qed

subsection \<open>What each stage leaves behind\<close>

definition safe_layout :: "path \<Rightarrow> path \<Rightarrow> path \<Rightarrow> path \<Rightarrow> path option \<Rightarrow> bool" where
  "safe_layout src staged final backup temp \<longleftrightarrow>
     staged \<noteq> src \<and> staged \<noteq> final \<and> staged \<noteq> backup \<and> backup \<noteq> src \<and> backup \<noteq> final
     \<and> (\<forall>t. temp = Some t \<longrightarrow> t \<noteq> src \<and> t \<noteq> final \<and> t \<noteq> backup \<and> t \<noteq> staged)"

lemma finish_Done:
  assumes "finish_in_place p src staged final backup temp os = Done r os'"
    and lay: "safe_layout src staged final backup temp"
  shows "\<exists>n. files os staged = Some n \<and> files os' final = Some n \<and> rr_status r = R_SUCCEEDED
      \<and> rr_final_output_path r = Some final
      \<and> (rr_deleted_original_source r \<longrightarrow> delete_replaced_source (plan_replace p)
           \<and> existing_backup_strategy (plan_replace p) \<noteq> ''keep_existing_backup'' \<and> files os' backup = None)
      \<and> (\<not> rr_deleted_original_source r \<longrightarrow> files os' backup = files os backup
            \<and> rr_original_backup_path r = Some backup)
      \<and> (\<forall>q. q \<noteq> final \<and> q \<noteq> staged \<and> q \<noteq> backup \<and> temp \<noteq> Some q \<longrightarrow> files os' q = files os q)"
proof -
  obtain m os1 where m: "move_generated_output staged final os = (m, os1)" by fastforce
  have sf: "staged \<noteq> final" using lay by (simp add: safe_layout_def)
  obtain moved where moved: "m = Inr moved"
    using assms(1) m by (cases m) (auto simp: finish_in_place_def Let_def split_beta)
  obtain n where n: "files os staged = Some n" "files os1 final = Some n"
    using mv.move_done [of staged final os moved os1] m sf moved by auto
  have fr: "files os1 q = files os q" if "q \<noteq> staged" "q \<noteq> final" for q
    using mv.move_frame [OF that, of os] m by simp
  let ?d0 = "merge [(''mode'', JStr ''replace_in_place''),
      (''existing_backup_strategy'', JStr (existing_backup_strategy (plan_replace p)))] moved"
  show ?thesis
  proof (cases "existing_backup_strategy (plan_replace p) \<noteq> ''keep_existing_backup''
      \<and> delete_replaced_source (plan_replace p) \<and> exists_file os1 backup")
    case False
    obtain d1 os2 where d: "delete_replaced_backup_temp temp src staged final backup ?d0 os1 = (d1, os2)" by fastforce
    have r: "r = succeeded final (Some backup) False d1" "os' = os2"
      using assms(1) m moved d False by (auto simp: finish_in_place_def Let_def)
    from d show ?thesis
      by (cases rule: delete_temp_cases) (use r n fr lay in \<open>auto simp: succeeded_def safe_layout_def\<close>)
  next
    case True
    obtain u os2 where u: "os_unlink backup os1 = (u, os2)" by fastforce
    obtain d1 os3 where d: "delete_replaced_backup_temp temp src staged final backup ?d0 os2 = (d1, os3)" by fastforce
    from u show ?thesis
    proof (cases rule: os_unlink_cases)
      case (1 c)
      have r: "r = succeeded final None True d1" "os' = os3"
        using assms(1) m moved d True u 1(1) by (auto simp: finish_in_place_def Let_def)
      from d show ?thesis
        by (cases rule: delete_temp_cases) (use r n fr lay 1 True in \<open>auto simp: succeeded_def safe_layout_def\<close>)
    next
      case (2 e)
      have r: "os' = os3" "rr_status r = R_SUCCEEDED" "rr_final_output_path r = Some final"
        "\<not> rr_deleted_original_source r" "rr_original_backup_path r = Some backup"
        using assms(1) m moved d True u 2(1) by (auto simp: finish_in_place_def Let_def succeeded_def)
      from d show ?thesis
        by (cases rule: delete_temp_cases) (use r n fr lay 2 in \<open>auto simp: safe_layout_def\<close>)
    qed
  qed
qed

lemma finish_Thrown:
  assumes "finish_in_place p src staged final backup temp os = Thrown e os'"
    and lay: "safe_layout src staged final backup temp"
  shows "files os' staged = files os staged"
    "existing_backup_strategy (plan_replace p) \<noteq> ''keep_existing_backup'' \<Longrightarrow> files os backup = Some c \<Longrightarrow>
       files os' src = Some c \<or> files os' backup = Some c"
    "existing_backup_strategy (plan_replace p) = ''keep_existing_backup'' \<Longrightarrow> temp = None \<Longrightarrow>
       files os' backup = files os backup"
    "temp = Some t \<Longrightarrow> files os t = Some b \<Longrightarrow> files os' t = Some b \<or> files os' backup = Some b"
proof -
  let ?new = "existing_backup_strategy (plan_replace p) \<noteq> ''keep_existing_backup''"
  obtain m os1 where m: "move_generated_output staged final os = (m, os1)" by fastforce
  have sf: "staged \<noteq> final" using lay by (simp add: safe_layout_def)
  obtain x where x: "m = Inl x"
    using assms(1) m by (cases m) (auto simp: finish_in_place_def Let_def split_beta split: option.splits if_splits prod.splits)
  let ?d0 = "replacement_failure_details ''move_verified_output_into_place'' x src staged (Some final) (Some backup) os1"
  obtain d1 os2 where rb: "rollback_source ?new src staged backup ?d0 os1 = (d1, os2)" by fastforce
  obtain d2 os3 where rs: "restore_replaced_backup temp backup d1 os2 = (d2, os3)" by fastforce
  have o: "os' = os3" using assms(1) m x rb rs by (auto simp: finish_in_place_def Let_def)
  have st: "files os1 staged = files os staged" using mv.move_failed [of staged final os x os1] m x sf by simp
  have fr: "files os1 q = files os q" if "q \<noteq> staged" "q \<noteq> final" for q
    using mv.move_frame [OF that, of os] m by simp
  have L: "staged \<noteq> src" "staged \<noteq> backup" "backup \<noteq> src" "backup \<noteq> final" "backup \<noteq> staged"
    "\<And>t. temp = Some t \<Longrightarrow> t \<noteq> src \<and> t \<noteq> final \<and> t \<noteq> backup \<and> t \<noteq> staged"
    using lay by (auto simp: safe_layout_def)
  have 2: "files os2 staged = files os staged"
    "?new \<Longrightarrow> files os backup = Some c \<Longrightarrow> files os2 src = Some c \<or> files os2 backup = Some c"
    "\<not> ?new \<Longrightarrow> files os2 backup = files os backup"
    "\<And>t. temp = Some t \<Longrightarrow> files os2 t = files os t"
    using rb by (cases rule: rollback_cases; use st fr L in force)+
  show "files os' staged = files os staged" unfolding o
    using rs by (cases rule: restore_cases) (use 2 L in auto)
  show "files os' src = Some c \<or> files os' backup = Some c" if "?new" "files os backup = Some c" unfolding o
    using rs by (cases rule: restore_cases) (use 2(2) [OF that] L in auto)
  show "files os' backup = files os backup"
    if "existing_backup_strategy (plan_replace p) = ''keep_existing_backup''" "temp = None" unfolding o
    using rs by (cases rule: restore_cases) (use 2(3) that in auto)
  show "files os' t = Some b \<or> files os' backup = Some b" if "temp = Some t" "files os t = Some b" unfolding o
    using rs by (cases rule: restore_cases) (use 2(4) that L in auto)
qed

lemma stage_frame:
  assumes lay: "safe_layout src staged final backup temp"
    and q: "q \<noteq> src" "q \<noteq> staged" "q \<noteq> final" "q \<noteq> backup" "temp \<noteq> Some q"
  shows "finish_in_place p src staged final backup temp os = Done r os' \<Longrightarrow> files os' q = files os q"
    "finish_in_place p src staged final backup temp os = Thrown e os' \<Longrightarrow> files os' q = files os q"
proof -
  show "files os' q = files os q" if "finish_in_place p src staged final backup temp os = Done r os'"
    using finish_Done [OF that lay] q by blast
  assume run: "finish_in_place p src staged final backup temp os = Thrown e os'"
  let ?new = "existing_backup_strategy (plan_replace p) \<noteq> ''keep_existing_backup''"
  obtain m os1 where m: "move_generated_output staged final os = (m, os1)" by fastforce
  obtain x where x: "m = Inl x"
    using run m by (cases m) (auto simp: finish_in_place_def Let_def split_beta split: option.splits if_splits prod.splits)
  let ?d0 = "replacement_failure_details ''move_verified_output_into_place'' x src staged (Some final) (Some backup) os1"
  obtain d1 os2 where rb: "rollback_source ?new src staged backup ?d0 os1 = (d1, os2)" by fastforce
  obtain d2 os3 where rs: "restore_replaced_backup temp backup d1 os2 = (d2, os3)" by fastforce
  have "os' = os3" using run m x rb rs by (auto simp: finish_in_place_def Let_def)
  moreover have "files os1 q = files os q" using mv.move_frame [of q staged final os] m q by simp
  moreover have "files os2 q = files os1 q" using rb q by (cases rule: rollback_cases) auto
  moreover have "files os3 q = files os2 q" using rs q by (cases rule: restore_cases) auto
  ultimately show "files os' q = files os q" by simp
qed

lemma backup_source_cases:
  assumes "backup_source p src staged final backup temp os = res"
  obtains "existing_backup_strategy (plan_replace p) = ''keep_existing_backup''"
      "res = finish_in_place p src staged final backup temp os"
  | c os1 where "existing_backup_strategy (plan_replace p) \<noteq> ''keep_existing_backup''"
      "os_rename src backup os = (None, os1)" "files os src = Some c"
      "files os1 = (files os)(src := None, backup := Some c)"
      "res = finish_in_place p src staged final backup temp os1"
  | x os1 d d' os2 e where "existing_backup_strategy (plan_replace p) \<noteq> ''keep_existing_backup''"
      "os_rename src backup os = (Some x, os1)" "files os1 = files os"
      "restore_replaced_backup temp backup d os1 = (d', os2)" "res = Thrown e os2"
proof (cases "existing_backup_strategy (plan_replace p) = ''keep_existing_backup''")
  case True
  then show thesis using assms that(1) by (simp add: backup_source_def)
next
  case new: False
  obtain x os1 where r: "os_rename src backup os = (x, os1)" by fastforce
  from r show thesis
  proof (cases rule: os_rename_cases)
    case (1 c)
    then show thesis using that(2) [of os1 c] new r assms by (simp add: backup_source_def)
  next
    case (2 y)
    let ?d = "replacement_failure_details ''move_source_to_backup'' y src staged (Some final) (Some backup) os1"
    obtain d' os2 where "restore_replaced_backup temp backup ?d os1 = (d', os2)" by fastforce
    then show thesis using new r 2 assms by (intro that(3) [OF new _ 2(2) _ sym]) (simp_all add: backup_source_def Let_def)
  qed
qed

lemma in_place_cases:
  assumes "replace_in_place uuids p src staged os = res"
  obtains (unchanged) e os1 where "res = Thrown e os1" "files os1 = files os"
  | (raised) "res = ValueFailure os"
  | (loops) backup where "res = Loops" "temporary_replaced_backup_path uuids 0 backup os = None"
  | (direct) final backup where
      "with_suffix src (CHR ''.'' # output_container_value (target_container (plan_container p))) = Some final"
      "build_backup_path src = Some backup" "final = src \<or> files os final = None" "files os src \<noteq> None"
      "files os backup \<noteq> None \<Longrightarrow> existing_backup_strategy (plan_replace p) \<notin> {''fail'', ''replace_backup''}"
      "res = backup_source p src staged final backup None os"
  | (aside) final backup t b u os1 where
      "with_suffix src (CHR ''.'' # output_container_value (target_container (plan_container p))) = Some final"
      "build_backup_path src = Some backup" "final = src \<or> files os final = None" "files os src \<noteq> None"
      "existing_backup_strategy (plan_replace p) = ''replace_backup''"
      "files os backup = Some b" "files os t = None" "temp_backup_name backup u = Some t"
      "os_rename backup t os = (None, os1)" "files os1 = (files os)(backup := None, t := Some b)"
      "res = backup_source p src staged final backup (Some t) os1"
proof (cases "exists_file os src")
  case False
  then show thesis using assms by (intro unchanged [OF sym]) (simp_all add: replace_in_place_def)
next
  case src: True
  let ?wf = "with_suffix src (CHR ''.'' # output_container_value (target_container (plan_container p)))"
  let ?s = "existing_backup_strategy (plan_replace p)"
  show thesis
  proof (cases "?wf = None \<or> build_backup_path src = None")
    case True
    then show thesis using assms raised src by (auto simp: replace_in_place_def split: option.splits)
  next
    case False
    then obtain final backup where w: "?wf = Some final" and b: "build_backup_path src = Some backup" by auto
    note run = assms [unfolded replace_in_place_def w b Let_def prod.case option.case]
    consider (refuse) "exists_file os backup \<and> ?s = ''fail'' \<or> \<not> exists_file os backup \<and> ?s = ''keep_existing_backup''
        \<or> final \<noteq> src \<and> exists_file os final"
      | (rename) "\<not> (exists_file os backup \<and> ?s = ''fail'')" "\<not> (\<not> exists_file os backup \<and> ?s = ''keep_existing_backup'')"
        "\<not> (final \<noteq> src \<and> exists_file os final)" "exists_file os backup \<and> ?s = ''replace_backup''"
      | (plain) "\<not> (exists_file os backup \<and> ?s = ''fail'')" "\<not> (\<not> exists_file os backup \<and> ?s = ''keep_existing_backup'')"
        "\<not> (final \<noteq> src \<and> exists_file os final)" "\<not> (exists_file os backup \<and> ?s = ''replace_backup'')"
      by argo
    then show thesis
    proof cases
      case refuse
      then show thesis using run src unchanged by (auto split: if_splits)
    next
      case plain
      have "res = backup_source p src staged final backup None os" using run src plain by simp
      then show thesis using direct [OF w b] src plain by (auto simp: exists_file_def)
    next
      case rename
      show thesis
      proof (cases "temporary_replaced_backup_path uuids 0 backup os")
        case None
        then show thesis using run src rename loops by simp
      next
        case (Some r)
        note free = temporary_path_free [OF Some]
        show thesis
        proof (cases r)
          case None
          then show thesis using run src rename Some raised by simp
        next
          case t: (Some t)
          obtain u where u: "files os t = None" "temp_backup_name backup u = Some t" using free t by blast
          obtain x os1 where r: "os_rename backup t os = (x, os1)" by fastforce
          from r show thesis
          proof (cases rule: os_rename_cases)
            case (1 c)
            have "res = backup_source p src staged final backup (Some t) os1"
              using run src rename Some t r 1(1) by simp
            then show thesis
              using aside [OF w b _ _ _ 1(2) u r [unfolded 1(1)] 1(3)] src rename by (auto simp: exists_file_def)
          next
            case (2 e)
            then show thesis using run src rename Some t r by (intro unchanged [OF sym 2(2)]) simp
          qed
        qed
      qed
    qed
  qed
qed

lemma layout:
  assumes "with_suffix src (CHR ''.'' # output_container_value c) = Some final" "build_backup_path src = Some backup"
    and "final = src \<or> files os final = None" "files os staged \<noteq> None" "staged \<noteq> src" "staged \<noteq> backup"
    and "\<And>t. temp = Some t \<Longrightarrow> files os t = None \<and> (\<exists>u. temp_backup_name backup u = Some t)"
  shows "safe_layout src staged final backup temp"
  unfolding safe_layout_def
  using assms backup_distinct(1,2) [OF assms(2)] temp_distinct [OF assms(2)] by fastforce

lemma backup_source_Done:
  assumes run: "backup_source p src staged final backup temp os = Done r os'"
    and lay: "safe_layout src staged final backup temp"
  shows "rr_status r = R_SUCCEEDED" "rr_final_output_path r = Some final"
    "files os staged \<noteq> None" "files os' final = files os staged"
    "rr_deleted_original_source r \<Longrightarrow> delete_replaced_source (plan_replace p)
       \<and> existing_backup_strategy (plan_replace p) \<noteq> ''keep_existing_backup''"
    "\<not> rr_deleted_original_source r \<Longrightarrow> rr_original_backup_path r = Some backup
       \<and> files os' backup = (if existing_backup_strategy (plan_replace p) = ''keep_existing_backup''
                             then files os backup else files os src)"
    "\<And>q. q \<noteq> src \<Longrightarrow> q \<noteq> staged \<Longrightarrow> q \<noteq> final \<Longrightarrow> q \<noteq> backup \<Longrightarrow> temp \<noteq> Some q \<Longrightarrow> files os' q = files os q"
proof -
  have L: "staged \<noteq> src" "staged \<noteq> backup" "backup \<noteq> src" "backup \<noteq> final" using lay by (auto simp: safe_layout_def)
  from run obtain os1 where f: "finish_in_place p src staged final backup temp os1 = Done r os'"
    and same: "\<And>q. q \<noteq> src \<Longrightarrow> q \<noteq> backup \<Longrightarrow> files os1 q = files os q"
    and bk: "files os1 backup = (if existing_backup_strategy (plan_replace p) = ''keep_existing_backup''
                             then files os backup else files os src)"
  proof (cases rule: backup_source_cases)
    case 1 then show thesis using that [of os] by simp
  next
    case (2 c os1) then show thesis using that [of os1] by simp
  qed simp
  note F = finish_Done [OF f lay]
  show "rr_status r = R_SUCCEEDED" "rr_final_output_path r = Some final" using F by blast+
  show "files os staged \<noteq> None" "files os' final = files os staged" using F same [of staged] L by auto
  show "delete_replaced_source (plan_replace p)
       \<and> existing_backup_strategy (plan_replace p) \<noteq> ''keep_existing_backup''" if "rr_deleted_original_source r"
    using F that by blast
  show "rr_original_backup_path r = Some backup
       \<and> files os' backup = (if existing_backup_strategy (plan_replace p) = ''keep_existing_backup''
                             then files os backup else files os src)" if "\<not> rr_deleted_original_source r"
    using F that unfolding bk by blast
  show "files os' q = files os q" if "q \<noteq> src" "q \<noteq> staged" "q \<noteq> final" "q \<noteq> backup" "temp \<noteq> Some q" for q
    using stage_frame(1) [OF lay that f] same [of q] that by simp
qed

lemma backup_source_Thrown:
  assumes run: "backup_source p src staged final backup temp os = Thrown e os'"
    and lay: "safe_layout src staged final backup temp"
  shows "files os' staged = files os staged"
    "existing_backup_strategy (plan_replace p) \<noteq> ''keep_existing_backup'' \<Longrightarrow> files os src = Some c \<Longrightarrow>
       files os' src = Some c \<or> files os' backup = Some c"
    "existing_backup_strategy (plan_replace p) = ''keep_existing_backup'' \<Longrightarrow> temp = None \<Longrightarrow>
       files os' backup = files os backup"
    "temp = Some t \<Longrightarrow> files os t = Some b \<Longrightarrow> files os' t = Some b \<or> files os' backup = Some b"
    "\<And>q. q \<noteq> src \<Longrightarrow> q \<noteq> staged \<Longrightarrow> q \<noteq> final \<Longrightarrow> q \<noteq> backup \<Longrightarrow> temp \<noteq> Some q \<Longrightarrow> files os' q = files os q"
proof -
  have L: "staged \<noteq> src" "staged \<noteq> backup" "backup \<noteq> src" "backup \<noteq> final"
    "\<And>t. temp = Some t \<Longrightarrow> t \<noteq> src \<and> t \<noteq> final \<and> t \<noteq> backup \<and> t \<noteq> staged"
    using lay by (auto simp: safe_layout_def)
  let ?keep = "existing_backup_strategy (plan_replace p) = ''keep_existing_backup''"
  have "files os' staged = files os staged \<and> (\<not> ?keep \<longrightarrow> files os src = Some c \<longrightarrow>
       files os' src = Some c \<or> files os' backup = Some c)
     \<and> (?keep \<longrightarrow> temp = None \<longrightarrow> files os' backup = files os backup)
     \<and> (temp = Some t \<longrightarrow> files os t = Some b \<longrightarrow> files os' t = Some b \<or> files os' backup = Some b)
     \<and> (\<forall>q. q \<noteq> src \<and> q \<noteq> staged \<and> q \<noteq> final \<and> q \<noteq> backup \<and> temp \<noteq> Some q \<longrightarrow> files os' q = files os q)"
    using run
  proof (cases rule: backup_source_cases)
    case 1
    note f = finish_Thrown [OF 1(2) [symmetric] lay] and fr = stage_frame(2) [OF lay _ _ _ _ _ 1(2) [symmetric]]
    show ?thesis using f(1,3) f(4) [of t b] fr 1(1) by auto
  next
    case (2 c' os1)
    note f = finish_Thrown [OF 2(5) [symmetric] lay] and fr = stage_frame(2) [OF lay _ _ _ _ _ 2(5) [symmetric]]
    have q: "files os1 q = files os q" if "q \<noteq> src" "q \<noteq> backup" for q using 2(4) that by simp
    show ?thesis using f(1) f(2) [of c] f(4) [of t b] fr q L 2(1,3,4) by auto
  next
    case (3 x os1 d d' os2)
    from 3(4) show ?thesis by (cases rule: restore_cases) (use 3 L in auto)
  qed
  then show "files os' staged = files os staged"
    "\<not> ?keep \<Longrightarrow> files os src = Some c \<Longrightarrow> files os' src = Some c \<or> files os' backup = Some c"
    "?keep \<Longrightarrow> temp = None \<Longrightarrow> files os' backup = files os backup"
    "temp = Some t \<Longrightarrow> files os t = Some b \<Longrightarrow> files os' t = Some b \<or> files os' backup = Some b"
    "\<And>q. q \<noteq> src \<Longrightarrow> q \<noteq> staged \<Longrightarrow> q \<noteq> final \<Longrightarrow> q \<noteq> backup \<Longrightarrow> temp \<noteq> Some q \<Longrightarrow> files os' q = files os q"
    by blast+
qed

subsection \<open>Placement as a whole\<close>

lemma place_cases:
  assumes "place_verified_output uuids src staged p os = Done r os'"
  obtains (missing) "rr_status r = R_FAILED" "os' = os" "files os staged = None"
  | (failed) e where "files os staged \<noteq> None" "rr_status r = R_FAILED" "\<not> rr_deleted_original_source r"
      "(if in_place (plan_replace p) then replace_in_place uuids p src staged os
        else place_alongside_original p src staged os) = Thrown e os'"
  | (ok) "files os staged \<noteq> None"
      "(if in_place (plan_replace p) then replace_in_place uuids p src staged os
        else place_alongside_original p src staged os) = Done r os'"
proof (cases "exists_file os staged")
  case False
  then show thesis using assms by (intro missing) (auto simp: place_verified_output_def exists_file_def)
next
  case st: True
  let ?run = "if in_place (plan_replace p) then replace_in_place uuids p src staged os
        else place_alongside_original p src staged os"
  have ex: "files os staged \<noteq> None" using st by (simp add: exists_file_def)
  show thesis
  proof (cases ?run)
    case (Thrown e os1)
    then have "rr_status r = R_FAILED" "\<not> rr_deleted_original_source r" "os1 = os'"
      using assms st by (auto simp: place_verified_output_def simp del: if_split)
    then show thesis using failed [OF ex] Thrown by blast
  next
    case (Done r1 os1)
    then have "?run = Done r os'" using assms st by (simp add: place_verified_output_def del: if_split)
    then show thesis using ok [OF ex] by blast
  qed (use assms st in \<open>auto simp: place_verified_output_def simp del: if_split\<close>)
qed

lemma alongside_cases:
  assumes "place_alongside_original p src staged os = res" "files os staged \<noteq> None"
  obtains (raised) "res = ValueFailure os"
  | (refused) e where "res = Thrown e os"
  | (failed) final e os1 where "files os final = None" "final \<noteq> staged" "res = Thrown e os1"
      "files os1 staged = files os staged" "\<And>q. q \<noteq> final \<Longrightarrow> files os1 q = files os q"
  | (placed) final r os1 where "files os final = None" "final \<noteq> staged" "res = Done r os1" "rr_status r = R_SUCCEEDED"
      "rr_final_output_path r = Some final" "\<not> rr_deleted_original_source r"
      "files os1 final = files os staged" "\<And>q. q \<noteq> staged \<Longrightarrow> q \<noteq> final \<Longrightarrow> files os1 q = files os q"
proof (cases "with_name src (path_stem src @ ''.encodr.'' @ output_container_value (target_container (plan_container p)))")
  case None
  then show thesis using assms(1) by (intro raised) (simp add: place_alongside_original_def)
next
  case (Some final)
  show thesis
  proof (cases "exists_file os final")
    case True
    then show thesis using assms(1) Some by (intro refused [OF sym]) (simp add: place_alongside_original_def)
  next
    case False
    then have free: "files os final = None" and ne: "final \<noteq> staged" using assms(2) by (auto simp: exists_file_def)
    obtain m os1 where m: "move_generated_output staged final os = (m, os1)" by fastforce
    have fr: "files os1 q = files os q" if "q \<noteq> staged" "q \<noteq> final" for q
      using mv.move_frame [OF that, of os] m by simp
    show thesis
    proof (cases m)
      case (Inl e)
      have s: "files os1 staged = files os staged" using mv.move_failed [of staged final os e os1] m Inl ne by simp
      have "files os1 q = files os q" if "q \<noteq> final" for q using s fr that by (cases "q = staged") auto
      moreover have "\<exists>e. res = Thrown e os1" using assms(1) Some False m Inl by (auto simp: place_alongside_original_def)
      ultimately show thesis using failed [OF free ne] s by blast
    next
      case (Inr d)
      have "files os1 final = files os staged" using mv.move_done [of staged final os d os1] m Inr ne by auto
      moreover have "res = Done (succeeded final None False (merge [(''mode'', JStr ''keep_original'')] d)) os1"
        using assms(1) Some False m Inr by (auto simp: place_alongside_original_def)
      ultimately show thesis using placed [OF free ne] fr by (simp add: succeeded_def)
    qed
  qed
qed

lemma alongside_frame:
  assumes "place_alongside_original p src staged os = res" "files os staged \<noteq> None"
    and "res = Done r os' \<or> res = Thrown e os'" "files os q = Some x" "q \<noteq> staged"
  shows "files os' q = Some x"
  using assms(1,2)
proof (cases rule: alongside_cases)
  case (failed final e os1)
  then have "q \<noteq> final" using assms(4) by auto
  then show ?thesis using failed assms(3,4) by auto
next
  case (placed final r os1)
  then have "q \<noteq> final" using assms(4) by auto
  then show ?thesis using placed assms(3-5) by auto
qed (use assms(3,4) in auto)

text \<open>The paths a placement may use: the staged file is not the source and not its backup.\<close>

definition separate_paths :: "path \<Rightarrow> path \<Rightarrow> bool" where
  "separate_paths src staged \<longleftrightarrow> staged \<noteq> src \<and> build_backup_path src \<noteq> Some staged"

lemma in_place_layout:
  assumes "separate_paths src staged" "files os staged \<noteq> None"
  shows "with_suffix src (CHR ''.'' # output_container_value c) = Some final \<Longrightarrow> build_backup_path src = Some backup \<Longrightarrow>
     final = src \<or> files os final = None \<Longrightarrow> safe_layout src staged final backup None"
   "with_suffix src (CHR ''.'' # output_container_value c) = Some final \<Longrightarrow> build_backup_path src = Some backup \<Longrightarrow>
     final = src \<or> files os final = None \<Longrightarrow> files os t = None \<Longrightarrow> temp_backup_name backup u = Some t \<Longrightarrow>
     safe_layout src staged final backup (Some t)"
  by (rule layout; use assms in \<open>force simp: separate_paths_def\<close>)+

lemma source_kept:
  assumes "place_verified_output uuids src staged p os = Done r os'"
    and "separate_paths src staged" "files os src = Some c"
    and "in_place (plan_replace p) \<Longrightarrow> existing_backup_strategy (plan_replace p) \<noteq> ''keep_existing_backup''"
  shows "files os' src = Some c
    \<or> (\<exists>b. build_backup_path src = Some b \<and> files os' b = Some c)
    \<or> rr_status r = R_SUCCEEDED \<and> rr_deleted_original_source r \<and> in_place (plan_replace p)
      \<and> delete_replaced_source (plan_replace p)
      \<and> (\<exists>f. rr_final_output_path r = Some f \<and> files os' f = files os staged \<and> files os staged \<noteq> None)"
  using assms(1)
proof (cases rule: place_cases)
  case missing
  then show ?thesis using assms(3) by simp
next
  case (failed e)
  show ?thesis
  proof (cases "in_place (plan_replace p)")
    case True
    note new = assms(4) [OF True]
    have run: "replace_in_place uuids p src staged os = Thrown e os'" using failed(4) True by simp
    then show ?thesis
    proof (cases rule: in_place_cases)
      case (unchanged e os1)
      then show ?thesis using assms(3) by simp
    next
      case (direct final backup)
      note lay = in_place_layout(1) [OF assms(2) failed(1) direct(1-3)]
      show ?thesis using backup_source_Thrown(2) [OF direct(6) [symmetric] lay new assms(3)] direct(2) by blast
    next
      case (aside final backup t b u os1)
      note lay = in_place_layout(2) [OF assms(2) failed(1) aside(1-3,7,8)]
      have "files os1 src = Some c" using aside(10) assms(3) lay by (auto simp: safe_layout_def)
      from backup_source_Thrown(2) [OF aside(11) [symmetric] lay new this] show ?thesis using aside(2) by blast
    qed simp_all
  next
    case False
    then have "place_alongside_original p src staged os = Thrown e os'" using failed(4) by simp
    from alongside_frame [OF this failed(1) _ assms(3)] assms(2) show ?thesis by (auto simp: separate_paths_def)
  qed
next
  case ok
  show ?thesis
  proof (cases "in_place (plan_replace p)")
    case True
    note new = assms(4) [OF True]
    have "replace_in_place uuids p src staged os = Done r os'" using ok(2) True by simp
    then show ?thesis
    proof (cases rule: in_place_cases)
      case (direct final backup)
      note lay = in_place_layout(1) [OF assms(2) ok(1) direct(1-3)]
      note D = backup_source_Done [OF direct(6) [symmetric] lay]
      show ?thesis using D(1-6) new True direct(2) assms(3) by (cases "rr_deleted_original_source r") auto
    next
      case (aside final backup t b u os1)
      note lay = in_place_layout(2) [OF assms(2) ok(1) aside(1-3,7,8)]
      note D = backup_source_Done [OF aside(11) [symmetric] lay]
      have "files os1 src = Some c" "files os1 staged = files os staged"
        using aside(10) assms(3) lay by (auto simp: safe_layout_def)
      then show ?thesis using D(1-6) new True aside(2) by (cases "rr_deleted_original_source r") auto
    qed simp_all
  next
    case False
    then have "place_alongside_original p src staged os = Done r os'" using ok(2) by simp
    from alongside_frame [OF this ok(1) _ assms(3)] assms(2) show ?thesis by (auto simp: separate_paths_def)
  qed
qed

text \<open>
  C3: Whatever calls fail, the source content survives a placement that makes its own backup: it
  is still at the source path or at the backup path, unless the run succeeded, the policy asked
  for the deletion of the source, and the new output is in place.
\<close>

theorem source_never_lost:
  assumes "place_verified_output uuids src staged p os = Done r os'"
    and "separate_paths src staged" "files os src = Some c"
    and "in_place (plan_replace p) \<Longrightarrow> existing_backup_strategy (plan_replace p) \<noteq> ''keep_existing_backup''"
  shows "files os' src = Some c
    \<or> (\<exists>b. build_backup_path src = Some b \<and> files os' b = Some c)
    \<or> rr_status r = R_SUCCEEDED \<and> rr_deleted_original_source r \<and> in_place (plan_replace p)
      \<and> delete_replaced_source (plan_replace p)
      \<and> (\<exists>f. rr_final_output_path r = Some f \<and> files os' f = files os staged \<and> files os staged \<noteq> None)"
  by (rule source_kept [OF assms])

lemma placed_output:
  assumes "place_verified_output uuids src staged p os = Done r os'"
    and "separate_paths src staged" "rr_status r = R_SUCCEEDED"
  shows "\<exists>f n. rr_final_output_path r = Some f \<and> files os staged = Some n \<and> files os' f = Some n
    \<and> (\<forall>b. \<not> rr_deleted_original_source r \<and> rr_original_backup_path r = Some b \<and> in_place (plan_replace p) \<longrightarrow>
         files os' b = (if existing_backup_strategy (plan_replace p) = ''keep_existing_backup''
                        then files os b else files os src))"
  using assms(1)
proof (cases rule: place_cases)
  case ok
  show ?thesis
  proof (cases "in_place (plan_replace p)")
    case True
    then have "replace_in_place uuids p src staged os = Done r os'" using ok(2) by simp
    then show ?thesis
    proof (cases rule: in_place_cases)
      case (direct final backup)
      note lay = in_place_layout(1) [OF assms(2) ok(1) direct(1-3)]
      show ?thesis using backup_source_Done(1-6) [OF direct(6) [symmetric] lay] by auto
    next
      case (aside final backup t b u os1)
      note lay = in_place_layout(2) [OF assms(2) ok(1) aside(1-3,7,8)]
      have "files os1 src = files os src" "files os1 staged = files os staged"
        using aside(10) lay by (auto simp: safe_layout_def)
      then show ?thesis using backup_source_Done(1-6) [OF aside(11) [symmetric] lay] aside(5) by auto
    qed simp_all
  next
    case False
    then have "place_alongside_original p src staged os = Done r os'" using ok(2) by simp
    then show ?thesis using ok(1) by (cases rule: alongside_cases) (use False ok(1) in auto)
  qed
qed (use assms(3) in simp_all)

text \<open>
  A placement that reports success has the staged content at the path it reports, and a backup
  path it reports holds the original source (or the backup it was told to keep).
\<close>

theorem success_places_output:
  assumes "place_verified_output uuids src staged p os = Done r os'"
    and "separate_paths src staged" "rr_status r = R_SUCCEEDED"
  shows "\<exists>f n. rr_final_output_path r = Some f \<and> files os staged = Some n \<and> files os' f = Some n
    \<and> (\<forall>b. \<not> rr_deleted_original_source r \<and> rr_original_backup_path r = Some b \<and> in_place (plan_replace p) \<longrightarrow>
         files os' b = (if existing_backup_strategy (plan_replace p) = ''keep_existing_backup''
                        then files os b else files os src))"
  by (rule placed_output [OF assms])

text \<open>
  A file that was there before and is neither the source, its backup nor the staged output is
  never overwritten, moved or deleted, whatever fails.
\<close>

theorem bystanders_untouched:
  assumes "place_verified_output uuids src staged p os = Done r os'"
    and "separate_paths src staged" "files os q = Some x"
    and "q \<noteq> src" "q \<noteq> staged" "build_backup_path src \<noteq> Some q"
  shows "files os' q = Some x"
proof -
  have ex: "files os' q = files os q" if ip: "replace_in_place uuids p src staged os = res"
      and res: "res = Done r1 os' \<or> res = Thrown e os'" and st: "files os staged \<noteq> None" for res r1 e
    using ip
  proof (cases rule: in_place_cases)
    case (direct final backup)
    note lay = in_place_layout(1) [OF assms(2) st direct(1-3)]
    have "q \<noteq> final" "q \<noteq> backup" using direct(2,3) assms(3-6) by auto
    then show ?thesis using res backup_source_Done(7) [OF _ lay] backup_source_Thrown(5) [OF _ lay] assms(4,5) direct(6)
      by (metis option.distinct(1))
  next
    case (aside final backup t b u os1)
    note lay = in_place_layout(2) [OF assms(2) st aside(1-3,7,8)]
    have n: "q \<noteq> final" "q \<noteq> backup" "q \<noteq> t" using aside(2,3,7) assms(3-6) by auto
    then have "files os' q = files os1 q"
      using res backup_source_Done(7) [OF _ lay] backup_source_Thrown(5) [OF _ lay] assms(4,5) aside(11)
      by (metis option.inject)
    then show ?thesis using aside(10) n by simp
  qed (use res in auto)
  from assms(1) show ?thesis
  proof (cases rule: place_cases)
    case missing
    then show ?thesis using assms(3) by simp
  next
    case (failed e)
    show ?thesis
    proof (cases "in_place (plan_replace p)")
      case True
      then show ?thesis using ex [OF refl _ failed(1)] failed(4) assms(3) by auto
    next
      case False
      then have "place_alongside_original p src staged os = Thrown e os'" using failed(4) by simp
      from alongside_frame [OF this failed(1) _ assms(3,5)] show ?thesis by auto
    qed
  next
    case ok
    show ?thesis
    proof (cases "in_place (plan_replace p)")
      case True
      then show ?thesis using ex [OF refl _ ok(1)] ok(2) assms(3) by auto
    next
      case False
      then have "place_alongside_original p src staged os = Done r os'" using ok(2) by simp
      from alongside_frame [OF this ok(1) _ assms(3,5)] show ?thesis by auto
    qed
  qed
qed

lemma placement_returns:
  assumes "finite (dom (files os))" "inj uuids"
  shows "place_verified_output uuids src staged p os \<noteq> Loops"
proof
  assume l: "place_verified_output uuids src staged p os = Loops"
  have "in_place (plan_replace p) \<and> replace_in_place uuids p src staged os = Loops"
  proof (cases "exists_file os staged")
    case False then show ?thesis using l by (simp add: place_verified_output_def)
  next
    case True
    show ?thesis
    proof (cases "in_place (plan_replace p)")
      case ip: True
      then show ?thesis using l True by (auto simp: place_verified_output_def split: run.splits)
    next
      case False
      then have a: "place_alongside_original p src staged os = Loops"
        using l True by (auto simp: place_verified_output_def split: run.splits)
      have "files os staged \<noteq> None" using True by (simp add: exists_file_def)
      with a show ?thesis by (cases rule: alongside_cases) simp_all
    qed
  qed
  then have "replace_in_place uuids p src staged os = Loops" by blast
  then show False
  proof (cases rule: in_place_cases)
    case (loops backup)
    then show False using temporary_path_returns [OF assms, of 0 backup] by simp
  next
    case (direct final backup)
    from direct(6) [symmetric] show False
      by (cases rule: backup_source_cases) (auto simp: finish_in_place_def Let_def split_beta split: sum.splits if_splits option.splits)
  next
    case (aside final backup t b u os1)
    from aside(11) [symmetric] show False
      by (cases rule: backup_source_cases) (auto simp: finish_in_place_def Let_def split_beta split: sum.splits if_splits option.splits)
  qed simp_all
qed

text \<open>With distinct random names and finitely many files, a placement always returns.\<close>

theorem placement_terminates:
  assumes "finite (dom (files os))" "inj uuids"
  shows "place_verified_output uuids src staged p os \<noteq> Loops"
  by (rule placement_returns [OF assms])

subsection \<open>A single failing call\<close>

definition single_fault :: "os_state \<Rightarrow> bool" where
  "single_fault os \<longleftrightarrow> (\<exists>k e. (\<forall>n. n \<noteq> k \<longrightarrow> fault_at os n = NoFault)
     \<and> fault_at os k = Fault e \<and> oe_errno e \<noteq> Some exdev)"

definition quiet :: "os_state \<Rightarrow> bool" where
  "quiet os \<longleftrightarrow> (\<forall>n \<ge> calls os. fault_at os n = NoFault)"

lemma rename_script: "os_rename p q os = (r, os') \<Longrightarrow> fault_at os' = fault_at os \<and> calls os' = Suc (calls os)"
  by (auto simp: os_rename_def called_def split: os_fault.splits option.splits)

lemma rename_quiet:
  "quiet os \<Longrightarrow> files os p = Some c \<Longrightarrow> \<exists>os'. os_rename p q os = (None, os')
     \<and> files os' = (files os)(p := None, q := Some c)"
  by (auto simp: os_rename_def quiet_def call_fault_def)

lemma rename_fault:
  assumes "single_fault os" "files os p \<noteq> None" "os_rename p q os = (Some e, os')"
  shows "quiet os' \<and> files os' = files os \<and> oe_errno e \<noteq> Some exdev"
proof -
  obtain k x where k: "\<And>n. n \<noteq> k \<Longrightarrow> fault_at os n = NoFault" "fault_at os k = Fault x" "oe_errno x \<noteq> Some exdev"
    using assms(1) unfolding single_fault_def by blast
  have "calls os = k" using assms(2,3) k(1) [of "calls os"]
    by (cases "calls os = k") (auto simp: os_rename_def call_fault_def)
  then show ?thesis using assms(3) k
    by (auto simp: os_rename_def call_fault_def quiet_def called_def)
qed

lemma move_fault:
  assumes "single_fault os" "files os p \<noteq> None" "move_generated_output p q os = (Inl e, os')"
  shows "quiet os' \<and> files os' = files os"
proof -
  obtain r os1 where r: "os_rename p q os = (r, os1)" by fastforce
  then obtain x where x: "r = Some x" using assms(3) by (cases r) (auto simp: move_generated_output_def)
  have n: "oe_errno x \<noteq> Some exdev" "quiet os1 \<and> files os1 = files os" using rename_fault [OF assms(1,2)] r x by blast+
  then show ?thesis using assms(3) r x by (auto simp: move_generated_output_def)
qed

lemma restore_quiet:
  assumes "restore_replaced_backup (Some t) backup d os = (d', os')" "quiet os" "files os t = Some c" "files os backup = None"
  shows "files os' = (files os)(t := None, backup := Some c)"
  using assms(1) rename_quiet [OF assms(2,3), of backup] assms(3,4)
  by (auto simp: restore_replaced_backup_def exists_file_def Let_def split_beta)

lemma finish_fault:
  assumes run: "finish_in_place p src staged final backup temp os = Thrown e os'"
    and f: "single_fault os" "files os staged \<noteq> None"
  obtains os1 d d1 os2 d2 where "quiet os1" "files os1 = files os"
    "rollback_source (existing_backup_strategy (plan_replace p) \<noteq> ''keep_existing_backup'') src staged backup d os1 = (d1, os2)"
    "restore_replaced_backup temp backup d1 os2 = (d2, os')"
proof -
  obtain m os1 where m: "move_generated_output staged final os = (m, os1)" by fastforce
  obtain x where x: "m = Inl x"
    using run m by (cases m) (auto simp: finish_in_place_def Let_def split_beta split: option.splits if_splits prod.splits)
  let ?d0 = "replacement_failure_details ''move_verified_output_into_place'' x src staged (Some final) (Some backup) os1"
  obtain d1 os2 where rb: "rollback_source (existing_backup_strategy (plan_replace p) \<noteq> ''keep_existing_backup'')
      src staged backup ?d0 os1 = (d1, os2)" by fastforce
  obtain d2 os3 where rs: "restore_replaced_backup temp backup d1 os2 = (d2, os3)" by fastforce
  have "os' = os3" using run m x rb rs by (auto simp: finish_in_place_def Let_def)
  then show thesis using that rb rs move_fault [OF f m [unfolded x]] by blast
qed

lemma backup_source_fault:
  assumes run: "backup_source p src staged final backup temp os = Thrown e os'"
    and f: "single_fault os" "files os staged \<noteq> None" "files os src = Some c"
    and lay: "safe_layout src staged final backup temp"
    and bk: "existing_backup_strategy (plan_replace p) \<noteq> ''keep_existing_backup'' \<Longrightarrow> files os backup = None"
  shows "temp = None \<Longrightarrow> files os' = files os"
    "temp = Some t \<Longrightarrow> files os t = Some b \<Longrightarrow> existing_backup_strategy (plan_replace p) \<noteq> ''keep_existing_backup'' \<Longrightarrow>
       files os' = (files os)(t := None, backup := Some b)"
proof -
  have L: "staged \<noteq> src" "staged \<noteq> backup" "backup \<noteq> src"
    "\<And>t. temp = Some t \<Longrightarrow> t \<noteq> src \<and> t \<noteq> backup \<and> t \<noteq> staged"
    using lay by (auto simp: safe_layout_def)
  have "(temp = None \<longrightarrow> files os' = files os) \<and>
      (temp = Some t \<longrightarrow> files os t = Some b \<longrightarrow> existing_backup_strategy (plan_replace p) \<noteq> ''keep_existing_backup'' \<longrightarrow>
       files os' = (files os)(t := None, backup := Some b))"
    using run
  proof (cases rule: backup_source_cases)
    case 1
    from finish_fault [OF 1(2) [symmetric] f(1,2)] obtain os1 d d1 os2 d2 where
      q: "files os1 = files os"
      and rb: "rollback_source (existing_backup_strategy (plan_replace p) \<noteq> ''keep_existing_backup'') src staged backup d os1 = (d1, os2)"
      and rs: "restore_replaced_backup temp backup d1 os2 = (d2, os')" .
    have "os2 = os1" using rb 1(1) by (simp add: rollback_source_def)
    moreover have "temp = None \<Longrightarrow> os' = os2" using rs by (simp add: restore_replaced_backup_def)
    ultimately show ?thesis using q 1(1) by simp
  next
    case (2 c' os1)
    have f1: "single_fault os1" using f(1) rename_script [OF 2(2)] by (simp add: single_fault_def)
    have "files os1 staged \<noteq> None" using 2(4) f(2) L by simp
    from finish_fault [OF 2(5) [symmetric] f1 this] obtain os2 d d1 os3 d2 where
      q: "quiet os2" "files os2 = files os1"
      and rb: "rollback_source (existing_backup_strategy (plan_replace p) \<noteq> ''keep_existing_backup'') src staged backup d os2 = (d1, os3)"
      and rs: "restore_replaced_backup temp backup d1 os3 = (d2, os')" .
    obtain os4 where r: "os_rename backup src os2 = (None, os4)" "files os4 = (files os2)(backup := None, src := Some c')"
      using rename_quiet [OF q(1), of backup c' src] q(2) 2(4) L by auto
    have "os3 = os4" using rb r 2(1,4) q(2) L by (simp add: rollback_source_def exists_file_def Let_def)
    then have o3: "files os3 = files os" using r q 2(3,4) bk [OF 2(1)] L by (auto simp: fun_eq_iff)
    have q3: "quiet os3" using q(1) rename_script [OF r(1)] \<open>os3 = os4\<close> by (simp add: quiet_def)
    show ?thesis
      using rs restore_quiet [of t backup d1 os3 d2 os' b] q3 o3 bk [OF 2(1)]
      by (auto simp: restore_replaced_backup_def)
  next
    case (3 x os1 d d' os2)
    have q: "quiet os1" using rename_fault [OF f(1) _ 3(2)] f(3) by simp
    show ?thesis
      using 3 restore_quiet [of t backup d os1 d' os2 b] q bk [OF 3(1)]
      by (auto simp: restore_replaced_backup_def)
  qed
  then show "temp = None \<Longrightarrow> files os' = files os"
    "temp = Some t \<Longrightarrow> files os t = Some b \<Longrightarrow> existing_backup_strategy (plan_replace p) \<noteq> ''keep_existing_backup'' \<Longrightarrow>
       files os' = (files os)(t := None, backup := Some b)" by blast+
qed

text \<open>
  C15: A placement is atomic against one failing call: if a single system call fails (and not with
  the cross-device error that selects the copy) and the placement reports failure, every file is as
  it was before.
\<close>

theorem failed_placement_rolls_back:
  assumes "place_verified_output uuids src staged p os = Done r os'" "rr_status r = R_FAILED"
    and "separate_paths src staged" "single_fault os"
    and "existing_backup_strategy (plan_replace p) \<in> {''fail'', ''keep_existing_backup'', ''replace_backup''}"
  shows "files os' = files os"
  using assms(1)
proof (cases rule: place_cases)
  case (failed e)
  show ?thesis
  proof (cases "in_place (plan_replace p)")
    case True
    have "replace_in_place uuids p src staged os = Thrown e os'" using failed(4) True by simp
    then show ?thesis
    proof (cases rule: in_place_cases)
      case (direct final backup)
      note lay = in_place_layout(1) [OF assms(3) failed(1) direct(1-3)]
      obtain c where c: "files os src = Some c" using direct(4) by blast
      have "existing_backup_strategy (plan_replace p) \<noteq> ''keep_existing_backup'' \<Longrightarrow> files os backup = None"
        using direct(5) assms(5) by blast
      from backup_source_fault(1) [OF direct(6) [symmetric] assms(4) failed(1) c lay this] show ?thesis by simp
    next
      case (aside final backup t b u os1)
      note lay = in_place_layout(2) [OF assms(3) failed(1) aside(1-3,7,8)]
      have L: "staged \<noteq> backup" "backup \<noteq> src" "t \<noteq> src" "t \<noteq> backup" "t \<noteq> staged" using lay by (auto simp: safe_layout_def)
      obtain c where "files os src = Some c" using aside(4) by blast
      then have c: "files os1 src = Some c" using aside(10) L by simp
      have f1: "single_fault os1" using assms(4) rename_script [OF aside(9)] by (simp add: single_fault_def)
      have s1: "files os1 staged \<noteq> None" using aside(10) failed(1) L by simp
      have "files os' = (files os1)(t := None, backup := Some b)"
        by (rule backup_source_fault(2) [OF aside(11) [symmetric] f1 s1 c lay]) (use aside(5,10) L in auto)
      then show ?thesis using aside(6,7,10) L by (auto simp: fun_eq_iff)
    qed simp_all
  next
    case False
    then have run: "place_alongside_original p src staged os = Thrown e os'" using failed(4) by simp
    then obtain final m where m: "move_generated_output staged final os = (Inl m, os') \<or> os' = os"
      by (auto simp: place_alongside_original_def split: option.splits if_splits prod.splits sum.splits)
    then show ?thesis using move_fault [OF assms(4) failed(1)] by blast
  qed
next
  case ok
  then show ?thesis using assms(2)
  proof (cases "in_place (plan_replace p)")
    case True
    then have "replace_in_place uuids p src staged os = Done r os'" using ok(2) by simp
    then have "rr_status r = R_SUCCEEDED"
    proof (cases rule: in_place_cases)
      case (direct final backup)
      note lay = in_place_layout(1) [OF assms(3) ok(1) direct(1-3)]
      show ?thesis by (rule backup_source_Done(1) [OF direct(6) [symmetric] lay])
    next
      case (aside final backup t b u os1)
      note lay = in_place_layout(2) [OF assms(3) ok(1) aside(1-3,7,8)]
      show ?thesis by (rule backup_source_Done(1) [OF aside(11) [symmetric] lay])
    qed simp_all
    then show ?thesis using assms(2) by simp
  next
    case False
    then have "place_alongside_original p src staged os = Done r os'" using ok(2) by simp
    then show ?thesis using ok(1) by (cases rule: alongside_cases) (use assms(2) in simp_all)
  qed
qed simp


subsection \<open>Concrete runs\<close>

declare temporary_replaced_backup_path.simps [code]

definition sample_replace_plan :: "bool \<Rightarrow> bool \<Rightarrow> string \<Rightarrow> processing_plan" where
  "sample_replace_plan ip del strategy =
     \<lparr>action = TRANSCODE,
      summary = \<lparr>ps_action = TRANSCODE, ps_confidence = HIGH, ps_is_already_compliant = False, ps_should_treat_as_protected = False\<rparr>,
      plan_context = \<lparr>policy_name = ''default'', policy_version = 1, selected_profile_name = None,
        selected_profile_description = None, matched_path_prefix = None, source_path = path_of ''/m/a.mkv''\<rparr>,
      selected_streams = \<lparr>video_stream_indices = [0], audio_stream_indices = [1], subtitle_stream_indices = [],
        attachment_stream_indices = [], data_stream_indices = [], unknown_stream_indices = []\<rparr>,
      plan_audio = \<lparr>a_selected = [1], a_dropped = [], a_required_language_codes = [''eng''], primary_stream_index = Some 1,
        preserved_atmos = [], preserved_surround = [], commentary_removed = [], available_preferred = [1],
        missing_required_audio = False\<rparr>,
      plan_subtitles = \<lparr>s_selected = [], s_dropped = [], s_required_language_codes = [], s_required_forced_language_codes = [],
        forced_stream_indices = [], main_stream_index = None, hearing_impaired_stream_indices = [],
        ambiguous_forced_stream_indices = []\<rparr>,
      plan_video = \<lparr>vp_primary_stream_index = Some 0, vp_handling = TRANSCODE_TO_POLICY, preserve_original = False,
        target_codec = Some ''hevc'', transcode_required = True, quality_mode = Some ''balanced'', quality_crf = None,
        source_bitrate_bps = None, low_bitrate_skip_threshold = None, minimum_output_bitrate = None,
        max_allowed_video_reduction_percent = None, output_larger_than_input_review_percent = None\<rparr>,
      plan_container = \<lparr>source_extension = Some ''mkv'', target_container = MKV, cp_handling = PRESERVE_CONTAINER, change_required = False\<rparr>,
      plan_rename = \<lparr>rename_enabled = False, template_kind = None, template_source = DISABLED, template_value = None\<rparr>,
      plan_replace = \<lparr>in_place = ip, require_verification = True, keep_original_until_verified = True,
        delete_replaced_source = del, existing_backup_strategy = strategy\<rparr>,
      reasons = [], warnings = [], confidence = HIGH, is_already_compliant = False, should_treat_as_protected = False\<rparr>"

definition sample_files :: "path \<rightharpoonup> content" where
  "sample_files = [path_of ''/m/a.mkv'' \<mapsto> ''old'', path_of ''/s/a.tmp.mkv'' \<mapsto> ''new'', path_of ''/m/other'' \<mapsto> ''x'']"

definition no_space :: "int \<Rightarrow> os_error" where
  "no_space n = \<lparr>oe_errno = Some n, oe_strerror = None, oe_message = ''call failed'', oe_type = ''OSError''\<rparr>"

definition sample_os :: "(nat \<Rightarrow> os_fault) \<Rightarrow> os_state" where
  "sample_os f = \<lparr>files = sample_files, fault_at = f, calls = 0\<rparr>"

definition sample_place :: "bool \<Rightarrow> bool \<Rightarrow> (nat \<Rightarrow> os_fault) \<Rightarrow> replacement_result run" where
  "sample_place ip del f = place_verified_output (\<lambda>_. ''u'') (path_of ''/m/a.mkv'') (path_of ''/s/a.tmp.mkv'')
     (sample_replace_plan ip del ''fail'') (sample_os f)"

fun run_result :: "'a run \<Rightarrow> 'a option" where
  "run_result (Done r _) = Some r"
| "run_result _ = None"

fun run_files :: "'a run \<Rightarrow> path \<rightharpoonup> content" where
  "run_files (Done _ os) = files os"
| "run_files _ = Map.empty"

definition fail_at :: "nat \<Rightarrow> int \<Rightarrow> nat \<Rightarrow> os_fault" where
  "fail_at k n i = (if i = k then Fault (no_space n) else NoFault)"

lemma sample_separate: "separate_paths (path_of ''/m/a.mkv'') (path_of ''/s/a.tmp.mkv'')"
  by code_simp

lemma sample_run:
  assumes "run_result (sample_place ip del f) = Some r"
  obtains os where "place_verified_output (\<lambda>_. ''u'') (path_of ''/m/a.mkv'') (path_of ''/s/a.tmp.mkv'')
     (sample_replace_plan ip del ''fail'') (sample_os f) = Done r os" "run_files (sample_place ip del f) = files os"
  using assms by (cases "sample_place ip del f") (auto simp: sample_place_def)

lemma sample_old: "files (sample_os f) (path_of ''/m/a.mkv'') = Some ''old''" by code_simp

lemma sample_plan_replace [simp]: "plan_replace (sample_replace_plan ip del st) = \<lparr>in_place = ip, require_verification = True,
   keep_original_until_verified = True, delete_replaced_source = del, existing_backup_strategy = st\<rparr>"
  by (simp add: sample_replace_plan_def)

lemma sample_single: "single_fault (sample_os (fail_at k 28))"
  by (auto simp: single_fault_def sample_os_def fail_at_def no_space_def exdev_def)

text \<open>A full disk during the move; a placement that deletes the source; one that keeps a backup.\<close>

lemma source_never_lost_witness:
  "run_files (sample_place True False (fail_at 1 28)) (path_of ''/m/a.mkv'') = Some ''old''"
proof -
  let ?x = "sample_place True False (fail_at 1 28)"
  have "map_option rr_status (run_result ?x) = Some R_FAILED" by code_simp
  then obtain r where r: "run_result ?x = Some r" "rr_status r = R_FAILED" by auto
  have b: "build_backup_path (path_of ''/m/a.mkv'') = Some (path_of ''/m/a.encodr-backup.mkv'')" by code_simp
  have n: "run_files ?x (path_of ''/m/a.encodr-backup.mkv'') = None" by code_simp
  from sample_run [OF r(1)] obtain os where "place_verified_output (\<lambda>_. ''u'') (path_of ''/m/a.mkv'')
     (path_of ''/s/a.tmp.mkv'') (sample_replace_plan True False ''fail'') (sample_os (fail_at 1 28)) = Done r os"
    and f: "run_files ?x = files os" .
  from source_never_lost [OF this(1) sample_separate sample_old] show ?thesis using r(2) b n f by simp
qed

lemma success_places_output_witness:
  "run_files (sample_place True False (\<lambda>_. NoFault)) (path_of ''/m/a.mkv'') = Some ''new''
   \<and> run_files (sample_place True False (\<lambda>_. NoFault)) (path_of ''/m/a.encodr-backup.mkv'') = Some ''old''"
proof -
  let ?x = "sample_place True False (\<lambda>_. NoFault)"
  have e: "map_option rr_status (run_result ?x) = Some R_SUCCEEDED"
    "map_option rr_final_output_path (run_result ?x) = Some (Some (path_of ''/m/a.mkv''))"
    "map_option rr_original_backup_path (run_result ?x) = Some (Some (path_of ''/m/a.encodr-backup.mkv''))"
    "map_option rr_deleted_original_source (run_result ?x) = Some False" by code_simp+
  from e(1) obtain r where r: "run_result ?x = Some r" "rr_status r = R_SUCCEEDED" by auto
  have n: "files (sample_os (\<lambda>_. NoFault)) (path_of ''/s/a.tmp.mkv'') = Some ''new''" by code_simp
  from sample_run [OF r(1)] obtain os where "place_verified_output (\<lambda>_. ''u'') (path_of ''/m/a.mkv'')
     (path_of ''/s/a.tmp.mkv'') (sample_replace_plan True False ''fail'') (sample_os (\<lambda>_. NoFault)) = Done r os"
    and f: "run_files ?x = files os" .
  from success_places_output [OF this(1) sample_separate r(2)] show ?thesis
    using e r n f sample_old [of "\<lambda>_. NoFault"] by simp
qed

lemma bystanders_untouched_witness:
  "run_files (sample_place True True (\<lambda>_. NoFault)) (path_of ''/m/other'') = Some ''x''"
proof -
  let ?x = "sample_place True True (\<lambda>_. NoFault)"
  have "map_option rr_status (run_result ?x) = Some R_SUCCEEDED" by code_simp
  then obtain r where r: "run_result ?x = Some r" by auto
  have n: "files (sample_os (\<lambda>_. NoFault)) (path_of ''/m/other'') = Some ''x''" by code_simp
  have d: "path_of ''/m/other'' \<noteq> path_of ''/m/a.mkv''" "path_of ''/m/other'' \<noteq> path_of ''/s/a.tmp.mkv''"
    "build_backup_path (path_of ''/m/a.mkv'') \<noteq> Some (path_of ''/m/other'')" by code_simp+
  from sample_run [OF r] obtain os where "place_verified_output (\<lambda>_. ''u'') (path_of ''/m/a.mkv'')
     (path_of ''/s/a.tmp.mkv'') (sample_replace_plan True True ''fail'') (sample_os (\<lambda>_. NoFault)) = Done r os"
    and f: "run_files ?x = files os" .
  from bystanders_untouched [OF this(1) sample_separate n d] show ?thesis using f by simp
qed

lemma failed_placement_rolls_back_witness:
  "run_files (sample_place True True (fail_at 1 28)) = sample_files"
proof -
  let ?x = "sample_place True True (fail_at 1 28)"
  have "map_option rr_status (run_result ?x) = Some R_FAILED" by code_simp
  then obtain r where r: "run_result ?x = Some r" "rr_status r = R_FAILED" by auto
  from sample_run [OF r(1)] obtain os where "place_verified_output (\<lambda>_. ''u'') (path_of ''/m/a.mkv'')
     (path_of ''/s/a.tmp.mkv'') (sample_replace_plan True True ''fail'') (sample_os (fail_at 1 28)) = Done r os"
    and f: "run_files ?x = files os" .
  from failed_placement_rolls_back [OF this(1) r(2) sample_separate sample_single] show ?thesis
    using f by (simp add: sample_os_def)
qed

lemma placement_terminates_witness:
  "place_verified_output (\<lambda>n. replicate n (CHR ''u'')) (path_of ''/m/a.mkv'') (path_of ''/s/a.tmp.mkv'')
     (sample_replace_plan True True ''replace_backup'') (sample_os (\<lambda>_. NoFault)) \<noteq> Loops"
proof (rule placement_terminates)
  show "finite (dom (files (sample_os (\<lambda>_. NoFault))))" by (simp add: sample_os_def sample_files_def)
  show "inj (\<lambda>n. replicate n (CHR ''u''))" by (rule injI) (metis length_replicate)
qed

text \<open>
  The exception to the roll-back: when the move crosses devices and the copy is torn, the
  partial output stays at the source path (the target has the source's extension), the roll-back is
  skipped because that path exists, and the placement reports failure with the original only in the
  backup.
\<close>

theorem torn_copy_leaves_partial_file:
  "map_option rr_status (run_result (sample_place True False
      (\<lambda>i. if i = 1 then Fault (no_space exdev) else if i = 2 then Torn (no_space 28) ''ne'' else NoFault))) = Some R_FAILED
   \<and> run_files (sample_place True False
      (\<lambda>i. if i = 1 then Fault (no_space exdev) else if i = 2 then Torn (no_space 28) ''ne'' else NoFault)) (path_of ''/m/a.mkv'')
      = Some ''ne''
   \<and> run_files (sample_place True False
      (\<lambda>i. if i = 1 then Fault (no_space exdev) else if i = 2 then Torn (no_space 28) ''ne'' else NoFault))
      (path_of ''/m/a.encodr-backup.mkv'') = Some ''old''"
  by code_simp

end
