(* ===== verification/Scheduling.thy ===== *)
theory Scheduling
  imports Media
begin

text \<open>
  Schedule windows (\<open>encodr_shared/scheduling.py\<close>): parsing them, whether they allow work now, and
  when they next open. A local date and time is the number of microseconds since day 0 of the
  proleptic Gregorian calendar (\<open>date.toordinal\<close>) in the offset that \<open>astimezone\<close> gives for now;
  the code compares only values of that one offset. Dates within a week of the year 9999 are left
  out (\<open>fromordinal\<close> would raise).
\<close>

subsection \<open>Time of day\<close>

type_synonym local_time = int

definition day_us :: int where "day_us = 86400000000"
definition minute_us :: int where "minute_us = 60000000"

definition day_order :: "string list" where
  "day_order = [''mon'', ''tue'', ''wed'', ''thu'', ''fri'', ''sat'', ''sun'']"

text \<open>\<open>date.weekday\<close> of the day with this ordinal: day 1 is a Monday.\<close>

definition weekday :: "int \<Rightarrow> int" where
  "weekday d = (d + 6) mod 7"

definition day_name :: "int \<Rightarrow> string" where
  "day_name n = day_order ! nat n"

text \<open>Python's \<open>int\<close> of a string: surrounding white space, a sign, digits with single underscores.\<close>

fun int_digits :: "bool \<Rightarrow> int \<Rightarrow> string \<Rightarrow> int option" where
  "int_digits after acc [] = (if after then Some acc else None)"
| "int_digits after acc (c # cs) =
     (if c = CHR ''_'' then (if after then int_digits False acc cs else None)
      else case digit_value c of None \<Rightarrow> None | Some d \<Rightarrow> int_digits True (acc * 10 + int d) cs)"

definition py_int :: "string \<Rightarrow> int option" where
  "py_int s =
     (let t = py_strip s in
      if 4300 < length (filter (\<lambda>c. digit_value c \<noteq> None) t) then None
      else case t of
        [] \<Rightarrow> None
      | c # cs \<Rightarrow> if c = CHR ''-'' then map_option uminus (int_digits False 0 cs)
                  else if c = CHR ''+'' then int_digits False 0 cs
                  else int_digits False 0 t)"

datatype schedule_error = NotAList | NotAnObject | NoDay | UnsupportedDay json | BadTime

text \<open>A time as its minutes since midnight.\<close>

definition parse_time :: "string \<Rightarrow> schedule_error + int" where
  "parse_time v =
     (case dropWhile (\<lambda>c. c \<noteq> CHR '':'') v of
        [] \<Rightarrow> Inl BadTime
      | _ # minute_text \<Rightarrow>
          (case (py_int (takeWhile (\<lambda>c. c \<noteq> CHR '':'') v), py_int minute_text) of
             (Some hour, Some minute) \<Rightarrow>
               if hour < 0 \<or> 23 < hour \<or> minute < 0 \<or> 59 < minute then Inl BadTime
               else Inr (hour * 60 + minute)
           | _ \<Rightarrow> Inl BadTime))"

definition two_digits :: "int \<Rightarrow> string" where
  "two_digits n = [digit_char (nat n div 10), digit_char (nat n mod 10)]"

definition format_time :: "int \<Rightarrow> string" where
  "format_time m = two_digits (m div 60) @ '':'' @ two_digits (m mod 60)"

text \<open>The text of a value that is no string holds no colon or starts with a bracket: never a time.\<close>

definition normalise_time :: "json \<Rightarrow> schedule_error + string" where
  "normalise_time v =
     (case v of
        JStr s \<Rightarrow> (case parse_time (py_strip s) of Inl e \<Rightarrow> Inl e | Inr m \<Rightarrow> Inr (format_time m))
      | _ \<Rightarrow> Inl BadTime)"

subsection \<open>Parsing windows\<close>

record schedule_window =
  sw_days :: "string list"
  sw_start :: string
  sw_end :: string

fun clean_days :: "string list \<Rightarrow> json list \<Rightarrow> schedule_error + string list" where
  "clean_days acc [] = Inr acc"
| "clean_days acc (d # ds) =
     (case d of
        JStr s \<Rightarrow>
          (let cleaned = py_lower (py_strip s) in
           if cleaned \<notin> set day_order then Inl (UnsupportedDay d)
           else clean_days (if cleaned \<in> set acc then acc else acc @ [cleaned]) ds)
      | _ \<Rightarrow> Inl (UnsupportedDay d))"

definition normalise_window :: "json \<Rightarrow> schedule_error + schedule_window" where
  "normalise_window item =
     (case item of
        JObj kvs \<Rightarrow>
          (case jget kvs ''days'' of
             JList days \<Rightarrow>
               if days = [] then Inl NoDay
               else (case clean_days [] days of
                       Inl e \<Rightarrow> Inl e
                     | Inr cleaned \<Rightarrow>
                         (case normalise_time (jget kvs ''start_time'') of
                            Inl e \<Rightarrow> Inl e
                          | Inr start \<Rightarrow>
                              (case normalise_time (jget kvs ''end_time'') of
                                 Inl e \<Rightarrow> Inl e
                               | Inr stop \<Rightarrow> Inr \<lparr>sw_days = cleaned, sw_start = start, sw_end = stop\<rparr>)))
           | _ \<Rightarrow> Inl NoDay)
      | _ \<Rightarrow> Inl NotAnObject)"

fun normalise_items :: "schedule_window list \<Rightarrow> json list \<Rightarrow> schedule_error + schedule_window list" where
  "normalise_items acc [] = Inr acc"
| "normalise_items acc (item # items) =
     (case normalise_window item of
        Inl e \<Rightarrow> Inl e
      | Inr w \<Rightarrow> normalise_items (acc @ [w]) items)"

definition normalise_schedule_windows :: "json \<Rightarrow> schedule_error + schedule_window list option" where
  "normalise_schedule_windows value =
     (if value \<in> {JNull, JStr [], JList []} then Inr None
      else case value of
        JList items \<Rightarrow>
          (case normalise_items [] items of
             Inl e \<Rightarrow> Inl e
           | Inr ws \<Rightarrow> Inr (if ws = [] then None else Some ws))
      | _ \<Rightarrow> Inl NotAList)"

subsection \<open>Whether work is allowed\<close>

definition window_days :: "schedule_window \<Rightarrow> string set" where
  "window_days w = set (map (\<lambda>d. py_lower (py_strip d)) (sw_days w))"

fun windows_allow :: "local_time \<Rightarrow> schedule_window list \<Rightarrow> schedule_error + bool" where
  "windows_allow now [] = Inr False"
| "windows_allow now (w # ws) =
     (case parse_time (sw_start w) of
        Inl e \<Rightarrow> Inl e
      | Inr start \<Rightarrow>
          (case parse_time (sw_end w) of
             Inl e \<Rightarrow> Inl e
           | Inr stop \<Rightarrow>
               let today = weekday (now div day_us); clock = now mod day_us;
                   day = day_name today; previous_day = day_name ((today - 1) mod 7) in
               if start \<le> stop then
                 (if day \<in> window_days w \<and> start * minute_us \<le> clock \<and> clock \<le> stop * minute_us then Inr True
                  else windows_allow now ws)
               else if day \<in> window_days w \<and> start * minute_us \<le> clock then Inr True
               else if previous_day \<in> window_days w \<and> clock \<le> stop * minute_us then Inr True
               else windows_allow now ws))"

definition schedule_windows_allow_now :: "schedule_window list option \<Rightarrow> local_time \<Rightarrow> schedule_error + bool" where
  "schedule_windows_allow_now windows now =
     (case windows of
        None \<Rightarrow> Inr True
      | Some ws \<Rightarrow> if ws = [] then Inr True else windows_allow now ws)"

definition schedule_windows_summary :: "schedule_window list option \<Rightarrow> string option" where
  "schedule_windows_summary windows =
     (case windows of
        None \<Rightarrow> None
      | Some ws \<Rightarrow>
          if ws = [] then None
          else Some (py_join '' | '' (map (\<lambda>w. py_join '','' (sw_days w) @ '' '' @ sw_start w @ ''-'' @ sw_end w) ws)))"

subsection \<open>The next opening\<close>

fun day_openings :: "local_time \<Rightarrow> int \<Rightarrow> schedule_window list \<Rightarrow> schedule_error + local_time list" where
  "day_openings now candidate_day [] = Inr []"
| "day_openings now candidate_day (w # ws) =
     (if day_name (weekday candidate_day) \<notin> window_days w then day_openings now candidate_day ws
      else case parse_time (sw_start w) of
        Inl e \<Rightarrow> Inl e
      | Inr start \<Rightarrow>
          (case day_openings now candidate_day ws of
             Inl e \<Rightarrow> Inl e
           | Inr rest \<Rightarrow>
               let opening = candidate_day * day_us + start * minute_us in
               Inr (if now \<le> opening then opening # rest else rest)))"

fun openings :: "local_time \<Rightarrow> int list \<Rightarrow> schedule_window list \<Rightarrow> schedule_error + local_time list" where
  "openings now [] ws = Inr []"
| "openings now (d # ds) ws =
     (case day_openings now d ws of
        Inl e \<Rightarrow> Inl e
      | Inr here \<Rightarrow> (case openings now ds ws of Inl e \<Rightarrow> Inl e | Inr rest \<Rightarrow> Inr (here @ rest)))"

definition next_schedule_opening :: "schedule_window list option \<Rightarrow> local_time \<Rightarrow> schedule_error + local_time option" where
  "next_schedule_opening windows now =
     (case windows of
        None \<Rightarrow> Inr None
      | Some ws \<Rightarrow>
          if ws = [] then Inr None
          else case schedule_windows_allow_now windows now of
            Inl e \<Rightarrow> Inl e
          | Inr True \<Rightarrow> Inr (Some now)
          | Inr False \<Rightarrow>
              (case openings now (map (\<lambda>offset. now div day_us + offset) [0..7]) ws of
                 Inl e \<Rightarrow> Inl e
               | Inr candidates \<Rightarrow>
                   Inr (if candidates = [] then None else Some (Min (set candidates)))))"

subsection \<open>Times of day\<close>

lemma parse_time_range: "parse_time v = Inr m \<Longrightarrow> 0 \<le> m \<and> m < 1440"
  by (auto simp: parse_time_def split: list.splits option.splits if_splits)

lemma digit_plain:
  assumes "digit_value c = Some d"
  shows "\<not> is_space c" "c \<noteq> CHR ''_''" "c \<noteq> CHR ''-''" "c \<noteq> CHR ''+''" "c \<noteq> CHR '':''"
  using assms by (auto simp: digit_value_def is_space_def code_point_def Let_def split: if_splits)

lemma two_digits_facts:
  assumes "0 \<le> n" "n < 100"
  shows "py_int (two_digits n) = Some n" "CHR '':'' \<notin> set (two_digits n)"
    "\<not> is_space (hd (two_digits n))" "\<not> is_space (last (two_digits n))"
proof -
  obtain a b where ab: "a = nat n div 10" "b = nat n mod 10" by blast
  have "a * 10 + b = nat n" unfolding ab by (rule div_mult_mod_eq)
  then have "int a * 10 + int b = n" using assms(1) by linarith
  then have r: "a < 10" "b < 10" "int a * 10 + int b = n" using assms ab by auto
  have d: "digit_value (digit_char a) = Some a" "digit_value (digit_char b) = Some b" using r by simp_all
  note pa = digit_plain [OF d(1)] and pb = digit_plain [OF d(2)]
  have t: "two_digits n = [digit_char a, digit_char b]" by (simp add: two_digits_def ab)
  show "\<not> is_space (hd (two_digits n))" "\<not> is_space (last (two_digits n))" using pa(1) pb(1) by (simp_all add: t)
  then have "py_strip (two_digits n) = two_digits n" by (intro py_strip_id) simp
  then show "py_int (two_digits n) = Some n"
    using pa pb d r(3) by (simp add: py_int_def t)
  show "CHR '':'' \<notin> set (two_digits n)" using pa(5) pb(5) by (auto simp: t)
qed

lemma parse_format_time:
  assumes "0 \<le> m" "m < 1440"
  shows "parse_time (format_time m) = Inr m" "py_strip (format_time m) = format_time m"
proof -
  have r: "0 \<le> m div 60" "m div 60 < 24" "0 \<le> m mod 60" "m mod 60 < 100" "m mod 60 < 60" using assms by auto
  have h: "py_int (two_digits (m div 60)) = Some (m div 60)" "CHR '':'' \<notin> set (two_digits (m div 60))"
    "\<not> is_space (hd (two_digits (m div 60)))"
    using two_digits_facts(1-3) [of "m div 60"] r by auto
  note l = two_digits_facts [OF r(3,4)]
  have sep: "takeWhile (\<lambda>c. c \<noteq> x) (xs @ x # ys) = xs" if "x \<notin> set xs" for x :: char and xs ys
    using that by (induction xs) auto
  have d: "dropWhile (\<lambda>c. c \<noteq> CHR '':'') (format_time m) = CHR '':'' # two_digits (m mod 60)"
    using h(2) by (auto simp: format_time_def dropWhile_append3)
  have t: "takeWhile (\<lambda>c. c \<noteq> CHR '':'') (format_time m) = two_digits (m div 60)"
    using h(2) by (simp add: format_time_def sep)
  show "parse_time (format_time m) = Inr m"
    unfolding parse_time_def d t list.case h(1) l(1) prod.case option.case
    using r by (simp add: not_less)
  show "py_strip (format_time m) = format_time m"
    by (rule py_strip_id) (use h(3) l(4) in \<open>simp add: format_time_def two_digits_def\<close>)
qed

lemma day_order_clean: "d \<in> set day_order \<Longrightarrow> py_lower (py_strip d) = d"
proof -
  have "list_all (\<lambda>d. py_lower (py_strip d) = d) day_order" by code_simp
  then show "d \<in> set day_order \<Longrightarrow> py_lower (py_strip d) = d" by (simp add: list_all_iff)
qed

subsection \<open>Windows as they are stored\<close>

definition stored_window :: "schedule_window \<Rightarrow> bool" where
  "stored_window w \<longleftrightarrow> sw_days w \<noteq> [] \<and> distinct (sw_days w) \<and> set (sw_days w) \<subseteq> set day_order
     \<and> (\<exists>s. 0 \<le> s \<and> s < 1440 \<and> sw_start w = format_time s)
     \<and> (\<exists>e. 0 \<le> e \<and> e < 1440 \<and> sw_end w = format_time e)"

definition window_json :: "schedule_window \<Rightarrow> json" where
  "window_json w = JObj [(''days'', JList (map JStr (sw_days w))), (''start_time'', JStr (sw_start w)),
     (''end_time'', JStr (sw_end w))]"

lemma clean_days_ok:
  "clean_days acc ds = Inr r \<Longrightarrow> distinct acc \<Longrightarrow> set acc \<subseteq> set day_order \<Longrightarrow>
     distinct r \<and> set r \<subseteq> set day_order \<and> set acc \<subseteq> set r \<and> (ds \<noteq> [] \<longrightarrow> r \<noteq> [])"
proof (induction acc ds rule: clean_days.induct)
  case (2 acc d ds)
  then obtain s where d: "d = JStr s" and c: "py_lower (py_strip s) \<in> set day_order"
    and r: "clean_days (if py_lower (py_strip s) \<in> set acc then acc else acc @ [py_lower (py_strip s)]) ds = Inr r"
    by (auto simp: Let_def split: json.splits if_splits)
  have "set (if py_lower (py_strip s) \<in> set acc then acc else acc @ [py_lower (py_strip s)]) \<subseteq> set r \<and> distinct r
      \<and> set r \<subseteq> set day_order"
    using 2(1) [OF d refl _ r] 2(3,4) c by auto
  then show ?case by (auto split: if_splits)
qed auto

lemma clean_days_stored:
  "distinct (acc @ ds) \<Longrightarrow> set ds \<subseteq> set day_order \<Longrightarrow> clean_days acc (map JStr ds) = Inr (acc @ ds)"
  by (induction ds arbitrary: acc) (auto simp: Let_def day_order_clean)

lemma normalise_time_cases:
  assumes "normalise_time v = Inr t"
  obtains m where "0 \<le> m" "m < 1440" "t = format_time m"
  using assms parse_time_range by (fastforce simp: normalise_time_def split: json.splits sum.splits)

lemma normalise_window_stored:
  assumes "normalise_window item = Inr w"
  shows "stored_window w"
proof -
  obtain kvs days cleaned start stop where "jget kvs ''days'' = JList days" "days \<noteq> []"
    and c: "clean_days [] days = Inr cleaned" and s: "normalise_time (jget kvs ''start_time'') = Inr start"
    and e: "normalise_time (jget kvs ''end_time'') = Inr stop"
    and w: "w = \<lparr>sw_days = cleaned, sw_start = start, sw_end = stop\<rparr>"
    using assms by (auto simp: normalise_window_def split: json.splits if_splits sum.splits)
  then have "cleaned \<noteq> []" "distinct cleaned" "set cleaned \<subseteq> set day_order" using clean_days_ok [OF c] by auto
  moreover obtain m where "0 \<le> m" "m < 1440" "start = format_time m" using s by (rule normalise_time_cases)
  moreover obtain n where "0 \<le> n" "n < 1440" "stop = format_time n" using e by (rule normalise_time_cases)
  ultimately show ?thesis by (auto simp: stored_window_def w)
qed

lemma normalise_window_json:
  assumes "stored_window w"
  shows "normalise_window (window_json w) = Inr w"
proof -
  obtain s e where "0 \<le> s" "s < 1440" "sw_start w = format_time s" "0 \<le> e" "e < 1440" "sw_end w = format_time e"
    using assms by (auto simp: stored_window_def)
  then have "normalise_time (JStr (sw_start w)) = Inr (sw_start w)" "normalise_time (JStr (sw_end w)) = Inr (sw_end w)"
    by (simp_all add: normalise_time_def parse_format_time)
  moreover have "clean_days [] (map JStr (sw_days w)) = Inr (sw_days w)"
    using clean_days_stored [of "[]" "sw_days w"] assms by (simp add: stored_window_def)
  ultimately show ?thesis using assms
    by (simp add: normalise_window_def window_json_def jget_def stored_window_def)
qed

lemma normalise_items_stored:
  "normalise_items acc items = Inr ws \<Longrightarrow> list_all stored_window acc \<Longrightarrow>
     list_all stored_window ws \<and> length ws = length acc + length items"
  by (induction acc items rule: normalise_items.induct)
     (auto simp: normalise_window_stored split: sum.splits)

lemma normalise_items_json:
  "list_all stored_window ws \<Longrightarrow> normalise_items acc (map window_json ws) = Inr (acc @ ws)"
  by (induction ws arbitrary: acc) (auto simp: normalise_window_json)

text \<open>
  Schedule windows round-trip: what parsing accepts is in stored form (known days without
  repeats, zero-padded times), there is at least one window, and parsing the stored form again
  gives the same windows.
\<close>

theorem schedule_windows_round_trip:
  assumes "normalise_schedule_windows v = Inr (Some ws)"
  shows "ws \<noteq> [] \<and> list_all stored_window ws
      \<and> normalise_schedule_windows (JList (map window_json ws)) = Inr (Some ws)"
proof -
  obtain items where i: "v = JList items" "items \<noteq> []" "normalise_items [] items = Inr ws"
    using assms by (auto simp: normalise_schedule_windows_def split: if_splits json.splits sum.splits)
  then have w: "list_all stored_window ws" "length ws = length items" using normalise_items_stored by force+
  then have "ws \<noteq> []" using i by auto
  then show ?thesis using w normalise_items_json [OF w(1), of "[]"]
    by (auto simp: normalise_schedule_windows_def)
qed

lemma schedule_windows_round_trip_witness:
  "normalise_schedule_windows (JList (map window_json
     [\<lparr>sw_days = [''mon'', ''sun''], sw_start = ''22:00'', sw_end = ''06:30''\<rparr>]))
   = Inr (Some [\<lparr>sw_days = [''mon'', ''sun''], sw_start = ''22:00'', sw_end = ''06:30''\<rparr>])"
proof -
  have "normalise_schedule_windows (JList [JObj [(''days'', JList [JStr '' Mon'', JStr ''sun'', JStr ''MON'']),
      (''start_time'', JStr ''22:0_0''), (''end_time'', JStr ''6:30 '')]])
    = Inr (Some [\<lparr>sw_days = [''mon'', ''sun''], sw_start = ''22:00'', sw_end = ''06:30''\<rparr>])" by code_simp
  from schedule_windows_round_trip [OF this] show ?thesis by blast
qed

subsection \<open>When a window is open\<close>

text \<open>
  The reference: a window opens on each of its days at its start and closes at its end, on the next
  day when the end is the smaller time; both ends belong to it.
\<close>

definition window_open :: "schedule_window \<Rightarrow> local_time \<Rightarrow> bool" where
  "window_open w t \<longleftrightarrow> (\<exists>k s e. day_name (weekday k) \<in> set (sw_days w)
     \<and> parse_time (sw_start w) = Inr s \<and> parse_time (sw_end w) = Inr e
     \<and> k * day_us + s * minute_us \<le> t \<and> t \<le> (if s \<le> e then k else k + 1) * day_us + e * minute_us)"

definition some_window_open :: "schedule_window list \<Rightarrow> local_time \<Rightarrow> bool" where
  "some_window_open ws t \<longleftrightarrow> (\<exists>w\<in>set ws. window_open w t)"

lemma stored_times:
  assumes "stored_window w"
  obtains s e where "parse_time (sw_start w) = Inr s" "parse_time (sw_end w) = Inr e" "0 \<le> s" "s < 1440" "0 \<le> e" "e < 1440"
  using assms parse_format_time(1) by (auto simp: stored_window_def)

lemma stored_days: "stored_window w \<Longrightarrow> window_days w = set (sw_days w)"
  using day_order_clean by (force simp: stored_window_def window_days_def)

lemma previous_weekday: "(weekday d - 1) mod 7 = weekday (d - 1)"
  by (simp add: weekday_def mod_diff_left_eq)

lemma minutes_in_day: "0 \<le> s \<Longrightarrow> s < 1440 \<Longrightarrow> 0 \<le> s * minute_us \<and> s * minute_us < day_us"
  by (simp add: day_us_def minute_us_def)

lemma days_apart: "k + n \<le> d \<Longrightarrow> k * day_us + n * day_us \<le> d * day_us"
  by (simp add: day_us_def)

lemma same_day:
  fixes d c k s e :: int
  assumes "0 \<le> c" "c < day_us" "0 \<le> s" "s < 1440" "0 \<le> e" "e < 1440"
  shows "k * day_us + s * minute_us \<le> d * day_us + c \<and> d * day_us + c \<le> k * day_us + e * minute_us
      \<longleftrightarrow> k = d \<and> s * minute_us \<le> c \<and> c \<le> e * minute_us"
proof (cases k d rule: linorder_cases)
  case less
  then show ?thesis using assms(1,2) minutes_in_day [OF assms(5,6)] days_apart [of k 1 d] by simp
next
  case greater
  then show ?thesis using assms(1,2) minutes_in_day [OF assms(3,4)] days_apart [of d 1 k] by simp
qed auto

lemma over_midnight:
  fixes d c k s e :: int
  assumes "0 \<le> c" "c < day_us" "0 \<le> s" "s < 1440" "0 \<le> e" "e < 1440"
  shows "k * day_us + s * minute_us \<le> d * day_us + c \<and> d * day_us + c \<le> (k + 1) * day_us + e * minute_us
      \<longleftrightarrow> k = d \<and> s * minute_us \<le> c \<or> k = d - 1 \<and> c \<le> e * minute_us"
proof -
  note m = minutes_in_day [OF assms(3,4)] minutes_in_day [OF assms(5,6)] assms(1,2)
  have n: "(k + 1) * day_us = k * day_us + day_us" by (simp add: algebra_simps)
  consider "k + 2 \<le> d" | "k + 1 = d" | "k = d" | "d + 1 \<le> k" by linarith
  then show ?thesis
  proof cases
    case 1
    then show ?thesis using m days_apart [OF 1] unfolding n by simp
  next
    case 2
    then have "d * day_us = k * day_us + day_us" using n by simp
    then show ?thesis using 2 m unfolding n by auto
  next
    case 3
    then show ?thesis using m unfolding n by simp
  next
    case 4
    then show ?thesis using m days_apart [OF 4] unfolding n by simp
  qed
qed

lemma window_open_now:
  assumes st: "parse_time (sw_start w) = Inr s" "parse_time (sw_end w) = Inr e" "0 \<le> s" "s < 1440" "0 \<le> e" "e < 1440"
  shows "window_open w t \<longleftrightarrow>
     (let d = t div day_us; c = t mod day_us in
      if s \<le> e then day_name (weekday d) \<in> set (sw_days w) \<and> s * minute_us \<le> c \<and> c \<le> e * minute_us
      else day_name (weekday d) \<in> set (sw_days w) \<and> s * minute_us \<le> c
           \<or> day_name (weekday (d - 1)) \<in> set (sw_days w) \<and> c \<le> e * minute_us)"
proof -
  have t: "t = (t div day_us) * day_us + t mod day_us" "0 \<le> t mod day_us" "t mod day_us < day_us"
    by (simp_all add: day_us_def)
  note same = same_day [OF t(2,3) st(3-6), where d = "t div day_us", folded t(1)]
    and wrap = over_midnight [OF t(2,3) st(3-6), where d = "t div day_us", folded t(1)]
  show ?thesis
    by (cases "s \<le> e") (auto simp: window_open_def st(1,2) same wrap Let_def)
qed

lemma windows_allow_stored:
  assumes "list_all stored_window ws"
  shows "windows_allow t ws = Inr (some_window_open ws t)"
  using assms
proof (induction ws)
  case Nil
  then show ?case by (simp add: some_window_open_def)
next
  case (Cons w ws)
  then have w: "stored_window w" and rest: "windows_allow t ws = Inr (some_window_open ws t)" by simp_all
  obtain s e where st: "parse_time (sw_start w) = Inr s" "parse_time (sw_end w) = Inr e"
    "0 \<le> s" "s < 1440" "0 \<le> e" "e < 1440" using stored_times [OF w] .
  have "windows_allow t (w # ws) = (if window_open w t then Inr True else windows_allow t ws)"
    unfolding window_open_now [OF st] by (auto simp: st(1,2) stored_days [OF w] previous_weekday Let_def)
  then show ?case by (simp add: rest some_window_open_def)
qed

text \<open>
  The schedule check is right: for stored windows it never fails, and it allows work exactly
  when some window is open at that instant (windows that wrap past midnight belong to the day they
  open on); with no windows work is always allowed.
\<close>

theorem schedule_check_correct:
  assumes "list_all stored_window ws"
  shows "schedule_windows_allow_now (Some ws) t = Inr (ws = [] \<or> some_window_open ws t)
      \<and> schedule_windows_allow_now None t = Inr True"
  using windows_allow_stored [OF assms] by (simp add: schedule_windows_allow_now_def)

lemma schedule_check_correct_witness:
  "schedule_windows_allow_now (Some [\<lparr>sw_days = [''mon''], sw_start = ''22:00'', sw_end = ''06:30''\<rparr>]) (2 * day_us + 60 * minute_us)
   = Inr (some_window_open [\<lparr>sw_days = [''mon''], sw_start = ''22:00'', sw_end = ''06:30''\<rparr>] (2 * day_us + 60 * minute_us))"
proof -
  have f: "''22:00'' = format_time 1320" "''06:30'' = format_time 390" by code_simp+
  have "\<exists>s\<ge>0. s < 1440 \<and> ''22:00'' = format_time s" by (rule exI [of _ 1320]) (use f(1) in simp)
  moreover have "\<exists>e\<ge>0. e < 1440 \<and> ''06:30'' = format_time e" by (rule exI [of _ 390]) (use f(2) in simp)
  ultimately have "list_all stored_window [\<lparr>sw_days = [''mon''], sw_start = ''22:00'', sw_end = ''06:30''\<rparr>]"
    by (simp add: stored_window_def day_order_def)
  from schedule_check_correct [OF this] show ?thesis by simp
qed

subsection \<open>The next opening is the first one\<close>

definition opens_on :: "schedule_window \<Rightarrow> int \<Rightarrow> local_time \<Rightarrow> bool" where
  "opens_on w k t \<longleftrightarrow> day_name (weekday k) \<in> set (sw_days w)
     \<and> (\<exists>s. parse_time (sw_start w) = Inr s \<and> t = k * day_us + s * minute_us)"

lemma day_openings_stored:
  "list_all stored_window ws \<Longrightarrow>
     \<exists>ts. day_openings now k ws = Inr ts \<and> set ts = {t. now \<le> t \<and> (\<exists>w\<in>set ws. opens_on w k t)}"
proof (induction ws)
  case (Cons w ws)
  then obtain ts where ts: "day_openings now k ws = Inr ts" "set ts = {t. now \<le> t \<and> (\<exists>w\<in>set ws. opens_on w k t)}"
    by auto
  have w: "stored_window w" using Cons.prems by simp
  obtain s e where st: "parse_time (sw_start w) = Inr s" "parse_time (sw_end w) = Inr e"
    "0 \<le> s" "s < 1440" "0 \<le> e" "e < 1440" using stored_times [OF w] .
  let ?in = "day_name (weekday k) \<in> window_days w" and ?o = "k * day_us + s * minute_us"
  have o: "opens_on w k t \<longleftrightarrow> ?in \<and> t = ?o" for t by (simp add: stored_days [OF w] opens_on_def st(1))
  have "day_openings now k (w # ws) = Inr (if ?in \<and> now \<le> ?o then ?o # ts else ts)"
    by (simp add: ts(1) st(1) Let_def)
  moreover have "set (if ?in \<and> now \<le> ?o then ?o # ts else ts) = {t. now \<le> t \<and> (\<exists>v\<in>set (w # ws). opens_on v k t)}"
    by (auto simp: o ts(2))
  ultimately show ?case by blast
qed simp

lemma openings_stored:
  "list_all stored_window ws \<Longrightarrow>
     \<exists>ts. openings now ks ws = Inr ts \<and> set ts = {t. now \<le> t \<and> (\<exists>k\<in>set ks. \<exists>w\<in>set ws. opens_on w k t)}"
proof (induction ks)
  case (Cons k ks)
  then obtain ts where "openings now ks ws = Inr ts" "set ts = {t. now \<le> t \<and> (\<exists>k\<in>set ks. \<exists>w\<in>set ws. opens_on w k t)}"
    by auto
  moreover obtain us where "day_openings now k ws = Inr us" "set us = {t. now \<le> t \<and> (\<exists>w\<in>set ws. opens_on w k t)}"
    using day_openings_stored [OF Cons.prems] by blast
  ultimately show ?case by auto
qed simp

lemma weekday_week: "weekday (k + 7 * n) = weekday k"
proof -
  have "(k + 7 * n + 6) mod 7 = (k + 6 + 7 * n) mod 7" by (simp add: algebra_simps)
  then show ?thesis by (simp add: weekday_def)
qed

text \<open>Every window opens within any seven days.\<close>

lemma opens_this_week:
  assumes "stored_window w" "opens_on w k t" "now div day_us + 1 \<le> k"
  obtains k' t' where "k' \<in> {now div day_us + 1 .. now div day_us + 7}" "opens_on w k' t'" "t' \<le> t"
proof -
  let ?d = "now div day_us"
  define n where "n = (k - ?d - 1) div 7"
  have n: "0 \<le> n" "?d + 1 \<le> k - 7 * n" "k - 7 * n \<le> ?d + 7"
    using assms(3) unfolding n_def by (auto simp: pos_imp_zdiv_nonneg_iff)
  obtain s where s: "parse_time (sw_start w) = Inr s" "t = k * day_us + s * minute_us"
    using assms(2) by (auto simp: opens_on_def)
  have "weekday (k - 7 * n) = weekday k" using weekday_week [of "k - 7 * n" n] by simp
  then have "opens_on w (k - 7 * n) ((k - 7 * n) * day_us + s * minute_us)"
    using assms(2) s by (simp add: opens_on_def)
  moreover have "(k - 7 * n) * day_us + s * minute_us \<le> t" using n(1) unfolding s(2) day_us_def by simp
  ultimately show thesis using that n by auto
qed

lemma weekday_reached: "0 \<le> j \<Longrightarrow> j < 7 \<Longrightarrow> weekday (d + 1 + (j - 7 - d) mod 7) = j"
proof -
  assume j: "0 \<le> j" "j < 7"
  have "weekday (d + 1 + (j - 7 - d) mod 7) = (d + 7 + (j - 7 - d) mod 7) mod 7"
    by (simp add: weekday_def algebra_simps)
  also have "\<dots> = (d + 7 + (j - 7 - d)) mod 7" by (rule mod_add_right_eq)
  also have "\<dots> = j" using j by simp
  finally show ?thesis .
qed

lemma day_bounds: "(now div day_us) * day_us \<le> now" "now < (now div day_us + 1) * day_us"
proof -
  have "(now div day_us) * day_us + now mod day_us = now" by (rule div_mult_mod_eq)
  moreover have "0 \<le> now mod day_us" "now mod day_us < day_us" by (simp_all add: day_us_def)
  moreover have "(now div day_us + 1) * day_us = (now div day_us) * day_us + day_us" by (simp add: algebra_simps)
  ultimately show "(now div day_us) * day_us \<le> now" "now < (now div day_us + 1) * day_us" by linarith+
qed

lemma some_opening_day:
  assumes "stored_window w"
  obtains k t where "now div day_us + 1 \<le> k" "opens_on w k t"
proof -
  obtain d where d: "d \<in> set (sw_days w)" "d \<in> set day_order" using assms
    by (cases "sw_days w") (auto simp: stored_window_def)
  then obtain i where "i < length day_order" "d = day_order ! i" by (metis in_set_conv_nth)
  then have i: "i < 7" "d = day_order ! i" by (simp_all add: day_order_def)
  obtain s where s: "parse_time (sw_start w) = Inr s" using stored_times [OF assms] by metis
  let ?d = "now div day_us"
  define k where "k = ?d + 1 + (int i - 7 - ?d) mod 7"
  have "weekday k = int i" using i(1) unfolding k_def by (intro weekday_reached) simp_all
  then have "day_name (weekday k) = d" using i by (simp add: day_name_def)
  moreover have "?d + 1 \<le> k" unfolding k_def by simp
  ultimately show thesis using that [of k "k * day_us + s * minute_us"] d(1) s by (auto simp: opens_on_def)
qed

lemma first_opening:
  assumes "list_all stored_window ws" "ws \<noteq> []"
  shows "\<exists>t. next_schedule_opening (Some ws) now = Inr (Some t) \<and> now \<le> t \<and> some_window_open ws t
      \<and> (\<forall>u. now \<le> u \<and> u < t \<longrightarrow> \<not> some_window_open ws u)"
proof (cases "some_window_open ws now")
  case True
  then have "next_schedule_opening (Some ws) now = Inr (Some now)"
    using assms windows_allow_stored [OF assms(1)]
    by (simp add: next_schedule_opening_def schedule_windows_allow_now_def)
  then show ?thesis using True by auto
next
  case closed: False
  let ?d = "now div day_us"
  let ?ks = "map (\<lambda>n. ?d + n) [0..7]"
  obtain ts where ts: "openings now ?ks ws = Inr ts"
    "set ts = {t. now \<le> t \<and> (\<exists>k\<in>set ?ks. \<exists>w\<in>set ws. opens_on w k t)}"
    using openings_stored [OF assms(1)] by blast
  have st: "stored_window w" if "w \<in> set ws" for w using assms(1) that by (simp add: list_all_iff)
  have week: "k \<in> set ?ks \<longleftrightarrow> ?d \<le> k \<and> k \<le> ?d + 7" for k
    by (auto simp: image_iff intro!: bexI [of _ "k - ?d"])
  have reach: "\<exists>t'\<in>set ts. t' \<le> t" if w: "w \<in> set ws" and op: "opens_on w k t" and ge: "now \<le> t" "?d \<le> k" for w k t
  proof (cases "k \<le> ?d + 7")
    case True
    then have "k \<in> set ?ks" using week ge(2) by blast
    then have "t \<in> set ts" unfolding ts(2) using w op ge(1) by blast
    then show ?thesis by blast
  next
    case False
    then have "?d + 1 \<le> k" by simp
    then obtain k' t' where k: "k' \<in> {?d + 1 .. ?d + 7}" "opens_on w k' t'" "t' \<le> t"
      using opens_this_week [OF st [OF w] op] by blast
    obtain s where "t' = k' * day_us + s * minute_us" "0 \<le> s"
      using k(2) parse_time_range by (auto simp: opens_on_def)
    moreover have "(?d + 1) * day_us \<le> k' * day_us" using k(1) by (simp add: day_us_def)
    moreover have "now < (?d + 1) * day_us" by (rule day_bounds)
    ultimately have "now \<le> t'" by (simp add: minute_us_def)
    moreover have "k' \<in> set ?ks" using k(1) week by simp
    ultimately have "t' \<in> set ts" unfolding ts(2) using k(2) w by blast
    then show ?thesis using k(3) by blast
  qed
  have ne: "ts \<noteq> []"
  proof -
    obtain w where w: "w \<in> set ws" using assms(2) by (cases ws) auto
    obtain k t where k: "?d + 1 \<le> k" "opens_on w k t" using some_opening_day [OF st [OF w]] .
    obtain s where "t = k * day_us + s * minute_us" "0 \<le> s"
      using k(2) parse_time_range by (auto simp: opens_on_def)
    moreover have "(?d + 1) * day_us \<le> k * day_us" using k(1) by (simp add: day_us_def)
    moreover have "now < (?d + 1) * day_us" by (rule day_bounds)
    ultimately have "now \<le> t" by (simp add: minute_us_def)
    then show ?thesis using reach [OF w k(2)] k(1) by force
  qed
  let ?t = "Min (set ts)"
  have t: "?t \<in> set ts" "\<And>u. u \<in> set ts \<Longrightarrow> ?t \<le> u" using ne by simp_all
  have "next_schedule_opening (Some ws) now = Inr (Some ?t)"
    using assms(2) closed windows_allow_stored [OF assms(1)] ts(1) ne
    by (simp add: next_schedule_opening_def schedule_windows_allow_now_def)
  moreover have "now \<le> ?t" using t(1) ts(2) by auto
  moreover have "some_window_open ws ?t"
  proof -
    obtain w k where w: "w \<in> set ws" "opens_on w k ?t" using t(1) ts(2) by auto
    obtain s e where s: "parse_time (sw_start w) = Inr s" "parse_time (sw_end w) = Inr e"
      "0 \<le> s" "s < 1440" "0 \<le> e" "e < 1440" using stored_times [OF st [OF w(1)]] .
    have "window_open w ?t" unfolding window_open_def
      by (rule exI [of _ k], rule exI [of _ s], rule exI [of _ e])
         (use w(2) s in \<open>auto simp: opens_on_def day_us_def minute_us_def\<close>)
    then show ?thesis using w(1) by (auto simp: some_window_open_def)
  qed
  moreover have "\<not> some_window_open ws u" if u: "now \<le> u" "u < ?t" for u
  proof
    assume "some_window_open ws u"
    then obtain w k s e where w: "w \<in> set ws" "day_name (weekday k) \<in> set (sw_days w)"
      and p: "parse_time (sw_start w) = Inr s" "parse_time (sw_end w) = Inr e"
      and b: "k * day_us + s * minute_us \<le> u" "u \<le> (if s \<le> e then k else k + 1) * day_us + e * minute_us"
      by (auto simp: some_window_open_def window_open_def)
    have "\<not> window_open w now" using closed w(1) by (auto simp: some_window_open_def)
    then have after: "now < k * day_us + s * minute_us"
      using w(2) p b(2) u(1) unfolding window_open_def by (metis le_less_trans linorder_not_le order_trans)
    have op: "opens_on w k (k * day_us + s * minute_us)" using w(2) p(1) by (simp add: opens_on_def)
    have "?d \<le> k"
    proof -
      have "?d * day_us \<le> now" by (rule day_bounds)
      moreover have "s * minute_us < day_us" using parse_time_range [OF p(1)] by (simp add: day_us_def minute_us_def)
      ultimately have "?d * day_us < (k + 1) * day_us" using after by (simp add: algebra_simps)
      then show ?thesis by (simp add: day_us_def)
    qed
    from reach [OF w(1) op less_imp_le [OF after] this] obtain v where "v \<in> set ts" "v \<le> k * day_us + s * minute_us" ..
    then have "?t \<le> k * day_us + s * minute_us" using t(2) order_trans by blast
    then show False using b(1) u(2) by simp
  qed
  ultimately show ?thesis by blast
qed

text \<open>
  The next opening is the first moment work is allowed: for stored windows it is now when a
  window is open, otherwise it lies ahead, a window is open at it, and no window is open at any
  moment in between. So a scheduled job always gets a due time, and the earliest one.
\<close>

theorem next_opening_is_first:
  assumes "list_all stored_window ws" "ws \<noteq> []"
  shows "\<exists>t. next_schedule_opening (Some ws) now = Inr (Some t) \<and> now \<le> t \<and> some_window_open ws t
      \<and> (\<forall>u. now \<le> u \<and> u < t \<longrightarrow> \<not> some_window_open ws u)"
  by (rule first_opening [OF assms])

lemma next_opening_is_first_witness:
  "\<exists>t. next_schedule_opening (Some [\<lparr>sw_days = [''mon''], sw_start = ''22:00'', sw_end = ''06:30''\<rparr>]) (3 * day_us) = Inr (Some t)
     \<and> 3 * day_us \<le> t"
proof -
  have f: "''22:00'' = format_time 1320" "''06:30'' = format_time 390" by code_simp+
  have "\<exists>s\<ge>0. s < 1440 \<and> ''22:00'' = format_time s" by (rule exI [of _ 1320]) (use f(1) in simp)
  moreover have "\<exists>e\<ge>0. e < 1440 \<and> ''06:30'' = format_time e" by (rule exI [of _ 390]) (use f(2) in simp)
  ultimately have "list_all stored_window [\<lparr>sw_days = [''mon''], sw_start = ''22:00'', sw_end = ''06:30''\<rparr>]"
    by (simp add: stored_window_def day_order_def)
  from next_opening_is_first [OF this] show ?thesis by blast
qed

end
