(* ===== verification/Db_Models.thy ===== *)
theory Db_Models
  imports Scheduling Backend Ffmpeg_Builder Safety Replacement
begin

text \<open>
  The rows of the database (\<open>src/packages/db/encodr_db/models\<close>): enumerations, tracked files, plan
  snapshots, workers and jobs, as records with the columns of the source. A database is the lists of
  its rows; a row has the key \<open>row_id\<close>, the place of its UUID in the order of the database. Instants are
  microseconds since the epoch. Writing marks a changed row with the time of the write and checks
  the unique index on active jobs, as \<open>flush\<close> does; a violation is an \<open>IntegrityError\<close>.
\<close>

type_synonym row_id = nat
type_synonym instant = int

subsection \<open>Enumerations\<close>

datatype file_lifecycle_state =
    FL_DISCOVERED | FL_PROBED | FL_PLANNED | FL_MANUAL_REVIEW | FL_QUEUED | FL_PROCESSING | FL_COMPLETED | FL_FAILED

datatype compliance_state = CS_UNKNOWN | CS_COMPLIANT | CS_NON_COMPLIANT | CS_MANUAL_REVIEW

datatype job_status =
    JS_PENDING | JS_SCHEDULED | JS_RUNNING | JS_COMPLETED | JS_FAILED | JS_INTERRUPTED | JS_CANCELLED
  | JS_SKIPPED | JS_MANUAL_REVIEW

definition active_job_statuses :: "job_status list" where
  "active_job_statuses = [JS_PENDING, JS_SCHEDULED, JS_RUNNING]"

definition terminal_job_statuses :: "job_status list" where
  "terminal_job_statuses = [JS_COMPLETED, JS_FAILED, JS_INTERRUPTED, JS_CANCELLED, JS_SKIPPED, JS_MANUAL_REVIEW]"

definition successful_job_statuses :: "job_status list" where
  "successful_job_statuses = [JS_COMPLETED, JS_SKIPPED]"

definition retryable_job_statuses :: "job_status list" where
  "retryable_job_statuses = [JS_FAILED, JS_MANUAL_REVIEW, JS_SKIPPED, JS_INTERRUPTED, JS_CANCELLED]"

datatype job_kind = EXECUTION | DRY_RUN
datatype worker_type = LOCAL | REMOTE
datatype worker_registration_status = WR_REGISTERED | WR_DISABLED | WR_UNKNOWN
datatype worker_health_status = WH_HEALTHY | WH_DEGRADED | WH_FAILED | WH_UNKNOWN
datatype db_verification_status = DV_PENDING | DV_PASSED | DV_FAILED | DV_NOT_REQUIRED
datatype db_replacement_status = DR_PENDING | DR_SUCCEEDED | DR_FAILED | DR_NOT_REQUIRED

subsection \<open>Rows\<close>

record tracked_file =
  tf_id :: row_id
  tf_source_path :: string
  tf_source_filename :: string
  tf_source_extension :: "string option"
  tf_source_directory :: string
  tf_last_observed_size :: "int option"
  tf_last_observed_modified_time :: "instant option"
  tf_fingerprint_placeholder :: "string option"
  tf_is_4k :: bool
  tf_lifecycle_state :: file_lifecycle_state
  tf_compliance_state :: compliance_state
  tf_is_protected :: bool
  tf_operator_protected :: bool
  tf_operator_protected_note :: "string option"
  tf_operator_protected_updated_at :: "instant option"
  tf_operator_protected_by_user_id :: "row_id option"
  tf_last_processed_policy_version :: "int option"
  tf_last_processed_profile_name :: "string option"
  tf_updated_at :: instant

record plan_snapshot =
  sn_id :: row_id
  sn_tracked_file_id :: row_id
  sn_action :: plan_action
  sn_policy_version :: int
  sn_profile_name :: "string option"
  sn_is_already_compliant :: bool
  sn_should_treat_as_protected :: bool
  sn_payload :: processing_plan
  sn_created_at :: instant

record worker =
  w_id :: row_id
  w_worker_key :: string
  w_display_name :: string
  w_worker_type :: worker_type
  w_enabled :: bool
  w_registration_status :: worker_registration_status
  w_preferred_backend :: string
  w_allow_cpu_fallback :: bool
  w_max_concurrent_jobs :: int
  w_schedule_windows :: "schedule_window list option"
  w_path_mappings :: "json option"
  w_scratch_path :: "string option"
  w_auth_token_hash :: "string option"
  w_pairing_token_hash :: "string option"
  w_pairing_requested_at :: "instant option"
  w_pairing_expires_at :: "instant option"
  w_onboarding_platform :: "string option"
  w_install_dir :: "string option"
  w_host_metadata :: "json option"
  w_capability_payload :: "json option"
  w_runtime_payload :: "json option"
  w_binary_payload :: "json option"
  w_last_seen_at :: "instant option"
  w_last_heartbeat_at :: "instant option"
  w_last_health_status :: worker_health_status
  w_last_health_summary :: "string option"
  w_last_registration_at :: "instant option"
  w_updated_at :: instant

text \<open>A job row, in four layers: who runs it, how far it is, what it produced, where the files went.\<close>

record job_request =
  j_id :: row_id
  j_created_at :: instant
  j_updated_at :: instant
  j_tracked_file_id :: row_id
  j_plan_snapshot_id :: row_id
  j_assigned_worker_id :: "row_id option"
  j_preferred_worker_id :: "row_id option"
  j_pinned_worker_id :: "row_id option"
  j_last_worker_id :: "row_id option"
  j_watched_job_id :: "row_id option"
  j_requested_worker_type :: "worker_type option"
  j_job_kind :: job_kind
  j_preferred_backend_override :: "string option"
  j_schedule_windows :: "schedule_window list option"
  j_schedule_summary :: "string option"
  j_ignore_worker_schedule :: bool
  j_worker_name :: "string option"
  j_status :: job_status
  j_attempt_count :: int

record job_progress = job_request +
  j_started_at :: "instant option"
  j_completed_at :: "instant option"
  j_progress_stage :: "string option"
  j_progress_percent :: "int option"
  j_progress_out_time_seconds :: "int option"
  j_progress_fps :: "rat option"
  j_progress_speed :: "rat option"
  j_progress_updated_at :: "instant option"
  j_scheduled_for_at :: "instant option"
  j_interrupted_at :: "instant option"
  j_interruption_reason :: "string option"
  j_interruption_retryable :: bool
  j_cleared_at :: "instant option"
  j_cleared_reason :: "string option"
  j_cancellation_requested_at :: "instant option"
  j_cancellation_reason :: "string option"

record job_outcome = job_progress +
  j_requested_execution_backend :: "string option"
  j_actual_execution_backend :: "string option"
  j_actual_execution_accelerator :: "string option"
  j_backend_fallback_used :: bool
  j_backend_selection_reason :: "string option"
  j_failure_message :: "string option"
  j_failure_category :: "string option"
  j_input_size_bytes :: "int option"
  j_output_size_bytes :: "int option"
  j_space_saved_bytes :: "int option"
  j_video_input_size_bytes :: "int option"
  j_video_output_size_bytes :: "int option"
  j_video_space_saved_bytes :: "int option"
  j_non_video_space_saved_bytes :: "int option"
  j_compression_reduction_percent :: "int option"
  j_analysis_payload :: "json option"

record job = job_outcome +
  j_output_path :: "string option"
  j_execution_command :: "string list option"
  j_execution_stdout :: "string option"
  j_execution_stderr :: "string option"
  j_verification_status :: db_verification_status
  j_verification_payload :: "json option"
  j_replacement_status :: db_replacement_status
  j_replacement_payload :: "json option"
  j_final_output_path :: "string option"
  j_original_backup_path :: "string option"
  j_replacement_failure_message :: "string option"
  j_replace_in_place :: bool
  j_require_verification :: bool
  j_keep_original_until_verified :: bool
  j_delete_replaced_source :: bool
  j_backup_policy :: string
  j_backup_retention_until :: "instant option"
  j_backup_deleted_at :: "instant option"
  j_backup_restored_at :: "instant option"

subsection \<open>The database\<close>

record db =
  db_jobs :: "job list"
  db_files :: "tracked_file list"
  db_plans :: "plan_snapshot list"
  db_workers :: "worker list"

datatype db_error = IntegrityError | MissingRow | UnknownResultStatus string | ScheduleError schedule_error

definition is_active :: "job \<Rightarrow> bool" where
  "is_active j \<longleftrightarrow> j_status j \<in> set active_job_statuses \<and> j_cleared_at j = None"

text \<open>The index \<open>uq_jobs_one_active_per_tracked_file\<close>.\<close>

definition one_active_per_file :: "job list \<Rightarrow> bool" where
  "one_active_per_file js \<longleftrightarrow> distinct (map j_tracked_file_id (filter is_active js))"

definition flush :: "db \<Rightarrow> db_error + db" where
  "flush d = (if one_active_per_file (db_jobs d) then Inr d else Inl IntegrityError)"

definition find_job :: "db \<Rightarrow> row_id \<Rightarrow> job option" where
  "find_job d i = find (\<lambda>j. j_id j = i) (db_jobs d)"

definition find_file :: "db \<Rightarrow> row_id \<Rightarrow> tracked_file option" where
  "find_file d i = find (\<lambda>f. tf_id f = i) (db_files d)"

definition find_plan :: "db \<Rightarrow> row_id \<Rightarrow> plan_snapshot option" where
  "find_plan d i = find (\<lambda>s. sn_id s = i) (db_plans d)"

definition find_worker :: "db \<Rightarrow> row_id \<Rightarrow> worker option" where
  "find_worker d i = find (\<lambda>w. w_id w = i) (db_workers d)"

text \<open>An update writes only changed rows and stamps them (\<open>onupdate\<close>).\<close>

definition put_job :: "instant \<Rightarrow> job \<Rightarrow> db \<Rightarrow> db" where
  "put_job now j d =
     d\<lparr>db_jobs := map (\<lambda>r. if j_id r = j_id j \<and> r \<noteq> j then j\<lparr>j_updated_at := now\<rparr> else r) (db_jobs d)\<rparr>"

definition put_file :: "instant \<Rightarrow> tracked_file \<Rightarrow> db \<Rightarrow> db" where
  "put_file now f d =
     d\<lparr>db_files := map (\<lambda>r. if tf_id r = tf_id f \<and> r \<noteq> f then f\<lparr>tf_updated_at := now\<rparr> else r) (db_files d)\<rparr>"

definition put_worker :: "instant \<Rightarrow> worker \<Rightarrow> db \<Rightarrow> db" where
  "put_worker now w d =
     d\<lparr>db_workers := map (\<lambda>r. if w_id r = w_id w \<and> r \<noteq> w then w\<lparr>w_updated_at := now\<rparr> else r) (db_workers d)\<rparr>"

definition on_job :: "db \<Rightarrow> row_id \<Rightarrow> (job \<Rightarrow> db_error + 'a) \<Rightarrow> db_error + 'a" where
  "on_job d i f = (case find_job d i of None \<Rightarrow> Inl MissingRow | Some j \<Rightarrow> f j)"

definition set_lifecycle :: "instant \<Rightarrow> row_id \<Rightarrow> file_lifecycle_state \<Rightarrow> db \<Rightarrow> db" where
  "set_lifecycle now i s d =
     (case find_file d i of None \<Rightarrow> d | Some f \<Rightarrow> put_file now (f\<lparr>tf_lifecycle_state := s\<rparr>) d)"

subsection \<open>The order of the queue\<close>

text \<open>\<open>order_by(asc(created_at), asc(id))\<close>.\<close>

datatype queue_key = Queue_Key (key_created: instant) (key_row: row_id)

instantiation queue_key :: linorder
begin

definition less_eq_queue_key :: "queue_key \<Rightarrow> queue_key \<Rightarrow> bool" where
  "less_eq_queue_key a b \<longleftrightarrow> key_created a < key_created b \<or> key_created a = key_created b \<and> key_row a \<le> key_row b"

definition less_queue_key :: "queue_key \<Rightarrow> queue_key \<Rightarrow> bool" where
  "less_queue_key a b \<longleftrightarrow> key_created a < key_created b \<or> key_created a = key_created b \<and> key_row a < key_row b"

instance
  by standard (auto simp: less_eq_queue_key_def less_queue_key_def queue_key.expand)

end

definition queue_key_of :: "job \<Rightarrow> queue_key" where
  "queue_key_of j = Queue_Key (j_created_at j) (j_id j)"

end
