(* ===== verification/Job_Repository.thy ===== *)
theory Job_Repository
  imports Db_Models "HOL-Library.List_Lexorder"
begin

text \<open>
  The job repository (\<open>src/packages/db/encodr_db/repositories/jobs.py\<close>): creating a job from a
  plan, claiming it, its progress and result, the retry policy, cancellation, the queue and its
  history. An operation reads the clock once (\<open>now\<close>); \<open>tz\<close> is the local offset the schedule is
  read in. New row keys are arguments. Telemetry counters are not modelled; \<open>model_dump\<close> of a
  result is a parameter.
\<close>

text \<open>Change the attributes of one row and flush.\<close>

definition write_job :: "instant \<Rightarrow> row_id \<Rightarrow> (job \<Rightarrow> job) \<Rightarrow> db \<Rightarrow> db_error + db" where
  "write_job now i f d = on_job d i (\<lambda>j. flush (put_job now (f j) d))"

subsection \<open>Results\<close>

record full_result = execution_result +
  er_final_output_path :: "path option"
  er_original_backup_path :: "path option"
  er_savings :: media_savings
  er_analysis_payload :: "json option"
  er_verification :: "verification_result option"
  er_replacement :: "replacement_result option"
  er_started_at :: instant
  er_completed_at :: instant

definition no_measurement :: bitrate_measurement where
  "no_measurement = \<lparr>bm_value = None, bm_source = None, bm_unavailable_reason = None\<rparr>"

definition no_savings :: media_savings where
  "no_savings =
     \<lparr>input_size_bytes = None, output_size_bytes = None, space_saved_bytes = None, video_input_size_bytes = None,
      video_output_size_bytes = None, video_space_saved_bytes = None, source_video_bitrate = no_measurement,
      output_video_bitrate = no_measurement, source_duration_seconds = None, output_duration_seconds = None,
      compression_reduction_unavailable_reason = None, non_video_space_saved_bytes = None,
      compression_reduction_percent = None\<rparr>"

definition second :: int where "second = 1000000"
definition one_day :: int where "one_day = 86400 * second"

definition truncate_log :: "string option \<Rightarrow> string option" where
  "truncate_log v = map_option (take 8000) v"

definition verification_status_for_result :: "full_result \<Rightarrow> db_verification_status" where
  "verification_status_for_result r =
     (case er_verification r of
        None \<Rightarrow> DV_NOT_REQUIRED
      | Some v \<Rightarrow> (case vr_status v of PASSED \<Rightarrow> DV_PASSED | FAILED \<Rightarrow> DV_FAILED | NOT_REQUIRED \<Rightarrow> DV_NOT_REQUIRED))"

definition replacement_status_for_result :: "full_result \<Rightarrow> db_replacement_status" where
  "replacement_status_for_result r =
     (case er_replacement r of
        None \<Rightarrow> DR_NOT_REQUIRED
      | Some v \<Rightarrow> (case rr_status v of R_SUCCEEDED \<Rightarrow> DR_SUCCEEDED | R_FAILED \<Rightarrow> DR_FAILED
                                    | R_NOT_REQUIRED \<Rightarrow> DR_NOT_REQUIRED))"

definition backup_policy_aliases :: "string \<rightharpoonup> string" where
  "backup_policy_aliases = map_of
     [(''keep_backup'', ''keep''), (''keep'', ''keep''), (''delete_after_success'', ''delete_after_success''),
      (''delete_backup_after_success'', ''delete_after_success''), (''no_backup'', ''delete_after_success''),
      (''keep_for_1_day'', ''keep_for_1_day''), (''keep_for_one_day'', ''keep_for_1_day'')]"

definition normalise_backup_policy :: "string option \<Rightarrow> string" where
  "normalise_backup_policy v = get_or backup_policy_aliases (py_lower (py_strip (or_str v ''keep''))) ''keep''"

definition delete_replaced_source_for_backup_policy :: "string \<Rightarrow> bool \<Rightarrow> bool" where
  "delete_replaced_source_for_backup_policy v fallback =
     (let policy = normalise_backup_policy (Some v) in
      if policy = ''delete_after_success'' then True
      else if policy \<in> {''keep'', ''keep_for_1_day''} then False
      else fallback)"

definition job_requires_manual_review :: "tracked_file option \<Rightarrow> plan_snapshot \<Rightarrow> bool" where
  "job_requires_manual_review f s =
     (case f of
        None \<Rightarrow> False
      | Some t \<Rightarrow> tf_operator_protected t \<or> tf_is_protected t \<or> sn_action s = MANUAL_REVIEW
                 \<or> sn_should_treat_as_protected s)"

definition calculate_space_saved :: "int option \<Rightarrow> int option \<Rightarrow> int option" where
  "calculate_space_saved i out = (case (i, out) of (Some x, Some y) \<Rightarrow> Some (x - y) | _ \<Rightarrow> None)"

subsection \<open>Creating a job\<close>

record job_options =
  o_worker_name :: "string option"
  o_attempt_count :: int
  o_preferred_worker_id :: "row_id option"
  o_pinned_worker_id :: "row_id option"
  o_preferred_backend_override :: "string option"
  o_schedule_windows :: "schedule_window list option"
  o_watched_job_id :: "row_id option"
  o_job_kind :: job_kind
  o_analysis_payload :: "json option"
  o_ignore_worker_schedule :: bool
  o_scheduled_for_at :: "instant option"
  o_backup_policy :: string

definition default_options :: job_options where
  "default_options =
     \<lparr>o_worker_name = None, o_attempt_count = 1, o_preferred_worker_id = None, o_pinned_worker_id = None,
      o_preferred_backend_override = None, o_schedule_windows = None, o_watched_job_id = None,
      o_job_kind = EXECUTION, o_analysis_payload = None, o_ignore_worker_schedule = False,
      o_scheduled_for_at = None, o_backup_policy = ''keep''\<rparr>"

definition new_job :: "row_id \<Rightarrow> instant \<Rightarrow> tracked_file \<Rightarrow> plan_snapshot \<Rightarrow> job_options \<Rightarrow> bool \<Rightarrow> instant option \<Rightarrow> job" where
  "new_job i now f s opts starts_scheduled due =
     (let policy = normalise_backup_policy (Some (o_backup_policy opts)); rp = plan_replace (sn_payload s) in
      \<lparr>j_id = i, j_created_at = now, j_updated_at = now, j_tracked_file_id = tf_id f, j_plan_snapshot_id = sn_id s,
       j_assigned_worker_id = None, j_preferred_worker_id = o_preferred_worker_id opts,
       j_pinned_worker_id = o_pinned_worker_id opts, j_last_worker_id = None,
       j_watched_job_id = o_watched_job_id opts, j_requested_worker_type = None, j_job_kind = o_job_kind opts,
       j_preferred_backend_override =
         (case o_preferred_backend_override opts of None \<Rightarrow> None
          | Some b \<Rightarrow> Some (normalise_backend_preference_key (Some b))),
       j_schedule_windows = o_schedule_windows opts,
       j_schedule_summary = schedule_windows_summary (o_schedule_windows opts),
       j_ignore_worker_schedule = o_ignore_worker_schedule opts, j_worker_name = o_worker_name opts,
       j_status = (if starts_scheduled then JS_SCHEDULED else JS_PENDING), j_attempt_count = o_attempt_count opts,
       j_started_at = None, j_completed_at = None, j_progress_stage = None, j_progress_percent = None,
       j_progress_out_time_seconds = None, j_progress_fps = None, j_progress_speed = None,
       j_progress_updated_at = None, j_scheduled_for_at = (if starts_scheduled then due else None),
       j_interrupted_at = None, j_interruption_reason = None, j_interruption_retryable = True,
       j_cleared_at = None, j_cleared_reason = None, j_cancellation_requested_at = None,
       j_cancellation_reason = None,
       j_requested_execution_backend = None, j_actual_execution_backend = None,
       j_actual_execution_accelerator = None, j_backend_fallback_used = False, j_backend_selection_reason = None,
       j_failure_message = None, j_failure_category = None, j_input_size_bytes = tf_last_observed_size f,
       j_output_size_bytes = None, j_space_saved_bytes = None, j_video_input_size_bytes = None,
       j_video_output_size_bytes = None, j_video_space_saved_bytes = None, j_non_video_space_saved_bytes = None,
       j_compression_reduction_percent = None, j_analysis_payload = o_analysis_payload opts,
       j_output_path = None, j_execution_command = None, j_execution_stdout = None, j_execution_stderr = None,
       j_verification_status = DV_PENDING, j_verification_payload = None, j_replacement_status = DR_PENDING,
       j_replacement_payload = None, j_final_output_path = None, j_original_backup_path = None,
       j_replacement_failure_message = None, j_replace_in_place = in_place rp,
       j_require_verification = require_verification rp,
       j_keep_original_until_verified = keep_original_until_verified rp,
       j_delete_replaced_source = delete_replaced_source_for_backup_policy policy (delete_replaced_source rp),
       j_backup_policy = policy, j_backup_retention_until = None, j_backup_deleted_at = None,
       j_backup_restored_at = None\<rparr>)"

definition create_job_from_plan ::
    "row_id \<Rightarrow> instant \<Rightarrow> int \<Rightarrow> tracked_file \<Rightarrow> plan_snapshot \<Rightarrow> job_options \<Rightarrow> db \<Rightarrow> db_error + db \<times> job" where
  "create_job_from_plan i now tz f s opts d =
     (case next_schedule_opening (o_schedule_windows opts) (now + tz) of
        Inl e \<Rightarrow> Inl (ScheduleError e)
      | Inr window_opening \<Rightarrow>
          (case (if o_scheduled_for_at opts \<noteq> None then Inr True
                 else map_sum id Not (schedule_windows_allow_now (o_schedule_windows opts) (now + tz))) of
             Inl e \<Rightarrow> Inl (ScheduleError e)
           | Inr starts_scheduled \<Rightarrow>
               let due = (case o_scheduled_for_at opts of Some t \<Rightarrow> Some t
                          | None \<Rightarrow> map_option (\<lambda>t. t - tz) window_opening);
                   job = new_job i now f s opts starts_scheduled due
               in case flush (set_lifecycle now (tf_id f) FL_QUEUED (d\<lparr>db_jobs := db_jobs d @ [job]\<rparr>)) of
                    Inl e \<Rightarrow> Inl e
                  | Inr d' \<Rightarrow> Inr (d', job)))"

subsection \<open>Reading the queue\<close>

definition in_queue_order :: "job list \<Rightarrow> job list" where
  "in_queue_order js = sort_key queue_key_of js"

definition fetch_next_pending_local_jobs :: "nat \<Rightarrow> db \<Rightarrow> job list" where
  "fetch_next_pending_local_jobs limit d =
     take limit (in_queue_order (filter (\<lambda>j. j_status j = JS_PENDING \<and> j_cleared_at j = None
        \<and> j_assigned_worker_id j = None \<and> j_requested_worker_type j \<in> {None, Some LOCAL}) (db_jobs d)))"

definition fetch_next_pending_local_job :: "db \<Rightarrow> job option" where
  "fetch_next_pending_local_job d =
     (case fetch_next_pending_local_jobs 1 d of [] \<Rightarrow> None | j # _ \<Rightarrow> Some j)"

text \<open>
  \<open>desc(assigned_worker_id == worker.id)\<close>: the comparison is null for an unassigned job, and the
  database decides whether nulls come first (PostgreSQL) or last (SQLite).
\<close>

definition fetch_next_pending_remote_jobs :: "bool \<Rightarrow> row_id \<Rightarrow> nat \<Rightarrow> db \<Rightarrow> job list" where
  "fetch_next_pending_remote_jobs nulls_first wid limit d =
     (let js = in_queue_order (filter (\<lambda>j. j_status j = JS_PENDING \<and> j_cleared_at j = None
                 \<and> j_requested_worker_type j \<in> {None, Some REMOTE}
                 \<and> j_assigned_worker_id j \<in> {None, Some wid}) (db_jobs d));
          free = filter (\<lambda>j. j_assigned_worker_id j = None) js;
          mine = filter (\<lambda>j. j_assigned_worker_id j \<noteq> None) js
      in take limit (if nulls_first then free @ mine else mine @ free))"

definition count_active_assignments_for_worker :: "row_id \<Rightarrow> db \<Rightarrow> nat" where
  "count_active_assignments_for_worker wid d =
     length (filter (\<lambda>j. j_assigned_worker_id j = Some wid \<and> j_status j = JS_RUNNING \<and> j_cleared_at j = None)
       (db_jobs d))"

definition list_jobs_for_scheduling :: "nat \<Rightarrow> db \<Rightarrow> job list" where
  "list_jobs_for_scheduling limit d =
     take limit (in_queue_order (filter (\<lambda>j. j_status j \<in> {JS_PENDING, JS_SCHEDULED} \<and> j_cleared_at j = None) (db_jobs d)))"

definition has_active_job_for_tracked_file :: "row_id \<Rightarrow> db \<Rightarrow> bool" where
  "has_active_job_for_tracked_file fid d = list_ex (\<lambda>j. j_tracked_file_id j = fid \<and> is_active j) (db_jobs d)"

definition get_latest_for_tracked_file :: "row_id \<Rightarrow> db \<Rightarrow> job option" where
  "get_latest_for_tracked_file fid d =
     (case rev (in_queue_order (filter (\<lambda>j. j_tracked_file_id j = fid) (db_jobs d))) of [] \<Rightarrow> None | j # _ \<Rightarrow> Some j)"

subsection \<open>Claiming and running\<close>

definition starting :: "instant \<Rightarrow> string \<Rightarrow> string option \<Rightarrow> job \<Rightarrow> job" where
  "starting now name backend j =
     j\<lparr>j_status := JS_RUNNING, j_worker_name := Some name, j_started_at := Some now, j_interrupted_at := None,
       j_interruption_reason := None, j_progress_stage := Some ''starting'', j_progress_percent := Some 0,
       j_progress_out_time_seconds := Some 0, j_progress_fps := None, j_progress_speed := None,
       j_progress_updated_at := Some now,
       j_requested_execution_backend :=
         (case backend of None \<Rightarrow> j_requested_execution_backend j
          | Some b \<Rightarrow> Some (normalise_backend_preference_key (Some b)))\<rparr>"

definition lock_worker_capacity :: "instant \<Rightarrow> row_id \<Rightarrow> db \<Rightarrow> db" where
  "lock_worker_capacity now wid d =
     d\<lparr>db_workers := map (\<lambda>w. if w_id w = wid then w\<lparr>w_updated_at := now\<rparr> else w) (db_workers d)\<rparr>"

text \<open>The conditional update: it matches the row only while it is pending, not cleared and not
  assigned to another worker; \<open>None\<close> when it matches nothing.\<close>

definition claim_pending_for_worker ::
    "instant \<Rightarrow> row_id \<Rightarrow> worker \<Rightarrow> string option \<Rightarrow> int \<Rightarrow> db \<Rightarrow> db_error + db \<times> job option" where
  "claim_pending_for_worker now jid w backend max_running d0 =
     (let d = lock_worker_capacity now (w_id w) d0 in
      if max 1 max_running \<le> int (count_active_assignments_for_worker (w_id w) d) then Inr (d, None)
      else case find_job d jid of
        None \<Rightarrow> Inr (d, None)
      | Some j \<Rightarrow>
          if j_status j = JS_PENDING \<and> j_cleared_at j = None \<and> j_assigned_worker_id j \<in> {None, Some (w_id w)} then
            (let j' = (starting now (w_display_name w) backend j)
                        \<lparr>j_assigned_worker_id := Some (w_id w), j_last_worker_id := Some (w_id w), j_updated_at := now\<rparr>;
                 d1 = d\<lparr>db_jobs := map (\<lambda>r. if j_id r = jid then j' else r) (db_jobs d)\<rparr>
             in case flush (set_lifecycle now (j_tracked_file_id j) FL_PROCESSING d1) of
                  Inl e \<Rightarrow> Inl e
                | Inr d2 \<Rightarrow> Inr (d2, Some j'))
          else Inr (d, None))"

definition mark_running :: "instant \<Rightarrow> row_id \<Rightarrow> string \<Rightarrow> string option \<Rightarrow> db \<Rightarrow> db_error + db" where
  "mark_running now jid name backend d =
     on_job d jid (\<lambda>j. flush (set_lifecycle now (j_tracked_file_id j) FL_PROCESSING
       (put_job now (starting now name backend j) d)))"

definition mark_running_for_worker :: "instant \<Rightarrow> row_id \<Rightarrow> worker \<Rightarrow> string option \<Rightarrow> db \<Rightarrow> db_error + db" where
  "mark_running_for_worker now jid w backend d =
     (case mark_running now jid (w_display_name w) backend d of
        Inl e \<Rightarrow> Inl e
      | Inr d1 \<Rightarrow> write_job now jid
          (\<lambda>j. j\<lparr>j_assigned_worker_id := Some (w_id w), j_last_worker_id := Some (w_id w)\<rparr>) d1)"

definition assign_worker :: "instant \<Rightarrow> row_id \<Rightarrow> worker \<Rightarrow> db \<Rightarrow> db_error + db" where
  "assign_worker now jid w d =
     write_job now jid (\<lambda>j. j\<lparr>j_assigned_worker_id := Some (w_id w), j_worker_name := Some (w_display_name w)\<rparr>) d"

definition mark_scheduled :: "instant \<Rightarrow> row_id \<Rightarrow> instant option \<Rightarrow> db \<Rightarrow> db_error + db" where
  "mark_scheduled now jid due d =
     write_job now jid (\<lambda>j. j\<lparr>j_status := JS_SCHEDULED, j_scheduled_for_at := due\<rparr>) d"

definition promote_scheduled :: "instant \<Rightarrow> row_id \<Rightarrow> db \<Rightarrow> db_error + db" where
  "promote_scheduled now jid d =
     write_job now jid (\<lambda>j. j\<lparr>j_status := JS_PENDING, j_scheduled_for_at := None\<rparr>) d"

definition mark_cancelling :: "instant \<Rightarrow> row_id \<Rightarrow> instant \<Rightarrow> db \<Rightarrow> db_error + db" where
  "mark_cancelling now jid stamp d =
     write_job now jid (\<lambda>j. j\<lparr>j_progress_stage := Some ''cancelling'', j_progress_updated_at := Some stamp\<rparr>) d"

definition mark_cancellation_requested :: "instant \<Rightarrow> row_id \<Rightarrow> instant \<Rightarrow> string \<Rightarrow> db \<Rightarrow> db_error + db" where
  "mark_cancellation_requested now jid stamp reason d =
     write_job now jid (\<lambda>j. j\<lparr>j_cancellation_requested_at := Some stamp, j_cancellation_reason := Some reason,
          j_interruption_reason := Some reason, j_progress_stage := Some ''cancellation_requested'',
          j_progress_updated_at := Some stamp\<rparr>) d"

record progress_update =
  pu_stage :: string
  pu_percent :: "rat option"
  pu_out_time_seconds :: "rat option"
  pu_fps :: "rat option"
  pu_speed :: "rat option"
  pu_updated_at :: instant

definition record_progress :: "instant \<Rightarrow> row_id \<Rightarrow> progress_update \<Rightarrow> db \<Rightarrow> db_error + db" where
  "record_progress now jid u d =
     write_job now jid (\<lambda>j. j\<lparr>j_progress_stage := Some (pu_stage u), j_progress_percent := map_option floor (pu_percent u),
          j_progress_out_time_seconds := map_option floor (pu_out_time_seconds u), j_progress_fps := pu_fps u,
          j_progress_speed := pu_speed u, j_progress_updated_at := Some (pu_updated_at u)\<rparr>) d"

subsection \<open>Results, retries and review\<close>

definition status_of_result :: "string \<rightharpoonup> job_status" where
  "status_of_result = map_of
     [(''completed'', JS_COMPLETED), (''failed'', JS_FAILED), (''skipped'', JS_SKIPPED),
      (''manual_review'', JS_MANUAL_REVIEW), (''cancelled'', JS_CANCELLED)]"

definition with_result ::
    "(verification_result \<Rightarrow> json) \<Rightarrow> (replacement_result \<Rightarrow> json) \<Rightarrow> job_status \<Rightarrow> full_result \<Rightarrow> job \<Rightarrow> job" where
  "with_result dump_v dump_r st r j =
     (let j1 = j\<lparr>j_status := st, j_started_at := Some (er_started_at r), j_completed_at := Some (er_completed_at r),
            j_failure_message := er_failure_message r, j_failure_category := er_failure_category r,
            j_requested_execution_backend := er_requested_backend r,
            j_actual_execution_backend := er_actual_backend r,
            j_actual_execution_accelerator := er_actual_accelerator r,
            j_backend_fallback_used := er_backend_fallback_used r,
            j_backend_selection_reason := er_backend_selection_reason r,
            j_output_size_bytes := output_size_bytes (er_savings r),
            j_space_saved_bytes := calculate_space_saved (j_input_size_bytes j) (output_size_bytes (er_savings r)),
            j_video_input_size_bytes := video_input_size_bytes (er_savings r),
            j_video_output_size_bytes := video_output_size_bytes (er_savings r),
            j_video_space_saved_bytes := video_space_saved_bytes (er_savings r),
            j_non_video_space_saved_bytes := non_video_space_saved_bytes (er_savings r),
            j_compression_reduction_percent := map_option round_even (compression_reduction_percent (er_savings r))\<rparr>;
          j2 = j1\<lparr>j_output_path := map_option as_posix (er_output_path r),
            j_final_output_path := map_option as_posix (er_final_output_path r),
            j_original_backup_path := map_option as_posix (er_original_backup_path r),
            j_execution_command := Some (er_command r), j_execution_stdout := truncate_log (er_stdout r),
            j_execution_stderr := truncate_log (er_stderr r),
            j_verification_status := verification_status_for_result r,
            j_verification_payload := map_option dump_v (er_verification r),
            j_replacement_status := replacement_status_for_result r,
            j_replacement_payload := map_option dump_r (er_replacement r),
            j_replacement_failure_message := Option.bind (er_replacement r) rr_failure_message,
            j_analysis_payload := er_analysis_payload r\<rparr>;
          j3 = (if er_status r = ''completed'' \<and> j_backup_policy j = ''keep_for_1_day'' \<and> truthy (j_original_backup_path j2)
                then j2\<lparr>j_backup_retention_until := Some (er_completed_at r + one_day)\<rparr> else j2);
          j4 = (case er_replacement r of
                  None \<Rightarrow> j3
                | Some v \<Rightarrow> if rr_deleted_original_source v then j3\<lparr>j_backup_deleted_at := Some (er_completed_at r)\<rparr> else j3);
          j5 = (if er_status r = ''cancelled''
                then j4\<lparr>j_interrupted_at := Some (er_completed_at r), j_interruption_reason := er_failure_message r,
                        j_interruption_retryable := True, j_progress_stage := Some ''cancelled'', j_progress_percent := None\<rparr>
                else j4\<lparr>j_progress_stage := Some (er_status r)\<rparr>)
      in j5\<lparr>j_progress_percent := (if er_status r \<in> {''completed'', ''skipped''} then Some 100 else j_progress_percent j5),
            j_progress_updated_at := Some (er_completed_at r), j_assigned_worker_id := None,
            j_scheduled_for_at := None\<rparr>)"

definition mark_result ::
    "(verification_result \<Rightarrow> json) \<Rightarrow> (replacement_result \<Rightarrow> json) \<Rightarrow> instant \<Rightarrow> row_id \<Rightarrow> full_result \<Rightarrow> db \<Rightarrow> db_error + db" where
  "mark_result dump_v dump_r now jid r d =
     (case status_of_result (er_status r) of
        None \<Rightarrow> Inl (UnknownResultStatus (er_status r))
      | Some st \<Rightarrow> write_job now jid (with_result dump_v dump_r st r) d)"

definition max_automated_retries :: int where "max_automated_retries = 3"
definition retry_backoff_base_seconds :: int where "retry_backoff_base_seconds = 60"
definition retry_backoff_max_seconds :: int where "retry_backoff_max_seconds = 15 * 60"

definition automatic_retry_delay :: "int \<Rightarrow> int" where
  "automatic_retry_delay attempt_count =
     (let retry_index = nat (max 0 (attempt_count - 2)) in
      min (retry_backoff_base_seconds * 2 ^ retry_index) retry_backoff_max_seconds * second)"

definition route_to_manual_review :: "instant \<Rightarrow> row_id \<Rightarrow> instant \<Rightarrow> string \<Rightarrow> string \<Rightarrow> db \<Rightarrow> db_error + db" where
  "route_to_manual_review now jid stamp reason category d =
     on_job d jid (\<lambda>j.
       let d1 = put_job now (j\<lparr>j_status := JS_MANUAL_REVIEW, j_completed_at := Some stamp, j_failure_message := Some reason,
                  j_failure_category := Some category, j_progress_stage := Some ''manual_review'',
                  j_progress_updated_at := Some stamp, j_assigned_worker_id := None, j_scheduled_for_at := None\<rparr>) d
       in flush (case find_file d1 (j_tracked_file_id j) of
            None \<Rightarrow> d1
          | Some f \<Rightarrow> put_file now (f\<lparr>tf_lifecycle_state := FL_MANUAL_REVIEW,
                                     tf_compliance_state := CS_MANUAL_REVIEW\<rparr>) d1))"

definition retry_options :: "job \<Rightarrow> int \<Rightarrow> instant \<Rightarrow> job_options" where
  "retry_options j attempt due =
     \<lparr>o_worker_name = None, o_attempt_count = attempt, o_preferred_worker_id = j_preferred_worker_id j,
      o_pinned_worker_id = j_pinned_worker_id j, o_preferred_backend_override = j_preferred_backend_override j,
      o_schedule_windows = j_schedule_windows j, o_watched_job_id = j_watched_job_id j,
      o_job_kind = j_job_kind j, o_analysis_payload = j_analysis_payload j,
      o_ignore_worker_schedule = j_ignore_worker_schedule j, o_scheduled_for_at = Some due,
      o_backup_policy = j_backup_policy j\<rparr>"

definition or_text :: "string option \<Rightarrow> string \<Rightarrow> string" where
  "or_text v t = (case v of None \<Rightarrow> t | Some s \<Rightarrow> if s = [] then t else s)"

definition apply_automatic_retry_policy ::
    "row_id \<Rightarrow> instant \<Rightarrow> int \<Rightarrow> row_id \<Rightarrow> full_result \<Rightarrow> db \<Rightarrow> db_error + db \<times> job option" where
  "apply_automatic_retry_policy i now tz jid r d =
     on_job d jid (\<lambda>j.
       if er_status r \<noteq> ''failed'' \<or> j_job_kind j \<noteq> EXECUTION then Inr (d, None)
       else case (find_file d (j_tracked_file_id j), find_plan d (j_plan_snapshot_id j)) of
         (Some f, Some s) \<Rightarrow>
           if job_requires_manual_review (Some f) s then
             map_sum id (\<lambda>d'. (d', None)) (route_to_manual_review now jid (er_completed_at r)
               (or_text (er_failure_message r)
                 ''The failed job matches a manual-review rule and will not be retried automatically.'')
               (or_text (er_failure_category r) ''manual_review_required'') d)
           else if j_attempt_count j \<le> max_automated_retries then
             (let attempt = j_attempt_count j + 1; due = er_completed_at r + automatic_retry_delay attempt in
              if has_active_job_for_tracked_file (j_tracked_file_id j) d then Inr (d, None)
              else case create_job_from_plan i now tz f s (retry_options j attempt due) d of
                     Inr (d', job) \<Rightarrow> Inr (d', Some job)
                   | Inl IntegrityError \<Rightarrow>
                       if has_active_job_for_tracked_file (j_tracked_file_id j) d then Inr (d, None) else Inl IntegrityError
                   | Inl e \<Rightarrow> Inl e)
           else
             map_sum id (\<lambda>d'. (d', None)) (route_to_manual_review now jid (er_completed_at r)
               (or_text (er_failure_message r) ''The job failed after its automated retry budget was exhausted.'')
               (or_text (er_failure_category r) ''retry_limit_exceeded'') d)
       | _ \<Rightarrow> Inl MissingRow)"

definition mark_interrupted :: "instant \<Rightarrow> row_id \<Rightarrow> instant \<Rightarrow> string \<Rightarrow> bool \<Rightarrow> db \<Rightarrow> db_error + db" where
  "mark_interrupted now jid stamp reason retryable d =
     write_job now jid (\<lambda>j. j\<lparr>j_status := JS_INTERRUPTED, j_interrupted_at := Some stamp, j_interruption_reason := Some reason,
          j_interruption_retryable := retryable, j_failure_message := Some reason,
          j_failure_category := Some ''worker_interrupted'', j_progress_stage := Some ''interrupted'',
          j_progress_updated_at := Some stamp, j_assigned_worker_id := None\<rparr>) d"

definition cancelled :: "instant \<Rightarrow> string \<Rightarrow> job \<Rightarrow> job" where
  "cancelled stamp reason j =
     j\<lparr>j_status := JS_CANCELLED, j_completed_at := Some stamp, j_interrupted_at := Some stamp,
       j_interruption_reason := Some reason, j_interruption_retryable := True, j_failure_message := Some reason,
       j_failure_category := Some ''cancelled_by_operator'', j_progress_stage := Some ''cancelled'',
       j_progress_percent := None, j_progress_updated_at := Some stamp, j_assigned_worker_id := None,
       j_scheduled_for_at := None, j_cancellation_requested_at := Some stamp, j_cancellation_reason := Some reason\<rparr>"

definition mark_cancelled :: "instant \<Rightarrow> row_id \<Rightarrow> instant \<Rightarrow> string \<Rightarrow> db \<Rightarrow> db_error + db" where
  "mark_cancelled now jid stamp reason d = write_job now jid (cancelled stamp reason) d"

definition mark_cleared :: "instant \<Rightarrow> row_id \<Rightarrow> instant \<Rightarrow> string \<Rightarrow> db \<Rightarrow> db_error + db" where
  "mark_cleared now jid stamp reason d =
     write_job now jid (\<lambda>j. j\<lparr>j_cleared_at := Some stamp, j_cleared_reason := Some reason\<rparr>) d"

subsection \<open>Clearing the queue and its history\<close>

fun each_job :: "(row_id \<Rightarrow> db \<Rightarrow> db_error + db) \<Rightarrow> row_id list \<Rightarrow> db \<Rightarrow> db_error + db" where
  "each_job f [] d = Inr d"
| "each_job f (i # is) d = (case f i d of Inl e \<Rightarrow> Inl e | Inr d' \<Rightarrow> each_job f is d')"

definition clearable_queue :: "db \<Rightarrow> job list" where
  "clearable_queue d =
     in_queue_order (filter (\<lambda>j. j_cleared_at j = None
       \<and> (j_status j \<in> {JS_PENDING, JS_SCHEDULED}
          \<or> j_status j = JS_INTERRUPTED \<and> j_interruption_retryable j \<and> j_assigned_worker_id j = None)) (db_jobs d))"

definition clear_queue :: "instant \<Rightarrow> instant \<Rightarrow> string \<Rightarrow> db \<Rightarrow> db_error + db" where
  "clear_queue now stamp reason d =
     each_job (\<lambda>i. mark_cancelled now i stamp reason) (map j_id (clearable_queue d)) d"

definition clearable_history :: "row_id list option \<Rightarrow> db \<Rightarrow> job list" where
  "clearable_history ids d =
     rev (sort_key (\<lambda>j. (j_updated_at j, queue_key_of j)) (filter (\<lambda>j. j_cleared_at j = None
       \<and> j_status j \<in> {JS_FAILED, JS_INTERRUPTED, JS_CANCELLED, JS_SKIPPED}
       \<and> (case ids of None \<Rightarrow> True | Some is \<Rightarrow> j_id j \<in> set is)) (db_jobs d)))"

definition clear_failed_history :: "instant \<Rightarrow> instant \<Rightarrow> row_id list option \<Rightarrow> string \<Rightarrow> db \<Rightarrow> db_error + db" where
  "clear_failed_history now stamp ids reason d =
     each_job (\<lambda>i. mark_cleared now i stamp reason) (map j_id (clearable_history ids d)) d"

subsection \<open>What a write does\<close>

definition well_keyed :: "db \<Rightarrow> bool" where
  "well_keyed d \<longleftrightarrow> distinct (map j_id (db_jobs d)) \<and> one_active_per_file (db_jobs d)"

definition stamped :: "instant \<Rightarrow> (job \<Rightarrow> job) \<Rightarrow> job \<Rightarrow> job" where
  "stamped now f j = (if f j = j then j else (f j)\<lparr>j_updated_at := now\<rparr>)"

definition rewrite_jobs :: "instant \<Rightarrow> row_id set \<Rightarrow> (job \<Rightarrow> job) \<Rightarrow> job list \<Rightarrow> job list" where
  "rewrite_jobs now I f js = map (\<lambda>j. if j_id j \<in> I then stamped now f j else j) js"

lemma flush_Inr: "flush d = Inr d' \<longleftrightarrow> d' = d \<and> one_active_per_file (db_jobs d)"
  by (auto simp: flush_def)

lemma on_job_Inr: "on_job d i f = Inr x \<longleftrightarrow> (\<exists>j. find_job d i = Some j \<and> f j = Inr x)"
  by (simp add: on_job_def split: option.splits)

lemma find_job_Some: "find_job d i = Some j \<Longrightarrow> j \<in> set (db_jobs d) \<and> j_id j = i"
  unfolding find_job_def by (auto simp: find_Some_iff)

lemma find_job_unique:
  assumes "well_keyed d" "j \<in> set (db_jobs d)"
  shows "find_job d (j_id j) = Some j"
proof -
  have "find (\<lambda>r. j_id r = j_id j) (db_jobs d) \<noteq> None" using assms(2) by (auto simp: find_None_iff)
  then obtain r where "find_job d (j_id j) = Some r" unfolding find_job_def by blast
  moreover from this have "r = j"
    using assms find_job_Some by (force simp: well_keyed_def distinct_map inj_on_def)
  ultimately show ?thesis by simp
qed

lemma find_job_iff:
  assumes "well_keyed d"
  shows "find_job d i = Some j \<longleftrightarrow> j \<in> set (db_jobs d) \<and> j_id j = i"
  using find_job_unique [OF assms] find_job_Some by blast

lemma set_lifecycle_tables [simp]:
  "db_jobs (set_lifecycle now i s d) = db_jobs d" "db_plans (set_lifecycle now i s d) = db_plans d"
  "db_workers (set_lifecycle now i s d) = db_workers d"
  by (simp_all add: set_lifecycle_def put_file_def split: option.splits)

lemma stamp_fields [simp]:
  "j_id (j\<lparr>j_updated_at := t\<rparr>) = j_id j" "is_active (j\<lparr>j_updated_at := t\<rparr>) = is_active j"
  "j_tracked_file_id (j\<lparr>j_updated_at := t\<rparr>) = j_tracked_file_id j"
  by (simp_all add: is_active_def)

lemma stamped_fields:
  "j_id (stamped now f j) = j_id (f j)" "is_active (stamped now f j) = is_active (f j)"
  "j_tracked_file_id (stamped now f j) = j_tracked_file_id (f j)" "j_status (stamped now f j) = j_status (f j)"
  "j_assigned_worker_id (stamped now f j) = j_assigned_worker_id (f j)"
  "j_cleared_at (stamped now f j) = j_cleared_at (f j)"
  by (simp_all add: stamped_def)

lemma put_job_eq:
  assumes "well_keyed d" "find_job d i = Some j" "j_id (f j) = i"
  shows "put_job now (f j) d = d\<lparr>db_jobs := rewrite_jobs now {i} f (db_jobs d)\<rparr>"
proof -
  have "r = j" if "r \<in> set (db_jobs d)" "j_id r = i" for r
    using find_job_unique [OF assms(1) that(1)] assms(2) that(2) by simp
  then show ?thesis using assms(3) by (auto simp: put_job_def rewrite_jobs_def stamped_def)
qed

lemma write_job_eq:
  assumes "well_keyed d" "find_job d i = Some j" "j_id (f j) = i"
  shows "write_job now i f d = flush (d\<lparr>db_jobs := rewrite_jobs now {i} f (db_jobs d)\<rparr>)"
  using put_job_eq [where f = f, OF assms] by (simp add: write_job_def on_job_def assms(2))

lemma rewrite_ids: "(\<And>j. j \<in> set js \<Longrightarrow> j_id (f j) = j_id j) \<Longrightarrow> map j_id (rewrite_jobs now I f js) = map j_id js"
  by (simp add: rewrite_jobs_def stamped_fields)

text \<open>A write that keeps the file and makes no job active keeps the unique index.\<close>

definition calm :: "(job \<Rightarrow> job) \<Rightarrow> job \<Rightarrow> bool" where
  "calm f j \<longleftrightarrow> j_id (f j) = j_id j \<and> j_tracked_file_id (f j) = j_tracked_file_id j \<and> (is_active (f j) \<longrightarrow> is_active j)"

lemma rewrite_active_files:
  assumes "one_active_per_file js" "\<And>j. j \<in> set js \<Longrightarrow> j_id j \<in> I \<Longrightarrow> calm f j"
  shows "one_active_per_file (rewrite_jobs now I f js) \<and>
    j_tracked_file_id ` set (filter is_active (rewrite_jobs now I f js)) \<subseteq> j_tracked_file_id ` set (filter is_active js)"
  using assms
proof (induction js)
  case Nil
  show ?case by (simp add: rewrite_jobs_def one_active_per_file_def)
next
  case (Cons x xs)
  define y where "y = (if j_id x \<in> I then stamped now f x else x)"
  have xs: "one_active_per_file xs" using Cons(2) by (simp add: one_active_per_file_def split: if_splits)
  have ys: "rewrite_jobs now I f (x # xs) = y # rewrite_jobs now I f xs" by (simp add: rewrite_jobs_def y_def)
  note rest = Cons(1) [OF xs Cons(3) [OF list.set_intros(2)]]
  have "j_tracked_file_id y = j_tracked_file_id x \<and> (is_active y \<longrightarrow> is_active x)"
    using Cons(3) [of x] by (simp add: y_def calm_def stamped_fields)
  then show ?case
    using rest Cons(2) unfolding ys one_active_per_file_def by (cases "is_active x"; cases "is_active y") auto
qed

lemma calm_write:
  assumes "well_keyed d" "\<And>j. j \<in> set (db_jobs d) \<Longrightarrow> j_id j \<in> I \<Longrightarrow> calm f j"
  shows "well_keyed (d\<lparr>db_jobs := rewrite_jobs now I f (db_jobs d)\<rparr>)"
proof -
  have "map j_id (rewrite_jobs now I f (db_jobs d)) = map j_id (db_jobs d)"
    using assms(2) by (auto simp: rewrite_jobs_def stamped_fields calm_def)
  then show ?thesis
    using assms(1) rewrite_active_files [OF _ assms(2)] by (simp add: well_keyed_def)
qed

lemma calm_write_job:
  assumes "well_keyed d" "find_job d i = Some j" "calm f j"
  shows "write_job now i f d = Inr (d\<lparr>db_jobs := rewrite_jobs now {i} f (db_jobs d)\<rparr>)"
    and "well_keyed (d\<lparr>db_jobs := rewrite_jobs now {i} f (db_jobs d)\<rparr>)"
proof -
  have i: "j_id (f j) = i" using assms(3) find_job_Some [OF assms(2)] by (simp add: calm_def)
  have "k = j" if "k \<in> set (db_jobs d)" "j_id k \<in> {i}" for k
    using that find_job_unique [OF assms(1)] assms(2) by force
  then show wk: "well_keyed (d\<lparr>db_jobs := rewrite_jobs now {i} f (db_jobs d)\<rparr>)"
    using assms(3) by (intro calm_write [OF assms(1)]) simp
  then show "write_job now i f d = Inr (d\<lparr>db_jobs := rewrite_jobs now {i} f (db_jobs d)\<rparr>)"
    by (simp add: write_job_eq [where f = f, OF assms(1,2) i] flush_def well_keyed_def)
qed

text \<open>Any successful write, and writes one after the other.\<close>

lemma write_job_Inr:
  assumes "write_job now i f d = Inr d'" "well_keyed d" "\<And>j. j_id (f j) = j_id j"
  shows "d' = d\<lparr>db_jobs := rewrite_jobs now {i} f (db_jobs d)\<rparr> \<and> well_keyed d'"
proof -
  obtain j where j: "find_job d i = Some j" using assms(1) by (auto simp: write_job_def on_job_Inr)
  have "j_id (f j) = i" using assms(3) find_job_Some [OF j] by simp
  from assms(1) [unfolded write_job_eq [where f = f, OF assms(2) j this]]
  show ?thesis using assms(2) by (auto simp: flush_Inr well_keyed_def rewrite_ids assms(3))
qed

lemma rewrite_twice:
  assumes "i \<notin> set is" "\<And>j. j_id (f j) = j_id j"
  shows "rewrite_jobs now (set is) f (rewrite_jobs now {i} f js) = rewrite_jobs now (set (i # is)) f js"
  using assms by (auto simp: rewrite_jobs_def stamped_fields)

text \<open>A loop whose step is a write on the rows it visits, while the workers stay the same.\<close>

lemma each_job_steps:
  assumes "well_keyed d" "distinct is" "set is \<subseteq> j_id ` set (db_jobs d)" "\<And>j. j_id (f j) = j_id j"
    and "\<And>j. j \<in> set (db_jobs d) \<Longrightarrow> j_id j \<in> set is \<Longrightarrow> calm f j"
    and "\<And>d' i j. well_keyed d' \<Longrightarrow> find_job d' i = Some j \<Longrightarrow> j \<in> S \<Longrightarrow> db_workers d' = W \<Longrightarrow> step i d' = write_job now i f d'"
    and "\<And>j. j \<in> set (db_jobs d) \<Longrightarrow> j_id j \<in> set is \<Longrightarrow> j \<in> S" "db_workers d = W"
  shows "each_job step is d = Inr (d\<lparr>db_jobs := rewrite_jobs now (set is) f (db_jobs d)\<rparr>)"
  using assms(1-3,5,7,8)
proof (induction "is" arbitrary: d)
  case Nil
  show ?case by (simp add: rewrite_jobs_def)
next
  case (Cons i "is")
  let ?d = "d\<lparr>db_jobs := rewrite_jobs now {i} f (db_jobs d)\<rparr>"
  from Cons(4) obtain j where j: "j \<in> set (db_jobs d)" "j_id j = i" by auto
  then have found: "find_job d i = Some j" and q: "calm f j" and S: "j \<in> S"
    using find_job_unique [OF Cons(2)] Cons(5,6) by auto
  note step = calm_write_job [OF Cons(2) found q]
  have ids: "j_id ` set (db_jobs ?d) = j_id ` set (db_jobs d)"
    using arg_cong [OF rewrite_ids [of "db_jobs d" f now "{i}"], of set] assms(4) by simp
  have same: "k \<in> set (db_jobs d)" if "k \<in> set (db_jobs ?d)" "j_id k \<in> set is" for k
    using that Cons(3) assms(4) by (auto simp: rewrite_jobs_def stamped_fields split: if_splits)
  have "each_job step is ?d = Inr (?d\<lparr>db_jobs := rewrite_jobs now (set is) f (db_jobs ?d)\<rparr>)"
  proof (rule Cons(1) [OF step(2)])
    show "distinct is" using Cons(3) by simp
    show "set is \<subseteq> j_id ` set (db_jobs ?d)" using Cons(4) ids by simp
    show "calm f k" if "k \<in> set (db_jobs ?d)" "j_id k \<in> set is" for k
      using Cons(5) [OF same [OF that]] that(2) by simp
    show "k \<in> S" if "k \<in> set (db_jobs ?d)" "j_id k \<in> set is" for k
      using Cons(6) [OF same [OF that]] that(2) by simp
    show "db_workers ?d = W" using Cons(7) by simp
  qed
  moreover have "step i d = Inr ?d"
    using step(1) assms(6) [OF Cons(2) found S Cons(7)] by simp
  ultimately show ?case using rewrite_twice [OF _ assms(4)] Cons(3) by simp
qed

lemma each_job_eq:
  assumes "well_keyed d" "distinct is" "set is \<subseteq> j_id ` set (db_jobs d)" "\<And>j. j_id (f j) = j_id j"
    and "\<And>j. j \<in> set (db_jobs d) \<Longrightarrow> j_id j \<in> set is \<Longrightarrow> calm f j"
  shows "each_job (\<lambda>i. write_job now i f) is d = Inr (d\<lparr>db_jobs := rewrite_jobs now (set is) f (db_jobs d)\<rparr>)"
  using each_job_steps [OF assms, of "set (db_jobs d)" "db_workers d" "\<lambda>i. write_job now i f"] by simp

lemma index_append:
  "one_active_per_file (js @ [j]) \<longleftrightarrow>
     one_active_per_file js \<and> (is_active j \<longrightarrow> (\<forall>k\<in>set js. is_active k \<longrightarrow> j_tracked_file_id k \<noteq> j_tracked_file_id j))"
  by (auto simp: one_active_per_file_def image_iff)

subsection \<open>Claiming a job\<close>

definition claiming :: "instant \<Rightarrow> worker \<Rightarrow> string option \<Rightarrow> job \<Rightarrow> job" where
  "claiming now w backend j =
     (starting now (w_display_name w) backend j)
       \<lparr>j_assigned_worker_id := Some (w_id w), j_last_worker_id := Some (w_id w), j_updated_at := now\<rparr>"

definition claimable :: "worker \<Rightarrow> job \<Rightarrow> bool" where
  "claimable w j \<longleftrightarrow> j_status j = JS_PENDING \<and> j_cleared_at j = None \<and> j_assigned_worker_id j \<in> {None, Some (w_id w)}"

lemma starting_fields [simp]:
  "j_id (starting now n b j) = j_id j" "j_tracked_file_id (starting now n b j) = j_tracked_file_id j"
  "j_status (starting now n b j) = JS_RUNNING" "j_cleared_at (starting now n b j) = j_cleared_at j"
  "j_assigned_worker_id (starting now n b j) = j_assigned_worker_id j" "j_started_at (starting now n b j) = Some now"
  by (simp_all add: starting_def)

lemma claiming_fields [simp]:
  "j_id (claiming now w b j) = j_id j" "j_tracked_file_id (claiming now w b j) = j_tracked_file_id j"
  "j_status (claiming now w b j) = JS_RUNNING" "j_cleared_at (claiming now w b j) = j_cleared_at j"
  "j_assigned_worker_id (claiming now w b j) = Some (w_id w)" "j_started_at (claiming now w b j) = Some now"
  by (simp_all add: claiming_def)

lemma claimable_active: "claimable w j \<Longrightarrow> is_active j"
  by (simp add: claimable_def is_active_def active_job_statuses_def)

lemma find_rewrite:
  assumes "\<And>j. j_id (f j) = j_id j"
  shows "find (\<lambda>j. j_id j = i) (rewrite_jobs now I f js) =
    (if i \<in> I then map_option (stamped now f) (find (\<lambda>j. j_id j = i) js) else find (\<lambda>j. j_id j = i) js)"
  by (induction js) (auto simp: rewrite_jobs_def stamped_fields assms)

lemma rewrite_absent: "(\<And>j. j \<in> set js \<Longrightarrow> j_id j \<notin> I) \<Longrightarrow> rewrite_jobs now I f js = js"
  by (simp add: rewrite_jobs_def map_idI)

lemma count_rewrite:
  assumes "distinct (map j_id js)" "j \<in> set js" "\<not> P j" "P (stamped now f j)"
  shows "length (filter P (rewrite_jobs now {j_id j} f js)) = Suc (length (filter P js))"
  using assms(1,2)
proof (induction js)
  case (Cons x xs)
  show ?case
  proof (cases "x = j")
    case True
    then have "rewrite_jobs now {j_id j} f xs = xs"
      using Cons(2) by (intro rewrite_absent) (auto simp: image_iff)
    then show ?thesis using True assms(3,4) by (simp add: rewrite_jobs_def)
  next
    case False
    then have "j \<in> set xs" using Cons(3) by simp
    then have "j_id x \<noteq> j_id j" using Cons(2) by (metis distinct.simps(2) image_eqI image_set list.simps(9))
    then show ?thesis using Cons(1) Cons(2) \<open>j \<in> set xs\<close> by (simp add: rewrite_jobs_def)
  qed
qed simp

lemma claim_eq:
  assumes "well_keyed d"
  shows "claim_pending_for_worker now jid w backend cap d =
    (case find_job d jid of
       Some j \<Rightarrow>
         if int (count_active_assignments_for_worker (w_id w) d) < max 1 cap \<and> claimable w j then
           Inr (set_lifecycle now (j_tracked_file_id j) FL_PROCESSING
                  (lock_worker_capacity now (w_id w) d \<lparr>db_jobs := rewrite_jobs now {jid} (claiming now w backend) (db_jobs d)\<rparr>),
                Some (claiming now w backend j))
         else Inr (lock_worker_capacity now (w_id w) d, None)
     | None \<Rightarrow> Inr (lock_worker_capacity now (w_id w) d, None))"
proof -
  let ?l = "lock_worker_capacity now (w_id w) d"
  have jobs [simp]: "db_jobs ?l = db_jobs d" by (simp add: lock_worker_capacity_def)
  have [simp]: "find_job ?l jid = find_job d jid"
    "count_active_assignments_for_worker (w_id w) ?l = count_active_assignments_for_worker (w_id w) d"
    by (simp_all add: find_job_def count_active_assignments_for_worker_def)
  have "well_keyed ?l" using assms by (simp add: well_keyed_def)
  have main: "map (\<lambda>r. if j_id r = jid then claiming now w backend j else r) (db_jobs d) =
      rewrite_jobs now {jid} (claiming now w backend) (db_jobs d)"
    and index: "one_active_per_file (rewrite_jobs now {jid} (claiming now w backend) (db_jobs d))"
    if j: "find_job d jid = Some j" "claimable w j" for j
  proof -
    have uniq: "r = j" if "r \<in> set (db_jobs d)" "j_id r = jid" for r
      using find_job_unique [OF assms that(1)] j(1) that(2) by simp
    have "claiming now w backend j \<noteq> j"
      using j(2) by (metis claimable_def claiming_fields(3) job_status.distinct(3))
    then have "stamped now (claiming now w backend) j = claiming now w backend j"
      by (simp add: stamped_def claiming_def)
    then show "map (\<lambda>r. if j_id r = jid then claiming now w backend j else r) (db_jobs d) =
        rewrite_jobs now {jid} (claiming now w backend) (db_jobs d)"
      using uniq by (auto simp: rewrite_jobs_def)
    have "calm (claiming now w backend) r" if "r \<in> set (db_jobs d)" "j_id r \<in> {jid}" for r
      using uniq [OF that(1)] that(2) claimable_active [OF j(2)] by (simp add: calm_def)
    then have "well_keyed (d\<lparr>db_jobs := rewrite_jobs now {jid} (claiming now w backend) (db_jobs d)\<rparr>)"
      by (rule calm_write [OF assms])
    then show "one_active_per_file (rewrite_jobs now {jid} (claiming now w backend) (db_jobs d))"
      by (simp add: well_keyed_def)
  qed
  show ?thesis
    using main index
    by (auto simp: claim_pending_for_worker_def Let_def flush_def claimable_def claiming_def [symmetric] split: option.splits)
qed


lemma claim_spec:
  assumes "well_keyed d"
  shows "\<exists>d' r. claim_pending_for_worker now jid w backend cap d = Inr (d', r) \<and> well_keyed d' \<and>
    (r \<noteq> None \<longleftrightarrow> (\<exists>j. find_job d jid = Some j \<and> claimable w j) \<and>
                  int (count_active_assignments_for_worker (w_id w) d) < max 1 cap) \<and>
    (r = None \<longrightarrow> db_jobs d' = db_jobs d) \<and>
    (\<forall>j'. r = Some j' \<longrightarrow>
       find_job d' jid = Some j' \<and> j_status j' = JS_RUNNING \<and> j_assigned_worker_id j' = Some (w_id w) \<and>
       j_started_at j' = Some now \<and>
       (\<forall>i. i \<noteq> jid \<longrightarrow> find_job d' i = find_job d i) \<and>
       count_active_assignments_for_worker (w_id w) d' = Suc (count_active_assignments_for_worker (w_id w) d) \<and>
       int (count_active_assignments_for_worker (w_id w) d') \<le> max 1 cap)"
proof (cases "\<exists>j. find_job d jid = Some j \<and> claimable w j \<and>
    int (count_active_assignments_for_worker (w_id w) d) < max 1 cap")
  case False
  then show ?thesis
    using assms by (auto simp: claim_eq lock_worker_capacity_def well_keyed_def split: option.splits)
next
  case True
  then obtain j where j: "find_job d jid = Some j" "claimable w j"
    and room: "int (count_active_assignments_for_worker (w_id w) d) < max 1 cap" by blast
  let ?f = "claiming now w backend"
  let ?js = "rewrite_jobs now {jid} ?f (db_jobs d)"
  define d' where "d' = set_lifecycle now (j_tracked_file_id j) FL_PROCESSING
    (lock_worker_capacity now (w_id w) d \<lparr>db_jobs := ?js\<rparr>)"
  have jobs: "db_jobs d' = ?js" by (simp add: d'_def)
  have uniq: "r = j" if "r \<in> set (db_jobs d)" "j_id r = jid" for r
    using find_job_unique [OF assms that(1)] j(1) that(2) by simp
  have st: "stamped now ?f j = ?f j"
    using j(2) by (auto simp: stamped_def claiming_def)
  have "calm ?f r" if "r \<in> set (db_jobs d)" "j_id r \<in> {jid}" for r
    using uniq [OF that(1)] that(2) claimable_active [OF j(2)] by (simp add: calm_def)
  then have "well_keyed (d\<lparr>db_jobs := ?js\<rparr>)" by (rule calm_write [OF assms])
  then have wk: "well_keyed d'" by (simp add: well_keyed_def jobs)
  have mem: "?f j \<in> set ?js"
    using find_job_Some [OF j(1)] by (auto simp: rewrite_jobs_def image_iff st intro!: bexI [of _ j])
  have found: "find_job d' jid = Some (?f j)"
    using find_job_unique [OF wk, of "?f j"] mem find_job_Some [OF j(1)] by (simp add: jobs)
  have others: "find_job d' i = find_job d i" if "i \<noteq> jid" for i
    using that by (simp add: find_job_def jobs find_rewrite)
  have "count_active_assignments_for_worker (w_id w) d' = Suc (count_active_assignments_for_worker (w_id w) d)"
    using count_rewrite [of "db_jobs d" j "\<lambda>j. j_assigned_worker_id j = Some (w_id w) \<and> j_status j = JS_RUNNING
      \<and> j_cleared_at j = None" now ?f] assms find_job_Some [OF j(1)] j(2)
    by (simp add: count_active_assignments_for_worker_def jobs st well_keyed_def claimable_def)
  moreover have "claim_pending_for_worker now jid w backend cap d = Inr (d', Some (?f j))"
    using j room by (simp add: claim_eq [OF assms] d'_def)
  ultimately show ?thesis
    using wk found others j room
    by (intro exI [of _ d'] exI [of _ "Some (?f j)"]) simp
qed

text \<open>C23: Claiming a job never fails, and hands it out exactly when it is pending, not cleared, free or
  already set aside for this worker, and the worker runs fewer jobs than it may. The claimed job runs
  on that worker, no other row changes, and the worker stays within its limit.\<close>

theorem claim_within_capacity:
  assumes "well_keyed d"
  shows "\<exists>d' r. claim_pending_for_worker now jid w backend cap d = Inr (d', r) \<and> well_keyed d' \<and>
    (r \<noteq> None \<longleftrightarrow> (\<exists>j. find_job d jid = Some j \<and> claimable w j) \<and>
                  int (count_active_assignments_for_worker (w_id w) d) < max 1 cap) \<and>
    (r = None \<longrightarrow> db_jobs d' = db_jobs d) \<and>
    (\<forall>j'. r = Some j' \<longrightarrow>
       find_job d' jid = Some j' \<and> j_status j' = JS_RUNNING \<and> j_assigned_worker_id j' = Some (w_id w) \<and>
       j_started_at j' = Some now \<and>
       (\<forall>i. i \<noteq> jid \<longrightarrow> find_job d' i = find_job d i) \<and>
       count_active_assignments_for_worker (w_id w) d' = Suc (count_active_assignments_for_worker (w_id w) d) \<and>
       int (count_active_assignments_for_worker (w_id w) d') \<le> max 1 cap)"
  by (rule claim_spec [OF assms])

subsection \<open>Creating a job\<close>

definition stored_schedule :: "schedule_window list option \<Rightarrow> bool" where
  "stored_schedule v \<longleftrightarrow> (case v of None \<Rightarrow> True | Some ws \<Rightarrow> ws \<noteq> [] \<and> list_all stored_window ws)"

definition windows_closed :: "job_options \<Rightarrow> local_time \<Rightarrow> bool" where
  "windows_closed opts t \<longleftrightarrow> (case o_schedule_windows opts of None \<Rightarrow> False | Some ws \<Rightarrow> \<not> some_window_open ws t)"

lemma new_job_fields [simp]:
  "j_id (new_job i now f s opts st due) = i" "j_tracked_file_id (new_job i now f s opts st due) = tf_id f"
  "j_status (new_job i now f s opts st due) = (if st then JS_SCHEDULED else JS_PENDING)"
  "j_cleared_at (new_job i now f s opts st due) = None" "j_assigned_worker_id (new_job i now f s opts st due) = None"
  "j_attempt_count (new_job i now f s opts st due) = o_attempt_count opts"
  "j_scheduled_for_at (new_job i now f s opts st due) = (if st then due else None)"
  "j_backup_policy (new_job i now f s opts st due) = normalise_backup_policy (Some (o_backup_policy opts))"
  "j_job_kind (new_job i now f s opts st due) = o_job_kind opts"
  "j_schedule_windows (new_job i now f s opts st due) = o_schedule_windows opts"
  by (simp_all add: new_job_def Let_def)

lemma new_job_active [simp]: "is_active (new_job i now f s opts st due)"
  by (simp add: is_active_def active_job_statuses_def)

lemma normalise_backup_policy_range:
  "normalise_backup_policy v \<in> {''keep'', ''delete_after_success'', ''keep_for_1_day''}"
proof -
  have "x \<in> {''keep'', ''delete_after_success'', ''keep_for_1_day''}" if "backup_policy_aliases k = Some x" for k x
    using that by (auto simp: backup_policy_aliases_def split: if_splits)
  then show ?thesis by (simp add: normalise_backup_policy_def get_or_def split: option.splits)
qed

lemma normalise_backup_policy_fixed:
  "normalise_backup_policy (Some ''keep'') = ''keep''"
  "normalise_backup_policy (Some ''delete_after_success'') = ''delete_after_success''"
  "normalise_backup_policy (Some ''keep_for_1_day'') = ''keep_for_1_day''"
  by code_simp+

lemma normalise_backup_policy_idem:
  "normalise_backup_policy (Some (normalise_backup_policy v)) = normalise_backup_policy v"
  using normalise_backup_policy_range [of v] by (auto simp: normalise_backup_policy_fixed)

lemma delete_replaced_source_normalised:
  "delete_replaced_source_for_backup_policy v fallback \<longleftrightarrow> normalise_backup_policy (Some v) = ''delete_after_success''"
  using normalise_backup_policy_range [of "Some v"]
  by (auto simp: delete_replaced_source_for_backup_policy_def Let_def)

lemma active_for_file:
  "has_active_job_for_tracked_file fid d \<longleftrightarrow> (\<exists>j\<in>set (db_jobs d). j_tracked_file_id j = fid \<and> is_active j)"
  by (simp add: has_active_job_for_tracked_file_def list_ex_iff)

lemma schedule_of_options:
  assumes "stored_schedule (o_schedule_windows opts)"
  obtains opens where "next_schedule_opening (o_schedule_windows opts) t = Inr opens"
    "schedule_windows_allow_now (o_schedule_windows opts) t = Inr (\<not> windows_closed opts t)"
    "windows_closed opts t \<Longrightarrow> \<exists>u ws. opens = Some u \<and> o_schedule_windows opts = Some ws \<and> t \<le> u \<and> some_window_open ws u
        \<and> (\<forall>v. t \<le> v \<and> v < u \<longrightarrow> \<not> some_window_open ws v)"
proof (cases "o_schedule_windows opts")
  case None
  then show thesis
    using that [of None]
    by (simp add: next_schedule_opening_def schedule_windows_allow_now_def windows_closed_def)
next
  case (Some ws)
  then have ws: "list_all stored_window ws" "ws \<noteq> []" using assms by (simp_all add: stored_schedule_def)
  obtain u where "next_schedule_opening (Some ws) t = Inr (Some u) \<and> t \<le> u \<and> some_window_open ws u
      \<and> (\<forall>v. t \<le> v \<and> v < u \<longrightarrow> \<not> some_window_open ws v)"
    using first_opening [OF ws] by blast
  then show thesis
    using that [of "Some u"] Some ws windows_allow_stored [OF ws(1)]
    by (simp add: schedule_windows_allow_now_def windows_closed_def)
qed

lemma create_job_spec:
  assumes "well_keyed d" "i \<notin> j_id ` set (db_jobs d)" "stored_schedule (o_schedule_windows opts)"
  shows "if has_active_job_for_tracked_file (tf_id f) d
    then create_job_from_plan i now tz f s opts d = Inl IntegrityError
    else \<exists>d' job. create_job_from_plan i now tz f s opts d = Inr (d', job) \<and> well_keyed d' \<and>
      db_jobs d' = db_jobs d @ [job] \<and> is_active job \<and> j_id job = i \<and> j_tracked_file_id job = tf_id f \<and>
      (j_status job = JS_SCHEDULED \<longleftrightarrow> o_scheduled_for_at opts \<noteq> None \<or> windows_closed opts (now + tz)) \<and>
      (j_delete_replaced_source job \<longleftrightarrow> j_backup_policy job = ''delete_after_success'') \<and>
      (case j_scheduled_for_at job of
         None \<Rightarrow> j_status job = JS_PENDING
       | Some due \<Rightarrow> j_status job = JS_SCHEDULED \<and>
           (o_scheduled_for_at opts = Some due \<or>
            now \<le> due \<and> \<not> windows_closed opts (due + tz) \<and>
              (\<forall>u. now \<le> u \<and> u < due \<longrightarrow> windows_closed opts (u + tz))))"
proof -
  obtain opens where o: "next_schedule_opening (o_schedule_windows opts) (now + tz) = Inr opens"
    "schedule_windows_allow_now (o_schedule_windows opts) (now + tz) = Inr (\<not> windows_closed opts (now + tz))"
    "windows_closed opts (now + tz) \<Longrightarrow> \<exists>u ws. opens = Some u \<and> o_schedule_windows opts = Some ws \<and> now + tz \<le> u
        \<and> some_window_open ws u \<and> (\<forall>v. now + tz \<le> v \<and> v < u \<longrightarrow> \<not> some_window_open ws v)"
    using schedule_of_options [OF assms(3)] by blast
  define st where "st = (o_scheduled_for_at opts \<noteq> None \<or> windows_closed opts (now + tz))"
  define due where "due = (case o_scheduled_for_at opts of Some t \<Rightarrow> Some t | None \<Rightarrow> map_option (\<lambda>t. t - tz) opens)"
  define job where "job = new_job i now f s opts st due"
  let ?d = "set_lifecycle now (tf_id f) FL_QUEUED (d\<lparr>db_jobs := db_jobs d @ [job]\<rparr>)"
  have create: "create_job_from_plan i now tz f s opts d = (case flush ?d of Inl e \<Rightarrow> Inl e | Inr d' \<Rightarrow> Inr (d', job))"
    unfolding job_def st_def due_def create_job_from_plan_def Let_def o(1,2)
    by (cases "o_scheduled_for_at opts") (simp_all split: sum.split)
  have index: "one_active_per_file (db_jobs d @ [job]) \<longleftrightarrow> \<not> has_active_job_for_tracked_file (tf_id f) d"
    using assms(1) by (auto simp: index_append active_for_file well_keyed_def job_def)
  have st_due: "case j_scheduled_for_at job of None \<Rightarrow> j_status job = JS_PENDING
      | Some t \<Rightarrow> j_status job = JS_SCHEDULED \<and> (o_scheduled_for_at opts = Some t \<or>
            now \<le> t \<and> \<not> windows_closed opts (t + tz) \<and> (\<forall>u. now \<le> u \<and> u < t \<longrightarrow> windows_closed opts (u + tz)))"
  proof (cases "o_scheduled_for_at opts")
    case None
    then show ?thesis
    proof (cases "windows_closed opts (now + tz)")
      case True
      then obtain u ws where u: "opens = Some u" "o_schedule_windows opts = Some ws" "now + tz \<le> u" "some_window_open ws u"
        "\<And>v. now + tz \<le> v \<Longrightarrow> v < u \<Longrightarrow> \<not> some_window_open ws v" using o(3) by blast
      have "\<not> some_window_open ws (v + tz)" if "now \<le> v" "v < u - tz" for v using u(5) [of "v + tz"] that by simp
      then show ?thesis using None True u(1-4) by (simp add: job_def st_def due_def windows_closed_def)
    qed (simp add: job_def st_def)
  qed (simp add: job_def st_def due_def)
  have del: "j_delete_replaced_source job \<longleftrightarrow> j_backup_policy job = ''delete_after_success''"
    by (simp add: job_def new_job_def Let_def delete_replaced_source_normalised normalise_backup_policy_idem)
  show ?thesis
  proof (cases "has_active_job_for_tracked_file (tf_id f) d")
    case True
    then show ?thesis using index by (simp add: create flush_def)
  next
    case False
    then have ok: "create_job_from_plan i now tz f s opts d = Inr (?d, job)" using index by (simp add: create flush_def)
    have wk: "well_keyed ?d" using index False assms(1,2) by (simp add: well_keyed_def job_def)
    have "j_status job = JS_SCHEDULED \<longleftrightarrow> o_scheduled_for_at opts \<noteq> None \<or> windows_closed opts (now + tz)"
      "is_active job" "j_id job = i" "j_tracked_file_id job = tf_id f"
      by (simp_all add: job_def st_def)
    then show ?thesis using False ok wk st_due del by (intro if_not_P [THEN iffD2] exI [of _ ?d] exI [of _ job]) simp_all
  qed
qed


text \<open>Creating a job keeps one active job per file: it fails with an integrity error exactly when
  the file has an active job already. Otherwise one row is added, pending, or scheduled when a retry
  delay is given or every window is closed; a scheduled job is due at the delay, or else at the first
  opening. Its original is deleted exactly under the delete-after-success policy.\<close>

theorem create_job_keeps_one_active:
  assumes "well_keyed d" "i \<notin> j_id ` set (db_jobs d)" "stored_schedule (o_schedule_windows opts)"
  shows "if has_active_job_for_tracked_file (tf_id f) d
    then create_job_from_plan i now tz f s opts d = Inl IntegrityError
    else \<exists>d' job. create_job_from_plan i now tz f s opts d = Inr (d', job) \<and> well_keyed d' \<and>
      db_jobs d' = db_jobs d @ [job] \<and> is_active job \<and> j_id job = i \<and> j_tracked_file_id job = tf_id f \<and>
      (j_status job = JS_SCHEDULED \<longleftrightarrow> o_scheduled_for_at opts \<noteq> None \<or> windows_closed opts (now + tz)) \<and>
      (j_delete_replaced_source job \<longleftrightarrow> j_backup_policy job = ''delete_after_success'') \<and>
      (case j_scheduled_for_at job of
         None \<Rightarrow> j_status job = JS_PENDING
       | Some due \<Rightarrow> j_status job = JS_SCHEDULED \<and>
           (o_scheduled_for_at opts = Some due \<or>
            now \<le> due \<and> \<not> windows_closed opts (due + tz) \<and>
              (\<forall>u. now \<le> u \<and> u < due \<longrightarrow> windows_closed opts (u + tz))))"
  by (rule create_job_spec [OF assms])

subsection \<open>The queue is first in, first out\<close>

lemma take_1_sorted:
  fixes k :: "'a \<Rightarrow> 'b::linorder"
  shows "(case take 1 (sort_key k xs) of [] \<Rightarrow> None | j # _ \<Rightarrow> Some j) = Some x \<Longrightarrow>
    x \<in> set xs \<and> (\<forall>y\<in>set xs. k x \<le> k y)"
    "(case take 1 (sort_key k xs) of [] \<Rightarrow> None | j # _ \<Rightarrow> Some j) = None \<longleftrightarrow> xs = []"
proof -
  have s: "set (sort_key k xs) = set xs" "sorted (map k (sort_key k xs))" by simp_all
  show "x \<in> set xs \<and> (\<forall>y\<in>set xs. k x \<le> k y)"
    if "(case take 1 (sort_key k xs) of [] \<Rightarrow> None | j # _ \<Rightarrow> Some j) = Some x"
  proof (cases "sort_key k xs")
    case (Cons y ys)
    then have "x = y" using that by simp
    then show ?thesis using s Cons by auto
  qed (use that in simp)
  show "(case take 1 (sort_key k xs) of [] \<Rightarrow> None | j # _ \<Rightarrow> Some j) = None \<longleftrightarrow> xs = []"
    using s(1) by (cases "sort_key k xs") auto
qed

definition open_to_local :: "job \<Rightarrow> bool" where
  "open_to_local j \<longleftrightarrow> j_status j = JS_PENDING \<and> j_cleared_at j = None \<and> j_assigned_worker_id j = None
     \<and> j_requested_worker_type j \<in> {None, Some LOCAL}"

text \<open>The local queue is first in, first out and never stalls: the next job is a pending one that
  no worker holds, the oldest of these (the row key decides between equal times), and there is none
  only when no such job exists.\<close>

theorem next_local_job_is_oldest:
  "case fetch_next_pending_local_job d of
     None \<Rightarrow> \<not> (\<exists>j\<in>set (db_jobs d). open_to_local j)
   | Some j \<Rightarrow> j \<in> set (db_jobs d) \<and> open_to_local j \<and>
       (\<forall>k\<in>{k\<in>set (db_jobs d). open_to_local k}. queue_key_of j \<le> queue_key_of k)"
proof -
  let ?js = "filter open_to_local (db_jobs d)"
  have fetch: "fetch_next_pending_local_job d =
      (case take 1 (sort_key queue_key_of (filter open_to_local (db_jobs d))) of [] \<Rightarrow> None | j # _ \<Rightarrow> Some j)"
    by (simp add: fetch_next_pending_local_job_def fetch_next_pending_local_jobs_def in_queue_order_def open_to_local_def [abs_def])
  show ?thesis
  proof (cases "fetch_next_pending_local_job d")
    case None
    then have "?js = []" by (simp only: fetch take_1_sorted(2))
    then show ?thesis using None by (simp add: filter_empty_conv)
  next
    case (Some j)
    from take_1_sorted(1) [OF Some [unfolded fetch]] show ?thesis using Some by simp
  qed
qed

subsection \<open>Clearing\<close>

lemma cancelled_fields [simp]:
  "j_id (cancelled t r j) = j_id j" "j_tracked_file_id (cancelled t r j) = j_tracked_file_id j"
  "j_status (cancelled t r j) = JS_CANCELLED" "j_cleared_at (cancelled t r j) = j_cleared_at j"
  "j_assigned_worker_id (cancelled t r j) = None"
  by (simp_all add: cancelled_def)

lemma cancelled_calm: "calm (cancelled t r) j"
  by (simp add: calm_def is_active_def active_job_statuses_def)

definition waits_in_queue :: "job \<Rightarrow> bool" where
  "waits_in_queue j \<longleftrightarrow> j_cleared_at j = None
     \<and> (j_status j \<in> {JS_PENDING, JS_SCHEDULED}
        \<or> j_status j = JS_INTERRUPTED \<and> j_interruption_retryable j \<and> j_assigned_worker_id j = None)"

lemma ids_of_filter:
  assumes "distinct (map j_id js)" "j \<in> set js"
  shows "j_id j \<in> j_id ` set (filter P js) \<longleftrightarrow> P j"
  using assms by (auto simp: distinct_map inj_on_def image_iff)

text \<open>Clearing the queue always succeeds and does just that: every job that waits (pending,
  scheduled, or interrupted and free to be retried) is cancelled, every other row is unchanged, and
  afterwards nothing waits.\<close>

theorem clear_queue_cancels_waiting:
  assumes "well_keyed d"
  shows "\<exists>d'. clear_queue now stamp reason d = Inr d' \<and> well_keyed d' \<and>
    db_jobs d' = map (\<lambda>j. if waits_in_queue j then stamped now (cancelled stamp reason) j else j) (db_jobs d) \<and>
    \<not> (\<exists>j\<in>set (db_jobs d'). waits_in_queue j)"
proof -
  let ?f = "cancelled stamp reason"
  let ?is = "map j_id (in_queue_order (filter waits_in_queue (db_jobs d)))"
  have ids: "set ?is = j_id ` set (filter waits_in_queue (db_jobs d))" by (simp add: in_queue_order_def)
  have "distinct (map j_id (filter waits_in_queue (db_jobs d)))"
    using assms by (simp add: well_keyed_def distinct_map_filter)
  then have "distinct ?is" by (simp add: in_queue_order_def distinct_map)
  moreover have "set ?is \<subseteq> j_id ` set (db_jobs d)" using ids by auto
  ultimately have "each_job (\<lambda>i. write_job now i ?f) ?is d = Inr (d\<lparr>db_jobs := rewrite_jobs now (set ?is) ?f (db_jobs d)\<rparr>)"
    by (intro each_job_eq assms) (simp_all add: cancelled_calm)
  moreover have jobs: "rewrite_jobs now (set ?is) ?f (db_jobs d) =
      map (\<lambda>j. if waits_in_queue j then stamped now ?f j else j) (db_jobs d)"
    using ids_of_filter [of "db_jobs d" _ waits_in_queue] assms
    unfolding rewrite_jobs_def ids by (auto simp: well_keyed_def)
  moreover have "well_keyed (d\<lparr>db_jobs := rewrite_jobs now (set ?is) ?f (db_jobs d)\<rparr>)"
    by (intro calm_write assms cancelled_calm)
  moreover have "\<not> waits_in_queue (stamped now ?f j)" for j by (simp add: waits_in_queue_def stamped_fields)
  moreover have "clear_queue now stamp reason d = each_job (\<lambda>i. write_job now i ?f) ?is d"
    by (simp add: clear_queue_def mark_cancelled_def [abs_def] clearable_queue_def waits_in_queue_def [abs_def])
  ultimately show ?thesis by (auto split: if_splits)
qed

subsection \<open>Retries\<close>

text \<open>The delay before an automatic retry lies between one and fifteen minutes and never shrinks from
  one attempt to the next. For the attempts the policy makes (the second to the fourth) it is one,
  two and four minutes, so the limit of fifteen minutes is not reached.\<close>

theorem retry_delay_bounds:
  "60 * second \<le> automatic_retry_delay n \<and> automatic_retry_delay n \<le> 15 * 60 * second \<and>
   automatic_retry_delay n \<le> automatic_retry_delay (n + 1) \<and>
   map automatic_retry_delay [2, 3, 4] = [60 * second, 120 * second, 240 * second]"
proof -
  have one: "(1::int) \<le> 2 ^ k" for k :: nat by simp
  have mono: "(2::int) ^ nat (max 0 (n - 2)) \<le> 2 ^ nat (max 0 (n + 1 - 2))"
    by (rule power_increasing) simp_all
  have "60 \<le> min (60 * (2::int) ^ k) 900" for k :: nat using one [of k] by linarith
  moreover have "min (60 * (2::int) ^ nat (max 0 (n - 2))) 900 \<le> min (60 * 2 ^ nat (max 0 (n + 1 - 2))) 900"
    using mono by linarith
  ultimately show ?thesis
    by (simp add: automatic_retry_delay_def retry_backoff_base_seconds_def retry_backoff_max_seconds_def second_def Let_def)
qed

definition reviewed :: "instant \<Rightarrow> string \<Rightarrow> string \<Rightarrow> job \<Rightarrow> job" where
  "reviewed stamp reason category j =
     j\<lparr>j_status := JS_MANUAL_REVIEW, j_completed_at := Some stamp, j_failure_message := Some reason,
       j_failure_category := Some category, j_progress_stage := Some ''manual_review'',
       j_progress_updated_at := Some stamp, j_assigned_worker_id := None, j_scheduled_for_at := None\<rparr>"

lemma reviewed_fields [simp]:
  "j_id (reviewed t r c j) = j_id j" "j_tracked_file_id (reviewed t r c j) = j_tracked_file_id j"
  "j_status (reviewed t r c j) = JS_MANUAL_REVIEW" "j_assigned_worker_id (reviewed t r c j) = None"
  by (simp_all add: reviewed_def)

lemma reviewed_calm: "calm (reviewed t r c) j"
  by (simp add: calm_def is_active_def active_job_statuses_def)

lemma put_file_tables [simp]:
  "db_jobs (put_file now f d) = db_jobs d" "db_plans (put_file now f d) = db_plans d"
  "db_workers (put_file now f d) = db_workers d"
  by (simp_all add: put_file_def)

lemma find_put_file:
  assumes "find_file d i = Some f" "tf_id g = i"
  shows "\<exists>t. find_file (put_file now g d) i = Some (g\<lparr>tf_updated_at := t\<rparr>)"
proof -
  let ?put = "\<lambda>r. if tf_id r = tf_id g \<and> r \<noteq> g then g\<lparr>tf_updated_at := now\<rparr> else r"
  have "\<exists>t. find (\<lambda>f. tf_id f = i) (map ?put fs) = Some (g\<lparr>tf_updated_at := t\<rparr>)"
    if "find (\<lambda>f. tf_id f = i) fs = Some f" for fs
    using that
  proof (induction fs)
    case (Cons r fs)
    show ?case
    proof (cases "tf_id r = i")
      case True
      show ?thesis
      proof (cases "r = g")
        case False
        then show ?thesis using True assms(2) by (intro exI [of _ now]) simp
      next
        case same: True
        then show ?thesis using True by (intro exI [of _ "tf_updated_at g"]) simp
      qed
    qed (use Cons assms(2) in simp)
  qed simp
  then show ?thesis using assms(1) by (simp add: find_file_def put_file_def)
qed

lemma find_file_Some: "find_file d i = Some f \<Longrightarrow> tf_id f = i"
  by (auto simp: find_file_def find_Some_iff)

lemma route_to_manual_review_spec:
  assumes "well_keyed d" "find_job d jid = Some j" "find_file d (j_tracked_file_id j) = Some f"
  shows "\<exists>d' g. route_to_manual_review now jid stamp reason category d = Inr d' \<and> well_keyed d' \<and>
    db_jobs d' = rewrite_jobs now {jid} (reviewed stamp reason category) (db_jobs d) \<and>
    find_file d' (j_tracked_file_id j) = Some g \<and> tf_lifecycle_state g = FL_MANUAL_REVIEW \<and>
    tf_compliance_state g = CS_MANUAL_REVIEW"
proof -
  let ?f = "reviewed stamp reason category"
  let ?d1 = "d\<lparr>db_jobs := rewrite_jobs now {jid} ?f (db_jobs d)\<rparr>"
  let ?g = "f\<lparr>tf_lifecycle_state := FL_MANUAL_REVIEW, tf_compliance_state := CS_MANUAL_REVIEW\<rparr>"
  have id: "j_id (?f j) = jid" using find_job_Some [OF assms(2)] by simp
  have put: "put_job now (?f j) d = ?d1" using put_job_eq [where f = ?f, OF assms(1,2) id] .
  have wk: "well_keyed ?d1" by (intro calm_write assms(1) reviewed_calm)
  have ff: "find_file ?d1 (j_tracked_file_id j) = Some f" using assms(3) by (simp add: find_file_def)
  obtain t where "find_file (put_file now ?g ?d1) (j_tracked_file_id j) = Some (?g\<lparr>tf_updated_at := t\<rparr>)"
    using find_put_file [OF ff, of ?g] find_file_Some [OF ff] by auto
  moreover have "route_to_manual_review now jid stamp reason category d = Inr (put_file now ?g ?d1)"
    using wk put ff
    by (simp add: route_to_manual_review_def on_job_def assms(2) reviewed_def [symmetric] flush_def well_keyed_def Let_def)
  moreover have "well_keyed (put_file now ?g ?d1)" using wk by (simp add: well_keyed_def)
  ultimately show ?thesis by (intro exI conjI) (assumption | simp)+
qed


lemma retry_policy_settles:
  assumes "well_keyed d" "i \<notin> j_id ` set (db_jobs d)" "find_job d jid = Some j"
    and "er_status r = ''failed''" "j_job_kind j = EXECUTION"
    and "find_file d (j_tracked_file_id j) = Some f" "find_plan d (j_plan_snapshot_id j) = Some s"
    and "stored_schedule (j_schedule_windows j)"
  shows "if job_requires_manual_review (Some f) s \<or> max_automated_retries < j_attempt_count j
    then \<exists>d' j' g. apply_automatic_retry_policy i now tz jid r d = Inr (d', None) \<and> well_keyed d' \<and>
      find_job d' jid = Some j' \<and> j_status j' = JS_MANUAL_REVIEW \<and> map j_id (db_jobs d') = map j_id (db_jobs d) \<and>
      find_file d' (j_tracked_file_id j) = Some g \<and> tf_lifecycle_state g = FL_MANUAL_REVIEW
    else if has_active_job_for_tracked_file (j_tracked_file_id j) d
    then apply_automatic_retry_policy i now tz jid r d = Inr (d, None)
    else \<exists>d' k. apply_automatic_retry_policy i now tz jid r d = Inr (d', Some k) \<and> well_keyed d' \<and>
      db_jobs d' = db_jobs d @ [k] \<and> j_status k = JS_SCHEDULED \<and> j_tracked_file_id k = j_tracked_file_id j \<and>
      j_attempt_count k = j_attempt_count j + 1 \<and> j_attempt_count k \<le> max_automated_retries + 1 \<and>
      j_scheduled_for_at k = Some (er_completed_at r + automatic_retry_delay (j_attempt_count k))"
proof -
  let ?fid = "j_tracked_file_id j"
  have policy: "apply_automatic_retry_policy i now tz jid r d =
      (if job_requires_manual_review (Some f) s then
         map_sum id (\<lambda>d'. (d', None)) (route_to_manual_review now jid (er_completed_at r)
           (or_text (er_failure_message r)
             ''The failed job matches a manual-review rule and will not be retried automatically.'')
           (or_text (er_failure_category r) ''manual_review_required'') d)
       else if j_attempt_count j \<le> max_automated_retries then
         (if has_active_job_for_tracked_file ?fid d then Inr (d, None)
          else case create_job_from_plan i now tz f s (retry_options j (j_attempt_count j + 1)
              (er_completed_at r + automatic_retry_delay (j_attempt_count j + 1))) d of
                 Inr (d', job) \<Rightarrow> Inr (d', Some job)
               | Inl IntegrityError \<Rightarrow> if has_active_job_for_tracked_file ?fid d then Inr (d, None) else Inl IntegrityError
               | Inl e \<Rightarrow> Inl e)
       else
         map_sum id (\<lambda>d'. (d', None)) (route_to_manual_review now jid (er_completed_at r)
           (or_text (er_failure_message r) ''The job failed after its automated retry budget was exhausted.'')
           (or_text (er_failure_category r) ''retry_limit_exceeded'') d))"
    by (simp add: apply_automatic_retry_policy_def on_job_def assms(3-7) Let_def)
  have review: "\<exists>d' j' g. map_sum id (\<lambda>d'. (d', None :: job option)) (route_to_manual_review now jid stamp reason category d) = Inr (d', None)
      \<and> well_keyed d' \<and> find_job d' jid = Some j' \<and> j_status j' = JS_MANUAL_REVIEW \<and>
      map j_id (db_jobs d') = map j_id (db_jobs d) \<and>
      find_file d' ?fid = Some g \<and> tf_lifecycle_state g = FL_MANUAL_REVIEW" for stamp reason category
  proof -
    let ?f = "reviewed stamp reason category"
    obtain d' g where g: "route_to_manual_review now jid stamp reason category d = Inr d'" "well_keyed d'"
      "db_jobs d' = rewrite_jobs now {jid} ?f (db_jobs d)" "find_file d' ?fid = Some g" "tf_lifecycle_state g = FL_MANUAL_REVIEW"
      using route_to_manual_review_spec [OF assms(1,3,6)] by blast
    have "find_job d' jid = Some (stamped now ?f j)"
      using assms(3) by (simp add: find_job_def g(3) find_rewrite)
    then show ?thesis using g by (auto simp: rewrite_ids stamped_fields)
  qed
  consider "job_requires_manual_review (Some f) s" | "\<not> job_requires_manual_review (Some f) s" "max_automated_retries < j_attempt_count j"
    | "\<not> job_requires_manual_review (Some f) s" "j_attempt_count j \<le> max_automated_retries" by linarith
  then show ?thesis
  proof cases
    case 3
    let ?o = "retry_options j (j_attempt_count j + 1) (er_completed_at r + automatic_retry_delay (j_attempt_count j + 1))"
    have opts: "o_schedule_windows ?o = j_schedule_windows j" "o_attempt_count ?o = j_attempt_count j + 1"
      "o_scheduled_for_at ?o = Some (er_completed_at r + automatic_retry_delay (j_attempt_count j + 1))"
      by (simp_all add: retry_options_def)
    have fid: "tf_id f = ?fid" using find_file_Some [OF assms(6)] .
    show ?thesis
    proof (cases "has_active_job_for_tracked_file ?fid d")
      case True
      then show ?thesis using 3 by (simp add: policy)
    next
      case False
      then obtain d' k where k: "create_job_from_plan i now tz f s ?o d = Inr (d', k)" "well_keyed d'"
        "db_jobs d' = db_jobs d @ [k]"
        using create_job_spec [OF assms(1,2), of ?o f now tz s] assms(8) fid by (auto simp: opts)
      moreover have "k = new_job i now f s ?o True (o_scheduled_for_at ?o)"
        using k(1) by (auto simp: create_job_from_plan_def opts(3) Let_def split: sum.splits)
      moreover have "j_scheduled_for_at k = Some (er_completed_at r + automatic_retry_delay (j_attempt_count k))"
        "j_attempt_count k = j_attempt_count j + 1" "j_status k = JS_SCHEDULED" "j_tracked_file_id k = ?fid"
        using calculation(4) by (simp_all add: opts fid)
      ultimately show ?thesis using False 3 by (simp add: policy)
    qed
  qed (use review in \<open>simp_all add: policy\<close>)
qed

text \<open>C25: A failed execution is settled by the retry policy: a protected or reviewable file, or a job
  past its third retry, goes to manual review together with its file. Otherwise nothing is done while the
  file has an active job, and else exactly one new job is added, with one more attempt (never
  more than the fourth), scheduled after the delay. So a chain of retries ends.\<close>

theorem failed_job_retried_or_reviewed:
  assumes "well_keyed d" "i \<notin> j_id ` set (db_jobs d)" "find_job d jid = Some j"
    and "er_status r = ''failed''" "j_job_kind j = EXECUTION"
    and "find_file d (j_tracked_file_id j) = Some f" "find_plan d (j_plan_snapshot_id j) = Some s"
    and "stored_schedule (j_schedule_windows j)"
  shows "if job_requires_manual_review (Some f) s \<or> max_automated_retries < j_attempt_count j
    then \<exists>d' j' g. apply_automatic_retry_policy i now tz jid r d = Inr (d', None) \<and> well_keyed d' \<and>
      find_job d' jid = Some j' \<and> j_status j' = JS_MANUAL_REVIEW \<and> map j_id (db_jobs d') = map j_id (db_jobs d) \<and>
      find_file d' (j_tracked_file_id j) = Some g \<and> tf_lifecycle_state g = FL_MANUAL_REVIEW
    else if has_active_job_for_tracked_file (j_tracked_file_id j) d
    then apply_automatic_retry_policy i now tz jid r d = Inr (d, None)
    else \<exists>d' k. apply_automatic_retry_policy i now tz jid r d = Inr (d', Some k) \<and> well_keyed d' \<and>
      db_jobs d' = db_jobs d @ [k] \<and> j_status k = JS_SCHEDULED \<and> j_tracked_file_id k = j_tracked_file_id j \<and>
      j_attempt_count k = j_attempt_count j + 1 \<and> j_attempt_count k \<le> max_automated_retries + 1 \<and>
      j_scheduled_for_at k = Some (er_completed_at r + automatic_retry_delay (j_attempt_count k))"
  using assms by (rule retry_policy_settles)

subsection \<open>Concrete rows\<close>

definition sample_tracked :: tracked_file where
  "sample_tracked =
     \<lparr>tf_id = 3, tf_source_path = ''/m/a.mkv'', tf_source_filename = ''a.mkv'', tf_source_extension = Some ''mkv'',
      tf_source_directory = ''/m'', tf_last_observed_size = Some 9, tf_last_observed_modified_time = None,
      tf_fingerprint_placeholder = None, tf_is_4k = False, tf_lifecycle_state = FL_QUEUED,
      tf_compliance_state = CS_UNKNOWN, tf_is_protected = False, tf_operator_protected = False,
      tf_operator_protected_note = None, tf_operator_protected_updated_at = None,
      tf_operator_protected_by_user_id = None, tf_last_processed_policy_version = None,
      tf_last_processed_profile_name = None, tf_updated_at = 0\<rparr>"

definition sample_snapshot :: plan_snapshot where
  "sample_snapshot =
     \<lparr>sn_id = 4, sn_tracked_file_id = 3, sn_action = TRANSCODE, sn_policy_version = 1, sn_profile_name = None,
      sn_is_already_compliant = False, sn_should_treat_as_protected = False,
      sn_payload = sample_replace_plan True False ''mkv'', sn_created_at = 0\<rparr>"

definition sample_worker :: worker where
  "sample_worker =
     \<lparr>w_id = 1, w_worker_key = ''k'', w_display_name = ''w'', w_worker_type = LOCAL, w_enabled = True,
      w_registration_status = WR_REGISTERED, w_preferred_backend = ''cpu_only'', w_allow_cpu_fallback = True,
      w_max_concurrent_jobs = 1, w_schedule_windows = None, w_path_mappings = None, w_scratch_path = None,
      w_auth_token_hash = None, w_pairing_token_hash = None, w_pairing_requested_at = None,
      w_pairing_expires_at = None, w_onboarding_platform = None, w_install_dir = None, w_host_metadata = None,
      w_capability_payload = None, w_runtime_payload = None, w_binary_payload = None, w_last_seen_at = None,
      w_last_heartbeat_at = None, w_last_health_status = WH_HEALTHY, w_last_health_summary = None,
      w_last_registration_at = None, w_updated_at = 0\<rparr>"

text \<open>A pending job of the file, and a failed one after its first attempt.\<close>

definition sample_job :: job where
  "sample_job = new_job 7 1000 sample_tracked sample_snapshot default_options False None"

definition sample_failed_job :: job where
  "sample_failed_job = sample_job\<lparr>j_status := JS_FAILED\<rparr>"

definition sample_db :: "job list \<Rightarrow> db" where
  "sample_db js = \<lparr>db_jobs = js, db_files = [sample_tracked], db_plans = [sample_snapshot], db_workers = [sample_worker]\<rparr>"

lemma sample_db_tables [simp]:
  "db_jobs (sample_db js) = js" "db_files (sample_db js) = [sample_tracked]" "db_plans (sample_db js) = [sample_snapshot]"
  "db_workers (sample_db js) = [sample_worker]"
  by (simp_all add: sample_db_def)

lemma sample_job_fields [simp]:
  "j_id sample_job = 7" "j_tracked_file_id sample_job = 3" "j_plan_snapshot_id sample_job = 4" "j_status sample_job = JS_PENDING"
  "j_cleared_at sample_job = None" "j_assigned_worker_id sample_job = None" "j_attempt_count sample_job = 1"
  "j_job_kind sample_job = EXECUTION" "j_schedule_windows sample_job = None" "j_requested_worker_type sample_job = None"
  "is_active sample_job"
  "j_backup_policy sample_job = ''keep''"
proof -
  have "normalise_backup_policy (Some ''keep'') = ''keep''" by (rule normalise_backup_policy_fixed)
  then show "j_backup_policy sample_job = ''keep''" by (simp add: sample_job_def default_options_def)
qed (simp_all add: sample_job_def default_options_def sample_tracked_def sample_snapshot_def new_job_def Let_def
      is_active_def active_job_statuses_def)

lemma sample_failed_job_fields [simp]:
  "j_id sample_failed_job = 7" "j_tracked_file_id sample_failed_job = 3" "j_plan_snapshot_id sample_failed_job = 4"
  "j_status sample_failed_job = JS_FAILED" "j_attempt_count sample_failed_job = 1" "j_job_kind sample_failed_job = EXECUTION"
  "j_schedule_windows sample_failed_job = None" "\<not> is_active sample_failed_job"
  by (simp_all add: sample_failed_job_def is_active_def active_job_statuses_def)

lemma sample_db_well_keyed [simp]: "well_keyed (sample_db [])" "well_keyed (sample_db [j])"
  by (simp_all add: well_keyed_def one_active_per_file_def)

lemma claim_within_capacity_witness:
  "\<exists>d' j'. claim_pending_for_worker 2000 7 sample_worker None 1 (sample_db [sample_job]) = Inr (d', Some j')
     \<and> j_status j' = JS_RUNNING"
  using claim_within_capacity [of "sample_db [sample_job]" 2000 7 sample_worker None 1]
  by (auto simp: find_job_def claimable_def count_active_assignments_for_worker_def)

text \<open>A job is handed out once: when a claim returned it, every later claim of it, by whichever worker,
  succeeds without a job and changes no job row.\<close>

theorem claim_is_exclusive:
  assumes "well_keyed d" "claim_pending_for_worker now jid w backend cap d = Inr (d1, Some j)"
  shows "\<exists>d2. claim_pending_for_worker now2 jid w2 backend2 cap2 d1 = Inr (d2, None) \<and> db_jobs d2 = db_jobs d1"
proof -
  have "well_keyed d1 \<and> find_job d1 jid = Some j \<and> j_status j = JS_RUNNING"
    using claim_spec [OF assms(1), of now jid w backend cap] assms(2) by auto
  then show ?thesis by (simp add: claim_eq claimable_def lock_worker_capacity_def)
qed

lemma claim_is_exclusive_witness:
  "\<exists>d1 d2. claim_pending_for_worker 2000 7 sample_worker None 1 (sample_db [sample_job]) = Inr (d1, Some (claiming 2000 sample_worker None sample_job))
     \<and> claim_pending_for_worker 3000 7 (sample_worker\<lparr>w_id := 2\<rparr>) None 5 d1 = Inr (d2, None)"
proof -
  obtain d1 where "claim_pending_for_worker 2000 7 sample_worker None 1 (sample_db [sample_job]) = Inr (d1, Some (claiming 2000 sample_worker None sample_job))"
    by (simp add: claim_eq find_job_def claimable_def count_active_assignments_for_worker_def)
  with claim_is_exclusive [OF sample_db_well_keyed(2) this, of 3000 "sample_worker\<lparr>w_id := 2\<rparr>" None 5]
  show ?thesis by blast
qed

lemma next_local_job_is_oldest_witness:
  "\<exists>j. fetch_next_pending_local_job (sample_db [sample_job]) = Some j \<and> j_id j = 7"
  using next_local_job_is_oldest [of "sample_db [sample_job]"]
  by (auto simp: open_to_local_def split: option.splits)

lemma create_job_keeps_one_active_witness:
  "\<exists>d' job. create_job_from_plan 8 2000 0 sample_tracked sample_snapshot default_options (sample_db []) = Inr (d', job)
     \<and> j_status job = JS_PENDING"
  using create_job_keeps_one_active [of "sample_db []" 8 default_options sample_tracked 2000 0 sample_snapshot]
  by (auto simp: active_for_file default_options_def stored_schedule_def windows_closed_def split: option.splits)

lemma clear_queue_cancels_waiting_witness:
  "\<exists>d'. clear_queue 2000 2000 ''x'' (sample_db [sample_job]) = Inr d' \<and> map j_status (db_jobs d') = [JS_CANCELLED]"
  using clear_queue_cancels_waiting [of "sample_db [sample_job]" 2000 2000 "''x''"]
  by (auto simp: waits_in_queue_def stamped_fields)

definition sample_failure :: full_result where
  "sample_failure =
     \<lparr>er_mode = ''execute'', er_status = ''failed'', er_command = [], er_output_path = None, er_exit_code = None, er_stdout = None, er_stderr = None, er_failure_message = None,
      er_failure_category = None, er_requested_backend = None,
      er_actual_backend = None, er_actual_accelerator = None, er_backend_fallback_used = False,
      er_backend_selection_reason = None, er_final_output_path = None, er_original_backup_path = None,
      er_savings = no_savings, er_analysis_payload = None, er_verification = None,
      er_replacement = None, er_started_at = 1500, er_completed_at = 1800\<rparr>"

lemma failed_job_retried_or_reviewed_witness:
  "\<exists>d' k. apply_automatic_retry_policy 8 2000 0 7 sample_failure (sample_db [sample_failed_job]) = Inr (d', Some k)
     \<and> j_attempt_count k = 2"
proof -
  have "\<not> job_requires_manual_review (Some sample_tracked) sample_snapshot"
    by (simp add: job_requires_manual_review_def sample_tracked_def sample_snapshot_def)
  moreover have "tf_id sample_tracked = 3" "sn_id sample_snapshot = 4"
    by (simp_all add: sample_tracked_def sample_snapshot_def)
  ultimately show ?thesis
    using failed_job_retried_or_reviewed [of "sample_db [sample_failed_job]" 8 7 sample_failed_job sample_failure
        sample_tracked sample_snapshot 2000 0]
    by (auto simp: find_job_def find_file_def find_plan_def sample_failure_def stored_schedule_def
          max_automated_retries_def active_for_file)
qed

end
