(* ===== verification/Tracked_Files.thy ===== *)
theory Tracked_Files
  imports Job_Repository Rules
begin

text \<open>
  The tracked files (\<open>src/packages/db/encodr_db/repositories/tracked_files.py\<close>): recording a path, the
  state a plan or a result gives a file, protection by the operator, and the listing filters. Probe
  snapshots are not modelled. Two rows with the same time stamp come in row order (the source leaves
  the order of the database open).
\<close>

subsection \<open>Paths in queries\<close>

fun drop_last_slashes :: "string \<Rightarrow> string" where
  "drop_last_slashes s = (if 1 < length s \<and> last s = CHR ''/'' then drop_last_slashes (butlast s) else s)"

declare drop_last_slashes.simps [simp del]

definition normalize_path_prefix :: "string \<Rightarrow> string" where
  "normalize_path_prefix p =
     (let cleaned = as_posix (path_of (map (\<lambda>c. if c = char_of (92::nat) then CHR ''/'' else c) (py_strip p)))
      in drop_last_slashes cleaned)"

text \<open>
  \<open>LIKE\<close>: \<open>%\<close> stands for any text, \<open>_\<close> for any character; a backslash, which no pattern here has,
  would be an escape in PostgreSQL. \<open>startswith(x)\<close> is \<open>LIKE x || '%'\<close>: SQLAlchemy escapes \<open>x\<close> only
  with \<open>autoescape\<close>. SQLite compares without case.
\<close>

fun sql_like :: "string \<Rightarrow> string \<Rightarrow> bool" where
  "sql_like [] [] = True"
| "sql_like [] (_ # _) = False"
| "sql_like (p # ps) [] = (p = CHR ''%'' \<and> sql_like ps [])"
| "sql_like (p # ps) (c # cs) =
     (if p = CHR ''%'' then sql_like ps (c # cs) \<or> sql_like (p # ps) cs
      else (p = CHR ''_'' \<or> p = c) \<and> sql_like ps cs)"

definition sql_ilike :: "string \<Rightarrow> string \<Rightarrow> bool" where
  "sql_ilike p s = sql_like (py_lower p) (py_lower s)"

definition sql_startswith :: "bool \<Rightarrow> string \<Rightarrow> string \<Rightarrow> bool" where
  "sql_startswith case_blind s p = (if case_blind then sql_ilike (p @ ''%'') s else sql_like (p @ ''%'') s)"

definition source_path_within_prefix :: "bool \<Rightarrow> string \<Rightarrow> string \<Rightarrow> bool" where
  "source_path_within_prefix case_blind pre sp =
     (let cleaned = normalize_path_prefix pre in
      if cleaned = ''/'' then sql_startswith case_blind sp ''/''
      else sp = cleaned \<or> sql_startswith case_blind sp (cleaned @ ''/''))"

definition processable_source_path_condition :: "string \<Rightarrow> bool" where
  "processable_source_path_condition sp \<longleftrightarrow>
     \<not> sql_ilike ''%.encodr-backup.%'' sp \<and> \<not> sql_ilike ''%.encodr-restored-replacement.%'' sp \<and>
     \<not> sql_ilike ''%.tmp.%'' sp \<and> \<not> sql_ilike ''%.partial.%'' sp"

subsection \<open>Recording a path\<close>

definition get_by_path :: "db \<Rightarrow> path \<Rightarrow> tracked_file option" where
  "get_by_path d p = find (\<lambda>f. tf_source_path f = as_posix p) (db_files d)"

definition extension_of :: "path \<Rightarrow> string option" where
  "extension_of p =
     (let e = dropWhile (\<lambda>c. c = CHR ''.'') (py_lower (path_suffix p)) in if e = [] then None else Some e)"

definition new_file :: "row_id \<Rightarrow> instant \<Rightarrow> path \<Rightarrow> tracked_file" where
  "new_file i now p =
     \<lparr>tf_id = i, tf_source_path = as_posix p, tf_source_filename = path_name p, tf_source_extension = extension_of p,
      tf_source_directory = as_posix (parent p), tf_last_observed_size = None, tf_last_observed_modified_time = None,
      tf_fingerprint_placeholder = None, tf_is_4k = False, tf_lifecycle_state = FL_DISCOVERED,
      tf_compliance_state = CS_UNKNOWN, tf_is_protected = False, tf_operator_protected = False,
      tf_operator_protected_note = None, tf_operator_protected_updated_at = None,
      tf_operator_protected_by_user_id = None, tf_last_processed_policy_version = None,
      tf_last_processed_profile_name = None, tf_updated_at = now\<rparr>"

text \<open>\<open>INSERT ... ON CONFLICT (source_path) DO NOTHING\<close>.\<close>

definition insert_path_if_missing :: "row_id \<Rightarrow> instant \<Rightarrow> path \<Rightarrow> db \<Rightarrow> db" where
  "insert_path_if_missing i now p d =
     (if get_by_path d p = None then d\<lparr>db_files := db_files d @ [new_file i now p]\<rparr> else d)"

definition observe ::
    "path \<Rightarrow> media_file option \<Rightarrow> int option \<Rightarrow> instant option \<Rightarrow> string option \<Rightarrow> tracked_file \<Rightarrow> tracked_file" where
  "observe p media observed_size modified fingerprint f =
     (let f1 = f\<lparr>tf_source_filename := path_name p, tf_source_extension := extension_of p,
                 tf_source_directory := as_posix (parent p), tf_fingerprint_placeholder := fingerprint\<rparr>;
          f2 = (case observed_size of None \<Rightarrow> f1 | Some n \<Rightarrow> f1\<lparr>tf_last_observed_size := Some n\<rparr>);
          f3 = (case modified of None \<Rightarrow> f2 | Some t \<Rightarrow> f2\<lparr>tf_last_observed_modified_time := Some t\<rparr>)
      in case media of
           None \<Rightarrow> f3
         | Some m \<Rightarrow> f3\<lparr>tf_last_observed_size := size_bytes (container m), tf_is_4k := is_4k m\<rparr>)"

definition upsert_by_path ::
    "row_id \<Rightarrow> instant \<Rightarrow> path \<Rightarrow> media_file option \<Rightarrow> int option \<Rightarrow> instant option \<Rightarrow> string option \<Rightarrow> db
     \<Rightarrow> db_error + db" where
  "upsert_by_path i now p media observed_size modified fingerprint d =
     (let d1 = insert_path_if_missing i now p d in
      case get_by_path d1 p of
        None \<Rightarrow> Inl MissingRow
      | Some f \<Rightarrow> Inr (put_file now (observe p media observed_size modified fingerprint f) d1))"

definition lock_for_update :: "instant \<Rightarrow> row_id \<Rightarrow> db \<Rightarrow> db" where
  "lock_for_update now i d =
     d\<lparr>db_files := map (\<lambda>f. if tf_id f = i then f\<lparr>tf_updated_at := now\<rparr> else f) (db_files d)\<rparr>"

subsection \<open>Listing\<close>

record file_filter =
  ff_lifecycle :: "file_lifecycle_state option"
  ff_compliance :: "compliance_state option"
  ff_protected_only :: "bool option"
  ff_path_prefix :: "string option"
  ff_path_search :: "string option"
  ff_is_4k :: "bool option"

definition given :: "'a option \<Rightarrow> ('a \<Rightarrow> bool) \<Rightarrow> bool" where
  "given v ok = (case v of None \<Rightarrow> True | Some x \<Rightarrow> ok x)"

definition matches_filter :: "bool \<Rightarrow> file_filter \<Rightarrow> tracked_file \<Rightarrow> bool" where
  "matches_filter case_blind q f \<longleftrightarrow>
     processable_source_path_condition (tf_source_path f) \<and>
     given (ff_lifecycle q) (\<lambda>s. tf_lifecycle_state f = s) \<and>
     given (ff_compliance q) (\<lambda>s. tf_compliance_state f = s) \<and>
     given (ff_protected_only q) (\<lambda>b. tf_is_protected f = b) \<and>
     given (ff_path_prefix q) (\<lambda>p. p = [] \<or> source_path_within_prefix case_blind p (tf_source_path f)) \<and>
     given (ff_path_search q) (\<lambda>p. p = [] \<or> sql_ilike (''%'' @ p @ ''%'') (tf_source_path f)) \<and>
     given (ff_is_4k q) (\<lambda>b. tf_is_4k f = b)"

definition latest_files_first :: "tracked_file list \<Rightarrow> tracked_file list" where
  "latest_files_first fs = sort_key (\<lambda>f. - tf_updated_at f) fs"

definition page :: "nat option \<Rightarrow> nat option \<Rightarrow> 'a list \<Rightarrow> 'a list" where
  "page limit offset xs =
     (let ys = (case offset of None \<Rightarrow> xs | Some n \<Rightarrow> drop n xs)
      in case limit of None \<Rightarrow> ys | Some n \<Rightarrow> take n ys)"

definition list_files :: "bool \<Rightarrow> file_filter \<Rightarrow> nat option \<Rightarrow> nat option \<Rightarrow> db \<Rightarrow> tracked_file list" where
  "list_files case_blind q limit offset d =
     page limit offset (latest_files_first (filter (matches_filter case_blind q) (db_files d)))"

definition count_files :: "bool \<Rightarrow> file_filter \<Rightarrow> db \<Rightarrow> nat" where
  "count_files case_blind q d = length (filter (matches_filter case_blind q) (db_files d))"

definition superseding_statuses :: "job_status list" where
  "superseding_statuses = [JS_PENDING, JS_SCHEDULED, JS_RUNNING, JS_COMPLETED, JS_SKIPPED, JS_MANUAL_REVIEW]"

definition needs_review :: "db \<Rightarrow> tracked_file \<Rightarrow> bool" where
  "needs_review d f \<longleftrightarrow>
     tf_lifecycle_state f = FL_MANUAL_REVIEW \<or> tf_compliance_state f = CS_MANUAL_REVIEW \<or> tf_is_protected f \<or>
     tf_operator_protected f \<or>
     list_ex (\<lambda>s. sn_tracked_file_id s = tf_id f \<and> sn_action s = MANUAL_REVIEW) (db_plans d) \<or>
     list_ex (\<lambda>j. j_tracked_file_id j = tf_id f \<and> j_status j = JS_MANUAL_REVIEW) (db_jobs d) \<or>
     list_ex (\<lambda>j. j_tracked_file_id j = tf_id f \<and> j_status j = JS_FAILED \<and>
        \<not> list_ex (\<lambda>n. j_tracked_file_id n = tf_id f \<and> j_created_at j < j_created_at n \<and>
              j_status n \<in> set superseding_statuses) (db_jobs d)) (db_jobs d)"

definition list_review_candidates :: "db \<Rightarrow> tracked_file list" where
  "list_review_candidates d = latest_files_first (filter (needs_review d) (db_files d))"

definition get_latest_plan_snapshot :: "row_id \<Rightarrow> db \<Rightarrow> plan_snapshot option" where
  "get_latest_plan_snapshot fid d =
     (case sort_key (\<lambda>s. - sn_created_at s) (filter (\<lambda>s. sn_tracked_file_id s = fid) (db_plans d)) of
        [] \<Rightarrow> None | s # _ \<Rightarrow> Some s)"

subsection \<open>The state a plan or a result gives a file\<close>

definition lifecycle_state_for_plan :: "processing_plan \<Rightarrow> file_lifecycle_state" where
  "lifecycle_state_for_plan p = (if action p = MANUAL_REVIEW then FL_MANUAL_REVIEW else FL_PLANNED)"

definition compliance_state_for_plan :: "processing_plan \<Rightarrow> compliance_state" where
  "compliance_state_for_plan p =
     (if action p = MANUAL_REVIEW then CS_MANUAL_REVIEW
      else if is_already_compliant p then CS_COMPLIANT else CS_NON_COMPLIANT)"

text \<open>\<open>exists\<close> is asked of the file system at that moment.\<close>

definition result_marks_file_processed :: "(path \<Rightarrow> bool) \<Rightarrow> full_result \<Rightarrow> bool" where
  "result_marks_file_processed on_disk r =
     (if er_status r \<noteq> ''completed'' then False
      else case er_replacement r of
        None \<Rightarrow> False
      | Some v \<Rightarrow>
          if rr_status v \<noteq> R_SUCCEEDED then False
          else case (case er_final_output_path r of None \<Rightarrow> rr_final_output_path v | Some p \<Rightarrow> Some p) of
            None \<Rightarrow> False
          | Some p \<Rightarrow> on_disk p)"

definition update_file_state_from_plan_result :: "processing_plan \<Rightarrow> tracked_file \<Rightarrow> tracked_file" where
  "update_file_state_from_plan_result p f =
     f\<lparr>tf_is_protected := should_treat_as_protected p \<or> tf_operator_protected f,
       tf_compliance_state := compliance_state_for_plan p, tf_lifecycle_state := lifecycle_state_for_plan p\<rparr>"

definition processed_under :: "processing_plan \<Rightarrow> tracked_file \<Rightarrow> tracked_file" where
  "processed_under p f =
     f\<lparr>tf_last_processed_policy_version := Some (policy_version (plan_context p)),
       tf_last_processed_profile_name := selected_profile_name (plan_context p),
       tf_lifecycle_state := FL_COMPLETED, tf_compliance_state := CS_COMPLIANT\<rparr>"

definition update_file_state_from_execution_result ::
    "(path \<Rightarrow> bool) \<Rightarrow> processing_plan \<Rightarrow> full_result \<Rightarrow> tracked_file \<Rightarrow> tracked_file" where
  "update_file_state_from_execution_result on_disk p r f =
     (let f1 = f\<lparr>tf_is_protected := should_treat_as_protected p \<or> tf_operator_protected f\<rparr> in
      if result_marks_file_processed on_disk r then processed_under p f1
      else if er_status r = ''skipped'' then processed_under p f1
      else if er_status r = ''manual_review'' then
        f1\<lparr>tf_lifecycle_state := FL_MANUAL_REVIEW, tf_compliance_state := CS_MANUAL_REVIEW\<rparr>
      else if er_status r = ''cancelled'' then
        f1\<lparr>tf_lifecycle_state := lifecycle_state_for_plan p, tf_compliance_state := compliance_state_for_plan p\<rparr>
      else f1\<lparr>tf_lifecycle_state := FL_FAILED,
              tf_compliance_state := (if action p = MANUAL_REVIEW then CS_MANUAL_REVIEW else CS_NON_COMPLIANT)\<rparr>)"

definition set_operator_protected ::
    "bool \<Rightarrow> string option \<Rightarrow> row_id option \<Rightarrow> instant \<Rightarrow> db \<Rightarrow> tracked_file \<Rightarrow> tracked_file" where
  "set_operator_protected b note user stamp d f =
     (let f1 = f\<lparr>tf_operator_protected := b, tf_operator_protected_note := note,
                 tf_operator_protected_by_user_id := user, tf_operator_protected_updated_at := Some stamp,
                 tf_is_protected := tf_is_protected f \<or> b\<rparr>
      in if b then f1
         else f1\<lparr>tf_is_protected :=
           (case get_latest_plan_snapshot (tf_id f) d of None \<Rightarrow> False | Some s \<Rightarrow> sn_should_treat_as_protected s)\<rparr>)"

definition already_processed_under_policy :: "db \<Rightarrow> path \<Rightarrow> int \<Rightarrow> string option \<Rightarrow> bool" where
  "already_processed_under_policy d p version wanted =
     (case get_by_path d p of
        None \<Rightarrow> False
      | Some f \<Rightarrow>
          if tf_last_processed_policy_version f \<noteq> Some version then False
          else if wanted \<noteq> None \<and> tf_last_processed_profile_name f \<noteq> wanted then False
          else case get_latest_plan_snapshot (tf_id f) d of
            None \<Rightarrow> False
          | Some s \<Rightarrow>
              if sn_policy_version s \<noteq> version then False
              else if wanted \<noteq> None \<and> sn_profile_name s \<noteq> wanted then False
              else tf_compliance_state f \<noteq> CS_UNKNOWN)"

subsection \<open>Protection\<close>

definition protection_kept :: "tracked_file \<Rightarrow> bool" where
  "protection_kept f \<longleftrightarrow> (tf_operator_protected f \<longrightarrow> tf_is_protected f)"

text \<open>A file its operator protects is always marked as protected: a fresh row, a plan's state, a result's
  state, a new observation and the switch itself keep that. Only the switch changes the operator's
  choice, and when it is lifted the mark falls back to what the latest plan asks for.\<close>

theorem operator_protection_kept:
  "protection_kept (new_file i now p) \<and>
   protection_kept (update_file_state_from_plan_result plan f) \<and>
   tf_operator_protected (update_file_state_from_plan_result plan f) = tf_operator_protected f \<and>
   protection_kept (update_file_state_from_execution_result on_disk plan r f) \<and>
   tf_operator_protected (update_file_state_from_execution_result on_disk plan r f) = tf_operator_protected f \<and>
   protection_kept (observe p media observed_size modified fingerprint f) = protection_kept f \<and>
   protection_kept (set_operator_protected b note user stamp d f) \<and>
   tf_operator_protected (set_operator_protected b note user stamp d f) = b \<and>
   (tf_is_protected (set_operator_protected False note user stamp d f) \<longleftrightarrow>
     (\<exists>s. get_latest_plan_snapshot (tf_id f) d = Some s \<and> sn_should_treat_as_protected s))"
  by (auto simp: protection_kept_def new_file_def update_file_state_from_plan_result_def
      update_file_state_from_execution_result_def processed_under_def observe_def set_operator_protected_def Let_def
      split: option.splits)

text \<open>A result marks a file as completed exactly when the job was skipped as having nothing to do, or
  completed with a successful replacement whose output is on disk; then the file is compliant and
  carries the policy version and profile of the plan. Any other result leaves those as they were.\<close>

theorem file_completed_iff:
  "let g = update_file_state_from_execution_result on_disk plan r f;
       done = (er_status r = ''skipped'' \<or>
         er_status r = ''completed'' \<and> (\<exists>v p. er_replacement r = Some v \<and> rr_status v = R_SUCCEEDED \<and> on_disk p \<and>
           (er_final_output_path r = Some p \<or> er_final_output_path r = None \<and> rr_final_output_path v = Some p)))
   in (tf_lifecycle_state g = FL_COMPLETED \<longleftrightarrow> done) \<and>
      (done \<longrightarrow> tf_compliance_state g = CS_COMPLIANT \<and>
         tf_last_processed_policy_version g = Some (policy_version (plan_context plan)) \<and>
         tf_last_processed_profile_name g = selected_profile_name (plan_context plan)) \<and>
      (\<not> done \<longrightarrow> tf_last_processed_policy_version g = tf_last_processed_policy_version f \<and>
         tf_last_processed_profile_name g = tf_last_processed_profile_name f)"
  by (auto simp: update_file_state_from_execution_result_def result_marks_file_processed_def processed_under_def Let_def
      lifecycle_state_for_plan_def split: option.splits)

subsection \<open>One row per path\<close>

definition files_keyed :: "db \<Rightarrow> bool" where
  "files_keyed d \<longleftrightarrow> distinct (map tf_id (db_files d)) \<and> distinct (map tf_source_path (db_files d))"

lemma observe_fields [simp]:
  "tf_id (observe p m n t h f) = tf_id f" "tf_source_path (observe p m n t h f) = tf_source_path f"
  "tf_operator_protected (observe p m n t h f) = tf_operator_protected f"
  "tf_is_protected (observe p m n t h f) = tf_is_protected f"
  "tf_lifecycle_state (observe p m n t h f) = tf_lifecycle_state f"
  "tf_compliance_state (observe p m n t h f) = tf_compliance_state f"
  "tf_source_filename (observe p m n t h f) = path_name p"
  "tf_source_directory (observe p m n t h f) = as_posix (parent p)"
  by (simp_all add: observe_def Let_def split: option.splits)

lemma find_by_key:
  assumes "distinct (map key xs)" "x \<in> set xs"
  shows "find (\<lambda>y. key y = key x) xs = Some x"
  using assms by (induction xs) (auto simp: image_iff)

lemma map_replace_keyed:
  assumes "distinct (map key xs)" "x \<in> set xs" "key y = key x"
  shows "map (\<lambda>r. if key r = key y \<and> r \<noteq> y then z else r) xs = map (\<lambda>r. if r = x then (if x = y then y else z) else r) xs"
proof -
  have uniq: "r = x" if "r \<in> set xs" "key r = key x" for r
    using inj_onD [of key "set xs" r x] assms(1,2) that by (simp add: distinct_map)
  show ?thesis
  proof (rule map_cong [OF refl])
    fix r assume r: "r \<in> set xs"
    show "(if key r = key y \<and> r \<noteq> y then z else r) = (if r = x then (if x = y then y else z) else r)"
    proof (cases "r = x")
      case False
      then have "key r \<noteq> key y" using uniq [OF r] assms(3) by metis
      then show ?thesis using False by simp
    qed (simp add: assms(3))
  qed
qed

lemma put_file_map:
  assumes "distinct (map tf_id (db_files d))" "f \<in> set (db_files d)" "tf_id g = tf_id f"
  shows "db_files (put_file now g d) = map (\<lambda>r. if r = f then (if f = g then g else g\<lparr>tf_updated_at := now\<rparr>) else r) (db_files d)"
  using map_replace_keyed [OF assms] by (simp add: put_file_def)

text \<open>Recording a path never fails and keeps one row per path: the row of the path is there
  afterwards, with the names of the path and, when it was there before, with its identity, its state and its
  protection unchanged; every row of another path is unchanged; a row is added only for a new path.\<close>

theorem upsert_keeps_one_row_per_path:
  assumes "files_keyed d" "i \<notin> tf_id ` set (db_files d)"
  shows "\<exists>d' g. upsert_by_path i now p media observed_size modified fingerprint d = Inr d' \<and> files_keyed d' \<and>
    get_by_path d' p = Some g \<and> tf_source_filename g = path_name p \<and> tf_source_directory g = as_posix (parent p) \<and>
    (case get_by_path d p of
       None \<Rightarrow> tf_id g = i \<and> length (db_files d') = Suc (length (db_files d))
     | Some f \<Rightarrow> tf_id g = tf_id f \<and> tf_lifecycle_state g = tf_lifecycle_state f \<and>
         tf_compliance_state g = tf_compliance_state f \<and> tf_is_protected g = tf_is_protected f \<and>
         tf_operator_protected g = tf_operator_protected f \<and> length (db_files d') = length (db_files d)) \<and>
    filter (\<lambda>r. tf_source_path r \<noteq> as_posix p) (db_files d') = filter (\<lambda>r. tf_source_path r \<noteq> as_posix p) (db_files d)"
proof -
  let ?d1 = "insert_path_if_missing i now p d"
  let ?f0 = "case get_by_path d p of None \<Rightarrow> new_file i now p | Some f \<Rightarrow> f"
  have new: "tf_source_path (new_file i now p) = as_posix p" "tf_id (new_file i now p) = i"
    by (simp_all add: new_file_def)
  have d1: "db_files ?d1 = (if get_by_path d p = None then db_files d @ [new_file i now p] else db_files d)"
    by (simp add: insert_path_if_missing_def)
  have absent: "as_posix p \<notin> tf_source_path ` set (db_files d)" if "get_by_path d p = None"
    using that by (auto simp: get_by_path_def find_None_iff)
  have keyed: "files_keyed ?d1"
    using assms absent new by (auto simp: files_keyed_def d1)
  have "?f0 \<in> set (db_files ?d1) \<and> tf_source_path ?f0 = as_posix p"
  proof (cases "get_by_path d p")
    case (Some f)
    then have "f \<in> set (db_files d)" "tf_source_path f = as_posix p" by (auto simp: get_by_path_def find_Some_iff)
    then show ?thesis using Some by (simp add: d1)
  qed (simp add: new d1)
  then have f0: "?f0 \<in> set (db_files ?d1)" "tf_source_path ?f0 = as_posix p" by simp_all
  have got: "get_by_path ?d1 p = Some ?f0"
    using find_by_key [of tf_source_path "db_files ?d1" ?f0] keyed f0 by (simp add: files_keyed_def get_by_path_def)
  define g where "g = observe p media observed_size modified fingerprint ?f0"
  define g' where "g' = (if ?f0 = g then g else g\<lparr>tf_updated_at := now\<rparr>)"
  define d' where "d' = put_file now g ?d1"
  have files: "db_files d' = map (\<lambda>r. if r = ?f0 then g' else r) (db_files ?d1)"
    using put_file_map [of ?d1 ?f0 g now] keyed f0(1) by (simp add: d'_def g_def g'_def files_keyed_def)
  have g': "tf_id g' = tf_id ?f0" "tf_source_path g' = as_posix p" "tf_source_filename g' = path_name p"
    "tf_source_directory g' = as_posix (parent p)" "tf_lifecycle_state g' = tf_lifecycle_state ?f0"
    "tf_compliance_state g' = tf_compliance_state ?f0" "tf_is_protected g' = tf_is_protected ?f0"
    "tf_operator_protected g' = tf_operator_protected ?f0"
  proof -
    have g: "tf_id g = tf_id ?f0" "tf_source_path g = as_posix p" "tf_source_filename g = path_name p"
      "tf_source_directory g = as_posix (parent p)" "tf_lifecycle_state g = tf_lifecycle_state ?f0"
      "tf_compliance_state g = tf_compliance_state ?f0" "tf_is_protected g = tf_is_protected ?f0"
      "tf_operator_protected g = tf_operator_protected ?f0"
      using f0(2) by (simp_all add: g_def)
    have sel: "tf_id g' = tf_id g" "tf_source_path g' = tf_source_path g" "tf_source_filename g' = tf_source_filename g"
      "tf_source_directory g' = tf_source_directory g" "tf_lifecycle_state g' = tf_lifecycle_state g"
      "tf_compliance_state g' = tf_compliance_state g" "tf_is_protected g' = tf_is_protected g"
      "tf_operator_protected g' = tf_operator_protected g"
      unfolding g'_def by simp_all
    show "tf_id g' = tf_id ?f0" "tf_source_path g' = as_posix p" "tf_source_filename g' = path_name p"
      "tf_source_directory g' = as_posix (parent p)" "tf_lifecycle_state g' = tf_lifecycle_state ?f0"
      "tf_compliance_state g' = tf_compliance_state ?f0" "tf_is_protected g' = tf_is_protected ?f0"
      "tf_operator_protected g' = tf_operator_protected ?f0"
      unfolding sel by (rule g)+
  qed
  have same: "map tf_id (db_files d') = map tf_id (db_files ?d1)" "map tf_source_path (db_files d') = map tf_source_path (db_files ?d1)"
    using g'(1,2) f0(2) by (auto simp: files)
  then have keyed': "files_keyed d'" using keyed by (simp add: files_keyed_def)
  have "g' \<in> set (db_files d')" using f0(1) by (auto simp: files image_iff)
  then have got': "get_by_path d' p = Some g'"
    using find_by_key [of tf_source_path "db_files d'" g'] keyed' g'(2) by (simp add: files_keyed_def get_by_path_def)
  have "filter (\<lambda>r. tf_source_path r \<noteq> as_posix p) (map (\<lambda>r. if r = ?f0 then g' else r) rs) = filter (\<lambda>r. tf_source_path r \<noteq> as_posix p) rs" for rs
    using f0(2) g'(2) by (induction rs) auto
  then have others: "filter (\<lambda>r. tf_source_path r \<noteq> as_posix p) (db_files d') = filter (\<lambda>r. tf_source_path r \<noteq> as_posix p) (db_files d)"
    by (simp add: files d1 new)
  have "upsert_by_path i now p media observed_size modified fingerprint d = Inr d'"
    by (simp add: upsert_by_path_def got d'_def g_def Let_def)
  moreover have "length (db_files d') = length (db_files ?d1)" by (simp add: files)
  ultimately show ?thesis
    using keyed' got' g' others new by (intro exI [of _ d'] exI [of _ g']) (simp add: d1 split: option.split)
qed

subsection \<open>The folder filter\<close>

lemma like_any: "sql_like ''%'' s"
  by (induction s) simp_all

lemma like_prefix: "prefix p s \<Longrightarrow> sql_like (p @ ''%'') s"
proof (induction p arbitrary: s)
  case Nil
  show ?case by (simp add: like_any)
next
  case (Cons c p)
  then obtain t where t: "s = c # t" "prefix p t" using Cons.prems by (auto simp: prefix_def)
  have "sql_like (p @ ''%'') t" using Cons.IH [OF t(2)] .
  then show ?case using t(1) by (cases t) auto
qed

lemma like_plain_prefix: "CHR ''%'' \<notin> set p \<Longrightarrow> CHR ''_'' \<notin> set p \<Longrightarrow> sql_like (p @ ''%'') s \<longleftrightarrow> prefix p s"
proof (induction p arbitrary: s)
  case (Cons c p)
  then show ?case by (cases s) auto
qed (simp add: like_any)

lemma drop_last_slashes_strip: "s \<noteq> [] \<Longrightarrow> drop_last_slashes s = strip_slashes s"
proof (induction s rule: drop_last_slashes.induct)
  case (1 s)
  show ?case
  proof (cases "1 < length s \<and> last s = CHR ''/''")
    case True
    then have s: "s = butlast s @ ''/''" "butlast s \<noteq> []"
      by (metis append_butlast_last_id length_0_conv less_numeral_extra(3) not_one_less_zero,
          metis One_nat_def length_butlast length_greater_0_conv zero_less_diff)
    have "strip_slashes s = strip_slashes (butlast s)"
      by (subst s(1)) (simp add: strip_slashes_def rstrip_by_def)
    then show ?thesis using True 1(1) [OF True s(2)] by (subst drop_last_slashes.simps) simp
  next
    case False
    then have "strip_slashes s = s"
      using 1(2) by (cases s rule: rev_cases) (auto simp: strip_slashes_def rstrip_by_def Let_def)
    then show ?thesis using False by (subst drop_last_slashes.simps) auto
  qed
qed

text \<open>The folder filter finds every file in the folder or below it; for a folder name without the
  wildcard characters, and a database that compares with case, it finds exactly those.\<close>

theorem folder_filter_finds_folder:
  assumes "wf_path p" "wf_path q" "parts p \<noteq> []" "parts q \<noteq> []"
    and "py_strip (as_posix q) = as_posix q" "char_of (92::nat) \<notin> set (as_posix q)"
  shows "(root p = root q \<and> prefix (parts q) (parts p) \<longrightarrow> source_path_within_prefix case_blind (as_posix q) (as_posix p)) \<and>
    (CHR ''%'' \<notin> set (as_posix q) \<and> CHR ''_'' \<notin> set (as_posix q) \<longrightarrow>
       (source_path_within_prefix False (as_posix q) (as_posix p) \<longleftrightarrow> root p = root q \<and> prefix (parts q) (parts p)))"
proof -
  let ?p = "as_posix p" and ?q = "as_posix q"
  have posix: "strip_slashes ?p = ?p" "strip_slashes ?q = ?q"
    using strip_slashes_posix [OF assms(1,3)] strip_slashes_posix [OF assms(2,4)] assms(3,4)
    by (simp_all add: as_posix_def)
  have "?q \<noteq> []" using posix(2) by (auto simp: strip_slashes_def Let_def rstrip_by_def)
  have "map (\<lambda>c. if c = char_of (92::nat) then CHR ''/'' else c) ?q = ?q"
    using assms(6) by (intro map_idI) auto
  then have norm: "normalize_path_prefix ?q = ?q"
    using path_of_as_posix [OF assms(2)] drop_last_slashes_strip [OF \<open>?q \<noteq> []\<close>] posix(2)
    by (simp add: normalize_path_prefix_def assms(5) Let_def)
  have inside: "root p = root q \<and> prefix (parts q) (parts p) \<longleftrightarrow>
      (if ?q = ''/'' then prefix ''/'' ?p else ?p = ?q \<or> prefix (?q @ ''/'') ?p)"
    using path_matches_prefix_parts [OF assms(1,2,4)] path_of_as_posix [OF assms(1)] path_of_as_posix [OF assms(2)] posix
    by (simp add: path_matches_prefix_def Let_def)
  have found: "sql_startswith b ?p t" if "prefix t ?p" for b t
    using like_prefix [OF that] like_prefix [of "py_lower t" "py_lower ?p"] that
    by (auto simp: sql_startswith_def sql_ilike_def py_lower_append prefix_def py_lower_def lower_char_def code_point_def)
  have within: "source_path_within_prefix b ?q ?p \<longleftrightarrow>
      (if ?q = ''/'' then sql_startswith b ?p ''/'' else ?p = ?q \<or> sql_startswith b ?p (?q @ ''/''))" for b
    by (simp add: source_path_within_prefix_def norm Let_def)
  have "source_path_within_prefix case_blind ?q ?p" if "root p = root q \<and> prefix (parts q) (parts p)"
    using that found unfolding inside within by (simp split: if_splits) blast
  moreover have "source_path_within_prefix False ?q ?p \<longleftrightarrow> root p = root q \<and> prefix (parts q) (parts p)"
    if "CHR ''%'' \<notin> set ?q" "CHR ''_'' \<notin> set ?q"
  proof -
    have "sql_startswith False ?p ''/'' \<longleftrightarrow> prefix ''/'' ?p" "sql_startswith False ?p (?q @ ''/'') \<longleftrightarrow> prefix (?q @ ''/'') ?p"
      using that like_plain_prefix [of "''/''" ?p] like_plain_prefix [of "?q @ ''/''" ?p]
      by (simp_all add: sql_startswith_def)
    then show ?thesis unfolding inside within by simp
  qed
  ultimately show ?thesis by blast
qed

text \<open>The folder name is not escaped in the \<open>LIKE\<close> pattern: an underscore in it stands for any character, so
  the filter for one folder also lists the files of another.\<close>

theorem folder_filter_wildcard:
  "source_path_within_prefix False ''/media/a_b'' ''/media/axb/film.mkv'' \<and>
   \<not> prefix (parts (path_of ''/media/a_b'')) (parts (path_of ''/media/axb/film.mkv''))"
  by code_simp

subsection \<open>Pages\<close>

lemma pages_take: "concat (map (\<lambda>k. take n (drop (k * n) xs)) [0..<m]) = take (m * n) xs"
  by (induction m) (simp_all add: take_add [symmetric] add.commute [of n])

text \<open>Paging through a listing shows every file once: the pages one after another are the whole listing,
  whose length is the reported count.\<close>

theorem pages_cover_listing:
  assumes "count_files case_blind q d \<le> m * n"
  shows "concat (map (\<lambda>k. list_files case_blind q (Some n) (Some (k * n)) d) [0..<m]) = list_files case_blind q None None d \<and>
    length (list_files case_blind q None None d) = count_files case_blind q d"
  using assms by (simp add: list_files_def page_def count_files_def latest_files_first_def pages_take)

text \<open>A file that waits for a decision is never left out of the review list: a protected file, one whose latest
  failure no later job has dealt with, and one a job or a plan sent to review are listed.\<close>

theorem review_list_complete:
  assumes "f \<in> set (db_files d)"
    and "tf_is_protected f \<or> tf_operator_protected f \<or> tf_lifecycle_state f = FL_MANUAL_REVIEW \<or>
      (\<exists>j\<in>set (db_jobs d). j_tracked_file_id j = tf_id f \<and>
         (j_status j = JS_MANUAL_REVIEW \<or> j_status j = JS_FAILED \<and>
           (\<forall>n\<in>set (db_jobs d). j_tracked_file_id n = tf_id f \<longrightarrow> j_created_at n \<le> j_created_at j)))"
  shows "f \<in> set (list_review_candidates d)"
  using assms
  by (auto simp: list_review_candidates_def latest_files_first_def needs_review_def list_ex_iff not_less)

subsection \<open>Concrete rows\<close>

lemma sample_files_keyed: "files_keyed (sample_db js)"
  by (simp add: files_keyed_def)

lemma file_completed_iff_witness:
  "tf_lifecycle_state (update_file_state_from_execution_result (\<lambda>_. True) (sample_replace_plan True False ''mkv'')
      (sample_failure\<lparr>er_status := ''skipped''\<rparr>) sample_tracked) = FL_COMPLETED"
  using file_completed_iff [of "\<lambda>_. True" "sample_replace_plan True False ''mkv''" "sample_failure\<lparr>er_status := ''skipped''\<rparr>" sample_tracked]
  by (simp add: Let_def)

lemma upsert_keeps_one_row_per_path_witness:
  "\<exists>d' g. upsert_by_path 9 2000 (path_of ''/m/b.mkv'') None (Some 5) None None (sample_db []) = Inr d'
     \<and> get_by_path d' (path_of ''/m/b.mkv'') = Some g \<and> tf_id g = 9"
proof -
  have "get_by_path (sample_db []) (path_of ''/m/b.mkv'') = None"
    by code_simp
  then show ?thesis
    using upsert_keeps_one_row_per_path [OF sample_files_keyed, of 9 "[]" 2000 "path_of ''/m/b.mkv''" None "Some 5" None None]
    by (auto simp: sample_tracked_def)
qed

lemma folder_filter_finds_folder_witness:
  "source_path_within_prefix True ''/media/films'' ''/media/films/a/b.mkv''"
proof -
  let ?p = "path_of ''/media/films/a/b.mkv''" and ?q = "path_of ''/media/films''"
  have facts: "as_posix ?q = ''/media/films''" "as_posix ?p = ''/media/films/a/b.mkv''" "py_strip ''/media/films'' = ''/media/films''"
    "char_of (92::nat) \<notin> set ''/media/films''" "parts ?p = [''media'', ''films'', ''a'', ''b.mkv'']" "parts ?q = [''media'', ''films'']"
    "root ?p = root ?q"
    by code_simp+
  then show ?thesis
    using folder_filter_finds_folder [OF wf_path_of wf_path_of, of "''/media/films/a/b.mkv''" "''/media/films''" True]
    by simp
qed

definition every_file :: file_filter where
  "every_file = \<lparr>ff_lifecycle = None, ff_compliance = None, ff_protected_only = None, ff_path_prefix = None,
     ff_path_search = None, ff_is_4k = None\<rparr>"

lemma pages_cover_listing_witness:
  "length (concat (map (\<lambda>k. list_files True every_file (Some 1) (Some (k * 1)) (sample_db [])) [0..<1])) = 1"
proof -
  have "count_files True every_file (sample_db []) = 1" by code_simp
  then show ?thesis using pages_cover_listing [of True every_file "sample_db []" 1 1] by simp
qed

lemma review_list_complete_witness:
  "sample_tracked \<in> set (list_review_candidates (sample_db [sample_failed_job]))"
  by (rule review_list_complete) (simp_all add: sample_tracked_def)

end
