(* ===== verification/Workers.thy ===== *)
theory Workers
  imports Job_Repository
begin

text \<open>
  Workers (\<open>src/packages/db/encodr_db/repositories/workers.py\<close>) and which of them may take a job
  (\<open>src/packages/db/encodr_db/runtime/dispatch.py\<close>). An operation is a function on the row; the ones
  that look a row up, or make one, work on the database. A payload the database stores as it is given is a
  JSON value.
\<close>

subsection \<open>Dispatch\<close>

definition heartbeat_grace :: int where "heartbeat_grace = 5 * 60 * second"

definition worker_is_dispatchable :: "instant \<Rightarrow> worker \<Rightarrow> bool" where
  "worker_is_dispatchable current w =
     (if \<not> w_enabled w then False
      else if w_worker_type w = LOCAL then w_registration_status w \<noteq> WR_DISABLED
      else if w_registration_status w \<noteq> WR_REGISTERED then False
      else if w_last_health_status w = WH_FAILED then False
      else case w_last_heartbeat_at w of None \<Rightarrow> False | Some h \<Rightarrow> \<not> h < current - heartbeat_grace)"

definition job_allows_worker :: "instant \<Rightarrow> int \<Rightarrow> job \<Rightarrow> worker \<Rightarrow> worker option \<Rightarrow> schedule_error + bool" where
  "job_allows_worker current tz j w preferred =
     (if j_pinned_worker_id j \<noteq> None \<and> j_pinned_worker_id j \<noteq> Some (w_id w) then Inr False
      else if j_preferred_worker_id j \<noteq> None \<and> j_preferred_worker_id j \<noteq> Some (w_id w)
              \<and> (case preferred of None \<Rightarrow> False | Some p \<Rightarrow> worker_is_dispatchable current p) then Inr False
      else if j_requested_worker_type j \<noteq> None \<and> j_requested_worker_type j \<noteq> Some (w_worker_type w) then Inr False
      else case schedule_windows_allow_now (j_schedule_windows j) (current + tz) of
        Inl e \<Rightarrow> Inl e
      | Inr False \<Rightarrow> Inr False
      | Inr True \<Rightarrow>
          if j_ignore_worker_schedule j then Inr True
          else schedule_windows_allow_now (w_schedule_windows w) (current + tz))"

subsection \<open>The repository\<close>

record worker_setup =
  ws_display_name :: string
  ws_preferred_backend :: string
  ws_allow_cpu_fallback :: bool
  ws_max_concurrent_jobs :: int
  ws_schedule_windows :: "schedule_window list option"
  ws_path_mappings :: "json option"
  ws_scratch_path :: "string option"
  ws_host_metadata :: "json option"

text \<open>A row with the defaults of the table.\<close>

definition blank_worker :: "row_id \<Rightarrow> string \<Rightarrow> string \<Rightarrow> worker_type \<Rightarrow> instant \<Rightarrow> worker" where
  "blank_worker i key name t now =
     \<lparr>w_id = i, w_worker_key = key, w_display_name = name, w_worker_type = t, w_enabled = True,
      w_registration_status = WR_UNKNOWN, w_preferred_backend = ''cpu_only'', w_allow_cpu_fallback = True,
      w_max_concurrent_jobs = 1, w_schedule_windows = None, w_path_mappings = None, w_scratch_path = None,
      w_auth_token_hash = None, w_pairing_token_hash = None, w_pairing_requested_at = None,
      w_pairing_expires_at = None, w_onboarding_platform = None, w_install_dir = None, w_host_metadata = None,
      w_capability_payload = None, w_runtime_payload = None, w_binary_payload = None, w_last_seen_at = None,
      w_last_heartbeat_at = None, w_last_health_status = WH_UNKNOWN, w_last_health_summary = None,
      w_last_registration_at = None, w_updated_at = now\<rparr>"

definition get_by_key :: "db \<Rightarrow> string \<Rightarrow> worker option" where
  "get_by_key d key = find (\<lambda>w. w_worker_key w = key) (db_workers d)"

definition get_local_worker :: "db \<Rightarrow> string \<Rightarrow> worker option" where
  "get_local_worker d key = find (\<lambda>w. w_worker_key w = key \<and> w_worker_type w = LOCAL) (db_workers d)"

record worker_report =
  wr_capability :: "json option"
  wr_runtime :: "json option"
  wr_binary :: "json option"
  wr_host :: "json option"
  wr_health :: worker_health_status
  wr_summary :: "string option"

definition registered :: "worker_setup \<Rightarrow> string \<Rightarrow> worker_report \<Rightarrow> instant \<Rightarrow> worker \<Rightarrow> worker" where
  "registered s token r stamp w =
     w\<lparr>w_display_name := ws_display_name s,
       w_registration_status := (if w_enabled w then WR_REGISTERED else WR_DISABLED),
       w_preferred_backend := ws_preferred_backend s, w_allow_cpu_fallback := ws_allow_cpu_fallback s,
       w_max_concurrent_jobs := ws_max_concurrent_jobs s, w_path_mappings := ws_path_mappings s,
       w_scratch_path := ws_scratch_path s, w_auth_token_hash := Some token, w_pairing_token_hash := None,
       w_pairing_requested_at := None, w_pairing_expires_at := None, w_host_metadata := wr_host r,
       w_capability_payload := wr_capability r, w_runtime_payload := wr_runtime r, w_binary_payload := wr_binary r,
       w_last_registration_at := Some stamp, w_last_seen_at := Some stamp, w_last_heartbeat_at := Some stamp,
       w_last_health_status := wr_health r, w_last_health_summary := wr_summary r\<rparr>"

definition register_remote_worker ::
    "row_id \<Rightarrow> instant \<Rightarrow> string \<Rightarrow> worker_setup \<Rightarrow> string \<Rightarrow> worker_report \<Rightarrow> instant \<Rightarrow> db \<Rightarrow> db" where
  "register_remote_worker i now key s token r stamp d =
     (case get_by_key d key of
        None \<Rightarrow> d\<lparr>db_workers := db_workers d @ [registered s token r stamp (blank_worker i key (ws_display_name s) REMOTE now)]\<rparr>
      | Some w \<Rightarrow> put_worker now (registered s token r stamp w) d)"

definition configured :: "bool \<Rightarrow> worker_setup \<Rightarrow> worker \<Rightarrow> worker" where
  "configured enabled s w =
     (let w1 = w\<lparr>w_display_name := ws_display_name s, w_enabled := enabled,
                 w_registration_status := (if enabled then WR_REGISTERED else WR_DISABLED),
                 w_preferred_backend := ws_preferred_backend s, w_allow_cpu_fallback := ws_allow_cpu_fallback s,
                 w_max_concurrent_jobs := ws_max_concurrent_jobs s, w_schedule_windows := ws_schedule_windows s,
                 w_path_mappings := ws_path_mappings s, w_scratch_path := ws_scratch_path s,
                 w_host_metadata := ws_host_metadata s\<rparr>
      in if enabled then w1
         else w1\<lparr>w_last_health_status := WH_UNKNOWN,
                 w_last_health_summary := Some ''Local worker is configured but disabled.''\<rparr>)"

definition upsert_local_worker :: "row_id \<Rightarrow> instant \<Rightarrow> string \<Rightarrow> bool \<Rightarrow> worker_setup \<Rightarrow> db \<Rightarrow> db" where
  "upsert_local_worker i now key enabled s d =
     (case get_local_worker d key of
        None \<Rightarrow> d\<lparr>db_workers := db_workers d @ [configured enabled s (blank_worker i key (ws_display_name s) LOCAL now)]\<rparr>
      | Some w \<Rightarrow> put_worker now (configured enabled s w) d)"

definition pending_remote_worker ::
    "row_id \<Rightarrow> instant \<Rightarrow> string \<Rightarrow> worker_setup \<Rightarrow> string \<Rightarrow> instant \<Rightarrow> instant \<Rightarrow> string \<Rightarrow> string option \<Rightarrow> worker" where
  "pending_remote_worker i now key s token requested expires platform install_dir =
     (blank_worker i key (ws_display_name s) REMOTE now)
       \<lparr>w_preferred_backend := ws_preferred_backend s, w_allow_cpu_fallback := ws_allow_cpu_fallback s,
        w_max_concurrent_jobs := ws_max_concurrent_jobs s, w_schedule_windows := ws_schedule_windows s,
        w_path_mappings := ws_path_mappings s, w_scratch_path := ws_scratch_path s,
        w_pairing_token_hash := Some token, w_pairing_requested_at := Some requested,
        w_pairing_expires_at := Some expires, w_onboarding_platform := Some platform, w_install_dir := install_dir,
        w_last_health_summary := Some ''Worker is waiting to pair with Encodr.'',
        w_host_metadata := Some (JObj [(''expected_platform'', JStr platform)])\<rparr>"

definition create_pending_remote_worker ::
    "row_id \<Rightarrow> instant \<Rightarrow> string \<Rightarrow> worker_setup \<Rightarrow> string \<Rightarrow> instant \<Rightarrow> instant \<Rightarrow> string \<Rightarrow> string option \<Rightarrow> db \<Rightarrow> db" where
  "create_pending_remote_worker i now key s token requested expires platform install_dir d =
     d\<lparr>db_workers := db_workers d @ [pending_remote_worker i now key s token requested expires platform install_dir]\<rparr>"

record worker_changes =
  wc_display_name :: "string option"
  wc_preferred_backend :: "string option"
  wc_allow_cpu_fallback :: "bool option"
  wc_max_concurrent_jobs :: "int option"
  wc_schedule_windows :: "schedule_window list option"
  wc_path_mappings :: "json option"
  wc_scratch_path :: "string option"

definition kept :: "'a option \<Rightarrow> 'a \<Rightarrow> 'a" where
  "kept v old = (case v of None \<Rightarrow> old | Some x \<Rightarrow> x)"

definition kept_option :: "'a option \<Rightarrow> 'a option \<Rightarrow> 'a option" where
  "kept_option v old = (case v of None \<Rightarrow> old | Some x \<Rightarrow> Some x)"

definition update_preferences :: "worker_changes \<Rightarrow> worker \<Rightarrow> worker" where
  "update_preferences c w =
     w\<lparr>w_display_name := kept (wc_display_name c) (w_display_name w),
       w_preferred_backend := kept (wc_preferred_backend c) (w_preferred_backend w),
       w_allow_cpu_fallback := kept (wc_allow_cpu_fallback c) (w_allow_cpu_fallback w),
       w_max_concurrent_jobs := kept (wc_max_concurrent_jobs c) (w_max_concurrent_jobs w),
       w_schedule_windows := kept_option (wc_schedule_windows c) (w_schedule_windows w),
       w_path_mappings := kept_option (wc_path_mappings c) (w_path_mappings w),
       w_scratch_path := kept_option (wc_scratch_path c) (w_scratch_path w)\<rparr>"

definition record_heartbeat :: "instant \<Rightarrow> worker_report \<Rightarrow> worker \<Rightarrow> worker" where
  "record_heartbeat stamp r w =
     w\<lparr>w_last_seen_at := Some stamp, w_last_heartbeat_at := Some stamp, w_last_health_status := wr_health r,
       w_last_health_summary := wr_summary r,
       w_capability_payload := kept_option (wr_capability r) (w_capability_payload w),
       w_runtime_payload := kept_option (wr_runtime r) (w_runtime_payload w),
       w_binary_payload := kept_option (wr_binary r) (w_binary_payload w),
       w_host_metadata := kept_option (wr_host r) (w_host_metadata w)\<rparr>"

definition auth_failed :: "string \<Rightarrow> instant \<Rightarrow> worker \<Rightarrow> worker" where
  "auth_failed reason stamp w =
     w\<lparr>w_registration_status := WR_UNKNOWN, w_last_seen_at := Some stamp, w_last_health_status := WH_FAILED,
       w_last_health_summary := Some (''Worker authentication failed: '' @ reason)\<rparr>"

definition mark_auth_failed :: "instant \<Rightarrow> string \<Rightarrow> string \<Rightarrow> instant \<Rightarrow> db \<Rightarrow> db" where
  "mark_auth_failed now key reason stamp d =
     (case get_by_key d key of
        None \<Rightarrow> d
      | Some w \<Rightarrow> if w_worker_type w \<noteq> REMOTE then d else put_worker now (auth_failed reason stamp w) d)"

definition set_enabled :: "bool \<Rightarrow> worker \<Rightarrow> worker" where
  "set_enabled enabled w =
     (let w1 = w\<lparr>w_enabled := enabled,
                 w_registration_status :=
                   (if enabled then
                      if w_worker_type w = LOCAL then WR_REGISTERED
                      else if w_auth_token_hash w \<noteq> None then WR_REGISTERED else WR_UNKNOWN
                    else WR_DISABLED)\<rparr>
      in if enabled then w1
         else w1\<lparr>w_last_health_status := WH_UNKNOWN,
                 w_last_health_summary := Some (if w_worker_type w = LOCAL then ''Local worker is configured but disabled.''
                   else ''Worker is disabled by an administrator.'')\<rparr>)"

subsection \<open>A worker's state is consistent\<close>

definition consistent_worker :: "worker \<Rightarrow> bool" where
  "consistent_worker w \<longleftrightarrow> (w_registration_status w = WR_DISABLED \<longrightarrow> \<not> w_enabled w) \<and>
     (w_registration_status w = WR_REGISTERED \<longrightarrow> w_enabled w \<and> (w_worker_type w = REMOTE \<longrightarrow> w_auth_token_hash w \<noteq> None))"

lemma worker_ops_consistent:
  "consistent_worker (registered s token r stamp w)"
  "w_worker_type w = LOCAL \<Longrightarrow> consistent_worker (configured e s w)"
  "consistent_worker (pending_remote_worker i now key s token requested expires platform dir)"
  "consistent_worker w \<Longrightarrow> consistent_worker (update_preferences c w)"
  "consistent_worker w \<Longrightarrow> consistent_worker (record_heartbeat stamp r w)"
  "consistent_worker (auth_failed reason stamp w)"
  "consistent_worker (set_enabled e w)"
  by (simp_all add: consistent_worker_def registered_def configured_def pending_remote_worker_def blank_worker_def
      update_preferences_def record_heartbeat_def auth_failed_def set_enabled_def Let_def)

lemma consistent_stamp: "consistent_worker (w\<lparr>w_updated_at := t\<rparr>) = consistent_worker w"
  by (simp add: consistent_worker_def)

lemma put_worker_all:
  assumes "list_all P (db_workers d)" "P w" "\<And>t. P (w\<lparr>w_updated_at := t\<rparr>) = P w"
  shows "list_all P (db_workers (put_worker now w d))"
  using assms by (auto simp: put_worker_def list_all_iff)

text \<open>C37: The operations on workers keep every row consistent: a disabled registration is never an enabled
  worker, and a registered one is enabled and, when remote, holds a token.\<close>

theorem workers_stay_consistent:
  assumes "list_all consistent_worker (db_workers d)"
  shows "list_all consistent_worker (db_workers (register_remote_worker i now key s token r stamp d)) \<and>
    list_all consistent_worker (db_workers (upsert_local_worker i now key e s d)) \<and>
    list_all consistent_worker (db_workers (create_pending_remote_worker i now key s token requested expires platform dir d)) \<and>
    list_all consistent_worker (db_workers (mark_auth_failed now key reason stamp d)) \<and>
    (\<forall>w\<in>set (db_workers d).
       list_all consistent_worker (db_workers (put_worker now (update_preferences c w) d)) \<and>
       list_all consistent_worker (db_workers (put_worker now (record_heartbeat stamp r w) d)) \<and>
       list_all consistent_worker (db_workers (put_worker now (set_enabled e w) d)))"
proof -
  note put = put_worker_all [of consistent_worker, OF assms _ consistent_stamp]
  have reg: "list_all consistent_worker (db_workers (register_remote_worker i now key s token r stamp d))"
    using assms put [OF worker_ops_consistent(1)]
    by (simp add: register_remote_worker_def worker_ops_consistent(1) split: option.split)
  have "w_worker_type w = LOCAL" if "get_local_worker d key = Some w" for w
    using that by (auto simp: get_local_worker_def find_Some_iff)
  then have loc: "list_all consistent_worker (db_workers (upsert_local_worker i now key e s d))"
    using assms put [OF worker_ops_consistent(2)] worker_ops_consistent(2) [of "blank_worker i key (ws_display_name s) LOCAL now"]
    by (simp add: upsert_local_worker_def blank_worker_def split: option.split)
  have auth: "list_all consistent_worker (db_workers (mark_auth_failed now key reason stamp d))"
    using assms put [OF worker_ops_consistent(6)] by (simp add: mark_auth_failed_def split: option.split)
  have "consistent_worker w" if "w \<in> set (db_workers d)" for w using assms that by (simp add: list_all_iff)
  then show ?thesis
    using reg loc auth assms put worker_ops_consistent(3-5,7)
    by (simp add: create_pending_remote_worker_def)
qed

subsection \<open>Who may be given a job\<close>

definition heard :: "worker_report \<times> instant + worker_changes \<Rightarrow> worker \<Rightarrow> worker" where
  "heard e w = (case e of Inl (r, stamp) \<Rightarrow> record_heartbeat stamp r w | Inr c \<Rightarrow> update_preferences c w)"

lemma heard_keeps:
  "w_registration_status (fold heard es w) = w_registration_status w \<and> w_worker_type (fold heard es w) = w_worker_type w"
  by (induction es arbitrary: w)
    (simp_all add: heard_def record_heartbeat_def update_preferences_def split: sum.split prod.split)

text \<open>A worker that may be given jobs is enabled; a remote one is registered, not failed, and was heard
  from in the last five minutes. Once a remote worker fails to authenticate, no heartbeat and no change of
  its preferences makes it eligible again: it has to register anew or be enabled again.\<close>

theorem dispatch_needs_live_worker:
  "(worker_is_dispatchable current w \<longrightarrow>
      w_enabled w \<and> (w_worker_type w = REMOTE \<longrightarrow> w_registration_status w = WR_REGISTERED \<and> w_last_health_status w \<noteq> WH_FAILED \<and>
        (\<exists>h. w_last_heartbeat_at w = Some h \<and> current \<le> h + 5 * 60 * second))) \<and>
   (w_worker_type w = REMOTE \<longrightarrow> \<not> worker_is_dispatchable current (fold heard es (auth_failed reason stamp w)))"
proof
  show "worker_is_dispatchable current w \<longrightarrow>
      w_enabled w \<and> (w_worker_type w = REMOTE \<longrightarrow> w_registration_status w = WR_REGISTERED \<and> w_last_health_status w \<noteq> WH_FAILED \<and>
        (\<exists>h. w_last_heartbeat_at w = Some h \<and> current \<le> h + 5 * 60 * second))"
    by (auto simp: worker_is_dispatchable_def heartbeat_grace_def split: if_splits option.splits)
  have "w_registration_status (fold heard es (auth_failed reason stamp w)) = WR_UNKNOWN \<and>
      w_worker_type (fold heard es (auth_failed reason stamp w)) = w_worker_type w"
    using heard_keeps [of es "auth_failed reason stamp w"] by (simp add: auth_failed_def)
  then show "w_worker_type w = REMOTE \<longrightarrow> \<not> worker_is_dispatchable current (fold heard es (auth_failed reason stamp w))"
    by (simp add: worker_is_dispatchable_def)
qed

definition window_at :: "schedule_window list option \<Rightarrow> local_time \<Rightarrow> bool" where
  "window_at v t \<longleftrightarrow> (case v of None \<Rightarrow> True | Some ws \<Rightarrow> some_window_open ws t)"

lemma stored_schedule_allows: "stored_schedule v \<Longrightarrow> schedule_windows_allow_now v t = Inr (window_at v t)"
  using windows_allow_stored
  by (auto simp: stored_schedule_def window_at_def schedule_windows_allow_now_def split: option.splits)

text \<open>With stored schedules the dispatch check decides, without failing, exactly this: the job is not pinned to
  another worker, its preferred worker is this one or cannot take it, the kind of worker fits, the
  job's windows are open, and the worker's are too unless the job ignores them.\<close>

theorem dispatch_decision:
  assumes "stored_schedule (j_schedule_windows j)" "stored_schedule (w_schedule_windows w)"
  shows "job_allows_worker current tz j w preferred = Inr
    (j_pinned_worker_id j \<in> {None, Some (w_id w)} \<and>
     (j_preferred_worker_id j \<in> {None, Some (w_id w)} \<or>
        \<not> (\<exists>p. preferred = Some p \<and> worker_is_dispatchable current p)) \<and>
     j_requested_worker_type j \<in> {None, Some (w_worker_type w)} \<and>
     window_at (j_schedule_windows j) (current + tz) \<and>
     (j_ignore_worker_schedule j \<or> window_at (w_schedule_windows w) (current + tz)))"
  by (cases "window_at (j_schedule_windows j) (current + tz)")
    (auto simp: job_allows_worker_def stored_schedule_allows [OF assms(1)] stored_schedule_allows [OF assms(2)]
      split: option.splits)

lemma workers_stay_consistent_witness:
  "list_all consistent_worker (db_workers (mark_auth_failed 5 ''k'' ''bad'' 5 (sample_db [])))"
proof -
  have "list_all consistent_worker (db_workers (sample_db []))"
    by (simp add: consistent_worker_def sample_worker_def)
  from workers_stay_consistent [OF this] show ?thesis by blast
qed

lemma dispatch_needs_live_worker_witness:
  "\<not> worker_is_dispatchable 7 (fold heard [Inl (\<lparr>wr_capability = None, wr_runtime = None, wr_binary = None, wr_host = None,
      wr_health = WH_HEALTHY, wr_summary = None\<rparr>, 7)] (auth_failed ''bad'' 5 (sample_worker\<lparr>w_worker_type := REMOTE\<rparr>)))"
  using dispatch_needs_live_worker [of 7 "sample_worker\<lparr>w_worker_type := REMOTE\<rparr>"
      "[Inl (\<lparr>wr_capability = None, wr_runtime = None, wr_binary = None, wr_host = None, wr_health = WH_HEALTHY,
        wr_summary = None\<rparr>, 7)]" "''bad''" 5]
  by simp

lemma dispatch_decision_witness:
  "job_allows_worker 7 0 sample_job sample_worker None = Inr True"
  using dispatch_decision [of sample_job sample_worker 7 0 None]
  by (simp add: stored_schedule_def window_at_def sample_worker_def sample_job_def new_job_def default_options_def Let_def)

end
