(* ===== verification/Orchestration.thy ===== *)
theory Orchestration
  imports Workers
begin

text \<open>
  The periodic pass over the jobs (\<open>src/apps/api/app/services/orchestration.py\<close>): releasing scheduled
  jobs, holding back pending ones outside their windows, and interrupting running jobs whose worker is gone.
  Watched folders and the clean-up of backups are other parts of the pass. \<open>clock\<close> is the time the
  pass reads, \<open>now\<close> the time a write is stamped with.
\<close>

subsection \<open>Scheduled jobs\<close>

definition refresh_step :: "instant \<Rightarrow> instant \<Rightarrow> int \<Rightarrow> row_id \<Rightarrow> db \<Rightarrow> db_error + db" where
  "refresh_step now clock tz i d =
     on_job d i (\<lambda>j.
       if j_status j = JS_SCHEDULED \<and> (case j_scheduled_for_at j of None \<Rightarrow> False | Some t \<Rightarrow> clock < t) then Inr d
       else case schedule_windows_allow_now (j_schedule_windows j) (clock + tz) of
         Inl e \<Rightarrow> Inl (ScheduleError e)
       | Inr True \<Rightarrow> if j_status j = JS_SCHEDULED then promote_scheduled now i d else Inr d
       | Inr False \<Rightarrow>
           if j_schedule_windows j \<in> {None, Some []} then Inr d
           else if j_status j = JS_PENDING \<and> j_assigned_worker_id j = None \<or> j_status j = JS_SCHEDULED then
             (case next_schedule_opening (j_schedule_windows j) (clock + tz) of
                Inl e \<Rightarrow> Inl (ScheduleError e)
              | Inr due \<Rightarrow> mark_scheduled now i (map_option (\<lambda>t. t - tz) due) d)
           else Inr d)"

definition refresh_scheduled_jobs :: "nat \<Rightarrow> instant \<Rightarrow> instant \<Rightarrow> int \<Rightarrow> db \<Rightarrow> db_error + db" where
  "refresh_scheduled_jobs limit now clock tz d =
     each_job (refresh_step now clock tz) (map j_id (list_jobs_for_scheduling limit d)) d"

subsection \<open>Lost workers\<close>

definition contact_grace :: int where "contact_grace = 45 * second"

definition last_contact :: "job \<Rightarrow> instant" where
  "last_contact j =
     (case j_progress_updated_at j of
        Some t \<Rightarrow> t
      | None \<Rightarrow> (case j_started_at j of Some t \<Rightarrow> t | None \<Rightarrow> j_updated_at j))"

definition interruption_reason :: "instant \<Rightarrow> db \<Rightarrow> job \<Rightarrow> string option" where
  "interruption_reason clock d j =
     (if clock - contact_grace \<le> last_contact j then None
      else case Option.bind (j_assigned_worker_id j) (find_worker d) of
        None \<Rightarrow> Some ''Worker assignment was lost before the job completed.''
      | Some w \<Rightarrow>
          if w_worker_type w = REMOTE \<and> worker_is_dispatchable clock w then None
          else if w_worker_type w = LOCAL \<and> w_enabled w then None
          else Some (''The assigned worker went offline or stopped responding. ''
                     @ ''Retry the job to restart it from the beginning.''))"

text \<open>\<open>order_by(asc(started_at), ...)\<close>: where the database puts nulls is left open.\<close>

definition started_key :: "bool \<Rightarrow> job \<Rightarrow> int \<times> int \<times> queue_key" where
  "started_key nulls_first j =
     (case j_started_at j of None \<Rightarrow> (if nulls_first then 0 else 2, 0, queue_key_of j) | Some t \<Rightarrow> (1, t, queue_key_of j))"

definition list_running_jobs :: "bool \<Rightarrow> nat \<Rightarrow> db \<Rightarrow> job list" where
  "list_running_jobs nulls_first limit d =
     take limit (sort_key (started_key nulls_first) (filter (\<lambda>j. j_status j = JS_RUNNING) (db_jobs d)))"

definition interruption_step :: "instant \<Rightarrow> instant \<Rightarrow> row_id \<Rightarrow> db \<Rightarrow> db_error + db" where
  "interruption_step now clock i d =
     on_job d i (\<lambda>j.
       case interruption_reason clock d j of
         None \<Rightarrow> Inr d
       | Some reason \<Rightarrow> mark_interrupted now i clock reason True d)"

definition handle_worker_interruptions :: "bool \<Rightarrow> nat \<Rightarrow> instant \<Rightarrow> instant \<Rightarrow> db \<Rightarrow> db_error + db" where
  "handle_worker_interruptions nulls_first limit now clock d =
     each_job (interruption_step now clock) (map j_id (list_running_jobs nulls_first limit d)) d"

subsection \<open>The schedule pass\<close>

definition refreshed :: "instant \<Rightarrow> int \<Rightarrow> job \<Rightarrow> job" where
  "refreshed clock tz j =
     (if j_status j = JS_SCHEDULED \<and> (\<exists>t. j_scheduled_for_at j = Some t \<and> clock < t) then j
      else if window_at (j_schedule_windows j) (clock + tz) then
        (if j_status j = JS_SCHEDULED then j\<lparr>j_status := JS_PENDING, j_scheduled_for_at := None\<rparr> else j)
      else if j_status j = JS_PENDING \<and> j_assigned_worker_id j = None \<or> j_status j = JS_SCHEDULED then
        j\<lparr>j_status := JS_SCHEDULED,
          j_scheduled_for_at :=
            (case next_schedule_opening (j_schedule_windows j) (clock + tz) of
               Inl _ \<Rightarrow> None | Inr due \<Rightarrow> map_option (\<lambda>t. t - tz) due)\<rparr>
      else j)"

lemma write_job_same:
  assumes "well_keyed d" "find_job d i = Some j" "f j = j"
  shows "write_job now i f d = Inr d"
proof -
  have "put_job now j d = d"
  proof -
    have "map (\<lambda>r. if j_id r = j_id j \<and> r \<noteq> j then j\<lparr>j_updated_at := now\<rparr> else r) (db_jobs d) = db_jobs d"
    proof (rule map_idI)
      fix r assume "r \<in> set (db_jobs d)"
      then have "find_job d (j_id r) = Some r" by (rule find_job_unique [OF assms(1)])
      then show "(if j_id r = j_id j \<and> r \<noteq> j then j\<lparr>j_updated_at := now\<rparr> else r) = r"
        using assms(2) find_job_Some [OF assms(2)] by auto
    qed
    then show ?thesis by (simp add: put_job_def)
  qed
  then show ?thesis using assms by (simp add: write_job_def on_job_def flush_def well_keyed_def)
qed

lemma write_job_cong:
  assumes "find_job d i = Some j" "f j = g j"
  shows "write_job now i f d = write_job now i g d"
  using assms by (simp add: write_job_def on_job_def)

lemma stored_next_opening:
  assumes "stored_schedule v" "\<not> window_at v t"
  shows "\<exists>u. next_schedule_opening v t = Inr (Some u) \<and> t < u \<and> window_at v u \<and> (\<forall>x. t \<le> x \<and> x < u \<longrightarrow> \<not> window_at v x)"
proof -
  obtain ws where ws: "v = Some ws" "ws \<noteq> []" "list_all stored_window ws" "\<not> some_window_open ws t"
    using assms by (auto simp: stored_schedule_def window_at_def split: option.splits)
  obtain u where u: "next_schedule_opening (Some ws) t = Inr (Some u)" "t \<le> u" "some_window_open ws u"
    "\<forall>x. t \<le> x \<and> x < u \<longrightarrow> \<not> some_window_open ws x"
    using first_opening [OF ws(3,2)] by blast
  moreover have "t \<noteq> u" using u(3) ws(4) by auto
  ultimately show ?thesis using ws(1) by (intro exI [of _ u]) (simp add: window_at_def)
qed

lemma refresh_step_write:
  assumes "well_keyed d" "find_job d i = Some j" "stored_schedule (j_schedule_windows j)"
  shows "refresh_step now clock tz i d = write_job now i (refreshed clock tz) d"
proof -
  let ?f = "refreshed clock tz" and ?v = "j_schedule_windows j" and ?t = "clock + tz"
  note allow = stored_schedule_allows [OF assms(3), of ?t]
  note same = write_job_same [OF assms(1,2), of ?f now]
  define later where "later \<longleftrightarrow> j_status j = JS_SCHEDULED \<and> (\<exists>t. j_scheduled_for_at j = Some t \<and> clock < t)"
  have later: "(j_status j = JS_SCHEDULED \<and> (case j_scheduled_for_at j of None \<Rightarrow> False | Some t \<Rightarrow> clock < t)) = later"
    by (simp add: later_def split: option.split)
  have step: "refresh_step now clock tz i d =
      (if later then Inr d
       else if window_at ?v ?t then (if j_status j = JS_SCHEDULED then promote_scheduled now i d else Inr d)
       else if ?v \<in> {None, Some []} then Inr d
       else if j_status j = JS_PENDING \<and> j_assigned_worker_id j = None \<or> j_status j = JS_SCHEDULED then
         (case next_schedule_opening ?v ?t of Inl e \<Rightarrow> Inl (ScheduleError e)
          | Inr due \<Rightarrow> mark_scheduled now i (map_option (\<lambda>t. t - tz) due) d)
       else Inr d)"
    unfolding refresh_step_def on_job_def assms(2) by (simp only: later allow option.case sum.case) (simp split: bool.split)
  have f: "?f j =
      (if later then j
       else if window_at ?v ?t then (if j_status j = JS_SCHEDULED then j\<lparr>j_status := JS_PENDING, j_scheduled_for_at := None\<rparr> else j)
       else if j_status j = JS_PENDING \<and> j_assigned_worker_id j = None \<or> j_status j = JS_SCHEDULED then
         j\<lparr>j_status := JS_SCHEDULED, j_scheduled_for_at := (case next_schedule_opening ?v ?t of
            Inl _ \<Rightarrow> None | Inr due \<Rightarrow> map_option (\<lambda>t. t - tz) due)\<rparr>
       else j)"
    unfolding refreshed_def later_def ..
  consider "later" | "\<not> later" "window_at ?v ?t" "j_status j = JS_SCHEDULED"
    | "\<not> later" "window_at ?v ?t" "j_status j \<noteq> JS_SCHEDULED"
    | "\<not> later" "\<not> window_at ?v ?t" "j_status j = JS_PENDING \<and> j_assigned_worker_id j = None \<or> j_status j = JS_SCHEDULED"
    | "\<not> later" "\<not> window_at ?v ?t" "\<not> (j_status j = JS_PENDING \<and> j_assigned_worker_id j = None \<or> j_status j = JS_SCHEDULED)"
    by blast
  then show ?thesis
  proof cases
    case 2
    then have "?f j = j\<lparr>j_status := JS_PENDING, j_scheduled_for_at := None\<rparr>" by (simp only: f if_False if_True refl)
    then show ?thesis
      using 2 write_job_cong [OF assms(2), of "\<lambda>j. j\<lparr>j_status := JS_PENDING, j_scheduled_for_at := None\<rparr>" ?f now]
      by (simp only: step promote_scheduled_def if_False if_True refl)
  next
    case 4
    obtain u where u: "next_schedule_opening ?v ?t = Inr (Some u)" using stored_next_opening [OF assms(3) 4(2)] by blast
    have v: "?v \<notin> {None, Some []}" using 4(2) assms(3) by (cases ?v) (auto simp: window_at_def stored_schedule_def)
    have "?f j = j\<lparr>j_status := JS_SCHEDULED, j_scheduled_for_at := Some (u - tz)\<rparr>"
      using 4 by (simp only: f if_False if_True u sum.case option.map)
    then have "write_job now i ?f d = mark_scheduled now i (Some (u - tz)) d"
      using write_job_cong [OF assms(2), of "\<lambda>j. j\<lparr>j_status := JS_SCHEDULED, j_scheduled_for_at := Some (u - tz)\<rparr>" ?f now]
      by (simp only: mark_scheduled_def)
    moreover have "refresh_step now clock tz i d = mark_scheduled now i (Some (u - tz)) d"
      using 4 v by (simp only: step if_False if_True u sum.case option.map)
    ultimately show ?thesis by simp
  qed (simp_all only: step f same if_False if_True if_cancel)
qed

lemma taken_ids:
  assumes "distinct (map j_id js)"
  shows "distinct (map j_id (take n (sort_key k (filter P js))))"
    and "set (map j_id (take n (sort_key k (filter P js)))) \<subseteq> j_id ` set js"
    and "j \<in> set js \<Longrightarrow> j_id j \<in> set (map j_id (take n (sort_key k (filter P js)))) \<longleftrightarrow> j \<in> set (take n (sort_key k (filter P js)))"
proof -
  let ?xs = "sort_key k (filter P js)"
  have sub: "set (take n ?xs) \<subseteq> set js" using set_take_subset [of n ?xs] by auto
  have "distinct (map j_id (filter P js))" using assms by (rule distinct_map_filter)
  then have "distinct (map j_id ?xs)" by (simp add: distinct_map)
  then show "distinct (map j_id (take n ?xs))" by (simp add: take_map [symmetric])
  show "set (map j_id (take n ?xs)) \<subseteq> j_id ` set js" using sub by auto
  have "inj_on j_id (set js)" using assms by (simp add: distinct_map)
  then show "j \<in> set js \<Longrightarrow> j_id j \<in> set (map j_id (take n ?xs)) \<longleftrightarrow> j \<in> set (take n ?xs)"
    using sub by (auto dest: inj_onD)
qed

text \<open>A pass that visits some rows in order and writes each of them.\<close>

lemma pass_over_jobs:
  assumes "well_keyed d" and js: "js = take n (sort_key k (filter P (db_jobs d)))"
    and "\<And>j. j_id (f j) = j_id j" "\<And>j. P j \<Longrightarrow> calm f j"
    and "\<And>d' i j. well_keyed d' \<Longrightarrow> find_job d' i = Some j \<Longrightarrow> j \<in> set js \<Longrightarrow> db_workers d' = db_workers d \<Longrightarrow>
      step i d' = write_job now i f d'"
  shows "\<exists>d'. each_job step (map j_id js) d = Inr d' \<and> well_keyed d' \<and> db_workers d' = db_workers d \<and>
    db_jobs d' = map (\<lambda>j. if j \<in> set js then stamped now f j else j) (db_jobs d)"
proof -
  have dist: "distinct (map j_id (db_jobs d))" using assms(1) by (simp add: well_keyed_def)
  note ids = taken_ids [OF dist, where n = n and k = k and P = P, folded js]
  let ?d = "d\<lparr>db_jobs := rewrite_jobs now (set (map j_id js)) f (db_jobs d)\<rparr>"
  have quiet: "calm f j" if "j \<in> set (db_jobs d)" "j_id j \<in> set (map j_id js)" for j
    using ids(3) [OF that(1)] that(2) set_take_subset [of n "sort_key k (filter P (db_jobs d))"] assms(4) js by auto
  have member: "j \<in> set js" if "j \<in> set (db_jobs d)" "j_id j \<in> set (map j_id js)" for j
    using ids(3) [OF that(1)] that(2) by blast
  have "each_job step (map j_id js) d = Inr ?d"
    by (rule each_job_steps [OF assms(1) ids(1,2) assms(3) quiet assms(5) member refl])
  moreover have "well_keyed ?d" by (rule calm_write [OF assms(1) quiet])
  moreover have "db_jobs ?d = map (\<lambda>j. if j \<in> set js then stamped now f j else j) (db_jobs d)"
    using ids(3) by (auto simp: rewrite_jobs_def)
  ultimately show ?thesis by (intro exI [of _ ?d]) simp
qed

lemma refreshed_id [simp]: "j_id (refreshed clock tz j) = j_id j"
  by (simp add: refreshed_def)

lemma refreshed_calm: "j_status j \<in> {JS_PENDING, JS_SCHEDULED} \<Longrightarrow> calm (refreshed clock tz) j"
  by (auto simp: calm_def refreshed_def is_active_def active_job_statuses_def)

text \<open>The schedule pass never fails on stored schedules and writes only the waiting jobs it visits (the
  oldest ones, up to its limit). A scheduled job whose due time has passed becomes pending exactly when its windows are open;
  a scheduled or free pending job outside its windows is scheduled for the first opening, which lies
  ahead.\<close>

theorem schedule_pass:
  assumes "well_keyed d" and "\<forall>j\<in>set (list_jobs_for_scheduling limit d). stored_schedule (j_schedule_windows j)"
  shows "\<exists>d'. refresh_scheduled_jobs limit now clock tz d = Inr d' \<and> well_keyed d' \<and>
    db_jobs d' = map (\<lambda>j. if j \<in> set (list_jobs_for_scheduling limit d) then stamped now (refreshed clock tz) j else j) (db_jobs d) \<and>
    (\<forall>j\<in>set (list_jobs_for_scheduling limit d).
       (\<forall>due. j_status j = JS_SCHEDULED \<and> j_scheduled_for_at j = Some due \<and> clock < due \<longrightarrow> refreshed clock tz j = j) \<and>
       (j_status j = JS_SCHEDULED \<and> \<not> (\<exists>due. j_scheduled_for_at j = Some due \<and> clock < due) \<longrightarrow>
          (j_status (refreshed clock tz j) = JS_PENDING \<longleftrightarrow> window_at (j_schedule_windows j) (clock + tz))) \<and>
       (j_status j = JS_PENDING \<and> j_assigned_worker_id j = None \<and> \<not> window_at (j_schedule_windows j) (clock + tz) \<longrightarrow>
          j_status (refreshed clock tz j) = JS_SCHEDULED \<and>
          (\<exists>due. j_scheduled_for_at (refreshed clock tz j) = Some due \<and> clock < due \<and>
             window_at (j_schedule_windows j) (due + tz) \<and>
             (\<forall>t. clock \<le> t \<and> t < due \<longrightarrow> \<not> window_at (j_schedule_windows j) (t + tz)))))"
proof -
  let ?js = "list_jobs_for_scheduling limit d"
  let ?P = "\<lambda>j. j_status j \<in> {JS_PENDING, JS_SCHEDULED} \<and> j_cleared_at j = None"
  have "\<exists>d'. each_job (refresh_step now clock tz) (map j_id ?js) d = Inr d' \<and> well_keyed d' \<and> db_workers d' = db_workers d \<and>
      db_jobs d' = map (\<lambda>j. if j \<in> set ?js then stamped now (refreshed clock tz) j else j) (db_jobs d)"
  proof (rule pass_over_jobs [OF assms(1), where P = ?P and n = limit and k = queue_key_of])
    show "?js = take limit (sort_key queue_key_of (filter ?P (db_jobs d)))"
      by (simp add: list_jobs_for_scheduling_def in_queue_order_def)
    show "refresh_step now clock tz i d' = write_job now i (refreshed clock tz) d'"
      if "well_keyed d'" "find_job d' i = Some j" "j \<in> set ?js" for d' i j
      using refresh_step_write [OF that(1,2)] assms(2) that(3) by blast
  qed (simp_all add: refreshed_calm)
  then obtain d' where d': "refresh_scheduled_jobs limit now clock tz d = Inr d'" "well_keyed d'"
    "db_jobs d' = map (\<lambda>j. if j \<in> set ?js then stamped now (refreshed clock tz) j else j) (db_jobs d)"
    by (auto simp: refresh_scheduled_jobs_def)
  have held: "j_status (refreshed clock tz j) = JS_SCHEDULED \<and>
          (\<exists>due. j_scheduled_for_at (refreshed clock tz j) = Some due \<and> clock < due \<and>
             window_at (j_schedule_windows j) (due + tz) \<and>
             (\<forall>t. clock \<le> t \<and> t < due \<longrightarrow> \<not> window_at (j_schedule_windows j) (t + tz)))"
    if j: "j \<in> set ?js" "j_status j = JS_PENDING" "j_assigned_worker_id j = None" "\<not> window_at (j_schedule_windows j) (clock + tz)" for j
  proof -
    obtain u where u: "next_schedule_opening (j_schedule_windows j) (clock + tz) = Inr (Some u)" "clock + tz < u"
      "window_at (j_schedule_windows j) u" "\<forall>x. clock + tz \<le> x \<and> x < u \<longrightarrow> \<not> window_at (j_schedule_windows j) x"
      using stored_next_opening [OF _ j(4)] assms(2) j(1) by blast
    have "\<not> window_at (j_schedule_windows j) (t + tz)" if "clock \<le> t" "t < u - tz" for t
      using u(4) [rule_format, of "t + tz"] that by simp
    then show ?thesis using j(2-4) u(1-3) by (simp add: refreshed_def)
  qed
  have "j_status (refreshed clock tz j) = JS_PENDING \<longleftrightarrow> window_at (j_schedule_windows j) (clock + tz)"
    if "j_status j = JS_SCHEDULED" "\<not> (\<exists>due. j_scheduled_for_at j = Some due \<and> clock < due)" for j
    using that by (simp add: refreshed_def)
  moreover have "refreshed clock tz j = j"
    if "j_status j = JS_SCHEDULED" "j_scheduled_for_at j = Some due" "clock < due" for j due
    using that by (simp add: refreshed_def)
  ultimately show ?thesis using d' held by (intro exI [of _ d'] conjI ballI impI allI) blast+
qed

subsection \<open>The interruption pass\<close>

definition interrupted_row :: "instant \<Rightarrow> string \<Rightarrow> job \<Rightarrow> job" where
  "interrupted_row clock reason j =
     j\<lparr>j_status := JS_INTERRUPTED, j_interrupted_at := Some clock, j_interruption_reason := Some reason,
       j_interruption_retryable := True, j_failure_message := Some reason,
       j_failure_category := Some ''worker_interrupted'', j_progress_stage := Some ''interrupted'',
       j_progress_updated_at := Some clock, j_assigned_worker_id := None\<rparr>"

lemma mark_interrupted_row: "mark_interrupted now i clock reason True d = write_job now i (interrupted_row clock reason) d"
  by (simp add: mark_interrupted_def interrupted_row_def [abs_def])

definition interrupted_by :: "instant \<Rightarrow> db \<Rightarrow> job \<Rightarrow> job" where
  "interrupted_by clock d j =
     (case interruption_reason clock d j of None \<Rightarrow> j | Some reason \<Rightarrow> interrupted_row clock reason j)"

lemma interruption_reason_workers:
  "db_workers d' = db_workers d \<Longrightarrow> interruption_reason clock d' j = interruption_reason clock d j"
  by (simp add: interruption_reason_def find_worker_def [abs_def])

lemma interrupted_by_id [simp]: "j_id (interrupted_by clock d j) = j_id j"
  by (simp add: interrupted_by_def interrupted_row_def split: option.split)

lemma interrupted_by_calm: "calm (interrupted_by clock d) j"
  by (simp add: calm_def interrupted_by_def interrupted_row_def is_active_def active_job_statuses_def split: option.split)

lemma interruption_step_write:
  assumes "well_keyed d'" "find_job d' i = Some j" "db_workers d' = db_workers d"
  shows "interruption_step now clock i d' = write_job now i (interrupted_by clock d) d'"
proof (cases "interruption_reason clock d j")
  case None
  then have "interrupted_by clock d j = j" by (simp add: interrupted_by_def)
  then show ?thesis
    using write_job_same [OF assms(1,2), of "interrupted_by clock d" now] None interruption_reason_workers [OF assms(3), of clock j]
    by (simp add: interruption_step_def on_job_def assms(2))
next
  case (Some reason)
  then have "interrupted_row clock reason j = interrupted_by clock d j" by (simp add: interrupted_by_def)
  from write_job_cong [where f = "interrupted_row clock reason" and g = "interrupted_by clock d", OF assms(2) this, of now]
  show ?thesis
    using interruption_reason_workers [OF assms(3), of clock j] Some
    by (simp add: interruption_step_def on_job_def assms(2) mark_interrupted_row)
qed

lemma interruption_pass_spec:
  assumes "well_keyed d"
  shows "\<exists>d'. handle_worker_interruptions nulls_first limit now clock d = Inr d' \<and> well_keyed d' \<and> db_workers d' = db_workers d \<and>
    db_jobs d' = map (\<lambda>j. if j \<in> set (list_running_jobs nulls_first limit d) then stamped now (interrupted_by clock d) j else j) (db_jobs d)"
  unfolding handle_worker_interruptions_def
  by (rule pass_over_jobs [OF assms list_running_jobs_def])
    (simp_all add: interrupted_by_calm interruption_step_write)


text \<open>C29: The interruption pass never fails and changes only the running jobs it visits: such a job is
  interrupted, and free to be retried, exactly when it was silent for more than 45 seconds and its worker
  is gone, or is remote and may not be given jobs, or is local and disabled. Every other row is unchanged.\<close>

theorem interruption_pass:
  assumes "well_keyed d"
  shows "\<exists>d'. handle_worker_interruptions nulls_first limit now clock d = Inr d' \<and> well_keyed d' \<and>
    map j_id (db_jobs d') = map j_id (db_jobs d) \<and>
    (\<forall>j\<in>set (db_jobs d). \<exists>j'. find_job d' (j_id j) = Some j' \<and>
       (if j \<in> set (list_running_jobs nulls_first limit d) \<and> last_contact j < clock - 45 * second \<and>
           (case Option.bind (j_assigned_worker_id j) (find_worker d) of
              None \<Rightarrow> True
            | Some w \<Rightarrow> if w_worker_type w = REMOTE then \<not> worker_is_dispatchable clock w else \<not> w_enabled w)
        then j_status j' = JS_INTERRUPTED \<and> j_assigned_worker_id j' = None \<and> j_interruption_retryable j' \<and>
          j_interrupted_at j' = Some clock
        else j' = j))"
proof -
  let ?js = "list_running_jobs nulls_first limit d"
  let ?g = "\<lambda>j. if j \<in> set ?js then stamped now (interrupted_by clock d) j else j"
  obtain d' where d': "handle_worker_interruptions nulls_first limit now clock d = Inr d'" "well_keyed d'"
    "db_jobs d' = map ?g (db_jobs d)"
    using interruption_pass_spec [OF assms, of nulls_first limit now clock] by blast
  have ids: "map j_id (db_jobs d') = map j_id (db_jobs d)" by (simp add: d'(3) stamped_fields)
  have found: "find_job d' (j_id j) = Some (?g j)" if "j \<in> set (db_jobs d)" for j
  proof -
    have "?g j \<in> set (db_jobs d')" "j_id (?g j) = j_id j" using that by (auto simp: d'(3) stamped_fields)
    then show ?thesis using find_job_unique [OF d'(2), of "?g j"] by simp
  qed
  have reason: "interruption_reason clock d j \<noteq> None \<longleftrightarrow> last_contact j < clock - 45 * second \<and>
      (case Option.bind (j_assigned_worker_id j) (find_worker d) of
         None \<Rightarrow> True
       | Some w \<Rightarrow> if w_worker_type w = REMOTE then \<not> worker_is_dispatchable clock w else \<not> w_enabled w)" for j
  proof -
    show ?thesis
    proof (cases "Option.bind (j_assigned_worker_id j) (find_worker d)")
      case (Some w)
      then show ?thesis by (cases "w_worker_type w") (auto simp: interruption_reason_def contact_grace_def)
    qed (auto simp: interruption_reason_def contact_grace_def)
  qed
  have out: "if interruption_reason clock d j \<noteq> None
      then j_status (stamped now (interrupted_by clock d) j) = JS_INTERRUPTED \<and>
        j_assigned_worker_id (stamped now (interrupted_by clock d) j) = None \<and>
        j_interruption_retryable (stamped now (interrupted_by clock d) j) \<and>
        j_interrupted_at (stamped now (interrupted_by clock d) j) = Some clock
      else stamped now (interrupted_by clock d) j = j" for j
  proof (cases "interruption_reason clock d j")
    case (Some reason)
    then have "interrupted_by clock d j = interrupted_row clock reason j" by (simp add: interrupted_by_def)
    moreover have "j_interruption_retryable (stamped now f k) = j_interruption_retryable (f k)"
      "j_interrupted_at (stamped now f k) = j_interrupted_at (f k)" for f k
      by (simp_all add: stamped_def)
    ultimately show ?thesis by (simp add: Some stamped_fields interrupted_row_def)
  qed (simp add: interrupted_by_def stamped_def)
  show ?thesis
  proof (intro exI [of _ d'] conjI ballI)
    fix j assume j: "j \<in> set (db_jobs d)"
    show "\<exists>j'. find_job d' (j_id j) = Some j' \<and>
       (if j \<in> set ?js \<and> last_contact j < clock - 45 * second \<and>
           (case Option.bind (j_assigned_worker_id j) (find_worker d) of
              None \<Rightarrow> True
            | Some w \<Rightarrow> if w_worker_type w = REMOTE then \<not> worker_is_dispatchable clock w else \<not> w_enabled w)
        then j_status j' = JS_INTERRUPTED \<and> j_assigned_worker_id j' = None \<and> j_interruption_retryable j' \<and>
          j_interrupted_at j' = Some clock
        else j' = j)"
      using found [OF j] out [of j] unfolding reason by (intro exI [of _ "?g j"]) (cases "j \<in> set ?js"; simp)
  qed (use d' ids in simp_all)
qed

text \<open>A job left running by a local worker that crashed is never interrupted while the worker is enabled, at
  whatever time the pass runs: it stays as it is, its file stays blocked, and a worker with one
  slot is given no job at all.\<close>

theorem crashed_local_worker_blocks:
  assumes "well_keyed d" "j \<in> set (db_jobs d)" "j_status j = JS_RUNNING" "j_cleared_at j = None"
    and "j_assigned_worker_id j = Some (w_id w)" "find_worker d (w_id w) = Some w" "w_worker_type w = LOCAL" "w_enabled w"
  shows "\<exists>d'. handle_worker_interruptions nulls_first limit now clock d = Inr d' \<and> find_job d' (j_id j) = Some j \<and>
    has_active_job_for_tracked_file (j_tracked_file_id j) d' \<and>
    (\<exists>d2. claim_pending_for_worker t i w backend 1 d' = Inr (d2, None))"
proof -
  obtain d' where d': "handle_worker_interruptions nulls_first limit now clock d = Inr d'" "well_keyed d'"
    "db_jobs d' = map (\<lambda>j. if j \<in> set (list_running_jobs nulls_first limit d) then stamped now (interrupted_by clock d) j else j) (db_jobs d)"
    using interruption_pass_spec [OF assms(1), of nulls_first limit now clock] by blast
  have "interrupted_by clock d j = j"
    using assms(5-8) by (simp add: interrupted_by_def interruption_reason_def)
  then have mem: "j \<in> set (db_jobs d')" using assms(2) by (force simp: d'(3) stamped_def)
  then have found: "find_job d' (j_id j) = Some j" by (rule find_job_unique [OF d'(2)])
  have active: "has_active_job_for_tracked_file (j_tracked_file_id j) d'"
    using mem assms(3,4) by (auto simp: active_for_file is_active_def active_job_statuses_def)
  have "0 < count_active_assignments_for_worker (w_id w) d'"
    using mem assms(3-5) by (auto simp: count_active_assignments_for_worker_def filter_empty_conv)
  then have "\<exists>d2. claim_pending_for_worker t i w backend 1 d' = Inr (d2, None)"
    by (auto simp: claim_eq [OF d'(2)] split: option.split)
  then show ?thesis using d'(1) found active by blast
qed


subsection \<open>Concrete passes\<close>

definition sample_running :: job where
  "sample_running = claiming 1500 sample_worker None sample_job"

lemma sample_running_fields [simp]:
  "j_id sample_running = 7" "j_status sample_running = JS_RUNNING" "j_cleared_at sample_running = None"
  "j_assigned_worker_id sample_running = Some 1" "j_tracked_file_id sample_running = 3"
  "j_progress_updated_at sample_running = Some 1500"
  by (simp_all add: sample_running_def sample_worker_def) (simp add: claiming_def starting_def)

lemma schedule_pass_witness:
  "\<exists>d'. refresh_scheduled_jobs 200 2000 2000 0 (sample_db [sample_job]) = Inr d'"
proof -
  have "\<forall>j\<in>set (list_jobs_for_scheduling 200 (sample_db [sample_job])). stored_schedule (j_schedule_windows j)"
    by (simp add: list_jobs_for_scheduling_def in_queue_order_def stored_schedule_def)
  from schedule_pass [OF sample_db_well_keyed(2) this, of 2000 2000 0] show ?thesis by blast
qed

lemma interruption_pass_witness:
  "\<exists>d' j'. handle_worker_interruptions True 200 90000000 90000000 (sample_db [sample_running]\<lparr>db_workers := []\<rparr>) = Inr d'
     \<and> find_job d' 7 = Some j' \<and> j_status j' = JS_INTERRUPTED"
proof -
  let ?d = "sample_db [sample_running]\<lparr>db_workers := []\<rparr>"
  have "well_keyed ?d" using sample_db_well_keyed(2) [of sample_running] by (simp add: well_keyed_def)
  from interruption_pass [OF this, of True 200 90000000 90000000]
  show ?thesis
    by (auto simp: list_running_jobs_def last_contact_def second_def find_worker_def)
qed

lemma crashed_local_worker_blocks_witness:
  "\<exists>d'. handle_worker_interruptions True 200 90000000 90000000 (sample_db [sample_running]) = Inr d'
     \<and> find_job d' 7 = Some sample_running"
proof -
  have "w_id sample_worker = 1" "w_worker_type sample_worker = LOCAL" "w_enabled sample_worker"
    by (simp_all add: sample_worker_def)
  then have "\<exists>d'. handle_worker_interruptions True 200 90000000 90000000 (sample_db [sample_running]) = Inr d' \<and>
      find_job d' (j_id sample_running) = Some sample_running \<and>
      has_active_job_for_tracked_file (j_tracked_file_id sample_running) d' \<and>
      (\<exists>d2. claim_pending_for_worker 0 0 sample_worker None 1 d' = Inr (d2, None))"
    by (intro crashed_local_worker_blocks) (simp_all add: find_worker_def)
  then show ?thesis by auto
qed

end
