(* ===== verification/Worker_Execution.thy ===== *)
theory Worker_Execution
  imports Tracked_Files
begin

text \<open>
  One job from claim to result on the local worker (\<open>src/packages/db/encodr_db/runtime/worker.py\<close>,
  \<open>WorkerExecutionService\<close>): run ffmpeg, verify what it left, check it is safe, put it in place, and
  write the result to the job and its file. The file system is that of \<open>Replacement\<close>. \<open>ffmpeg\<close> is
  what running a command does to it, \<open>ffprobe\<close> what probing a file of that content gives; both are
  parameters, like the packet sizes, the random names, the texts of unexpected exceptions and
  the clock. Log records and progress reports are left out.
\<close>

subsection \<open>The world\<close>

record execution_world =
  ew_repr :: "json \<Rightarrow> string"
  ew_windows :: bool
  ew_probes :: "hardware_probe list"
  ew_ffmpeg :: "string list \<Rightarrow> os_state \<Rightarrow> process_outcome option \<times> os_state"
  ew_ffprobe :: "path \<Rightarrow> content \<Rightarrow> probe_error + media_file"
  ew_missing :: "path \<Rightarrow> probe_error"
  ew_packets :: packet_probe
  ew_uuids :: "nat \<Rightarrow> string"
  ew_resolve :: "path \<Rightarrow> path option"
  ew_error_text :: string
  ew_error_type :: string
  ew_dump_verification :: "verification_result \<Rightarrow> json"
  ew_dump_replacement :: "replacement_result \<Rightarrow> json"

definition stat_of :: "os_state \<Rightarrow> path \<Rightarrow> (bool \<times> int) option" where
  "stat_of os p = map_option (\<lambda>c. (True, int (length c))) (files os p)"

definition probe_of :: "execution_world \<Rightarrow> os_state \<Rightarrow> path \<Rightarrow> probe_error + media_file" where
  "probe_of w os p = (case files os p of None \<Rightarrow> Inl (ew_missing w p) | Some c \<Rightarrow> ew_ffprobe w p c)"

definition file_size_or_none :: "os_state \<Rightarrow> path option \<Rightarrow> int option" where
  "file_size_or_none os p =
     (case p of
        None \<Rightarrow> None
      | Some q \<Rightarrow> (case stat_of os q of None \<Rightarrow> None | Some (is_file, bytes) \<Rightarrow> if is_file then Some bytes else None))"

definition delete_file_if_present :: "path option \<Rightarrow> os_state \<Rightarrow> os_state" where
  "delete_file_if_present p os =
     (case p of
        None \<Rightarrow> os
      | Some q \<Rightarrow> if exists_file os q then snd (os_unlink q os) else os)"

subsection \<open>Results\<close>

record settlement =
  st_status :: string
  st_message :: "string option"
  st_category :: "string option"
  st_output :: "path option"
  st_final :: "path option"
  st_backup :: "path option"
  st_savings :: media_savings
  st_verification :: "verification_result option"
  st_replacement :: "replacement_result option"

definition settle :: "execution_result \<Rightarrow> instant \<Rightarrow> instant \<Rightarrow> settlement \<Rightarrow> full_result" where
  "settle r started completed s =
     \<lparr>er_mode = er_mode r, er_status = st_status s, er_command = er_command r, er_output_path = st_output s,
      er_exit_code = er_exit_code r, er_stdout = er_stdout r, er_stderr = er_stderr r,
      er_failure_message = st_message s, er_failure_category = st_category s,
      er_requested_backend = er_requested_backend r, er_actual_backend = er_actual_backend r,
      er_actual_accelerator = er_actual_accelerator r, er_backend_fallback_used = er_backend_fallback_used r,
      er_backend_selection_reason = er_backend_selection_reason r, er_final_output_path = st_final s,
      er_original_backup_path = st_backup s, er_savings = st_savings s, er_analysis_payload = None,
      er_verification = st_verification s, er_replacement = st_replacement s, er_started_at = started,
      er_completed_at = completed\<rparr>"

text \<open>A result as the runner made it.\<close>

definition unsettled :: "execution_result \<Rightarrow> instant \<Rightarrow> instant \<Rightarrow> full_result" where
  "unsettled r started completed =
     settle r started completed
       \<lparr>st_status = er_status r, st_message = er_failure_message r, st_category = er_failure_category r,
        st_output = er_output_path r, st_final = None, st_backup = None, st_savings = no_savings,
        st_verification = None, st_replacement = None\<rparr>"

definition exclusion_text :: "exclusion \<Rightarrow> string" where
  "exclusion_text e =
     (case e of
        BACKUP_FILE \<Rightarrow> ''Encodr backup files are managed separately and cannot be processed.''
      | RESTORED_REPLACEMENT \<Rightarrow> ''Encodr restored replacement files cannot be queued for processing.''
      | TEMP_FILE \<Rightarrow> ''Encodr temporary or staged output files cannot be processed.''
      | SCRATCH_FILE \<Rightarrow> ''Encodr scratch workspace files cannot be processed.'')"

definition blocked_artifact_result ::
    "execution_world \<Rightarrow> path \<Rightarrow> path option \<Rightarrow> instant \<Rightarrow> instant \<Rightarrow> full_result option" where
  "blocked_artifact_result w src scratch started now =
     (case encodr_exclusion_reason (ew_resolve w) src scratch of
        None \<Rightarrow> None
      | Some reason \<Rightarrow>
          Some (settle (idle_result ''blocked'' ''skipped'') started now
            \<lparr>st_status = ''skipped'', st_message = Some (exclusion_text reason),
             st_category = Some ''excluded_encodr_artifact'', st_output = None, st_final = None, st_backup = None,
             st_savings = no_savings, st_verification = Some not_required,
             st_replacement = Some replacement_not_required\<rparr>))"

subsection \<open>Verify and place\<close>

definition size_or :: "int option \<Rightarrow> int option \<Rightarrow> int option" where
  "size_or a b = (case a of None \<Rightarrow> b | Some n \<Rightarrow> if n = 0 then b else Some n)"

definition unmeasured :: "string \<Rightarrow> media_savings" where
  "unmeasured why =
     no_savings\<lparr>output_video_bitrate := no_measurement\<lparr>bm_unavailable_reason := Some
         (''output_video_bitrate_bps is unavailable because '' @ why)\<rparr>,
       compression_reduction_unavailable_reason := Some (''compression_reduction_percent is unavailable because '' @ why)\<rparr>"

definition probe_media_savings ::
    "(path \<Rightarrow> probe_error + media_file) option \<Rightarrow> packet_probe \<Rightarrow> media_file \<Rightarrow> path \<Rightarrow> media_savings" where
  "probe_media_savings client packets source out =
     (case client of
        None \<Rightarrow> unmeasured ''no ffprobe client was available to measure the staged output.''
      | Some probe \<Rightarrow>
          (case probe out of
             Inl e \<Rightarrow> unmeasured (''ffprobe could not probe the staged output ('' @ pe_kind e @ '').'')
           | Inr m \<Rightarrow> calculate_media_savings packets source m))"

definition category_text :: "safety_category \<Rightarrow> string" where
  "category_text c =
     (case c of
        OUTPUT_LARGER_THAN_INPUT \<Rightarrow> ''output_larger_than_input''
      | SAFETY_UNMEASURABLE \<Rightarrow> ''compression_safety_unmeasurable''
      | SAFETY_BITRATE_FLOOR \<Rightarrow> ''compression_safety_bitrate_floor''
      | SAFETY_EXCEEDED \<Rightarrow> ''compression_safety_exceeded'')"

definition compression_safety_failure ::
    "processing_plan \<Rightarrow> media_savings \<Rightarrow> execution_result \<Rightarrow> verification_result \<Rightarrow> instant \<Rightarrow> instant
     \<Rightarrow> full_result option" where
  "compression_safety_failure p metrics staged v started now =
     (case evaluate_execution_safety p metrics of
        None \<Rightarrow> None
      | Some f \<Rightarrow>
          Some (settle staged started now
            \<lparr>st_status = ''manual_review'', st_message = Some (sf_message f),
             st_category = Some (category_text (sf_category f)), st_output = er_output_path staged, st_final = None,
             st_backup = None, st_savings = metrics, st_verification = Some v,
             st_replacement = Some replacement_not_required\<rparr>))"

text \<open>What \<open>except Exception\<close> makes of an error that placement does not handle itself.\<close>

definition unexpected_placement_failure :: "execution_world \<Rightarrow> path \<Rightarrow> path \<Rightarrow> os_state \<Rightarrow> replacement_result" where
  "unexpected_placement_failure w src staged os =
     \<lparr>rr_status = R_FAILED, rr_final_output_path = None, rr_original_backup_path = None,
      rr_deleted_original_source = False,
      rr_failure_message = Some ''Verified output placement failed unexpectedly.'',
      rr_details =
        [(''operation'', JStr ''place_verified_output''), (''source_path'', JStr (as_posix src)),
         (''staged_output_path'', JStr (as_posix staged)), (''exception_type'', JStr (ew_error_type w)),
         (''exception_message'', JStr (ew_error_text w)), (''source_exists'', JBool (exists_file os src)),
         (''staged_output_exists'', JBool (exists_file os staged))]\<rparr>"

text \<open>\<open>None\<close>: the search for a free temporary name does not end.\<close>

definition verify_and_place ::
    "execution_world \<Rightarrow> instant \<Rightarrow> instant \<Rightarrow> processing_plan \<Rightarrow> media_file \<Rightarrow> execution_result \<Rightarrow> os_state
     \<Rightarrow> (full_result \<times> os_state) option" where
  "verify_and_place w started now p media staged os =
     (case er_output_path staged of
        None \<Rightarrow>
          Some (settle staged started now
            \<lparr>st_status = ''failed'', st_message = Some ''The execution runner did not produce a staged output path.'',
             st_category = Some ''execution_failed'', st_output = None, st_final = None, st_backup = None,
             st_savings = no_savings,
             st_verification = Some \<lparr>vr_status = FAILED, vr_passed = False, vr_checks = [], vr_warnings = [],
               vr_failures = [], vr_output_summary = None\<rparr>,
             st_replacement = Some replacement_not_required\<rparr>, os)
      | Some out \<Rightarrow>
          let v = verify_output (stat_of os) (probe_of w os) out p media;
              metrics = probe_media_savings (Some (probe_of w os)) (ew_packets w) media out;
              source_size = size_or (input_size_bytes metrics) (file_size_or_none os (Some (file_path media)));
              staged_metrics = metrics\<lparr>input_size_bytes := source_size,
                                       output_size_bytes := file_size_or_none os (Some out)\<rparr>
          in
          if \<not> vr_passed v then
            Some (settle staged started now
              \<lparr>st_status = ''failed'',
               st_message = Some (case vr_failures v of [] \<Rightarrow> ''Output verification failed.'' | f # _ \<Rightarrow> iss_message f),
               st_category = Some ''verification_failed'', st_output = Some out, st_final = None, st_backup = None,
               st_savings = staged_metrics, st_verification = Some v,
               st_replacement = Some replacement_not_required\<rparr>, os)
          else
            let safety_metrics = metrics\<lparr>input_size_bytes := source_size,
                  output_size_bytes := size_or (output_size_bytes metrics) (output_size_bytes staged_metrics)\<rparr>
            in case compression_safety_failure p safety_metrics staged v started now of
              Some r \<Rightarrow> Some (r, os)
            | None \<Rightarrow>
                let placed =
                  (case place_verified_output (ew_uuids w) (file_path media) out p os of
                     Loops \<Rightarrow> None
                   | Done r os1 \<Rightarrow> Some (r, os1)
                   | ValueFailure os1 \<Rightarrow> Some (unexpected_placement_failure w (file_path media) out os1, os1)
                   | Thrown _ os1 \<Rightarrow> Some (unexpected_placement_failure w (file_path media) out os1, os1))
                in case placed of
                  None \<Rightarrow> None
                | Some (r, os1) \<Rightarrow>
                    if rr_status r \<noteq> R_SUCCEEDED then
                      Some (settle staged started now
                        \<lparr>st_status = ''failed'',
                         st_message = Some (or_text (rr_failure_message r) ''Verified output placement failed.''),
                         st_category = Some ''replacement_failed'', st_output = Some out,
                         st_final = rr_final_output_path r, st_backup = rr_original_backup_path r,
                         st_savings = staged_metrics, st_verification = Some v, st_replacement = Some r\<rparr>, os1)
                    else
                      Some (settle staged started now
                        \<lparr>st_status = ''completed'', st_message = None, st_category = None, st_output = Some out,
                         st_final = rr_final_output_path r, st_backup = rr_original_backup_path r,
                         st_savings = metrics\<lparr>input_size_bytes := source_size,
                           output_size_bytes := size_or (file_size_or_none os1 (rr_final_output_path r))
                             (output_size_bytes staged_metrics)\<rparr>,
                         st_verification = Some v, st_replacement = Some r\<rparr>, os1))"

subsection \<open>Executing a job\<close>

text \<open>The run: the result or the error of the runner, what it ran, and the file system afterwards.\<close>

definition run_plan ::
    "execution_world \<Rightarrow> processing_plan \<Rightarrow> path \<Rightarrow> path \<Rightarrow> string \<Rightarrow> string option \<Rightarrow> string option \<Rightarrow> bool \<Rightarrow> os_state
     \<Rightarrow> (runner_error + execution_result) \<times> os_state" where
  "run_plan w p input scratch ffmpeg_path job_id preferred allow_fallback os =
     (execute_plan (ew_repr w) (ew_windows w) (ew_probes w) (\<lambda>cmd. fst (ew_ffmpeg w cmd os)) p input scratch
        ffmpeg_path job_id preferred allow_fallback,
      case build_execution_command_plan (ew_repr w) (ew_windows w) (ew_probes w) p input scratch ffmpeg_path job_id
             preferred allow_fallback of
        Inl _ \<Rightarrow> os
      | Inr c \<Rightarrow> if action p \<in> {SKIP, MANUAL_REVIEW} then os else snd (ew_ffmpeg w (ec_command c) os))"

text \<open>The details an execution error carries: those of the command and, once it ran, of the process.\<close>

definition error_result :: "string \<Rightarrow> execution_command_plan \<Rightarrow> process_outcome option \<Rightarrow> execution_result" where
  "error_result mode c r =
     \<lparr>er_mode = mode, er_status = mode, er_command = ec_command c, er_output_path = None,
      er_exit_code = map_option po_exit_code r, er_stdout = map_option po_stdout r, er_stderr = map_option po_stderr r,
      er_failure_message = None, er_failure_category = None, er_requested_backend = ec_requested_backend c,
      er_actual_backend = ec_actual_backend c, er_actual_accelerator = ec_actual_accelerator c,
      er_backend_fallback_used = ec_fallback_used c, er_backend_selection_reason = ec_backend_selection_reason c\<rparr>"

definition cancelled_result :: "execution_command_plan \<Rightarrow> process_outcome option \<Rightarrow> instant \<Rightarrow> instant \<Rightarrow> full_result" where
  "cancelled_result c r started now =
     unsettled ((error_result ''cancelled'' c r)\<lparr>er_output_path := ec_output_path c,
       er_failure_message := Some ''Cancelled by operator.'', er_failure_category := Some ''cancelled_by_operator''\<rparr>)
       started now"

definition failed_result :: "string \<Rightarrow> execution_result \<Rightarrow> instant \<Rightarrow> instant \<Rightarrow> full_result" where
  "failed_result message r started now =
     unsettled (r\<lparr>er_failure_message := Some message, er_failure_category := Some ''execution_failed''\<rparr>) started now"

definition execute_and_settle ::
    "execution_world \<Rightarrow> processing_plan \<Rightarrow> media_file \<Rightarrow> path \<Rightarrow> string \<Rightarrow> string option \<Rightarrow> string option \<Rightarrow> bool
     \<Rightarrow> instant \<Rightarrow> instant \<Rightarrow> instant \<Rightarrow> os_state \<Rightarrow> (full_result \<times> os_state) option" where
  "execute_and_settle w p media scratch ffmpeg_path job_id preferred allow_fallback job_started run_started now os =
     (case run_plan w p (file_path media) scratch ffmpeg_path job_id preferred allow_fallback os of
        (Inr r, os1) \<Rightarrow>
          if er_status r = ''staged'' then verify_and_place w run_started now p media r os1
          else Some (unsettled r run_started now, os1)
      | (Inl (ClientError e), os1) \<Rightarrow>
          (case build_execution_command_plan (ew_repr w) (ew_windows w) (ew_probes w) p (file_path media) scratch
                  ffmpeg_path job_id preferred allow_fallback of
             Inl _ \<Rightarrow> Some (failed_result (ew_error_text w) (idle_result ''failed'' ''failed'') job_started now, os1)
           | Inr c \<Rightarrow>
               let r = fst (ew_ffmpeg w (ec_command c) os) in
               case e of
                 ExecutionCancelledError _ \<Rightarrow>
                   Some (cancelled_result c r job_started now, delete_file_if_present (ec_output_path c) os1)
               | FFmpegBinaryNotFoundError \<Rightarrow>
                   Some (failed_result ''ffmpeg binary could not be found.'' (error_result ''failed'' c r) job_started now, os1)
               | FFmpegProcessError _ \<Rightarrow>
                   Some (failed_result ''ffmpeg returned a non-zero exit status.'' (error_result ''failed'' c r) job_started now, os1))
      | (Inl LookupFailure, os1) \<Rightarrow>
          Some (failed_result (ew_error_text w) (idle_result ''failed'' ''failed'') job_started now, os1))"

datatype job_run = NoSuchJob | Hangs | Raised db_error os_state | Finished full_result db os_state

definition store_result ::
    "execution_world \<Rightarrow> instant \<Rightarrow> row_id \<Rightarrow> processing_plan \<Rightarrow> full_result \<Rightarrow> os_state \<Rightarrow> db \<Rightarrow> job_run" where
  "store_result w now jid p r os d =
     (case find_job d jid of
        None \<Rightarrow> NoSuchJob
      | Some j \<Rightarrow>
          (case mark_result (ew_dump_verification w) (ew_dump_replacement w) now jid r d of
             Inl e \<Rightarrow> Raised e os
           | Inr d1 \<Rightarrow>
               (case find_file d1 (j_tracked_file_id j) of
                  None \<Rightarrow> Raised MissingRow os
                | Some f \<Rightarrow>
                    Finished r (put_file now (update_file_state_from_execution_result (exists_file os) p r f) d1) os)))"

definition execute_job ::
    "execution_world \<Rightarrow> processing_plan \<Rightarrow> media_file \<Rightarrow> path \<Rightarrow> string \<Rightarrow> string option \<Rightarrow> bool
     \<Rightarrow> row_id \<Rightarrow> string \<Rightarrow> instant \<Rightarrow> instant \<Rightarrow> os_state \<Rightarrow> db \<Rightarrow> job_run" where
  "execute_job w p media scratch ffmpeg_path preferred allow_fallback jid jid_text run_started now os d =
     (case find_job d jid of
        None \<Rightarrow> NoSuchJob
      | Some j \<Rightarrow>
          let job_started = (case j_started_at j of None \<Rightarrow> now | Some t \<Rightarrow> t) in
          case blocked_artifact_result w (file_path media) (Some scratch) job_started now of
            Some r \<Rightarrow> store_result w now jid p r os d
          | None \<Rightarrow>
              (case execute_and_settle w p media scratch ffmpeg_path (Some jid_text) preferred allow_fallback
                      job_started run_started now os of
                 None \<Rightarrow> Hangs
               | Some (r, os1) \<Rightarrow> store_result w now jid p r os1 d))"

text \<open>The backup policy of the job overrides what the plan says about the replaced source.\<close>

definition apply_job_backup_policy :: "processing_plan \<Rightarrow> job \<Rightarrow> processing_plan" where
  "apply_job_backup_policy p j =
     (let policy = py_lower (py_strip (or_str (Some (j_backup_policy j)) ''keep''));
          delete = (if policy \<in> {''delete_after_success'', ''no_backup'', ''delete_backup_after_success''} then True
                    else if policy \<in> {''keep'', ''keep_backup'', ''keep_for_1_day'', ''keep_for_one_day''} then False
                    else j_delete_replaced_source j)
      in p\<lparr>plan_replace := (plan_replace p)\<lparr>delete_replaced_source := delete\<rparr>\<rparr>)"

definition job_is_locally_compatible ::
    "execution_world \<Rightarrow> processing_plan \<Rightarrow> string \<Rightarrow> bool \<Rightarrow> backend_error + bool" where
  "job_is_locally_compatible w p preferred allow_fallback =
     (if \<not> transcode_required (plan_video p) then Inr True
      else case select_execution_backend (ew_repr w) (ew_windows w) (ew_probes w) (Some preferred) allow_fallback
                  (target_codec (plan_video p)) of
        Inl (BackendSelectionError _ _ _) \<Rightarrow> Inr False
      | Inl e \<Rightarrow> Inl e
      | Inr _ \<Rightarrow> Inr True)"

definition effective_preferred_backend :: "job \<Rightarrow> string \<Rightarrow> string" where
  "effective_preferred_backend j default_backend =
     normalise_backend_preference_key (Some (or_str (j_preferred_backend_override j) default_backend))"

subsection \<open>A staged output is kept apart from the source\<close>

lemma name_suffix_shape:
  "name_suffix n = [] \<or> (\<exists>e. name_suffix n = CHR ''.'' # e \<and> e \<noteq> [] \<and> CHR ''.'' \<notin> set e)"
proof (cases "split_dot n")
  case (Some x)
  obtain a b where x: "x = (a, b)" by (cases x)
  let ?t = "rev (takeWhile (\<lambda>c. c \<noteq> CHR ''.'') (rev n))"
  have "CHR ''.'' \<notin> set ?t" by (auto dest: set_takeWhileD)
  moreover have "b = CHR ''.'' # ?t \<and> ?t \<noteq> []"
  proof -
    let ?s = "takeWhile (\<lambda>c. c \<noteq> CHR ''.'') (rev n)"
    have dot: "CHR ''.'' \<in> set n" and ne: "?s \<noteq> []" and b: "b = drop (length n - Suc (length ?s)) n"
      using Some unfolding x by (auto simp: split_dot_def Let_def split: if_splits)
    have "dropWhile (\<lambda>c. c \<noteq> CHR ''.'') (rev n) \<noteq> []" using dot by (auto simp: dropWhile_eq_Nil_conv)
    then obtain rest where "dropWhile (\<lambda>c. c \<noteq> CHR ''.'') (rev n) = CHR ''.'' # rest"
      using hd_dropWhile [of "\<lambda>c. c \<noteq> CHR ''.''" "rev n"] by (metis list.collapse)
    then have "rev n = ?s @ CHR ''.'' # rest" using takeWhile_dropWhile_id [of "\<lambda>c. c \<noteq> CHR ''.''" "rev n"] by simp
    then have n: "n = rev rest @ CHR ''.'' # rev ?s" by (metis append.assoc append_Cons append_Nil rev.simps(2) rev_append rev_rev_ident)
    then have "length n = length rest + Suc (length ?s)" by (metis length_Cons length_append length_rev)
    then have "length n - Suc (length ?s) = length (rev rest)" by simp
    then have "b = CHR ''.'' # rev ?s" using b n by (metis append_eq_conv_conj)
    then show ?thesis using ne by simp
  qed
  ultimately show ?thesis using Some x by (auto simp: name_suffix_def)
qed (simp add: name_suffix_def)

lemma staged_apart:
  assumes "wf_path input" "path_name input \<noteq> []" "case job_id of None \<Rightarrow> True | Some j \<Rightarrow> CHR ''/'' \<notin> set j"
    and "encodr_exclusion_reason resolve input sd = None"
  shows "separate_paths input (build_temp_output_path input scratch target job_id)"
proof -
  let ?n = "temp_output_name input target job_id"
  let ?out = "build_temp_output_path input scratch target job_id"
  have name: "path_name ?out = ?n" by (simp add: temp_output_shape [OF assms(1-3)] path_name_def)
  have "\<not> py_in ''.tmp.'' (py_lower (path_name input))"
    using assms(4) by (auto simp: encodr_exclusion_reason_def Let_def split: if_splits)
  then have "?out \<noteq> input" using temp_tag_in_name [of input target job_id] name by auto
  moreover have "build_backup_path input \<noteq> Some ?out"
  proof
    assume "build_backup_path input = Some ?out"
    then have "?n = path_stem input @ ''.encodr-backup'' @ path_suffix input"
      using with_name_name name by (force simp: build_backup_path_def)
    moreover define x where "x = path_stem input @ ''.'' @ or_str job_id ''pending'' @ ''.tmp''"
    moreover have n: "?n = x @ CHR ''.'' # output_container_value target" by (simp add: x_def temp_output_name_def)
    ultimately have eq: "x @ CHR ''.'' # output_container_value target = (path_stem input @ ''.encodr-backup'') @ path_suffix input"
      by simp
    have ext: "output_container_value target \<noteq> []" "CHR ''.'' \<notin> set (output_container_value target)"
      "last (output_container_value target) \<noteq> CHR ''p''" by (cases target; simp)+
    have ne: "x \<noteq> []" "path_stem input \<noteq> []" using assms(2) by (simp_all add: x_def path_stem_def name_stem_nonempty)
    from name_suffix_shape [of "path_name input"] show False
    proof
      assume "name_suffix (path_name input) = []"
      then have "last (x @ CHR ''.'' # output_container_value target) = CHR ''p''"
        unfolding eq by (simp add: path_suffix_def)
      then show False using ext(1,3) by simp
    next
      assume "\<exists>e. name_suffix (path_name input) = CHR ''.'' # e \<and> e \<noteq> [] \<and> CHR ''.'' \<notin> set e"
      then obtain e where e: "path_suffix input = CHR ''.'' # e" "e \<noteq> []" "CHR ''.'' \<notin> set e"
        by (auto simp: path_suffix_def)
      have "name_stem (x @ CHR ''.'' # output_container_value target) = x" by (rule name_stem_ext [OF ne(1) ext(1,2)])
      moreover have "name_stem ((path_stem input @ ''.encodr-backup'') @ CHR ''.'' # e) = path_stem input @ ''.encodr-backup''"
        by (rule name_stem_ext) (simp_all add: e)
      ultimately have "x = path_stem input @ ''.encodr-backup''" using eq e(1) by simp
      then have "last (butlast (rev (take 2 (rev x)))) = last (butlast (rev (take 2 (rev (path_stem input @ ''.encodr-backup'')))))" by simp
      then show False by (simp add: x_def)
    qed
  qed
  ultimately show ?thesis by (simp add: separate_paths_def)
qed

subsection \<open>What a result says\<close>

lemma settle_fields [simp]:
  "er_status (settle r a b s) = st_status s" "er_output_path (settle r a b s) = st_output s"
  "er_final_output_path (settle r a b s) = st_final s" "er_original_backup_path (settle r a b s) = st_backup s"
  "er_verification (settle r a b s) = st_verification s" "er_replacement (settle r a b s) = st_replacement s"
  "er_savings (settle r a b s) = st_savings s" "er_failure_category (settle r a b s) = st_category s"
  "er_completed_at (settle r a b s) = b" "er_started_at (settle r a b s) = a"
  by (simp_all add: settle_def)

lemma unsettled_fields [simp]:
  "er_status (unsettled r a b) = er_status r" "er_output_path (unsettled r a b) = er_output_path r"
  "er_replacement (unsettled r a b) = None" "er_verification (unsettled r a b) = None"
  "er_final_output_path (unsettled r a b) = None" "er_completed_at (unsettled r a b) = b"
  by (simp_all add: unsettled_def)

text \<open>The measurements the safety check looks at.\<close>

definition safety_view :: "execution_world \<Rightarrow> media_file \<Rightarrow> path \<Rightarrow> os_state \<Rightarrow> media_savings" where
  "safety_view w media out os =
     (let metrics = probe_media_savings (Some (probe_of w os)) (ew_packets w) media out
      in metrics\<lparr>input_size_bytes := size_or (input_size_bytes metrics) (file_size_or_none os (Some (file_path media))),
                 output_size_bytes := size_or (output_size_bytes metrics) (file_size_or_none os (Some out))\<rparr>)"

text \<open>The outcomes of verifying and placing.\<close>

lemma verify_and_place_cases:
  assumes "verify_and_place w a b p media r os = Some (res, os')"
  obtains (rejected) "er_status res \<in> {''failed'', ''manual_review''}" "os' = os"
      "er_replacement res = Some replacement_not_required"
  | (placed) out c m v where "er_output_path r = Some out" "er_output_path res = Some out" "files os out = Some c" "c \<noteq> []"
      "ew_ffprobe w out c = Inr m" "all_checks p media m" "evaluate_execution_safety p (safety_view w media out os) = None"
      "er_verification res = Some (verify_output (stat_of os) (probe_of w os) out p media)"
      "vr_passed (verify_output (stat_of os) (probe_of w os) out p media)"
      "er_replacement res = Some v" "er_final_output_path res = rr_final_output_path v"
      "er_status res = (if rr_status v = R_SUCCEEDED then ''completed'' else ''failed'')"
      "(place_verified_output (ew_uuids w) (file_path media) out p os = Done v os'
        \<or> rr_status v = R_FAILED \<and> (place_verified_output (ew_uuids w) (file_path media) out p os = ValueFailure os'
             \<or> (\<exists>e. place_verified_output (ew_uuids w) (file_path media) out p os = Thrown e os')))"
proof (cases "er_output_path r")
  case None
  then show thesis using assms by (intro rejected) (auto simp: verify_and_place_def)
next
  case (Some out)
  let ?v = "verify_output (stat_of os) (probe_of w os) out p media"
  show thesis
  proof (cases "vr_passed ?v")
    case False
    then show thesis using assms Some by (intro rejected) (auto simp: verify_and_place_def Let_def)
  next
    case True
    then obtain m where m: "is_non_empty_output (stat_of os) out" "probe_of w os out = Inr m" "all_checks p media m"
      by (auto simp: verify_output_passed)
    from m(1) obtain c where c: "files os out = Some c" "c \<noteq> []"
      by (auto simp: is_non_empty_output_def stat_of_def split: option.splits)
    then have probe: "ew_ffprobe w out c = Inr m" using m(2) by (simp add: probe_of_def)
    show thesis
    proof (cases "evaluate_execution_safety p (safety_view w media out os)")
      case (Some f)
      then show thesis using assms True \<open>er_output_path r = Some out\<close>
        by (intro rejected) (auto simp: verify_and_place_def Let_def compression_safety_failure_def safety_view_def)
    next
      case None
      then have run: "verify_and_place w a b p media r os =
          (case (case place_verified_output (ew_uuids w) (file_path media) out p os of
                     Loops \<Rightarrow> None
                   | Done r os1 \<Rightarrow> Some (r, os1)
                   | ValueFailure os1 \<Rightarrow> Some (unexpected_placement_failure w (file_path media) out os1, os1)
                   | Thrown _ os1 \<Rightarrow> Some (unexpected_placement_failure w (file_path media) out os1, os1)) of
             None \<Rightarrow> None
           | Some (v, os1) \<Rightarrow> Some (settle r a b
               (let metrics = probe_media_savings (Some (probe_of w os)) (ew_packets w) media out;
                    source_size = size_or (input_size_bytes metrics) (file_size_or_none os (Some (file_path media)));
                    staged_metrics = metrics\<lparr>input_size_bytes := source_size,
                                       output_size_bytes := file_size_or_none os (Some out)\<rparr>
                in if rr_status v \<noteq> R_SUCCEEDED then
                  \<lparr>st_status = ''failed'',
                   st_message = Some (or_text (rr_failure_message v) ''Verified output placement failed.''),
                   st_category = Some ''replacement_failed'', st_output = Some out,
                   st_final = rr_final_output_path v, st_backup = rr_original_backup_path v,
                   st_savings = staged_metrics, st_verification = Some ?v, st_replacement = Some v\<rparr>
                 else
                  \<lparr>st_status = ''completed'', st_message = None, st_category = None, st_output = Some out,
                   st_final = rr_final_output_path v, st_backup = rr_original_backup_path v,
                   st_savings = metrics\<lparr>input_size_bytes := source_size,
                     output_size_bytes := size_or (file_size_or_none os1 (rr_final_output_path v))
                       (output_size_bytes staged_metrics)\<rparr>,
                   st_verification = Some ?v, st_replacement = Some v\<rparr>), os1))"
        using True Some
        by (simp add: verify_and_place_def Let_def compression_safety_failure_def safety_view_def split: run.split option.split)
      have fail: "rr_status (unexpected_placement_failure w (file_path media) out os1) = R_FAILED" for os1
        by (simp add: unexpected_placement_failure_def)
      show thesis
        using assms fail c probe m(3) None True Some unfolding run
        by (cases "place_verified_output (ew_uuids w) (file_path media) out p os")
          (auto intro!: placed simp: Let_def)
    qed
  qed
qed

lemma with_result_fields [simp]:
  "j_id (with_result dv dr st r j) = j_id j" "j_tracked_file_id (with_result dv dr st r j) = j_tracked_file_id j"
  "j_status (with_result dv dr st r j) = st" "j_assigned_worker_id (with_result dv dr st r j) = None"
  "j_cleared_at (with_result dv dr st r j) = j_cleared_at j"
  "j_completed_at (with_result dv dr st r j) = Some (er_completed_at r)"
  "j_verification_status (with_result dv dr st r j) = verification_status_for_result r"
  "j_replacement_status (with_result dv dr st r j) = replacement_status_for_result r"
  by (simp_all add: with_result_def Let_def split: option.split)

definition result_statuses :: "string set" where
  "result_statuses = {''completed'', ''failed'', ''skipped'', ''manual_review'', ''cancelled''}"

lemma status_of_result_total:
  "s \<in> result_statuses \<Longrightarrow> \<exists>st. status_of_result s = Some st \<and> st \<notin> set active_job_statuses"
  by (auto simp: result_statuses_def status_of_result_def active_job_statuses_def)

lemma with_result_calm: "st \<notin> set active_job_statuses \<Longrightarrow> calm (with_result dv dr st r) j"
  by (simp add: calm_def is_active_def)

lemma stamped_outcome:
  "j_verification_status (stamped now f j) = j_verification_status (f j)"
  "j_replacement_status (stamped now f j) = j_replacement_status (f j)"
  "j_completed_at (stamped now f j) = j_completed_at (f j)"
  by (simp_all add: stamped_def)

text \<open>Storing a settled result: the job leaves the queue, the file gets the state of the result.\<close>

lemma store_result_spec:
  assumes "well_keyed d" "find_job d jid = Some j" "find_file d (j_tracked_file_id j) = Some f"
    and "er_status r \<in> result_statuses"
  shows "\<exists>d' j' g t. store_result w now jid p r os d = Finished r d' os \<and> well_keyed d' \<and>
    map j_id (db_jobs d') = map j_id (db_jobs d) \<and>
    find_job d' jid = Some j' \<and> status_of_result (er_status r) = Some (j_status j') \<and> \<not> is_active j' \<and>
    j_assigned_worker_id j' = None \<and> j_completed_at j' = Some (er_completed_at r) \<and>
    j_verification_status j' = verification_status_for_result r \<and>
    j_replacement_status j' = replacement_status_for_result r \<and> j_tracked_file_id j' = j_tracked_file_id j \<and>
    find_file d' (j_tracked_file_id j) = Some g \<and>
    g = (update_file_state_from_execution_result (exists_file os) p r f)\<lparr>tf_updated_at := t\<rparr>"
proof -
  obtain st where st: "status_of_result (er_status r) = Some st" "st \<notin> set active_job_statuses"
    using status_of_result_total [OF assms(4)] by blast
  let ?f = "with_result (ew_dump_verification w) (ew_dump_replacement w) st r"
  let ?d1 = "d\<lparr>db_jobs := rewrite_jobs now {jid} ?f (db_jobs d)\<rparr>"
  note wr = calm_write_job [OF assms(1,2) with_result_calm [OF st(2)]]
  have mark: "mark_result (ew_dump_verification w) (ew_dump_replacement w) now jid r d = Inr ?d1"
    using wr(1) st(1) by (simp add: mark_result_def)
  have found: "find_job ?d1 jid = Some (stamped now ?f j)"
    using assms(2) by (simp add: find_job_def find_rewrite)
  have ff: "find_file ?d1 (j_tracked_file_id j) = Some f" using assms(3) by (simp add: find_file_def)
  let ?g = "update_file_state_from_execution_result (exists_file os) p r f"
  have "tf_id ?g = j_tracked_file_id j"
    using find_file_Some [OF ff] by (simp add: update_file_state_from_execution_result_def processed_under_def Let_def)
  from find_put_file [OF ff this] obtain t where
    t: "find_file (put_file now ?g ?d1) (j_tracked_file_id j) = Some (?g\<lparr>tf_updated_at := t\<rparr>)" by blast
  let ?d' = "put_file now ?g ?d1"
  have "store_result w now jid p r os d = Finished r ?d' os"
    using assms(2) mark ff by (simp add: store_result_def)
  moreover have "well_keyed ?d'" using wr(2) by (simp add: well_keyed_def)
  moreover have "map j_id (db_jobs ?d') = map j_id (db_jobs d)" by (simp add: rewrite_ids)
  moreover have "find_job ?d' jid = Some (stamped now ?f j)" using found by (simp add: find_job_def)
  moreover have "\<not> is_active (stamped now ?f j)" using st(2) by (simp add: stamped_fields is_active_def)
  ultimately show ?thesis using t st(1) by (intro exI conjI) (assumption | simp add: stamped_fields stamped_outcome)+
qed

lemma run_plan_staged:
  assumes "run_plan w p input scratch ff job pref allow os = (Inr r, os1)" "er_status r = ''staged''"
  shows "er_output_path r = Some (build_temp_output_path input scratch (target_container (plan_container p)) job)"
  using assms
  by (cases "action p")
     (auto simp: run_plan_def execute_plan_def build_execution_command_plan_def idle_result_def no_command_def
        ffmpeg_run_def Let_def split: sum.splits backend_error.splits option.splits if_splits)

lemma run_plan_status:
  assumes "run_plan w p input scratch ff job pref allow os = (Inr r, os1)"
  shows "er_status r = ''staged'' \<or> er_status r \<in> {''failed'', ''skipped'', ''manual_review''}"
  using assms
  by (auto simp: run_plan_def execute_plan_def idle_result_def ffmpeg_run_def Let_def
        split: sum.splits backend_error.splits option.splits if_splits)

text \<open>The outcomes of a run: nothing was placed, or the verified output was.\<close>

lemma execute_and_settle_cases:
  assumes "execute_and_settle w p media scratch ff job pref allow t0 a b os = Some (res, os')"
  obtains (unplaced) "er_status res \<in> {''failed'', ''manual_review'', ''skipped'', ''cancelled''}"
      "os' = snd (run_plan w p (file_path media) scratch ff job pref allow os) \<or>
       os' = delete_file_if_present (Some (build_temp_output_path (file_path media) scratch (target_container (plan_container p)) job))
               (snd (run_plan w p (file_path media) scratch ff job pref allow os))"
  | (placed) r where "run_plan w p (file_path media) scratch ff job pref allow os = (Inr r, snd (run_plan w p (file_path media) scratch ff job pref allow os))"
      "er_status r = ''staged''"
      "verify_and_place w a b p media r (snd (run_plan w p (file_path media) scratch ff job pref allow os)) = Some (res, os')"
proof -
  obtain x os1 where run: "run_plan w p (file_path media) scratch ff job pref allow os = (x, os1)" by (cases "run_plan w p (file_path media) scratch ff job pref allow os")
  show thesis
  proof (cases x)
    case (Inr r)
    show thesis
    proof (cases "er_status r = ''staged''")
      case True
      then show thesis using assms run Inr by (intro placed) (auto simp: execute_and_settle_def)
    next
      case False
      then show thesis using assms run Inr run_plan_status [OF run [unfolded Inr]]
        by (intro unplaced) (auto simp: execute_and_settle_def)
    qed
  next
    case (Inl e)
    have out: "ec_output_path c = Some (build_temp_output_path (file_path media) scratch (target_container (plan_container p)) job)
        \<or> ec_output_path c = None"
      if "build_execution_command_plan (ew_repr w) (ew_windows w) (ew_probes w) p (file_path media) scratch ff job pref allow = Inr c" for c
      using that by (cases "action p") (auto simp: build_execution_command_plan_def no_command_def Let_def split: sum.splits)
    show thesis
      using assms run Inl
      by (intro unplaced)
         (auto simp: execute_and_settle_def cancelled_result_def failed_result_def error_result_def idle_result_def Let_def
            delete_file_if_present_def dest!: out split: runner_error.splits execution_error.splits sum.splits)
  qed
qed

subsection \<open>The whole job\<close>

text \<open>What running the command leaves: the file system the output is verified in.\<close>

definition after_run ::
    "execution_world \<Rightarrow> processing_plan \<Rightarrow> media_file \<Rightarrow> path \<Rightarrow> string \<Rightarrow> string option \<Rightarrow> bool \<Rightarrow> string \<Rightarrow> os_state \<Rightarrow> os_state" where
  "after_run w p media scratch ffmpeg_path preferred allow_fallback jid_text os =
     snd (run_plan w p (file_path media) scratch ffmpeg_path (Some jid_text) preferred allow_fallback os)"

definition staged_path :: "processing_plan \<Rightarrow> media_file \<Rightarrow> path \<Rightarrow> string \<Rightarrow> path" where
  "staged_path p media scratch jid_text =
     build_temp_output_path (file_path media) scratch (target_container (plan_container p)) (Some jid_text)"

lemma blocked_result_status: "blocked_artifact_result w src sd a b = Some r \<Longrightarrow> er_status r = ''skipped'' \<and>
    er_replacement r = Some replacement_not_required"
  by (auto simp: blocked_artifact_result_def split: option.splits)

lemma not_blocked_apart:
  assumes "blocked_artifact_result w (file_path media) (Some scratch) a b = None"
    and "wf_path (file_path media)" "path_name (file_path media) \<noteq> []" "CHR ''/'' \<notin> set jid_text"
  shows "separate_paths (file_path media) (staged_path p media scratch jid_text)"
  unfolding staged_path_def
  by (rule staged_apart [where resolve = "ew_resolve w" and sd = "Some scratch"])
     (use assms in \<open>auto simp: blocked_artifact_result_def split: option.splits\<close>)

text \<open>A finished job in one of three ways.\<close>

lemma execute_job_cases:
  assumes "execute_job w p media scratch ff pref allow jid jt a b os d = Finished r d' os'"
    and "wf_path (file_path media)" "path_name (file_path media) \<noteq> []" "CHR ''/'' \<notin> set jt"
  obtains (blocked) "er_status r = ''skipped''" "os' = os" "store_result w b jid p r os' d = Finished r d' os'"
  | (unplaced) "er_status r \<in> result_statuses - {''completed''}" "store_result w b jid p r os' d = Finished r d' os'"
      "os' = after_run w p media scratch ff pref allow jt os \<or>
       os' = delete_file_if_present (Some (staged_path p media scratch jt)) (after_run w p media scratch ff pref allow jt os)"
      "separate_paths (file_path media) (staged_path p media scratch jt)"
  | (placed) c m v where "files (after_run w p media scratch ff pref allow jt os) (staged_path p media scratch jt) = Some c" "c \<noteq> []"
      "er_output_path r = Some (staged_path p media scratch jt)"
      "ew_ffprobe w (staged_path p media scratch jt) c = Inr m" "all_checks p media m"
      "evaluate_execution_safety p (safety_view w media (staged_path p media scratch jt) (after_run w p media scratch ff pref allow jt os)) = None"
      "er_replacement r = Some v" "er_final_output_path r = rr_final_output_path v"
      "\<exists>x. er_verification r = Some x \<and> vr_passed x \<and> vr_status x = PASSED"
      "er_status r = (if rr_status v = R_SUCCEEDED then ''completed'' else ''failed'')"
      "place_verified_output (ew_uuids w) (file_path media) (staged_path p media scratch jt) p (after_run w p media scratch ff pref allow jt os) = Done v os' \<or>
       rr_status v = R_FAILED \<and>
         (place_verified_output (ew_uuids w) (file_path media) (staged_path p media scratch jt) p (after_run w p media scratch ff pref allow jt os) = ValueFailure os' \<or>
         (\<exists>e. place_verified_output (ew_uuids w) (file_path media) (staged_path p media scratch jt) p (after_run w p media scratch ff pref allow jt os) = Thrown e os'))"
      "store_result w b jid p r os' d = Finished r d' os'"
      "separate_paths (file_path media) (staged_path p media scratch jt)"
proof -
  obtain j where j: "find_job d jid = Some j"
    using assms(1) by (auto simp: execute_job_def split: option.splits)
  define t0 where "t0 = (case j_started_at j of None \<Rightarrow> b | Some t \<Rightarrow> t)"
  have same: "x = r \<and> o1 = os'" if "store_result w b jid p x o1 d = Finished r d' os'" for x o1
    using that by (auto simp: store_result_def split: option.splits sum.splits)
  show thesis
  proof (cases "blocked_artifact_result w (file_path media) (Some scratch) t0 b")
    case (Some x)
    then have st: "store_result w b jid p x os d = Finished r d' os'"
      using assms(1) j by (simp add: execute_job_def t0_def)
    then show thesis using same [OF st] blocked_result_status [OF Some] by (intro blocked) auto
  next
    case None
    note apart = not_blocked_apart [OF None assms(2-4), of p]
    obtain x o1 where x: "execute_and_settle w p media scratch ff (Some jt) pref allow t0 a b os = Some (x, o1)"
      and st: "store_result w b jid p x o1 d = Finished r d' os'"
      using assms(1) j None by (auto simp: execute_job_def t0_def split: option.splits)
    have xr: "x = r" "o1 = os'" using same [OF st] by simp_all
    from x [unfolded xr] show thesis
    proof (cases rule: execute_and_settle_cases)
      case unplaced
      then show thesis
        using that(2) st xr apart by (auto simp: result_statuses_def after_run_def staged_path_def)
    next
      case (placed r0)
      note run = run_plan_staged [OF placed(1,2)]
      from placed(3) show thesis
      proof (cases rule: verify_and_place_cases)
        case rejected
        then show thesis using that(2) st xr apart by (auto simp: result_statuses_def after_run_def)
      next
        case (placed out c m v)
        have out: "out = staged_path p media scratch jt" using placed(1) run by (simp add: staged_path_def)
        let ?v = "verify_output (stat_of (after_run w p media scratch ff pref allow jt os))
          (probe_of w (after_run w p media scratch ff pref allow jt os)) out p media"
        have "vr_status ?v = PASSED"
          using placed(9) by (auto simp: verify_output_def failed_early_def Let_def after_run_def split: sum.splits prod.splits if_splits)
        then have "\<exists>x. er_verification r = Some x \<and> vr_passed x \<and> vr_status x = PASSED"
          using placed(8,9) by (auto simp: after_run_def)
        then show thesis
          using that(3) placed st xr apart by (auto simp: out after_run_def)
      qed
    qed
  qed
qed

text \<open>C1: A job is reported as completed only when its output was checked and is in place: the file ffmpeg left in
  the scratch folder was probed and passed every check against the plan, no safety guard applied, and
  exactly that content is now at the reported path. The job then reads completed, verified and
  replaced, and its file completed and compliant.\<close>

theorem completed_job_is_verified_and_placed:
  assumes "execute_job w p media scratch ff pref allow jid jt a b os d = Finished r d' os'" "er_status r = ''completed''"
    and "wf_path (file_path media)" "path_name (file_path media) \<noteq> []" "CHR ''/'' \<notin> set jt" "well_keyed d"
  shows "\<exists>c m final j' g.
    files (after_run w p media scratch ff pref allow jt os) (staged_path p media scratch jt) = Some c \<and>
    ew_ffprobe w (staged_path p media scratch jt) c = Inr m \<and> all_checks p media m \<and>
    evaluate_execution_safety p
      (safety_view w media (staged_path p media scratch jt) (after_run w p media scratch ff pref allow jt os)) = None \<and>
    er_final_output_path r = Some final \<and> files os' final = Some c \<and>
    find_job d' jid = Some j' \<and> j_status j' = JS_COMPLETED \<and> j_verification_status j' = DV_PASSED \<and>
    j_replacement_status j' = DR_SUCCEEDED \<and>
    find_file d' (j_tracked_file_id j') = Some g \<and> tf_lifecycle_state g = FL_COMPLETED \<and> tf_compliance_state g = CS_COMPLIANT"
  using assms(1,3-5)
proof (cases rule: execute_job_cases)
  case (placed c m v)
  have ok: "rr_status v = R_SUCCEEDED" using placed(10) assms(2) by (auto split: if_splits)
  then have "place_verified_output (ew_uuids w) (file_path media) (staged_path p media scratch jt) p
      (after_run w p media scratch ff pref allow jt os) = Done v os'" using placed(11) by simp
  from placed_output [OF this placed(13) ok] obtain final where
    final: "rr_final_output_path v = Some final" "files os' final = Some c" using placed(1) by auto
  obtain j f where j: "find_job d jid = Some j" "find_file d (j_tracked_file_id j) = Some f"
  proof -
    from placed(12) obtain j d1 f where "find_job d jid = Some j"
      "mark_result (ew_dump_verification w) (ew_dump_replacement w) b jid r d = Inr d1"
      "find_file d1 (j_tracked_file_id j) = Some f"
      by (auto simp: store_result_def split: option.splits sum.splits)
    moreover have "db_files d1 = db_files d"
      using calculation(2) by (auto simp: mark_result_def write_job_def on_job_Inr flush_Inr put_job_def split: option.splits)
    ultimately show thesis using that by (simp add: find_file_def)
  qed
  obtain d2 j' g t where s: "store_result w b jid p r os' d = Finished r d2 os'" "find_job d2 jid = Some j'"
    "status_of_result (er_status r) = Some (j_status j')" "j_verification_status j' = verification_status_for_result r"
    "j_replacement_status j' = replacement_status_for_result r" "find_file d2 (j_tracked_file_id j) = Some g"
    "g = (update_file_state_from_execution_result (exists_file os') p r f)\<lparr>tf_updated_at := t\<rparr>"
    "j_tracked_file_id j' = j_tracked_file_id j"
    using store_result_spec [OF assms(6) j, of r w b p os'] assms(2) by (auto simp: result_statuses_def)
  have d2: "d2 = d'" using s(1) placed(12) by simp
  have "result_marks_file_processed (exists_file os') r"
    using assms(2) placed(7,8) ok final by (simp add: result_marks_file_processed_def exists_file_def)
  then have "tf_lifecycle_state g = FL_COMPLETED" "tf_compliance_state g = CS_COMPLIANT"
    unfolding s(7) by (simp_all add: update_file_state_from_execution_result_def processed_under_def Let_def)
  moreover have "j_status j' = JS_COMPLETED" using s(3) assms(2) by (simp add: status_of_result_def)
  moreover have "j_verification_status j' = DV_PASSED" "j_replacement_status j' = DR_SUCCEEDED"
    using s(4,5) placed(7,9) ok by (auto simp: verification_status_for_result_def replacement_status_for_result_def)
  ultimately show ?thesis
    using placed(1,4-6,8) final s(2,6) by (auto simp: s(8) d2)
qed (use assms(2) in \<open>auto simp: result_statuses_def\<close>)

lemma files_delete_if_present:
  "x \<noteq> q \<Longrightarrow> files (delete_file_if_present (Some q) os) x = files os x"
  by (auto simp: delete_file_if_present_def os_unlink_def split: os_fault.splits option.splits)

lemma finish_not_value_failure: "finish_in_place p src staged final backup temp os \<noteq> ValueFailure os'"
  by (auto simp: finish_in_place_def Let_def split_beta split: sum.splits if_splits option.splits)

lemma backup_source_not_value_failure: "backup_source p src staged final backup temp os \<noteq> ValueFailure os'"
  by (auto simp: backup_source_def Let_def split_beta finish_not_value_failure split: option.splits)

text \<open>The service turns its own errors into results; a value error comes before anything is touched.\<close>

lemma place_not_thrown: "place_verified_output uuids src staged p os \<noteq> Thrown e os'"
  by (auto simp: place_verified_output_def split: run.splits)

lemma value_failure_unchanged:
  assumes "place_verified_output uuids src staged p os = ValueFailure os'" "files os staged \<noteq> None"
  shows "os' = os"
proof (cases "in_place (plan_replace p)")
  case True
  then have "replace_in_place uuids p src staged os = ValueFailure os'"
    using assms by (auto simp: place_verified_output_def exists_file_def split: run.splits if_splits)
  then show ?thesis
    by (cases rule: in_place_cases) (metis backup_source_not_value_failure run.distinct run.inject(1))+
next
  case False
  then have "place_alongside_original p src staged os = ValueFailure os'"
    using assms by (auto simp: place_verified_output_def exists_file_def split: run.splits if_splits)
  then show ?thesis using assms(2) by (cases rule: alongside_cases) auto
qed

lemma placed_status:
  assumes "place_verified_output uuids src staged p os = Done v os'" "separate_paths src staged"
  shows "rr_status v \<noteq> R_NOT_REQUIRED"
  using assms(1)
proof (cases rule: place_cases)
  case ok
  show ?thesis
  proof (cases "in_place (plan_replace p)")
    case True
    then have "replace_in_place uuids p src staged os = Done v os'" using ok(2) by simp
    then show ?thesis
    proof (cases rule: in_place_cases)
      case (direct final backup)
      show ?thesis
        using backup_source_Done(1) [OF direct(6) [symmetric] in_place_layout(1) [OF assms(2) ok(1) direct(1-3)]] by simp
    next
      case (aside final backup t b u os1)
      show ?thesis
        using backup_source_Done(1) [OF aside(11) [symmetric] in_place_layout(2) [OF assms(2) ok(1) aside(1-3,7,8)]] by simp
    qed simp_all
  next
    case False
    then have "place_alongside_original p src staged os = Done v os'" using ok(2) by simp
    then show ?thesis using ok(1) by (cases rule: alongside_cases) auto
  qed
qed simp_all


lemma verify_and_place_returns:
  assumes "finite (dom (files os))" "inj (ew_uuids w)"
  shows "verify_and_place w a b p media r os \<noteq> None"
  using placement_returns [OF assms]
  by (auto simp: verify_and_place_def Let_def split: option.splits run.split)

lemma execute_and_settle_returns:
  assumes "finite (dom (files (snd (run_plan w p (file_path media) scratch ff job pref allow os))))" "inj (ew_uuids w)"
  shows "execute_and_settle w p media scratch ff job pref allow t0 a b os \<noteq> None"
  using verify_and_place_returns [where w = w] assms
  by (auto simp: execute_and_settle_def Let_def split: prod.split sum.split runner_error.split execution_error.split)

lemma execute_and_settle_status:
  assumes "execute_and_settle w p media scratch ff job pref allow t0 a b os = Some (res, os')"
  shows "er_status res \<in> result_statuses"
  using assms
proof (cases rule: execute_and_settle_cases)
  case (placed r)
  from placed(3) show ?thesis
    by (cases rule: verify_and_place_cases) (auto simp: result_statuses_def)
qed (auto simp: result_statuses_def)


text \<open>The job, not the plan, decides about the replaced source: whatever the policy was when the file was
  planned, it is deleted after success exactly when the job that was created for the plan has the
  backup policy that says so.\<close>

theorem job_backup_policy_decides:
  assumes "j_backup_policy j = normalise_backup_policy v"
  shows "delete_replaced_source (plan_replace (apply_job_backup_policy p j)) \<longleftrightarrow>
      normalise_backup_policy v = ''delete_after_success''"
    "apply_job_backup_policy (apply_job_backup_policy p j) j = apply_job_backup_policy p j"
proof -
  have k: "py_lower (py_strip x) = x" if "x \<in> {''keep'', ''delete_after_success'', ''keep_for_1_day''}" for x
    using that by (elim insertE emptyE) (simp_all, code_simp+)
  show "delete_replaced_source (plan_replace (apply_job_backup_policy p j)) \<longleftrightarrow>
      normalise_backup_policy v = ''delete_after_success''"
    using normalise_backup_policy_range [of v] k [OF normalise_backup_policy_range [of v]]
    by (auto simp: apply_job_backup_policy_def Let_def assms)
  show "apply_job_backup_policy (apply_job_backup_policy p j) j = apply_job_backup_policy p j"
    by (simp add: apply_job_backup_policy_def Let_def)
qed

subsection \<open>A concrete run\<close>

definition sample_world :: execution_world where
  "sample_world =
     \<lparr>ew_repr = no_repr, ew_windows = False, ew_probes = sample_probes,
      ew_ffmpeg = (\<lambda>cmd os. (sample_spawn cmd, os\<lparr>files := (files os)(path_of (last cmd) \<mapsto> ''new'')\<rparr>)),
      ew_ffprobe = (\<lambda>p c. Inr sample_output), ew_missing = (\<lambda>p. \<lparr>pe_kind = ''ProbeError'', pe_message = [], pe_dict = []\<rparr>),
      ew_packets = Some (\<lambda>p i. Some (if p = path_of ''/media/tv/a.mkv'' then 1000 else 900)), ew_uuids = (\<lambda>_. ''u''), ew_resolve = Some, ew_error_text = [], ew_error_type = [],
      ew_dump_verification = (\<lambda>_. JNull), ew_dump_replacement = (\<lambda>_. JNull)\<rparr>"

definition sample_plan :: processing_plan where
  "sample_plan = projr (build_processing_plan sample_old_codec (sample_bundle None) None)"

definition sample_disk :: os_state where
  "sample_disk = \<lparr>files = [file_path sample_old_codec \<mapsto> ''old''], fault_at = (\<lambda>_. NoFault), calls = 0\<rparr>"

definition sample_execution :: job_run where
  "sample_execution = execute_job sample_world sample_plan sample_old_codec (path_of ''/scratch'') ''ffmpeg'' (Some ''cpu_only'') True
     7 ''7'' 2000 3000 sample_disk (sample_db [sample_job])"

definition sample_staged :: path where
  "sample_staged = path_of ''/scratch/a.7.tmp.mkv''"

definition sample_after :: os_state where
  "sample_after = sample_disk\<lparr>files := (files sample_disk)(sample_staged \<mapsto> ''new'')\<rparr>"

lemma sample_command:
  "case build_execution_command_plan no_repr False sample_probes sample_plan (file_path sample_old_codec) (path_of ''/scratch'')
      ''ffmpeg'' (Some ''7'') (Some ''cpu_only'') True of
     Inr c \<Rightarrow> last (ec_command c) = ''/scratch/a.7.tmp.mkv'' | _ \<Rightarrow> False"
  "case action sample_plan of TRANSCODE \<Rightarrow> True | _ \<Rightarrow> False"
  "staged_path sample_plan sample_old_codec (path_of ''/scratch'') ''7'' = sample_staged"
  by code_simp+

lemma sample_run_staged:
  "case run_plan sample_world sample_plan (file_path sample_old_codec) (path_of ''/scratch'') ''ffmpeg'' (Some ''7'') (Some ''cpu_only'') True
      sample_disk of (Inr r, os1) \<Rightarrow> er_status r = ''staged'' | _ \<Rightarrow> False"
  by code_simp

lemma sample_verified:
  "vr_passed (verify_output (stat_of sample_after) (probe_of sample_world sample_after) sample_staged sample_plan sample_old_codec)"
  by code_simp

lemma sample_safe:
  "Option.is_none (evaluate_execution_safety sample_plan (safety_view sample_world sample_old_codec sample_staged sample_after))"
  by code_simp

lemma sample_placed:
  "case place_verified_output (ew_uuids sample_world) (file_path sample_old_codec) sample_staged sample_plan sample_after of
     Done v os' \<Rightarrow> rr_status v = R_SUCCEEDED | _ \<Rightarrow> False"
  by code_simp

lemma sample_not_blocked:
  "Option.is_none (blocked_artifact_result sample_world (file_path sample_old_codec) (Some (path_of ''/scratch'')) 3000 3000)"
  by code_simp

lemma sample_after_run:
  "after_run sample_world sample_plan sample_old_codec (path_of ''/scratch'') ''ffmpeg'' (Some ''cpu_only'') True ''7'' sample_disk = sample_after"
  using sample_command(1,2)
  by (auto simp: after_run_def run_plan_def sample_world_def sample_after_def sample_staged_def split: sum.splits plan_action.splits)

lemma sample_settled:
  "\<exists>r os. execute_and_settle sample_world sample_plan sample_old_codec (path_of ''/scratch'') ''ffmpeg'' (Some ''7'') (Some ''cpu_only'') True
     3000 2000 3000 sample_disk = Some (r, os) \<and> er_status r = ''completed''"
proof -
  obtain r os1 where run: "run_plan sample_world sample_plan (file_path sample_old_codec) (path_of ''/scratch'') ''ffmpeg'' (Some ''7'')
      (Some ''cpu_only'') True sample_disk = (Inr r, os1)" "er_status r = ''staged''"
    using sample_run_staged by (auto split: prod.splits sum.splits)
  have os1: "os1 = sample_after" using sample_after_run run(1) by (simp add: after_run_def)
  have out: "er_output_path r = Some sample_staged"
    using run_plan_staged [OF run] sample_command(3) by (simp add: staged_path_def)
  obtain v os' where "place_verified_output (ew_uuids sample_world) (file_path sample_old_codec) sample_staged sample_plan sample_after = Done v os'"
    "rr_status v = R_SUCCEEDED"
    using sample_placed by (auto split: run.splits)
  moreover have "evaluate_execution_safety sample_plan (safety_view sample_world sample_old_codec sample_staged sample_after) = None"
    using sample_safe by (simp add: Option.is_none_def)
  ultimately have "\<exists>x os. verify_and_place sample_world 2000 3000 sample_plan sample_old_codec r sample_after = Some (x, os) \<and> er_status x = ''completed''"
    using sample_verified out
    by (simp add: verify_and_place_def Let_def compression_safety_failure_def safety_view_def)
  then show ?thesis using run os1 by (simp add: execute_and_settle_def)
qed

lemma sample_execution_run:
  obtains r d os where "execute_job sample_world sample_plan sample_old_codec (path_of ''/scratch'') ''ffmpeg'' (Some ''cpu_only'') True
     7 ''7'' 2000 3000 sample_disk (sample_db [sample_job]) = Finished r d os" "er_status r = ''completed''"
proof -
  obtain r os where x: "execute_and_settle sample_world sample_plan sample_old_codec (path_of ''/scratch'') ''ffmpeg'' (Some ''7'')
      (Some ''cpu_only'') True 3000 2000 3000 sample_disk = Some (r, os)" "er_status r = ''completed''"
    using sample_settled by blast
  have rows: "find_job (sample_db [sample_job]) 7 = Some sample_job" "j_started_at sample_job = None"
    "find_file (sample_db [sample_job]) (j_tracked_file_id sample_job) = Some sample_tracked"
    by (simp_all add: find_job_def find_file_def sample_tracked_def sample_job_def new_job_def Let_def)
  have "execute_job sample_world sample_plan sample_old_codec (path_of ''/scratch'') ''ffmpeg'' (Some ''cpu_only'') True
     7 ''7'' 2000 3000 sample_disk (sample_db [sample_job]) = store_result sample_world 3000 7 sample_plan r os (sample_db [sample_job])"
    using x(1) rows(1,2) sample_not_blocked by (simp add: execute_job_def Option.is_none_def)
  then show thesis
    using that x(2) store_result_spec [OF sample_db_well_keyed(2) rows(1,3), of r sample_world 3000 sample_plan os]
    by (auto simp: result_statuses_def)
qed

lemma sample_source:
  "wf_path (file_path sample_old_codec)" "path_name (file_path sample_old_codec) \<noteq> []" "CHR ''/'' \<notin> set ''7''"
  by code_simp+

lemma sample_disk_files:
  "files sample_disk (file_path sample_old_codec) = Some ''old''"
  "files sample_after (file_path sample_old_codec) = Some ''old''" "files sample_after sample_staged = Some ''new''"
proof -
  have ne: "file_path sample_old_codec \<noteq> sample_staged" by code_simp
  show d: "files sample_disk (file_path sample_old_codec) = Some ''old''" unfolding sample_disk_def by (simp only: os_state.select_convs fun_upd_same)
  have a: "files sample_after = (files sample_disk)(sample_staged \<mapsto> ''new'')" unfolding sample_after_def by simp
  show "files sample_after (file_path sample_old_codec) = Some ''old''" unfolding a fun_upd_other [OF ne] by (rule d)
  show "files sample_after sample_staged = Some ''new''" unfolding a by (rule fun_upd_same)
qed

lemma completed_job_is_verified_and_placed_witness:
  "\<exists>r d os final. sample_execution = Finished r d os \<and> er_final_output_path r = Some final \<and> files os final = Some ''new''"
proof -
  obtain r d os where run: "execute_job sample_world sample_plan sample_old_codec (path_of ''/scratch'') ''ffmpeg'' (Some ''cpu_only'') True
     7 ''7'' 2000 3000 sample_disk (sample_db [sample_job]) = Finished r d os" "er_status r = ''completed''"
    by (rule sample_execution_run)
  from completed_job_is_verified_and_placed [OF run sample_source sample_db_well_keyed(2)] run(1)
  show ?thesis
    unfolding sample_after_run sample_command(3) sample_disk_files(3) sample_execution_def by blast
qed



lemma job_backup_policy_decides_witness:
  "\<not> delete_replaced_source (plan_replace (apply_job_backup_policy (sample_replace_plan True True ''fail'') sample_job))"
  using job_backup_policy_decides(1) [of sample_job "Some ''keep''" "sample_replace_plan True True ''fail''"]
  by (simp add: normalise_backup_policy_fixed)

end
