(* ===== verification/Path_Safety.thy ===== *)
theory Path_Safety
  imports Media
begin

text \<open>
  Paths that cross the border to another machine: the mappings between the folders of the server and
  those of a worker (\<open>src/packages/shared/encodr_shared/path_mappings.py\<close>) and the check that what a
  worker reports lies in a configured folder (\<open>src/apps/api/app/services/path_safety.py\<close>). \<open>expand\<close> is
  \<open>Path.expanduser\<close>, \<open>resolve\<close> is \<open>Path.resolve\<close>: both ask the file system and are parameters.
  Windows paths are read as \<open>PureWindowsPath\<close> does (Python 3.12 and 3.13).
\<close>

subsection \<open>Mappings\<close>

record raw_mapping =
  rm_label :: "string option"
  rm_server :: "string option"
  rm_worker :: "string option"

record worker_mapping =
  wm_label :: "string option"
  wm_server :: string
  wm_worker :: string

definition clean_mapping :: "(path \<Rightarrow> path) \<Rightarrow> (path \<Rightarrow> path) \<Rightarrow> raw_mapping \<Rightarrow> worker_mapping option" where
  "clean_mapping expand resolve m =
     (let server = py_strip (or_str (rm_server m) []); worker_text = py_strip (or_str (rm_worker m) []);
          label = py_strip (or_str (rm_label m) [])
      in if server = [] \<or> worker_text = [] then None
         else Some \<lparr>wm_label = (if label = [] then None else Some label),
                    wm_server = as_posix (resolve (expand (path_of server))),
                    wm_worker = as_posix (expand (path_of worker_text))\<rparr>)"

definition normalise_path_mappings ::
    "(path \<Rightarrow> path) \<Rightarrow> (path \<Rightarrow> path) \<Rightarrow> raw_mapping list option \<Rightarrow> worker_mapping list" where
  "normalise_path_mappings expand resolve ms =
     sorted_desc (\<lambda>m. length (wm_server m))
       (List.map_filter (clean_mapping expand resolve) (case ms of None \<Rightarrow> [] | Some xs \<Rightarrow> xs))"

definition mapping_for_server_path ::
    "(path \<Rightarrow> path) \<Rightarrow> (path \<Rightarrow> path) \<Rightarrow> string \<Rightarrow> raw_mapping list option \<Rightarrow> worker_mapping option" where
  "mapping_for_server_path expand resolve sp ms =
     (let source = as_posix (resolve (expand (path_of sp))) in
      find (\<lambda>m. source = wm_server m \<or> prefix (wm_server m @ ''/'') source) (normalise_path_mappings expand resolve ms))"

definition strip_slashes :: "string \<Rightarrow> string" where
  "strip_slashes s = dropWhile (\<lambda>c. c = CHR ''/'') s"

definition remap_server_path ::
    "(path \<Rightarrow> path) \<Rightarrow> (path \<Rightarrow> path) \<Rightarrow> string \<Rightarrow> raw_mapping list option \<Rightarrow> string option" where
  "remap_server_path expand resolve sp ms =
     (let source = as_posix (resolve (expand (path_of sp))) in
      case mapping_for_server_path expand resolve source ms of
        None \<Rightarrow> None
      | Some m \<Rightarrow>
          let suffix_text = strip_slashes (drop (length (wm_server m)) source);
              base = as_posix (expand (path_of (wm_worker m)))
          in Some (if suffix_text = [] then base else as_posix (join_path (path_of base) suffix_text)))"

text \<open>What a worker says about a mapping; \<open>seen\<close> is the kind of file at a path on the worker.\<close>

datatype file_kind = Absent | Directory | Regular | Other_Kind

definition marker_relative_path :: string where
  "marker_relative_path = ''.encodr/worker-marker.txt''"

definition validate_worker_path_mapping :: "(path \<Rightarrow> path) \<Rightarrow> (path \<Rightarrow> file_kind) \<Rightarrow> path \<Rightarrow> string \<times> string" where
  "validate_worker_path_mapping expand seen p =
     (let base = expand p; marker = join_path base marker_relative_path in
      if seen base = Absent then (''missing_mapping'', ''Worker path does not exist.'')
      else if seen base \<noteq> Directory then (''invalid_mapping'', ''Worker path is not a directory.'')
      else if seen marker = Absent then (''marker_not_found'', ''Validation marker was not found through the worker mapping.'')
      else if seen marker \<noteq> Regular then (''invalid_mapping'', ''Validation marker is not a regular file.'')
      else (''usable'', ''Worker path mapping is valid.''))"

subsection \<open>Normal forms of worker paths\<close>

text \<open>\<open>posixpath.normpath\<close>.\<close>

definition norm_step :: "bool \<Rightarrow> string list \<Rightarrow> string \<Rightarrow> string list" where
  "norm_step absolute acc c =
     (if c \<noteq> ''..'' \<or> (\<not> absolute \<and> acc = []) \<or> (acc \<noteq> [] \<and> last acc = ''..'') then acc @ [c] else butlast acc)"

definition norm_path :: "path \<Rightarrow> path" where
  "norm_path p = p\<lparr>parts := foldl (norm_step (root p \<noteq> [])) [] (parts p)\<rparr>"

definition normpath :: "string \<Rightarrow> string" where
  "normpath s = as_posix (norm_path (path_of s))"

text \<open>\<open>PureWindowsPath(s).as_posix()\<close>; \<open>backslash\<close> is the separator there.\<close>

abbreviation backslash :: char where "backslash \<equiv> CHR 0x5C"

definition swap_sep :: "char \<Rightarrow> char \<Rightarrow> string \<Rightarrow> string" where
  "swap_sep a b s = map (\<lambda>c. if c = a then b else c) s"

definition find_sep :: "nat \<Rightarrow> string \<Rightarrow> nat option" where
  "find_sep i s =
     (let w = takeWhile (\<lambda>c. c \<noteq> backslash) (drop i s)
      in if i + length w < length s then Some (i + length w) else None)"

definition unc_tag :: string where
  "unc_tag = [backslash, backslash, CHR ''?'', backslash, CHR ''u'', CHR ''n'', CHR ''c'', backslash]"

definition nt_splitroot :: "string \<Rightarrow> string \<times> string \<times> string" where
  "nt_splitroot s =
     (if prefix [backslash, backslash] s then
        (case find_sep (if py_lower (take 8 s) = unc_tag then 8 else 2) s of
           None \<Rightarrow> (s, [], [])
         | Some i \<Rightarrow> (case find_sep (i + 1) s of
                       None \<Rightarrow> (s, [], [])
                     | Some k \<Rightarrow> (take k s, [backslash], drop (k + 1) s)))
      else if prefix [backslash] s then ([], [backslash], drop 1 s)
      else if take 1 (drop 1 s) = '':'' then
        (if take 1 (drop 2 s) = [backslash] then (take 2 s, [backslash], drop 3 s) else (take 2 s, [], drop 2 s))
      else ([], [], s))"

definition nt_root :: "string \<Rightarrow> string \<Rightarrow> string" where
  "nt_root drive r =
     (if r = [] \<and> prefix [backslash] drive \<and> last drive \<noteq> backslash then
        (let ws = split_on backslash drive
         in if length ws = 4 \<and> ws ! 2 \<notin> {''?'', ''.''} \<or> length ws = 6 then [backslash] else r)
      else r)"

definition windows_as_posix :: "string \<Rightarrow> string" where
  "windows_as_posix s =
     (let (drive, r0, rel) = nt_splitroot (swap_sep (CHR ''/'') backslash s);
          r = nt_root drive r0;
          ws = filter keep_part (split_on backslash rel);
          text_of = (if drive \<noteq> [] \<or> r \<noteq> [] then drive @ r @ py_join [backslash] ws
                     else if ws = [] then ''.''
                     else if fst (nt_splitroot (hd ws)) \<noteq> [] then py_join [backslash] (''.'' # ws)
                     else py_join [backslash] ws)
      in swap_sep backslash (CHR ''/'') text_of)"

definition is_letter :: "char \<Rightarrow> bool" where
  "is_letter c \<longleftrightarrow> c \<in> set ''abcdefghijklmnopqrstuvwxyzABCDEFGHIJKLMNOPQRSTUVWXYZ''"

definition looks_like_windows_path :: "string \<Rightarrow> bool" where
  "looks_like_windows_path s \<longleftrightarrow>
     (case s of c # d # e # _ \<Rightarrow> is_letter c \<and> d = CHR '':'' \<and> e \<in> {backslash, CHR ''/''} | _ \<Rightarrow> False)
     \<or> backslash \<in> set s"

definition normalise_worker_path_text :: "bool \<Rightarrow> string \<Rightarrow> string" where
  "normalise_worker_path_text windows_style s =
     (if windows_style then normpath (windows_as_posix s) else normpath (swap_sep backslash (CHR ''/'') s))"

definition worker_path_suffix :: "string \<Rightarrow> string \<Rightarrow> string list option" where
  "worker_path_suffix path_text root_text =
     (let windows_style = looks_like_windows_path path_text \<or> looks_like_windows_path root_text;
          normal_path = normalise_worker_path_text windows_style path_text;
          normal_root = normalise_worker_path_text windows_style root_text;
          compare_path = (if windows_style then py_lower normal_path else normal_path);
          compare_root = (if windows_style then py_lower normal_root else normal_root);
          root_prefix = rstrip_by (\<lambda>c. c = CHR ''/'') compare_root
      in if compare_path = compare_root then Some []
         else if \<not> prefix (root_prefix @ ''/'') compare_path then None
         else Some (filter (\<lambda>w. w \<noteq> []) (split_on (CHR ''/'') (strip_slashes (drop (length root_prefix) normal_path)))))"

fun first_suffix :: "string \<Rightarrow> worker_mapping list \<Rightarrow> (string \<times> string list) option" where
  "first_suffix s [] = None"
| "first_suffix s (m # ms) =
     (case worker_path_suffix s (wm_worker m) of Some ws \<Rightarrow> Some (wm_server m, ws) | None \<Rightarrow> first_suffix s ms)"

definition remap_worker_path_to_server_path ::
    "(path \<Rightarrow> path) \<Rightarrow> (path \<Rightarrow> path) \<Rightarrow> string option \<Rightarrow> raw_mapping list option \<Rightarrow> path option" where
  "remap_worker_path_to_server_path expand resolve s ms =
     (case s of
        None \<Rightarrow> None
      | Some raw \<Rightarrow>
          Some (case first_suffix raw (normalise_path_mappings expand resolve ms) of
                  Some (server_root, ws) \<Rightarrow> resolve (foldl join_path (path_of server_root) ws)
                | None \<Rightarrow> path_of raw))"

subsection \<open>Paths under the configured folders\<close>

definition under_root :: "path \<Rightarrow> path \<Rightarrow> bool" where
  "under_root p r \<longleftrightarrow> root p = root r \<and> prefix (parts r) (parts p)"

definition is_absolute :: "path \<Rightarrow> bool" where
  "is_absolute p \<longleftrightarrow> root p \<noteq> []"

fun dedup_paths :: "string list \<Rightarrow> path list \<Rightarrow> path list" where
  "dedup_paths seen [] = []"
| "dedup_paths seen (p # ps) =
     (if as_posix p \<in> set seen then dedup_paths seen ps else p # dedup_paths (as_posix p # seen) ps)"

definition deduplicate_paths :: "(path \<Rightarrow> path) \<Rightarrow> (path \<Rightarrow> path) \<Rightarrow> path list \<Rightarrow> path list" where
  "deduplicate_paths expand resolve ps = dedup_paths [] (map (\<lambda>p. resolve (expand p)) ps)"

record path_roots =
  pr_media :: "path list"
  pr_scratch :: "path list"
  pr_backup :: "path list"

definition output_roots :: "(path \<Rightarrow> path) \<Rightarrow> (path \<Rightarrow> path) \<Rightarrow> path_roots \<Rightarrow> path list" where
  "output_roots expand resolve r = deduplicate_paths expand resolve (pr_media r @ pr_scratch r)"

definition payload_roots :: "(path \<Rightarrow> path) \<Rightarrow> (path \<Rightarrow> path) \<Rightarrow> path_roots \<Rightarrow> path list" where
  "payload_roots expand resolve r = deduplicate_paths expand resolve (pr_media r @ pr_scratch r @ pr_backup r)"

definition configured_path_roots ::
    "(path \<Rightarrow> path) \<Rightarrow> (path \<Rightarrow> path) \<Rightarrow> path list \<Rightarrow> path \<Rightarrow> path \<Rightarrow> path_roots" where
  "configured_path_roots expand resolve media_mounts app_scratch worker_scratch =
     \<lparr>pr_media = deduplicate_paths expand resolve media_mounts,
      pr_scratch = deduplicate_paths expand resolve [app_scratch, worker_scratch],
      pr_backup = deduplicate_paths expand resolve media_mounts\<rparr>"

definition with_extra_scratch :: "(path \<Rightarrow> path) \<Rightarrow> (path \<Rightarrow> path) \<Rightarrow> path_roots \<Rightarrow> path list \<Rightarrow> path_roots" where
  "with_extra_scratch expand resolve r extra =
     r\<lparr>pr_scratch := deduplicate_paths expand resolve (pr_scratch r @ extra)\<rparr>"

definition validate_path_under_roots ::
    "(path \<Rightarrow> path) \<Rightarrow> (path \<Rightarrow> path) \<Rightarrow> path list \<Rightarrow> string \<Rightarrow> path option \<Rightarrow> string + path option" where
  "validate_path_under_roots expand resolve roots label p =
     (case p of
        None \<Rightarrow> Inr None
      | Some q \<Rightarrow>
          let candidate = expand q in
          if \<not> is_absolute candidate then Inl (label @ '' must be an absolute path.'')
          else if roots = [] then Inl (''No configured roots are available to authorize '' @ label @ ''.'')
          else if \<not> list_ex (\<lambda>r. under_root (resolve candidate) (resolve (expand r))) roots then
            Inl (label @ '' is outside the configured media, scratch, or backup roots.'')
          else Inr (Some (resolve candidate)))"

definition path_key_names :: "string list" where
  "path_key_names = [''path'', ''source_path'', ''staged_output_path'', ''output_path'', ''final_output_path'',
     ''original_backup_path'', ''backup_path'']"

definition is_path_key :: "string \<Rightarrow> bool" where
  "is_path_key k \<longleftrightarrow> (let l = py_lower (py_strip k) in l \<in> set path_key_names \<or> suffix ''_path'' l)"

text \<open>
  Payloads: \<open>keyed\<close> says whether the value hangs, directly or through lists, on a key that names a path
  (the source has a function for each of the two).
\<close>

fun remap_payload :: "(path \<Rightarrow> path) \<Rightarrow> (path \<Rightarrow> path) \<Rightarrow> raw_mapping list option \<Rightarrow> bool \<Rightarrow> json \<Rightarrow> json"
and remap_items :: "(path \<Rightarrow> path) \<Rightarrow> (path \<Rightarrow> path) \<Rightarrow> raw_mapping list option \<Rightarrow> bool \<Rightarrow> json list \<Rightarrow> json list"
and remap_fields :: "(path \<Rightarrow> path) \<Rightarrow> (path \<Rightarrow> path) \<Rightarrow> raw_mapping list option \<Rightarrow> (string \<times> json) list \<Rightarrow> (string \<times> json) list" where
  "remap_payload expand resolve ms keyed (JStr s) =
     (if keyed then (case remap_worker_path_to_server_path expand resolve (Some s) ms of
                       Some p \<Rightarrow> JStr (as_posix p) | None \<Rightarrow> JNull)
      else JStr s)"
| "remap_payload expand resolve ms keyed (JList xs) = JList (remap_items expand resolve ms keyed xs)"
| "remap_payload expand resolve ms keyed (JObj kvs) = JObj (remap_fields expand resolve ms kvs)"
| "remap_payload expand resolve ms keyed v = v"
| "remap_items expand resolve ms keyed [] = []"
| "remap_items expand resolve ms keyed (x # xs) =
     remap_payload expand resolve ms keyed x # remap_items expand resolve ms keyed xs"
| "remap_fields expand resolve ms [] = []"
| "remap_fields expand resolve ms ((k, v) # kvs) =
     (k, remap_payload expand resolve ms (is_path_key k) v) # remap_fields expand resolve ms kvs"

fun validate_payload :: "(path \<Rightarrow> path) \<Rightarrow> (path \<Rightarrow> path) \<Rightarrow> path list \<Rightarrow> bool \<Rightarrow> string \<Rightarrow> json \<Rightarrow> string + json"
and validate_items :: "(path \<Rightarrow> path) \<Rightarrow> (path \<Rightarrow> path) \<Rightarrow> path list \<Rightarrow> bool \<Rightarrow> string \<Rightarrow> nat \<Rightarrow> json list \<Rightarrow> string + json list"
and validate_fields ::
    "(path \<Rightarrow> path) \<Rightarrow> (path \<Rightarrow> path) \<Rightarrow> path list \<Rightarrow> string \<Rightarrow> (string \<times> json) list \<Rightarrow> string + (string \<times> json) list" where
  "validate_payload expand resolve roots keyed label (JStr s) =
     (if keyed then
        (case validate_path_under_roots expand resolve roots label (Some (path_of s)) of
           Inl e \<Rightarrow> Inl e | Inr None \<Rightarrow> Inr JNull | Inr (Some p) \<Rightarrow> Inr (JStr (as_posix p)))
      else Inr (JStr s))"
| "validate_payload expand resolve roots keyed label (JList xs) =
     map_sum id JList (validate_items expand resolve roots keyed label 0 xs)"
| "validate_payload expand resolve roots keyed label (JObj kvs) =
     map_sum id JObj (validate_fields expand resolve roots label kvs)"
| "validate_payload expand resolve roots keyed label v = Inr v"
| "validate_items expand resolve roots keyed label i [] = Inr []"
| "validate_items expand resolve roots keyed label i (x # xs) =
     (case validate_payload expand resolve roots keyed (label @ ''['' @ show_nat i @ '']'') x of
        Inl e \<Rightarrow> Inl e
      | Inr y \<Rightarrow> map_sum id (\<lambda>ys. y # ys) (validate_items expand resolve roots keyed label (Suc i) xs))"
| "validate_fields expand resolve roots label [] = Inr []"
| "validate_fields expand resolve roots label ((k, v) # kvs) =
     (case validate_payload expand resolve roots (is_path_key k) (label @ ''.'' @ k) v of
        Inl e \<Rightarrow> Inl e
      | Inr w \<Rightarrow> map_sum id (\<lambda>r. (k, w) # r) (validate_fields expand resolve roots label kvs))"

definition validate_output_path ::
    "(path \<Rightarrow> path) \<Rightarrow> (path \<Rightarrow> path) \<Rightarrow> path_roots \<Rightarrow> string \<Rightarrow> path option \<Rightarrow> string + path option" where
  "validate_output_path expand resolve r label p =
     validate_path_under_roots expand resolve (output_roots expand resolve r) label p"

definition validate_final_output_path ::
    "(path \<Rightarrow> path) \<Rightarrow> (path \<Rightarrow> path) \<Rightarrow> path_roots \<Rightarrow> string \<Rightarrow> path option \<Rightarrow> string + path option" where
  "validate_final_output_path expand resolve r label p = validate_path_under_roots expand resolve (pr_media r) label p"

definition validate_backup_path ::
    "(path \<Rightarrow> path) \<Rightarrow> (path \<Rightarrow> path) \<Rightarrow> path_roots \<Rightarrow> string \<Rightarrow> path option \<Rightarrow> string + path option" where
  "validate_backup_path expand resolve r label p = validate_path_under_roots expand resolve (pr_backup r) label p"

definition validate_replacement_payload_paths ::
    "(path \<Rightarrow> path) \<Rightarrow> (path \<Rightarrow> path) \<Rightarrow> path_roots \<Rightarrow> string \<Rightarrow> json \<Rightarrow> string + json" where
  "validate_replacement_payload_paths expand resolve r label v =
     validate_payload expand resolve (payload_roots expand resolve r) False label v"

subsection \<open>Components of a printed path\<close>

lemma split_on_cut: "split_on sep (a @ sep # b) = split_on sep a @ split_on sep b"
proof (induction a)
  case (Cons c a)
  then show ?case by (cases "split_on sep a") (auto simp: split: list.splits)
qed simp

lemma nonempty_comps:
  assumes "wf_path q" "CHR ''/'' \<in> set (as_posix q)"
  shows "filter (\<lambda>w. w \<noteq> []) (split_on (CHR ''/'') (as_posix q)) = parts q"
proof -
  have p: "as_posix q = root q @ py_join ''/'' (parts q)" and r: "root q \<in> {'''', ''/'', ''//''}"
    using assms by (auto simp: as_posix_def wf_path_def split: if_splits)
  have ne: "\<forall>w\<in>set (parts q). w \<noteq> [] \<and> CHR ''/'' \<notin> set w" using assms(1) by (auto simp: wf_path_def dest: wf_nameD)
  have j: "filter (\<lambda>w. w \<noteq> []) (split_on (CHR ''/'') (py_join ''/'' (parts q))) = parts q"
  proof (cases "parts q = []")
    case False
    then have "split_on (CHR ''/'') (py_join ''/'' (parts q)) = parts q" using ne by (intro split_on_join) auto
    then show ?thesis using ne by (simp add: filter_id_conv)
  qed simp
  have "filter (\<lambda>w. w \<noteq> []) (split_on (CHR ''/'') (x @ CHR ''/'' # y)) =
      filter (\<lambda>w. w \<noteq> []) (split_on (CHR ''/'') x) @ filter (\<lambda>w. w \<noteq> []) (split_on (CHR ''/'') y)" for x y
    by (simp add: split_on_cut)
  from this [of "[]"] this [of "''/''"] r show ?thesis unfolding p using j by auto
qed

lemma strip_slashes_comps:
  "filter (\<lambda>w. w \<noteq> []) (split_on (CHR ''/'') (strip_slashes s)) = filter (\<lambda>w. w \<noteq> []) (split_on (CHR ''/'') s)"
proof (induction s)
  case (Cons c s)
  then show ?case using split_on_cut [of "CHR ''/''" "[]" s] by (auto simp: strip_slashes_def)
qed (simp add: strip_slashes_def)

subsection \<open>Normal forms\<close>

definition dots_in_front :: "bool \<Rightarrow> string list \<Rightarrow> bool" where
  "dots_in_front absolute ws \<longleftrightarrow> (\<exists>k zs. ws = replicate k ''..'' @ zs \<and> ''..'' \<notin> set zs \<and> (absolute \<longrightarrow> k = 0))"

lemma norm_step_dots:
  assumes "dots_in_front absolute acc"
  shows "dots_in_front absolute (norm_step absolute acc c)"
proof -
  obtain k zs where a: "acc = replicate k ''..'' @ zs" "''..'' \<notin> set zs" "absolute \<longrightarrow> k = 0"
    using assms by (auto simp: dots_in_front_def)
  show ?thesis
  proof (cases "c = ''..''")
    case False
    then show ?thesis using a by (auto simp: norm_step_def dots_in_front_def intro!: exI [of _ k] exI [of _ "zs @ [c]"])
  next
    case True
    show ?thesis
    proof (cases "zs = []")
      case False
      then have "last acc \<noteq> ''..''" "acc \<noteq> []" using a by (auto dest: last_in_set)
      moreover have "butlast acc = replicate k ''..'' @ butlast zs" using a False by (simp add: butlast_append)
      moreover have "''..'' \<notin> set (butlast zs)" using a(2) by (auto dest: in_set_butlastD)
      ultimately show ?thesis using True a(3) unfolding norm_step_def dots_in_front_def by auto
    next
      case z: True
      show ?thesis
      proof (cases k)
        case 0
        then show ?thesis using True z a
          by (auto simp: norm_step_def dots_in_front_def intro!: exI [of _ "Suc 0"] exI [of _ "[]"])
      next
        case (Suc n)
        then have "norm_step absolute acc c = replicate (Suc k) ''..''"
          using True z a by (simp add: norm_step_def replicate_append_same [symmetric])
        then show ?thesis using Suc a(3) by (auto simp: dots_in_front_def intro!: exI [of _ "Suc k"] exI [of _ "[]"])
      qed
    qed
  qed
qed

lemma foldl_norm:
  "dots_in_front absolute acc \<Longrightarrow> dots_in_front absolute (foldl (norm_step absolute) acc ws) \<and>
     set (foldl (norm_step absolute) acc ws) \<subseteq> set acc \<union> set ws"
proof (induction ws arbitrary: acc)
  case (Cons c ws)
  have "set (norm_step absolute acc c) \<subseteq> set acc \<union> {c}"
    by (auto simp: norm_step_def dest: in_set_butlastD)
  then show ?case using Cons.IH [OF norm_step_dots [OF Cons.prems, of c]] by auto
qed simp

lemma norm_path_shape:
  assumes "wf_path p"
  shows "wf_path (norm_path p) \<and> root (norm_path p) = root p \<and> dots_in_front (root p \<noteq> []) (parts (norm_path p))"
proof -
  have "dots_in_front (root p \<noteq> []) []" by (auto simp: dots_in_front_def)
  from foldl_norm [OF this, of "parts p"] assms show ?thesis by (auto simp: norm_path_def wf_path_def)
qed

lemma normpath_shape: "\<exists>q. normpath s = as_posix q \<and> wf_path q \<and> dots_in_front (root q \<noteq> []) (parts q)"
  using norm_path_shape [OF wf_path_of, of s] by (auto simp: normpath_def intro!: exI [of _ "norm_path (path_of s)"])

lemma norm_path_id:
  assumes "''..'' \<notin> set (parts p)"
  shows "norm_path p = p"
proof -
  have "foldl (norm_step b) acc ws = acc @ ws" if "''..'' \<notin> set ws" for b acc ws
    using that by (induction ws arbitrary: acc) (auto simp: norm_step_def)
  then show ?thesis using assms by (simp add: norm_path_def)
qed

subsection \<open>The part of a worker path below a folder\<close>

lemma lower_char_marks:
  "lower_char c = CHR ''/'' \<longleftrightarrow> c = CHR ''/''" "lower_char c = CHR ''.'' \<longleftrightarrow> c = CHR ''.''"
proof -
  have m: "lower_char c = d \<longleftrightarrow> c = d" if "code_point d < 65 " for d
  proof -
    show ?thesis unfolding code_point_inject [symmetric] using that by (auto simp: code_point_lower Let_def)
  qed
  show "lower_char c = CHR ''/'' \<longleftrightarrow> c = CHR ''/''" by (rule m) code_simp
  show "lower_char c = CHR ''.'' \<longleftrightarrow> c = CHR ''.''" by (rule m) code_simp
qed


lemma front_block:
  assumes "(xs @ us) @ a # vs = replicate k a @ zs" "a \<notin> set zs"
  shows "set xs \<subseteq> {a}"
proof -
  have "((xs @ us) @ a # vs) ! length (xs @ us) = a" by simp
  then have "length (xs @ us) < k"
    unfolding assms(1) using assms(2) assms(1) [THEN arg_cong, of length]
    by (auto simp: nth_append not_less dest: nth_mem split: if_splits)
  moreover have "xs = take (length xs) (replicate k a @ zs)" using assms(1) by (metis append.assoc append_eq_conv_conj)
  ultimately have "xs = replicate (length xs) a" by simp
  then show ?thesis by (metis set_replicate_conv_if subset_singleton_iff)
qed

lemma suffix_comps:
  assumes n: "n = as_posix q" "wf_path q" "dots_in_front (root q \<noteq> []) (parts q)"
    and pre: "prefix (rstrip_by (\<lambda>c. c = CHR ''/'') (map g r) @ ''/'') (map g n)"
    and g: "\<And>c. g c = CHR ''/'' \<longleftrightarrow> c = CHR ''/''" "\<And>c. g c = CHR ''.'' \<longleftrightarrow> c = CHR ''.''"
    and up: "\<not> prefix ''..'' r"
  shows "''..'' \<notin> set (filter (\<lambda>w. w \<noteq> []) (split_on (CHR ''/'')
      (strip_slashes (drop (length (rstrip_by (\<lambda>c. c = CHR ''/'') (map g r))) n)))) \<and>
    set (filter (\<lambda>w. w \<noteq> []) (split_on (CHR ''/'')
      (strip_slashes (drop (length (rstrip_by (\<lambda>c. c = CHR ''/'') (map g r))) n)))) \<subseteq> set (parts q)"
proof -
  let ?rp = "rstrip_by (\<lambda>c. c = CHR ''/'') (map g r)"
  let ?comps = "\<lambda>s. filter (\<lambda>w. w \<noteq> []) (split_on (CHR ''/'') s)"
  obtain t where t: "map g n = ?rp @ CHR ''/'' # t" using pre by (auto simp: prefix_def)
  define A where "A = take (length ?rp) n"
  have gA: "map g A = ?rp" using t by (simp add: A_def take_map [symmetric])
  have "map g (drop (length ?rp) n) = CHR ''/'' # t" using t by (simp add: drop_map [symmetric])
  then obtain rest where rest: "drop (length ?rp) n = CHR ''/'' # rest"
    using g(1) by (cases "drop (length ?rp) n") auto
  have nA: "n = A @ CHR ''/'' # rest" using rest append_take_drop_id [of "length ?rp" n] by (simp add: A_def)
  have ws: "?comps (strip_slashes (drop (length ?rp) n)) = ?comps rest"
    using split_on_cut [of "CHR ''/''" "[]" rest] by (simp add: rest strip_slashes_comps)
  have pq: "parts q = ?comps A @ ?comps rest"
  proof -
    have "CHR ''/'' \<in> set (as_posix q)" using n(1) nA by (metis in_set_conv_decomp)
    from nonempty_comps [OF n(2) this] show ?thesis unfolding n(1) [symmetric] by (subst (asm) nA) (simp add: split_on_cut)
  qed
  have "''..'' \<notin> set (?comps rest)"
  proof
    assume bad: "''..'' \<in> set (?comps rest)"
    obtain k zs where kz: "parts q = replicate k ''..'' @ zs" "''..'' \<notin> set zs" "root q \<noteq> [] \<longrightarrow> k = 0"
      using n(3) by (auto simp: dots_in_front_def)
    have "set (?comps A) \<subseteq> {''..''}"
    proof -
      obtain us vs where uv: "?comps rest = us @ ''..'' # vs" using bad by (meson split_list)
      from kz(1) pq uv have eq: "(?comps A @ us) @ ''..'' # vs = replicate k ''..'' @ zs" by simp
      then show ?thesis using front_block [OF _ kz(2)] by blast
    qed
    moreover have rel: "root q = []"
      using bad pq kz by (metis Un_iff append_Nil replicate_0 set_append)
    ultimately have all: "\<forall>w\<in>set (split_on (CHR ''/'') A). w = [] \<or> w = ''..''" by auto
    have "A \<noteq> [] \<and> hd A \<noteq> CHR ''/''"
    proof -
      have "n = py_join ''/'' (parts q) \<or> n = ''.''" using n(1) rel by (simp add: as_posix_def)
      moreover have "\<not> prefix ''/'' (py_join ''/'' (parts q))"
        using n(2) by (intro join_parts_head) (simp add: wf_path_def)
      ultimately have "\<not> prefix ''/'' n" by auto
      then show ?thesis unfolding nA by (cases A) auto
    qed
    then obtain c A' where cA: "A = c # A'" "c \<noteq> CHR ''/''" by (cases A) auto
    then have "hd (split_on (CHR ''/'') A) \<noteq> []" by (auto split: list.splits)
    then have "hd (split_on (CHR ''/'') A) = ''..''" using all by (metis hd_in_set split_on_nonempty)
    moreover have "prefix (hd (split_on sep s)) s" for sep s
      by (induction s) (auto split: list.splits)
    ultimately have "prefix ''..'' A" by metis
    then have "prefix (map g ''..'') (map g A)" by (rule map_mono_prefix)
    moreover have "map g ''..'' = ''..''" using g(2) by simp
    ultimately have "prefix ''..'' ?rp" by (simp only: gA)
    moreover have "prefix ?rp (map g r)"
      unfolding rstrip_by_def by (metis prefixI rev_append rev_rev_ident takeWhile_dropWhile_id)
    ultimately have "prefix ''..'' (map g r)" by (rule prefix_order.trans)
    then obtain t where "map g r = CHR ''.'' # CHR ''.'' # t" by (auto simp: prefix_def)
    then obtain c d u where "r = c # d # u" "g c = CHR ''.''" "g d = CHR ''.''" by (auto simp: map_eq_Cons_conv)
    then have "prefix ''..'' r" using g(2) by simp
    then show False using up by simp
  qed
  moreover have "set (?comps rest) \<subseteq> set (parts q)" using pq by auto
  ultimately show ?thesis by (simp add: ws)
qed

lemma worker_suffix_safe:
  assumes "worker_path_suffix s r = Some ws"
    and "\<not> prefix ''..'' (normalise_worker_path_text (looks_like_windows_path s \<or> looks_like_windows_path r) r)"
  shows "''..'' \<notin> set ws \<and> (\<forall>w\<in>set ws. wf_name w)"
proof -
  let ?win = "looks_like_windows_path s \<or> looks_like_windows_path r"
  let ?n = "normalise_worker_path_text ?win s" and ?r = "normalise_worker_path_text ?win r"
  obtain q where q: "?n = as_posix q" "wf_path q" "dots_in_front (root q \<noteq> []) (parts q)"
    using normpath_shape unfolding normalise_worker_path_text_def by metis
  define g where "g = (if ?win then lower_char else id)"
  have g: "g c = CHR ''/'' \<longleftrightarrow> c = CHR ''/''" "g c = CHR ''.'' \<longleftrightarrow> c = CHR ''.''" for c
    by (simp_all add: g_def lower_char_marks)
  have cmp: "(if ?win then py_lower x else x) = map g x" for x by (simp add: g_def py_lower_def)
  consider "ws = []"
    | "prefix (rstrip_by (\<lambda>c. c = CHR ''/'') (map g ?r) @ ''/'') (map g ?n)"
      "ws = filter (\<lambda>w. w \<noteq> []) (split_on (CHR ''/'') (strip_slashes (drop (length (rstrip_by (\<lambda>c. c = CHR ''/'') (map g ?r))) ?n)))"
    using assms(1) unfolding worker_path_suffix_def Let_def cmp by (auto split: if_splits)
  then show ?thesis
  proof cases
    case 2
    from suffix_comps [OF q 2(1) g assms(2)] q(2) show ?thesis
      unfolding 2(2) by (auto simp: wf_path_def)
  qed simp
qed


subsection \<open>Server path to worker path and back\<close>

lemma foldl_join:
  "\<forall>w\<in>set ws. wf_name w \<Longrightarrow> foldl join_path p ws = p\<lparr>parts := parts p @ ws\<rparr>"
proof (induction ws arbitrary: p)
  case (Cons w ws)
  have w: "wf_name w" using Cons.prems by simp
  then have "split_root w = ([], w)" by (cases w) (auto simp: split_root_def dest: wf_nameD)
  then have "path_of w = \<lparr>root = [], parts = [w]\<rparr>"
    using w by (simp add: path_of_def split_on_plain wf_name_def)
  then show ?case using Cons by (simp add: join_path_def)
qed simp

lemma first_suffix_in:
  "first_suffix s ms = Some (v, ws) \<Longrightarrow> \<exists>m\<in>set ms. v = wm_server m \<and> worker_path_suffix s (wm_worker m) = Some ws"
  by (induction ms) (auto split: option.splits)

text \<open>A path a worker reports cannot climb out of the mapped folder: it is either outside every worker
  folder and taken as it is, or the server folder extended by plain names without a parent step, on
  Windows and POSIX workers alike. The worker folder itself must not lie above its working directory.\<close>

theorem mapped_path_stays_below_folder:
  assumes "remap_worker_path_to_server_path expand resolve (Some s) ms = Some q"
    and "\<forall>m\<in>set (normalise_path_mappings expand resolve ms).
      \<not> prefix ''..'' (normalise_worker_path_text (looks_like_windows_path s \<or> looks_like_windows_path (wm_worker m)) (wm_worker m))"
  shows "q = path_of s \<and> (\<forall>m\<in>set (normalise_path_mappings expand resolve ms). worker_path_suffix s (wm_worker m) = None) \<or>
    (\<exists>m\<in>set (normalise_path_mappings expand resolve ms). \<exists>ws. worker_path_suffix s (wm_worker m) = Some ws \<and>
       ''..'' \<notin> set ws \<and> (\<forall>w\<in>set ws. wf_name w) \<and>
       q = resolve ((path_of (wm_server m))\<lparr>parts := parts (path_of (wm_server m)) @ ws\<rparr>))"
proof (cases "first_suffix s (normalise_path_mappings expand resolve ms)")
  case None
  have "worker_path_suffix s (wm_worker m) = None" if "first_suffix s xs = None" "m \<in> set xs" for m xs
    using that by (induction xs) (auto split: option.splits)
  then show ?thesis using assms(1) None by (simp add: remap_worker_path_to_server_path_def)
next
  case (Some x)
  obtain v ws where x: "x = (v, ws)" by (cases x)
  from first_suffix_in [OF Some [unfolded x]] obtain m where
    m: "m \<in> set (normalise_path_mappings expand resolve ms)" "v = wm_server m" "worker_path_suffix s (wm_worker m) = Some ws"
    by blast
  have safe: "''..'' \<notin> set ws \<and> (\<forall>w\<in>set ws. wf_name w)"
    using worker_suffix_safe [OF m(3)] assms(2) m(1) by blast
  then have "q = resolve ((path_of (wm_server m))\<lparr>parts := parts (path_of (wm_server m)) @ ws\<rparr>)"
    using assms(1) Some x m(2) foldl_join [of ws "path_of v"] by (simp add: remap_worker_path_to_server_path_def)
  then show ?thesis using m(1,3) safe by blast
qed

definition plain_worker_path :: "path \<Rightarrow> bool" where
  "plain_worker_path p \<longleftrightarrow> wf_path p \<and> root p \<in> {''/'', ''//''} \<and>
     (\<forall>w\<in>set (parts p). w \<noteq> ''..'' \<and> backslash \<notin> set w)"

lemma plain_text:
  assumes "plain_worker_path p"
  shows "\<not> looks_like_windows_path (as_posix p) \<and> normalise_worker_path_text False (as_posix p) = as_posix p"
proof -
  have r: "root p \<in> {''/'', ''//''}" and wf: "wf_path p" and parts: "\<forall>w\<in>set (parts p). w \<noteq> ''..'' \<and> backslash \<notin> set w"
    using assms by (auto simp: plain_worker_path_def)
  have p: "as_posix p = root p @ py_join ''/'' (parts p)" using r by (auto simp: as_posix_def)
  have "backslash \<notin> set (py_join ''/'' ws)" if "\<forall>w\<in>set ws. backslash \<notin> set w" for ws
    using that by (induction "''/''" ws rule: py_join.induct) auto
  then have nb: "backslash \<notin> set (as_posix p)" using r parts by (auto simp: p)
  then have "swap_sep backslash (CHR ''/'') (as_posix p) = as_posix p" unfolding swap_sep_def by (intro map_idI) auto
  moreover have "norm_path p = p" using parts by (intro norm_path_id) auto
  moreover have "\<not> is_letter (CHR ''/'')" by code_simp
  ultimately show ?thesis
    using nb r path_of_as_posix [OF wf]
    by (auto simp: looks_like_windows_path_def normalise_worker_path_text_def normpath_def p split: list.splits)
qed


lemma plain_suffix:
  assumes "plain_worker_path w" "\<forall>x\<in>set ws. wf_name x \<and> x \<noteq> ''..'' \<and> backslash \<notin> set x"
  shows "worker_path_suffix (as_posix (w\<lparr>parts := parts w @ ws\<rparr>)) (as_posix w) = Some ws"
proof -
  let ?q = "w\<lparr>parts := parts w @ ws\<rparr>"
  have pq: "plain_worker_path ?q" using assms by (auto simp: plain_worker_path_def wf_path_def)
  have r: "root w \<in> {''/'', ''//''}" and names: "\<forall>x\<in>set (parts w). wf_name x"
    using assms(1) by (auto simp: plain_worker_path_def wf_path_def)
  have texts: "as_posix w = root w @ py_join ''/'' (parts w)" "as_posix ?q = root w @ py_join ''/'' (parts w @ ws)"
    using r by (auto simp: as_posix_def)
  have ws: "filter (\<lambda>x. x \<noteq> []) (split_on (CHR ''/'') (py_join ''/'' ws)) = ws"
  proof (cases "ws = []")
    case False
    then have "split_on (CHR ''/'') (py_join ''/'' ws) = ws" using assms(2) by (intro split_on_join) (auto dest: wf_nameD)
    then show ?thesis using assms(2) by (auto simp: filter_id_conv dest: wf_nameD)
  qed simp
  have head: "\<not> prefix ''/'' (py_join ''/'' ws)" using assms(2) by (intro join_parts_head) auto
  then have strip: "strip_slashes (py_join ''/'' ws) = py_join ''/'' ws"
    by (cases "py_join ''/'' ws") (auto simp: strip_slashes_def)
  have unfolded: "worker_path_suffix (as_posix ?q) (as_posix w) =
      (let rp = rstrip_by (\<lambda>c. c = CHR ''/'') (as_posix w)
       in if as_posix ?q = as_posix w then Some []
          else if \<not> prefix (rp @ ''/'') (as_posix ?q) then None
          else Some (filter (\<lambda>x. x \<noteq> []) (split_on (CHR ''/'') (strip_slashes (drop (length rp) (as_posix ?q))))))"
    using plain_text [OF pq] plain_text [OF assms(1)] by (simp add: worker_path_suffix_def Let_def)
  show ?thesis
  proof (cases "ws = []")
    case False
    then have ne: "py_join ''/'' ws \<noteq> []" using ws by auto
    show ?thesis
    proof (cases "parts w = []")
      case True
      then have "rstrip_by (\<lambda>c. c = CHR ''/'') (as_posix w) = []" using r by (auto simp: texts rstrip_by_def)
      moreover have q: "as_posix ?q = root w @ py_join ''/'' ws" using texts(2) True by simp
      moreover have "strip_slashes (as_posix ?q) = py_join ''/'' ws"
        unfolding q using r strip by (auto simp: strip_slashes_def)
      moreover have "prefix ''/'' (as_posix ?q)" "as_posix ?q \<noteq> as_posix w"
        unfolding q texts(1) using True r ne by auto
      ultimately show ?thesis using ws unfolding unfolded unfolding Let_def q by simp
    next
      case parts: False
      then have q: "as_posix ?q = as_posix w @ CHR ''/'' # py_join ''/'' ws"
        using False by (simp add: texts py_join_append)
      have "as_posix w \<noteq> [] \<and> last (as_posix w) \<noteq> CHR ''/''" using join_last [OF names parts] by (simp add: texts)
      then have rp: "rstrip_by (\<lambda>c. c = CHR ''/'') (as_posix w) = as_posix w"
        by (cases "as_posix w" rule: rev_cases) (auto simp: rstrip_by_def)
      have "strip_slashes (CHR ''/'' # py_join ''/'' ws) = py_join ''/'' ws" using strip by (simp add: strip_slashes_def)
      then show ?thesis using ws unfolding unfolded unfolding Let_def rp unfolding q by simp
    qed
  next
    case True
    then show ?thesis unfolding unfolded by simp
  qed
qed

text \<open>For a worker with one mapping whose worker folder is an absolute POSIX path, the two directions agree:
  what the server hands out for one of its files under the mapped folder comes back as that very file.\<close>

theorem single_mapping_round_trip:
  assumes "normalise_path_mappings expand resolve ms = [m]" "wm_server m = as_posix v" "wm_worker m = as_posix w"
    and "wf_path v" "parts v \<noteq> []" "plain_worker_path w" "expand w = w"
    and "p = v\<lparr>parts := parts v @ ws\<rparr>" "\<forall>x\<in>set ws. wf_name x \<and> x \<noteq> ''..'' \<and> backslash \<notin> set x"
    and "resolve (expand p) = p" "resolve p = p"
  shows "\<exists>t. remap_server_path expand resolve (as_posix p) ms = Some t \<and>
    remap_worker_path_to_server_path expand resolve (Some t) ms = Some p"
proof -
  have wfp: "wf_path p" using assms(4,8,9) by (auto simp: wf_path_def)
  have sp: "path_of (as_posix p) = p" by (rule path_of_as_posix [OF wfp])
  define q where "q = w\<lparr>parts := parts w @ ws\<rparr>"
  have pq: "plain_worker_path q" using assms(6,9) by (auto simp: q_def plain_worker_path_def wf_path_def)
  have wfw: "wf_path w" "root w \<in> {''/'', ''//''}" using assms(6) by (auto simp: plain_worker_path_def)
  have text_v: "as_posix v = root v @ py_join ''/'' (parts v)" "as_posix p = root v @ py_join ''/'' (parts v @ ws)"
    using assms(5,8) by (simp_all add: as_posix_def)
  have cut: "as_posix p = as_posix v @ (if ws = [] then [] else CHR ''/'' # py_join ''/'' ws)"
    using text_v assms(5) by (simp add: py_join_append)
  have source: "mapping_for_server_path expand resolve (as_posix p) ms = Some m"
    using assms(1,2,10) sp cut by (simp add: mapping_for_server_path_def)
  have strip: "strip_slashes (drop (length (wm_server m)) (as_posix p)) = py_join ''/'' ws"
    using assms(9) join_parts_head [of ws] by (cases "py_join ''/'' ws") (auto simp: assms(2) cut strip_slashes_def)
  have join: "as_posix (join_path w (py_join ''/'' ws)) = as_posix q" if "py_join ''/'' ws \<noteq> []"
  proof -
    have "split_root ([] @ py_join ''/'' ws) = ([], py_join ''/'' ws)"
      by (rule split_root_append) (use assms(9) in \<open>auto intro!: join_parts_head\<close>)
    then have "path_of (py_join ''/'' ws) = \<lparr>root = [], parts = ws\<rparr>"
      using split_join_parts [of ws] assms(9) by (simp add: path_of_def)
    then show ?thesis by (simp add: join_path_def q_def)
  qed
  have nil: "ws = []" if "py_join ''/'' ws = []" using that assms(9) by (cases ws rule: remdups_adj.cases) (auto dest: wf_nameD)
  have t: "remap_server_path expand resolve (as_posix p) ms = Some (as_posix q)"
    using source strip join nil assms(3,7,10) sp path_of_as_posix [OF wfw(1)]
    by (auto simp: remap_server_path_def Let_def q_def)
  have "worker_path_suffix (as_posix q) (wm_worker m) = Some ws"
    unfolding assms(3) q_def by (rule plain_suffix [OF assms(6,9)])
  then have "first_suffix (as_posix q) [m] = Some (as_posix v, ws)" by (simp add: assms(2))
  then have "remap_worker_path_to_server_path expand resolve (Some (as_posix q)) ms = Some p"
    using assms(1,8,9,11) foldl_join [of ws v] path_of_as_posix [OF assms(4)]
    by (simp add: remap_worker_path_to_server_path_def)
  with t show ?thesis by blast
qed


text \<open>C0: With nested worker folders the way back goes wrong: mappings are ordered by the length of the server
  folder in both directions, so a file below \<open>/m\<close> that a worker sees below \<open>/w/sub\<close> is booked under
  the folder \<open>/media/long\<close> that the worker sees as \<open>/w\<close>.\<close>

definition nested_mappings :: "raw_mapping list option" where
  "nested_mappings = Some [\<lparr>rm_label = None, rm_server = Some ''/media/long'', rm_worker = Some ''/w''\<rparr>,
                           \<lparr>rm_label = None, rm_server = Some ''/m'', rm_worker = Some ''/w/sub''\<rparr>]"

theorem nested_worker_folders_misroute:
  "remap_server_path id id ''/m/a.mkv'' nested_mappings = Some ''/w/sub/a.mkv''"
  "map_option as_posix (remap_worker_path_to_server_path id id (Some ''/w/sub/a.mkv'') nested_mappings) = Some ''/media/long/sub/a.mkv''"
  by code_simp+

subsection \<open>Payloads\<close>

fun path_strings :: "bool \<Rightarrow> json \<Rightarrow> string list"
and path_strings_items :: "bool \<Rightarrow> json list \<Rightarrow> string list"
and path_strings_fields :: "(string \<times> json) list \<Rightarrow> string list" where
  "path_strings keyed (JStr s) = (if keyed then [s] else [])"
| "path_strings keyed (JList xs) = path_strings_items keyed xs"
| "path_strings keyed (JObj kvs) = path_strings_fields kvs"
| "path_strings keyed v = []"
| "path_strings_items keyed [] = []"
| "path_strings_items keyed (x # xs) = path_strings keyed x @ path_strings_items keyed xs"
| "path_strings_fields [] = []"
| "path_strings_fields ((k, v) # kvs) = path_strings (is_path_key k) v @ path_strings_fields kvs"

text \<open>What is left when the path strings are blanked out.\<close>

fun blank :: "bool \<Rightarrow> json \<Rightarrow> json"
and blank_items :: "bool \<Rightarrow> json list \<Rightarrow> json list"
and blank_fields :: "(string \<times> json) list \<Rightarrow> (string \<times> json) list" where
  "blank keyed (JStr s) = (if keyed then JNull else JStr s)"
| "blank keyed (JList xs) = JList (blank_items keyed xs)"
| "blank keyed (JObj kvs) = JObj (blank_fields kvs)"
| "blank keyed v = v"
| "blank_items keyed [] = []"
| "blank_items keyed (x # xs) = blank keyed x # blank_items keyed xs"
| "blank_fields [] = []"
| "blank_fields ((k, v) # kvs) = (k, blank (is_path_key k) v) # blank_fields kvs"

definition acceptable :: "(path \<Rightarrow> path) \<Rightarrow> (path \<Rightarrow> path) \<Rightarrow> path list \<Rightarrow> string \<Rightarrow> bool" where
  "acceptable expand resolve roots s \<longleftrightarrow> is_absolute (expand (path_of s)) \<and>
     (\<exists>r\<in>set roots. under_root (resolve (expand (path_of s))) (resolve (expand r)))"

lemma validate_path_iff:
  "validate_path_under_roots expand resolve roots label (Some (path_of s)) =
     (if acceptable expand resolve roots s then Inr (Some (resolve (expand (path_of s)))) else
      validate_path_under_roots expand resolve roots label (Some (path_of s)))"
  "validate_path_under_roots expand resolve roots label (Some (path_of s)) = Inr x \<longleftrightarrow>
     acceptable expand resolve roots s \<and> x = Some (resolve (expand (path_of s)))"
  by (auto simp: validate_path_under_roots_def acceptable_def Let_def list_ex_iff)

lemma validate_payload_spec:
  "(\<forall>w. validate_payload expand resolve roots keyed label v = Inr w \<longrightarrow>
      (\<forall>s\<in>set (path_strings keyed v). acceptable expand resolve roots s) \<and> blank keyed w = blank keyed v \<and>
      path_strings keyed w = map (\<lambda>s. as_posix (resolve (expand (path_of s)))) (path_strings keyed v)) \<and>
   ((\<forall>s\<in>set (path_strings keyed v). acceptable expand resolve roots s) \<longrightarrow>
      (\<exists>w. validate_payload expand resolve roots keyed label v = Inr w))"
  "(\<forall>w. validate_items expand resolve roots keyed label i xs = Inr w \<longrightarrow>
      (\<forall>s\<in>set (path_strings_items keyed xs). acceptable expand resolve roots s) \<and> blank_items keyed w = blank_items keyed xs \<and>
      path_strings_items keyed w = map (\<lambda>s. as_posix (resolve (expand (path_of s)))) (path_strings_items keyed xs)) \<and>
   ((\<forall>s\<in>set (path_strings_items keyed xs). acceptable expand resolve roots s) \<longrightarrow>
      (\<exists>w. validate_items expand resolve roots keyed label i xs = Inr w))"
  "(\<forall>w. validate_fields expand resolve roots label kvs = Inr w \<longrightarrow>
      (\<forall>s\<in>set (path_strings_fields kvs). acceptable expand resolve roots s) \<and> blank_fields w = blank_fields kvs \<and>
      path_strings_fields w = map (\<lambda>s. as_posix (resolve (expand (path_of s)))) (path_strings_fields kvs)) \<and>
   ((\<forall>s\<in>set (path_strings_fields kvs). acceptable expand resolve roots s) \<longrightarrow>
      (\<exists>w. validate_fields expand resolve roots label kvs = Inr w))"
proof (induction expand resolve roots keyed label v and expand resolve roots keyed label i xs and expand resolve roots label kvs
    rule: validate_payload_validate_items_validate_fields.induct)
  case (1 expand resolve roots keyed label s)
  then show ?case
    using validate_path_iff(2) [of expand resolve roots label s]
    by (cases "validate_path_under_roots expand resolve roots label (Some (path_of s))") (auto split: option.splits)
next
  case (6 expand resolve roots keyed label i x xs)
  show ?case
  proof (cases "validate_payload expand resolve roots keyed (label @ ''['' @ show_nat i @ '']'') x")
    case (Inl e)
    then show ?thesis using 6(1) by (auto simp: ball_Un)
  next
    case (Inr y)
    show ?thesis
      using 6(1) 6(2) [OF Inr] Inr
      by (cases "validate_items expand resolve roots keyed label (Suc i) xs") (simp_all add: ball_Un)
  qed
next
  case (8 expand resolve roots label k v kvs)
  show ?case
  proof (cases "validate_payload expand resolve roots (is_path_key k) (label @ ''.'' @ k) v")
    case (Inl e)
    then show ?thesis using 8(1) by (auto simp: ball_Un)
  next
    case (Inr y)
    show ?thesis
      using 8(1) 8(2) [OF Inr] Inr
      by (cases "validate_fields expand resolve roots label kvs") (simp_all add: ball_Un)
  qed
next
  case (2 expand resolve roots keyed label xs)
  then show ?case by (cases "validate_items expand resolve roots keyed label 0 xs") auto
next
  case (3 expand resolve roots keyed label kvs)
  then show ?case by (cases "validate_fields expand resolve roots label kvs") auto
qed auto

text \<open>C36: A payload is accepted exactly when every path in it, at any depth, is absolute and lies in a
  configured folder; what is stored then has the resolved paths and nothing else changed.\<close>

theorem payload_paths_lie_in_roots:
  "((\<exists>w. validate_payload expand resolve roots keyed label v = Inr w) \<longleftrightarrow>
     (\<forall>s\<in>set (path_strings keyed v). is_absolute (expand (path_of s)) \<and>
        (\<exists>r\<in>set roots. under_root (resolve (expand (path_of s))) (resolve (expand r))))) \<and>
   (\<forall>w. validate_payload expand resolve roots keyed label v = Inr w \<longrightarrow>
     blank keyed w = blank keyed v \<and>
     path_strings keyed w = map (\<lambda>s. as_posix (resolve (expand (path_of s)))) (path_strings keyed v))"
  using validate_payload_spec(1) [of expand resolve roots keyed label v] unfolding acceptable_def by blast


subsection \<open>Concrete paths\<close>

definition media_mapping :: "raw_mapping list option" where
  "media_mapping = Some [\<lparr>rm_label = None, rm_server = Some ''/media'', rm_worker = Some ''/w''\<rparr>]"

lemma mapped_path_stays_below_folder_witness:
  "remap_worker_path_to_server_path id id (Some ''/w/../etc/passwd'') media_mapping = Some (path_of ''/w/../etc/passwd'') \<and>
   (\<exists>ws. remap_worker_path_to_server_path id id (Some ''/w/tv/../a.mkv'') media_mapping = Some \<lparr>root = ''/'', parts = ''media'' # ws\<rparr> \<and>
      ''..'' \<notin> set ws)"
proof -
  have up: "\<forall>m\<in>set (normalise_path_mappings id id media_mapping).
      \<not> prefix ''..'' (normalise_worker_path_text (looks_like_windows_path s \<or> looks_like_windows_path (wm_worker m)) (wm_worker m))"
    if "\<not> looks_like_windows_path s" for s
  proof -
    have "list_all (\<lambda>m. \<not> looks_like_windows_path (wm_worker m) \<and> \<not> prefix ''..'' (normalise_worker_path_text False (wm_worker m)))
        (normalise_path_mappings id id media_mapping)" by code_simp
    then show ?thesis using that by (auto simp: list_all_iff)
  qed
  have n: "\<not> looks_like_windows_path ''/w/tv/../a.mkv''" "\<not> looks_like_windows_path ''/w/../etc/passwd''" by code_simp+
  have r: "remap_worker_path_to_server_path id id (Some ''/w/tv/../a.mkv'') media_mapping = Some (path_of ''/media/a.mkv'')"
    "remap_worker_path_to_server_path id id (Some ''/w/../etc/passwd'') media_mapping = Some (path_of ''/w/../etc/passwd'')"
    by code_simp+
  have d: "path_of ''/media/a.mkv'' \<noteq> path_of ''/w/tv/../a.mkv''"
    "list_all (\<lambda>m. path_of (wm_server m) = \<lparr>root = ''/'', parts = [''media'']\<rparr>) (normalise_path_mappings id id media_mapping)"
    by code_simp+
  from mapped_path_stays_below_folder [OF r(1) up [OF n(1)]] d r show ?thesis by (auto simp: list_all_iff)
qed

lemma single_mapping_round_trip_witness:
  "\<exists>t. remap_server_path id id (as_posix \<lparr>root = ''/'', parts = [''media'', ''a.mkv'']\<rparr>) media_mapping = Some t \<and>
     remap_worker_path_to_server_path id id (Some t) media_mapping = Some \<lparr>root = ''/'', parts = [''media'', ''a.mkv'']\<rparr>"
proof -
  have m: "normalise_path_mappings id id media_mapping = [\<lparr>wm_label = None, wm_server = ''/media'', wm_worker = ''/w''\<rparr>]"
    by code_simp
  have "as_posix \<lparr>root = ''/'', parts = [''media'']\<rparr> = ''/media''" "as_posix \<lparr>root = ''/'', parts = [''w'']\<rparr> = ''/w''"
    "list_all wf_name [''media'', ''w'', ''a.mkv'']" by code_simp+
  then show ?thesis
    using single_mapping_round_trip [OF m, of "\<lparr>root = ''/'', parts = [''media'']\<rparr>" "\<lparr>root = ''/'', parts = [''w'']\<rparr>"
        "\<lparr>root = ''/'', parts = [''media'', ''a.mkv'']\<rparr>" "[''a.mkv'']"]
    by (simp add: plain_worker_path_def wf_path_def)
qed

definition sample_payload :: json where
  "sample_payload = JObj [(''note'', JStr ''/etc/x''), (''moves'', JList [JObj [(''backup_path'', JStr ''/media/a.bak'')]])]"

lemma payload_paths_lie_in_roots_witness:
  "(\<exists>w. validate_payload id id [path_of ''/media''] False ''details'' sample_payload = Inr w \<and>
      path_strings False w = [''/media/a.bak'']) \<and>
   \<not> (\<exists>w. validate_payload id id [path_of ''/media''] True ''details'' (JList [JStr ''/media/a'', JStr ''/etc/passwd'']) = Inr w)"
proof -
  let ?root = "[path_of ''/media'']"
  have s: "path_strings False sample_payload = [''/media/a.bak'']"
    "path_strings True (JList [JStr ''/media/a'', JStr ''/etc/passwd'']) = [''/media/a'', ''/etc/passwd'']" by code_simp+
  have a: "is_absolute (path_of ''/media/a.bak'')" "under_root (path_of ''/media/a.bak'') (path_of ''/media'')"
    "\<not> under_root (path_of ''/etc/passwd'') (path_of ''/media'')" "as_posix (path_of ''/media/a.bak'') = ''/media/a.bak''"
    by code_simp+
  obtain w where w: "validate_payload id id ?root False ''details'' sample_payload = Inr w"
    using conjunct1 [OF payload_paths_lie_in_roots, of id id ?root False "''details''" sample_payload] s(1) a by auto
  moreover have "path_strings False w = [''/media/a.bak'']" using conjunct2 [OF payload_paths_lie_in_roots, rule_format, OF w] s(1) a(4) by simp
  ultimately show ?thesis
    using conjunct1 [OF payload_paths_lie_in_roots, of id id ?root True "''details''" "JList [JStr ''/media/a'', JStr ''/etc/passwd'']"] s(2) a(3)
    by auto
qed

end
