(* ===== verification/Job_Automaton.thy ===== *)
theory Job_Automaton
  imports Orchestration Worker_Execution
begin

text \<open>
  The contract of the job table: the life of a job as an automaton on its row, and the lemmas that
  every operation of the repository and of the scheduling and interruption passes is a sequence of
  its steps. The handlers of the services are refinements of it: what holds along the automaton
  holds for each of them.
\<close>

subsection \<open>The life of a row\<close>

text \<open>What a row keeps for life.\<close>

definition same_job :: "job \<Rightarrow> job \<Rightarrow> bool" where
  "same_job j k \<longleftrightarrow> j_id k = j_id j \<and> j_tracked_file_id k = j_tracked_file_id j \<and>
     j_plan_snapshot_id k = j_plan_snapshot_id j \<and> j_attempt_count k = j_attempt_count j \<and>
     j_backup_policy k = j_backup_policy j \<and> j_delete_replaced_source k = j_delete_replaced_source j \<and>
     j_job_kind k = j_job_kind j \<and> j_created_at k = j_created_at j"

text \<open>The control state: who holds the row, since when, and how it ended.\<close>

definition same_control :: "job \<Rightarrow> job \<Rightarrow> bool" where
  "same_control j k \<longleftrightarrow> j_status k = j_status j \<and> j_assigned_worker_id k = j_assigned_worker_id j \<and>
     j_cleared_at k = j_cleared_at j \<and> j_started_at k = j_started_at j \<and> j_completed_at k = j_completed_at j \<and>
     j_scheduled_for_at k = j_scheduled_for_at j \<and> j_interrupted_at k = j_interrupted_at j"

definition settled_statuses :: "job_status set" where
  "settled_statuses = {JS_COMPLETED, JS_FAILED, JS_CANCELLED, JS_SKIPPED, JS_MANUAL_REVIEW}"

inductive row_step :: "job \<Rightarrow> job \<Rightarrow> bool" where
  note_row: "same_job j k \<Longrightarrow> same_control j k \<Longrightarrow> row_step j k"
| claim_row: "same_job j k \<Longrightarrow> j_status j = JS_PENDING \<Longrightarrow> j_cleared_at j = None \<Longrightarrow>
    j_status k = JS_RUNNING \<Longrightarrow> j_assigned_worker_id k \<noteq> None \<Longrightarrow> j_started_at k \<noteq> None \<Longrightarrow> j_cleared_at k = None \<Longrightarrow>
    j_scheduled_for_at k = j_scheduled_for_at j \<Longrightarrow> row_step j k"
| postpone_row: "same_job j k \<Longrightarrow> j_status j \<in> {JS_PENDING, JS_SCHEDULED} \<Longrightarrow> j_status k = JS_SCHEDULED \<Longrightarrow>
    j_assigned_worker_id k = j_assigned_worker_id j \<Longrightarrow> j_cleared_at k = j_cleared_at j \<Longrightarrow> row_step j k"
| promote_row: "same_job j k \<Longrightarrow> j_status j = JS_SCHEDULED \<Longrightarrow> j_status k = JS_PENDING \<Longrightarrow> j_scheduled_for_at k = None \<Longrightarrow>
    j_assigned_worker_id k = j_assigned_worker_id j \<Longrightarrow> j_cleared_at k = j_cleared_at j \<Longrightarrow> row_step j k"
| cancel_row: "same_job j k \<Longrightarrow> j_status j \<in> {JS_PENDING, JS_SCHEDULED, JS_INTERRUPTED} \<Longrightarrow> j_status k = JS_CANCELLED \<Longrightarrow>
    j_completed_at k \<noteq> None \<Longrightarrow> j_assigned_worker_id k = None \<Longrightarrow> j_scheduled_for_at k = None \<Longrightarrow>
    j_cleared_at k = j_cleared_at j \<Longrightarrow> row_step j k"
| interrupt_row: "same_job j k \<Longrightarrow> j_status j = JS_RUNNING \<Longrightarrow> j_status k = JS_INTERRUPTED \<Longrightarrow> j_interrupted_at k \<noteq> None \<Longrightarrow>
    j_assigned_worker_id k = None \<Longrightarrow> j_scheduled_for_at k = j_scheduled_for_at j \<Longrightarrow> j_cleared_at k = j_cleared_at j \<Longrightarrow> row_step j k"
| finish_row: "same_job j k \<Longrightarrow> j_status j \<notin> {JS_PENDING, JS_SCHEDULED, JS_COMPLETED} \<Longrightarrow> j_status k \<in> settled_statuses \<Longrightarrow>
    j_completed_at k \<noteq> None \<Longrightarrow> j_assigned_worker_id k = None \<Longrightarrow> j_scheduled_for_at k = None \<Longrightarrow>
    j_cleared_at k = j_cleared_at j \<Longrightarrow> row_step j k"
| clear_row: "same_job j k \<Longrightarrow> j_status j \<notin> set active_job_statuses \<Longrightarrow> j_status k = j_status j \<Longrightarrow>
    j_assigned_worker_id k = j_assigned_worker_id j \<Longrightarrow> j_completed_at k = j_completed_at j \<Longrightarrow>
    j_interrupted_at k = j_interrupted_at j \<Longrightarrow> j_scheduled_for_at k = j_scheduled_for_at j \<Longrightarrow> row_step j k"


definition order_ok :: "job \<Rightarrow> bool" where
  "order_ok j \<longleftrightarrow> 1 \<le> j_attempt_count j \<and>
     j_backup_policy j \<in> {''keep'', ''delete_after_success'', ''keep_for_1_day''} \<and>
     (j_delete_replaced_source j \<longleftrightarrow> j_backup_policy j = ''delete_after_success'')"

definition fresh_row :: "job \<Rightarrow> bool" where
  "fresh_row j \<longleftrightarrow> j_assigned_worker_id j = None \<and> j_cleared_at j = None \<and> j_started_at j = None \<and>
     (j_status j = JS_PENDING \<and> j_scheduled_for_at j = None \<or> j_status j = JS_SCHEDULED) \<and> order_ok j"

text \<open>The table: rows take steps and fresh rows are added; the unique index holds all along.\<close>

inductive edits :: "job list \<Rightarrow> job list \<Rightarrow> bool" for js where
  edits_none: "edits js js"
| edits_step: "edits js ks \<Longrightarrow> k \<in> set ks \<Longrightarrow> row_step k k' \<Longrightarrow>
    one_active_per_file (map (\<lambda>r. if j_id r = j_id k then k' else r) ks) \<Longrightarrow>
    edits js (map (\<lambda>r. if j_id r = j_id k then k' else r) ks)"
| edits_new: "edits js ks \<Longrightarrow> fresh_row k \<Longrightarrow> j_id k \<notin> j_id ` set ks \<Longrightarrow> one_active_per_file (ks @ [k]) \<Longrightarrow> edits js (ks @ [k])"

subsection \<open>What the automaton keeps\<close>

definition row_ok :: "job \<Rightarrow> bool" where
  "row_ok j \<longleftrightarrow>
     (j_assigned_worker_id j \<noteq> None \<longleftrightarrow> j_status j = JS_RUNNING) \<and>
     (j_status j = JS_RUNNING \<longrightarrow> j_started_at j \<noteq> None) \<and>
     (j_scheduled_for_at j \<noteq> None \<longrightarrow> j_status j = JS_SCHEDULED) \<and>
     (j_status j \<in> settled_statuses \<longrightarrow> j_completed_at j \<noteq> None) \<and>
     (j_status j = JS_INTERRUPTED \<longrightarrow> j_interrupted_at j \<noteq> None) \<and>
     (j_cleared_at j \<noteq> None \<longrightarrow> j_status j \<notin> set active_job_statuses) \<and>
     order_ok j"

lemma order_ok_same: "same_job j k \<Longrightarrow> order_ok k = order_ok j"
  by (simp add: order_ok_def same_job_def)

lemma settled_not_active: "s \<in> settled_statuses \<Longrightarrow> s \<notin> set active_job_statuses \<and> s \<noteq> JS_RUNNING \<and> s \<noteq> JS_INTERRUPTED \<and> s \<noteq> JS_SCHEDULED"
  by (auto simp: settled_statuses_def active_job_statuses_def)

lemma row_step_same: "row_step j k \<Longrightarrow> same_job j k"
  by (auto elim: row_step.cases)

lemma row_step_ok:
  assumes "row_step j k" "row_ok j"
  shows "row_ok k"
proof -
  have "order_ok k" using assms order_ok_same [OF row_step_same [OF assms(1)]] by (simp add: row_ok_def)
  note ok = assms(2) this
  from assms(1) show ?thesis
  proof (cases rule: row_step.cases)
    case finish_row
    then show ?thesis using assms(2) \<open>order_ok k\<close> settled_not_active [OF finish_row(3)] by (simp add: row_ok_def)
  next
    case note_row
    then show ?thesis using ok
      by (cases "j_status j") (simp_all add: row_ok_def same_control_def settled_statuses_def active_job_statuses_def)
  next
    case claim_row
    then show ?thesis using ok
      by (cases "j_status j") (simp_all add: row_ok_def same_control_def settled_statuses_def active_job_statuses_def)
  next
    case postpone_row
    then show ?thesis using ok
      by (cases "j_status j") (simp_all add: row_ok_def same_control_def settled_statuses_def active_job_statuses_def)
  next
    case promote_row
    then show ?thesis using ok
      by (cases "j_status j") (simp_all add: row_ok_def same_control_def settled_statuses_def active_job_statuses_def)
  next
    case cancel_row
    then show ?thesis using ok
      by (cases "j_status j") (simp_all add: row_ok_def same_control_def settled_statuses_def active_job_statuses_def)
  next
    case interrupt_row
    then show ?thesis using ok
      by (cases "j_status j") (simp_all add: row_ok_def same_control_def settled_statuses_def active_job_statuses_def)
  next
    case clear_row
    then show ?thesis using ok
      by (cases "j_status j") (simp_all add: row_ok_def same_control_def settled_statuses_def active_job_statuses_def)
  qed
qed

lemma row_step_completed:
  assumes "row_step j k" "j_status j = JS_COMPLETED"
  shows "j_status k = JS_COMPLETED \<and> j_completed_at k = j_completed_at j"
  using assms by (cases rule: row_step.cases) (auto simp: same_control_def)

text \<open>A job that ended never becomes active again: a retry is another row.\<close>

lemma row_step_inactive:
  assumes "row_step j k" "j_status j \<notin> set active_job_statuses"
  shows "j_status k \<notin> set active_job_statuses"
  using assms(1)
proof (cases rule: row_step.cases)
  case finish_row
  then show ?thesis using settled_not_active by blast
qed (use assms(2) in \<open>auto simp: same_control_def active_job_statuses_def\<close>)

lemma fresh_row_ok: "fresh_row j \<Longrightarrow> row_ok j"
  by (auto simp: fresh_row_def row_ok_def settled_statuses_def active_job_statuses_def)

lemma row_step_id: "row_step j k \<Longrightarrow> j_id k = j_id j"
  using row_step_same by (auto simp: same_job_def)

lemma edits_trans: "edits ks ls \<Longrightarrow> edits js ks \<Longrightarrow> edits js ls"
  by (induction rule: edits.induct) (auto intro: edits.intros)

lemma edits_keyed:
  assumes "edits js ks" "distinct (map j_id js)" "one_active_per_file js"
  shows "distinct (map j_id ks) \<and> one_active_per_file ks \<and> (\<exists>new. map j_id ks = map j_id js @ new)"
  using assms
proof (induction rule: edits.induct)
  case (edits_step ks k k')
  have "map j_id (map (\<lambda>r. if j_id r = j_id k then k' else r) ks) = map j_id ks"
    using row_step_id [OF edits_step(3)] by simp
  then show ?case using edits_step by (simp del: map_map)
qed auto

lemma edits_all_ok:
  assumes "edits js ks" "\<forall>j\<in>set js. row_ok j"
  shows "\<forall>k\<in>set ks. row_ok k"
  using assms by (induction rule: edits.induct) (auto dest: row_step_ok fresh_row_ok)

text \<open>Every row lives on, by steps of the automaton.\<close>

lemma edits_follow:
  assumes "edits js ks" "j \<in> set js" "distinct (map j_id js)" "one_active_per_file js"
  shows "\<exists>k\<in>set ks. row_step\<^sup>*\<^sup>* j k"
  using assms
proof (induction rule: edits.induct)
  case (edits_step ks k k')
  then obtain r where r: "r \<in> set ks" "row_step\<^sup>*\<^sup>* j r" by blast
  show ?case
  proof (cases "j_id r = j_id k")
    case True
    have "distinct (map j_id ks)" using edits_keyed [OF edits_step(1)] edits_step.prems by blast
    then have "r = k" using True r(1) edits_step(2) by (auto simp: distinct_map dest: inj_onD)
    then have "row_step\<^sup>*\<^sup>* j k'" using r(2) edits_step(3) by auto
    then show ?thesis using edits_step(2) by (auto intro!: bexI [of _ k'] image_eqI [of _ _ k])
  qed (use r in \<open>auto intro!: bexI [of _ r]\<close>)
qed auto

lemma row_steps_same: "row_step\<^sup>*\<^sup>* j k \<Longrightarrow> same_job j k"
  by (induction rule: rtranclp_induct) (auto simp: same_job_def dest!: row_step_same)

lemma row_steps_completed:
  "row_step\<^sup>*\<^sup>* j k \<Longrightarrow> j_status j = JS_COMPLETED \<Longrightarrow> j_status k = JS_COMPLETED \<and> j_completed_at k = j_completed_at j"
  by (induction rule: rtranclp_induct) (auto dest!: row_step_completed)

lemma row_steps_inactive:
  "row_step\<^sup>*\<^sup>* j k \<Longrightarrow> j_status j \<notin> set active_job_statuses \<Longrightarrow> j_status k \<notin> set active_job_statuses"
  by (induction rule: rtranclp_induct) (auto dest!: row_step_inactive)

subsection \<open>Writes are edits\<close>

lemma stamp_row:
  assumes "row_step j k"
  shows "row_step j (k\<lparr>j_updated_at := t\<rparr>)"
proof -
  have same: "same_job j (k\<lparr>j_updated_at := t\<rparr>)" using row_step_same [OF assms] by (simp add: same_job_def)
  from assms show ?thesis
  proof (cases rule: row_step.cases)
    case note_row
    then show ?thesis using same by (intro row_step.note_row) (simp_all add: same_control_def)
  next
    case claim_row
    then show ?thesis using same by (intro row_step.claim_row) (simp_all add: same_control_def)
  next
    case postpone_row
    then show ?thesis using same by (intro row_step.postpone_row) (simp_all add: same_control_def)
  next
    case promote_row
    then show ?thesis using same by (intro row_step.promote_row) (simp_all add: same_control_def)
  next
    case cancel_row
    then show ?thesis using same by (intro row_step.cancel_row) (simp_all add: same_control_def)
  next
    case interrupt_row
    then show ?thesis using same by (intro row_step.interrupt_row) (simp_all add: same_control_def)
  next
    case finish_row
    then show ?thesis using same by (intro row_step.finish_row) (simp_all add: same_control_def)
  next
    case clear_row
    then show ?thesis using same by (intro row_step.clear_row) (simp_all add: same_control_def)
  qed
qed

lemma row_step_refl: "row_step j j"
  by (rule note_row) (simp_all add: same_job_def same_control_def)

lemma stamped_row: "row_step j (f j) \<Longrightarrow> row_step j (stamped now f j)"
  by (simp add: stamped_def stamp_row row_step_refl)

lemma rewrite_edits:
  assumes "well_keyed d" "find_job d i = Some j" "row_step j (f j)"
    and "one_active_per_file (rewrite_jobs now {i} f (db_jobs d))"
  shows "edits (db_jobs d) (rewrite_jobs now {i} f (db_jobs d))"
proof -
  have j: "j \<in> set (db_jobs d)" "j_id j = i" using find_job_Some [OF assms(2)] by auto
  have "rewrite_jobs now {i} f (db_jobs d) = map (\<lambda>r. if j_id r = j_id j then stamped now f j else r) (db_jobs d)"
  proof (unfold rewrite_jobs_def, rule map_cong [OF refl])
    fix r assume "r \<in> set (db_jobs d)"
    then have "j_id r = i \<Longrightarrow> r = j" using find_job_unique [OF assms(1)] assms(2) by fastforce
    then show "(if j_id r \<in> {i} then stamped now f r else r) = (if j_id r = j_id j then stamped now f j else r)"
      unfolding j(2) by (cases "j_id r = i") simp_all
  qed
  note eq = this
  have "one_active_per_file (map (\<lambda>r. if j_id r = j_id j then stamped now f j else r) (db_jobs d))"
    using assms(4) unfolding eq .
  from edits_step [OF edits_none j(1) stamped_row [where f = f, OF assms(3)] this]
  show ?thesis unfolding eq .
qed

lemma write_edits:
  assumes "well_keyed d" "write_job now i f d = Inr d'" "\<And>j. find_job d i = Some j \<Longrightarrow> row_step j (f j)"
  shows "edits (db_jobs d) (db_jobs d')"
proof -
  obtain j where j: "find_job d i = Some j" using assms(2) by (auto simp: write_job_def on_job_Inr)
  note st = assms(3) [OF j]
  have "j_id (f j) = i" using row_step_id [OF st] find_job_Some [OF j] by simp
  from assms(2) [unfolded write_job_eq [where f = f, OF assms(1) j this]]
  have "db_jobs d' = rewrite_jobs now {i} f (db_jobs d)" "one_active_per_file (rewrite_jobs now {i} f (db_jobs d))"
    by (auto simp: flush_Inr)
  then show ?thesis using rewrite_edits [where f = f, OF assms(1) j st] by simp
qed

text \<open>Many rows at once, when no write makes a row active.\<close>

lemma bulk_edits:
  assumes "well_keyed d" "\<And>j. j_id (f j) = j_id j"
    and "\<And>j. j \<in> set (db_jobs d) \<Longrightarrow> j_id j \<in> set is \<Longrightarrow> row_step j (f j) \<and> calm f j"
    and "distinct is"
  shows "edits (db_jobs d) (rewrite_jobs now (set is) f (db_jobs d))"
  using assms(1,3,4)
proof (induction "is" arbitrary: d)
  case Nil
  show ?case by (simp add: rewrite_jobs_def edits_none)
next
  case (Cons i "is")
  let ?d = "d\<lparr>db_jobs := rewrite_jobs now {i} f (db_jobs d)\<rparr>"
  have one: "edits (db_jobs d) (db_jobs ?d) \<and> well_keyed ?d"
  proof (cases "find_job d i")
    case None
    then have "\<And>j. j \<in> set (db_jobs d) \<Longrightarrow> j_id j \<notin> {i}" by (auto simp: find_job_def find_None_iff)
    from rewrite_absent [OF this, where now = now and f = f] show ?thesis using Cons.prems(1) by (simp add: edits_none)
  next
    case (Some j)
    have ok: "row_step j (f j) \<and> calm f j" using Cons.prems(2) find_job_Some [OF Some] by auto
    have "well_keyed ?d" using calm_write_job(2) [where f = f, OF Cons.prems(1) Some] ok by blast
    then show ?thesis
      using rewrite_edits [where f = f, OF Cons.prems(1) Some] ok by (simp add: well_keyed_def)
  qed
  have same: "k \<in> set (db_jobs d)" if "k \<in> set (db_jobs ?d)" "j_id k \<in> set is" for k
    using that Cons.prems(3) assms(2) by (auto simp: rewrite_jobs_def stamped_fields split: if_splits)
  have rest: "row_step k (f k) \<and> calm f k" if "k \<in> set (db_jobs ?d)" "j_id k \<in> set is" for k
    using Cons.prems(2) [OF same [OF that]] that(2) by simp
  have "edits (db_jobs ?d) (rewrite_jobs now (set is) f (db_jobs ?d))"
    by (rule Cons.IH) (use one rest Cons.prems(3) in blast, use rest in blast, use Cons.prems(3) in simp)
  then show ?case
    using edits_trans one rewrite_twice [where f = f, OF _ assms(2)] Cons.prems(3) by simp
qed


lemma each_job_edits:
  assumes "well_keyed d" "each_job step is d = Inr d'"
    and "\<And>d d' i. i \<in> set is \<Longrightarrow> well_keyed d \<Longrightarrow> step i d = Inr d' \<Longrightarrow> edits (db_jobs d) (db_jobs d')"
  shows "edits (db_jobs d) (db_jobs d')"
  using assms
proof (induction "is" arbitrary: d)
  case (Cons i "is")
  from Cons(3) obtain d1 where d1: "step i d = Inr d1" "each_job step is d1 = Inr d'" by (auto split: sum.splits)
  note one = Cons(4) [OF list.set_intros(1) Cons(2) d1(1)]
  have "well_keyed d1" using edits_keyed [OF one] Cons(2) by (simp add: well_keyed_def)
  have "edits (db_jobs d1) (db_jobs d')"
    by (rule Cons(1) [OF \<open>well_keyed d1\<close> d1(2)]) (rule Cons(4) [OF list.set_intros(2)])
  then show ?case using edits_trans one by blast
qed (simp add: edits_none)

subsection \<open>The operations of the repository\<close>

lemma mark_cancelling_edits:
  "well_keyed d \<Longrightarrow> mark_cancelling now i stamp d = Inr d' \<Longrightarrow> edits (db_jobs d) (db_jobs d')"
  unfolding mark_cancelling_def
  by (erule write_edits, assumption) (rule note_row, simp_all add: same_job_def same_control_def)

lemma mark_cancellation_requested_edits:
  "well_keyed d \<Longrightarrow> mark_cancellation_requested now i stamp reason d = Inr d' \<Longrightarrow> edits (db_jobs d) (db_jobs d')"
  unfolding mark_cancellation_requested_def
  by (erule write_edits, assumption) (rule note_row, simp_all add: same_job_def same_control_def)

lemma record_progress_edits:
  "well_keyed d \<Longrightarrow> record_progress now i u d = Inr d' \<Longrightarrow> edits (db_jobs d) (db_jobs d')"
  unfolding record_progress_def
  by (erule write_edits, assumption) (rule note_row, simp_all add: same_job_def same_control_def)

lemma mark_cancelled_edits:
  assumes "well_keyed d" "mark_cancelled now i stamp reason d = Inr d'"
    and "\<And>j. find_job d i = Some j \<Longrightarrow> j_status j \<notin> {JS_RUNNING} \<union> settled_statuses"
  shows "edits (db_jobs d) (db_jobs d')"
proof (rule write_edits [OF assms(1) assms(2) [unfolded mark_cancelled_def]])
  fix j assume "find_job d i = Some j"
  from assms(3) [OF this] have "j_status j \<in> {JS_PENDING, JS_SCHEDULED, JS_INTERRUPTED}"
    by (cases "j_status j") (auto simp: settled_statuses_def)
  then show "row_step j (cancelled stamp reason j)"
    by (intro cancel_row) (simp_all add: cancelled_def same_job_def)
qed

lemma mark_cleared_edits:
  assumes "well_keyed d" "mark_cleared now i stamp reason d = Inr d'"
    and "\<And>j. find_job d i = Some j \<Longrightarrow> j_status j \<notin> set active_job_statuses"
  shows "edits (db_jobs d) (db_jobs d')"
  by (rule write_edits [OF assms(1) assms(2) [unfolded mark_cleared_def]], rule clear_row)
     (use assms(3) in \<open>simp_all add: same_job_def\<close>)

lemma mark_interrupted_edits:
  assumes "well_keyed d" "mark_interrupted now i stamp reason retryable d = Inr d'"
    and "\<And>j. find_job d i = Some j \<Longrightarrow> j_status j = JS_RUNNING"
  shows "edits (db_jobs d) (db_jobs d')"
  by (rule write_edits [OF assms(1) assms(2) [unfolded mark_interrupted_def]], rule interrupt_row)
     (use assms(3) in \<open>simp_all add: same_job_def\<close>)

lemma status_of_result_settled: "status_of_result s = Some st \<Longrightarrow> st \<in> settled_statuses"
  by (auto simp: status_of_result_def settled_statuses_def split: if_splits)

lemma with_result_control:
  "j_status (with_result dv dr st r j) = st" "j_assigned_worker_id (with_result dv dr st r j) = None"
  "j_scheduled_for_at (with_result dv dr st r j) = None" "j_completed_at (with_result dv dr st r j) = Some (er_completed_at r)"
  "j_cleared_at (with_result dv dr st r j) = j_cleared_at j"
  by (simp_all add: with_result_def Let_def split: option.splits)

lemma with_result_same: "same_job j (with_result dv dr st r j)"
  by (simp add: same_job_def with_result_def Let_def split: option.splits)

lemma mark_result_edits:
  assumes "well_keyed d" "mark_result dv dr now i r d = Inr d'"
    and "\<And>j. find_job d i = Some j \<Longrightarrow> j_status j \<notin> {JS_PENDING, JS_SCHEDULED, JS_COMPLETED}"
  shows "edits (db_jobs d) (db_jobs d')"
proof -
  obtain st where st: "status_of_result (er_status r) = Some st" "write_job now i (with_result dv dr st r) d = Inr d'"
    using assms(2) by (auto simp: mark_result_def split: option.splits)
  show ?thesis
  proof (rule write_edits [OF assms(1) st(2)])
    fix j assume "find_job d i = Some j"
    then show "row_step j (with_result dv dr st r j)"
      using assms(3) with_result_same status_of_result_settled [OF st(1)]
      by (intro finish_row) (simp_all add: with_result_control)
  qed
qed

lemma claim_edits:
  assumes "well_keyed d" "claim_pending_for_worker now i w backend cap d = Inr (d', x)"
  shows "edits (db_jobs d) (db_jobs d')"
proof (cases "x")
  case None
  then have "db_jobs d' = db_jobs d"
    using assms(2) unfolding claim_eq [OF assms(1)]
    by (auto simp: lock_worker_capacity_def split: option.splits if_splits)
  then show ?thesis by (simp add: edits_none)
next
  case (Some k)
  then obtain j where j: "find_job d i = Some j" "claimable w j"
    and d': "db_jobs d' = rewrite_jobs now {i} (claiming now w backend) (db_jobs d)"
    using assms(2) unfolding claim_eq [OF assms(1)]
    by (auto split: option.splits if_splits)
  have step: "row_step j (claiming now w backend j)"
    using j(2) by (intro claim_row) (simp_all add: claimable_def same_job_def claiming_def starting_def)
  have "calm (claiming now w backend) j" using claimable_active [OF j(2)] by (simp add: calm_def)
  from calm_write_job(2) [OF assms(1) j(1) this, of now]
  have "one_active_per_file (rewrite_jobs now {i} (claiming now w backend) (db_jobs d))" by (simp add: well_keyed_def)
  from rewrite_edits [where f = "claiming now w backend", OF assms(1) j(1) step this] show ?thesis by (simp add: d')
qed

lemma route_to_manual_review_edits:
  assumes "well_keyed d" "route_to_manual_review now i stamp reason category d = Inr d'"
    and "\<And>j. find_job d i = Some j \<Longrightarrow> j_status j \<notin> {JS_PENDING, JS_SCHEDULED, JS_COMPLETED}"
  shows "edits (db_jobs d) (db_jobs d')"
proof -
  let ?f = "reviewed stamp reason category"
  obtain j where j: "find_job d i = Some j" using assms(2) by (auto simp: route_to_manual_review_def on_job_Inr)
  have id: "j_id (?f j) = i" using find_job_Some [OF j] by simp
  have "db_jobs d' = db_jobs (put_job now (?f j) d)"
    using assms(2) by (auto simp: route_to_manual_review_def on_job_def j flush_Inr Let_def reviewed_def split: option.splits)
  then have d': "db_jobs d' = rewrite_jobs now {i} ?f (db_jobs d)"
    using put_job_eq [where f = ?f, OF assms(1) j id] by simp
  have step: "row_step j (?f j)"
    using assms(3) [OF j] by (intro finish_row) (simp_all add: reviewed_def same_job_def settled_statuses_def)
  have "one_active_per_file (rewrite_jobs now {i} ?f (db_jobs d))"
    using calm_write_job(2) [OF assms(1) j reviewed_calm] by (simp add: well_keyed_def)
  from rewrite_edits [where f = ?f, OF assms(1) j step this] show ?thesis by (simp add: d')
qed

lemma new_job_fresh:
  assumes "1 \<le> o_attempt_count opts"
  shows "fresh_row (new_job i now f s opts starts due)"
  using assms normalise_backup_policy_range [of "Some (o_backup_policy opts)"]
  by (auto simp: fresh_row_def order_ok_def new_job_def Let_def delete_replaced_source_normalised normalise_backup_policy_idem)

lemma create_job_edits:
  assumes "well_keyed d" "i \<notin> j_id ` set (db_jobs d)" "1 \<le> o_attempt_count opts"
    and "create_job_from_plan i now tz f s opts d = Inr (d', job)"
  shows "edits (db_jobs d) (db_jobs d') \<and> db_jobs d' = db_jobs d @ [job] \<and> fresh_row job \<and> j_id job = i \<and>
    j_tracked_file_id job = tf_id f \<and> j_plan_snapshot_id job = sn_id s \<and> j_job_kind job = o_job_kind opts \<and>
    j_attempt_count job = o_attempt_count opts"
proof -
  obtain starts due where job: "job = new_job i now f s opts starts due"
    and d': "flush (set_lifecycle now (tf_id f) FL_QUEUED (d\<lparr>db_jobs := db_jobs d @ [job]\<rparr>)) = Inr d'"
    using assms(4) by (auto simp: create_job_from_plan_def Let_def split: sum.splits)
  have "db_jobs d' = db_jobs d @ [job]" "one_active_per_file (db_jobs d @ [job])" using d' by (auto simp: flush_Inr)
  moreover have "j_id job = i" "j_tracked_file_id job = tf_id f" "j_plan_snapshot_id job = sn_id s"
    "j_job_kind job = o_job_kind opts" "j_attempt_count job = o_attempt_count opts"
    by (simp_all add: job new_job_def Let_def)
  ultimately show ?thesis
    using edits_new [OF edits_none [of "db_jobs d"], of job] new_job_fresh [OF assms(3), of i now f s starts due] assms(2) job
    by simp
qed

lemma map_sum_Inr: "map_sum f g x = Inr y \<longleftrightarrow> (\<exists>z. x = Inr z \<and> y = g z)"
  by (cases x) auto

lemma retry_policy_edits:
  assumes "well_keyed d" "i \<notin> j_id ` set (db_jobs d)" "apply_automatic_retry_policy i now tz jid r d = Inr (d', x)"
    and "\<And>j. find_job d jid = Some j \<Longrightarrow> j_status j \<notin> {JS_PENDING, JS_SCHEDULED, JS_COMPLETED} \<and> 0 \<le> j_attempt_count j"
  shows "edits (db_jobs d) (db_jobs d')"
proof -
  obtain j where j: "find_job d jid = Some j" using assms(3) by (auto simp: apply_automatic_retry_policy_def on_job_Inr)
  note out = assms(3) [unfolded apply_automatic_retry_policy_def on_job_def j option.case(2) Let_def]
  have review: "edits (db_jobs d) (db_jobs e)" if "route_to_manual_review now jid a b c d = Inr e" for a b c e
    using route_to_manual_review_edits [OF assms(1) that] assms(4) by blast
  have made: "edits (db_jobs d) (db_jobs e)"
    if "create_job_from_plan i now tz f s (retry_options j (j_attempt_count j + 1) due) d = Inr (e, k)" for f s due e k
  proof -
    have "1 \<le> o_attempt_count (retry_options j (j_attempt_count j + 1) due)"
      using assms(4) [OF j] by (simp add: retry_options_def)
    from create_job_edits [OF assms(1,2) this that] show ?thesis by blast
  qed
  show ?thesis
    using out review made
    by (auto simp: edits_none map_sum_Inr split: if_splits option.splits sum.splits db_error.splits)
qed


subsection \<open>Passes over many rows\<close>

lemma pass_edits:
  assumes "well_keyed d" "distinct (map j_id js)" "set js \<subseteq> set (db_jobs d)" "\<And>j. j_id (f j) = j_id j"
    and "\<And>j. j \<in> set js \<Longrightarrow> row_step j (f j) \<and> calm f j"
    and "\<And>d' i j. well_keyed d' \<Longrightarrow> find_job d' i = Some j \<Longrightarrow> j \<in> set js \<Longrightarrow> db_workers d' = db_workers d \<Longrightarrow>
      step i d' = write_job now i f d'"
    and "each_job step (map j_id js) d = Inr d'"
  shows "edits (db_jobs d) (db_jobs d')"
proof -
  have mine: "j \<in> set js" if mem: "j \<in> set (db_jobs d)" "j_id j \<in> set (map j_id js)" for j
  proof -
    obtain k where "k \<in> set js" "j_id k = j_id j" using mem(2) by auto
    moreover from this have "k = j"
      using find_job_unique [OF assms(1) mem(1)] find_job_unique [OF assms(1), of k] assms(3) by auto
    ultimately show ?thesis by simp
  qed
  have sub: "set (map j_id js) \<subseteq> j_id ` set (db_jobs d)" using assms(3) by auto
  have ok: "row_step j (f j) \<and> calm f j" if "j \<in> set (db_jobs d)" "j_id j \<in> set (map j_id js)" for j
    using assms(5) mine [OF that] by blast
  have "each_job step (map j_id js) d = Inr (d\<lparr>db_jobs := rewrite_jobs now (set (map j_id js)) f (db_jobs d)\<rparr>)"
    by (rule each_job_steps [OF assms(1,2) sub assms(4) _ assms(6) mine refl]) (use ok in blast)+
  then show ?thesis
    using bulk_edits [where f = f, OF assms(1,4) ok assms(2)] assms(7) by simp
qed

lemma queue_ids:
  assumes "well_keyed d"
  shows "distinct (map j_id (sort_key k (filter P (db_jobs d))))" "set (sort_key k (filter P (db_jobs d))) \<subseteq> set (db_jobs d)"
proof -
  have "distinct (map j_id (filter P (db_jobs d)))" using assms by (auto simp: well_keyed_def intro: distinct_map_filter)
  then show "distinct (map j_id (sort_key k (filter P (db_jobs d))))" by (simp add: distinct_map)
qed auto

lemma clear_queue_edits:
  assumes "well_keyed d" "clear_queue now stamp reason d = Inr d'"
  shows "edits (db_jobs d) (db_jobs d')"
proof (rule pass_edits [OF assms(1) _ _ _ _ _ assms(2) [unfolded clear_queue_def]])
  show "distinct (map j_id (clearable_queue d))" "set (clearable_queue d) \<subseteq> set (db_jobs d)"
    unfolding clearable_queue_def in_queue_order_def by (rule queue_ids [OF assms(1)])+
  show "row_step j (cancelled stamp reason j) \<and> calm (cancelled stamp reason) j" if "j \<in> set (clearable_queue d)" for j
  proof
    show "row_step j (cancelled stamp reason j)"
      using that by (intro cancel_row) (auto simp: clearable_queue_def in_queue_order_def cancelled_def same_job_def)
    show "calm (cancelled stamp reason) j" by (simp add: calm_def cancelled_def is_active_def active_job_statuses_def)
  qed
qed (simp add: cancelled_def, simp add: mark_cancelled_def [of now])

lemma clear_failed_history_edits:
  assumes "well_keyed d" "clear_failed_history now stamp ids reason d = Inr d'"
  shows "edits (db_jobs d) (db_jobs d')"
proof (rule pass_edits [OF assms(1) _ _ _ _ _ assms(2) [unfolded clear_failed_history_def mark_cleared_def]])
  show "distinct (map j_id (clearable_history ids d))" "set (clearable_history ids d) \<subseteq> set (db_jobs d)"
    using queue_ids [OF assms(1)] by (simp_all add: clearable_history_def rev_map [symmetric])
  show "row_step j (j\<lparr>j_cleared_at := Some stamp, j_cleared_reason := Some reason\<rparr>)
      \<and> calm (\<lambda>j. j\<lparr>j_cleared_at := Some stamp, j_cleared_reason := Some reason\<rparr>) j" if "j \<in> set (clearable_history ids d)" for j
  proof
    show "row_step j (j\<lparr>j_cleared_at := Some stamp, j_cleared_reason := Some reason\<rparr>)"
      using that by (intro clear_row) (auto simp: clearable_history_def same_job_def active_job_statuses_def)
    show "calm (\<lambda>j. j\<lparr>j_cleared_at := Some stamp, j_cleared_reason := Some reason\<rparr>) j"
      by (simp add: calm_def is_active_def)
  qed
qed simp_all

lemma refreshed_step: "row_step j (refreshed clock tz j)"
proof -
  have "row_step j (j\<lparr>j_status := JS_PENDING, j_scheduled_for_at := None\<rparr>)" if "j_status j = JS_SCHEDULED"
    using that by (intro promote_row) (simp_all add: same_job_def)
  moreover have "row_step j (j\<lparr>j_status := JS_SCHEDULED, j_scheduled_for_at := due\<rparr>)"
    if "j_status j \<in> {JS_PENDING, JS_SCHEDULED}" for due
    using that by (intro postpone_row) (simp_all add: same_job_def)
  ultimately show ?thesis by (simp add: refreshed_def row_step_refl)
qed

lemma refresh_edits:
  assumes "well_keyed d" "\<forall>j\<in>set (list_jobs_for_scheduling limit d). stored_schedule (j_schedule_windows j)"
    and "refresh_scheduled_jobs limit now clock tz d = Inr d'"
  shows "edits (db_jobs d) (db_jobs d')"
proof (rule pass_edits [OF assms(1) _ _ _ _ _ assms(3) [unfolded refresh_scheduled_jobs_def]])
  let ?js = "list_jobs_for_scheduling limit d"
  have dist: "distinct (map j_id (db_jobs d))" using assms(1) by (simp add: well_keyed_def)
  show "distinct (map j_id ?js)"
    unfolding list_jobs_for_scheduling_def in_queue_order_def by (rule taken_ids(1) [OF dist])
  show "set ?js \<subseteq> set (db_jobs d)"
    unfolding list_jobs_for_scheduling_def in_queue_order_def by (auto dest: in_set_takeD)
  show "row_step j (refreshed clock tz j) \<and> calm (refreshed clock tz) j" if "j \<in> set ?js" for j
    using that refreshed_calm [of j clock tz] refreshed_step
    by (auto simp: list_jobs_for_scheduling_def in_queue_order_def dest!: in_set_takeD)
  show "refresh_step now clock tz i e = write_job now i (refreshed clock tz) e"
    if "well_keyed e" "find_job e i = Some j" "j \<in> set ?js" for e i j
    using refresh_step_write [OF that(1,2)] assms(2) that(3) by blast
qed simp

lemma interruptions_edits:
  assumes "well_keyed d" "handle_worker_interruptions nf limit now clock d = Inr d'"
  shows "edits (db_jobs d) (db_jobs d')"
proof (rule pass_edits [OF assms(1) _ _ _ _ _ assms(2) [unfolded handle_worker_interruptions_def]])
  let ?js = "list_running_jobs nf limit d"
  have dist: "distinct (map j_id (db_jobs d))" using assms(1) by (simp add: well_keyed_def)
  show "distinct (map j_id ?js)" unfolding list_running_jobs_def by (rule taken_ids(1) [OF dist])
  show "set ?js \<subseteq> set (db_jobs d)" unfolding list_running_jobs_def by (auto dest: in_set_takeD)
  show "row_step j (interrupted_by clock d j) \<and> calm (interrupted_by clock d) j" if "j \<in> set ?js" for j
  proof
    have "j_status j = JS_RUNNING" using that by (auto simp: list_running_jobs_def dest!: in_set_takeD)
    then show "row_step j (interrupted_by clock d j)"
      by (auto simp: interrupted_by_def interrupted_row_def row_step_refl same_job_def intro!: interrupt_row split: option.split)
  qed (rule interrupted_by_calm)
  show "interruption_step now clock i e = write_job now i (interrupted_by clock d) e"
    if "well_keyed e" "find_job e i = Some j" "db_workers e = db_workers d" for e i j
    by (rule interruption_step_write [OF that])
qed simp

subsection \<open>Databases in order\<close>

definition db_ok :: "db \<Rightarrow> bool" where
  "db_ok d \<longleftrightarrow> well_keyed d \<and> (\<forall>j\<in>set (db_jobs d). row_ok j)"

definition inactive :: "row_id \<Rightarrow> db \<Rightarrow> bool" where
  "inactive i d \<longleftrightarrow> (\<exists>j. find_job d i = Some j \<and> j_status j \<notin> set active_job_statuses)"

lemma edits_db_ok: "db_ok d \<Longrightarrow> edits (db_jobs d) (db_jobs d') \<Longrightarrow> db_ok d'"
  using edits_keyed edits_all_ok by (auto simp: db_ok_def well_keyed_def)

lemma edits_row:
  assumes "well_keyed d" "edits (db_jobs d) (db_jobs d')" "find_job d i = Some j"
  shows "\<exists>k. find_job d' i = Some k \<and> row_step\<^sup>*\<^sup>* j k"
proof -
  have "j \<in> set (db_jobs d)" "j_id j = i" using find_job_Some [OF assms(3)] by auto
  then obtain k where k: "k \<in> set (db_jobs d')" "row_step\<^sup>*\<^sup>* j k"
    using edits_follow [OF assms(2)] assms(1) by (auto simp: well_keyed_def)
  moreover have "well_keyed d'" using edits_keyed [OF assms(2)] assms(1) by (simp add: well_keyed_def)
  moreover have "j_id k = i" using row_steps_same [OF k(2)] \<open>j_id j = i\<close> by (simp add: same_job_def)
  ultimately show ?thesis using find_job_unique [of d' k] by auto
qed

lemma edits_inactive: "well_keyed d \<Longrightarrow> edits (db_jobs d) (db_jobs d') \<Longrightarrow> inactive i d \<Longrightarrow> inactive i d'"
  using edits_row row_steps_inactive unfolding inactive_def by metis

subsection \<open>The contract of a handler\<close>

text \<open>A handler of the job table: where it may run, what it does to the rows is a run of the automaton.\<close>

locale job_handler =
  fixes ready :: "db \<Rightarrow> bool" and run :: "db \<Rightarrow> 'e + db"
  assumes follows: "well_keyed d \<Longrightarrow> ready d \<Longrightarrow> run d = Inr d' \<Longrightarrow> edits (db_jobs d) (db_jobs d')"
begin

lemma keeps_keys:
  assumes "well_keyed d" "ready d" "run d = Inr d'"
  shows "well_keyed d' \<and> (\<exists>new. map j_id (db_jobs d') = map j_id (db_jobs d) @ new)"
  using edits_keyed [OF follows [OF assms]] assms(1) by (auto simp: well_keyed_def)

lemma keeps_rows_ok:
  assumes "well_keyed d" "ready d" "run d = Inr d'" "\<forall>j\<in>set (db_jobs d). row_ok j"
  shows "\<forall>j\<in>set (db_jobs d'). row_ok j"
  using edits_all_ok [OF follows [OF assms(1-3)] assms(4)] .

lemma row_lives_on:
  assumes "well_keyed d" "ready d" "run d = Inr d'" "find_job d i = Some j"
  shows "\<exists>k. find_job d' i = Some k \<and> row_step\<^sup>*\<^sup>* j k"
  by (rule edits_row [OF assms(1) follows [OF assms(1-3)] assms(4)])

lemma completed_stays:
  assumes "well_keyed d" "ready d" "run d = Inr d'" "find_job d i = Some j" "j_status j = JS_COMPLETED"
  shows "\<exists>k. find_job d' i = Some k \<and> j_status k = JS_COMPLETED \<and> j_completed_at k = j_completed_at j"
  using row_lives_on [OF assms(1-4)] row_steps_completed assms(5) by blast

end

interpretation cancelling: job_handler "\<lambda>_. True" "mark_cancelling now i stamp"
  for now i stamp by unfold_locales (rule mark_cancelling_edits)

interpretation cancellation: job_handler "\<lambda>_. True" "mark_cancellation_requested now i stamp reason"
  for now i stamp reason by unfold_locales (rule mark_cancellation_requested_edits)

interpretation progress: job_handler "\<lambda>_. True" "record_progress now i u"
  for now i u by unfold_locales (rule record_progress_edits)

interpretation claiming_job: job_handler "\<lambda>_. True" "\<lambda>d. map_sum id fst (claim_pending_for_worker now i w backend cap d)"
  for now i w backend cap by unfold_locales (auto simp: map_sum_Inr intro: claim_edits)

interpretation result: job_handler
    "\<lambda>d. \<forall>j. find_job d i = Some j \<longrightarrow> j_status j \<notin> {JS_PENDING, JS_SCHEDULED, JS_COMPLETED}" "mark_result dv dr now i r"
  for dv dr now i r by unfold_locales (auto intro: mark_result_edits)

interpretation queue_clearing: job_handler "\<lambda>_. True" "clear_queue now stamp reason"
  for now stamp reason by unfold_locales (rule clear_queue_edits)

interpretation history_clearing: job_handler "\<lambda>_. True" "clear_failed_history now stamp ids reason"
  for now stamp ids reason by unfold_locales (rule clear_failed_history_edits)

interpretation schedule: job_handler
    "\<lambda>d. \<forall>j\<in>set (list_jobs_for_scheduling limit d). stored_schedule (j_schedule_windows j)"
    "refresh_scheduled_jobs limit now clock tz"
  for limit now clock tz by unfold_locales (rule refresh_edits)

interpretation interruptions: job_handler "\<lambda>_. True" "handle_worker_interruptions nf limit now clock"
  for nf limit now clock by unfold_locales (rule interruptions_edits)

end
