(* ===== verification/Jobs_Service.thy ===== *)
theory Jobs_Service
  imports Job_Automaton
begin

text \<open>
  The job operations of the API (\<open>src/apps/api/app/services/jobs.py\<close>, with the review decisions of
  \<open>repositories/manual_review.py\<close> and the plan snapshots of \<open>repositories/snapshots.py\<close>): creating,
  retrying, recovering, cancelling and clearing jobs, the bulk resolution of problem jobs and the
  batches of a folder. An operation is a function of the session's database that returns a result or
  an error together with the database it leaves; a request that fails is rolled back. Logging is left out.
\<close>

subsection \<open>Sessions\<close>

datatype api_error =
    ApiNotFound string | ApiConflict string | ApiValidation string | ApiAuthentication string
  | ApiDependency string | Unhandled db_error | BadPathName | Os_Failure os_error | Crashed | Never_Returns

text \<open>
  A handler may fail, and leaves a state behind also then; a service is a handler of the database.
  \<open>Os_Failure\<close> is an \<open>OSError\<close> nobody catches, \<open>Crashed\<close> another exception, \<open>Never_Returns\<close> a request that hangs.
\<close>

type_synonym ('a, 's) handler = "'s \<Rightarrow> (api_error + 'a) \<times> 's"
type_synonym 'a service = "('a, db) handler"

definition returns :: "'a \<Rightarrow> ('a, 's) handler" where
  "returns x d = (Inr x, d)"

definition fails :: "api_error \<Rightarrow> ('a, 's) handler" where
  "fails e d = (Inl e, d)"

definition andthen :: "('a, 's) handler \<Rightarrow> ('a \<Rightarrow> ('b, 's) handler) \<Rightarrow> ('b, 's) handler" where
  "andthen m f d = (case m d of (Inl e, d') \<Rightarrow> (Inl e, d') | (Inr x, d') \<Rightarrow> f x d')"

text \<open>Raise \<open>e\<close> unless the check passes; lift a computation on the state; write to the database.\<close>

definition require :: "('s \<Rightarrow> bool) \<Rightarrow> api_error \<Rightarrow> (unit, 's) handler" where
  "require p e d = (if p d then Inr () else Inl e, d)"

definition reads :: "('s \<Rightarrow> api_error + 'a) \<Rightarrow> ('a, 's) handler" where
  "reads f d = (f d, d)"

definition writes :: "(db \<Rightarrow> db_error + db) \<Rightarrow> unit service" where
  "writes f d = (case f d of Inl e \<Rightarrow> (Inl (Unhandled e), d) | Inr d' \<Rightarrow> (Inr (), d'))"

definition touches :: "('s \<Rightarrow> 's) \<Rightarrow> (unit, 's) handler" where
  "touches f d = (Inr (), f d)"

fun each_do :: "('a \<Rightarrow> 'b service) \<Rightarrow> 'a list \<Rightarrow> 'b list service" where
  "each_do f [] = returns []"
| "each_do f (x # xs) = andthen (f x) (\<lambda>y. andthen (each_do f xs) (\<lambda>ys. returns (y # ys)))"

text \<open>The transaction of a request.\<close>

definition in_transaction :: "'a service \<Rightarrow> db \<Rightarrow> api_error + db \<times> 'a" where
  "in_transaction m d = (case m d of (Inl e, _) \<Rightarrow> Inl e | (Inr x, d') \<Rightarrow> Inr (d', x))"

subsection \<open>Review decisions\<close>

datatype review_decision_type = DT_APPROVED | DT_REJECTED | DT_HELD | DT_MARK_PROTECTED | DT_CLEAR_PROTECTED
  | DT_REPLAN_REQUESTED | DT_JOB_CREATED

record review_decision =
  rd_tracked_file_id :: row_id
  rd_plan_snapshot_id :: "row_id option"
  rd_job_id :: "row_id option"
  rd_decision_type :: review_decision_type
  rd_note :: "string option"
  rd_created_by_user_id :: row_id
  rd_details :: "json option"
  rd_created_at :: instant

definition latest_decision :: "row_id \<Rightarrow> review_decision list \<Rightarrow> review_decision option" where
  "latest_decision fid ds =
     (case sort_key (\<lambda>r. - rd_created_at r) (filter (\<lambda>r. rd_tracked_file_id r = fid) ds) of
        [] \<Rightarrow> None | r # _ \<Rightarrow> Some r)"

subsection \<open>The surroundings of a request\<close>

text \<open>
  The clock and the local offset, the file system as it stands, the decisions, the probes that are
  still stored, the jobs the local worker loop agrees to cancel, and the keys of new rows.
\<close>

record service_env =
  sv_now :: instant
  sv_tz :: int
  sv_repr :: "json \<Rightarrow> string"
  sv_resolve :: "path \<Rightarrow> path option"
  sv_on_disk :: "path \<Rightarrow> bool"
  sv_decisions :: "review_decision list"
  sv_has_probe :: "row_id \<Rightarrow> bool"
  sv_request_cancel :: "row_id \<Rightarrow> bool"
  sv_new_job :: "db \<Rightarrow> row_id"
  sv_new_plan :: "db \<Rightarrow> row_id"
  sv_dump_verification :: "verification_result \<Rightarrow> json"
  sv_dump_replacement :: "replacement_result \<Rightarrow> json"

subsection \<open>Targets and the review gate\<close>

definition get_job :: "row_id \<Rightarrow> job service" where
  "get_job i = reads (\<lambda>d. case find_job d i of None \<Rightarrow> Inl (ApiNotFound ''Job could not be found.'') | Some j \<Rightarrow> Inr j)"

definition resolve_target :: "row_id option \<Rightarrow> row_id option \<Rightarrow> (tracked_file \<times> plan_snapshot) service" where
  "resolve_target file plan = reads (\<lambda>d.
     case plan of
       Some sid \<Rightarrow>
         (case find_plan d sid of
            None \<Rightarrow> Inl (ApiNotFound ''Plan snapshot could not be found.'')
          | Some s \<Rightarrow>
              (case find_file d (sn_tracked_file_id s) of
                 None \<Rightarrow> Inl (ApiNotFound ''Tracked file for the plan snapshot could not be found.'')
               | Some f \<Rightarrow> Inr (f, s)))
     | None \<Rightarrow>
         (case Option.bind file (find_file d) of
            None \<Rightarrow> Inl (ApiNotFound ''Tracked file could not be found.'')
          | Some f \<Rightarrow>
              (case get_latest_plan_snapshot (tf_id f) d of
                 None \<Rightarrow> Inl (ApiConflict ''No plan snapshot exists for the tracked file.'')
               | Some s \<Rightarrow> Inr (f, s))))"

definition validate_processable_target :: "service_env \<Rightarrow> tracked_file \<Rightarrow> unit service" where
  "validate_processable_target v f =
     (case encodr_exclusion_reason (sv_resolve v) (path_of (tf_source_path f)) None of
        None \<Rightarrow> returns ()
      | Some e \<Rightarrow> fails (ApiConflict (exclusion_text e)))"

definition planner_review_required :: "tracked_file \<Rightarrow> plan_snapshot \<Rightarrow> bool" where
  "planner_review_required f s \<longleftrightarrow>
     tf_operator_protected f \<or> tf_is_protected f \<or> sn_action s = MANUAL_REVIEW \<or> sn_should_treat_as_protected s"

definition awaits_review :: "job option \<Rightarrow> bool" where
  "awaits_review j \<longleftrightarrow> (case j of None \<Rightarrow> False | Some k \<Rightarrow> j_status k = JS_MANUAL_REVIEW)"

definition issue_at :: "tracked_file \<Rightarrow> plan_snapshot \<Rightarrow> job option \<Rightarrow> instant" where
  "issue_at f s latest =
     Max (set (sn_created_at s
       # (case tf_operator_protected_updated_at f of None \<Rightarrow> [] | Some t \<Rightarrow> [t])
       @ (case latest of None \<Rightarrow> [] | Some j \<Rightarrow> if j_status j = JS_MANUAL_REVIEW then [j_updated_at j] else [])))"

definition decision_is_current :: "tracked_file \<Rightarrow> plan_snapshot \<Rightarrow> job option \<Rightarrow> review_decision option \<Rightarrow> bool" where
  "decision_is_current f s latest decision \<longleftrightarrow>
     (case decision of
        None \<Rightarrow> False
      | Some r \<Rightarrow> rd_decision_type r = DT_APPROVED \<and> issue_at f s latest \<le> rd_created_at r
                  \<and> rd_plan_snapshot_id r = Some (sn_id s))"

definition review_gate_opens ::
    "service_env \<Rightarrow> db \<Rightarrow> tracked_file \<Rightarrow> plan_snapshot \<Rightarrow> bool \<Rightarrow> row_id option \<Rightarrow> bool" where
  "review_gate_opens v d f s allow operational \<longleftrightarrow>
     (let latest = get_latest_for_tracked_file (tf_id f) d;
          planned = planner_review_required f s in
      if operational \<noteq> None \<and> map_option j_id latest = operational \<and> awaits_review latest \<and> \<not> planned then True
      else if \<not> (planned \<or> awaits_review latest) then True
      else allow \<and> decision_is_current f s latest (latest_decision (tf_id f) (sv_decisions v)))"

definition validate_review_gate ::
    "service_env \<Rightarrow> tracked_file \<Rightarrow> plan_snapshot \<Rightarrow> bool \<Rightarrow> row_id option \<Rightarrow> unit service" where
  "validate_review_gate v f s allow operational =
     require (\<lambda>d. review_gate_opens v d f s allow operational)
       (ApiConflict ''This file requires manual review or protected-file approval before a job can be created.'')"

definition require_no_active_job :: "row_id \<Rightarrow> unit service" where
  "require_no_active_job fid =
     require (\<lambda>d. \<not> has_active_job_for_tracked_file fid d)
       (ApiConflict ''An active job already exists for this tracked file.'')"

text \<open>Lock the row and read it again.\<close>

definition lock_file :: "service_env \<Rightarrow> row_id \<Rightarrow> tracked_file service" where
  "lock_file v fid =
     andthen (touches (lock_for_update (sv_now v) fid)) (\<lambda>_.
       reads (\<lambda>d. case find_file d fid of None \<Rightarrow> Inl (Unhandled MissingRow) | Some f \<Rightarrow> Inr f))"

definition create_from_plan :: "service_env \<Rightarrow> tracked_file \<Rightarrow> plan_snapshot \<Rightarrow> job_options \<Rightarrow> job service" where
  "create_from_plan v f s opts d =
     (case create_job_from_plan (sv_new_job v d) (sv_now v) (sv_tz v) f s opts d of
        Inr (d', job) \<Rightarrow> (Inr job, d')
      | Inl IntegrityError \<Rightarrow>
          (if has_active_job_for_tracked_file (tf_id f) d
           then (Inl (ApiConflict ''An active job already exists for this tracked file.''), d)
           else (Inl (Unhandled IntegrityError), d))
      | Inl e \<Rightarrow> (Inl (Unhandled e), d))"

subsection \<open>Plans for a retry\<close>

definition strip_only_recovery_reason :: string where
  "strip_only_recovery_reason = ''Video transcode skipped after failed size/quality guard; audio/subtitle cleanup only.''"

definition strip_only_reprocess_reason :: string where
  "strip_only_reprocess_reason =
     ''Operator requested strip-only cleanup; video will be copied while audio/subtitle cleanup is applied.''"

definition strip_only_recovery_failure_categories :: "string list" where
  "strip_only_recovery_failure_categories =
     [''output_larger_than_input'', ''compression_safety_bitrate_floor'', ''compression_safety_exceeded'',
      ''compression_safety_unmeasurable'']"

definition strip_only_recovery_plan :: "processing_plan \<Rightarrow> processing_plan" where
  "strip_only_recovery_plan p =
     p\<lparr>action := REMUX,
       summary := (summary p)\<lparr>ps_action := REMUX, ps_should_treat_as_protected := False, ps_is_already_compliant := False\<rparr>,
       should_treat_as_protected := False, is_already_compliant := False,
       plan_video := (plan_video p)\<lparr>transcode_required := False, preserve_original := True,
         vp_handling := PRESERVE_VIDEO, max_allowed_video_reduction_percent := None\<rparr>,
       reasons := [make_reason ''operator_skipped_video_transcode_after_guard'' strip_only_recovery_reason []]\<rparr>"

definition strip_only_reprocess_plan :: "processing_plan \<Rightarrow> processing_plan" where
  "strip_only_reprocess_plan p =
     (strip_only_recovery_plan p)
       \<lparr>reasons := [make_reason ''operator_requested_strip_only_cleanup'' strip_only_reprocess_reason []]\<rparr>"

definition with_backup_strategy :: "string \<Rightarrow> processing_plan \<Rightarrow> processing_plan" where
  "with_backup_strategy strategy p = p\<lparr>plan_replace := (plan_replace p)\<lparr>existing_backup_strategy := strategy\<rparr>\<rparr>"

definition strategy_for_current_file :: "service_env \<Rightarrow> tracked_file \<Rightarrow> api_error + string" where
  "strategy_for_current_file v f =
     (case build_backup_path (path_of (tf_source_path f)) of
        None \<Rightarrow> Inl BadPathName
      | Some b \<Rightarrow> Inr (if sv_on_disk v b then ''keep_existing_backup'' else ''fail''))"

definition strategy_for_safe_recovery :: "service_env \<Rightarrow> tracked_file \<Rightarrow> job \<Rightarrow> api_error + string" where
  "strategy_for_safe_recovery v f j =
     (if \<not> truthy (j_original_backup_path j) then Inr ''fail''
      else case build_backup_path (path_of (tf_source_path f)) of
        None \<Rightarrow> Inl BadPathName
      | Some b \<Rightarrow>
          let recorded = path_of (the (j_original_backup_path j)) in
          Inr (if recorded = b \<and> sv_on_disk v recorded then ''keep_existing_backup'' else ''fail''))"

definition add_plan_snapshot :: "service_env \<Rightarrow> tracked_file \<Rightarrow> processing_plan \<Rightarrow> plan_snapshot service" where
  "add_plan_snapshot v f p d =
     (let s = \<lparr>sn_id = sv_new_plan v d, sn_tracked_file_id = tf_id f, sn_action = action p,
               sn_policy_version = policy_version (plan_context p),
               sn_profile_name = selected_profile_name (plan_context p),
               sn_is_already_compliant = is_already_compliant p,
               sn_should_treat_as_protected = should_treat_as_protected p, sn_payload = p, sn_created_at = sv_now v\<rparr>
      in (Inr s, d\<lparr>db_plans := db_plans d @ [s]\<rparr>))"

definition effective_backup_strategy :: "service_env \<Rightarrow> tracked_file \<Rightarrow> string \<Rightarrow> api_error + string" where
  "effective_backup_strategy v f strategy =
     (if strategy = ''fail'' then Inr ''fail''
      else if strategy = ''keep_existing_backup_if_present'' then strategy_for_current_file v f
      else if strategy \<in> {''replace_backup'', ''keep_existing_backup''} then Inr strategy
      else Inl (ApiValidation ''Unsupported backup handling option.''))"

definition plan_with_create_options ::
    "service_env \<Rightarrow> tracked_file \<Rightarrow> plan_snapshot \<Rightarrow> string \<Rightarrow> string \<Rightarrow> plan_snapshot service" where
  "plan_with_create_options v f s strategy mode =
     (if mode \<notin> {''normal'', ''strip_only''} then fails (ApiValidation ''Unsupported reprocess mode.'')
      else andthen (reads (\<lambda>_. effective_backup_strategy v f strategy)) (\<lambda>e.
        if e = ''fail'' \<and> mode = ''normal'' then returns s
        else if \<not> sv_has_probe v (sn_id s) then fails (ApiConflict ''No complete probe exists for this plan.'')
        else add_plan_snapshot v f
          (with_backup_strategy e (if mode = ''strip_only'' then strip_only_reprocess_plan (sn_payload s) else sn_payload s))))"

subsection \<open>Creating and retrying\<close>

record create_request =
  cr_tracked_file_id :: "row_id option"
  cr_plan_snapshot_id :: "row_id option"
  cr_allow_review_approved :: bool
  cr_preferred_worker_id :: "row_id option"
  cr_pinned_worker_id :: "row_id option"
  cr_preferred_backend_override :: "string option"
  cr_schedule_windows :: "schedule_window list option"
  cr_watched_job_id :: "row_id option"
  cr_job_kind :: job_kind
  cr_analysis_payload :: "json option"
  cr_ignore_worker_schedule :: bool
  cr_backup_policy :: string
  cr_existing_backup_strategy :: string
  cr_reprocess_mode :: string

definition create_options :: "create_request \<Rightarrow> job_options" where
  "create_options c =
     \<lparr>o_worker_name = None, o_attempt_count = 1, o_preferred_worker_id = cr_preferred_worker_id c,
      o_pinned_worker_id = cr_pinned_worker_id c, o_preferred_backend_override = cr_preferred_backend_override c,
      o_schedule_windows = cr_schedule_windows c, o_watched_job_id = cr_watched_job_id c,
      o_job_kind = cr_job_kind c, o_analysis_payload = cr_analysis_payload c,
      o_ignore_worker_schedule = cr_ignore_worker_schedule c, o_scheduled_for_at = None,
      o_backup_policy = cr_backup_policy c\<rparr>"

definition create_job :: "service_env \<Rightarrow> create_request \<Rightarrow> job service" where
  "create_job v c =
     andthen (resolve_target (cr_tracked_file_id c) (cr_plan_snapshot_id c)) (\<lambda>(f0, s).
     andthen (lock_file v (tf_id f0)) (\<lambda>f.
     andthen (validate_processable_target v f) (\<lambda>_.
     andthen (require_no_active_job (tf_id f)) (\<lambda>_.
     andthen (validate_review_gate v f s (cr_allow_review_approved c) None) (\<lambda>_.
     andthen (if cr_existing_backup_strategy c \<noteq> ''fail'' \<or> cr_reprocess_mode c \<noteq> ''normal''
              then plan_with_create_options v f s (cr_existing_backup_strategy c) (cr_reprocess_mode c)
              else returns s) (\<lambda>s'.
     create_from_plan v f s' (create_options c)))))))"

definition operator_retry_options :: "job \<Rightarrow> json option \<Rightarrow> string \<Rightarrow> job_options" where
  "operator_retry_options j payload backup =
     \<lparr>o_worker_name = None, o_attempt_count = j_attempt_count j + 1, o_preferred_worker_id = j_preferred_worker_id j,
      o_pinned_worker_id = j_pinned_worker_id j, o_preferred_backend_override = j_preferred_backend_override j,
      o_schedule_windows = j_schedule_windows j, o_watched_job_id = j_watched_job_id j,
      o_job_kind = j_job_kind j, o_analysis_payload = payload,
      o_ignore_worker_schedule = j_ignore_worker_schedule j, o_scheduled_for_at = None, o_backup_policy = backup\<rparr>"

definition replacement_details :: "job \<Rightarrow> (string \<times> json) list" where
  "replacement_details j =
     sub_object (case j_replacement_payload j of Some (JObj q) \<Rightarrow> q | _ \<Rightarrow> []) ''details''"

definition text_or_empty :: "string option \<Rightarrow> string" where
  "text_or_empty t = or_str t []"

definition failed_because_backup_already_exists :: "job \<Rightarrow> bool" where
  "failed_because_backup_already_exists j \<longleftrightarrow>
     jget (replacement_details j) ''failure_code'' = JStr ''backup_already_exists''
     \<or> j_failure_category j = Some ''replacement_failed''
       \<and> py_in ''backup file already exists'' (py_lower (text_or_empty (j_failure_message j)))"

definition can_retry_operational_manual_review :: "job \<Rightarrow> bool" where
  "can_retry_operational_manual_review j \<longleftrightarrow>
     j_status j = JS_MANUAL_REVIEW \<and> j_failure_category j = Some ''replacement_failed''"

definition validate_existing_backup_retry :: "service_env \<Rightarrow> tracked_file \<Rightarrow> job \<Rightarrow> string \<Rightarrow> api_error + unit" where
  "validate_existing_backup_retry v f j strategy =
     (if strategy \<notin> {''replace_backup'', ''keep_existing_backup''}
      then Inl (ApiValidation ''Unsupported backup handling option for retry.'')
      else if \<not> failed_because_backup_already_exists j
      then Inl (ApiConflict ''Backup handling options are only available for jobs that failed because a backup already exists.'')
      else if \<not> truthy (j_original_backup_path j)
      then Inl (ApiConflict ''The existing backup file is no longer recorded for this job.'')
      else case build_backup_path (path_of (tf_source_path f)) of
        None \<Rightarrow> Inl BadPathName
      | Some b \<Rightarrow>
          let recorded = path_of (the (j_original_backup_path j)) in
          if recorded \<noteq> b then Inl (ApiConflict ''The recorded backup path does not match the expected source backup.'')
          else if \<not> sv_on_disk v recorded then Inl (ApiConflict ''The existing backup file is no longer available.'')
          else Inr ())"

definition plan_of :: "job \<Rightarrow> plan_snapshot service" where
  "plan_of j = reads (\<lambda>d. case find_plan d (j_plan_snapshot_id j) of None \<Rightarrow> Inl (Unhandled MissingRow) | Some s \<Rightarrow> Inr s)"

definition plan_snapshot_for_retry :: "service_env \<Rightarrow> tracked_file \<Rightarrow> plan_snapshot \<Rightarrow> string \<Rightarrow> plan_snapshot service" where
  "plan_snapshot_for_retry v f s strategy =
     (if strategy = ''fail'' then returns s
      else if strategy \<notin> {''replace_backup'', ''keep_existing_backup''}
      then fails (ApiValidation ''Unsupported backup handling option for retry.'')
      else plan_with_create_options v f s strategy ''normal'')"

definition clear_job :: "service_env \<Rightarrow> row_id \<Rightarrow> string \<Rightarrow> unit service" where
  "clear_job v i reason = writes (mark_cleared (sv_now v) i (sv_now v) reason)"

definition retry_job :: "service_env \<Rightarrow> row_id \<Rightarrow> string \<Rightarrow> job service" where
  "retry_job v i strategy =
     andthen (get_job i) (\<lambda>j.
     andthen (require (\<lambda>_. j_status j \<in> set retryable_job_statuses)
       (ApiConflict ''Only failed, interrupted, cancelled, manual-review, or skipped jobs can be retried.'')) (\<lambda>_.
     andthen (lock_file v (j_tracked_file_id j)) (\<lambda>f.
     andthen (validate_processable_target v f) (\<lambda>_.
     andthen (plan_of j) (\<lambda>s.
     andthen (validate_review_gate v f s False (if can_retry_operational_manual_review j then Some (j_id j) else None)) (\<lambda>_.
     andthen (if strategy \<noteq> ''fail'' then reads (\<lambda>_. validate_existing_backup_retry v f j strategy) else returns ()) (\<lambda>_.
     andthen (require_no_active_job (tf_id f)) (\<lambda>_.
     andthen (plan_snapshot_for_retry v f s strategy) (\<lambda>s'.
     andthen (create_from_plan v f s' (operator_retry_options j (j_analysis_payload j) (j_backup_policy j))) (\<lambda>job.
     andthen (clear_job v i ''Retry job created by operator.'') (\<lambda>_. returns job)))))))))))"

text \<open>\<open>str(value).strip().lower()\<close> of a JSON value.\<close>

definition normal_text :: "(json \<Rightarrow> string) \<Rightarrow> json \<Rightarrow> string" where
  "normal_text repr x = py_lower (py_strip (json_text repr x))"

definition problem_text :: "job \<Rightarrow> string" where
  "problem_text j =
     py_join '' '' (filter (\<lambda>t. t \<noteq> [])
       [text_or_empty (j_failure_message j), text_or_empty (j_replacement_failure_message j),
        text_or_empty (j_interruption_reason j)])"

definition can_recover_with_strip_only :: "(json \<Rightarrow> string) \<Rightarrow> job \<Rightarrow> bool" where
  "can_recover_with_strip_only repr j \<longleftrightarrow>
     (let named = filter json_truthy
            (JStr (text_or_empty (j_failure_category j))
             # map (jget (replacement_details j)) [''failure_code'', ''failure_category'', ''reason'', ''guard''])
      in list_ex (\<lambda>x. normal_text repr x \<in> set strip_only_recovery_failure_categories) named
         \<or> list_ex (\<lambda>phrase. py_in phrase (py_lower (problem_text j)))
             [''larger than the source'', ''larger than source'', ''output is larger'', ''output grew'', ''too small'',
              ''bitrate is below'', ''bitrate below'', ''compression safety''])"

definition recovery_payload :: "job \<Rightarrow> json" where
  "recovery_payload j =
     JObj (AList.update ''recovery_reason'' (JStr strip_only_recovery_reason)
       (case j_analysis_payload j of Some (JObj q) \<Rightarrow> q | _ \<Rightarrow> []))"

definition recover_with_strip_only :: "service_env \<Rightarrow> row_id \<Rightarrow> job service" where
  "recover_with_strip_only v i =
     andthen (get_job i) (\<lambda>j.
     andthen (require (\<lambda>_. j_status j \<in> {JS_FAILED, JS_CANCELLED, JS_MANUAL_REVIEW})
       (ApiConflict ''Strip-only recovery is only available for failed, cancelled, or manual-review jobs.'')) (\<lambda>_.
     andthen (require (\<lambda>_. can_recover_with_strip_only (sv_repr v) j)
       (ApiConflict ''Strip-only recovery is only available for output size or compression safety guard failures.'')) (\<lambda>_.
     andthen (reads (\<lambda>d. case find_plan d (j_plan_snapshot_id j) of
         None \<Rightarrow> Inl (ApiConflict ''No complete plan exists for this job.'')
       | Some s \<Rightarrow> if sv_has_probe v (sn_id s) then Inr s else Inl (ApiConflict ''No complete plan exists for this job.''))) (\<lambda>s.
     andthen (lock_file v (j_tracked_file_id j)) (\<lambda>f.
     andthen (validate_processable_target v f) (\<lambda>_.
     andthen (validate_review_gate v f s True None) (\<lambda>_.
     andthen (require_no_active_job (tf_id f)) (\<lambda>_.
     andthen (reads (\<lambda>_. strategy_for_safe_recovery v f j)) (\<lambda>strategy.
     andthen (add_plan_snapshot v f (with_backup_strategy strategy (strip_only_recovery_plan (sn_payload s)))) (\<lambda>s'.
     andthen (create_from_plan v f s' (operator_retry_options j (Some (recovery_payload j)) ''keep'')) (\<lambda>job.
     andthen (clear_job v i strip_only_recovery_reason) (\<lambda>_. returns job))))))))))))"

subsection \<open>Cancelling and clearing\<close>

text \<open>A file follows its plan again, or the result of its job.\<close>

definition settle_file_by_plan :: "service_env \<Rightarrow> row_id \<Rightarrow> unit service" where
  "settle_file_by_plan v i =
     andthen (get_job i) (\<lambda>j. andthen (plan_of j) (\<lambda>s.
       writes (\<lambda>d. case find_file d (j_tracked_file_id j) of
           None \<Rightarrow> Inl MissingRow
         | Some f \<Rightarrow> flush (put_file (sv_now v) (update_file_state_from_plan_result (sn_payload s) f) d))))"

definition settle_file_by_result :: "service_env \<Rightarrow> row_id \<Rightarrow> full_result \<Rightarrow> unit service" where
  "settle_file_by_result v i r =
     andthen (get_job i) (\<lambda>j. andthen (plan_of j) (\<lambda>s.
       writes (\<lambda>d. case find_file d (j_tracked_file_id j) of
           None \<Rightarrow> Inl MissingRow
         | Some f \<Rightarrow> flush (put_file (sv_now v)
             (update_file_state_from_execution_result (sv_on_disk v) (sn_payload s) r f) d))))"

definition finished_statuses :: "job_status list" where
  "finished_statuses = [JS_COMPLETED, JS_FAILED, JS_CANCELLED, JS_SKIPPED, JS_MANUAL_REVIEW]"

definition held_remotely :: "db \<Rightarrow> job \<Rightarrow> bool" where
  "held_remotely d j \<longleftrightarrow>
     (case Option.bind (j_assigned_worker_id j) (find_worker d) of
        None \<Rightarrow> False | Some w \<Rightarrow> w_worker_type w \<noteq> LOCAL)"

definition cancel_running :: "service_env \<Rightarrow> job \<Rightarrow> unit service" where
  "cancel_running v j d =
     (if held_remotely d j then
        (if j_cancellation_requested_at j \<noteq> None then returns ()
         else writes (mark_cancellation_requested (sv_now v) (j_id j) (sv_now v) ''Cancellation requested for the remote worker.'')) d
      else if j_job_kind j = DRY_RUN then
        fails (ApiConflict ''Running dry run analysis cannot yet be cancelled safely.'') d
      else if \<not> sv_request_cancel v (j_id j) then
        fails (ApiConflict ''The local worker is not actively processing this job.'') d
      else writes (mark_cancelling (sv_now v) (j_id j) (sv_now v)) d)"

definition cancel_job :: "service_env \<Rightarrow> row_id \<Rightarrow> unit service" where
  "cancel_job v i =
     andthen (get_job i) (\<lambda>j.
     andthen (require (\<lambda>_. j_status j \<notin> set finished_statuses) (ApiConflict ''This job can no longer be cancelled.'')) (\<lambda>_.
     if j_status j \<in> {JS_PENDING, JS_SCHEDULED}
     then andthen (writes (mark_cancelled (sv_now v) i (sv_now v) ''Cancelled by operator.'')) (\<lambda>_. settle_file_by_plan v i)
     else cancel_running v j))"

definition clear_whole_queue :: "service_env \<Rightarrow> row_id list service" where
  "clear_whole_queue v =
     andthen (reads (\<lambda>d. Inr (map j_id (clearable_queue d)))) (\<lambda>is.
     andthen (writes (clear_queue (sv_now v) (sv_now v) ''Cleared from queue by operator.'')) (\<lambda>_.
     andthen (each_do (settle_file_by_plan v) is) (\<lambda>_. returns is)))"

definition clear_history :: "service_env \<Rightarrow> row_id list option \<Rightarrow> row_id list service" where
  "clear_history v ids =
     (if ids = Some [] then returns []
      else andthen (reads (\<lambda>d. Inr (map j_id (clearable_history ids d)))) (\<lambda>is.
           andthen (writes (clear_failed_history (sv_now v) (sv_now v) ids ''Cleared historical problem jobs by operator.'')) (\<lambda>_. returns is)))"

subsection \<open>Resolving problem jobs\<close>

text \<open>\<open>value.split()\<close>: the words between runs of white space.\<close>

fun py_words :: "string \<Rightarrow> string list" where
  "py_words [] = []"
| "py_words (c # cs) =
     (if is_space c then py_words cs
      else (case cs of
              [] \<Rightarrow> [[c]]
            | e # _ \<Rightarrow> if is_space e then [c] # py_words cs
                       else (case py_words cs of [] \<Rightarrow> [[c]] | w # ws \<Rightarrow> (c # w) # ws)))"

definition normalise_problem_message :: "string \<Rightarrow> string" where
  "normalise_problem_message t = py_join '' '' (py_words (py_lower (py_strip t)))"

definition problem_error_key :: "(json \<Rightarrow> string) \<Rightarrow> job \<Rightarrow> string" where
  "problem_error_key repr j =
     (let code = jget (replacement_details j) ''failure_code'' in
      (if json_truthy code then json_text repr code else or_str (j_failure_category j) ''unknown'')
      @ '':'' @ normalise_problem_message (problem_text j))"

definition selected_problem_job :: "row_id \<Rightarrow> job service" where
  "selected_problem_job i = reads (\<lambda>d.
     case find_job d i of
       None \<Rightarrow> Inl (ApiNotFound ''One or more selected jobs could not be found.'')
     | Some j \<Rightarrow>
         if j_status j \<in> set retryable_job_statuses then Inr j
         else Inl (ApiConflict ''Only failed, interrupted, cancelled, manual-review, or skipped jobs can be resolved.''))"

definition selected_problem_jobs :: "row_id list \<Rightarrow> job list service" where
  "selected_problem_jobs ids = each_do selected_problem_job ids"

text \<open>The latest of the selected jobs of each file, in the order the files were first met.\<close>

fun retry_targets :: "(row_id \<times> job) list \<Rightarrow> job list \<Rightarrow> (row_id \<times> job) list" where
  "retry_targets acc [] = acc"
| "retry_targets acc (j # js) =
     retry_targets
       (case map_of acc (j_tracked_file_id j) of
          None \<Rightarrow> AList.update (j_tracked_file_id j) j acc
        | Some current \<Rightarrow>
            if j_updated_at current < j_updated_at j then AList.update (j_tracked_file_id j) j acc else acc) js"

definition retry_problem_jobs :: "service_env \<Rightarrow> job list \<Rightarrow> string \<Rightarrow> row_id list service" where
  "retry_problem_jobs v selected strategy =
     andthen (each_do (\<lambda>j. retry_job v (j_id j) strategy) (map snd (retry_targets [] selected))) (\<lambda>retried.
     andthen (each_do (\<lambda>j. clear_job v (j_id j) ''Requeued by operator.'') selected) (\<lambda>_.
     returns (map j_id retried)))"

definition operator_skip :: "service_env \<Rightarrow> job \<Rightarrow> full_result" where
  "operator_skip v j =
     settle ((idle_result ''operator_skip'' ''skipped'')
         \<lparr>er_requested_backend := j_requested_execution_backend j, er_actual_backend := j_actual_execution_backend j,
          er_actual_accelerator := j_actual_execution_accelerator j, er_backend_fallback_used := j_backend_fallback_used j,
          er_backend_selection_reason := Some ''Skipped by operator from failed jobs bulk action.''\<rparr>)
       (sv_now v) (sv_now v)
       \<lparr>st_status = ''skipped'', st_message = Some ''Skipped by operator.'', st_category = Some ''operator_skipped'',
        st_output = None, st_final = None,
        st_backup = (if truthy (j_original_backup_path j) then Some (path_of (the (j_original_backup_path j))) else None),
        st_savings = no_savings, st_verification = None, st_replacement = None\<rparr>"

definition skip_problem_job :: "service_env \<Rightarrow> row_id \<Rightarrow> row_id service" where
  "skip_problem_job v i =
     andthen (get_job i) (\<lambda>j. let r = operator_skip v j in
     andthen (writes (mark_result (sv_dump_verification v) (sv_dump_replacement v) (sv_now v) i r)) (\<lambda>_.
     andthen (settle_file_by_result v i r) (\<lambda>_. returns i)))"

definition mark_problem_jobs_skipped :: "service_env \<Rightarrow> job list \<Rightarrow> row_id list service" where
  "mark_problem_jobs_skipped v selected = each_do (\<lambda>j. skip_problem_job v (j_id j)) selected"

definition resolve_problem_jobs :: "service_env \<Rightarrow> row_id list \<Rightarrow> string \<Rightarrow> string \<Rightarrow> row_id list service" where
  "resolve_problem_jobs v ids act strategy =
     (if ids = [] then fails (ApiValidation ''Select at least one failed or cancelled job.'')
      else if act \<notin> {''retry'', ''skip''} then fails (ApiValidation ''Unsupported failed job resolution action.'')
      else if act \<noteq> ''retry'' \<and> strategy \<noteq> ''fail''
      then fails (ApiValidation ''Backup handling options are only available when retrying failed jobs.'')
      else andthen (selected_problem_jobs ids) (\<lambda>selected.
        if 1 < length (remdups (map (problem_error_key (sv_repr v)) selected))
        then fails (ApiConflict ''Select jobs with the same error before using a bulk action.'')
        else if act = ''retry'' then retry_problem_jobs v selected strategy
        else mark_problem_jobs_skipped v selected))"

subsection \<open>Batches and watched folders\<close>

datatype batch_outcome = Batch_Created job | Batch_Blocked string

text \<open>A conflict is recorded and the batch goes on; the session keeps what the failed item wrote.\<close>

definition attempt_in_batch :: "job service \<Rightarrow> batch_outcome service" where
  "attempt_in_batch m d =
     (case m d of
        (Inr j, d') \<Rightarrow> (Inr (Batch_Created j), d')
      | (Inl (ApiConflict msg), d') \<Rightarrow> (Inr (Batch_Blocked msg), d')
      | (Inl e, d') \<Rightarrow> (Inl e, d'))"

definition create_batch_jobs ::
    "service_env \<Rightarrow> create_request \<Rightarrow> (string \<Rightarrow> row_id \<Rightarrow> row_id \<Rightarrow> json option) option
     \<Rightarrow> (string \<times> row_id \<times> row_id) list \<Rightarrow> (string \<times> batch_outcome) list service" where
  "create_batch_jobs v c payload_of targets =
     each_do (\<lambda>(sp, fid, sid).
       andthen (attempt_in_batch (create_job v
         (c\<lparr>cr_tracked_file_id := Some fid, cr_plan_snapshot_id := Some sid, cr_allow_review_approved := False,
            cr_analysis_payload := (case payload_of of None \<Rightarrow> None | Some g \<Rightarrow> g sp fid sid)\<rparr>)))
         (\<lambda>out. returns (sp, out))) targets"

definition watched_options :: "row_id \<Rightarrow> row_id option \<Rightarrow> row_id option \<Rightarrow> string option \<Rightarrow> schedule_window list option \<Rightarrow> job_options" where
  "watched_options watched preferred pinned backend windows =
     default_options\<lparr>o_preferred_worker_id := preferred, o_pinned_worker_id := pinned,
       o_preferred_backend_override := backend, o_schedule_windows := windows, o_watched_job_id := Some watched\<rparr>"

definition create_watched_job :: "service_env \<Rightarrow> tracked_file \<Rightarrow> plan_snapshot \<Rightarrow> job_options \<Rightarrow> job service" where
  "create_watched_job v f0 s opts =
     andthen (lock_file v (tf_id f0)) (\<lambda>f.
     andthen (validate_processable_target v f) (\<lambda>_.
     andthen (require_no_active_job (tf_id f)) (\<lambda>_.
     andthen (validate_review_gate v f s False None) (\<lambda>_.
     create_from_plan v f s opts))))"

definition create_watched_job_if_needed :: "service_env \<Rightarrow> tracked_file \<Rightarrow> plan_snapshot \<Rightarrow> job_options \<Rightarrow> job option service" where
  "create_watched_job_if_needed v f s opts =
     andthen (attempt_in_batch (create_watched_job v f s opts)) (\<lambda>out.
       returns (case out of Batch_Created j \<Rightarrow> Some j | Batch_Blocked _ \<Rightarrow> None))"

subsection \<open>What an operation may do to the rows\<close>

text \<open>
  From an ordered database where \<open>P\<close> holds, \<open>m\<close> takes the rows along the automaton, also when it
  fails, and \<open>Q\<close> holds of what it returns.
\<close>

definition serves :: "(db \<Rightarrow> bool) \<Rightarrow> 'a service \<Rightarrow> ('a \<Rightarrow> db \<Rightarrow> bool) \<Rightarrow> bool" where
  "serves P m Q \<longleftrightarrow> (\<forall>d. db_ok d \<longrightarrow> P d \<longrightarrow>
     (case m d of (r, d') \<Rightarrow> edits (db_jobs d) (db_jobs d') \<and> (case r of Inl _ \<Rightarrow> True | Inr x \<Rightarrow> Q x d')))"

lemma servesI:
  assumes "\<And>d r d'. db_ok d \<Longrightarrow> P d \<Longrightarrow> m d = (r, d') \<Longrightarrow>
    edits (db_jobs d) (db_jobs d') \<and> (\<forall>x. r = Inr x \<longrightarrow> Q x d')"
  shows "serves P m Q"
  unfolding serves_def
proof (intro allI impI)
  fix d assume "db_ok d" "P d"
  obtain r d' where "m d = (r, d')" by force
  from assms [OF \<open>db_ok d\<close> \<open>P d\<close> this] this
  show "case m d of (r, d') \<Rightarrow> edits (db_jobs d) (db_jobs d') \<and> (case r of Inl _ \<Rightarrow> True | Inr x \<Rightarrow> Q x d')"
    by (auto split: sum.split)
qed

lemma servesD:
  assumes "serves P m Q" "db_ok d" "P d" "m d = (r, d')"
  shows "edits (db_jobs d) (db_jobs d')" "db_ok d'" "r = Inr x \<Longrightarrow> Q x d'"
proof -
  show e: "edits (db_jobs d) (db_jobs d')" using assms by (auto simp: serves_def)
  show "db_ok d'" by (rule edits_db_ok [OF assms(2) e])
  show "r = Inr x \<Longrightarrow> Q x d'" using assms by (auto simp: serves_def)
qed

lemma serves_returns: "(\<And>d. P d \<Longrightarrow> Q x d) \<Longrightarrow> serves P (returns x) Q"
  by (rule servesI) (auto simp: returns_def edits_none)

lemma serves_fails: "serves P (fails e) Q"
  by (rule servesI) (auto simp: fails_def edits_none)

lemma serves_require: "(\<And>d. P d \<Longrightarrow> c d \<Longrightarrow> Q () d) \<Longrightarrow> serves P (require c e) Q"
  by (rule servesI) (auto simp: require_def edits_none split: if_splits)

lemma serves_reads: "(\<And>d x. db_ok d \<Longrightarrow> P d \<Longrightarrow> f d = Inr x \<Longrightarrow> Q x d) \<Longrightarrow> serves P (reads f) Q"
  by (rule servesI) (auto simp: reads_def edits_none)

lemma serves_touches: "(\<And>d. db_jobs (f d) = db_jobs d) \<Longrightarrow> (\<And>d. P d \<Longrightarrow> Q () (f d)) \<Longrightarrow> serves P (touches f) Q"
  by (rule servesI) (auto simp: touches_def edits_none)

lemma serves_writes:
  assumes "\<And>d d'. db_ok d \<Longrightarrow> P d \<Longrightarrow> f d = Inr d' \<Longrightarrow> edits (db_jobs d) (db_jobs d') \<and> Q () d'"
  shows "serves P (writes f) Q"
proof (rule servesI)
  fix d r d' assume d: "db_ok d" "P d" "writes f d = (r, d')"
  show "edits (db_jobs d) (db_jobs d') \<and> (\<forall>x. r = Inr x \<longrightarrow> Q x d')"
  proof (cases "f d")
    case (Inr d1)
    then show ?thesis using d assms [OF d(1,2) Inr] by (simp add: writes_def)
  qed (use d in \<open>auto simp: writes_def edits_none\<close>)
qed

lemma serves_andthen:
  assumes "serves P m R" "\<And>x. serves (R x) (f x) Q"
  shows "serves P (andthen m f) Q"
proof (rule servesI)
  fix d r d' assume d: "db_ok d" "P d" "andthen m f d = (r, d')"
  obtain q e where m: "m d = (q, e)" by force
  note m1 = servesD(1,2) [OF assms(1) d(1,2) m]
  show "edits (db_jobs d) (db_jobs d') \<and> (\<forall>x. r = Inr x \<longrightarrow> Q x d')"
  proof (cases q)
    case (Inl a)
    then show ?thesis using d(3) m m1 by (auto simp: andthen_def)
  next
    case (Inr x)
    have f: "f x e = (r, d')" using d(3) m Inr by (simp add: andthen_def)
    note R = servesD(3) [OF assms(1) d(1,2) m Inr]
    from servesD(1,3) [OF assms(2) m1(2) R f] m1(1) show ?thesis using edits_trans by blast
  qed
qed

lemma serves_weaken:
  assumes "serves P m Q" "\<And>d. db_ok d \<Longrightarrow> P' d \<Longrightarrow> P d" "\<And>x d. Q x d \<Longrightarrow> Q' x d"
  shows "serves P' m Q'"
proof (rule servesI)
  fix d r d' assume d: "db_ok d" "P' d" "m d = (r, d')"
  note m = servesD [OF assms(1) d(1) assms(2) [OF d(1,2)] d(3)]
  show "edits (db_jobs d) (db_jobs d') \<and> (\<forall>x. r = Inr x \<longrightarrow> Q' x d')"
    using m(1) m(3) assms(3) by blast
qed

lemma serves_each_do: "(\<And>x. x \<in> set xs \<Longrightarrow> serves I (f x) (\<lambda>_. I)) \<Longrightarrow> serves I (each_do f xs) (\<lambda>_. I)"
proof (induction xs)
  case (Cons x xs)
  show ?case
    unfolding each_do.simps
    by (rule serves_andthen [OF Cons(2)], simp, rule serves_andthen [OF Cons(1)], simp add: Cons(2), rule serves_returns)
qed (simp add: serves_returns)

text \<open>What the rows keep along the automaton need not be carried by hand.\<close>

lemma serves_inactive: "serves P m Q \<Longrightarrow> serves (\<lambda>d. P d \<and> inactive i d) m (\<lambda>x d. Q x d \<and> inactive i d)"
proof (rule servesI)
  fix d r d' assume *: "serves P m Q" "db_ok d" "P d \<and> inactive i d" "m d = (r, d')"
  then have P: "P d" by simp
  note m = servesD [OF *(1,2) P *(4)]
  show "edits (db_jobs d) (db_jobs d') \<and> (\<forall>x. r = Inr x \<longrightarrow> Q x d' \<and> inactive i d')"
    using m edits_inactive [of d d' i] *(2,3) by (simp add: db_ok_def)
qed

lemma serves_if: "(c \<Longrightarrow> serves P m Q) \<Longrightarrow> (\<not> c \<Longrightarrow> serves P n Q) \<Longrightarrow> serves P (if c then m else n) Q"
  by simp

subsection \<open>The operations follow the automaton\<close>

definition fresh_keys :: "service_env \<Rightarrow> bool" where
  "fresh_keys v \<longleftrightarrow> (\<forall>d. sv_new_job v d \<notin> j_id ` set (db_jobs d))"

lemma lock_jobs [simp]: "db_jobs (lock_for_update now i d) = db_jobs d"
  by (simp add: lock_for_update_def)

lemma inactive_cong: "db_jobs d' = db_jobs d \<Longrightarrow> inactive i d' = inactive i d"
  by (simp add: inactive_def find_job_def)

abbreviation anywhere :: "db \<Rightarrow> bool" where
  "anywhere \<equiv> \<lambda>_. True"

lemma serve_get_job: "serves P (get_job i) (\<lambda>j d. P d \<and> find_job d i = Some j \<and> db_ok d)"
  unfolding get_job_def by (rule serves_reads) (auto split: option.splits)

lemma serve_lock_file: "serves anywhere (lock_file v i) (\<lambda>_. anywhere)"
  unfolding lock_file_def
  by (rule serves_andthen [OF serves_touches]) (simp_all add: serves_reads)

lemma serve_plan_of: "serves anywhere (plan_of j) (\<lambda>_. anywhere)"
  unfolding plan_of_def by (rule serves_reads) simp

lemma serve_processable: "serves anywhere (validate_processable_target v f) (\<lambda>_. anywhere)"
  unfolding validate_processable_target_def by (auto intro: serves_returns serves_fails split: option.split)

lemma serve_gate: "serves anywhere (validate_review_gate v f s b i) (\<lambda>_. anywhere)"
  unfolding validate_review_gate_def by (rule serves_require) simp

lemma serve_no_active: "serves anywhere (require_no_active_job i) (\<lambda>_. anywhere)"
  unfolding require_no_active_job_def by (rule serves_require) simp

lemma serve_add_plan: "serves anywhere (add_plan_snapshot v f p) (\<lambda>_. anywhere)"
  by (rule servesI) (auto simp: add_plan_snapshot_def Let_def edits_none)

lemma serve_create_options: "serves anywhere (plan_with_create_options v f s strategy mode) (\<lambda>_. anywhere)"
  unfolding plan_with_create_options_def
  by (intro serves_if serves_fails serves_andthen [where R = "\<lambda>_. anywhere"] serves_reads serves_returns serve_add_plan) simp_all

lemma serve_create:
  assumes "fresh_keys v" "1 \<le> o_attempt_count opts"
  shows "serves anywhere (create_from_plan v f s opts) (\<lambda>_. anywhere)"
proof (rule servesI)
  fix d r d' assume d: "db_ok d" "create_from_plan v f s opts d = (r, d')"
  have wk: "well_keyed d" using d(1) by (simp add: db_ok_def)
  have fresh: "sv_new_job v d \<notin> j_id ` set (db_jobs d)" using assms(1) unfolding fresh_keys_def by blast
  have "edits (db_jobs d) (db_jobs d1)"
    if "create_job_from_plan (sv_new_job v d) (sv_now v) (sv_tz v) f s opts d = Inr (d1, job)" for d1 job
    using create_job_edits [OF wk fresh assms(2) that] by blast
  then show "edits (db_jobs d) (db_jobs d') \<and> (\<forall>x. r = Inr x \<longrightarrow> True)"
    using d(2) by (auto simp: create_from_plan_def edits_none split: sum.splits db_error.splits if_splits)
qed

lemma serve_clear: "serves (inactive i) (clear_job v i reason) (\<lambda>_. anywhere)"
  unfolding clear_job_def
  by (rule serves_writes) (auto simp: db_ok_def inactive_def intro!: mark_cleared_edits)


lemma serve_resolve: "serves anywhere (resolve_target a b) (\<lambda>_. anywhere)"
  unfolding resolve_target_def by (rule serves_reads) simp

lemma serve_create_job:
  assumes "fresh_keys v"
  shows "serves anywhere (create_job v c) (\<lambda>_. anywhere)"
proof -
  have opts: "1 \<le> o_attempt_count (create_options c)" by (simp add: create_options_def)
  have plan: "serves anywhere (if cr_existing_backup_strategy c \<noteq> ''fail'' \<or> cr_reprocess_mode c \<noteq> ''normal''
      then plan_with_create_options v f s (cr_existing_backup_strategy c) (cr_reprocess_mode c) else returns s) (\<lambda>_. anywhere)"
    for f s by (intro serves_if serve_create_options serves_returns) simp
  show ?thesis
    unfolding create_job_def
    by (rule serves_andthen [OF serve_resolve], clarify, rule serves_andthen [OF serve_lock_file],
        rule serves_andthen [OF serve_processable], rule serves_andthen [OF serve_no_active],
        rule serves_andthen [OF serve_gate], rule serves_andthen [OF plan], rule serve_create [OF assms opts])
qed

lemma ended_job:
  assumes "find_job d i = Some j" "db_ok d" "j_status j \<notin> set active_job_statuses"
  shows "inactive i d" "1 \<le> j_attempt_count j + 1"
  using assms find_job_Some [OF assms(1)] by (auto simp: inactive_def db_ok_def row_ok_def order_ok_def)

text \<open>The end both retries share: the new job, then the old one is cleared.\<close>

lemma serve_replacement_job:
  assumes "fresh_keys v" "1 \<le> o_attempt_count opts"
  shows "serves (inactive i) (andthen (create_from_plan v f s opts) (\<lambda>job. andthen (clear_job v i reason) (\<lambda>_. returns job))) (\<lambda>_. anywhere)"
proof (rule serves_andthen)
  show "serves (inactive i) (create_from_plan v f s opts) (\<lambda>_. inactive i)"
    using serves_inactive [OF serve_create [OF assms]] by simp
  show "serves (inactive i) (andthen (clear_job v i reason) (\<lambda>_. returns job)) (\<lambda>_. anywhere)" for job
    by (rule serves_andthen [OF serve_clear]) (simp add: serves_returns)
qed

lemma serves_step:
  assumes "serves anywhere m (\<lambda>_. anywhere)" "\<And>x. serves (inactive i) (f x) Q"
  shows "serves (inactive i) (andthen m f) Q"
proof (rule serves_andthen)
  show "serves (inactive i) m (\<lambda>_. inactive i)" using serves_inactive [OF assms(1)] by simp
qed (rule assms(2))

lemma serves_pure: "(A \<Longrightarrow> serves P m Q) \<Longrightarrow> serves (\<lambda>d. A \<and> P d) m Q"
  by (cases A) (simp, simp add: serves_def)

lemma retry_attempt: "1 \<le> j_attempt_count j + 1 \<Longrightarrow> 1 \<le> o_attempt_count (operator_retry_options j payload backup)"
  by (simp add: operator_retry_options_def)

text \<open>Find the job, check its status: it ended, and stays so.\<close>

lemma serve_ended_job:
  assumes "\<And>j. c j \<Longrightarrow> j_status j \<notin> set active_job_statuses"
    and "\<And>j. 1 \<le> j_attempt_count j + 1 \<Longrightarrow> serves (inactive i) (f j) Q"
  shows "serves anywhere (andthen (get_job i) (\<lambda>j. andthen (require (\<lambda>_. c j) e) (\<lambda>_. f j))) Q"
proof (rule serves_andthen [OF serve_get_job], rule serves_andthen)
  show "serves (\<lambda>d. True \<and> find_job d i = Some j \<and> db_ok d) (require (\<lambda>_. c j) e)
      (\<lambda>_ d. 1 \<le> j_attempt_count j + 1 \<and> inactive i d)" for j
    by (rule serves_require) (use ended_job assms(1) in blast)
  show "serves (\<lambda>d. 1 \<le> j_attempt_count j + 1 \<and> inactive i d) (f j) Q" for j
    by (rule serves_pure) (rule assms(2))
qed

lemma retryable_ended: "st \<in> set retryable_job_statuses \<Longrightarrow> st \<notin> set active_job_statuses"
  by (auto simp: retryable_job_statuses_def active_job_statuses_def)

lemma serve_plan_for_retry: "serves anywhere (plan_snapshot_for_retry v f s strategy) (\<lambda>_. anywhere)"
  unfolding plan_snapshot_for_retry_def by (intro serves_if serve_create_options serves_returns serves_fails) simp

lemma serve_check_backup:
  "serves anywhere (if strategy \<noteq> ''fail'' then reads (\<lambda>_. validate_existing_backup_retry v f j strategy) else returns ()) (\<lambda>_. anywhere)"
  by (intro serves_if serves_reads serves_returns) simp_all

lemma serve_retry:
  assumes "fresh_keys v"
  shows "serves anywhere (retry_job v i strategy) (\<lambda>_. anywhere)"
  unfolding retry_job_def
  by (rule serve_ended_job, erule retryable_ended, rule serves_step [OF serve_lock_file], rule serves_step [OF serve_processable],
      rule serves_step [OF serve_plan_of], rule serves_step [OF serve_gate], rule serves_step [OF serve_check_backup],
      rule serves_step [OF serve_no_active], rule serves_step [OF serve_plan_for_retry],
      rule serve_replacement_job [OF assms], erule retry_attempt)

lemma serve_recover:
  assumes "fresh_keys v"
  shows "serves anywhere (recover_with_strip_only v i) (\<lambda>_. anywhere)"
  unfolding recover_with_strip_only_def
  by (rule serve_ended_job, force simp: active_job_statuses_def, rule serves_step [OF serves_require], simp,
      rule serves_step [OF serves_reads], simp, rule serves_step [OF serve_lock_file], rule serves_step [OF serve_processable],
      rule serves_step [OF serve_gate], rule serves_step [OF serve_no_active], rule serves_step [OF serves_reads], simp,
      rule serves_step [OF serve_add_plan], rule serve_replacement_job [OF assms], erule retry_attempt)

lemma put_file_edits: "flush (put_file now f d) = Inr d' \<Longrightarrow> edits (db_jobs d) (db_jobs d')"
  by (auto simp: flush_Inr edits_none)

lemma serve_settle_by_plan: "serves anywhere (settle_file_by_plan v i) (\<lambda>_. anywhere)"
  unfolding settle_file_by_plan_def
  by (rule serves_andthen [OF serves_weaken [OF serve_get_job]], simp, assumption, rule serves_andthen [OF serves_weaken [OF serve_plan_of]],
      simp, assumption, rule serves_writes) (auto split: option.splits dest: put_file_edits)

lemma serve_settle_by_result: "serves anywhere (settle_file_by_result v i r) (\<lambda>_. anywhere)"
  unfolding settle_file_by_result_def
  by (rule serves_andthen [OF serves_weaken [OF serve_get_job]], simp, assumption, rule serves_andthen [OF serves_weaken [OF serve_plan_of]],
      simp, assumption, rule serves_writes) (auto split: option.splits dest: put_file_edits)

lemma serve_cancel_running: "serves anywhere (cancel_running v j) (\<lambda>_. anywhere)"
proof (rule servesI)
  fix d r d' assume d: "db_ok d" "cancel_running v j d = (r, d')"
  then have wk: "well_keyed d" by (simp add: db_ok_def)
  show "edits (db_jobs d) (db_jobs d') \<and> (\<forall>x. r = Inr x \<longrightarrow> True)"
    using d(2) mark_cancellation_requested_edits [OF wk] mark_cancelling_edits [OF wk]
    by (auto simp: cancel_running_def returns_def fails_def writes_def edits_none split: if_splits sum.splits)
qed

lemma serve_found_job: "serves anywhere (get_job i) (\<lambda>j d. find_job d i = Some j)"
  unfolding get_job_def by (rule serves_reads) (auto split: option.splits)

lemma serve_cancel_waiting:
  assumes "j_status j \<in> {JS_PENDING, JS_SCHEDULED}"
  shows "serves (\<lambda>d. find_job d i = Some j)
     (andthen (writes (mark_cancelled (sv_now v) i (sv_now v) reason)) (\<lambda>_. settle_file_by_plan v i)) (\<lambda>_. anywhere)"
  by (rule serves_andthen [OF serves_writes serve_settle_by_plan])
     (use assms in \<open>auto simp: db_ok_def settled_statuses_def intro!: mark_cancelled_edits\<close>)

lemma serve_cancel_branch:
  "serves (\<lambda>d. find_job d i = Some j)
     (if j_status j \<in> {JS_PENDING, JS_SCHEDULED}
      then andthen (writes (mark_cancelled (sv_now v) i (sv_now v) reason)) (\<lambda>_. settle_file_by_plan v i)
      else cancel_running v j) (\<lambda>_. anywhere)"
  by (rule serves_if, erule serve_cancel_waiting) (rule serves_weaken [OF serve_cancel_running], simp_all)

lemma serve_cancel: "serves anywhere (cancel_job v i) (\<lambda>_. anywhere)"
  unfolding cancel_job_def
  by (rule serves_andthen [OF serve_found_job], rule serves_andthen [OF _ serve_cancel_branch], rule serves_require)

lemma serve_clear_queue: "serves anywhere (clear_whole_queue v) (\<lambda>_. anywhere)"
  unfolding clear_whole_queue_def
  by (rule serves_andthen [OF serves_reads], simp, rule serves_andthen [OF serves_writes],
      simp add: db_ok_def clear_queue_edits, rule serves_andthen [OF serves_each_do [OF serve_settle_by_plan]], rule serves_returns, simp)

lemma serve_clear_history: "serves anywhere (clear_history v ids) (\<lambda>_. anywhere)"
  unfolding clear_history_def
  by (intro serves_if serves_returns, simp, rule serves_andthen [OF serves_reads], simp, rule serves_andthen [OF serves_writes])
     (auto simp: db_ok_def intro: clear_failed_history_edits serves_returns)

text \<open>The selected jobs.\<close>

definition problem_rows :: "row_id set \<Rightarrow> db \<Rightarrow> bool" where
  "problem_rows I d \<longleftrightarrow> (\<forall>i\<in>I. \<exists>k. find_job d i = Some k \<and> j_status k \<in> set retryable_job_statuses)"

lemma selected_problem_jobs_spec:
  "selected_problem_jobs ids d = (r, d') \<Longrightarrow> d' = d \<and>
     (\<forall>js. r = Inr js \<longrightarrow> map j_id js = ids \<and> (\<forall>j\<in>set js. find_job d (j_id j) = Some j \<and> j_status j \<in> set retryable_job_statuses))"
  unfolding selected_problem_jobs_def
proof (induction ids arbitrary: r d')
  case (Cons i ids)
  obtain q e where rest: "each_do selected_problem_job ids d = (q, e)" by force
  have one: "selected_problem_job i d = (p, d1) \<Longrightarrow> d1 = d \<and>
      (\<forall>j. p = Inr j \<longrightarrow> find_job d i = Some j \<and> j_id j = i \<and> j_status j \<in> set retryable_job_statuses)" for p d1
    using find_job_Some by (auto simp: selected_problem_job_def reads_def split: option.splits if_splits)
  obtain p d1 where p: "selected_problem_job i d = (p, d1)" by force
  show ?case using Cons.IH [OF rest] Cons.prems one [OF p] by (auto simp: andthen_def returns_def p rest split: sum.splits)
qed (simp add: returns_def)

lemma serve_selected:
  "serves anywhere (selected_problem_jobs ids) (\<lambda>js d. map j_id js = ids \<and> problem_rows (set ids) d)"
proof (rule servesI)
  fix d r d' assume "selected_problem_jobs ids d = (r, d')"
  from selected_problem_jobs_spec [OF this]
  show "edits (db_jobs d) (db_jobs d') \<and> (\<forall>js. r = Inr js \<longrightarrow> map j_id js = ids \<and> problem_rows (set ids) d')"
    by (fastforce simp: edits_none problem_rows_def)
qed

lemma andthen_jobs:
  assumes "\<And>d. db_jobs (snd (m d)) = db_jobs d" "\<And>x d. db_jobs (snd (f x d)) = db_jobs d"
  shows "db_jobs (snd (andthen m f d)) = db_jobs d"
proof -
  obtain r e where "m d = (r, e)" by force
  then show ?thesis using assms(1) [of d] assms(2) [of _ e] by (simp add: andthen_def split: sum.split)
qed

lemma reads_jobs [simp]: "db_jobs (snd (reads f d)) = db_jobs d"
  by (simp add: reads_def)

lemma settle_by_result_jobs: "db_jobs (snd (settle_file_by_result v i r d)) = db_jobs d"
  unfolding settle_file_by_result_def get_job_def plan_of_def
  by (intro andthen_jobs) (auto simp: writes_def flush_Inr split: option.split sum.splits)

lemma problem_rows_cong: "db_jobs d' = db_jobs d \<Longrightarrow> problem_rows I d' = problem_rows I d"
  by (simp add: problem_rows_def find_job_def)

lemma serve_settle_problem: "serves (problem_rows I) (settle_file_by_result v i r) (\<lambda>_. problem_rows I)"
proof (rule servesI)
  fix d q d' assume "problem_rows I d" "settle_file_by_result v i r d = (q, d')"
  then show "edits (db_jobs d) (db_jobs d') \<and> (\<forall>x. q = Inr x \<longrightarrow> problem_rows I d')"
    using settle_by_result_jobs [of v i r d] problem_rows_cong [of d' d] by (simp add: edits_none)
qed

lemma mark_skipped_rows:
  assumes "db_ok d" "problem_rows I d" "i \<in> I" "mark_result dv dr now i (operator_skip v j) d = Inr d'"
  shows "edits (db_jobs d) (db_jobs d') \<and> problem_rows I d'"
proof
  let ?f = "with_result dv dr JS_SKIPPED (operator_skip v j)"
  have wk: "well_keyed d" using assms(1) by (simp add: db_ok_def)
  have st: "er_status (operator_skip v j) = ''skipped''" by (simp add: operator_skip_def settle_def)
  have "j_status k \<notin> {JS_PENDING, JS_SCHEDULED, JS_COMPLETED}" if "find_job d i = Some k" for k
    using assms(2,3) that by (auto simp: problem_rows_def retryable_job_statuses_def)
  then show "edits (db_jobs d) (db_jobs d')" by (rule mark_result_edits [OF wk assms(4)])
  have w: "write_job now i ?f d = Inr d'" using assms(4) by (simp add: mark_result_def st status_of_result_def)
  have ids: "j_id (?f k) = j_id k" for k using with_result_same by (simp add: same_job_def)
  from write_job_Inr [OF w wk ids] have d': "db_jobs d' = rewrite_jobs now {i} ?f (db_jobs d)" by simp
  show "problem_rows I d'"
    unfolding problem_rows_def
  proof
    fix k assume "k \<in> I"
    then obtain r where r: "find_job d k = Some r" "j_status r \<in> set retryable_job_statuses"
      using assms(2) by (auto simp: problem_rows_def)
    then have "find_job d' k = Some (if k \<in> {i} then stamped now ?f r else r)"
      using find_rewrite [where f = ?f, OF ids, of k now "{i}" "db_jobs d"] by (cases "k = i") (simp_all add: find_job_def d')
    then show "\<exists>r. find_job d' k = Some r \<and> j_status r \<in> set retryable_job_statuses"
      using r(2) by (simp add: stamped_fields with_result_fields retryable_job_statuses_def)
  qed
qed

lemma serve_skip:
  assumes "i \<in> I"
  shows "serves (problem_rows I) (skip_problem_job v i) (\<lambda>_. problem_rows I)"
  unfolding skip_problem_job_def Let_def
proof (rule serves_andthen)
  show "serves (problem_rows I) (get_job i) (\<lambda>_. problem_rows I)"
    by (rule serves_weaken [OF serve_get_job [of "problem_rows I"]]) auto
  show "serves (problem_rows I) (andthen (writes (mark_result (sv_dump_verification v) (sv_dump_replacement v) (sv_now v) i (operator_skip v j)))
     (\<lambda>_. andthen (settle_file_by_result v i (operator_skip v j)) (\<lambda>_. returns i))) (\<lambda>_. problem_rows I)" for j
    by (rule serves_andthen [OF serves_writes [OF mark_skipped_rows]], assumption, assumption, rule assms, assumption,
        rule serves_andthen [OF serve_settle_problem], rule serves_returns)
qed

lemma serve_skips: "serves (problem_rows (set (map j_id js))) (mark_problem_jobs_skipped v js) (\<lambda>_. problem_rows (set (map j_id js)))"
  unfolding mark_problem_jobs_skipped_def by (rule serves_each_do, rule serve_skip) simp

definition ended :: "row_id set \<Rightarrow> db \<Rightarrow> bool" where
  "ended I d \<longleftrightarrow> (\<forall>i\<in>I. inactive i d)"

lemma serves_ended: "serves anywhere m (\<lambda>_. anywhere) \<Longrightarrow> serves (ended I) m (\<lambda>_. ended I)"
proof (rule servesI)
  fix d r d' assume *: "serves anywhere m (\<lambda>_. anywhere)" "db_ok d" "ended I d" "m d = (r, d')"
  note m = servesD [OF *(1,2) TrueI *(4)]
  then show "edits (db_jobs d) (db_jobs d') \<and> (\<forall>x. r = Inr x \<longrightarrow> ended I d')"
    using edits_inactive [of d d'] *(2,3) by (simp add: db_ok_def ended_def)
qed

lemma serve_clear_ended: "i \<in> I \<Longrightarrow> serves (ended I) (clear_job v i reason) (\<lambda>_. ended I)"
proof (rule servesI)
  fix d r d' assume *: "i \<in> I" "db_ok d" "ended I d" "clear_job v i reason d = (r, d')"
  then have i: "inactive i d" by (simp add: ended_def)
  note m = servesD [OF serve_clear *(2) i *(4)]
  then show "edits (db_jobs d) (db_jobs d') \<and> (\<forall>x. r = Inr x \<longrightarrow> ended I d')"
    using edits_inactive [of d d'] *(2,3) by (simp add: db_ok_def ended_def)
qed

lemma serve_retries:
  assumes "fresh_keys v"
  shows "serves (ended (set (map j_id js))) (retry_problem_jobs v js strategy) (\<lambda>_. anywhere)"
  unfolding retry_problem_jobs_def
proof (rule serves_andthen [OF serves_each_do], rule serves_ended [OF serve_retry [OF assms]])
  show "serves (ended (set (map j_id js))) (andthen (each_do (\<lambda>j. clear_job v (j_id j) ''Requeued by operator.'') js)
     (\<lambda>_. returns (map j_id rs))) (\<lambda>_. anywhere)" for rs
    by (rule serves_andthen [OF serves_each_do [OF serve_clear_ended]], simp, rule serves_returns, simp)
qed

lemma serve_resolve_jobs:
  assumes "fresh_keys v"
  shows "serves anywhere (resolve_problem_jobs v ids act strategy) (\<lambda>_. anywhere)"
  unfolding resolve_problem_jobs_def
proof (intro serves_if serves_fails, rule serves_andthen [OF serve_selected], intro serves_if serves_fails)
  fix js :: "job list"
  show "serves (\<lambda>d. map j_id js = ids \<and> problem_rows (set ids) d) (retry_problem_jobs v js strategy) (\<lambda>_. anywhere)"
    by (rule serves_weaken [OF serve_retries [OF assms]])
       (use retryable_ended in \<open>fastforce simp: ended_def inactive_def problem_rows_def\<close>)+
  show "serves (\<lambda>d. map j_id js = ids \<and> problem_rows (set ids) d) (mark_problem_jobs_skipped v js) (\<lambda>_. anywhere)"
    by (rule serves_weaken [OF serve_skips]) auto
qed

lemma serve_attempt:
  assumes "serves anywhere m (\<lambda>_. anywhere)"
  shows "serves anywhere (attempt_in_batch m) (\<lambda>_. anywhere)"
proof (rule servesI)
  fix d r d' assume d: "db_ok d" "attempt_in_batch m d = (r, d')"
  obtain q e where m: "m d = (q, e)" by force
  have "d' = e" using d(2) m by (auto simp: attempt_in_batch_def split: sum.splits api_error.splits)
  then show "edits (db_jobs d) (db_jobs d') \<and> (\<forall>x. r = Inr x \<longrightarrow> True)"
    using servesD(1) [OF assms d(1) TrueI m] by simp
qed

lemma serve_batch:
  assumes "fresh_keys v"
  shows "serves anywhere (create_batch_jobs v c payload_of targets) (\<lambda>_. anywhere)"
  unfolding create_batch_jobs_def
proof (rule serves_each_do)
  fix t assume "t \<in> set targets"
  obtain sp fid sid where t: "t = (sp, fid, sid)" by (cases t)
  show "serves anywhere (case t of (sp, fid, sid) \<Rightarrow>
      andthen (attempt_in_batch (create_job v (c\<lparr>cr_tracked_file_id := Some fid, cr_plan_snapshot_id := Some sid,
         cr_allow_review_approved := False, cr_analysis_payload := (case payload_of of None \<Rightarrow> None | Some g \<Rightarrow> g sp fid sid)\<rparr>)))
       (\<lambda>out. returns (sp, out))) (\<lambda>_. anywhere)"
    unfolding t prod.case
    by (rule serves_andthen [OF serve_attempt [OF serve_create_job [OF assms]]], rule serves_returns, simp)
qed

lemma serve_watched:
  assumes "fresh_keys v" "1 \<le> o_attempt_count opts"
  shows "serves anywhere (create_watched_job_if_needed v f s opts) (\<lambda>_. anywhere)"
proof -
  have "serves anywhere (create_watched_job v f s opts) (\<lambda>_. anywhere)"
    unfolding create_watched_job_def
    by (rule serves_andthen [OF serve_lock_file], rule serves_andthen [OF serve_processable], rule serves_andthen [OF serve_no_active],
        rule serves_andthen [OF serve_gate], rule serve_create [OF assms])
  from serve_attempt [OF this] show ?thesis
    unfolding create_watched_job_if_needed_def by (rule serves_andthen) (rule serves_returns, simp)
qed

subsection \<open>Successful requests\<close>

lemma andthen_Inr: "andthen m f d = (Inr y, d') \<longleftrightarrow> (\<exists>x e. m d = (Inr x, e) \<and> f x e = (Inr y, d'))"
  by (auto simp: andthen_def split: prod.splits sum.splits)

lemma in_transaction_Inr: "in_transaction m d = Inr (d', x) \<longleftrightarrow> m d = (Inr x, d')"
  by (auto simp: in_transaction_def split: prod.splits sum.splits)

lemma require_Inr: "require c e d = (Inr x, d') \<longleftrightarrow> c d \<and> d' = d"
  by (auto simp: require_def)

lemma reads_Inr: "reads f d = (Inr x, d') \<longleftrightarrow> f d = Inr x \<and> d' = d"
  by (auto simp: reads_def)

lemma returns_Inr: "returns y d = (Inr x, d') \<longleftrightarrow> y = x \<and> d' = d"
  by (auto simp: returns_def)

lemma fails_Inr: "fails e d \<noteq> (Inr x, d')"
  by (simp add: fails_def)

lemma writes_Inr: "writes f d = (Inr x, d') \<longleftrightarrow> f d = Inr d'"
  by (auto simp: writes_def split: sum.splits)

lemmas service_success = in_transaction_Inr andthen_Inr require_Inr reads_Inr returns_Inr fails_Inr writes_Inr

lemma find_lock: "find_file (lock_for_update now i d) k =
    map_option (\<lambda>f. if tf_id f = i then f\<lparr>tf_updated_at := now\<rparr> else f) (find_file d k)"
proof -
  have "find (\<lambda>f. tf_id f = k) (map (\<lambda>f. if tf_id f = i then f\<lparr>tf_updated_at := now\<rparr> else f) fs) =
      map_option (\<lambda>f. if tf_id f = i then f\<lparr>tf_updated_at := now\<rparr> else f) (find (\<lambda>f. tf_id f = k) fs)" for fs
    by (induction fs) auto
  then show ?thesis by (simp add: find_file_def lock_for_update_def)
qed

lemma lock_file_Inr:
  "lock_file v i d = (Inr f, d') \<longleftrightarrow>
     d' = lock_for_update (sv_now v) i d \<and> (\<exists>f0. find_file d i = Some f0 \<and> f = f0\<lparr>tf_updated_at := sv_now v\<rparr>)"
  by (auto simp: lock_file_def andthen_Inr touches_def reads_Inr find_lock dest: find_file_Some split: option.splits)

lemma validate_processable_Inr:
  "validate_processable_target v f d = (Inr x, d') \<longleftrightarrow>
     encodr_exclusion_reason (sv_resolve v) (path_of (tf_source_path f)) None = None \<and> d' = d"
  by (auto simp: validate_processable_target_def returns_Inr fails_Inr split: option.splits)

lemma get_job_Inr: "get_job i d = (Inr j, d') \<longleftrightarrow> find_job d i = Some j \<and> d' = d"
  by (auto simp: get_job_def reads_Inr split: option.splits)

lemma plan_of_Inr: "plan_of j d = (Inr s, d') \<longleftrightarrow> find_plan d (j_plan_snapshot_id j) = Some s \<and> d' = d"
  by (auto simp: plan_of_def reads_Inr split: option.splits)

lemmas service_steps = service_success lock_file_Inr validate_processable_Inr get_job_Inr plan_of_Inr
  validate_review_gate_def require_no_active_job_def clear_job_def

lemma create_from_plan_Inr:
  "create_from_plan v f s opts d = (Inr job, d') \<longleftrightarrow>
     create_job_from_plan (sv_new_job v d) (sv_now v) (sv_tz v) f s opts d = Inr (d', job)"
  by (auto simp: create_from_plan_def split: sum.splits db_error.splits if_splits)

lemma plan_with_options_jobs: "db_jobs (snd (plan_with_create_options v f s strategy mode d)) = db_jobs d"
  by (auto simp: plan_with_create_options_def fails_def returns_def andthen_def reads_def add_plan_snapshot_def Let_def split: sum.split)

lemma locked_tables [simp]:
  "db_plans (lock_for_update now i d) = db_plans d" "db_workers (lock_for_update now i d) = db_workers d"
  "find_job (lock_for_update now i d) k = find_job d k" "find_plan (lock_for_update now i d) k = find_plan d k"
  "has_active_job_for_tracked_file k (lock_for_update now i d) = has_active_job_for_tracked_file k d"
  "get_latest_for_tracked_file k (lock_for_update now i d) = get_latest_for_tracked_file k d"
  "review_gate_opens v (lock_for_update now i d) = review_gate_opens v d"
  by (simp_all add: lock_for_update_def find_job_def find_plan_def has_active_job_for_tracked_file_def
        get_latest_for_tracked_file_def review_gate_opens_def [abs_def])

text \<open>The review gate in plain words.\<close>

definition approved_for :: "service_env \<Rightarrow> db \<Rightarrow> tracked_file \<Rightarrow> plan_snapshot \<Rightarrow> bool" where
  "approved_for v d f s \<longleftrightarrow>
     (\<exists>r. latest_decision (tf_id f) (sv_decisions v) = Some r \<and> rd_decision_type r = DT_APPROVED \<and>
        rd_plan_snapshot_id r = Some (sn_id s) \<and> sn_created_at s \<le> rd_created_at r \<and>
        (\<forall>t. tf_operator_protected_updated_at f = Some t \<longrightarrow> t \<le> rd_created_at r) \<and>
        (\<forall>j. get_latest_for_tracked_file (tf_id f) d = Some j \<and> j_status j = JS_MANUAL_REVIEW \<longrightarrow> j_updated_at j \<le> rd_created_at r))"

lemma issue_at_le:
  "issue_at f s latest \<le> t \<longleftrightarrow> sn_created_at s \<le> t \<and>
     (\<forall>u. tf_operator_protected_updated_at f = Some u \<longrightarrow> u \<le> t) \<and>
     (\<forall>j. latest = Some j \<and> j_status j = JS_MANUAL_REVIEW \<longrightarrow> j_updated_at j \<le> t)"
  by (cases "tf_operator_protected_updated_at f"; cases latest) (auto simp: issue_at_def)

lemma decision_is_current_iff:
  "decision_is_current f s (get_latest_for_tracked_file (tf_id f) d) (latest_decision (tf_id f) (sv_decisions v)) \<longleftrightarrow> approved_for v d f s"
  by (auto simp: decision_is_current_def approved_for_def issue_at_le split: option.splits)

lemma review_gate_iff:
  "review_gate_opens v d f s allow None \<longleftrightarrow>
     (planner_review_required f s \<or> awaits_review (get_latest_for_tracked_file (tf_id f) d) \<longrightarrow> allow \<and> approved_for v d f s)"
  by (auto simp: review_gate_opens_def decision_is_current_iff Let_def)

lemma relocked_file [simp]:
  "approved_for v (lock_for_update now i d) (f\<lparr>tf_updated_at := t\<rparr>) s = approved_for v d f s"
  "planner_review_required (f\<lparr>tf_updated_at := t\<rparr>) s = planner_review_required f s"
  by (simp_all add: approved_for_def planner_review_required_def)

lemma find_file_self: "find_file d i = Some f \<Longrightarrow> find_file d (tf_id f) = Some f"
  using find_file_Some by metis

lemma target_found: "resolve_target a b d = (Inr (f, s), d') \<Longrightarrow> find_file d (tf_id f) = Some f \<and> d' = d"
  by (auto simp: resolve_target_def reads_Inr bind_eq_Some_conv split: option.splits dest: find_file_self)

lemma create_job_Inr:
  assumes "create_job v c d = (Inr job, d')"
  obtains f s e s' where "resolve_target (cr_tracked_file_id c) (cr_plan_snapshot_id c) d = (Inr (f, s), d)"
    "encodr_exclusion_reason (sv_resolve v) (path_of (tf_source_path f)) None = None"
    "\<not> has_active_job_for_tracked_file (tf_id f) d"
    "planner_review_required f s \<or> awaits_review (get_latest_for_tracked_file (tf_id f) d)
       \<longrightarrow> cr_allow_review_approved c \<and> approved_for v d f s"
    "db_jobs e = db_jobs d"
    "create_job_from_plan (sv_new_job v e) (sv_now v) (sv_tz v) (f\<lparr>tf_updated_at := sv_now v\<rparr>) s' (create_options c) e = Inr (d', job)"
proof -
  let ?lock = "\<lambda>f. lock_for_update (sv_now v) (tf_id f) d"
  from assms obtain f s where t: "resolve_target (cr_tracked_file_id c) (cr_plan_snapshot_id c) d = (Inr (f, s), d)"
      "find_file d (tf_id f) = Some f"
    and rest: "andthen (lock_file v (tf_id f)) (\<lambda>f.
     andthen (validate_processable_target v f) (\<lambda>_.
     andthen (require_no_active_job (tf_id f)) (\<lambda>_.
     andthen (validate_review_gate v f s (cr_allow_review_approved c) None) (\<lambda>_.
     andthen (if cr_existing_backup_strategy c \<noteq> ''fail'' \<or> cr_reprocess_mode c \<noteq> ''normal''
              then plan_with_create_options v f s (cr_existing_backup_strategy c) (cr_reprocess_mode c)
              else returns s) (\<lambda>s'.
     create_from_plan v f s' (create_options c)))))) d = (Inr job, d')"
    by (auto simp: create_job_def andthen_Inr [of "resolve_target a b" for a b] dest: target_found split: prod.splits)
  obtain e s' where *:
    "encodr_exclusion_reason (sv_resolve v) (path_of (tf_source_path f)) None = None"
    "\<not> has_active_job_for_tracked_file (tf_id f) d"
    "review_gate_opens v d (f\<lparr>tf_updated_at := sv_now v\<rparr>) s (cr_allow_review_approved c) None"
    "(if cr_existing_backup_strategy c \<noteq> ''fail'' \<or> cr_reprocess_mode c \<noteq> ''normal''
      then plan_with_create_options v (f\<lparr>tf_updated_at := sv_now v\<rparr>) s (cr_existing_backup_strategy c) (cr_reprocess_mode c)
      else returns s) (?lock f) = (Inr s', e)"
    "create_job_from_plan (sv_new_job v e) (sv_now v) (sv_tz v) (f\<lparr>tf_updated_at := sv_now v\<rparr>) s' (create_options c) e = Inr (d', job)"
    using rest t(2) by (auto simp: service_steps create_from_plan_Inr)
  have "db_jobs e = db_jobs d"
    using *(4) plan_with_options_jobs [of v "f\<lparr>tf_updated_at := sv_now v\<rparr>" s _ _ "?lock f"]
    by (auto simp: returns_Inr split: if_splits) (metis lock_jobs snd_conv)+
  moreover have "planner_review_required f s \<or> awaits_review (get_latest_for_tracked_file (tf_id f) d)
       \<longrightarrow> cr_allow_review_approved c \<and> approved_for v d f s"
    using *(3) by (simp add: review_gate_iff approved_for_def planner_review_required_def)
  ultimately show ?thesis using that t(1) * by blast
qed

text \<open>When the gates are open the request succeeds.\<close>

lemma create_job_possible:
  assumes "db_ok d" "fresh_keys v" "stored_schedule (cr_schedule_windows c)"
    and "cr_existing_backup_strategy c = ''fail''" "cr_reprocess_mode c = ''normal''"
    and t: "resolve_target (cr_tracked_file_id c) (cr_plan_snapshot_id c) d = (Inr (f, s), d)"
    and "encodr_exclusion_reason (sv_resolve v) (path_of (tf_source_path f)) None = None"
    and "\<not> has_active_job_for_tracked_file (tf_id f) d"
    and "planner_review_required f s \<or> awaits_review (get_latest_for_tracked_file (tf_id f) d)
       \<longrightarrow> cr_allow_review_approved c \<and> approved_for v d f s"
  shows "\<exists>d' job. create_job v c d = (Inr job, d')"
proof -
  let ?f = "f\<lparr>tf_updated_at := sv_now v\<rparr>" and ?d = "lock_for_update (sv_now v) (tf_id f) d"
  have wk: "well_keyed ?d" using assms(1) by (simp add: db_ok_def well_keyed_def)
  have fresh: "sv_new_job v ?d \<notin> j_id ` set (db_jobs ?d)" using assms(2) unfolding fresh_keys_def by blast
  have opts: "stored_schedule (o_schedule_windows (create_options c))" using assms(3) by (simp add: create_options_def)
  obtain d' job where made:
    "create_job_from_plan (sv_new_job v ?d) (sv_now v) (sv_tz v) ?f s (create_options c) ?d = Inr (d', job)"
    using create_job_spec [OF wk fresh opts, of ?f "sv_now v" "sv_tz v" s] assms(8) by auto
  have lock: "lock_file v (tf_id f) d = (Inr ?f, ?d)" using target_found [OF t] by (simp add: lock_file_Inr)
  have ok: "validate_processable_target v ?f ?d = (Inr (), ?d)" using assms(7) by (simp add: validate_processable_target_def returns_def)
  have free: "require_no_active_job (tf_id f) ?d = (Inr (), ?d)" using assms(8) by (simp add: require_no_active_job_def require_def)
  have gate: "validate_review_gate v ?f s (cr_allow_review_approved c) None ?d = (Inr (), ?d)"
    using assms(9) by (simp add: validate_review_gate_def require_def review_gate_iff approved_for_def planner_review_required_def)
  have "create_from_plan v ?f s (create_options c) ?d = (Inr job, d')" using made by (simp add: create_from_plan_Inr)
  then show ?thesis
    by (simp add: create_job_def andthen_def t lock ok free gate assms(4,5) returns_def)
qed


lemma plan_for_retry_jobs: "db_jobs (snd (plan_snapshot_for_retry v f s strategy d)) = db_jobs d"
  by (simp add: plan_snapshot_for_retry_def returns_def fails_def plan_with_options_jobs)

definition cleared_row :: "instant \<Rightarrow> string \<Rightarrow> job \<Rightarrow> job" where
  "cleared_row stamp reason j = j\<lparr>j_cleared_at := Some stamp, j_cleared_reason := Some reason\<rparr>"

lemma cleared_row_fields [simp]:
  "j_id (cleared_row t r j) = j_id j" "j_status (cleared_row t r j) = j_status j" "j_cleared_at (cleared_row t r j) = Some t"
  by (simp_all add: cleared_row_def)

lemma mark_cleared_row: "mark_cleared now i stamp reason = write_job now i (cleared_row stamp reason)"
  by (simp add: mark_cleared_def [abs_def] cleared_row_def [abs_def])

text \<open>The end both retries share: what it leaves of the table.\<close>

lemma replacement_rows:
  assumes "db_ok d" "fresh_keys v" "db_jobs e = db_jobs d" "find_job d i = Some j" "1 \<le> o_attempt_count opts"
    and "j_status j \<notin> set active_job_statuses"
    and "create_job_from_plan (sv_new_job v e) (sv_now v) (sv_tz v) f s opts e = Inr (e2, job)"
    and "mark_cleared (sv_now v) i (sv_now v) reason e2 = Inr d'"
  shows "db_ok d' \<and> db_jobs d' = rewrite_jobs (sv_now v) {i} (cleared_row (sv_now v) reason) (db_jobs d) @ [job] \<and>
    fresh_row job \<and> j_tracked_file_id job = tf_id f \<and> j_plan_snapshot_id job = sn_id s \<and>
    j_attempt_count job = o_attempt_count opts \<and> j_id job \<noteq> i \<and> inactive i d'"
proof -
  let ?f = "cleared_row (sv_now v) reason"
  have wk: "well_keyed e" and ok: "db_ok e" using assms(1,3) by (auto simp: db_ok_def well_keyed_def)
  have fresh: "sv_new_job v e \<notin> j_id ` set (db_jobs e)" using assms(2) unfolding fresh_keys_def by blast
  note made = create_job_edits [OF wk fresh assms(5,7)]
  have ok2: "db_ok e2" by (rule edits_db_ok [OF ok]) (use made in blast)
  have wk2: "well_keyed e2" using ok2 by (simp add: db_ok_def)
  have ids: "j_id (?f k) = j_id k" for k by simp
  note w = assms(8) [unfolded mark_cleared_row]
  have d': "db_jobs d' = rewrite_jobs (sv_now v) {i} ?f (db_jobs e2)" using write_job_Inr [OF w wk2 ids] by simp
  have i: "i \<in> j_id ` set (db_jobs e)" using find_job_Some [OF assms(4)] assms(3) by auto
  then have other: "j_id job \<noteq> i" using made fresh by auto
  then have rows: "db_jobs d' = rewrite_jobs (sv_now v) {i} ?f (db_jobs d) @ [job]"
    using d' made assms(3) by (simp add: rewrite_jobs_def)
  have "inactive i e" using assms(3,4,6) by (auto simp: inactive_def find_job_def)
  then have old: "inactive i e2" using edits_inactive [OF wk] made by blast
  have ed: "edits (db_jobs e2) (db_jobs d')"
    by (rule mark_cleared_edits [OF wk2 assms(8)]) (use old in \<open>auto simp: inactive_def\<close>)
  show ?thesis using made rows other edits_db_ok [OF ok2 ed] edits_inactive [OF wk2 ed old] by simp
qed

lemma retry_job_Inr:
  assumes "retry_job v i strategy d = (Inr job, d')"
  obtains j f s s' e e2 where "find_job d i = Some j" "j_status j \<in> set retryable_job_statuses"
    "find_file d (j_tracked_file_id j) = Some f" "find_plan d (j_plan_snapshot_id j) = Some s"
    "encodr_exclusion_reason (sv_resolve v) (path_of (tf_source_path f)) None = None"
    "review_gate_opens v d (f\<lparr>tf_updated_at := sv_now v\<rparr>) s False (if can_retry_operational_manual_review j then Some (j_id j) else None)"
    "strategy \<noteq> ''fail'' \<longrightarrow> validate_existing_backup_retry v (f\<lparr>tf_updated_at := sv_now v\<rparr>) j strategy = Inr ()"
    "\<not> has_active_job_for_tracked_file (tf_id f) d"
    "plan_snapshot_for_retry v (f\<lparr>tf_updated_at := sv_now v\<rparr>) s strategy (lock_for_update (sv_now v) (tf_id f) d) = (Inr s', e)"
    "db_jobs e = db_jobs d"
    "create_job_from_plan (sv_new_job v e) (sv_now v) (sv_tz v) (f\<lparr>tf_updated_at := sv_now v\<rparr>) s'
       (operator_retry_options j (j_analysis_payload j) (j_backup_policy j)) e = Inr (e2, job)"
    "mark_cleared (sv_now v) i (sv_now v) ''Retry job created by operator.'' e2 = Inr d'"
proof -
  obtain j f s s' e e2 where *: "find_job d i = Some j" "j_status j \<in> set retryable_job_statuses"
    "find_file d (j_tracked_file_id j) = Some f" "find_plan d (j_plan_snapshot_id j) = Some s"
    "encodr_exclusion_reason (sv_resolve v) (path_of (tf_source_path f)) None = None"
    "review_gate_opens v d (f\<lparr>tf_updated_at := sv_now v\<rparr>) s False (if can_retry_operational_manual_review j then Some (j_id j) else None)"
    "strategy \<noteq> ''fail'' \<longrightarrow> validate_existing_backup_retry v (f\<lparr>tf_updated_at := sv_now v\<rparr>) j strategy = Inr ()"
    "\<not> has_active_job_for_tracked_file (tf_id f) d"
    "plan_snapshot_for_retry v (f\<lparr>tf_updated_at := sv_now v\<rparr>) s strategy (lock_for_update (sv_now v) (tf_id f) d) = (Inr s', e)"
    "create_job_from_plan (sv_new_job v e) (sv_now v) (sv_tz v) (f\<lparr>tf_updated_at := sv_now v\<rparr>) s'
       (operator_retry_options j (j_analysis_payload j) (j_backup_policy j)) e = Inr (e2, job)"
    "mark_cleared (sv_now v) i (sv_now v) ''Retry job created by operator.'' e2 = Inr d'"
    using assms
    by (cases "strategy = ''fail''")
       (auto simp: retry_job_def service_steps create_from_plan_Inr find_file_Some)
  moreover have "db_jobs e = db_jobs d"
    using *(9) plan_for_retry_jobs [of v "f\<lparr>tf_updated_at := sv_now v\<rparr>" s strategy "lock_for_update (sv_now v) (tf_id f) d"] by simp
  ultimately show ?thesis using that by blast
qed

text \<open>A retry succeeds only for an ended job of a file that has no active job. The retried row keeps its
  status and is hidden; one new row is added: the same file, backup policy and kind of job, one more
  attempt. All other rows stay as they are, and the invariants of the table hold.\<close>

theorem retry_adds_next_attempt:
  assumes "db_ok d" "fresh_keys v" "in_transaction (retry_job v i strategy) d = Inr (d', job)"
  shows "\<exists>j. find_job d i = Some j \<and> j_status j \<in> set retryable_job_statuses \<and>
      \<not> has_active_job_for_tracked_file (j_tracked_file_id j) d \<and> db_ok d' \<and>
      db_jobs d' = rewrite_jobs (sv_now v) {i} (cleared_row (sv_now v) ''Retry job created by operator.'') (db_jobs d) @ [job] \<and>
      fresh_row job \<and> j_tracked_file_id job = j_tracked_file_id j \<and> j_attempt_count job = j_attempt_count j + 1 \<and>
      j_backup_policy job = j_backup_policy j \<and> j_job_kind job = j_job_kind j"
proof -
  from assms(3) have "retry_job v i strategy d = (Inr job, d')" by (simp add: in_transaction_Inr)
  then show ?thesis
  proof (rule retry_job_Inr)
    fix j and f :: tracked_file and s s' e e2
    let ?opts = "operator_retry_options j (j_analysis_payload j) (j_backup_policy j)"
    let ?f = "f\<lparr>tf_updated_at := sv_now v\<rparr>"
    assume j: "find_job d i = Some j" "j_status j \<in> set retryable_job_statuses"
      and f: "find_file d (j_tracked_file_id j) = Some f" and free: "\<not> has_active_job_for_tracked_file (tf_id f) d"
      and e: "db_jobs e = db_jobs d"
      and made: "create_job_from_plan (sv_new_job v e) (sv_now v) (sv_tz v) ?f s' ?opts e = Inr (e2, job)"
      and cl: "mark_cleared (sv_now v) i (sv_now v) ''Retry job created by operator.'' e2 = Inr d'"
    note ended = retryable_ended [OF j(2)]
    have row: "row_ok j" using assms(1) find_job_Some [OF j(1)] by (simp add: db_ok_def)
    have fid: "tf_id f = j_tracked_file_id j" using find_file_Some [OF f] .
    have at: "1 \<le> o_attempt_count ?opts" by (rule retry_attempt [OF ended_job(2) [OF j(1) assms(1) ended]])
    have "normalise_backup_policy (Some (j_backup_policy j)) = j_backup_policy j"
      using row by (auto simp: row_ok_def order_ok_def normalise_backup_policy_fixed)
    then have "j_backup_policy job = j_backup_policy j" "j_job_kind job = j_job_kind j"
      using made by (auto simp: create_job_from_plan_def operator_retry_options_def new_job_def Let_def flush_Inr split: sum.splits)
    then show ?thesis
      using replacement_rows [OF assms(1,2) e j(1) at ended made cl] j free fid
      by (intro exI [of _ j]) (simp add: operator_retry_options_def)
  qed
qed

text \<open>A job that ended in review for another reason than a failed replacement cannot be retried while it is
  the latest of its file, whatever the review decided: the retry never honours an approval.\<close>

theorem reviewed_job_never_retried:
  assumes "find_job d i = Some j" "j_status j = JS_MANUAL_REVIEW" "j_failure_category j \<noteq> Some ''replacement_failed''"
    and "get_latest_for_tracked_file (j_tracked_file_id j) d = Some j"
    and "find_file d (j_tracked_file_id j) = Some f" "find_plan d (j_plan_snapshot_id j) = Some s"
    and "encodr_exclusion_reason (sv_resolve v) (path_of (tf_source_path f)) None = None"
  shows "in_transaction (retry_job v i strategy) d =
    Inl (ApiConflict ''This file requires manual review or protected-file approval before a job can be created.'')"
proof -
  let ?f = "f\<lparr>tf_updated_at := sv_now v\<rparr>" and ?d = "lock_for_update (sv_now v) (j_tracked_file_id j) d"
  have lock: "lock_file v (j_tracked_file_id j) d = (Inr ?f, ?d)" using assms(5) by (simp add: lock_file_Inr)
  have ok: "validate_processable_target v ?f ?d = (Inr (), ?d)" using assms(7) by (simp add: validate_processable_target_def returns_def)
  have plan: "plan_of j ?d = (Inr s, ?d)" using assms(6) by (simp add: plan_of_Inr)
  have get: "get_job i d = (Inr j, d)" using assms(1) by (simp add: get_job_Inr)
  have no: "\<not> review_gate_opens v ?d ?f s False None"
    using assms(2,4) find_file_Some [OF assms(5)] by (simp add: review_gate_iff awaits_review_def)
  show ?thesis
    using assms(2,3) no
    by (simp add: in_transaction_def retry_job_def andthen_def get require_def lock ok plan validate_review_gate_def
          can_retry_operational_manual_review_def retryable_job_statuses_def)
qed

text \<open>The strip-only recovery of a job that failed a size or quality guard: the new job's plan
  copies the video and keeps the selected streams, so its command encodes nothing, whichever
  encoders there are, and of the safety checks only the growth of the file is left; the plan
  itself asks for no review.\<close>

theorem strip_only_plan_copies_video:
  "let q = with_backup_strategy strategy (strip_only_recovery_plan p) in
     (\<exists>c. build_execution_command_plan repr windows probes q input scratch ffmpeg job preferred allow = Inr c \<and>
        ec_mode c = ''remux'' \<and> ec_actual_backend c = Some ''cpu'' \<and>
        sublist [''-c:v'', ''copy'', ''-c:a'', ''copy'', ''-c:s'', ''copy''] (ec_command c) \<and>
        ec_output_path c = Some (build_temp_output_path input scratch (target_container (plan_container p)) job)) \<and>
     selected_streams q = selected_streams p \<and>
     evaluate_execution_safety q ms = output_larger_failure p ms \<and>
     \<not> should_treat_as_protected q \<and> action q \<noteq> MANUAL_REVIEW"
proof -
  define q where "q = with_backup_strategy strategy (strip_only_recovery_plan p)"
  have q: "action q = REMUX" "selected_streams q = selected_streams p" "plan_container q = plan_container p"
    "transcode_required (plan_video q) = False" "\<not> should_treat_as_protected q"
    "output_larger_than_input_review_percent (plan_video q) = output_larger_than_input_review_percent (plan_video p)"
    by (simp_all add: q_def with_backup_strategy_def strip_only_recovery_plan_def)
  have larger: "output_larger_failure q ms = output_larger_failure p ms" using q(6) by (simp add: output_larger_failure_def)
  then have "evaluate_execution_safety q ms = output_larger_failure p ms"
    using q(4) by (simp add: evaluate_execution_safety_def split: option.split)
  moreover have "sublist [x, y, a, b, c, e] (l @ [x, y] @ [a, b, c, e, g, h, m, n] @ r)" for x y a b c e g h m n :: string and l r
    unfolding sublist_def by (intro exI [of _ l] exI [of _ "[g, h, m, n] @ r"]) simp
  ultimately show ?thesis using q(1-3,5) unfolding q_def [symmetric] Let_def by (simp add: build_execution_command_plan_def Let_def)
qed

subsection \<open>Many jobs in one request\<close>

lemma each_do_Inr:
  "each_do f [] d = (Inr ys, d') \<longleftrightarrow> ys = [] \<and> d' = d"
  "each_do f (x # xs) d = (Inr ys, d') \<longleftrightarrow>
     (\<exists>y zs e. ys = y # zs \<and> f x d = (Inr y, e) \<and> each_do f xs e = (Inr zs, d'))"
  by (auto simp: andthen_Inr returns_Inr)

text \<open>An operation that leaves the rows alone when it fails.\<close>

definition careful :: "'a service \<Rightarrow> bool" where
  "careful m \<longleftrightarrow> (\<forall>d e d'. m d = (Inl e, d') \<longrightarrow> db_jobs d' = db_jobs d)"

lemma careful_andthen:
  assumes "\<And>d. db_jobs (snd (m d)) = db_jobs d" "\<And>x. careful (f x)"
  shows "careful (andthen m f)"
  unfolding careful_def
proof (intro allI impI)
  fix d e d' assume run: "andthen m f d = (Inl e, d')"
  obtain r d1 where m: "m d = (r, d1)" by force
  have "db_jobs d1 = db_jobs d" using assms(1) [of d] m by simp
  then show "db_jobs d' = db_jobs d"
    using run m assms(2) by (cases r) (auto simp: andthen_def careful_def)
qed

lemma quiet_steps [simp]:
  "db_jobs (snd (require c e d)) = db_jobs d" "db_jobs (snd (returns x d)) = db_jobs d"
  "db_jobs (snd (validate_processable_target v f d)) = db_jobs d"
  "db_jobs (snd (validate_review_gate v f s b k d)) = db_jobs d"
  "db_jobs (snd (require_no_active_job fid d)) = db_jobs d"
  "db_jobs (snd (resolve_target file plan d)) = db_jobs d"
  by (simp_all add: require_def returns_def validate_processable_target_def fails_def validate_review_gate_def
      require_no_active_job_def resolve_target_def split: option.split)

lemma lock_file_jobs [simp]: "db_jobs (snd (lock_file v i d)) = db_jobs d"
  by (simp add: lock_file_def andthen_def touches_def reads_def)

lemma careful_create: "careful (create_from_plan v f s opts)"
  by (auto simp: careful_def create_from_plan_def split: sum.splits db_error.splits if_splits)

lemma careful_create_job: "careful (create_job v c)"
  unfolding create_job_def
  by (intro careful_andthen careful_create) (auto simp: plan_with_options_jobs intro!: careful_andthen careful_create)

lemma create_job_row:
  assumes "db_ok d" "fresh_keys v" "create_job v c d = (Inr job, d')"
  shows "db_ok d' \<and> db_jobs d' = db_jobs d @ [job] \<and> fresh_row job \<and> j_attempt_count job = 1"
proof -
  obtain f :: tracked_file and s' e where e: "db_jobs e = db_jobs d"
    "create_job_from_plan (sv_new_job v e) (sv_now v) (sv_tz v) (f\<lparr>tf_updated_at := sv_now v\<rparr>) s' (create_options c) e = Inr (d', job)"
    using create_job_Inr [OF assms(3)] by metis
  have "well_keyed e" "sv_new_job v e \<notin> j_id ` set (db_jobs e)"
    using assms(1) assms(2) [unfolded fresh_keys_def, rule_format, of e] e(1) by (auto simp: db_ok_def well_keyed_def)
  from create_job_edits [OF this _ e(2)] show ?thesis
    using servesD(2) [OF serve_create_job [OF assms(2)] assms(1) TrueI assms(3)] e(1) by (simp add: create_options_def)
qed

definition created_in :: "(string \<times> batch_outcome) list \<Rightarrow> job list" where
  "created_in outs = concat (map (\<lambda>(_, out). case out of Batch_Created j \<Rightarrow> [j] | Batch_Blocked _ \<Rightarrow> []) outs)"

lemma batch_rows:
  assumes "fresh_keys v" "db_ok d" "create_batch_jobs v c payload_of targets d = (Inr outs, d')"
  shows "map fst outs = map fst targets \<and> db_ok d' \<and> db_jobs d' = db_jobs d @ created_in outs \<and> list_all fresh_row (created_in outs)"
  using assms(2,3)
proof (induction targets arbitrary: d outs)
  case Nil
  then show ?case by (simp add: create_batch_jobs_def returns_Inr created_in_def)
next
  case (Cons t targets)
  obtain sp fid sid where t: "t = (sp, fid, sid)" by (cases t)
  define r where "r = c\<lparr>cr_tracked_file_id := Some fid, cr_plan_snapshot_id := Some sid, cr_allow_review_approved := False,
      cr_analysis_payload := (case payload_of of None \<Rightarrow> None | Some g \<Rightarrow> g sp fid sid)\<rparr>"
  obtain out outs' e where outs: "outs = (sp, out) # outs'" "attempt_in_batch (create_job v r) d = (Inr out, e)"
    "create_batch_jobs v c payload_of targets e = (Inr outs', d')"
    using Cons.prems(2) unfolding create_batch_jobs_def t each_do_Inr r_def by (auto simp: andthen_Inr returns_Inr)
  have one: "db_ok e \<and> db_jobs e = db_jobs d @ created_in [(sp, out)] \<and> list_all fresh_row (created_in [(sp, out)])"
  proof (cases out)
    case (Batch_Created j)
    then have "create_job v r d = (Inr j, e)"
      using outs(2) by (auto simp: attempt_in_batch_def split: prod.splits sum.splits api_error.splits)
    from create_job_row [OF Cons.prems(1) assms(1) this] show ?thesis by (simp add: Batch_Created created_in_def)
  next
    case (Batch_Blocked msg)
    then have run: "create_job v r d = (Inl (ApiConflict msg), e)"
      using outs(2) by (auto simp: attempt_in_batch_def split: prod.splits sum.splits api_error.splits)
    have "db_jobs e = db_jobs d" using careful_create_job [of v r] run by (auto simp: careful_def)
    then show ?thesis
      using servesD(2) [OF serve_create_job [OF assms(1)] Cons.prems(1) TrueI run] by (simp add: Batch_Blocked created_in_def)
  qed
  from Cons.IH [OF _ outs(3)] one show ?case by (auto simp: outs(1) t created_in_def)
qed

lemma fresh_row_active: "fresh_row j \<Longrightarrow> is_active j"
  by (auto simp: fresh_row_def is_active_def active_job_statuses_def)

text \<open>C26: A batch goes through all its targets in order and says of each whether its job was created or
  blocked. The table gains exactly the created rows, in that order; they wait, no two of them are
  for the same file, and no file that had an active job gets one.\<close>

theorem batch_creates_at_most_one_job_per_file:
  assumes "db_ok d" "fresh_keys v" "in_transaction (create_batch_jobs v c payload_of targets) d = Inr (d', outs)"
  shows "map fst outs = map fst targets \<and> db_ok d' \<and> db_jobs d' = db_jobs d @ created_in outs \<and>
    distinct (map j_tracked_file_id (created_in outs)) \<and>
    (\<forall>j\<in>set (created_in outs). is_active j \<and> \<not> has_active_job_for_tracked_file (j_tracked_file_id j) d)"
proof -
  from assms(3) have "create_batch_jobs v c payload_of targets d = (Inr outs, d')" by (simp add: in_transaction_Inr)
  note rows = batch_rows [OF assms(2,1) this]
  have act: "is_active j" if "j \<in> set (created_in outs)" for j using rows that fresh_row_active by (auto simp: list_all_iff)
  then have "filter is_active (created_in outs) = created_in outs" by simp
  moreover have "one_active_per_file (db_jobs d @ created_in outs)" using rows by (metis db_ok_def well_keyed_def)
  ultimately have "distinct (map j_tracked_file_id (created_in outs))"
    "j_tracked_file_id ` set (filter is_active (db_jobs d)) \<inter> j_tracked_file_id ` set (created_in outs) = {}"
    by (simp_all add: one_active_per_file_def)
  then show ?thesis using rows act by (auto simp: has_active_job_for_tracked_file_def list_ex_iff)
qed

lemma same_job_refl [simp]: "same_job j j" and same_job_trans: "same_job i j \<Longrightarrow> same_job j k \<Longrightarrow> same_job i k"
  by (auto simp: same_job_def)

lemma edits_same:
  assumes "db_ok d" "edits (db_jobs d) (db_jobs d')" "find_job d i = Some r" "same_job j r"
  shows "\<exists>k. find_job d' i = Some k \<and> same_job j k"
proof -
  have "well_keyed d" using assms(1) by (simp add: db_ok_def)
  from edits_row [OF this assms(2,3)] obtain k where "find_job d' i = Some k" "row_step\<^sup>*\<^sup>* r k" by blast
  then show ?thesis using row_steps_same same_job_trans [OF assms(4)] by blast
qed

lemma retry_one:
  assumes "db_ok d" "fresh_keys v" "find_job d (j_id j) = Some r" "same_job j r"
    and "retry_job v (j_id j) strategy d = (Inr k, d')"
  shows "db_ok d' \<and> edits (db_jobs d) (db_jobs d') \<and> map j_id (db_jobs d') = map j_id (db_jobs d) @ [j_id k] \<and>
    find_job d' (j_id k) = Some k \<and> j_tracked_file_id k = j_tracked_file_id j \<and> j_attempt_count k = j_attempt_count j + 1"
proof -
  from assms(5) have "in_transaction (retry_job v (j_id j) strategy) d = Inr (d', k)" by (simp add: in_transaction_Inr)
  from retry_adds_next_attempt [OF assms(1,2) this] assms(3)
  have ok: "db_ok d'" and rows: "db_jobs d' = rewrite_jobs (sv_now v) {j_id j} (cleared_row (sv_now v) ''Retry job created by operator.'') (db_jobs d) @ [k]"
    and k: "j_tracked_file_id k = j_tracked_file_id r" "j_attempt_count k = j_attempt_count r + 1" by auto
  have "edits (db_jobs d) (db_jobs d')" by (rule servesD(1) [OF serve_retry [OF assms(2)] assms(1) TrueI assms(5)])
  moreover have "map j_id (db_jobs d') = map j_id (db_jobs d) @ [j_id k]"
    by (simp add: rows rewrite_ids del: map_map)
  moreover have "find_job d' (j_id k) = Some k"
    by (rule find_job_unique) (use ok rows in \<open>auto simp: db_ok_def\<close>)
  ultimately show ?thesis using ok k assms(4) by (simp add: same_job_def)
qed

lemma retries_rows:
  assumes "fresh_keys v" "db_ok d" "\<forall>j\<in>set js. \<exists>r. find_job d (j_id j) = Some r \<and> same_job j r"
    and "each_do (\<lambda>j. retry_job v (j_id j) strategy) js d = (Inr ks, d')"
  shows "db_ok d' \<and> edits (db_jobs d) (db_jobs d') \<and> map j_id (db_jobs d') = map j_id (db_jobs d) @ map j_id ks \<and>
    list_all2 (\<lambda>j k. j_tracked_file_id k = j_tracked_file_id j \<and> j_attempt_count k = j_attempt_count j + 1
       \<and> (\<exists>r. find_job d' (j_id k) = Some r \<and> same_job k r)) js ks"
  using assms(2-4)
proof (induction js arbitrary: d ks)
  case Nil
  then show ?case by (simp add: returns_Inr edits_none)
next
  case (Cons j js)
  obtain k ks' e where ks: "ks = k # ks'" "retry_job v (j_id j) strategy d = (Inr k, e)"
    "each_do (\<lambda>j. retry_job v (j_id j) strategy) js e = (Inr ks', d')"
    using Cons.prems(3) unfolding each_do_Inr by blast
  obtain r where r: "find_job d (j_id j) = Some r" "same_job j r" using Cons.prems(2) by auto
  note one = retry_one [OF Cons.prems(1) assms(1) r ks(2)]
  have "\<forall>j\<in>set js. \<exists>r. find_job e (j_id j) = Some r \<and> same_job j r"
    using edits_same [OF Cons.prems(1)] one Cons.prems(2) by fastforce
  from Cons.IH [OF _ this ks(3)] one
  have rest: "db_ok d'" "edits (db_jobs e) (db_jobs d')" "map j_id (db_jobs d') = map j_id (db_jobs e) @ map j_id ks'"
    "list_all2 (\<lambda>j k. j_tracked_file_id k = j_tracked_file_id j \<and> j_attempt_count k = j_attempt_count j + 1
       \<and> (\<exists>r. find_job d' (j_id k) = Some r \<and> same_job k r)) js ks'" by auto
  have "\<exists>r. find_job d' (j_id k) = Some r \<and> same_job k r"
    using edits_same [of e d' "j_id k" k k] one rest(2) by simp
  then show ?case using one rest edits_trans [OF rest(2)] by (simp add: ks(1))
qed

text \<open>The targets: one per file, the latest of the selected jobs.\<close>

lemma retry_targets_spec:
  assumes "distinct (map fst acc)" "\<forall>(k, j)\<in>set acc. j_tracked_file_id j = k"
  shows "distinct (map fst (retry_targets acc js)) \<and> (\<forall>(k, j)\<in>set (retry_targets acc js). j_tracked_file_id j = k) \<and>
    snd ` set (retry_targets acc js) \<subseteq> snd ` set acc \<union> set js \<and>
    (\<forall>j \<in> snd ` set acc \<union> set js. \<exists>m. map_of (retry_targets acc js) (j_tracked_file_id j) = Some m \<and> j_updated_at j \<le> j_updated_at m)"
  using assms
proof (induction js arbitrary: acc)
  case Nil
  then show ?case by (fastforce simp: map_of_eq_Some_iff)
next
  case (Cons x xs)
  let ?k = "j_tracked_file_id x"
  define acc' where "acc' = (case map_of acc ?k of None \<Rightarrow> AList.update ?k x acc
      | Some current \<Rightarrow> if j_updated_at current < j_updated_at x then AList.update ?k x acc else acc)"
  have up: "set (AList.update ?k x acc) \<subseteq> insert (?k, x) (set acc)" by (induction acc) auto
  have acc': "distinct (map fst acc')" "\<forall>(k, j)\<in>set acc'. j_tracked_file_id j = k" "set acc' \<subseteq> insert (?k, x) (set acc)"
    using Cons.prems up by (auto simp: acc'_def distinct_update split: option.splits)
  have sup: "\<exists>m. map_of acc' (j_tracked_file_id j) = Some m \<and> j_updated_at j \<le> j_updated_at m" if "j \<in> snd ` set acc \<union> {x}" for j
  proof (cases "j \<in> snd ` set acc")
    case True
    then have "map_of acc (j_tracked_file_id j) = Some j" using Cons.prems by (auto simp: map_of_eq_Some_iff)
    then show ?thesis
      by (cases "j_tracked_file_id j = ?k") (auto simp: acc'_def update_conv' split: option.splits)
  next
    case False
    then have "j = x" using that by simp
    then show ?thesis by (cases "map_of acc ?k") (auto simp: acc'_def update_conv')
  qed
  have "\<exists>m. map_of (retry_targets acc' xs) (j_tracked_file_id j) = Some m \<and> j_updated_at j \<le> j_updated_at m"
    if j: "j \<in> snd ` set acc \<union> set (x # xs)" for j
  proof (cases "j \<in> snd ` set acc \<union> {x}")
    case True
    then obtain m where m: "map_of acc' (j_tracked_file_id j) = Some m" "j_updated_at j \<le> j_updated_at m" using sup by blast
    have in_acc: "(j_tracked_file_id j, m) \<in> set acc'" by (rule map_of_SomeD [OF m(1)])
    then have "m \<in> snd ` set acc'" by (metis imageI snd_conv)
    moreover have "j_tracked_file_id m = j_tracked_file_id j" using acc'(2) in_acc by auto
    ultimately show ?thesis using Cons.IH [OF acc'(1,2)] m(2) by (metis UnI1 order_trans)
  next
    case False
    then have "j \<in> set xs" using j by simp
    then show ?thesis using Cons.IH [OF acc'(1,2)] by blast
  qed
  moreover have "snd ` set (retry_targets acc' xs) \<subseteq> snd ` set acc \<union> set (x # xs)"
  proof -
    have "snd ` set acc' \<subseteq> insert x (snd ` set acc)" using image_mono [OF acc'(3), of snd] by simp
    then show ?thesis using Cons.IH [OF acc'(1,2)] unfolding list.set(2) by blast
  qed
  ultimately show ?case using Cons.IH [OF acc'(1,2)] by (simp add: acc'_def)
qed

lemma clears_rows:
  assumes "db_ok d" "ended (set (map j_id js)) d" "each_do (\<lambda>j. clear_job v (j_id j) reason) js d = (Inr us, d')"
  shows "db_ok d' \<and> edits (db_jobs d) (db_jobs d') \<and> map j_id (db_jobs d') = map j_id (db_jobs d) \<and>
    (\<forall>j\<in>set js. \<exists>k. find_job d' (j_id j) = Some k \<and> j_cleared_at k \<noteq> None) \<and>
    (\<forall>i k. find_job d i = Some k \<and> j_cleared_at k \<noteq> None \<longrightarrow> (\<exists>r. find_job d' i = Some r \<and> j_cleared_at r \<noteq> None))"
  using assms
proof (induction js arbitrary: d us)
  case Nil
  then show ?case by (simp add: returns_Inr edits_none)
next
  case (Cons j js)
  let ?f = "cleared_row (sv_now v) reason"
  obtain us' e where e: "clear_job v (j_id j) reason d = (Inr (), e)" "each_do (\<lambda>j. clear_job v (j_id j) reason) js e = (Inr us', d')"
    using Cons.prems(3) unfolding each_do_Inr by auto
  have wk: "well_keyed d" using Cons.prems(1) by (simp add: db_ok_def)
  have w: "write_job (sv_now v) (j_id j) ?f d = Inr e" using e(1) by (simp add: clear_job_def writes_Inr mark_cleared_row)
  have ids: "j_id (?f k) = j_id k" for k by simp
  have rows: "db_jobs e = rewrite_jobs (sv_now v) {j_id j} ?f (db_jobs d)" using write_job_Inr [OF w wk ids] by simp
  have keys: "map j_id (db_jobs e) = map j_id (db_jobs d)" using rewrite_ids [OF ids] by (simp add: rows)
  have find: "find_job e i = (if i = j_id j then map_option (stamped (sv_now v) ?f) (find_job d i) else find_job d i)" for i
    using find_rewrite [where f = ?f, OF ids] by (simp add: find_job_def rows)
  have I: "inactive (j_id j) d" using Cons.prems(2) by (simp add: ended_def)
  note one = servesD [OF serve_clear Cons.prems(1) I e(1)]
  have ended: "ended (set (map j_id js)) e" using Cons.prems(2) edits_inactive [OF wk one(1)] by (simp add: ended_def)
  obtain r where r: "find_job d (j_id j) = Some r" using I by (auto simp: inactive_def)
  have mine: "\<exists>k. find_job e (j_id j) = Some k \<and> j_cleared_at k \<noteq> None" using find [of "j_id j"] r by (simp add: stamped_fields)
  have keep: "\<exists>q. find_job e i = Some q \<and> j_cleared_at q \<noteq> None" if "find_job d i = Some k" "j_cleared_at k \<noteq> None" for i k
    using find [of i] that mine by (cases "i = j_id j") auto
  have rest: "db_ok d'" "edits (db_jobs e) (db_jobs d')" "map j_id (db_jobs d') = map j_id (db_jobs e)"
    "\<forall>j\<in>set js. \<exists>k. find_job d' (j_id j) = Some k \<and> j_cleared_at k \<noteq> None"
    "\<forall>i k. find_job e i = Some k \<and> j_cleared_at k \<noteq> None \<longrightarrow> (\<exists>r. find_job d' i = Some r \<and> j_cleared_at r \<noteq> None)"
    using Cons.IH [OF one(2) ended e(2)] by blast+
  have "\<exists>k. find_job d' (j_id j) = Some k \<and> j_cleared_at k \<noteq> None" using mine rest(5) by blast
  moreover have "\<exists>r. find_job d' i = Some r \<and> j_cleared_at r \<noteq> None" if "find_job d i = Some k" "j_cleared_at k \<noteq> None" for i k
    using keep [OF that] rest(5) by blast
  ultimately show ?case using rest(1,3,4) keys edits_trans [OF rest(2) one(1)] by simp
qed

text \<open>C27: Retrying a selection of problem jobs: all of them show the same error; each of their files gets exactly one
  new job, whose attempt follows that of the latest of the file's selected jobs; every selected job is
  hidden from the history; no other row is added or removed.\<close>

theorem bulk_retry_one_job_per_file:
  assumes "db_ok d" "fresh_keys v" "in_transaction (resolve_problem_jobs v ids ''retry'' strategy) d = Inr (d', new)"
  shows "\<exists>selected. map j_id selected = ids \<and>
      (\<forall>j\<in>set selected. find_job d (j_id j) = Some j \<and> j_status j \<in> set retryable_job_statuses) \<and>
      (\<forall>j\<in>set selected. \<forall>k\<in>set selected. problem_error_key (sv_repr v) j = problem_error_key (sv_repr v) k) \<and>
      db_ok d' \<and> map j_id (db_jobs d') = map j_id (db_jobs d) @ new \<and>
      length new = card (j_tracked_file_id ` set selected) \<and>
      (\<forall>i\<in>set ids. \<exists>k. find_job d' i = Some k \<and> j_cleared_at k \<noteq> None) \<and>
      (\<forall>j\<in>set selected. \<exists>m\<in>set selected. \<exists>i\<in>set new. \<exists>k. j_tracked_file_id m = j_tracked_file_id j \<and>
         j_updated_at j \<le> j_updated_at m \<and> find_job d' i = Some k \<and> j_tracked_file_id k = j_tracked_file_id j \<and>
         j_attempt_count k = j_attempt_count m + 1)"
proof -
  have run: "resolve_problem_jobs v ids ''retry'' strategy d = (Inr new, d')" using assms(3) by (simp add: in_transaction_Inr)
  then obtain selected where sel: "selected_problem_jobs ids d = (Inr selected, d)"
    "\<not> 1 < length (remdups (map (problem_error_key (sv_repr v)) selected))"
    "retry_problem_jobs v selected strategy d = (Inr new, d')"
    by (auto simp: resolve_problem_jobs_def fails_Inr andthen_Inr dest: selected_problem_jobs_spec split: if_splits)
  note spec = selected_problem_jobs_spec [OF sel(1)]
  have selected: "map j_id selected = ids" "\<forall>j\<in>set selected. find_job d (j_id j) = Some j \<and> j_status j \<in> set retryable_job_statuses"
    using spec by auto
  have "card (problem_error_key (sv_repr v) ` set selected) \<le> 1" using sel(2) by (simp add: length_remdups_card_conv)
  then have same_key: "problem_error_key (sv_repr v) j = problem_error_key (sv_repr v) k"
    if "j \<in> set selected" "k \<in> set selected" for j k
    using that by (intro card_le_Suc0_iff_eq [THEN iffD1, rule_format, of "problem_error_key (sv_repr v) ` set selected"]) auto
  let ?t = "retry_targets [] selected"
  have t: "distinct (map fst ?t)" "\<forall>(k, j)\<in>set ?t. j_tracked_file_id j = k" "snd ` set ?t \<subseteq> set selected"
    "\<forall>j\<in>set selected. \<exists>m. map_of ?t (j_tracked_file_id j) = Some m \<and> j_updated_at j \<le> j_updated_at m"
    using retry_targets_spec [of "[]" selected] by auto
  obtain ks e us where ks: "each_do (\<lambda>j. retry_job v (j_id j) strategy) (map snd ?t) d = (Inr ks, e)"
    "each_do (\<lambda>j. clear_job v (j_id j) ''Requeued by operator.'') selected e = (Inr us, d')" "new = map j_id ks"
    using sel(3) by (auto simp: retry_problem_jobs_def andthen_Inr returns_Inr)
  have found: "\<forall>j\<in>set (map snd ?t). \<exists>r. find_job d (j_id j) = Some r \<and> same_job j r"
    using t(3) selected(2) by fastforce
  note A = retries_rows [OF assms(2,1) found ks(1)]
  have wk: "well_keyed d" using assms(1) by (simp add: db_ok_def)
  have "ended (set (map j_id selected)) d" using selected(2) retryable_ended by (fastforce simp: ended_def inactive_def)
  then have "ended (set (map j_id selected)) e" using edits_inactive [OF wk] A by (simp add: ended_def)
  from clears_rows [OF _ this ks(2)] A
  have B: "db_ok d'" "edits (db_jobs e) (db_jobs d')" "map j_id (db_jobs d') = map j_id (db_jobs e)"
    "\<forall>j\<in>set selected. \<exists>k. find_job d' (j_id j) = Some k \<and> j_cleared_at k \<noteq> None" by blast+
  have files: "fst ` set ?t = j_tracked_file_id ` set selected"
  proof
    show "fst ` set ?t \<subseteq> j_tracked_file_id ` set selected" using t(2,3) by fastforce
    show "j_tracked_file_id ` set selected \<subseteq> fst ` set ?t"
    proof clarify
      fix j assume "j \<in> set selected"
      then obtain m where "map_of ?t (j_tracked_file_id j) = Some m" using t(4) by blast
      from map_of_SomeD [OF this] show "j_tracked_file_id j \<in> fst ` set ?t" by (metis imageI fst_conv)
    qed
  qed
  have "length new = length ?t" using A list_all2_lengthD ks(3) by fastforce
  also have "\<dots> = card (j_tracked_file_id ` set selected)" using distinct_card [OF t(1)] files by simp
  finally have len: "length new = card (j_tracked_file_id ` set selected)" .
  have new_job: "\<exists>m\<in>set selected. \<exists>i\<in>set new. \<exists>k. j_tracked_file_id m = j_tracked_file_id j \<and>
         j_updated_at j \<le> j_updated_at m \<and> find_job d' i = Some k \<and> j_tracked_file_id k = j_tracked_file_id j \<and>
         j_attempt_count k = j_attempt_count m + 1" if j: "j \<in> set selected" for j
  proof -
    obtain m where m: "map_of ?t (j_tracked_file_id j) = Some m" "j_updated_at j \<le> j_updated_at m" using t(4) j by blast
    have in_t: "(j_tracked_file_id j, m) \<in> set ?t" by (rule map_of_SomeD [OF m(1)])
    then have mf: "j_tracked_file_id m = j_tracked_file_id j" "m \<in> set selected" "m \<in> set (map snd ?t)"
      using t(2,3) by force+
    obtain k r where k: "k \<in> set ks" "j_tracked_file_id k = j_tracked_file_id m" "j_attempt_count k = j_attempt_count m + 1"
      "find_job e (j_id k) = Some r" "same_job k r"
    proof -
      obtain n where n: "n < length (map snd ?t)" "map snd ?t ! n = m" using mf(3) by (auto simp only: in_set_conv_nth)
      from A have pairs: "list_all2 (\<lambda>j k. j_tracked_file_id k = j_tracked_file_id j \<and> j_attempt_count k = j_attempt_count j + 1
         \<and> (\<exists>r. find_job e (j_id k) = Some r \<and> same_job k r)) (map snd ?t) ks" by blast
      have "n < length ks" using list_all2_lengthD [OF pairs] n(1) by simp
      then show thesis using list_all2_nthD [OF pairs n(1)] n(2) that by (metis nth_mem)
    qed
    obtain q where q: "find_job d' (j_id k) = Some q" "same_job k q"
      using edits_same [OF _ B(2) k(4,5)] A by blast
    then show ?thesis using k mf m(2) ks(3) by (intro bexI [of _ m] bexI [of _ "j_id k"] exI [of _ q]) (auto simp: same_job_def)
  qed
  show ?thesis
  proof (intro exI [of _ selected] conjI)
    show "map j_id (db_jobs d') = map j_id (db_jobs d) @ new" using A B(3) ks(3) by simp
    show "\<forall>i\<in>set ids. \<exists>k. find_job d' i = Some k \<and> j_cleared_at k \<noteq> None" using B(4) selected(1) [symmetric] by simp
  qed (use selected same_key B(1) len new_job in blast)+
qed

subsection \<open>Concrete requests\<close>

definition next_key :: "db \<Rightarrow> row_id" where
  "next_key d = Suc (fold max (map j_id (db_jobs d)) 0)"

definition sample_env :: service_env where
  "sample_env =
     \<lparr>sv_now = 5000, sv_tz = 0, sv_repr = (\<lambda>_. []), sv_resolve = Some, sv_on_disk = (\<lambda>_. False), sv_decisions = [],
      sv_has_probe = (\<lambda>_. True), sv_request_cancel = (\<lambda>_. False), sv_new_job = next_key, sv_new_plan = (\<lambda>_. 9),
      sv_dump_verification = (\<lambda>_. JNull), sv_dump_replacement = (\<lambda>_. JNull)\<rparr>"

definition sample_request :: create_request where
  "sample_request =
     \<lparr>cr_tracked_file_id = Some 3, cr_plan_snapshot_id = None, cr_allow_review_approved = False, cr_preferred_worker_id = None,
      cr_pinned_worker_id = None, cr_preferred_backend_override = None, cr_schedule_windows = None, cr_watched_job_id = None,
      cr_job_kind = EXECUTION, cr_analysis_payload = None, cr_ignore_worker_schedule = False, cr_backup_policy = ''keep'',
      cr_existing_backup_strategy = ''fail'', cr_reprocess_mode = ''normal''\<rparr>"

definition sample_ended_job :: job where
  "sample_ended_job = sample_job\<lparr>j_status := JS_FAILED, j_completed_at := Some 1800\<rparr>"

definition sample_reviewed_job :: job where
  "sample_reviewed_job = sample_job\<lparr>j_status := JS_MANUAL_REVIEW, j_completed_at := Some 1800\<rparr>"

lemma fresh_sample_env: "fresh_keys sample_env"
proof -
  have "x \<le> fold max xs m" if "x \<in> set xs \<or> x \<le> m" for x m :: nat and xs
    using that by (induction xs arbitrary: m) (auto simp: max_def)
  note le = this
  have "sv_new_job sample_env d \<noteq> j_id j" if "j \<in> set (db_jobs d)" for d j
    using le [of "j_id j" "map j_id (db_jobs d)" 0] that by (simp add: sample_env_def next_key_def)
  then have "sv_new_job sample_env d \<notin> j_id ` set (db_jobs d)" for d by blast
  then show ?thesis by (simp add: fresh_keys_def)
qed

lemma sample_rows_ok: "row_ok sample_job" "row_ok sample_ended_job" "row_ok sample_reviewed_job"
proof -
  have "fresh_row sample_job" unfolding sample_job_def by (rule new_job_fresh) (simp add: default_options_def)
  then show "row_ok sample_job" "row_ok sample_ended_job" "row_ok sample_reviewed_job"
    by (auto simp: fresh_row_def row_ok_def sample_ended_job_def sample_reviewed_job_def order_ok_def active_job_statuses_def settled_statuses_def)
qed

lemma sample_db_ok: "db_ok (sample_db [])" "db_ok (sample_db [sample_job])" "db_ok (sample_db [sample_ended_job])"
  using sample_rows_ok by (simp_all add: db_ok_def)

lemma not_isl_ex: "\<not> isl x \<longleftrightarrow> (\<exists>y. x = Inr y)"
  by (cases x) auto

lemma sample_retry_runs: "\<not> isl (in_transaction (retry_job sample_env 7 ''fail'') (sample_db [sample_ended_job]))"
  by code_simp

lemma sample_batch_runs: "\<not> isl (in_transaction (create_batch_jobs sample_env sample_request None [(''a'', 3, 4), (''a'', 3, 4)]) (sample_db []))"
  by code_simp

lemma sample_bulk_runs: "\<not> isl (in_transaction (resolve_problem_jobs sample_env [7] ''retry'' ''fail'') (sample_db [sample_ended_job]))"
  by code_simp


lemma retry_adds_next_attempt_witness:
  "\<exists>d' job. in_transaction (retry_job sample_env 7 ''fail'') (sample_db [sample_ended_job]) = Inr (d', job) \<and> j_attempt_count job = 2"
proof -
  obtain d' job where run: "in_transaction (retry_job sample_env 7 ''fail'') (sample_db [sample_ended_job]) = Inr (d', job)"
    using sample_retry_runs unfolding not_isl_ex by force
  from retry_adds_next_attempt [OF sample_db_ok(3) fresh_sample_env run] run show ?thesis
    by (auto simp: find_job_def sample_ended_job_def)
qed

lemma reviewed_job_never_retried_witness:
  "isl (in_transaction (retry_job sample_env 7 ''fail'') (sample_db [sample_reviewed_job]))"
proof -
  have j: "find_job (sample_db [sample_reviewed_job]) 7 = Some sample_reviewed_job" "j_status sample_reviewed_job = JS_MANUAL_REVIEW"
    "j_tracked_file_id sample_reviewed_job = 3" "j_plan_snapshot_id sample_reviewed_job = 4"
    by (simp_all add: find_job_def sample_reviewed_job_def)
  have "j_failure_category sample_reviewed_job = None"
    by (simp add: sample_reviewed_job_def sample_job_def new_job_def Let_def)
  then have c: "j_failure_category sample_reviewed_job \<noteq> Some ''replacement_failed''" by simp
  have l: "get_latest_for_tracked_file (j_tracked_file_id sample_reviewed_job) (sample_db [sample_reviewed_job]) = Some sample_reviewed_job"
    by (simp add: get_latest_for_tracked_file_def in_queue_order_def j)
  have f: "find_file (sample_db [sample_reviewed_job]) (j_tracked_file_id sample_reviewed_job) = Some sample_tracked"
    "find_plan (sample_db [sample_reviewed_job]) (j_plan_snapshot_id sample_reviewed_job) = Some sample_snapshot"
    by (simp_all add: find_file_def find_plan_def j sample_tracked_def sample_snapshot_def)
  have e: "encodr_exclusion_reason (sv_resolve sample_env) (path_of (tf_source_path sample_tracked)) None = None" by code_simp
  from reviewed_job_never_retried [OF j(1,2) c l f e] show ?thesis by simp
qed

lemma batch_creates_at_most_one_job_per_file_witness:
  "\<exists>d' outs. in_transaction (create_batch_jobs sample_env sample_request None [(''a'', 3, 4), (''a'', 3, 4)]) (sample_db []) = Inr (d', outs)
     \<and> length outs = 2 \<and> db_jobs d' = created_in outs"
proof -
  obtain d' outs where run:
    "in_transaction (create_batch_jobs sample_env sample_request None [(''a'', 3, 4), (''a'', 3, 4)]) (sample_db []) = Inr (d', outs)"
    using sample_batch_runs unfolding not_isl_ex by force
  from batch_creates_at_most_one_job_per_file [OF sample_db_ok(1) fresh_sample_env run]
  have "map fst outs = [''a'', ''a'']" "db_jobs d' = created_in outs" by simp_all
  then show ?thesis using run by (metis length_map length_Cons list.size(3) numeral_2_eq_2)
qed

lemma bulk_retry_one_job_per_file_witness:
  "\<exists>d' new. in_transaction (resolve_problem_jobs sample_env [7] ''retry'' ''fail'') (sample_db [sample_ended_job]) = Inr (d', new)
     \<and> length new = 1"
proof -
  obtain d' new where run:
    "in_transaction (resolve_problem_jobs sample_env [7] ''retry'' ''fail'') (sample_db [sample_ended_job]) = Inr (d', new)"
    using sample_bulk_runs unfolding not_isl_ex by force
  from bulk_retry_one_job_per_file [OF sample_db_ok(3) fresh_sample_env run]
  have "\<exists>selected :: job list. map j_id selected = [7] \<and> length new = card (j_tracked_file_id ` set selected)"
    by (elim exE conjE) (rule exI, rule conjI, assumption, assumption)
  then show ?thesis
  proof (elim exE conjE)
    fix selected :: "job list" assume s: "map j_id selected = [7]" "length new = card (j_tracked_file_id ` set selected)"
    then obtain j where "selected = [j]" by (cases selected) auto
    then show ?thesis using run s(2) by simp
  qed
qed

end
