(* ===== verification/Runtime_Status.thy ===== *)
theory Runtime_Status
  imports Backend "HOL-Library.AList"
begin

text \<open>
  What a worker's runtime says about its backends (\<open>src/packages/shared/encodr_shared/worker_runtime.py\<close>,
  \<open>runtime_payloads.py\<close>): the payload of a probe, whether it answers a preference, and the status of a
  preference given the probes. A payload is a dictionary given by its items. Running the probes is
  not modelled.
\<close>

subsection \<open>Payloads\<close>

definition j_strings :: "string list \<Rightarrow> json" where
  "j_strings xs = JList (map JStr xs)"

definition jget_or :: "(string \<times> json) list \<Rightarrow> string \<Rightarrow> json \<Rightarrow> json" where
  "jget_or d k dflt = (case map_of d k of None \<Rightarrow> dflt | Some v \<Rightarrow> v)"

text \<open>The payload of a probe object, and of one that is a dictionary already, field by field.\<close>

definition probe_payload ::
    "string \<Rightarrow> bool \<Rightarrow> bool \<Rightarrow> string \<Rightarrow> string \<Rightarrow> (string \<times> json) list \<Rightarrow> (string \<times> json) list" where
  "probe_payload backend detected usable status message details =
     [(''backend'', JStr backend), (''preference_key'', JStr (backend_preference_key backend)),
      (''preference_keys'', j_strings (backend_preference_keys backend)), (''detected'', JBool detected),
      (''usable_by_ffmpeg'', JBool usable),
      (''ffmpeg_path_verified'', JBool (json_truthy (jget_or details ''ffmpeg_path_verified'' (JBool usable)))),
      (''status'', JStr status), (''message'', JStr message),
      (''reason_unavailable'', jget details ''reason_unavailable''),
      (''recommended_usage'', jget details ''recommended_usage''), (''selected_backend'', jget details ''selected_backend''),
      (''usable_backends'', jget_or details ''usable_backends'' (JList [])), (''fallback_reason'', jget details ''fallback_reason''),
      (''qsv_unavailable_reason'', jget details ''qsv_unavailable_reason''),
      (''device_paths'', jget_or details ''device_paths'' (JList [])), (''details'', JObj details)]"

definition serialise_backend_probe :: "hardware_probe \<Rightarrow> (string \<times> json) list" where
  "serialise_backend_probe p =
     probe_payload (hp_backend p) (hp_detected p) (hp_usable p) (hp_status p) (hp_message p) (hp_details p)"

definition serialise_probe_dict :: "(json \<Rightarrow> string) \<Rightarrow> (string \<times> json) list \<Rightarrow> (string \<times> json) list" where
  "serialise_probe_dict repr d =
     (let text = (\<lambda>k dflt. if json_truthy (jget d k) then json_text repr (jget d k) else dflt);
          usable = json_truthy (jget_or d ''usable_by_ffmpeg'' (jget_or d ''usable'' (JBool False)))
      in probe_payload (text ''backend'' []) (json_truthy (jget_or d ''detected'' (jget_or d ''usable_by_ffmpeg'' (JBool False))))
           usable (text ''status'' (if usable then ''healthy'' else ''failed'')) (text ''message'' [])
           (sub_object d ''details''))"

text \<open>\<open>_coerce_backend_probe_payload\<close>: what is neither a probe nor a dictionary has no attributes to read.\<close>

definition coerce_probe :: "hardware_probe + json \<Rightarrow> (string \<times> json) list" where
  "coerce_probe p =
     (case p of
        Inl hp \<Rightarrow> serialise_backend_probe hp
      | Inr (JObj d) \<Rightarrow> d
      | Inr _ \<Rightarrow>
          [(''backend'', JStr []), (''preference_key'', JStr (backend_preference_key [])),
           (''preference_keys'', j_strings (backend_preference_keys [])), (''usable_by_ffmpeg'', JBool False),
           (''message'', JStr []), (''reason_unavailable'', JStr ''Backend is unavailable.''), (''details'', JObj [])])"

definition find_backend_probe :: "(string \<times> json) list list \<Rightarrow> string \<Rightarrow> (string \<times> json) list option" where
  "find_backend_probe payloads backend = find (\<lambda>d. jget d ''backend'' = JStr backend) payloads"

text \<open>\<open>str(x or "cpu_only").strip()\<close>.\<close>

definition requested_text :: "string option \<Rightarrow> string" where
  "requested_text preferred = py_strip (or_str preferred ''cpu_only'')"

definition json_items :: "json \<Rightarrow> json list" where
  "json_items v = (case v of JList xs \<Rightarrow> xs | _ \<Rightarrow> [])"

definition backend_probe_matches_preference :: "(json \<Rightarrow> string) \<Rightarrow> hardware_probe + json \<Rightarrow> string option \<Rightarrow> bool" where
  "backend_probe_matches_preference repr p preferred =
     (let d = coerce_probe p;
          text = (\<lambda>v. if json_truthy v then json_text repr v else []);
          requested = requested_text preferred;
          normalised = normalise_backend_preference_key (Some requested);
          keys = text (jget d ''preference_key'') # map (json_text repr) (json_items (jget_or d ''preference_keys'' (JList [])));
          backend = text (jget d ''backend'')
      in requested \<in> set keys \<or> normalised \<in> set keys \<or> requested = backend \<or> normalised = backend
         \<or> backend = ''intel_igpu'' \<and> normalised \<in> set intel_backend_preferences)"

subsection \<open>Reasons\<close>

definition clean_reason :: "json \<Rightarrow> string option" where
  "clean_reason v =
     (case v of JStr s \<Rightarrow> (let c = rstrip_dots (py_strip s) in if c = [] then None else Some c) | _ \<Rightarrow> None)"

fun nested_reason_in :: "(string \<times> json) list \<Rightarrow> string list \<Rightarrow> string option" where
  "nested_reason_in d [] = None"
| "nested_reason_in d (k # ks) = (case clean_reason (jget d k) of Some r \<Rightarrow> Some r | None \<Rightarrow> nested_reason_in d ks)"

definition nested_reason :: "(string \<times> json) list \<Rightarrow> string option" where
  "nested_reason d = nested_reason_in d [''reason_unavailable'', ''validation_state'', ''message'']"

definition probe_reason :: "(string \<times> json) list \<Rightarrow> string" where
  "probe_reason d =
     or_str (or_opt (clean_reason (jget d ''reason_unavailable'')) (clean_reason (jget d ''message''))) ''Backend is unavailable.''"

subsection \<open>The status of a preference\<close>

record backend_status =
  bs_preferred_backend :: string
  bs_normalised_backend :: string
  bs_selected_backend :: "string option"
  bs_transcode_backend_usable :: bool
  bs_fallback_used :: bool
  bs_fallback_reason :: "string option"
  bs_reason_unavailable :: "string option"
  bs_qsv_usable :: "bool option"
  bs_qsv_unavailable_reason :: "string option"
  bs_vaapi_usable :: "bool option"
  bs_vaapi_unavailable_reason :: "string option"
  bs_degraded :: bool
  bs_message :: string

definition backend_status_payload :: "string \<Rightarrow> string \<Rightarrow> string option \<Rightarrow> bool \<Rightarrow> bool \<Rightarrow> string \<Rightarrow> backend_status" where
  "backend_status_payload requested normalised selected usable fallback message =
     \<lparr>bs_preferred_backend = requested, bs_normalised_backend = normalised, bs_selected_backend = selected,
      bs_transcode_backend_usable = usable, bs_fallback_used = fallback, bs_fallback_reason = None,
      bs_reason_unavailable = None, bs_qsv_usable = None, bs_qsv_unavailable_reason = None, bs_vaapi_usable = None,
      bs_vaapi_unavailable_reason = None, bs_degraded = False, bs_message = message\<rparr>"

definition hardware_cpu_fallback_or_failure ::
    "string \<Rightarrow> string \<Rightarrow> bool \<Rightarrow> bool \<Rightarrow> string \<Rightarrow> bool \<Rightarrow> string option \<Rightarrow> bool \<Rightarrow> string option \<Rightarrow> backend_status" where
  "hardware_cpu_fallback_or_failure requested normalised allow cpu_usable reason qsv qsv_reason vaapi vaapi_reason =
     (let s = (if allow \<and> cpu_usable
               then (backend_status_payload requested normalised (Some ''cpu'') True True
                      (''Hardware acceleration is unavailable; CPU fallback is selected. '' @ reason))\<lparr>bs_fallback_reason := Some reason\<rparr>
               else (backend_status_payload requested normalised None False False
                      (''Hardware acceleration is unavailable and CPU fallback is disabled. '' @ reason))\<lparr>bs_degraded := True\<rparr>)
      in s\<lparr>bs_reason_unavailable := Some reason, bs_qsv_usable := Some qsv, bs_qsv_unavailable_reason := qsv_reason,
           bs_vaapi_usable := Some vaapi, bs_vaapi_unavailable_reason := vaapi_reason\<rparr>)"

definition resolve_intel_runtime_status ::
    "string \<Rightarrow> string \<Rightarrow> (string \<times> json) list option \<Rightarrow> bool \<Rightarrow> bool \<Rightarrow> backend_status" where
  "resolve_intel_runtime_status requested normalised probe allow cpu_usable =
     (let details = (case probe of None \<Rightarrow> [] | Some d \<Rightarrow> sub_object d ''details'');
          qsv = sub_object details ''qsv''; vaapi = sub_object details ''vaapi'';
          qsv_usable = json_truthy (jget qsv ''usable''); vaapi_usable = json_truthy (jget vaapi ''usable'');
          qsv_reason = or_str (or_opt (nested_reason qsv) (clean_reason (jget details ''qsv_unavailable_reason'')))
            ''Intel QSV was not reported as usable.'';
          vaapi_reason = or_str (nested_reason vaapi) ''Intel VAAPI was not reported as usable.'';
          on_qsv = (backend_status_payload requested normalised (Some ''intel_qsv'') True False ''Intel QSV is selected and usable.'')
            \<lparr>bs_qsv_usable := Some True, bs_vaapi_usable := Some vaapi_usable,
             bs_vaapi_unavailable_reason := (if vaapi_usable then None else Some vaapi_reason)\<rparr>
      in
      if normalised = ''intel_auto'' then
        (if qsv_usable then on_qsv
         else if vaapi_usable then
           (backend_status_payload requested normalised (Some ''intel_vaapi'') True False
              (''Intel VAAPI active; QSV unavailable: '' @ qsv_reason))
             \<lparr>bs_fallback_reason := Some (''QSV unavailable: '' @ qsv_reason), bs_qsv_usable := Some False,
              bs_qsv_unavailable_reason := Some qsv_reason, bs_vaapi_usable := Some True\<rparr>
         else hardware_cpu_fallback_or_failure requested normalised allow cpu_usable
                (''QSV unavailable: '' @ qsv_reason @ ''; VAAPI unavailable: '' @ vaapi_reason)
                False (Some qsv_reason) False (Some vaapi_reason))
      else if normalised = ''intel_qsv'' then
        (if qsv_usable then on_qsv
         else if allow \<and> cpu_usable then
           (backend_status_payload requested normalised (Some ''cpu'') True True
              (''Intel QSV is required but unavailable; CPU fallback is selected. '' @ qsv_reason))
             \<lparr>bs_fallback_reason := Some qsv_reason, bs_reason_unavailable := Some qsv_reason, bs_qsv_usable := Some False,
              bs_qsv_unavailable_reason := Some qsv_reason, bs_vaapi_usable := Some vaapi_usable, bs_degraded := True\<rparr>
         else
           (backend_status_payload requested normalised None False False
              (''Intel QSV is required but unavailable. '' @ qsv_reason))
             \<lparr>bs_reason_unavailable := Some qsv_reason, bs_qsv_usable := Some False,
              bs_qsv_unavailable_reason := Some qsv_reason, bs_vaapi_usable := Some vaapi_usable, bs_degraded := True\<rparr>)
      else if vaapi_usable then
        (backend_status_payload requested normalised (Some ''intel_vaapi'') True False ''Intel VAAPI is selected and usable.'')
          \<lparr>bs_qsv_usable := Some qsv_usable, bs_qsv_unavailable_reason := (if qsv_usable then None else Some qsv_reason),
           bs_vaapi_usable := Some True\<rparr>
      else hardware_cpu_fallback_or_failure requested normalised allow cpu_usable vaapi_reason qsv_usable
             (if qsv_usable then None else Some qsv_reason) False (Some vaapi_reason))"

definition underscores_out :: "string \<Rightarrow> string" where
  "underscores_out s = map (\<lambda>c. if c = CHR ''_'' then CHR '' '' else c) s"

definition resolve_backend_runtime_status ::
    "string option \<Rightarrow> (hardware_probe + json) list \<Rightarrow> bool \<Rightarrow> bool \<Rightarrow> backend_status" where
  "resolve_backend_runtime_status preferred probes allow cpu_available =
     (let requested = or_str (Some (requested_text preferred)) ''cpu_only'';
          mode = normalise_backend_preference_key (Some requested);
          payloads = map coerce_probe probes;
          cpu_usable = (cpu_available \<and>
            (case find_backend_probe payloads ''cpu'' of
               None \<Rightarrow> True | Some d \<Rightarrow> json_truthy (jget_or d ''usable_by_ffmpeg'' (JBool True))))
      in
      if mode = ''cpu'' then
        (if cpu_usable then backend_status_payload requested mode (Some ''cpu'') True False ''CPU execution is selected.''
         else (backend_status_payload requested mode None False False ''CPU execution is unavailable.'')
                \<lparr>bs_reason_unavailable := Some ''CPU execution is unavailable because FFmpeg is not discoverable.''\<rparr>)
      else if mode \<in> set intel_backend_preferences then
        resolve_intel_runtime_status requested mode (find_backend_probe payloads ''intel_igpu'') allow cpu_usable
      else
        let found = find_backend_probe payloads mode in
        if (case found of None \<Rightarrow> False | Some d \<Rightarrow> json_truthy (jget d ''usable_by_ffmpeg'')) then
          backend_status_payload requested mode (Some mode) True False (underscores_out mode @ '' is selected and usable.'')
        else
          let reason = (case found of
                Some d \<Rightarrow> probe_reason d
              | None \<Rightarrow> ''Preferred backend '' @ [CHR 0x27] @ requested @ [CHR 0x27] @ '' was not reported.'')
          in if allow \<and> cpu_usable then
               (backend_status_payload requested mode (Some ''cpu'') True True
                  (''Preferred backend is unavailable; CPU fallback is selected. '' @ reason))
                 \<lparr>bs_fallback_reason := Some reason, bs_reason_unavailable := Some reason\<rparr>
             else
               (backend_status_payload requested mode None False False
                  (''Preferred backend is unavailable and CPU fallback is disabled. '' @ reason))
                 \<lparr>bs_reason_unavailable := Some reason, bs_degraded := True\<rparr>)"

subsection \<open>Runtime summaries\<close>

definition runtime_summary_defaults :: "(string \<times> json) list" where
  "runtime_summary_defaults =
     [(''queue'', JNull), (''scratch_dir'', JNull), (''scratch_status'', JNull), (''media_mounts'', JList []),
      (''media_paths'', JList []), (''path_mappings'', JList []), (''preferred_backend'', JNull),
      (''allow_cpu_fallback'', JNull), (''max_concurrent_jobs'', JNull), (''schedule_windows'', JList []),
      (''current_job_id'', JNull), (''current_backend'', JNull), (''selected_backend'', JNull),
      (''backend_fallback_used'', JNull), (''backend_fallback_reason'', JNull), (''qsv_usable'', JNull),
      (''qsv_unavailable_reason'', JNull), (''vaapi_usable'', JNull), (''vaapi_unavailable_reason'', JNull),
      (''backend_diagnostic'', JNull), (''current_stage'', JNull), (''current_progress_percent'', JNull),
      (''current_progress_updated_at'', JNull), (''telemetry'', JNull), (''last_completed_job_id'', JNull),
      (''ffmpeg'', JNull), (''ffprobe'', JNull), (''execution_backends'', JList []),
      (''hardware_acceleration'', JList []), (''hardware_probes'', JList []), (''runtime_device_paths'', JList []),
      (''eligible'', JNull), (''eligibility_summary'', JNull), (''transcode_backend_usable'', JNull),
      (''capability_source'', JNull), (''capability_checked_at'', JNull)]"

text \<open>\<open>payload or {}\<close>.\<close>

definition object_or_empty :: "json option \<Rightarrow> (string \<times> json) list" where
  "object_or_empty v = (case v of Some (JObj d) \<Rightarrow> d | _ \<Rightarrow> [])"

definition clean_runtime_summary :: "json option \<Rightarrow> (string \<times> json) list" where
  "clean_runtime_summary payload =
     map (\<lambda>(k, dflt). (k, jget_or (object_or_empty payload) k dflt)) runtime_summary_defaults"

definition merge_runtime_summary_preferences ::
    "json option \<Rightarrow> json \<Rightarrow> bool \<Rightarrow> int \<Rightarrow> json \<Rightarrow> string option \<Rightarrow> json option \<Rightarrow> (string \<times> json) list" where
  "merge_runtime_summary_preferences summary preferred allow capacity windows scratch mappings =
     (let m0 = object_or_empty summary;
          m1 = (case scratch of
                  None \<Rightarrow> m0
                | Some p \<Rightarrow>
                    if p = [] then m0
                    else let m = AList.update ''scratch_dir'' (JStr p) m0 in
                         if jget m ''scratch_status'' = JNull
                         then AList.update ''scratch_status''
                                (JObj [(''path'', JStr p), (''status'', JStr ''unknown''),
                                       (''message'', JStr ''Scratch validation has not been reported by the worker yet.'')]) m
                         else m);
          m2 = (case mappings of None \<Rightarrow> m1 | Some v \<Rightarrow> AList.update ''path_mappings'' v m1);
          m3 = AList.update ''schedule_windows'' windows
                 (AList.update ''max_concurrent_jobs'' (JInt capacity)
                   (AList.update ''allow_cpu_fallback'' (JBool allow)
                     (AList.update ''preferred_backend'' preferred m2)))
      in clean_runtime_summary (Some (JObj m3)))"

subsection \<open>The status and what execution selects\<close>

lemma serialised_fields [simp]:
  "jget (serialise_backend_probe p) ''backend'' = JStr (hp_backend p)"
  "jget (serialise_backend_probe p) ''usable_by_ffmpeg'' = JBool (hp_usable p)"
  "sub_object (serialise_backend_probe p) ''details'' = hp_details p"
  by (simp_all add: serialise_backend_probe_def probe_payload_def jget_def sub_object_def)

lemma find_serialised:
  "find_backend_probe (map coerce_probe (map Inl ps)) b = map_option serialise_backend_probe (find (\<lambda>p. hp_backend p = b) ps)"
  by (induction ps) (simp_all add: find_backend_probe_def coerce_probe_def)

lemma probe_for_find:
  assumes "distinct (map hp_backend ps)"
  shows "probe_for ps b = find (\<lambda>p. hp_backend p = b) ps"
  unfolding probe_for_def
  using assms
proof (induction ps)
  case (Cons p ps)
  have "map_of (rev (map (\<lambda>p. (hp_backend p, p)) ps)) (hp_backend p) = None"
    using Cons.prems by (auto simp: map_of_eq_None_iff)
  then show ?case using Cons by (auto simp: map_add_def split: option.splits)
qed simp

lemma nested_sub: "nested d k = Inr q \<Longrightarrow> json_truthy (jget q x) \<Longrightarrow> sub_object d k = q"
  by (auto simp: nested_def sub_object_def jget_def split: if_splits json.splits)

lemma nested_falsy: "nested d k = Inr q \<Longrightarrow> \<not> json_truthy (jget q x) \<Longrightarrow> \<not> json_truthy (jget (sub_object d k) x)"
  by (auto simp: nested_def sub_object_def jget_def split: if_splits json.splits)


lemma requested_mode:
  "normalise_backend_preference_key (Some (or_str (Some (requested_text preferred)) ''cpu_only'')) = normalise_backend_preference_key preferred"
proof (cases "requested_text preferred = []")
  case True
  then have "normalise_backend_preference_key preferred = ''cpu''"
    unfolding normalise_backend_preference_key_def requested_text_def by (simp only:) code_simp
  moreover have "normalise_backend_preference_key (Some ''cpu_only'') = ''cpu''" by code_simp
  ultimately show ?thesis using True by simp
next
  case False
  then show ?thesis by (simp add: normalise_backend_preference_key_def requested_text_def)
qed

lemma intel_status:
  assumes "intel_selection repr w mode codec (hp_details p) = Inr (Some s)" "mode \<in> set intel_backend_preferences"
  shows "let st = resolve_intel_runtime_status requested mode (Some (serialise_backend_probe p)) allow cpu in
    bs_transcode_backend_usable st \<and> bs_selected_backend st = Some (actual_backend s) \<and> \<not> bs_fallback_used st"
proof -
  obtain qsv vaapi where q: "nested (hp_details p) ''qsv'' = Inr qsv" "nested (hp_details p) ''vaapi'' = Inr vaapi"
    using assms(1) by (auto simp: intel_selection_def split: sum.splits)
  note st = resolve_intel_runtime_status_def backend_status_payload_def
  have mode: "mode = ''intel_auto'' \<or> mode = ''intel_qsv'' \<or> mode = ''intel_vaapi''"
    using assms(2) by (auto simp: intel_backend_preferences_def)
  show ?thesis
  proof (cases "mode \<in> {''intel_auto'', ''intel_qsv''} \<and> json_truthy (jget qsv ''usable'')")
    case True
    then have "actual_backend s = ''intel_qsv''"
      using assms(1) q by (auto simp: intel_selection_def qsv_selection_def accelerated_def Let_def split: option.splits sum.splits if_splits)
    moreover have "json_truthy (jget (sub_object (hp_details p) ''qsv'') ''usable'')" using nested_sub [OF q(1), of "''usable''"] True by simp
    ultimately show ?thesis using True by (auto simp: st Let_def)
  next
    case False
    then have v: "mode \<in> {''intel_auto'', ''intel_vaapi''}" "json_truthy (jget vaapi ''usable'')"
      using assms(1) q by (auto simp: intel_selection_def split: if_splits)
    then have "actual_backend s = ''intel_vaapi''"
      using assms(1) q False by (auto simp: intel_selection_def vaapi_selection_def accelerated_def Let_def split: option.splits if_splits)
    moreover have "json_truthy (jget (sub_object (hp_details p) ''vaapi'') ''usable'')" using nested_sub [OF q(2), of "''usable''"] v(2) by simp
    moreover have "\<not> json_truthy (jget (sub_object (hp_details p) ''qsv'') ''usable'')" if "mode = ''intel_auto''"
      using nested_falsy [OF q(1), of "''usable''"] False that by simp
    ultimately show ?thesis using v(1) by (auto simp: st Let_def)
  qed
qed

text \<open>What execution selects without a CPU fallback, the status of the runtime called usable, under the
  same name: a worker is never called unfit for a preference its execution could serve.\<close>

theorem selected_backend_was_reported_usable:
  assumes "distinct (map hp_backend probes)" "normalise_backend_preference_key preferred \<noteq> ''cpu''"
    and "select_execution_backend repr w probes preferred False target = Inr s"
  shows "bs_transcode_backend_usable (resolve_backend_runtime_status preferred (map Inl probes) False cpu) \<and>
    bs_selected_backend (resolve_backend_runtime_status preferred (map Inl probes) False cpu) = Some (actual_backend s) \<and>
    \<not> bs_fallback_used (resolve_backend_runtime_status preferred (map Inl probes) False cpu)"
proof -
  let ?mode = "normalise_backend_preference_key preferred" and ?codec = "target_encoder_codec target"
  let ?probe = "probe_for probes (probe_backend_for_preference (Some ?mode))"
  have sel: "accelerated_selection repr w ?mode ?codec ?probe = Inr (Some s)"
    using assms(2,3) by (auto simp: select_execution_backend_def Let_def split: sum.splits option.splits)
  then obtain p where p: "?probe = Some p" "hp_usable p" by (auto simp: accelerated_selection_def split: option.splits if_splits)
  have found: "find_backend_probe (map coerce_probe (map Inl probes)) (probe_backend_for_preference (Some ?mode)) = Some (serialise_backend_probe p)"
    using p(1) by (simp only: find_serialised probe_for_find [OF assms(1)] option.simps)
  have key: "probe_backend_for_preference (Some ?mode) = (if ?mode \<in> set intel_backend_preferences then ''intel_igpu'' else ?mode)"
    by (simp add: probe_backend_for_preference_def normalise_fixpoint [OF normalise_range] Let_def)
  show ?thesis
  proof (cases "?mode \<in> set intel_backend_preferences")
    case True
    then have "intel_selection repr w ?mode ?codec (hp_details p) = Inr (Some s)"
      using sel p by (simp add: accelerated_selection_def)
    from intel_status [OF this True] show ?thesis
      using True assms(2) found key unfolding resolve_backend_runtime_status_def requested_mode Let_def by simp
  next
    case False
    then have "?mode = ''nvidia_gpu'' \<or> ?mode = ''amd_gpu''"
      using sel p by (auto simp: accelerated_selection_def split: if_splits)
    then have "actual_backend s = ?mode"
      using sel p False
      by (auto simp: accelerated_selection_def accelerated_def amd_selection_def vaapi_selection_def Let_def
            split: if_splits sum.splits option.splits)
    then show ?thesis
      using False assms(2) found key p(2) unfolding resolve_backend_runtime_status_def requested_mode Let_def
      by (simp add: backend_status_payload_def)
  qed
qed

text \<open>The converse fails, since the status does not ask for the codec: an AV1 transcode on a usable NVIDIA
  card is called usable, also when the processor may not step in, and execution finds no encoder for it.\<close>

definition nvidia_probe :: hardware_probe where
  "nvidia_probe =
     \<lparr>hp_backend = ''nvidia_gpu'', hp_detected = True, hp_usable = True, hp_status = ''healthy'',
      hp_message = ''NVENC is usable.'', hp_details = []\<rparr>"

theorem usable_status_ignores_codec:
  "bs_transcode_backend_usable (resolve_backend_runtime_status (Some ''prefer_nvidia_gpu'') [Inl nvidia_probe] False True)
   \<and> (\<exists>msg. select_execution_backend repr w [nvidia_probe] (Some ''prefer_nvidia_gpu'') False (Some ''av1'')
        = Inl (BackendSelectionError msg ''nvidia_gpu'' False))"
proof
  show "bs_transcode_backend_usable (resolve_backend_runtime_status (Some ''prefer_nvidia_gpu'') [Inl nvidia_probe] False True)"
    by code_simp
  have "normalise_backend_preference_key (Some ''prefer_nvidia_gpu'') = ''nvidia_gpu''" "target_encoder_codec (Some ''av1'') = ''av1''"
    "nvenc_encoders ''av1'' = None" "probe_for [nvidia_probe] (probe_backend_for_preference (Some ''nvidia_gpu'')) = Some nvidia_probe"
    "''nvidia_gpu'' \<notin> set intel_backend_preferences"
    by code_simp+
  then show "\<exists>msg. select_execution_backend repr w [nvidia_probe] (Some ''prefer_nvidia_gpu'') False (Some ''av1'')
        = Inl (BackendSelectionError msg ''nvidia_gpu'' False)"
    by (simp add: select_execution_backend_def accelerated_selection_def Let_def nvidia_probe_def)
qed

lemma selected_backend_was_reported_usable_witness:
  "bs_transcode_backend_usable (resolve_backend_runtime_status (Some ''nvidia_gpu'') (map Inl [nvidia_probe]) False True)"
proof -
  have "\<exists>s. select_execution_backend (\<lambda>_. []) False [nvidia_probe] (Some ''nvidia_gpu'') False (Some ''hevc'') = Inr s" 
    by (rule exI, code_simp)
  then obtain s where s: "select_execution_backend (\<lambda>_. []) False [nvidia_probe] (Some ''nvidia_gpu'') False (Some ''hevc'') = Inr s" by blast
  have "distinct (map hp_backend [nvidia_probe])" "normalise_backend_preference_key (Some ''nvidia_gpu'') \<noteq> ''cpu''" by code_simp+
  from selected_backend_was_reported_usable [OF this s] show ?thesis by blast
qed

end
