(* ===== verification/Worker_Service.thy ===== *)
theory Worker_Service
  imports Jobs_Service Path_Safety Runtime_Status
begin

text \<open>
  The remote-worker side of the API (\<open>src/apps/api/app/services/worker.py\<close>): what a worker must have
  reported before it may execute, which job it is offered, how it claims one, and how its heartbeats,
  its progress, its failures and its results are taken in. The worker of a request is the row the token
  belongs to. Audit events and log records are not modelled. What the request schemas promise is
  relied on: a list of objects is a list of objects. \<open>validated_at\<close> stamps are printed by a parameter.
\<close>

subsection \<open>The surroundings of a request of a worker\<close>

text \<open>
  Besides those of every request: home directories and symbolic links, the configured folders, whether
  the marker file can be written below a folder (\<open>None\<close>, or the text of the error), the place of nulls
  in the order of the database, the printing of an instant; the registration secret, the hash of a token,
  the token that is drawn and the key of a new row.
\<close>

record remote_env =
  rv_service :: service_env
  rv_expand :: "path \<Rightarrow> path"
  rv_resolve :: "path \<Rightarrow> path"
  rv_media_mounts :: "path list"
  rv_app_scratch :: path
  rv_worker_scratch :: path
  rv_marker_error :: "path \<Rightarrow> string option"
  rv_nulls_first :: bool
  rv_iso :: "instant \<Rightarrow> string"
  rv_secret :: string
  rv_hash :: "string \<Rightarrow> string"
  rv_token :: string
  rv_new_worker :: "db \<Rightarrow> row_id"

definition rv_now :: "remote_env \<Rightarrow> instant" where
  "rv_now v = sv_now (rv_service v)"

subsection \<open>What a worker has reported\<close>

definition clean_capability_summary :: "json option \<Rightarrow> (string \<times> json) list" where
  "clean_capability_summary payload =
     (let d = object_or_empty payload in
      [(''execution_modes'', jget_or d ''execution_modes'' (JList [])),
       (''supported_video_codecs'', jget_or d ''supported_video_codecs'' (JList [])),
       (''supported_audio_codecs'', jget_or d ''supported_audio_codecs'' (JList [])),
       (''hardware_hints'', jget_or d ''hardware_hints'' (JList [])),
       (''binary_support'', jget_or d ''binary_support'' (JObj [])),
       (''max_concurrent_jobs'', jget d ''max_concurrent_jobs''),
       (''recommended_concurrency'', jget d ''recommended_concurrency''),
       (''recommended_concurrency_reason'', jget d ''recommended_concurrency_reason''),
       (''tags'', jget_or d ''tags'' (JList [])), (''hardware_probes'', jget_or d ''hardware_probes'' (JList [])),
       (''capability_source'', jget d ''capability_source''),
       (''capability_checked_at'', jget d ''capability_checked_at'')])"

definition clean_host_summary :: "json option \<Rightarrow> (string \<times> json) list" where
  "clean_host_summary payload =
     (let d = object_or_empty payload in
      map (\<lambda>k. (k, jget d k)) [''hostname'', ''platform'', ''agent_version'', ''python_version''])"

definition has_binaries :: "worker \<Rightarrow> bool" where
  "has_binaries w \<longleftrightarrow>
     (let d = sub_object (clean_capability_summary (w_capability_payload w)) ''binary_support''
      in json_truthy (jget d ''ffmpeg'') \<and> json_truthy (jget d ''ffprobe''))"

definition execution_modes :: "worker \<Rightarrow> json" where
  "execution_modes w = jget (clean_capability_summary (w_capability_payload w)) ''execution_modes''"

definition scratch_ready :: "worker \<Rightarrow> bool" where
  "scratch_ready w \<longleftrightarrow>
     (case jget (clean_runtime_summary (w_runtime_payload w)) ''scratch_status'' of
        JObj s \<Rightarrow> jget s ''status'' \<in> {JNull, JStr ''healthy'', JStr ''unknown''}
      | _ \<Rightarrow> True)"

definition remote_worker_block :: "worker \<Rightarrow> string option" where
  "remote_worker_block w =
     (if w_worker_type w \<noteq> REMOTE then Some ''Only remote workers can poll for remote work.''
      else if \<not> w_enabled w then Some ''The worker is not currently enabled for execution.''
      else if w_registration_status w \<noteq> WR_REGISTERED then Some ''The worker has not completed pairing yet.''
      else if w_last_health_status w = WH_FAILED then Some ''The worker last reported a failed health state.''
      else if \<not> has_binaries w then Some ''The worker has not reported usable FFmpeg and FFprobe support.''
      else if \<not> json_truthy (execution_modes w) then Some ''The worker has not reported any execution modes.''
      else if \<not> scratch_ready w then Some ''The worker scratch path is not ready for execution.''
      else None)"

definition ensure_remote_worker_can_execute :: "worker \<Rightarrow> unit service" where
  "ensure_remote_worker_can_execute w =
     (case remote_worker_block w of None \<Rightarrow> returns () | Some m \<Rightarrow> fails (ApiConflict m))"

subsection \<open>The paths of a worker\<close>

definition field_text :: "remote_env \<Rightarrow> (string \<times> json) list \<Rightarrow> string \<Rightarrow> string option" where
  "field_text v d k = (if json_truthy (jget d k) then Some (json_text (sv_repr (rv_service v)) (jget d k)) else None)"

definition json_object :: "json \<Rightarrow> (string \<times> json) list" where
  "json_object x = (case x of JObj d \<Rightarrow> d | _ \<Rightarrow> [])"

definition raw_mappings :: "remote_env \<Rightarrow> json option \<Rightarrow> raw_mapping list option" where
  "raw_mappings v stored =
     map_option (\<lambda>x. map (\<lambda>i. let d = json_object i in
         \<lparr>rm_label = field_text v d ''label'', rm_server = field_text v d ''server_path'',
          rm_worker = field_text v d ''worker_path''\<rparr>) (json_items x)) stored"

definition has_mappings :: "worker \<Rightarrow> bool" where
  "has_mappings w \<longleftrightarrow> (case w_path_mappings w of None \<Rightarrow> False | Some x \<Rightarrow> json_truthy x)"

definition plain_posix :: "remote_env \<Rightarrow> string \<Rightarrow> string" where
  "plain_posix v s = as_posix (rv_resolve v (rv_expand v (path_of s)))"

definition below_mount :: "string \<Rightarrow> string \<Rightarrow> bool" where
  "below_mount source m \<longleftrightarrow> source = m \<or> prefix (m @ ''/'') source"

definition resolve_remote_source_path :: "remote_env \<Rightarrow> worker \<Rightarrow> string \<Rightarrow> string option" where
  "resolve_remote_source_path v w source =
     (if has_mappings w then remap_server_path (rv_expand v) (rv_resolve v) source (raw_mappings v (w_path_mappings w))
      else
        let mounts = map (json_text (sv_repr (rv_service v)))
              (filter json_truthy (json_items (jget (clean_runtime_summary (w_runtime_payload w)) ''media_mounts'')))
        in if list_ex (\<lambda>m. below_mount (plain_posix v source) (plain_posix v m)) mounts
           then Some (plain_posix v source) else Some source)"

text \<open>
  \<open>ensure_mapping_marker\<close> writes the marker the worker looks for; \<open>_validated_path_mappings\<close> joins its
  outcome with what the worker reported for the mapping.
\<close>

definition ensure_mapping_marker :: "remote_env \<Rightarrow> string \<Rightarrow> string \<times> string \<times> string" where
  "ensure_mapping_marker v sp =
     (let folder = rv_resolve v (rv_expand v (path_of sp));
          marker = as_posix (join_path folder marker_relative_path)
      in case rv_marker_error v folder of
           None \<Rightarrow> (''usable'', ''Validation marker is ready.'', marker)
         | Some e \<Rightarrow> (''marker_write_failed'', e, marker))"

definition reported_mapping :: "remote_env \<Rightarrow> json list \<Rightarrow> string \<Rightarrow> (string \<times> json) list" where
  "reported_mapping v reported wp =
     (case map_of (rev (List.map_filter (\<lambda>i. map_option (\<lambda>t. (t, json_object i)) (field_text v (json_object i) ''worker_path''))
                         reported)) wp of
        None \<Rightarrow> [] | Some d \<Rightarrow> d)"

definition validated_mapping :: "remote_env \<Rightarrow> json list \<Rightarrow> worker_mapping \<Rightarrow> json" where
  "validated_mapping v reported m =
     (let (status, message, marker) = ensure_mapping_marker v (wm_server m);
          d = reported_mapping v reported (wm_worker m)
      in JObj
        [(''label'', case wm_label m of None \<Rightarrow> JNull | Some l \<Rightarrow> JStr l), (''server_path'', JStr (wm_server m)),
         (''worker_path'', JStr (wm_worker m)), (''marker_relative_path'', JStr marker_relative_path),
         (''validation_status'', jget_or d ''status'' (JStr status)),
         (''validation_message'', jget_or d ''message'' (JStr message)), (''validated_at'', JStr (rv_iso v (rv_now v))),
         (''marker_server_path'', JStr marker), (''marker_worker_path'', jget d ''marker_worker_path'')])"

definition validated_path_mappings :: "remote_env \<Rightarrow> json option \<Rightarrow> json \<Rightarrow> json" where
  "validated_path_mappings v stored reported =
     JList (map (validated_mapping v (json_items reported))
       (normalise_path_mappings (rv_expand v) (rv_resolve v) (raw_mappings v stored)))"

definition runtime_payload_for_worker :: "remote_env \<Rightarrow> worker \<Rightarrow> json option \<Rightarrow> json" where
  "runtime_payload_for_worker v w reported =
     JObj (merge_runtime_summary_preferences reported (JStr (w_preferred_backend w)) (w_allow_cpu_fallback w)
       (max 1 (w_max_concurrent_jobs w))
       (JList (case w_schedule_windows w of None \<Rightarrow> [] | Some ws \<Rightarrow> map window_json ws)) (w_scratch_path w)
       (Some (validated_path_mappings v (w_path_mappings w) (jget (object_or_empty reported) ''path_mappings''))))"

subsection \<open>Which job a worker is offered\<close>

definition unvalidated_mapping :: "json \<Rightarrow> bool" where
  "unvalidated_mapping i \<longleftrightarrow> jget (json_object i) ''validation_status'' \<notin> {JNull, JStr ''usable''}"

definition remote_worker_can_run_job :: "remote_env \<Rightarrow> worker \<Rightarrow> processing_plan \<Rightarrow> string \<Rightarrow> string option \<Rightarrow> bool" where
  "remote_worker_can_run_job v w p source preferred =
     (let modes = json_items (execution_modes w) in
      if \<not> has_binaries w then False
      else if \<not> json_truthy (execution_modes w) then False
      else if \<not> w_enabled w \<or> w_registration_status w \<noteq> WR_REGISTERED then False
      else if resolve_remote_source_path v w source = None then False
      else if \<not> scratch_ready w then False
      else if list_ex unvalidated_mapping (json_items (jget (clean_runtime_summary (w_runtime_payload w)) ''path_mappings''))
      then False
      else if \<not> transcode_required (plan_video p) then JStr ''remux'' \<in> set modes \<or> JStr ''transcode'' \<in> set modes
      else
        let backend = or_str preferred (or_str (Some (w_preferred_backend w)) ''cpu_only'');
            codec = py_lower (py_strip (or_str (target_codec (plan_video p)) ''hevc''));
            status = resolve_backend_runtime_status (Some backend)
              (map Inr (json_items (jget (clean_capability_summary (w_capability_payload w)) ''hardware_probes'')))
              (w_allow_cpu_fallback w) (JStr ''transcode'' \<in> set modes)
        in codec \<in> {''h264'', ''hevc'', ''av1''} \<and> bs_transcode_backend_usable status \<and> JStr ''transcode'' \<in> set modes)"

definition preferred_worker :: "db \<Rightarrow> job \<Rightarrow> worker option" where
  "preferred_worker d j = Option.bind (j_preferred_worker_id j) (find_worker d)"

definition job_open_to_worker :: "remote_env \<Rightarrow> db \<Rightarrow> worker \<Rightarrow> job \<Rightarrow> api_error + bool" where
  "job_open_to_worker v d w j =
     (case job_allows_worker (rv_now v) (sv_tz (rv_service v)) j w (preferred_worker d j) of
        Inl e \<Rightarrow> Inl (Unhandled (ScheduleError e)) | Inr b \<Rightarrow> Inr b)"

definition job_runs_on_worker :: "remote_env \<Rightarrow> db \<Rightarrow> worker \<Rightarrow> job \<Rightarrow> api_error + bool" where
  "job_runs_on_worker v d w j =
     (case (find_plan d (j_plan_snapshot_id j), find_file d (j_tracked_file_id j)) of
        (Some s, Some f) \<Rightarrow>
          Inr (remote_worker_can_run_job v w (sn_payload s) (tf_source_path f) (j_preferred_backend_override j))
      | _ \<Rightarrow> Inl (Unhandled MissingRow))"

definition compatible_job :: "remote_env \<Rightarrow> db \<Rightarrow> worker \<Rightarrow> job \<Rightarrow> api_error + bool" where
  "compatible_job v d w j =
     (case job_open_to_worker v d w j of
        Inl e \<Rightarrow> Inl e
      | Inr b \<Rightarrow> if b then job_runs_on_worker v d w j else Inr False)"

fun compatible_jobs :: "remote_env \<Rightarrow> db \<Rightarrow> worker \<Rightarrow> job list \<Rightarrow> api_error + job list" where
  "compatible_jobs v d w [] = Inr []"
| "compatible_jobs v d w (j # js) =
     (case compatible_job v d w j of
        Inl e \<Rightarrow> Inl e
      | Inr b \<Rightarrow> map_sum id (\<lambda>r. if b then j # r else r) (compatible_jobs v d w js))"

text \<open>The offer: what is assigned to the worker already, while it has room, then what is free.\<close>

definition offered_job :: "nat \<Rightarrow> worker \<Rightarrow> job list \<Rightarrow> job option" where
  "offered_job active w js =
     (let room = int active < max 1 (w_max_concurrent_jobs w) in
      case find (\<lambda>j. j_assigned_worker_id j = Some (w_id w) \<and> room) js of
        Some j \<Rightarrow> Some j
      | None \<Rightarrow> if \<not> room then None else find (\<lambda>j. j_assigned_worker_id j = None) js)"

text \<open>What the worker is sent, less the stream list of the probe: the plan carries the policy of the job.\<close>

record remote_job =
  rj_job_id :: row_id
  rj_tracked_file_id :: row_id
  rj_plan_snapshot_id :: row_id
  rj_job_kind :: job_kind
  rj_source_path :: string
  rj_plan :: processing_plan
  rj_analysis_payload :: "json option"
  rj_requested_worker_type :: "worker_type option"
  rj_claimed :: bool
  rj_assigned_worker_id :: "row_id option"

definition plan_payload_for_job :: "job \<Rightarrow> processing_plan \<Rightarrow> processing_plan" where
  "plan_payload_for_job j p =
     (let policy = py_lower (py_strip (or_str (Some (j_backup_policy j)) ''keep''));
          r = plan_replace p
      in if policy \<in> {''delete_after_success'', ''no_backup'', ''delete_backup_after_success''}
         then p\<lparr>plan_replace := r\<lparr>delete_replaced_source := True\<rparr>\<rparr>
         else if policy \<in> {''keep'', ''keep_backup'', ''keep_for_1_day'', ''keep_for_one_day''}
         then p\<lparr>plan_replace := r\<lparr>delete_replaced_source := False\<rparr>\<rparr>
         else p\<lparr>plan_replace := r\<lparr>delete_replaced_source := j_delete_replaced_source j\<rparr>\<rparr>)"

definition build_remote_job_payload :: "remote_env \<Rightarrow> db \<Rightarrow> worker \<Rightarrow> job \<Rightarrow> remote_job option" where
  "build_remote_job_payload v d w j =
     (case (find_plan d (j_plan_snapshot_id j), find_file d (j_tracked_file_id j)) of
        (Some s, Some f) \<Rightarrow>
          (case resolve_remote_source_path v w (tf_source_path f) of
             None \<Rightarrow> None
           | Some source \<Rightarrow> Some
               \<lparr>rj_job_id = j_id j, rj_tracked_file_id = j_tracked_file_id j, rj_plan_snapshot_id = j_plan_snapshot_id j,
                rj_job_kind = j_job_kind j, rj_source_path = source, rj_plan = plan_payload_for_job j (sn_payload s),
                rj_analysis_payload = j_analysis_payload j, rj_requested_worker_type = j_requested_worker_type j,
                rj_claimed = (j_status j = JS_RUNNING), rj_assigned_worker_id = j_assigned_worker_id j\<rparr>)
      | _ \<Rightarrow> None)"

definition remote_poll_limit :: nat where "remote_poll_limit = 25"

definition request_job :: "remote_env \<Rightarrow> worker \<Rightarrow> remote_job option service" where
  "request_job v w =
     andthen (ensure_remote_worker_can_execute w) (\<lambda>_.
     reads (\<lambda>d.
       map_sum id (\<lambda>js. Option.bind (offered_job (count_active_assignments_for_worker (w_id w) d) w js)
                          (build_remote_job_payload v d w))
         (compatible_jobs v d w (fetch_next_pending_remote_jobs (rv_nulls_first v) (w_id w) remote_poll_limit d))))"

subsection \<open>Claiming\<close>

definition requested_backend :: "worker \<Rightarrow> job \<Rightarrow> string option" where
  "requested_backend w j =
     (if j_job_kind j = DRY_RUN then None
      else Some (normalise_backend_preference_key (Some
        (or_str (j_preferred_backend_override j) (or_str (Some (w_preferred_backend w)) ''cpu_only'')))))"

definition claim_row :: "remote_env \<Rightarrow> worker \<Rightarrow> job \<Rightarrow> job service" where
  "claim_row v w j d =
     (case claim_pending_for_worker (rv_now v) (j_id j) w (requested_backend w j) (max 1 (w_max_concurrent_jobs w)) d of
        Inl e \<Rightarrow> (Inl (Unhandled e), d)
      | Inr (d', None) \<Rightarrow> (Inl (ApiConflict ''Job is no longer eligible to be claimed.''), d')
      | Inr (d', Some k) \<Rightarrow> (Inr k, d'))"

definition claim_job :: "remote_env \<Rightarrow> worker \<Rightarrow> row_id \<Rightarrow> job service" where
  "claim_job v w i =
     andthen (ensure_remote_worker_can_execute w) (\<lambda>_.
     andthen (get_job i) (\<lambda>j.
     andthen (require (\<lambda>_. j_status j = JS_PENDING) (ApiConflict ''Only pending jobs can be claimed.'')) (\<lambda>_.
     andthen (require (\<lambda>_. j_assigned_worker_id j \<in> {None, Some (w_id w)}) (ApiConflict ''Job is assigned to another worker.'')) (\<lambda>_.
     andthen (reads (\<lambda>d. job_open_to_worker v d w j)) (\<lambda>open.
     andthen (require (\<lambda>_. open) (ApiConflict ''Job is not eligible for this worker.'')) (\<lambda>_.
     andthen (reads (\<lambda>d. job_runs_on_worker v d w j)) (\<lambda>runs.
     andthen (require (\<lambda>_. runs) (ApiConflict ''Job is not compatible with this worker.'')) (\<lambda>_.
     claim_row v w j))))))))"

subsection \<open>Results\<close>

definition worker_roots :: "remote_env \<Rightarrow> worker \<Rightarrow> path_roots" where
  "worker_roots v w =
     (let roots = configured_path_roots (rv_expand v) (rv_resolve v) (rv_media_mounts v) (rv_app_scratch v) (rv_worker_scratch v)
      in case w_scratch_path w of
           None \<Rightarrow> roots
         | Some s \<Rightarrow> if s = [] then roots else with_extra_scratch (rv_expand v) (rv_resolve v) roots [path_of s])"

definition server_path :: "remote_env \<Rightarrow> worker \<Rightarrow> path option \<Rightarrow> path option" where
  "server_path v w p =
     remap_worker_path_to_server_path (rv_expand v) (rv_resolve v) (map_option as_posix p) (raw_mappings v (w_path_mappings w))"

definition normalise_replacement_paths :: "remote_env \<Rightarrow> worker \<Rightarrow> replacement_result \<Rightarrow> string + replacement_result" where
  "normalise_replacement_paths v w rep =
     (let e = rv_expand v; s = rv_resolve v; roots = worker_roots v w in
      case validate_replacement_payload_paths e s roots ''replacement.details''
             (JObj (remap_fields e s (raw_mappings v (w_path_mappings w)) (rr_details rep))) of
        Inl m \<Rightarrow> Inl m
      | Inr details \<Rightarrow>
          (case validate_final_output_path e s roots ''replacement.final_output_path''
                  (server_path v w (rr_final_output_path rep)) of
             Inl m \<Rightarrow> Inl m
           | Inr final \<Rightarrow>
               (case validate_backup_path e s roots ''replacement.original_backup_path''
                       (server_path v w (rr_original_backup_path rep)) of
                  Inl m \<Rightarrow> Inl m
                | Inr backup \<Rightarrow> Inr (rep\<lparr>rr_final_output_path := final, rr_original_backup_path := backup,
                                       rr_details := json_object details\<rparr>))))"

definition normalise_remote_execution_result_paths :: "remote_env \<Rightarrow> worker \<Rightarrow> full_result \<Rightarrow> string + full_result" where
  "normalise_remote_execution_result_paths v w r =
     (let e = rv_expand v; s = rv_resolve v; roots = worker_roots v w in
      case validate_output_path e s roots ''output_path'' (server_path v w (er_output_path r)) of
        Inl m \<Rightarrow> Inl m
      | Inr out \<Rightarrow>
          (case validate_final_output_path e s roots ''final_output_path'' (server_path v w (er_final_output_path r)) of
             Inl m \<Rightarrow> Inl m
           | Inr final \<Rightarrow>
               (case validate_backup_path e s roots ''original_backup_path'' (server_path v w (er_original_backup_path r)) of
                  Inl m \<Rightarrow> Inl m
                | Inr backup \<Rightarrow>
                    (case (case er_replacement r of
                             None \<Rightarrow> Inr None
                           | Some rep \<Rightarrow> map_sum id Some (normalise_replacement_paths v w rep)) of
                       Inl m \<Rightarrow> Inl m
                     | Inr rep \<Rightarrow> Inr (r\<lparr>er_output_path := out, er_final_output_path := final,
                                        er_original_backup_path := backup, er_replacement := rep\<rparr>)))))"

text \<open>What is kept of a result whose paths cannot be trusted.\<close>

definition failed_untrusted_remote_result :: "instant \<Rightarrow> full_result \<Rightarrow> string \<Rightarrow> full_result" where
  "failed_untrusted_remote_result now r message =
     r\<lparr>er_mode := ''failed'', er_status := ''failed'', er_output_path := None, er_final_output_path := None,
       er_original_backup_path := None,
       er_savings := no_savings\<lparr>input_size_bytes := input_size_bytes (er_savings r),
         video_input_size_bytes := video_input_size_bytes (er_savings r),
         source_video_bitrate := no_measurement\<lparr>bm_value := bm_value (source_video_bitrate (er_savings r))\<rparr>\<rparr>,
       er_failure_message := Some (''Remote worker result rejected: '' @ message),
       er_failure_category := Some ''untrusted_worker_result_path'', er_verification := None, er_replacement := None,
       er_completed_at := now\<rparr>"

definition result_completed_replacement :: "full_result \<Rightarrow> bool" where
  "result_completed_replacement r \<longleftrightarrow>
     er_status r = ''completed'' \<and>
     (case er_replacement r of None \<Rightarrow> False | Some rep \<Rightarrow> rr_status rep = R_SUCCEEDED \<and> er_final_output_path r \<noteq> None)"

definition late_cancelled_result :: "full_result \<Rightarrow> full_result" where
  "late_cancelled_result r =
     r\<lparr>er_mode := ''cancelled'', er_status := ''cancelled'', er_exit_code := None, er_savings := no_savings,
       er_analysis_payload := None,
       er_failure_message := Some (''Remote worker result arrived after cancellation was requested before '' @
         ''verified replacement completed. The original file was not marked processed.''),
       er_failure_category := Some ''cancelled_by_operator''\<rparr>"

text \<open>The result that is stored: made safe first, then overruled by a cancellation it does not predate.\<close>

definition settled_remote_result :: "remote_env \<Rightarrow> worker \<Rightarrow> job \<Rightarrow> full_result \<Rightarrow> full_result" where
  "settled_remote_result v w j reported =
     (let r = (case normalise_remote_execution_result_paths v w reported of
                 Inr q \<Rightarrow> q | Inl m \<Rightarrow> failed_untrusted_remote_result (rv_now v) reported m)
      in if j_cancellation_requested_at j \<noteq> None \<and> er_status r \<notin> {''cancelled'', ''failed''}
            \<and> \<not> result_completed_replacement r
         then late_cancelled_result r else r)"

text \<open>Only the worker that holds a running job may report on it.\<close>

definition reported_job :: "worker \<Rightarrow> row_id \<Rightarrow> string \<Rightarrow> job service" where
  "reported_job w i message =
     andthen (get_job i) (\<lambda>j.
     andthen (require (\<lambda>_. j_assigned_worker_id j = Some (w_id w)) (ApiConflict ''Job is not assigned to this worker.'')) (\<lambda>_.
     andthen (require (\<lambda>_. j_status j = JS_RUNNING) (ApiConflict message)) (\<lambda>_. returns j)))"

definition retry_automatically :: "service_env \<Rightarrow> row_id \<Rightarrow> full_result \<Rightarrow> unit service" where
  "retry_automatically s i r =
     writes (\<lambda>d. map_sum id fst (apply_automatic_retry_policy (sv_new_job s d) (sv_now s) (sv_tz s) i r d))"

definition sign_result :: "worker \<Rightarrow> job \<Rightarrow> job" where
  "sign_result w j = j\<lparr>j_last_worker_id := Some (w_id w), j_worker_name := Some (w_display_name w)\<rparr>"

definition store_remote_result :: "remote_env \<Rightarrow> worker \<Rightarrow> job \<Rightarrow> full_result \<Rightarrow> unit service" where
  "store_remote_result v w j r =
     (let s = rv_service v; i = j_id j in
      andthen (writes (mark_result (sv_dump_verification s) (sv_dump_replacement s) (sv_now s) i r)) (\<lambda>_.
      andthen (writes (write_job (sv_now s) i (sign_result w))) (\<lambda>_.
      if j_job_kind j = DRY_RUN then settle_file_by_plan s i
      else andthen (settle_file_by_result s i r) (\<lambda>_. retry_automatically s i r))))"

definition keep_runtime_summary :: "remote_env \<Rightarrow> worker \<Rightarrow> json option \<Rightarrow> unit service" where
  "keep_runtime_summary v w report =
     touches (\<lambda>d. if report = None then d
       else case find_worker d (w_id w) of
         None \<Rightarrow> d
       | Some c \<Rightarrow> put_worker (rv_now v) (c\<lparr>w_runtime_payload := Some (runtime_payload_for_worker v w report)\<rparr>) d)"

definition submit_job_result :: "remote_env \<Rightarrow> worker \<Rightarrow> row_id \<Rightarrow> full_result \<Rightarrow> json option \<Rightarrow> job service" where
  "submit_job_result v w i reported report =
     andthen (reported_job w i ''Only running jobs can be completed.'') (\<lambda>j.
     andthen (store_remote_result v w j (settled_remote_result v w j reported)) (\<lambda>_.
     andthen (keep_runtime_summary v w report) (\<lambda>_. get_job i)))"

definition remote_failure :: "remote_env \<Rightarrow> job \<Rightarrow> string \<Rightarrow> string \<Rightarrow> full_result" where
  "remote_failure v j message category =
     \<lparr>er_mode = ''failed'', er_status = ''failed'', er_command = [], er_output_path = None, er_exit_code = None,
      er_stdout = None, er_stderr = None, er_failure_message = Some message, er_failure_category = Some category,
      er_requested_backend = None, er_actual_backend = None, er_actual_accelerator = None,
      er_backend_fallback_used = False, er_backend_selection_reason = None, er_final_output_path = None,
      er_original_backup_path = None, er_savings = no_savings, er_analysis_payload = None, er_verification = None,
      er_replacement = None,
      er_started_at = (case j_started_at j of None \<Rightarrow> rv_now v | Some t \<Rightarrow> t), er_completed_at = rv_now v\<rparr>"

definition report_job_failure :: "remote_env \<Rightarrow> worker \<Rightarrow> row_id \<Rightarrow> string \<Rightarrow> string \<Rightarrow> json option \<Rightarrow> job service" where
  "report_job_failure v w i message category report =
     andthen (reported_job w i ''Only running jobs can be marked failed by a worker.'') (\<lambda>j.
     andthen (store_remote_result v w j (remote_failure v j message category)) (\<lambda>_.
     andthen (keep_runtime_summary v w report) (\<lambda>_. get_job i)))"

text \<open>The answer to a progress report tells the worker whether its job was cancelled meanwhile.\<close>

definition report_job_progress :: "remote_env \<Rightarrow> worker \<Rightarrow> row_id \<Rightarrow> progress_update \<Rightarrow> json option \<Rightarrow> (bool \<times> string option) service" where
  "report_job_progress v w i u report =
     andthen (reported_job w i ''Only running jobs can report progress.'') (\<lambda>_.
     andthen (writes (record_progress (rv_now v) i (u\<lparr>pu_updated_at := rv_now v\<rparr>))) (\<lambda>_.
     andthen (keep_runtime_summary v w report) (\<lambda>_.
     andthen (get_job i) (\<lambda>k. returns (j_cancellation_requested_at k \<noteq> None, j_cancellation_reason k)))))"

subsection \<open>Heartbeats\<close>

definition heartbeat :: "remote_env \<Rightarrow> worker \<Rightarrow> worker_report \<Rightarrow> unit service" where
  "heartbeat v w r =
     touches (put_worker (rv_now v)
       (record_heartbeat (rv_now v) (r\<lparr>wr_runtime := Some (runtime_payload_for_worker v w (wr_runtime r))\<rparr>) w))"

subsection \<open>Registration\<close>

record registration =
  rg_worker_key :: string
  rg_display_name :: string
  rg_remote :: bool
  rg_secret :: "string option"
  rg_pairing_token :: "string option"
  rg_report :: worker_report

definition get_by_pairing_token_hash :: "db \<Rightarrow> string \<Rightarrow> worker option" where
  "get_by_pairing_token_hash d h = find (\<lambda>w. w_pairing_token_hash w = Some h) (db_workers d)"

definition deny_worker :: "remote_env \<Rightarrow> string \<Rightarrow> string \<Rightarrow> string \<Rightarrow> 'a service" where
  "deny_worker v key reason message =
     andthen (touches (mark_auth_failed (rv_now v) key reason (rv_now v))) (\<lambda>_. fails (ApiAuthentication message))"

text \<open>Who registers: the key and the name, and the row a pairing token belongs to.\<close>

definition authenticate_worker :: "remote_env \<Rightarrow> registration \<Rightarrow> (string \<times> string \<times> worker option) service" where
  "authenticate_worker v g =
     (if truthy (rg_pairing_token g) then
        andthen (reads (\<lambda>d. Inr (get_by_pairing_token_hash d (rv_hash v (or_str (rg_pairing_token g) []))))) (\<lambda>paired.
        case paired of
          None \<Rightarrow> deny_worker v (rg_worker_key g) ''invalid pairing token.'' ''The worker pairing token is invalid.''
        | Some p \<Rightarrow>
            if w_worker_type p \<noteq> REMOTE then
              deny_worker v (rg_worker_key g) ''invalid pairing token.'' ''The worker pairing token is invalid.''
            else if (case w_pairing_expires_at p of None \<Rightarrow> False | Some t \<Rightarrow> t < rv_now v) then
              deny_worker v (w_worker_key p) ''expired pairing token.'' ''The worker pairing token has expired.''
            else returns (w_worker_key p, w_display_name p, Some p))
      else if rg_secret g \<noteq> Some (rv_secret v) then
        deny_worker v (rg_worker_key g) ''invalid registration secret.'' ''The worker registration secret is invalid.''
      else returns (rg_worker_key g, rg_display_name g, None))"

definition mapping_json :: "worker_mapping \<Rightarrow> json" where
  "mapping_json m =
     JObj [(''label'', case wm_label m of None \<Rightarrow> JNull | Some l \<Rightarrow> JStr l), (''server_path'', JStr (wm_server m)),
           (''worker_path'', JStr (wm_worker m)), (''marker_relative_path'', JStr marker_relative_path)]"

definition prepare_worker_path_mappings :: "remote_env \<Rightarrow> json option \<Rightarrow> json" where
  "prepare_worker_path_mappings v ms =
     JList (map mapping_json (normalise_path_mappings (rv_expand v) (rv_resolve v) (raw_mappings v ms)))"

definition int_or :: "json \<Rightarrow> int \<Rightarrow> int" where
  "int_or x dflt = (case x of JInt n \<Rightarrow> if n = 0 then dflt else n | _ \<Rightarrow> dflt)"

text \<open>The preferences of the paired row, or what the worker brings along.\<close>

definition registration_setup :: "remote_env \<Rightarrow> registration \<Rightarrow> string \<Rightarrow> worker option \<Rightarrow> worker_setup" where
  "registration_setup v g name paired =
     (let runtime = object_or_empty (wr_runtime (rg_report g));
          reported_backend = coerce_backend_preference (field_text v runtime ''preferred_backend'') ''cpu_only'';
          reported_scratch = py_strip (or_str (field_text v runtime ''scratch_dir'') []);
          own_scratch = (if reported_scratch = [] then None else Some reported_scratch);
          own_capacity = int_or (jget (object_or_empty (wr_capability (rg_report g))) ''max_concurrent_jobs'') 1
      in case paired of
           Some p \<Rightarrow>
             \<lparr>ws_display_name = name,
              ws_preferred_backend =
                (if w_preferred_backend p \<noteq> [] then coerce_backend_preference (Some (w_preferred_backend p)) ''cpu_only''
                 else reported_backend),
              ws_allow_cpu_fallback = w_allow_cpu_fallback p,
              ws_max_concurrent_jobs = (if w_max_concurrent_jobs p \<noteq> 0 then w_max_concurrent_jobs p else own_capacity),
              ws_schedule_windows = w_schedule_windows p, ws_path_mappings = w_path_mappings p,
              ws_scratch_path = (if truthy (w_scratch_path p) then w_scratch_path p else own_scratch),
              ws_host_metadata = None\<rparr>
         | None \<Rightarrow>
             \<lparr>ws_display_name = name, ws_preferred_backend = reported_backend,
              ws_allow_cpu_fallback = json_truthy (jget_or runtime ''allow_cpu_fallback'' (JBool True)),
              ws_max_concurrent_jobs = own_capacity, ws_schedule_windows = None,
              ws_path_mappings = Some (prepare_worker_path_mappings v (Some (jget runtime ''path_mappings''))),
              ws_scratch_path = own_scratch, ws_host_metadata = None\<rparr>)"

definition registered_runtime :: "remote_env \<Rightarrow> worker_setup \<Rightarrow> json option \<Rightarrow> json" where
  "registered_runtime v s reported =
     JObj (merge_runtime_summary_preferences reported (JStr (ws_preferred_backend s)) (ws_allow_cpu_fallback s)
       (ws_max_concurrent_jobs s)
       (JList (case ws_schedule_windows s of None \<Rightarrow> [] | Some ws \<Rightarrow> map window_json ws)) (ws_scratch_path s)
       (Some (validated_path_mappings v (ws_path_mappings s) (jget (object_or_empty reported) ''path_mappings''))))"

definition register_worker :: "remote_env \<Rightarrow> registration \<Rightarrow> worker service" where
  "register_worker v g =
     (if \<not> rg_remote g then fails (ApiConflict ''Only remote workers can use the registration endpoint.'')
      else andthen (authenticate_worker v g) (\<lambda>(key, name, paired).
        let s = registration_setup v g name paired; r = rg_report g in
        andthen (touches (\<lambda>d. register_remote_worker (rv_new_worker v d) (rv_now v) key s (rv_hash v (rv_token v))
                    (r\<lparr>wr_runtime := Some (registered_runtime v s (wr_runtime r))\<rparr>) (rv_now v) d)) (\<lambda>_.
        reads (\<lambda>d. case get_by_key d key of None \<Rightarrow> Inl (Unhandled MissingRow) | Some w \<Rightarrow> Inr w))))"

text \<open>The route commits a registration that was refused, so that the failure is kept; other errors roll back.\<close>

definition registration_request :: "remote_env \<Rightarrow> registration \<Rightarrow> db \<Rightarrow> (api_error + worker) \<times> db" where
  "registration_request v g d =
     (case register_worker v g d of
        (Inl e, d') \<Rightarrow> (Inl e, case e of ApiAuthentication _ \<Rightarrow> d' | _ \<Rightarrow> d)
      | (Inr w, d') \<Rightarrow> (Inr w, d'))"

text \<open>The worker a token belongs to (\<open>require_authenticated_worker\<close>): only a registered one is let in.\<close>

definition authenticated_worker :: "remote_env \<Rightarrow> db \<Rightarrow> string \<Rightarrow> worker option" where
  "authenticated_worker v d token =
     (case find (\<lambda>w. w_auth_token_hash w = Some (rv_hash v token)) (db_workers d) of
        None \<Rightarrow> None
      | Some w \<Rightarrow> if w_worker_type w = REMOTE \<and> w_enabled w \<and> w_registration_status w = WR_REGISTERED then Some w else None)"

subsection \<open>Workers follow the automaton of the job table\<close>

text \<open>The job a report is about.\<close>

definition holds_job :: "worker \<Rightarrow> row_id \<Rightarrow> db \<Rightarrow> job \<Rightarrow> bool" where
  "holds_job w i d j \<longleftrightarrow> find_job d i = Some j \<and> j_status j = JS_RUNNING \<and> j_assigned_worker_id j = Some (w_id w)"

lemma reported_job_run:
  "reported_job w i m d =
     (case find_job d i of
        None \<Rightarrow> Inl (ApiNotFound ''Job could not be found.'')
      | Some j \<Rightarrow> if j_assigned_worker_id j \<noteq> Some (w_id w) then Inl (ApiConflict ''Job is not assigned to this worker.'')
                  else if j_status j \<noteq> JS_RUNNING then Inl (ApiConflict m) else Inr j, d)"
  by (simp add: reported_job_def andthen_def get_job_def reads_def require_def returns_def split: option.split)

lemma reported_job_Inr: "reported_job w i m d = (Inr j, d') \<longleftrightarrow> d' = d \<and> holds_job w i d j"
  by (auto simp: reported_job_run holds_job_def split: option.splits if_splits)

lemma serve_reported_job: "serves anywhere (reported_job w i m) (\<lambda>j d. holds_job w i d j)"
  by (rule servesI) (auto simp: reported_job_run holds_job_def edits_none split: option.splits if_splits)

definition failed_row :: "row_id \<Rightarrow> full_result \<Rightarrow> db \<Rightarrow> bool" where
  "failed_row i r d \<longleftrightarrow> (er_status r = ''failed'' \<longrightarrow> (\<exists>j. find_job d i = Some j \<and> j_status j = JS_FAILED))"

lemma failed_row_cong: "db_jobs d' = db_jobs d \<Longrightarrow> failed_row i r d' = failed_row i r d"
  by (simp add: failed_row_def find_job_def)

lemma failed_row_write:
  assumes "write_job now i f d = Inr d'" "well_keyed d" "\<And>j. j_id (f j) = j_id j"
    and "\<And>j. find_job d i = Some j \<Longrightarrow> er_status r = ''failed'' \<Longrightarrow> j_status (f j) = JS_FAILED"
  shows "failed_row i r d'"
proof -
  obtain j where j: "find_job d i = Some j" using assms(1) by (auto simp: write_job_def on_job_Inr)
  from write_job_Inr [OF assms(1-3)] have "db_jobs d' = rewrite_jobs now {i} f (db_jobs d)" by simp
  then have "find_job d' i = Some (stamped now f j)"
    using j find_rewrite [where f = f and I = "{i}" and i = i, OF assms(3)] by (simp add: find_job_def)
  then show ?thesis using assms(4) [OF j] by (simp add: failed_row_def stamped_fields)
qed

lemma sign_row: "row_step j (sign_result w j)" "j_id (sign_result w j) = j_id j" "j_status (sign_result w j) = j_status j"
proof -
  show "row_step j (sign_result w j)" by (rule note_row) (simp_all add: sign_result_def same_job_def same_control_def)
qed (simp_all add: sign_result_def)

lemma serve_mark_remote:
  "serves (\<lambda>d. \<exists>j. holds_job w i d j) (writes (mark_result dv dr now i r)) (\<lambda>_. failed_row i r)"
proof (rule serves_writes)
  fix d d' assume d: "db_ok d" "\<exists>j. holds_job w i d j" "mark_result dv dr now i r d = Inr d'"
  then have wk: "well_keyed d" by (simp add: db_ok_def)
  obtain st where st: "status_of_result (er_status r) = Some st" "write_job now i (with_result dv dr st r) d = Inr d'"
    using d(3) by (auto simp: mark_result_def split: option.splits)
  have "failed_row i r d'"
    by (rule failed_row_write [where f = "with_result dv dr st r", OF st(2) wk])
       (use st(1) in \<open>auto simp: status_of_result_def\<close>)
  then show "edits (db_jobs d) (db_jobs d') \<and> failed_row i r d'"
    using mark_result_edits [OF wk d(3)] d(2) by (auto simp: holds_job_def)
qed

lemma serve_sign: "serves (failed_row i r) (writes (write_job now i (sign_result w))) (\<lambda>_. failed_row i r)"
proof (rule serves_writes)
  fix d d' assume d: "db_ok d" "failed_row i r d" "write_job now i (sign_result w) d = Inr d'"
  then have wk: "well_keyed d" by (simp add: db_ok_def)
  have "failed_row i r d'"
    by (rule failed_row_write [where f = "sign_result w", OF d(3) wk]) (use d(2) in \<open>auto simp: sign_row failed_row_def\<close>)
  then show "edits (db_jobs d) (db_jobs d') \<and> failed_row i r d'"
    using write_edits [where f = "sign_result w", OF wk d(3) sign_row(1)] by simp
qed

lemma serve_retry_automatically:
  assumes "fresh_keys s"
  shows "serves (failed_row i r) (retry_automatically s i r) (\<lambda>_. anywhere)"
  unfolding retry_automatically_def
proof (rule serves_writes)
  fix d d' assume d: "db_ok d" "failed_row i r d"
    and run: "map_sum id fst (apply_automatic_retry_policy (sv_new_job s d) (sv_now s) (sv_tz s) i r d) = Inr d'"
  then obtain x where x: "apply_automatic_retry_policy (sv_new_job s d) (sv_now s) (sv_tz s) i r d = Inr (d', x)"
    by (auto simp: map_sum_Inr)
  show "edits (db_jobs d) (db_jobs d') \<and> True"
  proof (cases "er_status r = ''failed''")
    case True
    have wk: "well_keyed d" and fresh: "sv_new_job s d \<notin> j_id ` set (db_jobs d)"
      using d(1) assms by (auto simp: db_ok_def fresh_keys_def)
    have "j_status j \<notin> {JS_PENDING, JS_SCHEDULED, JS_COMPLETED} \<and> 0 \<le> j_attempt_count j" if "find_job d i = Some j" for j
      using d that True find_job_Some [OF that] by (auto simp: failed_row_def db_ok_def row_ok_def order_ok_def)
    from retry_policy_edits [OF wk fresh x this] show ?thesis by simp
  next
    case False
    then have "d' = d" using x by (auto simp: apply_automatic_retry_policy_def on_job_def split: option.splits)
    then show ?thesis by (simp add: edits_none)
  qed
qed

lemma serve_settle_failed: "serves (failed_row i r) (settle_file_by_result v i r) (\<lambda>_. failed_row i r)"
proof (rule servesI)
  fix d q d' assume "failed_row i r d" "settle_file_by_result v i r d = (q, d')"
  then show "edits (db_jobs d) (db_jobs d') \<and> (\<forall>x. q = Inr x \<longrightarrow> failed_row i r d')"
    using settle_by_result_jobs [of v i r d] failed_row_cong [of d' d] by (simp add: edits_none)
qed

lemma serve_store_remote:
  assumes "fresh_keys (rv_service v)" "j_id j = i"
  shows "serves (\<lambda>d. holds_job w i d j) (store_remote_result v w j r) (\<lambda>_. anywhere)"
  unfolding store_remote_result_def Let_def assms(2)
proof (rule serves_andthen, rule serves_weaken [OF serve_mark_remote], blast, assumption, rule serves_andthen [OF serve_sign], rule serves_if)
  show "serves (failed_row i r) (settle_file_by_plan (rv_service v) i) (\<lambda>_. anywhere)"
    by (rule serves_weaken [OF serve_settle_by_plan]) simp_all
  show "serves (failed_row i r) (andthen (settle_file_by_result (rv_service v) i r)
      (\<lambda>_. retry_automatically (rv_service v) i r)) (\<lambda>_. anywhere)"
    by (rule serves_andthen [OF serve_settle_failed serve_retry_automatically [OF assms(1)]])
qed

lemma keep_runtime_jobs: "db_jobs (snd (keep_runtime_summary v w report d)) = db_jobs d"
  by (simp add: keep_runtime_summary_def touches_def put_worker_def split: option.split)

lemma serve_keep_runtime: "serves anywhere (keep_runtime_summary v w report) (\<lambda>_. anywhere)"
  unfolding keep_runtime_summary_def by (rule serves_touches) (auto simp: put_worker_def split: option.split)

lemma serve_after_report:
  assumes "\<And>j. j_id j = i \<Longrightarrow> serves (\<lambda>d. holds_job w i d j) (f j) (\<lambda>_. anywhere)"
  shows "serves anywhere (andthen (reported_job w i m) (\<lambda>j. andthen (f j) (\<lambda>_. andthen (keep_runtime_summary v w report) (\<lambda>_. get_job i))))
    (\<lambda>_. anywhere)"
proof (rule serves_andthen [OF serve_reported_job])
  fix j
  show "serves (\<lambda>d. holds_job w i d j) (andthen (f j) (\<lambda>_. andthen (keep_runtime_summary v w report) (\<lambda>_. get_job i))) (\<lambda>_. anywhere)"
  proof (cases "j_id j = i")
    case True
    show ?thesis
      by (rule serves_andthen [OF assms [OF True]], rule serves_andthen [OF serve_keep_runtime])
         (rule serves_weaken [OF serve_found_job], simp_all)
  next
    case False
    then show ?thesis using find_job_Some by (auto simp: serves_def holds_job_def)
  qed
qed

lemma serve_submit: "fresh_keys (rv_service v) \<Longrightarrow> serves anywhere (submit_job_result v w i r report) (\<lambda>_. anywhere)"
  unfolding submit_job_result_def by (rule serve_after_report) (rule serve_store_remote)

lemma serve_failure: "fresh_keys (rv_service v) \<Longrightarrow> serves anywhere (report_job_failure v w i m c report) (\<lambda>_. anywhere)"
  unfolding report_job_failure_def by (rule serve_after_report) (rule serve_store_remote)

lemma serve_progress: "serves anywhere (report_job_progress v w i u report) (\<lambda>_. anywhere)"
  unfolding report_job_progress_def
  by (rule serves_andthen [OF serves_weaken [OF serve_reported_job]], simp, rule TrueI, rule serves_andthen [OF serves_writes],
      simp add: db_ok_def record_progress_edits, rule serves_andthen [OF serve_keep_runtime],
      rule serves_andthen [OF serves_weaken [OF serve_found_job]], simp, rule TrueI, rule serves_returns, simp)

lemma serve_heartbeat: "serves anywhere (heartbeat v w r) (\<lambda>_. anywhere)"
  unfolding heartbeat_def by (rule serves_touches) (auto simp: put_worker_def)

lemma serve_claim_row: "serves anywhere (claim_row v w j) (\<lambda>_. anywhere)"
  by (rule servesI) (auto simp: claim_row_def db_ok_def edits_none dest: claim_edits split: sum.splits option.splits prod.splits)

lemma serve_ensure: "serves P (ensure_remote_worker_can_execute w) (\<lambda>_. P)"
  unfolding ensure_remote_worker_can_execute_def by (auto intro: serves_returns serves_fails split: option.split)

lemma serve_claim: "serves anywhere (claim_job v w i) (\<lambda>_. anywhere)"
  unfolding claim_job_def
  by (intro serves_andthen [OF serve_ensure] serves_andthen [OF serves_weaken [OF serve_found_job]]
      serves_andthen [OF serves_require] serves_andthen [OF serves_reads] serves_weaken [OF serve_claim_row]) simp_all

lemma serve_request: "serves anywhere (request_job v w) (\<lambda>_. anywhere)"
  unfolding request_job_def by (rule serves_andthen [OF serve_ensure], rule serves_reads) simp

subsection \<open>Reports\<close>

definition refused :: "(api_error + 'a) \<times> db \<Rightarrow> db \<Rightarrow> bool" where
  "refused out d \<longleftrightarrow> snd out = d \<and> (\<exists>m. fst out = Inl (ApiNotFound m) \<or> fst out = Inl (ApiConflict m))"

lemma reported_job_refused: "\<nexists>j. holds_job w i d j \<Longrightarrow> refused (andthen (reported_job w i m) f d) d"
  by (auto simp: refused_def andthen_def reported_job_run holds_job_def split: option.splits)

text \<open>C17: A worker reports only on a running job it holds: any other result, failure or progress report is
  answered with an error and leaves the database as it is.\<close>

theorem only_holder_reports:
  assumes "\<nexists>j. find_job d i = Some j \<and> j_status j = JS_RUNNING \<and> j_assigned_worker_id j = Some (w_id w)"
  shows "refused (submit_job_result v w i r report d) d \<and> refused (report_job_failure v w i m c report d) d \<and>
    refused (report_job_progress v w i u report d) d"
  unfolding submit_job_result_def report_job_failure_def report_job_progress_def
  using assms by (intro conjI reported_job_refused) (simp_all add: holds_job_def)

subsection \<open>Paths of results\<close>

lemma validated_in_roots:
  assumes "validate_path_under_roots expand resolve roots label p = Inr x"
  shows "set_option x \<subseteq> {q. \<exists>a\<in>set roots. under_root q (resolve (expand a))}"
  using assms by (auto simp: validate_path_under_roots_def Let_def list_ex_iff split: option.splits if_splits)

definition in_roots :: "remote_env \<Rightarrow> path list \<Rightarrow> path set" where
  "in_roots v roots = {q. \<exists>a\<in>set roots. under_root q (rv_resolve v (rv_expand v a))}"

definition trusted_replacement :: "remote_env \<Rightarrow> path_roots \<Rightarrow> replacement_result \<Rightarrow> bool" where
  "trusted_replacement v roots rep \<longleftrightarrow>
     set_option (rr_final_output_path rep) \<subseteq> in_roots v (pr_media roots) \<and>
     set_option (rr_original_backup_path rep) \<subseteq> in_roots v (pr_backup roots) \<and>
     set (path_strings_fields (rr_details rep)) \<subseteq> as_posix ` in_roots v (payload_roots (rv_expand v) (rv_resolve v) roots)"

lemma normalised_replacement_trusted:
  assumes "normalise_replacement_paths v w rep = Inr rep'"
  shows "trusted_replacement v (worker_roots v w) rep'"
proof -
  let ?e = "rv_expand v" and ?s = "rv_resolve v" and ?r = "worker_roots v w"
  let ?kvs = "remap_fields ?e ?s (raw_mappings v (w_path_mappings w)) (rr_details rep)"
  obtain details final backup where
      d: "validate_payload ?e ?s (payload_roots ?e ?s ?r) False ''replacement.details'' (JObj ?kvs) = Inr details"
    and f: "validate_final_output_path ?e ?s ?r ''replacement.final_output_path'' (server_path v w (rr_final_output_path rep)) = Inr final"
    and b: "validate_backup_path ?e ?s ?r ''replacement.original_backup_path'' (server_path v w (rr_original_backup_path rep)) = Inr backup"
    and rep': "rep' = rep\<lparr>rr_final_output_path := final, rr_original_backup_path := backup, rr_details := json_object details\<rparr>"
    using assms by (auto simp: normalise_replacement_paths_def validate_replacement_payload_paths_def Let_def split: sum.splits)
  obtain kvs where kvs: "details = JObj kvs" "validate_fields ?e ?s (payload_roots ?e ?s ?r) ''replacement.details'' ?kvs = Inr kvs"
    using d by (auto simp: map_sum_Inr)
  have "set (path_strings_fields kvs) \<subseteq> as_posix ` in_roots v (payload_roots ?e ?s ?r)"
    using kvs(2) validate_payload_spec(3) [of ?e ?s "payload_roots ?e ?s ?r" "''replacement.details''" ?kvs]
    by (fastforce simp: acceptable_def in_roots_def)
  then show ?thesis
    using validated_in_roots f b
    unfolding trusted_replacement_def rep' kvs(1) validate_final_output_path_def validate_backup_path_def in_roots_def json_object_def
    by (simp add: subset_iff)
qed

lemma normalised_result_trusted:
  assumes "normalise_remote_execution_result_paths v w r = Inr r'"
  shows "set_option (er_output_path r') \<subseteq> in_roots v (output_roots (rv_expand v) (rv_resolve v) (worker_roots v w)) \<and>
    set_option (er_final_output_path r') \<subseteq> in_roots v (pr_media (worker_roots v w)) \<and>
    set_option (er_original_backup_path r') \<subseteq> in_roots v (pr_backup (worker_roots v w)) \<and>
    set_option (er_replacement r') \<subseteq> {rep. trusted_replacement v (worker_roots v w) rep}"
  using assms validated_in_roots normalised_replacement_trusted
  unfolding normalise_remote_execution_result_paths_def validate_output_path_def validate_final_output_path_def
    validate_backup_path_def in_roots_def Let_def
  by (auto simp: map_sum_Inr split: sum.splits option.splits) blast+


subsection \<open>The plan a worker gets\<close>

text \<open>A remote worker is sent the plan the local worker would execute: the backup policy of the job decides
  about the replaced source in both places in the same way.\<close>

theorem remote_plan_is_local_plan: "plan_payload_for_job j p = apply_job_backup_policy p j"
  by (simp add: plan_payload_for_job_def apply_job_backup_policy_def Let_def)

subsection \<open>An offer can be taken up\<close>

lemma compatible_jobs_in:
  "compatible_jobs v d w js = Inr out \<Longrightarrow> set out = {j \<in> set js. compatible_job v d w j = Inr True}"
proof (induction js arbitrary: out)
  case (Cons j js)
  then show ?case by (auto simp: map_sum_Inr split: sum.splits if_splits)
qed simp

lemma find_SomeD: "find P xs = Some x \<Longrightarrow> x \<in> set xs \<and> P x"
  by (auto simp: find_Some_iff)

lemma offered_job_in:
  assumes "offered_job active w js = Some j"
  shows "j \<in> set js" "j_assigned_worker_id j \<in> {None, Some (w_id w)}" "int active < max 1 (w_max_concurrent_jobs w)"
  using assms find_SomeD [of _ js] by (auto simp: offered_job_def Let_def split: option.splits if_splits)

lemma polled_job:
  assumes "j \<in> set (fetch_next_pending_remote_jobs nf wid n d)"
  shows "j \<in> set (db_jobs d)" "j_status j = JS_PENDING" "j_cleared_at j = None" "j_assigned_worker_id j \<in> {None, Some wid}"
  using assms by (auto simp: fetch_next_pending_remote_jobs_def in_queue_order_def Let_def dest!: in_set_takeD split: if_splits)

lemma compatible_job_True:
  "compatible_job v d w j = Inr True \<longleftrightarrow> job_open_to_worker v d w j = Inr True \<and> job_runs_on_worker v d w j = Inr True"
  by (auto simp: compatible_job_def split: sum.splits if_splits)

lemma request_job_run:
  "request_job v w d =
     (case remote_worker_block w of
        Some m \<Rightarrow> Inl (ApiConflict m)
      | None \<Rightarrow> map_sum id (\<lambda>js. Option.bind (offered_job (count_active_assignments_for_worker (w_id w) d) w js)
                    (build_remote_job_payload v d w))
          (compatible_jobs v d w (fetch_next_pending_remote_jobs (rv_nulls_first v) (w_id w) remote_poll_limit d)), d)"
  by (simp add: request_job_def ensure_remote_worker_can_execute_def andthen_def returns_def fails_def reads_def split: option.split)

lemma request_job_Inr:
  assumes "request_job v w d = (Inr (Some o'), d')"
  obtains j where "d' = d" "remote_worker_block w = None" "rj_job_id o' = j_id j" "j \<in> set (db_jobs d)"
    "claimable w j" "compatible_job v d w j = Inr True"
    "int (count_active_assignments_for_worker (w_id w) d) < max 1 (w_max_concurrent_jobs w)"
proof -
  let ?n = "count_active_assignments_for_worker (w_id w) d"
  let ?q = "fetch_next_pending_remote_jobs (rv_nulls_first v) (w_id w) remote_poll_limit d"
  have blk: "remote_worker_block w = None" and d': "d' = d"
    and sum: "map_sum id (\<lambda>js. Option.bind (offered_job ?n w js) (build_remote_job_payload v d w))
        (compatible_jobs v d w ?q) = Inr (Some o')"
    using assms unfolding request_job_run by (auto split: option.splits)
  obtain js where js0: "compatible_jobs v d w ?q = Inr js"
      "Option.bind (offered_job ?n w js) (build_remote_job_payload v d w) = Some o'"
    using iffD1 [OF map_sum_Inr sum] by (elim exE conjE) (rule that, assumption, rule sym, assumption)
  obtain j where js: "compatible_jobs v d w ?q = Inr js" "offered_job ?n w js = Some j"
      "build_remote_job_payload v d w j = Some o'"
    using iffD1 [OF bind_eq_Some_conv js0(2)] js0(1) by (elim exE conjE) (rule that)
  note o = offered_job_in [OF js(2)]
  have j: "j \<in> set ?q" "compatible_job v d w j = Inr True" using o(1) compatible_jobs_in [OF js(1)] by auto
  have "claimable w j" using polled_job [OF j(1)] by (simp add: claimable_def)
  moreover have "rj_job_id o' = j_id j" using js(3) by (auto simp: build_remote_job_payload_def split: option.splits)
  ultimately show ?thesis using that d' blk polled_job(1) [OF j(1)] j(2) o(3) by blast
qed

lemma claim_job_succeeds:
  assumes "well_keyed d" "j \<in> set (db_jobs d)" "remote_worker_block w = None" "claimable w j"
    "compatible_job v d w j = Inr True" "int (count_active_assignments_for_worker (w_id w) d) < max 1 (w_max_concurrent_jobs w)"
  shows "\<exists>k d'. claim_job v w (j_id j) d = (Inr k, d') \<and> holds_job w (j_id j) d' k \<and>
    count_active_assignments_for_worker (w_id w) d' = Suc (count_active_assignments_for_worker (w_id w) d)"
proof -
  have f: "find_job d (j_id j) = Some j" by (rule find_job_unique [OF assms(1,2)])
  obtain d' k where c: "claim_pending_for_worker (rv_now v) (j_id j) w (requested_backend w j) (max 1 (w_max_concurrent_jobs w)) d = Inr (d', Some k)"
      "find_job d' (j_id j) = Some k" "j_status k = JS_RUNNING" "j_assigned_worker_id k = Some (w_id w)"
      "count_active_assignments_for_worker (w_id w) d' = Suc (count_active_assignments_for_worker (w_id w) d)"
    using claim_spec [OF assms(1), of "rv_now v" "j_id j" w "requested_backend w j" "max 1 (w_max_concurrent_jobs w)"] f assms(4,6)
    by auto
  have "claim_job v w (j_id j) d = (Inr k, d')"
    using assms(3-5) f c(1)
    by (simp add: claim_job_def ensure_remote_worker_can_execute_def andthen_def returns_def get_job_def reads_def require_def
        compatible_job_True claimable_def claim_row_def)
  then show ?thesis using c by (auto simp: holds_job_def)
qed

text \<open>C28: A job a worker is offered can be claimed by it: if nothing happened in between, the claim succeeds,
  and the worker then holds the job.\<close>

theorem offered_job_can_be_claimed:
  assumes "well_keyed d" "request_job v w d = (Inr (Some offer), d0)"
  shows "\<exists>k d'. claim_job v w (rj_job_id offer) d0 = (Inr k, d') \<and> j_status k = JS_RUNNING \<and>
    j_assigned_worker_id k = Some (w_id w) \<and> find_job d' (rj_job_id offer) = Some k \<and>
    count_active_assignments_for_worker (w_id w) d' = Suc (count_active_assignments_for_worker (w_id w) d)"
proof -
  obtain j where j: "d0 = d" "remote_worker_block w = None" "rj_job_id offer = j_id j" "j \<in> set (db_jobs d)"
    "claimable w j" "compatible_job v d w j = Inr True"
    "int (count_active_assignments_for_worker (w_id w) d) < max 1 (w_max_concurrent_jobs w)"
    by (rule request_job_Inr [OF assms(2)])
  show ?thesis
    using claim_job_succeeds [OF assms(1) j(4,2,5,6,7)] unfolding j(1,3) holds_job_def by metis
qed

subsection \<open>Jobs behind the window of a poll\<close>

text \<open>A poll reads only the 25 oldest pending jobs that are free or assigned to the worker. If each of them is
  pinned to another worker, nothing is offered, whatever waits behind them.\<close>

theorem poll_sees_only_the_oldest:
  assumes "remote_worker_block w = None"
    "\<forall>j\<in>set (fetch_next_pending_remote_jobs (rv_nulls_first v) (w_id w) remote_poll_limit d).
       j_pinned_worker_id j \<noteq> None \<and> j_pinned_worker_id j \<noteq> Some (w_id w)"
  shows "request_job v w d = (Inr None, d)"
proof -
  have "compatible_jobs v d w js = Inr []"
    if "\<forall>j\<in>set js. j_pinned_worker_id j \<noteq> None \<and> j_pinned_worker_id j \<noteq> Some (w_id w)" for js
    using that
    by (induction js) (auto simp: compatible_job_def job_open_to_worker_def job_allows_worker_def)
  from this [OF assms(2)] assms(1) show ?thesis
    by (simp add: request_job_def ensure_remote_worker_can_execute_def andthen_def returns_def reads_def offered_job_def)
qed

subsection \<open>What a worker says of its mappings\<close>

lemma clean_lookup:
  "map_of (clean_runtime_summary p) k = map_option (jget_or (object_or_empty p) k) (map_of runtime_summary_defaults k)"
proof -
  have "map_of (map (\<lambda>(k, dflt). (k, g k dflt)) kvs) k = map_option (g k) (map_of kvs k)"
    for g :: "string \<Rightarrow> json \<Rightarrow> json" and kvs by (induction kvs) auto
  then show ?thesis by (simp add: clean_runtime_summary_def)
qed

lemma mappings_default: "map_of runtime_summary_defaults ''path_mappings'' = Some (JList [])"
  by (simp add: runtime_summary_defaults_def)

lemma merged_mappings:
  "map_of (merge_runtime_summary_preferences reported preferred allow capacity windows scratch (Some x)) ''path_mappings'' = Some x"
  by (simp add: merge_runtime_summary_preferences_def clean_lookup mappings_default object_or_empty_def jget_or_def update_conv' Let_def)

lemma stored_mappings:
  "json_items (jget (clean_runtime_summary (Some (runtime_payload_for_worker v w reported))) ''path_mappings'') =
     map (validated_mapping v (json_items (jget (object_or_empty reported) ''path_mappings'')))
       (normalise_path_mappings (rv_expand v) (rv_resolve v) (raw_mappings v (w_path_mappings w)))"
  by (simp add: jget_def [of "clean_runtime_summary _"] clean_lookup mappings_default object_or_empty_def runtime_payload_for_worker_def
      merged_mappings jget_or_def validated_path_mappings_def json_items_def)

lemma reported_mapping_in:
  assumes "reported_mapping v xs wp \<noteq> []"
  shows "\<exists>x\<in>set xs. reported_mapping v xs wp = json_object x"
proof -
  obtain d where d: "map_of (rev (List.map_filter (\<lambda>i. map_option (\<lambda>t. (t, json_object i))
      (field_text v (json_object i) ''worker_path'')) xs)) wp = Some d" "reported_mapping v xs wp = d"
    using assms by (auto simp: reported_mapping_def split: option.splits)
  from map_of_SomeD [OF d(1)] d(2) show ?thesis by (auto simp: List.map_filter_def split: option.splits)
qed

text \<open>
  A worker validates its mappings and reports the outcome under \<open>validation_status\<close>; the request schema
  keeps that key and no other. The server looks the outcome up under \<open>status\<close>, so it never finds it and
  stores the status of its own marker file instead: a mapping the worker found broken counts as usable, and
  the check of \<open>_remote_worker_can_run_job\<close> never rejects the worker.
\<close>

theorem broken_mapping_counts_as_usable:
  assumes "w_runtime_payload w = Some (runtime_payload_for_worker v w0 reported)"
    and "\<forall>x\<in>set (json_items (jget (object_or_empty reported) ''path_mappings'')). ''status'' \<notin> fst ` set (json_object x)"
    and "\<forall>p. rv_marker_error v p = None"
  shows "\<not> list_ex unvalidated_mapping (json_items (jget (clean_runtime_summary (w_runtime_payload w)) ''path_mappings''))"
proof -
  let ?xs = "json_items (jget (object_or_empty reported) ''path_mappings'')"
  have no: "map_of (reported_mapping v ?xs wp) ''status'' = None" for wp
  proof (cases "reported_mapping v ?xs wp = []")
    case False
    then obtain x where x: "x \<in> set ?xs" "reported_mapping v ?xs wp = json_object x" using reported_mapping_in by blast
    show ?thesis unfolding x(2) map_of_eq_None_iff using assms(2) x(1) by (rule bspec)
  qed simp
  have "\<not> unvalidated_mapping (validated_mapping v ?xs m)" for m
    using no [of "wm_worker m"] assms(3)
    by (simp add: unvalidated_mapping_def validated_mapping_def json_object_def jget_or_def jget_def ensure_mapping_marker_def Let_def)
  then show ?thesis unfolding assms(1) stored_mappings by (simp add: list_ex_iff)
qed

subsection \<open>Registration\<close>

lemma deny_worker_run: "deny_worker v key reason m d = (Inl (ApiAuthentication m), mark_auth_failed (rv_now v) key reason (rv_now v) d)"
  by (simp add: deny_worker_def andthen_def touches_def fails_def)

definition presents_credentials :: "remote_env \<Rightarrow> db \<Rightarrow> registration \<Rightarrow> bool" where
  "presents_credentials v d g \<longleftrightarrow>
     (if truthy (rg_pairing_token g) then
        (\<exists>p. get_by_pairing_token_hash d (rv_hash v (or_str (rg_pairing_token g) [])) = Some p \<and> w_worker_type p = REMOTE \<and>
           (\<forall>t. w_pairing_expires_at p = Some t \<longrightarrow> rv_now v \<le> t))
      else rg_secret g = Some (rv_secret v))"

definition denied_key :: "remote_env \<Rightarrow> db \<Rightarrow> registration \<Rightarrow> string" where
  "denied_key v d g =
     (case get_by_pairing_token_hash d (rv_hash v (or_str (rg_pairing_token g) [])) of
        None \<Rightarrow> rg_worker_key g
      | Some p \<Rightarrow> if truthy (rg_pairing_token g) \<and> w_worker_type p = REMOTE then w_worker_key p else rg_worker_key g)"

lemma authenticate_cases:
  "if presents_credentials v d g then \<exists>key name paired. authenticate_worker v g d = (Inr (key, name, paired), d)
   else \<exists>m reason. authenticate_worker v g d =
      (Inl (ApiAuthentication m), mark_auth_failed (rv_now v) (denied_key v d g) reason (rv_now v) d)"
  by (auto simp: authenticate_worker_def presents_credentials_def denied_key_def deny_worker_run andthen_def reads_def returns_def
      not_less split: option.splits)

lemma put_worker_other: "x \<in> set (db_workers d) \<Longrightarrow> w_id x \<noteq> w_id w \<Longrightarrow> x \<in> set (db_workers (put_worker now w d))"
  by (force simp: put_worker_def)

lemma put_worker_in:
  assumes "w \<in> set (db_workers d)" "w_id x = w_id w"
  shows "\<exists>y\<in>set (db_workers (put_worker now x d)). w_worker_key y = w_worker_key x"
proof -
  let ?y = "if w_id w = w_id x \<and> w \<noteq> x then x\<lparr>w_updated_at := now\<rparr> else w"
  have "?y \<in> (\<lambda>r. if w_id r = w_id x \<and> r \<noteq> x then x\<lparr>w_updated_at := now\<rparr> else r) ` set (db_workers d)"
    by (rule image_eqI [OF refl assms(1)])
  then have "?y \<in> set (db_workers (put_worker now x d))" by (simp add: put_worker_def)
  moreover have "w_worker_key ?y = w_worker_key x" using assms(2) by (cases "w = x") simp_all
  ultimately show ?thesis by (rule bexI [rotated])
qed

lemma registered_id [simp]: "w_id (registered s token r stamp w) = w_id w" "w_worker_key (registered s token r stamp w) = w_worker_key w"
  by (simp_all add: registered_def)

lemma registered_found: "get_by_key (register_remote_worker i now key s token r stamp d) key \<noteq> None"
proof (cases "get_by_key d key")
  case None
  have "w_worker_key (registered s token r stamp (blank_worker i key (ws_display_name s) REMOTE now)) = key"
    by (simp add: blank_worker_def)
  then have "\<exists>x\<in>set (db_workers (register_remote_worker i now key s token r stamp d)). w_worker_key x = key"
    by (simp add: register_remote_worker_def None)
  then show ?thesis by (auto simp: get_by_key_def find_None_iff)
next
  case (Some w)
  then have w: "w \<in> set (db_workers d)" "w_worker_key w = key" by (auto simp: get_by_key_def find_Some_iff)
  let ?w = "registered s token r stamp w"
  have "\<exists>x\<in>set (db_workers (put_worker now ?w d)). w_worker_key x = key"
    using put_worker_in [OF w(1), of ?w now] w(2) by simp
  moreover have "register_remote_worker i now key s token r stamp d = put_worker now ?w d"
    by (simp add: register_remote_worker_def Some)
  ultimately have "\<exists>x\<in>set (db_workers (register_remote_worker i now key s token r stamp d)). w_worker_key x = key" by simp
  then show ?thesis by (auto simp: get_by_key_def find_None_iff)
qed

text \<open>C33: A registration that is accepted presented the secret, or the token of a remote worker that waits to be
  paired and has not expired; it changes the row of one worker only. A registration without credentials is
  answered as unauthenticated.\<close>

theorem registration_needs_credentials:
  assumes "rg_remote g"
  shows "if presents_credentials v d g
    then \<exists>key s r. snd (registration_request v g d) =
        register_remote_worker (rv_new_worker v d) (rv_now v) key s (rv_hash v (rv_token v)) r (rv_now v) d \<and>
      (\<forall>x\<in>set (db_workers d). (\<forall>y. get_by_key d key = Some y \<longrightarrow> w_id x \<noteq> w_id y) \<longrightarrow>
         x \<in> set (db_workers (snd (registration_request v g d))))
    else \<exists>m. fst (registration_request v g d) = Inl (ApiAuthentication m)"
proof -
  have auth: "if presents_credentials v d g then \<exists>key name paired. authenticate_worker v g d = (Inr (key, name, paired), d)
     else \<exists>m reason. authenticate_worker v g d =
      (Inl (ApiAuthentication m), mark_auth_failed (rv_now v) (denied_key v d g) reason (rv_now v) d)"
    by (rule authenticate_cases)
  show ?thesis
  proof (cases "presents_credentials v d g")
    case False
    then show ?thesis using auth assms by (auto simp: registration_request_def register_worker_def andthen_def)
  next
    case True
    then obtain key name paired where a: "authenticate_worker v g d = (Inr (key, name, paired), d)" using auth by auto
    let ?s = "registration_setup v g name paired"
    let ?r = "(rg_report g)\<lparr>wr_runtime := Some (registered_runtime v ?s (wr_runtime (rg_report g)))\<rparr>"
    let ?d' = "register_remote_worker (rv_new_worker v d) (rv_now v) key ?s (rv_hash v (rv_token v)) ?r (rv_now v) d"
    have found: "get_by_key ?d' key \<noteq> None" by (rule registered_found)
    then obtain wk where wk: "get_by_key ?d' key = Some wk" by blast
    have "snd (registration_request v g d) = ?d'"
      by (simp add: registration_request_def register_worker_def andthen_def touches_def reads_def Let_def a assms wk)
    note snd = this
    have keep: "x \<in> set (db_workers ?d')"
      if "x \<in> set (db_workers d)" "\<forall>y. get_by_key d key = Some y \<longrightarrow> w_id x \<noteq> w_id y" for x
      using that by (auto simp: register_remote_worker_def intro!: put_worker_other split: option.split)
    show ?thesis using True snd keep by auto
  qed
qed

lemma find_map_keep: "(\<And>x. x \<in> set xs \<Longrightarrow> P (f x) = P x) \<Longrightarrow> find P (map f xs) = map_option f (find P xs)"
  by (induction xs) auto

lemma auth_failed_fields [simp]:
  "w_id (auth_failed r t w) = w_id w" "w_auth_token_hash (auth_failed r t w) = w_auth_token_hash w"
  "w_registration_status (auth_failed r t w) = WR_UNKNOWN"
  by (simp_all add: auth_failed_def)

lemma authenticated_after_failure:
  assumes "distinct (map w_id (db_workers d))" "authenticated_worker v d token = Some w"
  shows "authenticated_worker v (put_worker now (auth_failed reason stamp w) d) token = None"
proof -
  let ?A = "auth_failed reason stamp w" and ?P = "\<lambda>x. w_auth_token_hash x = Some (rv_hash v token)"
  let ?f = "\<lambda>r. if w_id r = w_id ?A \<and> r \<noteq> ?A then ?A\<lparr>w_updated_at := now\<rparr> else r"
  have fw: "find ?P (db_workers d) = Some w" using assms(2) by (auto simp: authenticated_worker_def split: option.splits if_splits)
  then have w: "w \<in> set (db_workers d)" "?P w" by (auto simp: find_Some_iff)
  have "?P (?f r) = ?P r" if "r \<in> set (db_workers d)" for r
  proof (cases "w_id r = w_id w")
    case True
    then have "r = w" using assms(1) that w(1) by (auto simp: distinct_map inj_on_def)
    then show ?thesis using w(2) by simp
  qed simp
  from find_map_keep [of "db_workers d" ?P ?f, OF this] fw
  have "find ?P (db_workers (put_worker now ?A d)) = Some (?f w)" by (simp add: put_worker_def)
  moreover have "w_registration_status (?f w) = WR_UNKNOWN"
    by (cases "w = ?A") (metis auth_failed_fields(3), simp)
  ultimately show ?thesis by (simp add: authenticated_worker_def)
qed

text \<open>
  Anyone can lock a worker out. A registration that presents no secret and no pairing token, only the key of
  a worker that is registered, is refused, but the refusal marks that worker as failed and the route keeps the
  mark. From then on the worker's own token is not accepted any more.
\<close>

theorem refused_registration_locks_worker_out:
  assumes "distinct (map w_id (db_workers d))" "rg_remote g" "\<not> truthy (rg_pairing_token g)"
    and "rg_secret g \<noteq> Some (rv_secret v)" "get_by_key d (rg_worker_key g) = Some w"
    and "authenticated_worker v d token = Some w"
  shows "fst (registration_request v g d) = Inl (ApiAuthentication ''The worker registration secret is invalid.'') \<and>
    authenticated_worker v (snd (registration_request v g d)) token = None"
proof -
  have "w_worker_type w = REMOTE" using assms(6) by (auto simp: authenticated_worker_def split: option.splits if_splits)
  then have "registration_request v g d = (Inl (ApiAuthentication ''The worker registration secret is invalid.''),
      put_worker (rv_now v) (auth_failed ''invalid registration secret.'' (rv_now v) w) d)"
    using assms(2-5)
    by (simp add: registration_request_def register_worker_def authenticate_worker_def deny_worker_run andthen_def mark_auth_failed_def)
  then show ?thesis using authenticated_after_failure [OF assms(1,6)] by simp
qed

subsection \<open>A failure after a cancellation\<close>

lemma settled_by_result:
  assumes "find_job d i = Some j" "find_plan d (j_plan_snapshot_id j) = Some s" "find_file d (j_tracked_file_id j) = Some f"
    and "one_active_per_file (db_jobs d)"
  shows "settle_file_by_result v i r d =
    (Inr (), put_file (sv_now v) (update_file_state_from_execution_result (sv_on_disk v) (sn_payload s) r f) d)"
  using assms by (simp add: settle_file_by_result_def andthen_def get_job_def reads_def plan_of_def writes_def flush_def put_file_def)

lemma update_file_protection:
  "tf_id (update_file_state_from_execution_result on_disk p r f) = tf_id f"
  "tf_operator_protected (update_file_state_from_execution_result on_disk p r f) = tf_operator_protected f"
  by (simp_all add: update_file_state_from_execution_result_def processed_under_def Let_def)

lemma find_append: "find P (xs @ ys) = (case find P xs of None \<Rightarrow> find P ys | Some x \<Rightarrow> Some x)"
  by (induction xs) auto

text \<open>A write that ends the active job of a file leaves the file without one.\<close>

lemma ending_write:
  assumes "well_keyed d" "find_job d i = Some j" "calm f j" "\<And>k. j_id (f k) = j_id k"
    and "has_active_job_for_tracked_file fid d \<Longrightarrow> is_active j \<and> \<not> is_active (f j) \<and> j_tracked_file_id j = fid"
  obtains d1 where "write_job now i f d = Inr d1" "well_keyed d1" "find_job d1 i = Some (stamped now f j)"
    "db_files d1 = db_files d" "db_plans d1 = db_plans d" "\<not> has_active_job_for_tracked_file fid d1"
    "db_workers d1 = db_workers d" "map j_id (db_jobs d1) = map j_id (db_jobs d)"
proof -
  let ?d1 = "d\<lparr>db_jobs := rewrite_jobs now {i} f (db_jobs d)\<rparr>"
  note wr = calm_write_job [OF assms(1-3), of now]
  have found: "find_job ?d1 i = Some (stamped now f j)" using assms(2) by (simp add: find_job_def find_rewrite assms(4))
  have "\<not> has_active_job_for_tracked_file fid ?d1"
  proof
    assume "has_active_job_for_tracked_file fid ?d1"
    then obtain x where x: "x \<in> set (db_jobs d)" "if j_id x = i then is_active (f x) \<and> j_tracked_file_id (f x) = fid else is_active x \<and> j_tracked_file_id x = fid"
      by (auto simp: active_for_file rewrite_jobs_def stamped_fields split: if_splits)
    have old: "x = j" if "j_id x = i" using find_job_unique [OF assms(1) x(1)] assms(2) that by simp
    have "has_active_job_for_tracked_file fid d"
      using x old assms(3) unfolding active_for_file calm_def by (cases "j_id x = i") auto
    note active = assms(5) [OF this]
    have "x = j"
      using assms(1) x active find_job_Some [OF assms(2)] old
      by (cases "j_id x = i") (auto simp: well_keyed_def one_active_per_file_def distinct_map inj_on_def)
    then show False using x active find_job_Some [OF assms(2)] by simp
  qed
  then show thesis using that [of ?d1] wr found by (simp add: rewrite_ids assms(4))
qed


lemma sign_calm: "calm (sign_result w) j" "is_active (sign_result w j) = is_active j" "j_tracked_file_id (sign_result w j) = j_tracked_file_id j"
  by (simp_all add: calm_def sign_result_def is_active_def)

definition kept_fields :: "job \<Rightarrow> job \<Rightarrow> bool" where
  "kept_fields j k \<longleftrightarrow> j_plan_snapshot_id k = j_plan_snapshot_id j \<and> j_tracked_file_id k = j_tracked_file_id j \<and>
     j_attempt_count k = j_attempt_count j \<and> j_job_kind k = j_job_kind j \<and> j_schedule_windows k = j_schedule_windows j"

lemma kept_by_failure:
  "kept_fields j (with_result dv dr st r j)" "kept_fields j (sign_result w j)" "kept_fields j k \<Longrightarrow> kept_fields k l \<Longrightarrow> kept_fields j l"
proof -
  show "kept_fields j (with_result dv dr st r j)"
    by (cases "er_replacement r") (simp_all add: kept_fields_def with_result_def Let_def)
qed (simp_all add: kept_fields_def sign_result_def)

lemma kept_stamped: "kept_fields j (f j) \<Longrightarrow> kept_fields j (stamped now f j)"
  by (simp add: stamped_def kept_fields_def)

text \<open>
  A worker that reports a failure is believed even when the operator asked for the job to be cancelled: the
  retry policy runs as for any other failure and queues the next attempt, so the file is encoded after all.
\<close>

theorem cancelled_remote_job_is_requeued:
  assumes "db_ok d" "rv_service v = e" "fresh_keys e" "find_job d i = Some j" "j_status j = JS_RUNNING"
    and "j_assigned_worker_id j = Some (w_id w)" "j_cancellation_requested_at j = Some asked" "j_job_kind j = EXECUTION"
    and "find_plan d (j_plan_snapshot_id j) = Some s" "find_file d (j_tracked_file_id j) = Some f"
    and "\<not> should_treat_as_protected (sn_payload s)" "\<not> job_requires_manual_review (Some f) s"
    and "j_attempt_count j \<le> max_automated_retries" "stored_schedule (j_schedule_windows j)"
  shows "\<exists>d' job k. report_job_failure v w i m c None d = (Inr job, d') \<and> j_status job = JS_FAILED \<and>
    k \<in> set (db_jobs d') \<and> j_id k \<notin> j_id ` set (db_jobs d) \<and> j_status k = JS_SCHEDULED \<and>
    j_tracked_file_id k = j_tracked_file_id j \<and> j_attempt_count k = j_attempt_count j + 1"
proof -
  let ?r = "remote_failure v j m c" and ?fid = "j_tracked_file_id j" and ?now = "sv_now e"
  let ?f1 = "with_result (sv_dump_verification e) (sv_dump_replacement e) JS_FAILED ?r"
  have failed: "er_status ?r = ''failed''" by (simp add: remote_failure_def)
  have wk: "well_keyed d" using assms(1) by (simp add: db_ok_def)
  have active: "is_active j" using assms(1,5) find_job_Some [OF assms(4)] by (auto simp: db_ok_def row_ok_def is_active_def active_job_statuses_def)
  have calm1: "calm ?f1 j" "\<not> is_active (?f1 j)"
    by (rule with_result_calm, simp_all add: active_job_statuses_def is_active_def)
  obtain d1 where d1: "write_job ?now i ?f1 d = Inr d1" "well_keyed d1" "find_job d1 i = Some (stamped ?now ?f1 j)"
    "db_files d1 = db_files d" "db_plans d1 = db_plans d" "\<not> has_active_job_for_tracked_file ?fid d1"
    "db_workers d1 = db_workers d" "map j_id (db_jobs d1) = map j_id (db_jobs d)"
    by (rule ending_write [OF wk assms(4) calm1(1), where fid = ?fid and now = ?now]) (use active calm1(2) in simp_all)
  let ?j1 = "stamped ?now ?f1 j"
  obtain d2 where d2: "write_job ?now i (sign_result w) d1 = Inr d2" "well_keyed d2" "find_job d2 i = Some (stamped ?now (sign_result w) ?j1)"
    "db_files d2 = db_files d1" "db_plans d2 = db_plans d1" "\<not> has_active_job_for_tracked_file ?fid d2"
    "db_workers d2 = db_workers d1" "map j_id (db_jobs d2) = map j_id (db_jobs d1)"
    by (rule ending_write [OF d1(2,3) sign_calm(1) [where w = w], where fid = ?fid and now = ?now]) (use d1(6) in \<open>simp_all add: sign_result_def\<close>)
  let ?j2 = "stamped ?now (sign_result w) ?j1"
  have "kept_fields j ?j1" "kept_fields ?j1 ?j2"
    by (rule kept_stamped, rule kept_by_failure)+
  note same = kept_by_failure(3) [OF this]
  have j2: "j_plan_snapshot_id ?j2 = j_plan_snapshot_id j" "j_tracked_file_id ?j2 = ?fid" "j_attempt_count ?j2 = j_attempt_count j"
    "j_job_kind ?j2 = EXECUTION" "j_schedule_windows ?j2 = j_schedule_windows j" "j_status ?j2 = JS_FAILED"
    using same assms(8) by (simp_all add: kept_fields_def stamped_fields sign_result_def)
  have plan: "find_plan d2 (j_plan_snapshot_id ?j2) = Some s" using assms(9) unfolding j2 by (simp add: find_plan_def d1 d2)
  have tracked: "find_file d2 (j_tracked_file_id ?j2) = Some f" using assms(10) unfolding j2 by (simp add: find_file_def d1 d2)
  let ?g = "update_file_state_from_execution_result (sv_on_disk e) (sn_payload s) ?r f"
  let ?d3 = "put_file ?now ?g d2"
  have settle: "settle_file_by_result e i ?r d2 = (Inr (), ?d3)"
    by (rule settled_by_result [OF d2(3) plan tracked]) (use d2(2) in \<open>simp add: well_keyed_def\<close>)
  have fid: "tf_id ?g = ?fid" using find_file_Some [OF assms(10)] by (simp add: update_file_protection)
  obtain t where g: "find_file ?d3 (j_tracked_file_id ?j2) = Some (?g\<lparr>tf_updated_at := t\<rparr>)"
    using find_put_file [OF tracked, of ?g ?now] fid j2(2) by auto
  have rest: "well_keyed ?d3" "find_job ?d3 i = Some ?j2" "find_plan ?d3 (j_plan_snapshot_id ?j2) = Some s"
    "\<not> has_active_job_for_tracked_file (j_tracked_file_id ?j2) ?d3"
    using d2(2,3,6) plan j2(2) by (simp_all add: well_keyed_def find_job_def find_plan_def active_for_file)
  have fresh: "sv_new_job e ?d3 \<notin> j_id ` set (db_jobs ?d3)" using assms(3) unfolding fresh_keys_def by blast
  have calm: "\<not> (job_requires_manual_review (Some (?g\<lparr>tf_updated_at := t\<rparr>)) s \<or> max_automated_retries < j_attempt_count ?j2)"
    using assms(11-13) j2(3)
    by (simp add: job_requires_manual_review_def update_file_protection update_file_state_from_execution_result_def processed_under_def Let_def)
  obtain d4 k where d4: "apply_automatic_retry_policy (sv_new_job e ?d3) ?now (sv_tz e) i ?r ?d3 = Inr (d4, Some k)" "well_keyed d4"
    "db_jobs d4 = db_jobs ?d3 @ [k]" "j_status k = JS_SCHEDULED" "j_tracked_file_id k = ?fid" "j_attempt_count k = j_attempt_count j + 1"
    using retry_policy_settles [OF rest(1) fresh rest(2) failed j2(4) g rest(3), of ?now "sv_tz e"] calm rest(4) assms(14) j2(2,3,5) by auto
  have i4: "find_job d4 i = Some ?j2" using rest(2) by (simp add: find_job_def d4(3) find_append)
  have report: "reported_job w i ''Only running jobs can be marked failed by a worker.'' d = (Inr j, d)"
    using assms(4-6) by (simp add: reported_job_run)
  have run: "report_job_failure v w i m c None d = (Inr ?j2, d4)"
    using d1(1) d2(1) settle d4(1) i4 find_job_Some [OF assms(4)] assms(8)
    by (simp add: report_job_failure_def andthen_def report store_remote_result_def assms(2) writes_def mark_result_def failed
        status_of_result_def retry_automatically_def keep_runtime_summary_def touches_def get_job_def reads_def Let_def)
  have "j_id k \<notin> j_id ` set (db_jobs d2)" using d4(2) by (simp add: well_keyed_def d4(3))
  moreover have "j_id ` set (db_jobs d2) = j_id ` set (db_jobs d)" using d1(8) d2(8) by (metis list.set_map)
  ultimately show ?thesis using run d4(3-6) j2(6) by auto
qed

subsection \<open>Concrete requests of a worker\<close>

definition sample_remote_env :: remote_env where
  "sample_remote_env =
     \<lparr>rv_service = sample_env, rv_expand = id, rv_resolve = id, rv_media_mounts = [path_of ''/media''],
      rv_app_scratch = path_of ''/scratch'', rv_worker_scratch = path_of ''/scratch'', rv_marker_error = (\<lambda>_. None),
      rv_nulls_first = True, rv_iso = (\<lambda>_. []), rv_secret = ''s'', rv_hash = id, rv_token = ''t'', rv_new_worker = (\<lambda>_. 2)\<rparr>"

definition remote_sample :: worker where
  "remote_sample = sample_worker\<lparr>w_id := 5, w_worker_key := ''r'', w_worker_type := REMOTE, w_auth_token_hash := Some ''t'',
     w_capability_payload := Some (JObj [(''execution_modes'', JList [JStr ''remux'', JStr ''transcode'']),
       (''binary_support'', JObj [(''ffmpeg'', JBool True), (''ffprobe'', JBool True)])])\<rparr>"

definition remote_db :: "job list \<Rightarrow> db" where
  "remote_db js = (sample_db js)\<lparr>db_workers := [remote_sample]\<rparr>"

definition stray_result :: full_result where
  "stray_result = sample_failure\<lparr>er_status := ''completed'', er_output_path := Some (path_of ''/etc/passwd'')\<rparr>"

lemma only_holder_reports_witness:
  "refused (submit_job_result sample_remote_env remote_sample 7 stray_result None (remote_db [sample_job])) (remote_db [sample_job])"
  using only_holder_reports [of "remote_db [sample_job]" 7 remote_sample sample_remote_env stray_result None]
  by (simp add: remote_db_def find_job_def)


lemma sample_offer_made: "fst (request_job sample_remote_env remote_sample (remote_db [sample_job])) \<notin> {Inr None} \<and>
    \<not> isl (fst (request_job sample_remote_env remote_sample (remote_db [sample_job])))"
  by code_simp

lemma offered_job_can_be_claimed_witness:
  "\<exists>offer k d'. request_job sample_remote_env remote_sample (remote_db [sample_job]) = (Inr (Some offer), remote_db [sample_job]) \<and>
     claim_job sample_remote_env remote_sample (rj_job_id offer) (remote_db [sample_job]) = (Inr k, d') \<and> j_status k = JS_RUNNING"
proof -
  let ?d = "remote_db [sample_job]"
  obtain offer where r: "request_job sample_remote_env remote_sample ?d = (Inr (Some offer), ?d)"
  proof (cases "fst (request_job sample_remote_env remote_sample ?d)")
    case (Inl e)
    then show ?thesis using sample_offer_made by simp
  next
    case (Inr x)
    moreover have "snd (request_job sample_remote_env remote_sample ?d) = ?d" by (simp add: request_job_run split: option.split)
    ultimately show ?thesis using sample_offer_made that by (cases x) (simp_all add: prod_eq_iff)
  qed
  have "well_keyed ?d" using sample_db_ok(2) by (simp add: remote_db_def well_keyed_def db_ok_def)
  from offered_job_can_be_claimed [OF this r] r show ?thesis by blast
qed

lemma poll_sees_only_the_oldest_witness:
  "request_job sample_remote_env remote_sample (remote_db [sample_job\<lparr>j_pinned_worker_id := Some 9\<rparr>])
     = (Inr None, remote_db [sample_job\<lparr>j_pinned_worker_id := Some 9\<rparr>])"
proof -
  have "remote_worker_block remote_sample = None" by code_simp
  moreover have "\<forall>j\<in>set (fetch_next_pending_remote_jobs (rv_nulls_first sample_remote_env) (w_id remote_sample) remote_poll_limit
       (remote_db [sample_job\<lparr>j_pinned_worker_id := Some 9\<rparr>])).
       j_pinned_worker_id j \<noteq> None \<and> j_pinned_worker_id j \<noteq> Some (w_id remote_sample)"
    by (auto simp: remote_db_def remote_sample_def dest!: polled_job(1))
  ultimately show ?thesis by (rule poll_sees_only_the_oldest)
qed

definition mapped_sample :: worker where
  "mapped_sample = remote_sample\<lparr>w_path_mappings := Some (JList [JObj [(''server_path'', JStr ''/media''), (''worker_path'', JStr ''/w'')]])\<rparr>"

definition broken_report :: "json option" where
  "broken_report = Some (JObj [(''path_mappings'', JList [JObj [(''worker_path'', JStr ''/w''),
     (''validation_status'', JStr ''missing_marker'')]])])"

lemma broken_mapping_counts_as_usable_witness:
  "\<not> list_ex unvalidated_mapping (json_items (jget (clean_runtime_summary
     (Some (runtime_payload_for_worker sample_remote_env mapped_sample broken_report))) ''path_mappings''))"
proof -
  have "json_items (jget (object_or_empty broken_report) ''path_mappings'') =
      [JObj [(''worker_path'', JStr ''/w''), (''validation_status'', JStr ''missing_marker'')]]" by code_simp
  then have "\<forall>x\<in>set (json_items (jget (object_or_empty broken_report) ''path_mappings'')). ''status'' \<notin> fst ` set (json_object x)"
    by (simp add: json_object_def)
  then show ?thesis
    using broken_mapping_counts_as_usable [of "mapped_sample\<lparr>w_runtime_payload :=
        Some (runtime_payload_for_worker sample_remote_env mapped_sample broken_report)\<rparr>" sample_remote_env mapped_sample broken_report]
    by (simp add: sample_remote_env_def)
qed

definition bare_registration :: registration where
  "bare_registration = \<lparr>rg_worker_key = ''r'', rg_display_name = ''r'', rg_remote = True, rg_secret = None, rg_pairing_token = None,
     rg_report = \<lparr>wr_capability = None, wr_runtime = None, wr_binary = None, wr_host = None, wr_health = WH_HEALTHY, wr_summary = None\<rparr>\<rparr>"

lemma registration_needs_credentials_witness:
  "\<exists>m. fst (registration_request sample_remote_env bare_registration (remote_db [])) = Inl (ApiAuthentication m)"
  using registration_needs_credentials [of bare_registration sample_remote_env "remote_db []"]
  by (simp add: bare_registration_def presents_credentials_def truthy_def sample_remote_env_def)

lemma refused_registration_locks_worker_out_witness:
  "authenticated_worker sample_remote_env (remote_db []) ''t'' = Some remote_sample \<and>
   authenticated_worker sample_remote_env (snd (registration_request sample_remote_env bare_registration (remote_db []))) ''t'' = None"
proof -
  have a: "authenticated_worker sample_remote_env (remote_db []) ''t'' = Some remote_sample"
    "get_by_key (remote_db []) (rg_worker_key bare_registration) = Some remote_sample"
    by (simp_all add: authenticated_worker_def remote_db_def remote_sample_def sample_remote_env_def sample_worker_def
        get_by_key_def bare_registration_def)
  then show ?thesis
    using refused_registration_locks_worker_out [of "remote_db []" bare_registration sample_remote_env remote_sample "''t''"]
    by (simp add: remote_db_def bare_registration_def truthy_def sample_remote_env_def)
qed

definition held_sample :: job where
  "held_sample = sample_job\<lparr>j_status := JS_RUNNING, j_assigned_worker_id := Some 5, j_started_at := Some 1200,
     j_cancellation_requested_at := Some 1300\<rparr>"

lemma cancelled_remote_job_is_requeued_witness:
  "\<exists>d' job k. report_job_failure sample_remote_env remote_sample 7 ''x'' ''y'' None (remote_db [held_sample]) = (Inr job, d') \<and>
     k \<in> set (db_jobs d') \<and> j_status k = JS_SCHEDULED \<and> j_attempt_count k = 2"
proof -
  have ok: "db_ok (remote_db [held_sample])"
    using sample_rows_ok(1)
    by (auto simp: remote_db_def db_ok_def well_keyed_def held_sample_def row_ok_def order_ok_def one_active_per_file_def
        settled_statuses_def active_job_statuses_def)
  have env: "rv_service sample_remote_env = sample_env" by (simp add: sample_remote_env_def)
  have rows: "find_job (remote_db [held_sample]) 7 = Some held_sample" "j_status held_sample = JS_RUNNING"
    "j_assigned_worker_id held_sample = Some (w_id remote_sample)" "j_cancellation_requested_at held_sample = Some 1300"
    "j_job_kind held_sample = EXECUTION" "find_plan (remote_db [held_sample]) (j_plan_snapshot_id held_sample) = Some sample_snapshot"
    "find_file (remote_db [held_sample]) (j_tracked_file_id held_sample) = Some sample_tracked"
    by (simp_all add: remote_db_def held_sample_def remote_sample_def find_job_def find_plan_def find_file_def
        sample_tracked_def sample_snapshot_def)
  have "\<not> should_treat_as_protected (sn_payload sample_snapshot)" by code_simp
  moreover have "\<not> job_requires_manual_review (Some sample_tracked) sample_snapshot"
    by (simp add: job_requires_manual_review_def sample_tracked_def sample_snapshot_def)
  moreover have "j_attempt_count held_sample \<le> max_automated_retries" "stored_schedule (j_schedule_windows held_sample)"
    by (simp_all add: held_sample_def max_automated_retries_def stored_schedule_def)
  moreover have "j_attempt_count held_sample = 1" by (simp add: held_sample_def)
  ultimately show ?thesis
    using cancelled_remote_job_is_requeued [OF ok env fresh_sample_env rows, of "''x''" "''y''"] by auto
qed

end
