(* ===== verification/Review_Service.thy ===== *)
theory Review_Service
  imports Jobs_Service Path_Safety
begin

text \<open>
  Manual review (\<open>src/apps/api/app/services/review.py\<close>): what the operator is shown of a file that
  needs a decision, and the decisions: approve, which places an output that already exists or queues a
  job, reject, which queues a job that only cleans up streams, hold, and the protection of a file. A
  decision changes the database, the log of decisions and the files; what it did to files stays when
  the request is rolled back. Audit events and the shapes of the responses are left out.
\<close>

subsection \<open>The surroundings\<close>

text \<open>
  The roots are those of the configuration, if the service has one. Which files have a probe, the texts of random names and the
  reading of a stored verification are parameters.
\<close>

record review_env =
  rx_service :: service_env
  rx_expand :: "path \<Rightarrow> path"
  rx_resolve :: "path \<Rightarrow> path"
  rx_roots :: "path_roots option"
  rx_has_probe :: "row_id \<Rightarrow> bool"
  rx_uuids :: "nat \<Rightarrow> string"
  rx_load_verification :: "json \<Rightarrow> verification_result"

record review_state =
  rs_db :: db
  rs_decisions :: "review_decision list"
  rs_os :: os_state

definition rx_now :: "review_env \<Rightarrow> instant" where
  "rx_now v = sv_now (rx_service v)"

text \<open>A service of the database inside a review.\<close>

definition in_db :: "'a service \<Rightarrow> ('a, review_state) handler" where
  "in_db m st = (case m (rs_db st) of (r, d) \<Rightarrow> (r, st\<lparr>rs_db := d\<rparr>))"

subsection \<open>What the operator is shown\<close>

definition informational_review_codes :: "string list" where
  "informational_review_codes = [''video_reduction_limit_applies'', ''output_larger_than_input_guard_applies'']"

datatype review_kind = Reason | Warning | Job_Reason | Detail

record review_reason =
  rn_code :: string
  rn_message :: string
  rn_kind :: review_kind

datatype review_status = Review_Open | Review_Approved | Review_Rejected | Review_Held | Review_Resolved

datatype protected_source = By_Planner_And_Operator | By_Operator | By_Planner | Unprotected

record protected_state =
  ps_protected :: bool
  ps_planner :: bool
  ps_operator :: bool
  ps_source :: protected_source
  ps_reason_codes :: "string list"

record review_item =
  ri_file :: tracked_file
  ri_has_probe :: bool
  ri_plan :: "plan_snapshot option"
  ri_job :: "job option"
  ri_decision :: "review_decision option"
  ri_status :: review_status
  ri_requires_review :: bool
  ri_protected :: protected_state
  ri_reasons :: "review_reason list"
  ri_warnings :: "review_reason list"
  ri_primary :: "review_reason option"
  ri_details :: "review_reason list"

definition failed_or_in_review :: "job \<Rightarrow> bool" where
  "failed_or_in_review j \<longleftrightarrow> j_status j \<in> {JS_FAILED, JS_MANUAL_REVIEW}"

definition issue_timestamp :: "tracked_file \<Rightarrow> plan_snapshot option \<Rightarrow> job option \<Rightarrow> bool \<Rightarrow> instant option" where
  "issue_timestamp f s j planner_protected =
     (let candidates =
        (case s of None \<Rightarrow> [] | Some p \<Rightarrow> if sn_action p = MANUAL_REVIEW \<or> planner_protected then [sn_created_at p] else []) @
        (case j of None \<Rightarrow> [] | Some k \<Rightarrow> if failed_or_in_review k then [j_updated_at k] else []) @
        (case tf_operator_protected_updated_at f of None \<Rightarrow> [] | Some t \<Rightarrow> if tf_operator_protected f then [t] else [])
      in if candidates = [] then None else Some (Max (set candidates)))"

definition review_status_of :: "bool \<Rightarrow> review_decision option \<Rightarrow> review_status" where
  "review_status_of requires latest =
     (case latest of
        None \<Rightarrow> if requires then Review_Open else Review_Resolved
      | Some r \<Rightarrow>
          (case rd_decision_type r of
             DT_APPROVED \<Rightarrow> if rd_job_id r \<noteq> None then Review_Resolved else Review_Approved
           | DT_REJECTED \<Rightarrow> Review_Rejected
           | DT_HELD \<Rightarrow> Review_Held
           | DT_JOB_CREATED \<Rightarrow> Review_Resolved
           | _ \<Rightarrow> if requires then Review_Open else Review_Resolved))"

definition or_first :: "'a option \<Rightarrow> 'a option \<Rightarrow> 'a option" where
  "or_first a b = (case a of None \<Rightarrow> b | Some x \<Rightarrow> Some x)"

definition split_review_reasons ::
    "review_reason list \<Rightarrow> review_reason list \<Rightarrow> review_reason option \<times> review_reason list" where
  "split_review_reasons rs ws =
     (let all = rs @ ws; plain = (\<lambda>x. rn_code x \<notin> set informational_review_codes);
          primary = or_first (find (\<lambda>x. rn_kind x = Job_Reason) all)
            (or_first (find plain rs) (or_first (find plain ws) (case all of [] \<Rightarrow> None | x # _ \<Rightarrow> Some x)))
      in (primary,
          map (\<lambda>x. x\<lparr>rn_kind := (if rn_code x \<in> set informational_review_codes then Detail else rn_kind x)\<rparr>)
            (filter (\<lambda>x. case primary of None \<Rightarrow> True
                         | Some p \<Rightarrow> rn_code x \<noteq> rn_code p \<or> rn_message x \<noteq> rn_message p) all)))"

definition job_warning :: "job \<Rightarrow> review_reason" where
  "job_warning j =
     \<lparr>rn_code = or_text (j_failure_category j) ''job_requires_review'',
      rn_message = or_text (j_failure_message j) ''The latest job requires manual review or failed.'',
      rn_kind = Job_Reason\<rparr>"

definition protected_state_of :: "tracked_file \<Rightarrow> plan_snapshot option \<Rightarrow> protected_state" where
  "protected_state_of f s =
     (let planner = (case s of None \<Rightarrow> False | Some p \<Rightarrow> sn_should_treat_as_protected p); operator = tf_operator_protected f in
      \<lparr>ps_protected = (planner \<or> operator \<or> tf_is_protected f), ps_planner = planner, ps_operator = operator,
       ps_source = (if planner \<and> operator then By_Planner_And_Operator else if operator then By_Operator
                    else if planner \<or> tf_is_protected f then By_Planner else Unprotected),
       ps_reason_codes = (case s of None \<Rightarrow> []
                          | Some p \<Rightarrow> if planner then filter (\<lambda>c. c \<noteq> []) (map r_code (reasons (sn_payload p))) else [])\<rparr>)"

definition build_item_context :: "review_env \<Rightarrow> review_state \<Rightarrow> tracked_file \<Rightarrow> review_item" where
  "build_item_context v st f =
     (let d = rs_db st; s = get_latest_plan_snapshot (tf_id f) d; j = get_latest_for_tracked_file (tf_id f) d;
          latest = latest_decision (tf_id f) (rs_decisions st); prot = protected_state_of f s;
          shown = (\<lambda>k. map (\<lambda>x. \<lparr>rn_code = r_code x, rn_message = r_message x, rn_kind = k\<rparr>));
          rs = (case s of None \<Rightarrow> [] | Some p \<Rightarrow> shown Reason (reasons (sn_payload p)));
          ws = (case s of None \<Rightarrow> [] | Some p \<Rightarrow> shown Warning (warnings (sn_payload p))) @
               (case j of None \<Rightarrow> [] | Some k \<Rightarrow> if failed_or_in_review k then [job_warning k] else []);
          requires = (ps_protected prot \<or> (case s of None \<Rightarrow> False | Some p \<Rightarrow> sn_action p = MANUAL_REVIEW)
                      \<or> (case j of None \<Rightarrow> False | Some k \<Rightarrow> failed_or_in_review k));
          effective = (case (latest, issue_timestamp f s j (ps_planner prot)) of
                         (Some r, Some t) \<Rightarrow> if rd_created_at r < t then None else Some r | (x, _) \<Rightarrow> x)
      in \<lparr>ri_file = f, ri_has_probe = rx_has_probe v (tf_id f), ri_plan = s, ri_job = j, ri_decision = latest,
          ri_status = review_status_of requires effective, ri_requires_review = requires, ri_protected = prot,
          ri_reasons = rs, ri_warnings = ws, ri_primary = fst (split_review_reasons rs ws),
          ri_details = snd (split_review_reasons rs ws)\<rparr>)"

definition get_item :: "review_env \<Rightarrow> row_id \<Rightarrow> (review_item, review_state) handler" where
  "get_item v i =
     reads (\<lambda>st. case find_file (rs_db st) i of
         None \<Rightarrow> Inl (ApiNotFound ''Review item could not be found.'')
       | Some f \<Rightarrow>
           let item = build_item_context v st f in
           if \<not> ri_requires_review item \<and> filter (\<lambda>r. rd_tracked_file_id r = tf_id f) (rs_decisions st) = []
           then Inl (ApiNotFound ''Review item could not be found.'') else Inr item)"

text \<open>The list: candidates of the table, then files with a decision; the last changed comes first.\<close>

record review_filter =
  rf_status :: "review_status option"
  rf_protected :: "bool option"
  rf_is_4k :: "bool option"
  rf_recent_failures :: bool

definition matches_review_filter :: "review_filter \<Rightarrow> review_item \<Rightarrow> bool" where
  "matches_review_filter q item \<longleftrightarrow>
     given (rf_status q) (\<lambda>s. ri_status item = s) \<and>
     given (rf_protected q) (\<lambda>b. ps_protected (ri_protected item) = b) \<and>
     given (rf_is_4k q) (\<lambda>b. tf_is_4k (ri_file item) = b) \<and>
     (rf_recent_failures q \<longrightarrow> (case ri_job item of None \<Rightarrow> False | Some j \<Rightarrow> failed_or_in_review j))"

definition review_candidates :: "review_state \<Rightarrow> tracked_file list" where
  "review_candidates st =
     (let listed = list_review_candidates (rs_db st);
          decided = List.map_filter (find_file (rs_db st)) (remdups (map rd_tracked_file_id (rs_decisions st)))
      in listed @ filter (\<lambda>f. tf_id f \<notin> tf_id ` set listed) decided)"

definition list_items :: "review_env \<Rightarrow> review_filter \<Rightarrow> nat option \<Rightarrow> nat \<Rightarrow> review_state \<Rightarrow> review_item list" where
  "list_items v q limit offset st =
     page limit (Some offset) (sort_key (\<lambda>i. - tf_updated_at (ri_file i))
       (filter (matches_review_filter q) (map (build_item_context v st) (review_candidates st))))"

subsection \<open>Decisions\<close>

text \<open>The log gets a row; a decision is about the plan it made, or the latest one.\<close>

definition record_decision ::
    "review_env \<Rightarrow> review_item \<Rightarrow> row_id \<Rightarrow> review_decision_type \<Rightarrow> string option \<Rightarrow> plan_snapshot option \<Rightarrow> row_id option
     \<Rightarrow> json option \<Rightarrow> (review_decision, review_state) handler" where
  "record_decision v item actor t note made job details st =
     (let r = \<lparr>rd_tracked_file_id = tf_id (ri_file item),
               rd_plan_snapshot_id = map_option sn_id (or_first made (ri_plan item)),
               rd_job_id = (if job = None \<and> t = DT_JOB_CREATED then map_option j_id (ri_job item) else job),
               rd_decision_type = t, rd_note = note, rd_created_by_user_id = actor, rd_details = details,
               rd_created_at = rx_now v\<rparr>
      in (Inr r, st\<lparr>rs_decisions := rs_decisions st @ [r]\<rparr>))"

definition approved_execution_plan :: "processing_plan \<Rightarrow> processing_plan" where
  "approved_execution_plan p =
     (let a = (if transcode_required (plan_video p) then TRANSCODE else REMUX) in
      p\<lparr>action := a,
        summary := (summary p)\<lparr>ps_action := a, ps_should_treat_as_protected := False, ps_is_already_compliant := False\<rparr>,
        should_treat_as_protected := False, is_already_compliant := False,
        reasons := filter (\<lambda>x. r_code x \<notin> set informational_review_codes) (reasons p) @
          [make_reason ''operator_approved_manual_review'' ''Operator approved processing after manual review.'' []]\<rparr>)"

definition strip_only_plan :: "processing_plan \<Rightarrow> processing_plan" where
  "strip_only_plan p =
     p\<lparr>action := REMUX,
       summary := (summary p)\<lparr>ps_action := REMUX, ps_should_treat_as_protected := False, ps_is_already_compliant := False\<rparr>,
       should_treat_as_protected := False, is_already_compliant := False,
       plan_video := (plan_video p)\<lparr>transcode_required := False, preserve_original := True,
         vp_handling := PRESERVE_VIDEO, max_allowed_video_reduction_percent := None\<rparr>,
       reasons := [make_reason ''operator_rejected_video_transcode''
         ''Operator rejected video transcoding; video will be copied while stream cleanup is applied.'' []],
       warnings := filter (\<lambda>x. r_code x \<notin> set informational_review_codes) (warnings p)\<rparr>"

definition queue_options :: "review_item \<Rightarrow> job_options" where
  "queue_options item =
     default_options\<lparr>o_backup_policy := (case ri_job item of None \<Rightarrow> ''keep'' | Some j \<Rightarrow> j_backup_policy j)\<rparr>"

text \<open>The snapshot and the job are made in one savepoint.\<close>

definition queue_from_plan ::
    "service_env \<Rightarrow> tracked_file \<Rightarrow> processing_plan \<Rightarrow> job_options \<Rightarrow> (job \<times> plan_snapshot) service" where
  "queue_from_plan s f p opts d =
     (case andthen (add_plan_snapshot s f p) (\<lambda>sn. andthen (create_from_plan s f sn opts) (\<lambda>j. returns (j, sn))) d of
        (Inl e, _) \<Rightarrow> (Inl e, d)
      | (Inr x, d') \<Rightarrow> (Inr x, d'))"

definition queue_review_job :: "review_env \<Rightarrow> review_item \<Rightarrow> bool \<Rightarrow> (job \<times> plan_snapshot) service" where
  "queue_review_job v item approve =
     (case ri_plan item of
        None \<Rightarrow> fails (ApiConflict ''No complete plan exists for this review item.'')
      | Some s \<Rightarrow>
          if \<not> ri_has_probe item then fails (ApiConflict ''No complete plan exists for this review item.'')
          else andthen (lock_file (rx_service v) (tf_id (ri_file item))) (\<lambda>f.
            andthen (require_no_active_job (tf_id f)) (\<lambda>_.
            queue_from_plan (rx_service v) f
              (if approve then approved_execution_plan (sn_payload s) else strip_only_plan (sn_payload s))
              (queue_options item))))"

subsection \<open>The output of a reviewed job\<close>

text \<open>A path is taken as it is when the service has no configuration.\<close>

definition checked_path ::
    "review_env \<Rightarrow> (path_roots \<Rightarrow> path list) \<Rightarrow> string \<Rightarrow> path option \<Rightarrow> api_error + path option" where
  "checked_path v allowed label p =
     (case p of
        None \<Rightarrow> Inr None
      | Some q \<Rightarrow>
          (case rx_roots v of
             None \<Rightarrow> Inr (Some q)
           | Some r \<Rightarrow> (case validate_path_under_roots (rx_expand v) (rx_resolve v) (allowed r) label (Some q) of
               Inl m \<Rightarrow> Inl (ApiValidation m) | Inr x \<Rightarrow> Inr x)))"

definition staged_output_path :: "review_env \<Rightarrow> string \<Rightarrow> api_error + path" where
  "staged_output_path v p =
     (case checked_path v (output_roots (rx_expand v) (rx_resolve v)) ''output_path'' (Some (path_of p)) of
        Inl e \<Rightarrow> Inl e
      | Inr None \<Rightarrow> Inl (ApiValidation ''output_path is required.'')
      | Inr (Some q) \<Rightarrow> Inr q)"

definition media_path :: "review_env \<Rightarrow> string \<Rightarrow> path option \<Rightarrow> api_error + path option" where
  "media_path v label p = checked_path v pr_media label p"

definition backup_path :: "review_env \<Rightarrow> string \<Rightarrow> path option \<Rightarrow> api_error + path option" where
  "backup_path v label p = checked_path v pr_backup label p"

definition place_reviewed :: "review_env \<Rightarrow> path \<Rightarrow> path \<Rightarrow> processing_plan \<Rightarrow> (replacement_result, review_state) handler" where
  "place_reviewed v src staged p st =
     (case place_verified_output (rx_uuids v) src staged p (rs_os st) of
        Done r os \<Rightarrow> (Inr r, st\<lparr>rs_os := os\<rparr>)
      | ValueFailure os \<Rightarrow> (Inl BadPathName, st\<lparr>rs_os := os\<rparr>)
      | Thrown _ os \<Rightarrow> (Inl BadPathName, st\<lparr>rs_os := os\<rparr>)
      | Loops \<Rightarrow> (Inl Never_Returns, st))"

text \<open>The result the job gets: what it measured and ran, with the placement the operator approved.\<close>

definition approved_result ::
    "review_env \<Rightarrow> job \<Rightarrow> processing_plan \<Rightarrow> path \<Rightarrow> path \<Rightarrow> path option \<Rightarrow> replacement_result \<Rightarrow> full_result" where
  "approved_result v j p staged final backup r =
     \<lparr>er_mode = (if transcode_required (plan_video p) then ''transcode'' else ''remux''), er_status = ''completed'',
      er_command = (case j_execution_command j of None \<Rightarrow> [] | Some c \<Rightarrow> c), er_output_path = Some staged,
      er_exit_code = None, er_stdout = j_execution_stdout j, er_stderr = j_execution_stderr j,
      er_failure_message = None, er_failure_category = None,
      er_requested_backend = j_requested_execution_backend j, er_actual_backend = j_actual_execution_backend j,
      er_actual_accelerator = j_actual_execution_accelerator j,
      er_backend_fallback_used = j_backend_fallback_used j,
      er_backend_selection_reason = j_backend_selection_reason j,
      er_final_output_path = Some final, er_original_backup_path = backup,
      er_savings = no_savings
        \<lparr>input_size_bytes := j_input_size_bytes j, output_size_bytes := j_output_size_bytes j,
         space_saved_bytes := j_space_saved_bytes j, video_input_size_bytes := j_video_input_size_bytes j,
         video_output_size_bytes := j_video_output_size_bytes j, video_space_saved_bytes := j_video_space_saved_bytes j,
         non_video_space_saved_bytes := j_non_video_space_saved_bytes j,
         compression_reduction_percent := map_option of_int (j_compression_reduction_percent j)\<rparr>,
      er_analysis_payload = None,
      er_verification = (case j_verification_payload j of None \<Rightarrow> None
                         | Some x \<Rightarrow> if json_truthy x then Some (rx_load_verification v x) else None),
      er_replacement = Some (r\<lparr>rr_final_output_path := Some final, rr_original_backup_path := backup\<rparr>),
      er_started_at = (case j_started_at j of None \<Rightarrow> rx_now v | Some t \<Rightarrow> t), er_completed_at = rx_now v\<rparr>"

definition store_approved ::
    "review_env \<Rightarrow> job \<Rightarrow> processing_plan \<Rightarrow> full_result \<Rightarrow> (unit, review_state) handler" where
  "store_approved v j p r =
     andthen (in_db (writes (mark_result (sv_dump_verification (rx_service v)) (sv_dump_replacement (rx_service v))
                (rx_now v) (j_id j) r))) (\<lambda>_.
     \<lambda>st. in_db (writes (\<lambda>d. case find_file d (j_tracked_file_id j) of
           None \<Rightarrow> Inl MissingRow
         | Some f \<Rightarrow> flush (put_file (rx_now v)
             (update_file_state_from_execution_result (exists_file (rs_os st)) p r f) d))) st)"

text \<open>Place an output that waits for the operator; \<open>None\<close> when there is none.\<close>

definition place_and_store ::
    "review_env \<Rightarrow> tracked_file \<Rightarrow> plan_snapshot \<Rightarrow> job \<Rightarrow> path \<Rightarrow> (row_id, review_state) handler" where
  "place_and_store v f s j staged =
     andthen (reads (\<lambda>_. media_path v ''source_path'' (Some (path_of (tf_source_path f))))) (\<lambda>src.
     case src of
       None \<Rightarrow> fails (ApiConflict ''The reviewed file does not have a valid source path.'')
     | Some source \<Rightarrow>
     andthen (place_reviewed v source staged (sn_payload s)) (\<lambda>r.
     andthen (require (\<lambda>_. rr_status r = R_SUCCEEDED)
       (ApiConflict (or_text (rr_failure_message r) ''Verified output placement failed.''))) (\<lambda>_.
     andthen (reads (\<lambda>_. media_path v ''replacement.final_output_path'' (rr_final_output_path r))) (\<lambda>final.
     case final of
       None \<Rightarrow> fails (ApiConflict ''Verified output placement did not report a final output path.'')
     | Some fin \<Rightarrow>
     andthen (reads (\<lambda>_. backup_path v ''replacement.original_backup_path'' (rr_original_backup_path r))) (\<lambda>backup.
     andthen (store_approved v j (sn_payload s) (approved_result v j (sn_payload s) staged fin backup r)) (\<lambda>_.
     returns (j_id j)))))))"

definition complete_post_encode_approval :: "review_env \<Rightarrow> review_item \<Rightarrow> (row_id option, review_state) handler" where
  "complete_post_encode_approval v item =
     (case (ri_job item, ri_plan item) of
        (Some j, Some s) \<Rightarrow>
          (case j_output_path j of
             None \<Rightarrow> returns None
           | Some out \<Rightarrow>
               if j_status j \<noteq> JS_MANUAL_REVIEW then returns None
               else andthen (reads (\<lambda>_. staged_output_path v out)) (\<lambda>staged.
                 \<lambda>st. (if \<not> exists_file (rs_os st) staged then returns None
                      else if j_replacement_status j = DR_SUCCEEDED then returns (Some (j_id j))
                      else andthen (place_and_store v (ri_file item) s j staged) (\<lambda>i. returns (Some i))) st))
      | _ \<Rightarrow> returns None)"

subsection \<open>The operations\<close>

text \<open>An approval is recorded with the job it completed, or with the one it queues.\<close>

definition settle_approval ::
    "review_env \<Rightarrow> review_item \<Rightarrow> row_id \<Rightarrow> string option \<Rightarrow> row_id option \<Rightarrow> (review_decision \<times> row_id, review_state) handler" where
  "settle_approval v item actor note completed =
     (case completed of
       Some jid \<Rightarrow>
         andthen (record_decision v item actor DT_APPROVED note None (Some jid)
                   (Some (JObj [(''post_encode_replacement'', JBool True)]))) (\<lambda>r. returns (r, jid))
     | None \<Rightarrow>
         andthen (in_db (queue_review_job v item True)) (\<lambda>(j, s).
         andthen (record_decision v item actor DT_APPROVED note (Some s) (Some (j_id j))
                   (Some (JObj [(''queued_from_review'', JBool True)]))) (\<lambda>r. returns (r, j_id j))))"

definition approve_item ::
    "review_env \<Rightarrow> row_id \<Rightarrow> row_id \<Rightarrow> string option \<Rightarrow> (review_decision \<times> row_id, review_state) handler" where
  "approve_item v i actor note =
     andthen (get_item v i) (\<lambda>item.
     andthen (require (\<lambda>_. ri_requires_review item)
       (ApiConflict ''This item does not currently require review approval.'')) (\<lambda>_.
     andthen (complete_post_encode_approval v item) (settle_approval v item actor note)))"

definition delete_staged_output_if_present :: "review_env \<Rightarrow> review_item \<Rightarrow> (unit, review_state) handler" where
  "delete_staged_output_if_present v item =
     (case ri_job item of
        None \<Rightarrow> returns ()
      | Some j \<Rightarrow>
          (case j_output_path j of
             None \<Rightarrow> returns ()
           | Some out \<Rightarrow>
               if j_status j \<noteq> JS_MANUAL_REVIEW \<or> j_replacement_status j = DR_SUCCEEDED then returns ()
               else (case staged_output_path v out of
                       Inl _ \<Rightarrow> returns ()
                     | Inr p \<Rightarrow> touches (\<lambda>st. st\<lparr>rs_os := snd (os_unlink p (rs_os st))\<rparr>))))"

definition reject_item ::
    "review_env \<Rightarrow> row_id \<Rightarrow> row_id \<Rightarrow> string option \<Rightarrow> (review_decision \<times> row_id, review_state) handler" where
  "reject_item v i actor note =
     andthen (get_item v i) (\<lambda>item.
     andthen (require (\<lambda>_. ri_requires_review item)
       (ApiConflict ''This item does not currently require review rejection.'')) (\<lambda>_.
     andthen (in_db (queue_review_job v item False)) (\<lambda>(j, s).
     andthen (delete_staged_output_if_present v item) (\<lambda>_.
     andthen (record_decision v item actor DT_REJECTED note (Some s) (Some (j_id j))
               (Some (JObj [(''queued_strip_only'', JBool True)]))) (\<lambda>r. returns (r, j_id j))))))"

definition hold_item :: "review_env \<Rightarrow> row_id \<Rightarrow> row_id \<Rightarrow> string option \<Rightarrow> (review_decision, review_state) handler" where
  "hold_item v i actor note =
     andthen (get_item v i) (\<lambda>item. record_decision v item actor DT_HELD note None None None)"

definition protect_file :: "review_env \<Rightarrow> row_id \<Rightarrow> bool \<Rightarrow> row_id \<Rightarrow> string option \<Rightarrow> unit service" where
  "protect_file v i b actor note =
     writes (\<lambda>d. case find_file d i of
         None \<Rightarrow> Inl MissingRow
       | Some f \<Rightarrow> flush (put_file (rx_now v) (set_operator_protected b note (Some actor) (rx_now v) d f) d))"

definition mark_protected :: "review_env \<Rightarrow> row_id \<Rightarrow> row_id \<Rightarrow> string option \<Rightarrow> (review_decision, review_state) handler" where
  "mark_protected v i actor note =
     andthen (get_item v i) (\<lambda>item.
     andthen (in_db (protect_file v i True actor note)) (\<lambda>_.
     record_decision v item actor DT_MARK_PROTECTED note None None (Some (JObj [(''operator_protected'', JBool True)]))))"

definition clear_protected :: "review_env \<Rightarrow> row_id \<Rightarrow> row_id \<Rightarrow> string option \<Rightarrow> (review_decision, review_state) handler" where
  "clear_protected v i actor note =
     andthen (get_item v i) (\<lambda>item.
     andthen (require (\<lambda>_. tf_operator_protected (ri_file item))
       (ApiConflict ''Only operator-applied protection can be cleared.'')) (\<lambda>_.
     andthen (in_db (protect_file v i False actor note)) (\<lambda>_.
     record_decision v item actor DT_CLEAR_PROTECTED note None None (Some (JObj [(''operator_protected'', JBool False)])))))"

subsection \<open>What a review does to the job table\<close>

lemma in_db_Inr: "in_db m st = (Inr x, st') \<longleftrightarrow> (\<exists>d. m (rs_db st) = (Inr x, d) \<and> st' = st\<lparr>rs_db := d\<rparr>)"
  by (auto simp: in_db_def split: prod.splits)

text \<open>A handler of reviews that only takes the rows along the automaton.\<close>

definition reviews :: "('a, review_state) handler \<Rightarrow> bool" where
  "reviews m \<longleftrightarrow> (\<forall>st. db_ok (rs_db st) \<longrightarrow> edits (db_jobs (rs_db st)) (db_jobs (rs_db (snd (m st)))))"

lemma reviewsD: "reviews m \<Longrightarrow> db_ok (rs_db st) \<Longrightarrow> m st = (r, st') \<Longrightarrow> edits (db_jobs (rs_db st)) (db_jobs (rs_db st')) \<and> db_ok (rs_db st')"
  using edits_db_ok unfolding reviews_def by (metis snd_conv)

lemma reviews_andthen: "reviews m \<Longrightarrow> (\<And>x. reviews (f x)) \<Longrightarrow> reviews (andthen m f)"
proof (unfold reviews_def [of "andthen m f"], intro allI impI)
  fix st :: review_state assume *: "reviews m" "\<And>x. reviews (f x)" "db_ok (rs_db st)"
  obtain r e where m: "m st = (r, e)" by force
  note e = reviewsD [OF *(1,3) m]
  show "edits (db_jobs (rs_db st)) (db_jobs (rs_db (snd (andthen m f st))))"
  proof (cases r)
    case (Inr x)
    obtain q e' where f: "f x e = (q, e')" by force
    from reviewsD [OF *(2) _ f] e have "edits (db_jobs (rs_db e)) (db_jobs (rs_db e'))" by blast
    from edits_trans [OF this conjunct1 [OF e]] show ?thesis using m f Inr by (simp add: andthen_def)
  qed (use e m in \<open>simp add: andthen_def\<close>)
qed

lemma reviews_quiet: "(\<And>st. rs_db (snd (m st)) = rs_db st) \<Longrightarrow> reviews m"
  by (simp add: reviews_def edits_none)

lemma reviews_simple [simp]:
  "reviews (returns x)" "reviews (fails e)" "reviews (require c e)" "reviews (reads g)" "reviews (record_decision v item actor t note s j det)"
  "reviews (place_reviewed v a b p)"
  by (auto intro!: reviews_quiet simp: returns_def fails_def require_def reads_def record_decision_def place_reviewed_def Let_def split: run.split)

lemma reviews_in_db: "serves anywhere m (\<lambda>_. anywhere) \<Longrightarrow> reviews (in_db m)"
  by (auto simp: reviews_def in_db_def serves_def split: prod.splits)

lemma reviews_option: "(x = None \<Longrightarrow> reviews m) \<Longrightarrow> (\<And>y. x = Some y \<Longrightarrow> reviews (f y)) \<Longrightarrow> reviews (case x of None \<Rightarrow> m | Some y \<Rightarrow> f y)"
  by (cases x) simp_all

lemma reviews_of_state: "(\<And>os. reviews (f os)) \<Longrightarrow> reviews (\<lambda>st. f (g st) st)"
  by (auto simp: reviews_def)

lemma serve_protect: "serves anywhere (protect_file v i b actor note) (\<lambda>_. anywhere)"
  unfolding protect_file_def by (rule serves_writes) (auto split: option.splits dest: put_file_edits)

lemma queue_jobs:
  assumes "fresh_keys s" "1 \<le> o_attempt_count opts"
  shows "serves anywhere (queue_from_plan s f p opts) (\<lambda>_. anywhere)"
proof (rule servesI)
  fix d r d' assume d: "db_ok d" "queue_from_plan s f p opts d = (r, d')"
  let ?m = "andthen (add_plan_snapshot s f p) (\<lambda>sn. andthen (create_from_plan s f sn opts) (\<lambda>j. returns (j, sn)))"
  have m: "serves anywhere ?m (\<lambda>_. anywhere)"
    by (rule serves_andthen [OF serve_add_plan], rule serves_andthen [OF serve_create [OF assms]], rule serves_returns, simp)
  obtain q e where q: "?m d = (q, e)" by force
  from servesD(1) [OF m d(1) TrueI q] d(2) q
  show "edits (db_jobs d) (db_jobs d') \<and> (\<forall>x. r = Inr x \<longrightarrow> True)"
    by (auto simp: queue_from_plan_def edits_none split: sum.splits)
qed

lemma serve_queue:
  assumes "fresh_keys (rx_service v)"
  shows "serves anywhere (queue_review_job v item a) (\<lambda>_. anywhere)"
proof -
  have n: "1 \<le> o_attempt_count (queue_options item)" by (simp add: queue_options_def default_options_def)
  have q: "serves anywhere (andthen (lock_file (rx_service v) i) (\<lambda>f. andthen (require_no_active_job (tf_id f)) (\<lambda>_.
      queue_from_plan (rx_service v) f p (queue_options item)))) (\<lambda>_. anywhere)" for i p
    by (rule serves_andthen [OF serve_lock_file], rule serves_andthen [OF serve_no_active], rule queue_jobs [OF assms n])
  show ?thesis unfolding queue_review_job_def by (cases "ri_plan item") (simp_all add: serves_fails q)
qed

lemma serve_flush_file: "serves anywhere (writes (\<lambda>d. case find_file d i of None \<Rightarrow> Inl MissingRow | Some f \<Rightarrow> flush (put_file now (g f) d))) (\<lambda>_. anywhere)"
  by (rule serves_writes) (auto split: option.splits dest: put_file_edits)

lemma reviews_get_item: "reviews (get_item v i)"
  by (simp add: get_item_def)

text \<open>The placement is about a job in review, which stays where it is until its result is written.\<close>

definition in_review :: "row_id \<Rightarrow> review_state \<Rightarrow> bool" where
  "in_review i st \<longleftrightarrow> (\<forall>j. find_job (rs_db st) i = Some j \<longrightarrow> j_status j = JS_MANUAL_REVIEW)"

lemma store_approved_edits:
  assumes "db_ok (rs_db st)" "in_review (j_id j) st"
  shows "edits (db_jobs (rs_db st)) (db_jobs (rs_db (snd (store_approved v j p r st))))"
proof (cases "mark_result (sv_dump_verification (rx_service v)) (sv_dump_replacement (rx_service v)) (rx_now v) (j_id j) r (rs_db st)")
  case (Inl e)
  then show ?thesis by (simp add: store_approved_def andthen_def in_db_def writes_def edits_none)
next
  case (Inr d)
  have wk: "well_keyed (rs_db st)" using assms(1) by (simp add: db_ok_def)
  have e: "edits (db_jobs (rs_db st)) (db_jobs d)"
    using assms(2) by (intro mark_result_edits [OF wk Inr]) (auto simp: in_review_def)
  have "db_jobs (rs_db (snd (store_approved v j p r st))) = db_jobs d"
    by (auto simp: store_approved_def andthen_def in_db_def writes_def Inr flush_def split: option.split sum.split prod.split)
  then show ?thesis using e by simp
qed

definition reviews_at :: "row_id \<Rightarrow> ('a, review_state) handler \<Rightarrow> bool" where
  "reviews_at i m \<longleftrightarrow> (\<forall>st. db_ok (rs_db st) \<longrightarrow> in_review i st \<longrightarrow> edits (db_jobs (rs_db st)) (db_jobs (rs_db (snd (m st)))))"

lemma reviews_at_weaken: "reviews m \<Longrightarrow> reviews_at i m"
  by (simp add: reviews_def reviews_at_def)

lemma reviews_at_andthen:
  assumes "\<And>st. rs_db (snd (m st)) = rs_db st" "\<And>x. reviews_at i (f x)"
  shows "reviews_at i (andthen m f)"
  unfolding reviews_at_def
proof (intro allI impI)
  fix st :: review_state assume st: "db_ok (rs_db st)" "in_review i st"
  obtain r e where m: "m st = (r, e)" by force
  then have e: "rs_db e = rs_db st" using assms(1) [of st] by simp
  show "edits (db_jobs (rs_db st)) (db_jobs (rs_db (snd (andthen m f st))))"
  proof (cases r)
    case (Inr x)
    have "db_ok (rs_db e)" "in_review i e" using st e by (simp_all add: in_review_def)
    then have "edits (db_jobs (rs_db e)) (db_jobs (rs_db (snd (f x e))))" using assms(2) [of x] unfolding reviews_at_def by blast
    then show ?thesis using m Inr e by (simp add: andthen_def)
  qed (use m e in \<open>simp add: andthen_def edits_none\<close>)
qed

lemma quiet [simp]:
  "rs_db (snd (returns x st)) = rs_db st" "rs_db (snd (fails e st)) = rs_db st" "rs_db (snd (reads g st)) = rs_db st"
  "rs_db (snd (require c e st)) = rs_db st" "rs_db (snd (place_reviewed v a b p st)) = rs_db st"
  by (auto simp: returns_def fails_def require_def reads_def place_reviewed_def split: run.split)

lemma reviews_at_store: "reviews_at (j_id j) (andthen (store_approved v j p r) (\<lambda>_. returns x))"
  unfolding reviews_at_def
proof (intro allI impI)
  fix st :: review_state assume "db_ok (rs_db st)" "in_review (j_id j) st"
  note e = store_approved_edits [OF this, of v p r]
  obtain q st' where "store_approved v j p r st = (q, st')" by force
  then show "edits (db_jobs (rs_db st)) (db_jobs (rs_db (snd (andthen (store_approved v j p r) (\<lambda>_. returns x) st))))"
    using e by (cases q) (simp_all add: andthen_def returns_def)
qed

lemma reviews_at_option: "(\<And>y. reviews_at i (f y)) \<Longrightarrow> reviews_at i (case x of None \<Rightarrow> fails e | Some y \<Rightarrow> f y)"
  by (cases x) (simp_all add: reviews_at_weaken)

lemma reviews_at_place: "reviews_at (j_id j) (place_and_store v f s j staged)"
  unfolding place_and_store_def
  by (intro reviews_at_andthen [OF quiet(3)] reviews_at_andthen [OF quiet(4)] reviews_at_andthen [OF quiet(5)] reviews_at_option
      reviews_at_store)

text \<open>A row that was read from the table is in review when it says so.\<close>

lemma latest_row: "get_latest_for_tracked_file i d = Some j \<Longrightarrow> j \<in> set (db_jobs d) \<and> j_tracked_file_id j = i"
  by (auto simp: get_latest_for_tracked_file_def in_queue_order_def split: list.splits dest!: arg_cong [where f = set])

lemma item_job_in_review:
  assumes "db_ok (rs_db st)" "ri_job (build_item_context v st f) = Some j" "j_status j = JS_MANUAL_REVIEW"
  shows "in_review (j_id j) st"
proof -
  have "j \<in> set (db_jobs (rs_db st))" using assms(2) latest_row by (auto simp: build_item_context_def Let_def)
  then show ?thesis using assms(1,3) find_job_unique [of "rs_db st" j] by (simp add: in_review_def db_ok_def)
qed

lemma reviews_at_then: "reviews_at i m \<Longrightarrow> (\<And>x. f x = returns (g x)) \<Longrightarrow> reviews_at i (andthen m f)"
  unfolding reviews_at_def
proof (intro allI impI)
  fix st :: review_state
  assume *: "\<forall>st. db_ok (rs_db st) \<longrightarrow> in_review i st \<longrightarrow> edits (db_jobs (rs_db st)) (db_jobs (rs_db (snd (m st))))"
    "\<And>x. f x = returns (g x)" "db_ok (rs_db st)" "in_review i st"
  obtain q e where "m st = (q, e)" by force
  then show "edits (db_jobs (rs_db st)) (db_jobs (rs_db (snd (andthen m f st))))"
    using *(1,3,4) by (cases q) (auto simp: andthen_def *(2) returns_def)
qed

lemma reviews_at_complete:
  assumes "ri_job item = Some j"
  shows "reviews_at (j_id j) (complete_post_encode_approval v item)"
proof -
  have "reviews_at i (\<lambda>st. (if \<not> exists_file (rs_os st) staged then returns None
        else if c then returns (Some x) else andthen (place_and_store v f s j staged) (\<lambda>i. returns (Some i))) st)"
    if "i = j_id j" for i staged c x f s
    using reviews_at_then [OF reviews_at_place [of j v f s staged], of "\<lambda>i. returns (Some i)" Some] that
    by (auto simp: reviews_at_def edits_none)
  then show ?thesis
    unfolding complete_post_encode_approval_def assms
    by (auto split: option.split intro!: reviews_at_weaken [OF reviews_simple(1)] reviews_at_andthen)
qed

lemma complete_quiet:
  assumes "\<not> (\<exists>j. ri_job item = Some j \<and> j_status j = JS_MANUAL_REVIEW)"
  shows "complete_post_encode_approval v item = returns None"
  using assms by (auto simp: complete_post_encode_approval_def split: option.split)

lemma get_item_Inr:
  "get_item v i st = (Inr item, st') \<longleftrightarrow> st' = st \<and> (\<exists>f. find_file (rs_db st) i = Some f \<and> item = build_item_context v st f \<and>
     (ri_requires_review item \<or> filter (\<lambda>r. rd_tracked_file_id r = tf_id f) (rs_decisions st) \<noteq> []))"
  by (auto simp: get_item_def reads_Inr Let_def split: option.splits if_splits)

lemma reviews_approve:
  assumes "fresh_keys (rx_service v)"
  shows "reviews (approve_item v i actor note)"
  unfolding reviews_def
proof (intro allI impI)
  fix st :: review_state assume ok: "db_ok (rs_db st)"
  have tail: "reviews (settle_approval v item actor note x)" for x item
    by (auto simp: settle_approval_def split: option.split prod.split intro!: reviews_andthen reviews_in_db serve_queue [OF assms])
  have rest: "edits (db_jobs (rs_db st))
      (db_jobs (rs_db (snd (andthen (complete_post_encode_approval v item) (settle_approval v item actor note) st))))"
    if "item = build_item_context v st f" for f item
  proof -
    obtain q e where c: "complete_post_encode_approval v item st = (q, e)" by force
    have 1: "edits (db_jobs (rs_db st)) (db_jobs (rs_db e))"
    proof (cases "\<exists>j. ri_job item = Some j \<and> j_status j = JS_MANUAL_REVIEW")
      case True
      then obtain j where j: "ri_job item = Some j" "j_status j = JS_MANUAL_REVIEW" by blast
      from reviews_at_complete [OF j(1), of v] item_job_in_review [OF ok, of v f j] j ok c show ?thesis
        unfolding reviews_at_def that by (metis snd_conv)
    next
      case False
      then show ?thesis using c complete_quiet [OF False, of v] by (simp add: returns_def edits_none)
    qed
    note ok_e = edits_db_ok [OF ok 1]
    show ?thesis
    proof (cases q)
      case (Inr x)
      obtain r e' where t: "settle_approval v item actor note x e = (r, e')" by force
      from edits_trans [OF conjunct1 [OF reviewsD [OF tail ok_e t]] 1] show ?thesis using c Inr t by (simp add: andthen_def)
    qed (use c 1 in \<open>simp add: andthen_def\<close>)
  qed
  show "edits (db_jobs (rs_db st)) (db_jobs (rs_db (snd (approve_item v i actor note st))))"
  proof (cases "fst (get_item v i st)")
    case (Inl e)
    then have "approve_item v i actor note st = (Inl e, snd (get_item v i st))" by (auto simp: approve_item_def andthen_def split: prod.splits)
    then show ?thesis by (simp add: get_item_def edits_none)
  next
    case (Inr item)
    then obtain f where f: "get_item v i st = (Inr item, st)" "item = build_item_context v st f"
      using get_item_Inr [of v i st item "snd (get_item v i st)"] by (metis prod.collapse)
    show ?thesis using rest [OF f(2)] f(1) by (auto simp: approve_item_def andthen_def require_def edits_none)
  qed
qed

lemma reviews_reject: "fresh_keys (rx_service v) \<Longrightarrow> reviews (reject_item v i actor note)"
proof -
  assume "fresh_keys (rx_service v)"
  then have q: "reviews (in_db (queue_review_job v item a))" for item a by (intro reviews_in_db serve_queue)
  have "reviews (delete_staged_output_if_present v item)" for item
    by (rule reviews_quiet) (auto simp: delete_staged_output_if_present_def touches_def returns_def split: option.split sum.split)
  then show ?thesis
    unfolding reject_item_def by (auto intro!: reviews_andthen reviews_get_item q split: prod.split)
qed

lemma reviews_hold: "reviews (hold_item v i actor note)"
  unfolding hold_item_def by (auto intro!: reviews_andthen reviews_get_item)

lemma reviews_mark: "reviews (mark_protected v i actor note)"
  unfolding mark_protected_def by (auto intro!: reviews_andthen reviews_get_item reviews_in_db serve_protect)

lemma reviews_clear: "reviews (clear_protected v i actor note)"
  unfolding clear_protected_def by (auto intro!: reviews_andthen reviews_get_item reviews_in_db serve_protect)

subsection \<open>Approving an output that waits\<close>

lemma store_approved_os: "rs_os (snd (store_approved v j p r st)) = rs_os st"
  by (auto simp: store_approved_def andthen_def in_db_def writes_def split: prod.split sum.split)

text \<open>What a placement leaves on disk: only the placement itself touches files.\<close>

definition placed_files :: "review_env \<Rightarrow> tracked_file \<Rightarrow> processing_plan \<Rightarrow> path \<Rightarrow> os_state \<Rightarrow> os_state" where
  "placed_files v f p staged os =
     (case media_path v ''source_path'' (Some (path_of (tf_source_path f))) of
        Inr (Some source) \<Rightarrow>
          (case place_verified_output (rx_uuids v) source staged p os of
             Done _ os' \<Rightarrow> os' | ValueFailure os' \<Rightarrow> os' | Thrown _ os' \<Rightarrow> os' | Loops \<Rightarrow> os)
      | _ \<Rightarrow> os)"

lemma place_and_store_os: "rs_os (snd (place_and_store v f s j staged st)) = placed_files v f (sn_payload s) staged (rs_os st)"
proof (cases "media_path v ''source_path'' (Some (path_of (tf_source_path f)))")
  case (Inl e)
  then show ?thesis by (simp add: place_and_store_def placed_files_def andthen_def reads_def)
next
  case (Inr src)
  show ?thesis
  proof (cases src)
    case None
    then show ?thesis using Inr by (simp add: place_and_store_def placed_files_def andthen_def reads_def fails_def)
  next
    case (Some source)
    have tail: "rs_os (snd (andthen (require c e) (\<lambda>_. andthen (reads g) (\<lambda>final. case final of None \<Rightarrow> fails e' | Some fin \<Rightarrow>
        andthen (reads h) (\<lambda>backup. andthen (store_approved v j p (r fin backup)) (\<lambda>_. returns x)))) st')) = rs_os st'"
      for c e g e' h p r x st'
      using store_approved_os
      by (auto simp: andthen_def require_def reads_def fails_def returns_def split: sum.splits option.splits prod.splits) (metis snd_conv)+
    show ?thesis
      unfolding place_and_store_def placed_files_def
      by (cases "place_verified_output (rx_uuids v) source staged (sn_payload s) (rs_os st)")
        (simp_all add: Inr Some andthen_def [of "reads _" _ st] andthen_def [of "place_reviewed _ _ _ _"] reads_def [of _ st] place_reviewed_def tail)
  qed
qed

lemma complete_os:
  "rs_os (snd (complete_post_encode_approval v item st)) =
     (case (ri_job item, ri_plan item) of
        (Some j, Some s) \<Rightarrow>
          (case j_output_path j of
             None \<Rightarrow> rs_os st
           | Some out \<Rightarrow> (case staged_output_path v out of
               Inl _ \<Rightarrow> rs_os st
             | Inr staged \<Rightarrow>
                 if j_status j = JS_MANUAL_REVIEW \<and> exists_file (rs_os st) staged \<and> j_replacement_status j \<noteq> DR_SUCCEEDED
                 then placed_files v (ri_file item) (sn_payload s) staged (rs_os st) else rs_os st))
      | _ \<Rightarrow> rs_os st)"
proof -
  have then_os: "rs_os (snd (andthen m (\<lambda>i. returns (g i)) st)) = rs_os (snd (m st))" for m :: "('a, review_state) handler" and g st
    by (auto simp: andthen_def returns_def split: prod.split sum.split)
  show ?thesis
    by (auto simp: complete_post_encode_approval_def returns_def [of None] then_os place_and_store_os andthen_def [of "reads _"] reads_def
        split: option.split sum.split) (simp_all add: returns_def)
qed

text \<open>
  The approval of an output never looks at what verification said of it, nor at the backup policy of the
  job: whatever these are, the same files are placed. So an output that failed its verification, and was
  kept when the retries of its job ran out, replaces the original once an operator approves the file.
\<close>

theorem approval_ignores_verification_and_policy:
  "rs_os (snd (complete_post_encode_approval v (item\<lparr>ri_job := Some (j\<lparr>j_verification_status := a, j_verification_payload := p,
      j_backup_policy := b, j_delete_replaced_source := c\<rparr>)\<rparr>) st)) =
   rs_os (snd (complete_post_encode_approval v (item\<lparr>ri_job := Some j\<rparr>) st))"
  by (cases "ri_plan item"; cases "j_output_path j") (simp_all add: complete_os split: sum.split)


lemma store_approved_run:
  assumes "well_keyed (rs_db st)" "find_job (rs_db st) (j_id j) = Some j" "find_file (rs_db st) (j_tracked_file_id j) = Some f"
    and "er_status r = ''completed''"
  obtains st' k where "store_approved v j p r st = (Inr (), st')" "rs_os st' = rs_os st"
    "find_job (rs_db st') (j_id j) = Some k" "j_status k = JS_COMPLETED" "j_completed_at k = Some (er_completed_at r)"
proof -
  let ?now = "rx_now v"
  let ?f = "with_result (sv_dump_verification (rx_service v)) (sv_dump_replacement (rx_service v)) JS_COMPLETED r"
  have st: "status_of_result (er_status r) = Some JS_COMPLETED" using assms(4) by (simp add: status_of_result_def)
  let ?d1 = "(rs_db st)\<lparr>db_jobs := rewrite_jobs ?now {j_id j} ?f (db_jobs (rs_db st))\<rparr>"
  have "calm ?f j" by (rule with_result_calm) (simp add: active_job_statuses_def)
  note wr = calm_write_job [OF assms(1,2) this, of ?now]
  have found: "find_job ?d1 (j_id j) = Some (stamped ?now ?f j)" using assms(2) by (simp add: find_job_def find_rewrite)
  let ?g = "update_file_state_from_execution_result (exists_file (rs_os st)) p r f"
  let ?d2 = "put_file ?now ?g ?d1"
  have "find_file ?d1 (j_tracked_file_id j) = Some f" using assms(3) by (simp add: find_file_def)
  moreover have "one_active_per_file (db_jobs ?d2)" using wr(2) by (simp add: well_keyed_def)
  ultimately have "store_approved v j p r st = (Inr (), st\<lparr>rs_db := ?d2\<rparr>)"
    using wr(1) st by (simp add: store_approved_def andthen_def in_db_def writes_def mark_result_def flush_def)
  moreover have "find_job ?d2 (j_id j) = Some (stamped ?now ?f j)" using found by (simp add: find_job_def)
  moreover have "j_completed_at (stamped ?now ?f j) = Some (er_completed_at r)" "j_status (stamped ?now ?f j) = JS_COMPLETED"
    by (simp_all add: stamped_fields stamped_outcome)
  ultimately show thesis using that by simp
qed


subsection \<open>What a decision queues\<close>

definition decided_plan :: "bool \<Rightarrow> processing_plan \<Rightarrow> processing_plan" where
  "decided_plan approve p = (if approve then approved_execution_plan p else strip_only_plan p)"

lemma decided_plan_runs:
  "action (decided_plan a p) = (if a \<and> transcode_required (plan_video p) then TRANSCODE else REMUX)"
  "transcode_required (plan_video (decided_plan a p)) = (a \<and> transcode_required (plan_video p))"
  "\<not> should_treat_as_protected (decided_plan a p)" "\<not> is_already_compliant (decided_plan a p)"
  "selected_streams (decided_plan a p) = selected_streams p" "plan_replace (decided_plan a p) = plan_replace p"
  "plan_container (decided_plan a p) = plan_container p"
  by (simp_all add: decided_plan_def approved_execution_plan_def strip_only_plan_def Let_def)

lemma queue_review_job_Inr:
  assumes "queue_review_job v item a d = (Inr (j, sn), d')"
  obtains s f e where "ri_plan item = Some s" "ri_has_probe item" "find_file d (tf_id (ri_file item)) = Some f"
    "\<not> has_active_job_for_tracked_file (tf_id (ri_file item)) d" "sn_payload sn = decided_plan a (sn_payload s)"
    "sn_action sn = action (sn_payload sn)" "\<not> sn_should_treat_as_protected sn" "sn_tracked_file_id sn = tf_id (ri_file item)"
    "e = (lock_for_update (rx_now v) (tf_id (ri_file item)) d)\<lparr>db_plans := db_plans d @ [sn]\<rparr>"
    "create_job_from_plan (sv_new_job (rx_service v) e) (rx_now v) (sv_tz (rx_service v)) (f\<lparr>tf_updated_at := rx_now v\<rparr>) sn (queue_options item) e
       = Inr (d', j)"
proof -
  let ?i = "tf_id (ri_file item)" and ?s = "rx_service v"
  obtain s where s: "ri_plan item = Some s" "ri_has_probe item"
    using assms by (auto simp: queue_review_job_def fails_Inr split: option.splits if_splits)
  have run: "andthen (lock_file ?s ?i) (\<lambda>f. andthen (require_no_active_job (tf_id f)) (\<lambda>_.
      queue_from_plan ?s f (decided_plan a (sn_payload s)) (queue_options item))) d = (Inr (j, sn), d')"
    using assms s by (simp add: queue_review_job_def decided_plan_def)
  let ?l = "lock_for_update (sv_now ?s) ?i d"
  obtain f where f: "find_file d ?i = Some f" "\<not> has_active_job_for_tracked_file (tf_id f) d"
    "queue_from_plan ?s (f\<lparr>tf_updated_at := sv_now ?s\<rparr>) (decided_plan a (sn_payload s)) (queue_options item) ?l = (Inr (j, sn), d')"
    using run by (auto simp: service_steps)
  have id: "tf_id f = ?i" using find_file_Some [OF f(1)] .
  from f(3) have q: "andthen (add_plan_snapshot ?s (f\<lparr>tf_updated_at := sv_now ?s\<rparr>) (decided_plan a (sn_payload s)))
      (\<lambda>sn. andthen (create_from_plan ?s (f\<lparr>tf_updated_at := sv_now ?s\<rparr>) sn (queue_options item)) (\<lambda>j. returns (j, sn))) ?l = (Inr (j, sn), d')"
    unfolding queue_from_plan_def by (auto split: prod.splits sum.splits)
  then have c: "create_from_plan ?s (f\<lparr>tf_updated_at := sv_now ?s\<rparr>) sn (queue_options item) (?l\<lparr>db_plans := db_plans ?l @ [sn]\<rparr>) = (Inr j, d')"
    "sn_payload sn = decided_plan a (sn_payload s)" "sn_action sn = action (sn_payload sn)"
    "sn_should_treat_as_protected sn = should_treat_as_protected (sn_payload sn)" "sn_tracked_file_id sn = tf_id f"
    by (auto simp: andthen_Inr returns_Inr add_plan_snapshot_def Let_def)
  show thesis
    by (rule that [OF s f(1) _ c(2,3) _ _ refl])
      (use f(2) c(1,2,4,5) id in \<open>simp_all add: create_from_plan_Inr rx_now_def decided_plan_runs\<close>)
qed


subsection \<open>A decision holds until something new happens\<close>

text \<open>
  A decision settles an item only until its latest job fails or goes to review later: then the item is open
  again, whatever was decided before. With nothing newer, a decision to hold or to reject stands.
\<close>

theorem later_failure_reopens_review:
  assumes "get_latest_for_tracked_file (tf_id f) (rs_db st) = Some j" "failed_or_in_review j"
    and "latest_decision (tf_id f) (rs_decisions st) = Some r"
  shows "let item = build_item_context v st f; t = issue_timestamp f (ri_plan item) (Some j) (ps_planner (ri_protected item)) in
    ri_requires_review item \<and>
    (if rd_created_at r < j_updated_at j then ri_status item = Review_Open
     else \<forall>u. t = Some u \<and> u \<le> rd_created_at r \<longrightarrow> ri_status item = review_status_of True (Some r))"
proof -
  let ?item = "build_item_context v st f"
  let ?t = "issue_timestamp f (ri_plan ?item) (Some j) (ps_planner (ri_protected ?item))"
  have item: "ri_requires_review ?item" "ri_status ?item = review_status_of True
      (case ?t of None \<Rightarrow> Some r | Some u \<Rightarrow> if rd_created_at r < u then None else Some r)"
    using assms by (simp_all add: build_item_context_def Let_def split: option.split)
  have "\<exists>u. ?t = Some u \<and> j_updated_at j \<le> u"
  proof -
    have max: "\<exists>u. (if xs = [] then None else Some (Max (set xs))) = Some u \<and> x \<le> u" if "x \<in> set xs" for x and xs :: "instant list"
      using that by auto
    show ?thesis unfolding issue_timestamp_def Let_def by (rule max) (simp add: assms(2))
  qed
  then obtain u where u: "?t = Some u" "j_updated_at j \<le> u" by blast
  then show ?thesis using item by (auto simp: Let_def review_status_of_def)
qed

subsection \<open>A rejection\<close>

definition changed_files :: "os_state \<Rightarrow> os_state \<Rightarrow> path set" where
  "changed_files os os' = {p. files os p \<noteq> files os' p}"

definition below_roots :: "review_env \<Rightarrow> (path_roots \<Rightarrow> path list) \<Rightarrow> path set" where
  "below_roots v allowed =
     (case rx_roots v of None \<Rightarrow> UNIV
      | Some r \<Rightarrow> {q. \<exists>a\<in>set (allowed r). under_root q (rx_resolve v (rx_expand v a))})"

lemma validated_below:
  "validate_path_under_roots expand resolve roots label p = Inr (Some q) \<Longrightarrow> \<exists>a\<in>set roots. under_root q (resolve (expand a))"
  by (auto simp: validate_path_under_roots_def Let_def list_ex_iff split: option.splits if_splits)

lemma checked_below: "checked_path v allowed label p = Inr (Some q) \<Longrightarrow> q \<in> below_roots v allowed"
  using validated_below by (fastforce simp: checked_path_def below_roots_def split: option.splits sum.splits)

lemma staged_below: "staged_output_path v out = Inr p \<Longrightarrow> p \<in> below_roots v (output_roots (rx_expand v) (rx_resolve v))"
  by (auto simp: staged_output_path_def dest: checked_below split: sum.splits option.splits)

lemma unlink_changes: "changed_files os (snd (os_unlink p os)) \<subseteq> {p}"
  by (auto simp: changed_files_def os_unlink_def called_def split: os_fault.splits option.splits)

lemma unchanged [simp]: "changed_files os os = {}"
  by (simp add: changed_files_def)

lemma delete_staged_changes:
  "\<exists>p. changed_files (rs_os st) (rs_os (snd (delete_staged_output_if_present v item st))) \<subseteq>
     {p} \<inter> below_roots v (output_roots (rx_expand v) (rx_resolve v))"
proof (cases "\<exists>j out p. ri_job item = Some j \<and> j_output_path j = Some out \<and> staged_output_path v out = Inr p \<and>
    \<not> (j_status j \<noteq> JS_MANUAL_REVIEW \<or> j_replacement_status j = DR_SUCCEEDED)")
  case True
  then obtain j out p where p: "ri_job item = Some j" "j_output_path j = Some out" "staged_output_path v out = Inr p"
    "\<not> (j_status j \<noteq> JS_MANUAL_REVIEW \<or> j_replacement_status j = DR_SUCCEEDED)" by blast
  then show ?thesis
    using unlink_changes [of "rs_os st" p] staged_below [OF p(3)]
    by (auto simp: delete_staged_output_if_present_def touches_def)
next
  case False
  then have "rs_os (snd (delete_staged_output_if_present v item st)) = rs_os st"
    by (auto simp: delete_staged_output_if_present_def touches_def returns_def split: option.split sum.split)
  then show ?thesis by simp
qed

text \<open>
  Rejecting a file removes at most one file from disk, the output that waited for the decision, and only when
  it lies below the folders outputs may be written to: the original is never touched.
\<close>

theorem rejection_removes_only_staged_output:
  "\<exists>p. changed_files (rs_os st) (rs_os (snd (reject_item v i actor note st))) \<subseteq>
     {p} \<inter> below_roots v (output_roots (rx_expand v) (rx_resolve v))"
proof -
  have quiet_db: "rs_os (snd (in_db m st)) = rs_os st" for m :: "'a service" and st by (simp add: in_db_def split: prod.split)
  have tail: "rs_os (snd (andthen (record_decision v item actor t note s jo det) (\<lambda>r. returns (r, x)) st)) = rs_os st" for item t s jo det x st
    by (simp add: andthen_def record_decision_def returns_def Let_def)
  have step: "\<exists>p. changed_files (rs_os st) (rs_os (snd (andthen m f st))) \<subseteq> {p} \<inter> B"
    if "\<And>st. rs_os (snd (m st)) = rs_os st" "\<And>x st. \<exists>p. changed_files (rs_os st) (rs_os (snd (f x st))) \<subseteq> {p} \<inter> B"
    for m :: "('a, review_state) handler" and f :: "'a \<Rightarrow> ('b, review_state) handler" and B st
  proof -
    obtain q e where m: "m st = (q, e)" by force
    then have "rs_os e = rs_os st" using that(1) [of st] by simp
    then show ?thesis using that(2) [of e] m by (cases q) (auto simp: andthen_def)
  qed
  have last: "\<exists>p. changed_files (rs_os st) (rs_os (snd (andthen (delete_staged_output_if_present v item)
      (\<lambda>_. andthen (record_decision v item actor t note s jo det) (\<lambda>r. returns (r, x))) st)))
     \<subseteq> {p} \<inter> below_roots v (output_roots (rx_expand v) (rx_resolve v))" for item t s jo det x st
  proof -
    obtain q e where m: "delete_staged_output_if_present v item st = (q, e)" by force
    have "rs_os (snd (andthen (delete_staged_output_if_present v item)
        (\<lambda>_. andthen (record_decision v item actor t note s jo det) (\<lambda>r. returns (r, x))) st)) = rs_os e"
      using tail by (cases q) (simp_all add: andthen_def [of "delete_staged_output_if_present _ _"] m)
    then show ?thesis using delete_staged_changes [of st v item] m by simp
  qed
  show ?thesis
    unfolding reject_item_def
    by (rule step, simp add: get_item_def reads_def, rule step, simp add: require_def, rule step, rule quiet_db, unfold case_prod_beta, rule last)
qed

subsection \<open>Concrete reviews\<close>

definition sample_review_env :: review_env where
  "sample_review_env =
     \<lparr>rx_service = sample_env, rx_expand = id, rx_resolve = id, rx_roots = None, rx_has_probe = (\<lambda>_. True), rx_uuids = (\<lambda>_. ''u''),
      rx_load_verification = (\<lambda>_. not_required)\<rparr>"

definition unverified_job :: job where
  "unverified_job = sample_reviewed_job\<lparr>j_output_path := Some ''/s/a.tmp.mkv'', j_verification_status := DV_FAILED\<rparr>"

definition review_start :: review_state where
  "review_start = \<lparr>rs_db = sample_db [unverified_job], rs_decisions = [], rs_os = sample_os (\<lambda>_. NoFault)\<rparr>"

lemma unverified_row: "j_id unverified_job = 7" "j_tracked_file_id unverified_job = 3" "j_status unverified_job = JS_MANUAL_REVIEW"
  "\<not> is_active unverified_job" "j_output_path unverified_job = Some ''/s/a.tmp.mkv''" "j_verification_status unverified_job = DV_FAILED"
  "j_replacement_status unverified_job \<noteq> DR_SUCCEEDED"
  by (simp_all add: unverified_job_def sample_reviewed_job_def is_active_def active_job_statuses_def sample_job_def new_job_def Let_def
      sample_tracked_def)

lemma review_rows:
  "well_keyed (rs_db review_start)" "find_file (rs_db review_start) 3 = Some sample_tracked"
  "get_latest_for_tracked_file 3 (rs_db review_start) = Some unverified_job"
  "get_latest_plan_snapshot 3 (rs_db review_start) = Some sample_snapshot"
proof -
  have ids: "tf_id sample_tracked = 3" "sn_tracked_file_id sample_snapshot = 3" by (simp_all add: sample_tracked_def sample_snapshot_def)
  show "well_keyed (rs_db review_start)" "find_file (rs_db review_start) 3 = Some sample_tracked"
    "get_latest_for_tracked_file 3 (rs_db review_start) = Some unverified_job"
    "get_latest_plan_snapshot 3 (rs_db review_start) = Some sample_snapshot"
    by (simp_all add: review_start_def well_keyed_def one_active_per_file_def unverified_row find_file_def ids
        get_latest_for_tracked_file_def in_queue_order_def get_latest_plan_snapshot_def)
qed

lemma run_result_SomeD: "run_result x = Some r \<Longrightarrow> \<exists>os. x = Done r os"
  by (cases x) simp_all

definition review_placement :: "replacement_result run" where
  "review_placement = place_verified_output (\<lambda>_. ''u'') (path_of ''/m/a.mkv'') (path_of ''/s/a.tmp.mkv'')
     (sn_payload sample_snapshot) (sample_os (\<lambda>_. NoFault))"



lemma later_failure_reopens_review_witness:
  "ri_status (build_item_context sample_review_env (review_start\<lparr>rs_decisions := [\<lparr>rd_tracked_file_id = 3, rd_plan_snapshot_id = None,
     rd_job_id = None, rd_decision_type = DT_HELD, rd_note = None, rd_created_by_user_id = 1, rd_details = None,
     rd_created_at = 900\<rparr>]\<rparr>) sample_tracked) = Review_Open"
proof -
  let ?r = "\<lparr>rd_tracked_file_id = 3, rd_plan_snapshot_id = None, rd_job_id = None, rd_decision_type = DT_HELD, rd_note = None,
     rd_created_by_user_id = 1, rd_details = None, rd_created_at = 900\<rparr>"
  let ?st = "review_start\<lparr>rs_decisions := [?r]\<rparr>"
  have "get_latest_for_tracked_file (tf_id sample_tracked) (rs_db ?st) = Some unverified_job"
    using review_rows(3) by (simp add: sample_tracked_def)
  moreover have "failed_or_in_review unverified_job" by (simp add: failed_or_in_review_def unverified_row)
  moreover have "latest_decision (tf_id sample_tracked) (rs_decisions ?st) = Some ?r" by (simp add: latest_decision_def sample_tracked_def)
  ultimately have "let item = build_item_context sample_review_env ?st sample_tracked;
      t = issue_timestamp sample_tracked (ri_plan item) (Some unverified_job) (ps_planner (ri_protected item)) in
    ri_requires_review item \<and>
    (if rd_created_at ?r < j_updated_at unverified_job then ri_status item = Review_Open
     else \<forall>u. t = Some u \<and> u \<le> rd_created_at ?r \<longrightarrow> ri_status item = review_status_of True (Some ?r))"
    by (rule later_failure_reopens_review)
  moreover have "j_updated_at unverified_job = 1000"
    by (simp add: unverified_job_def sample_reviewed_job_def sample_job_def new_job_def Let_def)
  ultimately show ?thesis by (simp add: Let_def)
qed

end
