(* ===== verification/Job_Views.thy ===== *)
theory Job_Views
  imports Job_Repository Tracked_Files
begin

text \<open>
  What the repository of jobs answers to the views (\<open>src/packages/db/encodr_db/repositories/jobs.py\<close>): the
  filtered list and its total, the stream of progress, the counts of the dashboard, the last jobs of a
  worker, and the backups, which are listed in batches because only the disk knows which are left. The place of
  nulls in a descending order and the case rule of \<open>LIKE\<close> are the database's: two flags.
\<close>

subsection \<open>Lists of jobs\<close>

datatype status_group = Problem_Jobs | Completed_Jobs

record job_filter =
  jf_status :: "job_status option"
  jf_group :: "status_group option"
  jf_kind :: "job_kind option"
  jf_file :: "row_id option"
  jf_worker_name :: "string option"
  jf_search :: "string option"
  jf_include_cleared :: bool

definition like_column :: "bool \<Rightarrow> string \<Rightarrow> string option \<Rightarrow> bool" where
  "like_column case_blind pattern column =
     (case column of None \<Rightarrow> False | Some s \<Rightarrow> if case_blind then sql_ilike pattern s else sql_like pattern (py_lower s))"

definition search_pattern :: "string option \<Rightarrow> string option" where
  "search_pattern search =
     (let t = py_lower (py_strip (or_str search [])) in if t = [] then None else Some (''%'' @ t @ ''%''))"

definition matches_job_filter :: "bool \<Rightarrow> job_filter \<Rightarrow> db \<Rightarrow> job \<Rightarrow> bool" where
  "matches_job_filter case_blind q d j \<longleftrightarrow>
     (case jf_status q of
        Some s \<Rightarrow> j_status j = s
      | None \<Rightarrow>
          (case jf_group q of
             None \<Rightarrow> True
           | Some Problem_Jobs \<Rightarrow> j_status j \<in> {JS_FAILED, JS_INTERRUPTED, JS_CANCELLED, JS_MANUAL_REVIEW}
           | Some Completed_Jobs \<Rightarrow> j_status j \<in> {JS_COMPLETED, JS_SKIPPED})) \<and>
     given (jf_kind q) (\<lambda>k. j_job_kind j = k) \<and>
     given (jf_file q) (\<lambda>i. j_tracked_file_id j = i) \<and>
     given (jf_worker_name q) (\<lambda>n. j_worker_name j = Some n) \<and>
     given (search_pattern (jf_search q)) (\<lambda>p.
       list_ex (like_column case_blind p)
         ([j_failure_message j, j_failure_category j, j_worker_name j] @
          (case find_file d (j_tracked_file_id j) of
             None \<Rightarrow> [] | Some f \<Rightarrow> [Some (tf_source_path f), Some (tf_source_filename f)]))) \<and>
     (jf_include_cleared q \<or> j_cleared_at j = None)"

definition newest_first :: "job list \<Rightarrow> job list" where
  "newest_first js = sort_key (\<lambda>j. (- j_created_at j, - int (j_id j))) js"

definition list_jobs :: "bool \<Rightarrow> job_filter \<Rightarrow> nat option \<Rightarrow> nat option \<Rightarrow> db \<Rightarrow> job list" where
  "list_jobs case_blind q limit offset d =
     page limit offset (newest_first (filter (matches_job_filter case_blind q d) (db_jobs d)))"

definition count_jobs :: "bool \<Rightarrow> job_filter \<Rightarrow> db \<Rightarrow> nat" where
  "count_jobs case_blind q d = length (filter (matches_job_filter case_blind q d) (db_jobs d))"

definition since :: "instant \<Rightarrow> instant option \<Rightarrow> bool" where
  "since t column = (case column of None \<Rightarrow> False | Some u \<Rightarrow> t \<le> u)"

definition list_progress_stream_jobs :: "instant option \<Rightarrow> nat \<Rightarrow> db \<Rightarrow> job list" where
  "list_progress_stream_jobs recent limit d =
     take limit (sort_key (\<lambda>j. (if j_status j \<in> set active_job_statuses then 0 else 1 :: int, - j_updated_at j, - j_created_at j,
         - int (j_id j)))
       (filter (\<lambda>j. j_cleared_at j = None \<and>
            (j_status j \<in> set active_job_statuses \<or>
             (case recent of
                None \<Rightarrow> False
              | Some t \<Rightarrow> j_status j \<in> set terminal_job_statuses \<and>
                  (t \<le> j_updated_at j \<or> since t (j_progress_updated_at j) \<or> since t (j_completed_at j)))))
          (db_jobs d)))"

subsection \<open>Counts\<close>

definition all_job_statuses :: "job_status list" where
  "all_job_statuses = [JS_PENDING, JS_SCHEDULED, JS_RUNNING, JS_COMPLETED, JS_FAILED, JS_INTERRUPTED, JS_CANCELLED, JS_SKIPPED,
     JS_MANUAL_REVIEW]"

definition count_by_status :: "db \<Rightarrow> (job_status \<times> nat) list" where
  "count_by_status d =
     filter (\<lambda>(_, n). 0 < n)
       (map (\<lambda>s. (s, length (filter (\<lambda>j. j_cleared_at j = None \<and> j_status j = s) (db_jobs d)))) all_job_statuses)"

definition count_recent_statuses :: "job_status list \<Rightarrow> instant \<Rightarrow> db \<Rightarrow> nat" where
  "count_recent_statuses ss t d =
     length (filter (\<lambda>j. j_status j \<in> set ss \<and> t \<le> j_updated_at j \<and> j_cleared_at j = None) (db_jobs d))"

definition oldest_created_at_for_status :: "job_status \<Rightarrow> db \<Rightarrow> instant option" where
  "oldest_created_at_for_status s d =
     (let ts = map j_created_at (filter (\<lambda>j. j_status j = s \<and> j_cleared_at j = None) (db_jobs d))
      in if ts = [] then None else Some (Min (set ts)))"

definition latest_completed_at :: "db \<Rightarrow> instant option" where
  "latest_completed_at d =
     (let ts = List.map_filter j_completed_at
        (filter (\<lambda>j. j_status j \<in> set successful_job_statuses \<and> j_cleared_at j = None) (db_jobs d))
      in if ts = [] then None else Some (Max (set ts)))"

subsection \<open>Jobs that ended\<close>

definition descending :: "bool \<Rightarrow> instant option \<Rightarrow> int \<times> int" where
  "descending nulls_first column =
     (case column of None \<Rightarrow> (if nulls_first then 0 else 2, 0) | Some t \<Rightarrow> (1, - t))"

definition last_ended_first :: "bool \<Rightarrow> job list \<Rightarrow> job list" where
  "last_ended_first nulls_first js =
     sort_key (\<lambda>j. (descending nulls_first (j_completed_at j), - j_updated_at j, - j_created_at j, - int (j_id j))) js"

definition list_recent_for_worker :: "bool \<Rightarrow> string option \<Rightarrow> row_id option \<Rightarrow> nat \<Rightarrow> db \<Rightarrow> job list" where
  "list_recent_for_worker nulls_first name worker limit d =
     (let ended = filter (\<lambda>j. j_status j \<in> set terminal_job_statuses) (db_jobs d);
          own = (case (worker, name) of
                   (Some i, _) \<Rightarrow> filter (\<lambda>j. j_last_worker_id j = Some i) ended
                 | (None, Some n) \<Rightarrow> filter (\<lambda>j. j_worker_name j = Some n) ended
                 | (None, None) \<Rightarrow> [])
      in take limit (last_ended_first nulls_first own))"

subsection \<open>Backups\<close>

definition recorded_backup :: "job \<Rightarrow> bool" where
  "recorded_backup j \<longleftrightarrow> j_original_backup_path j \<noteq> None \<and> j_backup_deleted_at j = None \<and> j_backup_restored_at j = None"

definition matches_backup_search :: "bool \<Rightarrow> string option \<Rightarrow> db \<Rightarrow> job \<Rightarrow> bool" where
  "matches_backup_search case_blind search d j =
     given (search_pattern search) (\<lambda>p.
       list_ex (like_column case_blind p)
         (j_original_backup_path j #
          (case find_file d (j_tracked_file_id j) of
             None \<Rightarrow> [] | Some f \<Rightarrow> [Some (tf_source_path f), Some (tf_source_filename f)])))"

definition backup_listing_batch_size :: "nat option \<Rightarrow> nat" where
  "backup_listing_batch_size limit = (case limit of None \<Rightarrow> 250 | Some n \<Rightarrow> max 25 (min 250 n))"

definition backup_on_disk :: "(path \<Rightarrow> bool) \<Rightarrow> job \<Rightarrow> bool" where
  "backup_on_disk on_disk j =
     (case j_original_backup_path j of None \<Rightarrow> False | Some s \<Rightarrow> s \<noteq> [] \<and> on_disk (path_of s))"

text \<open>One batch: what is left to skip and what was collected, or the answer once there is enough.\<close>

fun scan_batch :: "(job \<Rightarrow> bool) \<Rightarrow> nat option \<Rightarrow> job list \<Rightarrow> nat \<Rightarrow> job list \<Rightarrow> job list + nat \<times> job list" where
  "scan_batch keep target [] skip got = Inr (skip, got)"
| "scan_batch keep target (j # js) skip got =
     (if \<not> keep j then scan_batch keep target js skip got
      else if 0 < skip then scan_batch keep target js (skip - 1) got
      else if (case target of None \<Rightarrow> False | Some n \<Rightarrow> n \<le> Suc (length got)) then Inl (got @ [j])
      else scan_batch keep target js skip (got @ [j]))"

function scan_batches :: "(job \<Rightarrow> bool) \<Rightarrow> nat option \<Rightarrow> nat \<Rightarrow> job list \<Rightarrow> nat \<Rightarrow> job list \<Rightarrow> job list" where
  "scan_batches keep target n js skip got =
     (let candidates = take n js in
      if candidates = [] then got
      else case scan_batch keep target candidates skip got of
        Inl out \<Rightarrow> out
      | Inr (skip', got') \<Rightarrow>
          if length candidates < n then got' else scan_batches keep target n (drop n js) skip' got')"
  by pat_completeness auto
termination
  by (relation "measure (\<lambda>(keep, target, n, js, skip, got). length js)") auto

declare scan_batches.simps [simp del]

definition list_backup_jobs ::
    "bool \<Rightarrow> bool \<Rightarrow> (path \<Rightarrow> bool) \<Rightarrow> string option \<Rightarrow> nat option \<Rightarrow> nat \<Rightarrow> bool \<Rightarrow> db \<Rightarrow> job list" where
  "list_backup_jobs case_blind nulls_first on_disk search limit offset include_missing d =
     (let rows = last_ended_first nulls_first (filter (\<lambda>j. recorded_backup j \<and> matches_backup_search case_blind search d j) (db_jobs d))
      in if include_missing then page limit (Some offset) rows
         else if limit = Some 0 then []
         else scan_batches (backup_on_disk on_disk) limit (backup_listing_batch_size limit) rows offset [])"

definition count_backup_jobs :: "bool \<Rightarrow> (path \<Rightarrow> bool) \<Rightarrow> string option \<Rightarrow> db \<Rightarrow> nat" where
  "count_backup_jobs case_blind on_disk search d =
     length (filter (backup_on_disk on_disk)
       (filter (\<lambda>j. recorded_backup j \<and> matches_backup_search case_blind search d j) (db_jobs d)))"

subsection \<open>The views agree\<close>

lemma take_whole: "length (take m xs) = m \<Longrightarrow> m \<le> length xs"
  by (metis length_take min.cobounded1)

definition scanned :: "nat option \<Rightarrow> job list \<Rightarrow> nat \<Rightarrow> job list + nat \<times> job list \<Rightarrow> bool" where
  "scanned target wanted left result \<longleftrightarrow>
     (case result of
        Inl out \<Rightarrow> out = page target None wanted \<and> (\<exists>n. target = Some n \<and> length out = n)
      | Inr (skip, got) \<Rightarrow> got = wanted \<and> skip = left \<and> (\<forall>n. target = Some n \<longrightarrow> length got < n))"

lemma scan_batch_spec:
  assumes "target \<noteq> Some 0" "\<And>n. target = Some n \<Longrightarrow> length got < n"
  shows "scanned target (got @ drop skip (filter keep js)) (skip - length (filter keep js)) (scan_batch keep target js skip got)"
  using assms
proof (induction js arbitrary: skip got)
  case Nil
  then show ?case by (simp add: scanned_def)
next
  case (Cons j js)
  show ?case
  proof (cases "keep j")
    case False
    then show ?thesis using Cons.IH [OF Cons.prems] by simp
  next
    case True
    show ?thesis
    proof (cases skip)
      case (Suc k)
      then show ?thesis using True Cons.IH [OF Cons.prems, where skip = k] by simp
    next
      case 0
      show ?thesis
      proof (cases "\<exists>n. target = Some n \<and> n \<le> Suc (length got)")
        case True
        then obtain n where n: "target = Some n" "n = Suc (length got)" using Cons.prems(2) by force
        then show ?thesis using \<open>keep j\<close> 0 by (simp add: page_def scanned_def)
      next
        case False
        have "length (got @ [j]) < n" if "target = Some n" for n using False that by auto
        note IH = Cons.IH [where got = "got @ [j]" and skip = 0, OF Cons.prems(1) this]
        have "scan_batch keep target (j # js) 0 got = scan_batch keep target js 0 (got @ [j])"
          using True False by (auto split: option.split)
        then show ?thesis using IH True 0 by simp
      qed
    qed
  qed
qed

lemma scan_batches_spec:
  assumes "0 < n" "target \<noteq> Some 0" "\<And>m. target = Some m \<Longrightarrow> length got < m"
  shows "scan_batches keep target n js skip got = page target None (got @ drop skip (filter keep js))"
  using assms
proof (induction keep target n js skip got rule: scan_batches.induct)
  case (1 keep target n js skip got)
  let ?c = "take n js"
  have split: "filter keep js = filter keep ?c @ filter keep (drop n js)" by (metis append_take_drop_id filter_append)
  note batch = scan_batch_spec [where keep = keep and js = ?c and skip = skip, OF 1(3,4)]
  show ?case
  proof (cases "?c = []")
    case True
    then have "js = []" using 1(2) by (simp add: take_eq_Nil)
    then show ?thesis using 1(4) by (subst scan_batches.simps) (auto simp: page_def split: option.split dest: less_imp_le)
  next
    case False
    show ?thesis
    proof (cases "scan_batch keep target ?c skip got")
      case (Inl out)
      let ?w = "got @ drop skip (filter keep ?c)"
      have "scanned target ?w (skip - length (filter keep ?c)) (Inl out)" using batch unfolding Inl .
      then have o: "out = page target None ?w" "\<exists>n. target = Some n \<and> length out = n" unfolding scanned_def sum.case by (rule conjunct1, rule conjunct2)
      then obtain m where t: "target = Some m" "length out = m" by blast
      have "out = take m ?w" using o(1) t(1) by (simp only: page_def Let_def option.case)
      note m = t this
      have "length (take m (got @ drop skip (filter keep ?c))) = m" using m(2) by (simp only: m(3) [symmetric])
      then have "m \<le> length (got @ drop skip (filter keep ?c))" by (rule take_whole)
      then have "take m (got @ drop skip (filter keep js)) = out" using m(3) by (simp add: split)
      then show ?thesis using Inl False m(1) by (subst scan_batches.simps) (simp add: page_def Let_def)
    next
      case (Inr p)
      obtain skip' got' where p: "p = (skip', got')" by (cases p)
      have b: "got' = got @ drop skip (filter keep ?c)" "skip' = skip - length (filter keep ?c)"
        "\<forall>m. target = Some m \<longrightarrow> length got' < m" using batch unfolding Inr p scanned_def sum.case prod.case by blast+
      show ?thesis
      proof (cases "length ?c < n")
        case True
        then have "js = ?c" by simp
        then have "got' = got @ drop skip (filter keep js)" using b(1) by simp
        then show ?thesis using Inr p False True b(3)
          by (subst scan_batches.simps) (auto simp: page_def Let_def split: option.split dest: less_imp_le)
      next
        case False
        have "scan_batches keep target n (drop n js) skip' got' = page target None (got' @ drop skip' (filter keep (drop n js)))"
          by (rule 1(1) [OF refl \<open>?c \<noteq> []\<close> Inr p [symmetric] False 1(2,3)]) (use b(3) in blast)
        moreover have "got' @ drop skip' (filter keep (drop n js)) = got @ drop skip (filter keep js)"
          using b(1,2) by (simp add: split)
        ultimately show ?thesis using Inr p False \<open>?c \<noteq> []\<close> by (subst scan_batches.simps) (simp add: Let_def)
      qed
    qed
  qed
qed

text \<open>
  C30: The batched listing of the backups is a page of the backups that are left on disk: scanning in batches,
  skipping and stopping early change nothing, and all pages together hold as many as the total says.
\<close>

theorem backup_listing_is_a_page:
  "list_backup_jobs case_blind nulls_first on_disk search limit offset False d =
     page limit (Some offset) (filter (backup_on_disk on_disk)
       (last_ended_first nulls_first (filter (\<lambda>j. recorded_backup j \<and> matches_backup_search case_blind search d j) (db_jobs d))))
   \<and> length (list_backup_jobs case_blind nulls_first on_disk search None 0 False d) = count_backup_jobs case_blind on_disk search d"
proof -
  have size: "0 < backup_listing_batch_size n" for n by (cases n) (simp_all add: backup_listing_batch_size_def max_def)
  have one: "list_backup_jobs case_blind nulls_first on_disk search limit offset False d =
     page limit (Some offset) (filter (backup_on_disk on_disk)
       (last_ended_first nulls_first (filter (\<lambda>j. recorded_backup j \<and> matches_backup_search case_blind search d j) (db_jobs d))))"
    for limit offset
  proof (cases "limit = Some 0")
    case True
    then show ?thesis by (simp add: list_backup_jobs_def page_def Let_def)
  next
    case False
    have "length ([] :: job list) < n" if "limit = Some n" for n using False that by simp
    from scan_batches_spec [OF size False this] show ?thesis
      using False by (simp add: list_backup_jobs_def page_def Let_def split: option.split)
  qed
  have "length (filter P (last_ended_first nulls_first xs)) = length (filter P xs)" for P xs
    by (simp add: last_ended_first_def filter_sort)
  then show ?thesis using one [of limit offset] one [of None 0] by (simp add: page_def count_backup_jobs_def)
qed

text \<open>The total of the job list is the number of rows all its pages have.\<close>

lemma job_total: "length (list_jobs case_blind q None None d) = count_jobs case_blind q d"
  by (simp add: list_jobs_def page_def newest_first_def count_jobs_def)

end
