(* ===== verification/Backup_Service.thy ===== *)
theory Backup_Service
  imports Review_Service Job_Views
begin

text \<open>
  The backups of replaced originals: deleting one, restoring one
  (\<open>delete_backup\<close> and \<open>restore_backup\<close> of \<open>src/apps/api/app/services/jobs.py\<close>) and the removal of those whose
  retention is over (\<open>cleanup_expired_backups\<close> there and in \<open>repositories/jobs.py\<close>). The files are those of
  reviews; \<open>is_dir\<close> does not arise, there being no directories among them.
\<close>

subsection \<open>Where a backup is\<close>

definition recorded_backup_path :: "job \<Rightarrow> api_error + path" where
  "recorded_backup_path j =
     (if truthy (j_original_backup_path j) then Inr (path_of (or_text (j_original_backup_path j) []))
      else Inl (ApiNotFound ''No backup is recorded for this job.''))"

definition backup_path_for_job :: "review_env \<Rightarrow> job \<Rightarrow> api_error + path" where
  "backup_path_for_job v j =
     (case recorded_backup_path j of
        Inl e \<Rightarrow> Inl e
      | Inr p \<Rightarrow>
          (case checked_path v pr_backup ''original_backup_path'' (Some p) of
             Inl e \<Rightarrow> Inl e
           | Inr None \<Rightarrow> Inl (ApiNotFound ''No backup is recorded for this job.'')
           | Inr (Some q) \<Rightarrow> Inr q))"

definition required_media_path :: "review_env \<Rightarrow> string \<Rightarrow> string \<Rightarrow> api_error + path" where
  "required_media_path v label s =
     (case media_path v label (Some (path_of s)) of
        Inl e \<Rightarrow> Inl e
      | Inr None \<Rightarrow> Inl (ApiValidation (label @ '' is required.''))
      | Inr (Some q) \<Rightarrow> Inr q)"

text \<open>A call of the file system nobody guards: its error ends the request.\<close>

definition os_call :: "(os_state \<Rightarrow> os_error option \<times> os_state) \<Rightarrow> (unit, review_state) handler" where
  "os_call f st =
     (case f (rs_os st) of
        (None, os) \<Rightarrow> (Inr (), st\<lparr>rs_os := os\<rparr>)
      | (Some e, os) \<Rightarrow> (Inl (Os_Failure e), st\<lparr>rs_os := os\<rparr>))"

definition existing_backup :: "review_env \<Rightarrow> job \<Rightarrow> (path, review_state) handler" where
  "existing_backup v j =
     andthen (reads (\<lambda>_. backup_path_for_job v j)) (\<lambda>p.
     andthen (require (\<lambda>st. exists_file (rs_os st) p) (ApiNotFound ''Backup file could not be found.'')) (\<lambda>_. returns p))"

subsection \<open>Deleting\<close>

definition delete_backup :: "review_env \<Rightarrow> row_id \<Rightarrow> (unit, review_state) handler" where
  "delete_backup v i =
     andthen (in_db (get_job i)) (\<lambda>j.
     andthen (existing_backup v j) (\<lambda>p.
     andthen (os_call (os_unlink p)) (\<lambda>_.
     in_db (writes (write_job (rx_now v) i (\<lambda>k. k\<lparr>j_backup_deleted_at := Some (rx_now v)\<rparr>))))))"

subsection \<open>Restoring\<close>

text \<open>The backup goes to the place of the original; an output elsewhere is removed if that works.\<close>

definition put_backup_back :: "path \<Rightarrow> path \<Rightarrow> path \<Rightarrow> (unit, review_state) handler" where
  "put_backup_back backup source output =
     andthen (os_call (os_rename backup source)) (\<lambda>_.
     touches (\<lambda>st. if source \<noteq> output \<and> exists_file (rs_os st) output
                   then st\<lparr>rs_os := snd (os_unlink output (rs_os st))\<rparr> else st))"

definition returned_to_review :: "tracked_file \<Rightarrow> tracked_file" where
  "returned_to_review f =
     f\<lparr>tf_lifecycle_state := FL_MANUAL_REVIEW, tf_compliance_state := CS_MANUAL_REVIEW,
       tf_last_processed_policy_version := None, tf_last_processed_profile_name := None\<rparr>"

definition store_restored :: "review_env \<Rightarrow> job \<Rightarrow> unit service" where
  "store_restored v j =
     andthen (writes (write_job (rx_now v) (j_id j) (\<lambda>k. k\<lparr>j_backup_restored_at := Some (rx_now v)\<rparr>))) (\<lambda>_.
     writes (\<lambda>d. case find_file d (j_tracked_file_id j) of
         None \<Rightarrow> Inl MissingRow
       | Some f \<Rightarrow> flush (put_file (rx_now v) (returned_to_review f) d)))"

definition hold_restored :: "review_env \<Rightarrow> job \<Rightarrow> row_id option \<Rightarrow> path \<Rightarrow> path \<Rightarrow> (instant \<Rightarrow> string) \<Rightarrow> review_state \<Rightarrow> review_state" where
  "hold_restored v j actor backup source stamp st =
     (case actor of
        None \<Rightarrow> st
      | Some u \<Rightarrow> st\<lparr>rs_decisions := rs_decisions st @
          [\<lparr>rd_tracked_file_id = j_tracked_file_id j, rd_plan_snapshot_id = Some (j_plan_snapshot_id j), rd_job_id = Some (j_id j),
            rd_decision_type = DT_HELD, rd_note = Some ''Restored from backup; review whether to skip or reprocess.'',
            rd_created_by_user_id = u,
            rd_details = Some (JObj [(''backup_path'', JStr (as_posix backup)), (''restored_source_path'', JStr (as_posix source)),
              (''restored_at'', JStr (stamp (rx_now v)))]), rd_created_at = rx_now v\<rparr>]\<rparr>)"

definition restore_backup :: "review_env \<Rightarrow> (instant \<Rightarrow> string) \<Rightarrow> row_id \<Rightarrow> row_id option \<Rightarrow> (unit, review_state) handler" where
  "restore_backup v stamp i actor =
     andthen (in_db (get_job i)) (\<lambda>j.
     andthen (in_db (lock_file (rx_service v) (j_tracked_file_id j))) (\<lambda>f.
     andthen (require (\<lambda>st. \<not> has_active_job_for_tracked_file (j_tracked_file_id j) (rs_db st))
       (ApiConflict ''An active job exists for this tracked file; restore the backup after it finishes.'')) (\<lambda>_.
     andthen (existing_backup v j) (\<lambda>backup.
     andthen (reads (\<lambda>_. required_media_path v ''source_path'' (tf_source_path f))) (\<lambda>source.
     andthen (reads (\<lambda>_. required_media_path v ''final_output_path'' (or_str (j_final_output_path j) (tf_source_path f)))) (\<lambda>output.
     andthen (require (\<lambda>st. \<not> (exists_file (rs_os st) source \<and> source \<noteq> output))
       (ApiConflict ''The original path is occupied and cannot be restored safely.'')) (\<lambda>_.
     andthen (put_backup_back backup source output) (\<lambda>_.
     andthen (in_db (store_restored v j)) (\<lambda>_.
     touches (hold_restored v j actor backup source stamp))))))))))"

subsection \<open>Retention\<close>

definition expired_backup :: "instant \<Rightarrow> job \<Rightarrow> bool" where
  "expired_backup now j \<longleftrightarrow>
     j_status j = JS_COMPLETED \<and> j_replacement_status j = DR_SUCCEEDED \<and> j_backup_policy j = ''keep_for_1_day'' \<and>
     (case j_backup_retention_until j of None \<Rightarrow> False | Some t \<Rightarrow> t \<le> now) \<and>
     j_original_backup_path j \<noteq> None \<and> j_backup_deleted_at j = None \<and> j_backup_restored_at j = None"

definition expired_backups :: "instant \<Rightarrow> db \<Rightarrow> job list" where
  "expired_backups now d =
     sort_key (\<lambda>j. (case j_backup_retention_until j of None \<Rightarrow> 0 | Some t \<Rightarrow> t, j_updated_at j, j_created_at j, j_id j))
       (filter (expired_backup now) (db_jobs d))"

text \<open>A path the roots do not allow is skipped.\<close>

definition validate_cleanup_backup_path :: "review_env \<Rightarrow> path \<Rightarrow> path option" where
  "validate_cleanup_backup_path v p =
     (case checked_path v pr_backup ''original_backup_path'' (Some p) of Inl _ \<Rightarrow> None | Inr q \<Rightarrow> q)"

definition cleanup_step :: "review_env \<Rightarrow> instant \<Rightarrow> job \<Rightarrow> (row_id list, review_state) handler" where
  "cleanup_step v now j st =
     (case validate_cleanup_backup_path v (path_of (or_text (j_original_backup_path j) [])) of
        None \<Rightarrow> (Inr [], st)
      | Some p \<Rightarrow>
          if \<not> exists_file (rs_os st) p then (Inr [], st)
          else andthen (os_call (os_unlink p)) (\<lambda>_.
            andthen (touches (\<lambda>s. s\<lparr>rs_db := put_job now (j\<lparr>j_backup_deleted_at := Some now\<rparr>) (rs_db s)\<rparr>)) (\<lambda>_. returns [j_id j])) st)"

fun cleanup_all :: "review_env \<Rightarrow> instant \<Rightarrow> job list \<Rightarrow> (row_id list, review_state) handler" where
  "cleanup_all v now [] = returns []"
| "cleanup_all v now (j # js) = andthen (cleanup_step v now j) (\<lambda>a. andthen (cleanup_all v now js) (\<lambda>b. returns (a @ b)))"

definition cleanup_expired_backups :: "review_env \<Rightarrow> (row_id list, review_state) handler" where
  "cleanup_expired_backups v st = cleanup_all v (rx_now v) (expired_backups (rx_now v) (rs_db st)) st"

subsection \<open>Putting the original back\<close>

lemma os_call_Inr: "os_call f st = (Inr x, st') \<longleftrightarrow> (\<exists>os. f (rs_os st) = (None, os) \<and> st' = st\<lparr>rs_os := os\<rparr>)"
  by (auto simp: os_call_def split: prod.splits option.splits)

lemma rename_None: "os_rename p q os = (None, os') \<Longrightarrow> \<exists>c. files os p = Some c \<and> files os' = (files os)(p := None, q := Some c)"
  by (auto simp: os_rename_def split: os_fault.splits option.splits)

lemma unlink_files: "files (snd (os_unlink p os)) q = files os q \<or> q = p"
  by (auto simp: os_unlink_def split: os_fault.splits option.splits)

lemma put_backup_back_Inr:
  assumes "put_backup_back backup source placed st = (Inr x, st')"
  shows "exists_file (rs_os st) backup \<and> files (rs_os st') source = files (rs_os st) backup \<and>
    changed_files (rs_os st) (rs_os st') \<subseteq> {backup, source, placed} \<and> rs_db st' = rs_db st \<and> rs_decisions st' = rs_decisions st"
proof -
  obtain os where os: "os_rename backup source (rs_os st) = (None, os)"
    and st': "st' = (if source \<noteq> placed \<and> exists_file os placed then st\<lparr>rs_os := snd (os_unlink placed os)\<rparr> else st\<lparr>rs_os := os\<rparr>)"
    using assms by (auto simp: put_backup_back_def andthen_Inr os_call_Inr touches_def)
  obtain c where c: "files (rs_os st) backup = Some c" "files os = (files (rs_os st))(backup := None, source := Some c)"
    using rename_None [OF os] by blast
  have same: "files (rs_os st') q = files os q" if "q \<noteq> placed \<or> source = placed" for q
    using unlink_files [where os = os and q = q] that by (auto simp: st')
  have "files (rs_os st') q = files (rs_os st) q" if "q \<notin> {backup, source, placed}" for q
    using same [of q] that c(2) by simp
  then have "changed_files (rs_os st) (rs_os st') \<subseteq> {backup, source, placed}" unfolding changed_files_def by fastforce
  moreover have "rs_db st' = rs_db st" "rs_decisions st' = rs_decisions st" by (simp_all add: st')
  moreover have "files (rs_os st') source = Some c" using same [of source] c(2) by auto
  ultimately show ?thesis using c(1) by (simp add: exists_file_def)
qed

text \<open>
  C21: A replacement can be undone: after an output was placed and the original kept as a backup, putting the backup
  back makes the source path hold the original content again, whatever the placement did before.
\<close>

theorem restored_backup_undoes_replacement:
  assumes "place_verified_output uuids source staged p os = Done r os'" "separate_paths source staged" "rr_status r = R_SUCCEEDED"
    and "in_place (plan_replace p)" "existing_backup_strategy (plan_replace p) \<noteq> ''keep_existing_backup''"
    and "rr_original_backup_path r = Some backup" "\<not> rr_deleted_original_source r"
    and "put_backup_back backup source placed st = (Inr x, st')" "files (rs_os st) backup = files os' backup"
  shows "files (rs_os st') source = files os source"
proof -
  have "files os' backup = files os source" using placed_output [OF assms(1-3)] assms(4-7) by auto
  then show ?thesis using put_backup_back_Inr [OF assms(8)] assms(9) by simp
qed

subsection \<open>What a restore leaves behind\<close>

lemma lock_in_db: "in_db (lock_file s i) st = (Inr f, st') \<longleftrightarrow>
    st' = st\<lparr>rs_db := lock_for_update (sv_now s) i (rs_db st)\<rparr> \<and> (\<exists>f0. find_file (rs_db st) i = Some f0 \<and> f = f0\<lparr>tf_updated_at := sv_now s\<rparr>)"
  by (auto simp: in_db_Inr lock_file_Inr)

lemma get_in_db: "in_db (get_job i) st = (Inr j, st') \<longleftrightarrow> find_job (rs_db st) i = Some j \<and> st' = st"
  by (auto simp: in_db_Inr get_job_Inr)

lemma existing_backup_Inr: "existing_backup v j st = (Inr p, st') \<longleftrightarrow> backup_path_for_job v j = Inr p \<and> exists_file (rs_os st) p \<and> st' = st"
  by (auto simp: existing_backup_def andthen_Inr reads_Inr require_Inr returns_Inr)

lemma restore_backup_Inr:
  assumes "restore_backup v stamp i actor st = (Inr x, st')"
  obtains j f backup source placed st1 d where
    "find_job (rs_db st) i = Some j" "find_file (rs_db st) (j_tracked_file_id j) = Some f"
    "\<not> has_active_job_for_tracked_file (j_tracked_file_id j) (rs_db st)" "backup_path_for_job v j = Inr backup"
    "required_media_path v ''source_path'' (tf_source_path f) = Inr source"
    "required_media_path v ''final_output_path'' (or_str (j_final_output_path j) (tf_source_path f)) = Inr placed"
    "source = placed \<or> \<not> exists_file (rs_os st) source"
    "put_backup_back backup source placed (st\<lparr>rs_db := lock_for_update (rx_now v) (j_tracked_file_id j) (rs_db st)\<rparr>) = (Inr (), st1)"
    "store_restored v j (rs_db st1) = (Inr (), d)" "st' = hold_restored v j actor backup source stamp (st1\<lparr>rs_db := d\<rparr>)"
proof -
  from assms show thesis
    by (auto simp: restore_backup_def andthen_Inr get_in_db lock_in_db require_Inr existing_backup_Inr reads_Inr in_db_Inr [of "store_restored _ _"]
        touches_def rx_now_def intro!: that)
qed


lemma stamped_column: "(\<And>j t. column (j\<lparr>j_updated_at := t\<rparr>) = column j) \<Longrightarrow> column (stamped now f k) = column (f k)"
  by (simp add: stamped_def)

lemma store_restored_Inr:
  assumes "well_keyed d" "find_job d (j_id j) = Some k" "find_file d (j_tracked_file_id j) = Some f" "store_restored v j d = (Inr x, d')"
  shows "(\<exists>k'. find_job d' (j_id j) = Some k' \<and> j_backup_restored_at k' = Some (rx_now v) \<and> j_status k' = j_status k) \<and>
    (\<exists>t. find_file d' (j_tracked_file_id j) = Some ((returned_to_review f)\<lparr>tf_updated_at := t\<rparr>)) \<and> edits (db_jobs d) (db_jobs d')"
proof -
  let ?now = "rx_now v" and ?f = "\<lambda>k. k\<lparr>j_backup_restored_at := Some (rx_now v)\<rparr>"
  obtain d1 where d1: "write_job ?now (j_id j) ?f d = Inr d1"
    and d2: "(case find_file d1 (j_tracked_file_id j) of None \<Rightarrow> Inl MissingRow
         | Some f \<Rightarrow> flush (put_file ?now (returned_to_review f) d1)) = Inr d'"
    using assms(4) by (auto simp: store_restored_def andthen_Inr writes_Inr)
  have eq: "d1 = d\<lparr>db_jobs := rewrite_jobs ?now {j_id j} ?f (db_jobs d)\<rparr>" using write_job_Inr [OF d1 assms(1)] by simp
  have job: "find_job d1 (j_id j) = Some (stamped ?now ?f k)" using assms(2) by (simp add: find_job_def find_rewrite eq)
  have ff: "find_file d1 (j_tracked_file_id j) = Some f" using assms(3) by (simp add: find_file_def eq)
  have d': "d' = put_file ?now (returned_to_review f) d1" using d2 by (simp add: ff flush_Inr)
  have "tf_id (returned_to_review f) = j_tracked_file_id j" using find_file_Some [OF ff] by (simp add: returned_to_review_def)
  from find_put_file [OF ff this, of ?now] obtain t where "find_file d' (j_tracked_file_id j) = Some ((returned_to_review f)\<lparr>tf_updated_at := t\<rparr>)"
    by (auto simp: d')
  moreover have "find_job d' (j_id j) = Some (stamped ?now ?f k)" using job by (simp add: d' find_job_def)
  moreover have "j_backup_restored_at (stamped ?now ?f k) = Some ?now" "j_status (stamped ?now ?f k) = j_status k"
    using stamped_column [of j_backup_restored_at ?now ?f k] by (simp_all add: stamped_fields)
  moreover have "edits (db_jobs d) (db_jobs d1)"
    by (rule write_edits [OF assms(1) d1], rule note_row) (simp_all add: same_job_def same_control_def)
  ultimately show ?thesis by (auto simp: d')
qed

text \<open>
  A restore that succeeds ran on a file without an active job: the original path holds what the backup held,
  the job is marked as restored, and the file waits for review with no trace of the policy it was processed under.
  No file changes but the backup, the original and the output.
\<close>

theorem restore_returns_original:
  assumes "well_keyed (rs_db st)" "restore_backup v stamp i actor st = (Inr x, st')"
  shows "\<exists>j f backup source placed k g. find_job (rs_db st) i = Some j \<and> find_file (rs_db st) (j_tracked_file_id j) = Some f \<and>
    \<not> has_active_job_for_tracked_file (j_tracked_file_id j) (rs_db st) \<and>
    backup_path_for_job v j = Inr backup \<and> required_media_path v ''source_path'' (tf_source_path f) = Inr source \<and>
    files (rs_os st') source = files (rs_os st) backup \<and> exists_file (rs_os st') source \<and>
    changed_files (rs_os st) (rs_os st') \<subseteq> {backup, source, placed} \<and>
    find_job (rs_db st') i = Some k \<and> j_backup_restored_at k = Some (rx_now v) \<and> j_status k = j_status j \<and>
    find_file (rs_db st') (j_tracked_file_id j) = Some g \<and> tf_lifecycle_state g = FL_MANUAL_REVIEW \<and>
    tf_last_processed_policy_version g = None"
proof -
  from restore_backup_Inr [OF assms(2)] obtain j f backup source placed st1 d where *:
    "find_job (rs_db st) i = Some j" "find_file (rs_db st) (j_tracked_file_id j) = Some f"
    "\<not> has_active_job_for_tracked_file (j_tracked_file_id j) (rs_db st)" "backup_path_for_job v j = Inr backup"
    "required_media_path v ''source_path'' (tf_source_path f) = Inr source"
    "put_backup_back backup source placed (st\<lparr>rs_db := lock_for_update (rx_now v) (j_tracked_file_id j) (rs_db st)\<rparr>) = (Inr (), st1)"
    "store_restored v j (rs_db st1) = (Inr (), d)" "st' = hold_restored v j actor backup source stamp (st1\<lparr>rs_db := d\<rparr>)" by metis
  have id: "j_id j = i" using find_job_Some [OF *(1)] by simp
  note put = put_backup_back_Inr [OF *(6)]
  have db1: "rs_db st1 = lock_for_update (rx_now v) (j_tracked_file_id j) (rs_db st)" using put by simp
  have wk: "well_keyed (rs_db st1)" using assms(1) by (simp add: db1 well_keyed_def)
  have rows: "find_job (rs_db st1) (j_id j) = Some j"
    "find_file (rs_db st1) (j_tracked_file_id j) = Some (f\<lparr>tf_updated_at := rx_now v\<rparr>)"
    using *(1,2) id find_file_Some [OF *(2)] by (simp_all add: db1 find_lock)
  note stored = store_restored_Inr [OF wk rows *(7)]
  have st': "rs_os st' = rs_os st1" "rs_db st' = d" by (simp_all add: *(8) hold_restored_def split: option.split)
  show ?thesis
    using *(1-5) put stored st' id by (auto simp: returned_to_review_def exists_file_def)
qed

subsection \<open>Retention\<close>

text \<open>What one step does: no file appears, the backup is gone, and the other rows stay.\<close>

lemma cleanup_step_Inr:
  assumes "cleanup_step v now j st = (Inr ids, st')"
  shows "\<forall>q. exists_file (rs_os st') q \<longrightarrow> exists_file (rs_os st) q"
    and "validate_cleanup_backup_path v (path_of (or_text (j_original_backup_path j) [])) = Some p \<Longrightarrow> \<not> exists_file (rs_os st') p"
    and "k \<in> set (db_jobs (rs_db st)) \<Longrightarrow> j_id k \<noteq> j_id j \<Longrightarrow> k \<in> set (db_jobs (rs_db st'))"
proof -
  let ?q = "validate_cleanup_backup_path v (path_of (or_text (j_original_backup_path j) []))"
  have unlinked: "files os = (files (rs_os st))(p := None)" if "os_unlink p (rs_os st) = (None, os)" for p os
    using that by (auto simp: os_unlink_def split: os_fault.splits option.splits)
  consider (skip) "st' = st" "\<forall>p. ?q = Some p \<longrightarrow> \<not> exists_file (rs_os st) p"
    | (gone) p os where "?q = Some p" "files os = (files (rs_os st))(p := None)"
        "st' = st\<lparr>rs_os := os, rs_db := put_job now (j\<lparr>j_backup_deleted_at := Some now\<rparr>) (rs_db st)\<rparr>"
  proof (cases "\<exists>p. ?q = Some p \<and> exists_file (rs_os st) p")
    case False
    then have "cleanup_step v now j st = (Inr [], st)" by (auto simp: cleanup_step_def split: option.split)
    then show thesis using skip assms False by simp
  next
    case True
    then obtain p where p: "?q = Some p" "exists_file (rs_os st) p" by blast
    then obtain os where os: "os_unlink p (rs_os st) = (None, os)"
        "st' = st\<lparr>rs_os := os, rs_db := put_job now (j\<lparr>j_backup_deleted_at := Some now\<rparr>) (rs_db st)\<rparr>"
      using assms by (auto simp: cleanup_step_def andthen_Inr os_call_Inr touches_def returns_Inr)
    show thesis by (rule gone [OF p(1) unlinked [OF os(1)] os(2)])
  qed
  note cases = this
  show "\<forall>q. exists_file (rs_os st') q \<longrightarrow> exists_file (rs_os st) q"
    using cases by cases (auto simp: exists_file_def split: if_splits)
  show "\<not> exists_file (rs_os st') p" if "?q = Some p" using cases that by cases (auto simp: exists_file_def)
  show "k \<in> set (db_jobs (rs_db st'))" if "k \<in> set (db_jobs (rs_db st))" "j_id k \<noteq> j_id j"
    using cases
  proof cases
    case gone
    then show ?thesis using that by (auto simp: put_job_def)
  qed (use that in simp)
qed

lemma cleanup_all_Inr:
  assumes "cleanup_all v now js st = (Inr ids, st')"
  shows "(\<forall>q. exists_file (rs_os st') q \<longrightarrow> exists_file (rs_os st) q) \<and>
    (\<forall>j p. j \<in> set js \<and> validate_cleanup_backup_path v (path_of (or_text (j_original_backup_path j) [])) = Some p \<longrightarrow> \<not> exists_file (rs_os st') p) \<and>
    (\<forall>k. k \<in> set (db_jobs (rs_db st)) \<and> j_id k \<notin> j_id ` set js \<longrightarrow> k \<in> set (db_jobs (rs_db st')))"
  using assms
proof (induction js arbitrary: st ids)
  case Nil
  then show ?case by (simp add: returns_Inr)
next
  case (Cons j js)
  then obtain a b st1 where s: "cleanup_step v now j st = (Inr a, st1)" "cleanup_all v now js st1 = (Inr b, st')"
    by (auto simp: andthen_Inr returns_Inr)
  note step = cleanup_step_Inr [OF s(1)]
  from Cons.IH [OF s(2)] step show ?case by auto
qed

text \<open>
  The clean-up looks at one row at a time. When the retention of a job is over, its backup is deleted even
  if a later job of the same file, whose policy is to keep the backup, recorded the same path; the row of that
  job still says the backup is there.
\<close>

theorem expired_backup_of_other_job_is_deleted:
  assumes "cleanup_expired_backups v st = (Inr ids, st')" "j \<in> set (db_jobs (rs_db st))" "expired_backup (rx_now v) j"
    and "validate_cleanup_backup_path v (path_of (or_text (j_original_backup_path j) [])) = Some p"
    and "k \<in> set (db_jobs (rs_db st))" "j_original_backup_path k = j_original_backup_path j" "j_backup_policy k = ''keep''"
    and "recorded_backup k" "distinct (map j_id (db_jobs (rs_db st)))"
  shows "\<not> exists_file (rs_os st') p \<and> k \<in> set (db_jobs (rs_db st')) \<and> recorded_backup k \<and>
    validate_cleanup_backup_path v (path_of (or_text (j_original_backup_path k) [])) = Some p"
proof -
  let ?js = "expired_backups (rx_now v) (rs_db st)"
  have js: "set ?js = {j \<in> set (db_jobs (rs_db st)). expired_backup (rx_now v) j}" by (simp add: expired_backups_def)
  have "k \<notin> set ?js" using assms(7) by (simp add: js expired_backup_def)
  then have "j_id k \<notin> j_id ` set ?js" using assms(5,9) by (auto simp: js distinct_map inj_on_def)
  then show ?thesis
    using cleanup_all_Inr [OF assms(1) [unfolded cleanup_expired_backups_def]] assms(2-6,8) by (auto simp: js)
qed

subsection \<open>Backups and the job table\<close>

lemma cleanup_edits:
  assumes "well_keyed (rs_db st)" "distinct (map j_id js)" "\<And>j. j \<in> set js \<Longrightarrow> find_job (rs_db st) (j_id j) = Some j"
  shows "edits (db_jobs (rs_db st)) (db_jobs (rs_db (snd (cleanup_all v now js st))))"
  using assms
proof (induction js arbitrary: st)
  case Nil
  then show ?case by (simp add: returns_def edits_none)
next
  case (Cons j js)
  let ?f = "\<lambda>k. k\<lparr>j_backup_deleted_at := Some now\<rparr>"
  have fj: "find_job (rs_db st) (j_id j) = Some j" using Cons.prems(3) by simp
  have calm: "calm ?f j" by (simp add: calm_def is_active_def)
  let ?d = "(rs_db st)\<lparr>db_jobs := rewrite_jobs now {j_id j} ?f (db_jobs (rs_db st))\<rparr>"
  have put: "put_job now (?f j) (rs_db st) = ?d" by (rule put_job_eq [OF Cons.prems(1) fj]) simp
  note wr = calm_write_job [OF Cons.prems(1) fj calm, of now]
  have e1: "edits (db_jobs (rs_db st)) (db_jobs ?d)"
    by (rule write_edits [OF Cons.prems(1) wr(1)], rule note_row) (simp_all add: same_job_def same_control_def)
  obtain q st1 where step: "cleanup_step v now j st = (q, st1)" by force
  have db1: "rs_db st1 = rs_db st \<or> rs_db st1 = ?d"
    using step put by (auto simp: cleanup_step_def andthen_def os_call_def touches_def returns_def split: option.splits if_splits prod.splits sum.splits)
  then have e: "edits (db_jobs (rs_db st)) (db_jobs (rs_db st1))" and wk: "well_keyed (rs_db st1)"
    using e1 wr(2) Cons.prems(1) by (auto simp: edits_none)
  have rest: "find_job (rs_db st1) (j_id k) = Some k" if "k \<in> set js" for k
  proof -
    have "j_id k \<noteq> j_id j" using that Cons.prems(2) by (metis distinct.simps(2) image_eqI image_set list.simps(9))
    then show ?thesis using Cons.prems(3) [of k] that db1 by (auto simp: find_job_def find_rewrite)
  qed
  show ?case
  proof (cases q)
    case (Inl x)
    then show ?thesis using e step by (simp add: andthen_def)
  next
    case (Inr x)
    have "edits (db_jobs (rs_db st1)) (db_jobs (rs_db (snd (cleanup_all v now js st1))))"
      by (rule Cons.IH [OF wk]) (use Cons.prems(2) rest in auto)
    moreover have "rs_db (snd (cleanup_all v now (j # js) st)) = rs_db (snd (cleanup_all v now js st1))"
      using step Inr by (auto simp: andthen_def returns_def split: prod.split sum.split)
    ultimately show ?thesis using e edits_trans by metis
  qed
qed

lemma reviews_cleanup: "reviews (cleanup_expired_backups v)"
  unfolding reviews_def
proof (intro allI impI)
  fix st :: review_state assume ok: "db_ok (rs_db st)"
  let ?js = "expired_backups (rx_now v) (rs_db st)"
  have wk: "well_keyed (rs_db st)" using ok by (simp add: db_ok_def)
  have "inj_on j_id (set ?js)" using wk by (auto simp: expired_backups_def well_keyed_def distinct_map intro: inj_on_subset)
  moreover have "distinct ?js" using wk by (simp add: expired_backups_def well_keyed_def distinct_map)
  ultimately have d: "distinct (map j_id ?js)" by (simp add: distinct_map)
  have "find_job (rs_db st) (j_id j) = Some j" if "j \<in> set ?js" for j
    using that find_job_unique [OF wk] by (auto simp: expired_backups_def)
  from cleanup_edits [OF wk d this] show "edits (db_jobs (rs_db st)) (db_jobs (rs_db (snd (cleanup_expired_backups v st))))"
    by (simp add: cleanup_expired_backups_def)
qed

lemma reviews_existing: "reviews (existing_backup v j)"
  unfolding existing_backup_def by (auto intro!: reviews_andthen)

lemma reviews_os_call: "reviews (os_call f)"
  by (rule reviews_quiet) (simp add: os_call_def split: prod.split option.split)

lemma serve_note_write:
  assumes "\<And>j. row_step j (f j)"
  shows "serves anywhere (writes (write_job now i f)) (\<lambda>_. anywhere)"
  by (rule serves_writes) (auto simp: db_ok_def intro: write_edits [OF _ _ assms])

lemma reviews_delete_backup: "reviews (delete_backup v i)"
proof -
  have "row_step j (j\<lparr>j_backup_deleted_at := t\<rparr>)" for j t by (rule note_row) (simp_all add: same_job_def same_control_def)
  then have w: "reviews (in_db (writes (write_job now i (\<lambda>k. k\<lparr>j_backup_deleted_at := t\<rparr>))))" for now t
    by (intro reviews_in_db serve_note_write)
  have "serves anywhere (get_job i) (\<lambda>_. anywhere)" by (rule serves_weaken [OF serve_found_job]) simp_all
  then show ?thesis
    unfolding delete_backup_def by (intro reviews_andthen reviews_in_db [of "get_job i"] reviews_existing reviews_os_call w)
qed

lemma reviews_restore_backup: "reviews (restore_backup v stamp i actor)"
proof -
  have g: "serves anywhere (get_job i) (\<lambda>_. anywhere)" by (rule serves_weaken [OF serve_found_job]) simp_all
  have "row_step j (j\<lparr>j_backup_restored_at := t\<rparr>)" for j t by (rule note_row) (simp_all add: same_job_def same_control_def)
  then have s: "serves anywhere (store_restored v j) (\<lambda>_. anywhere)" for j
    unfolding store_restored_def by (intro serves_andthen [OF serve_note_write] serve_flush_file)
  have p: "reviews (put_backup_back a b c)" for a b c
    unfolding put_backup_back_def by (intro reviews_andthen reviews_os_call reviews_quiet) (simp add: touches_def)
  have h: "reviews (touches (hold_restored v j actor a b stamp))" for j a b
    by (rule reviews_quiet) (simp add: touches_def hold_restored_def split: option.split)
  show ?thesis
    unfolding restore_backup_def
    by (intro reviews_andthen reviews_in_db [OF g] reviews_in_db [OF serve_lock_file] reviews_simple reviews_existing p reviews_in_db [OF s] h)
qed

subsection \<open>Concrete backups\<close>

definition backup_job :: "row_id \<Rightarrow> string \<Rightarrow> job" where
  "backup_job i backup_rule = sample_job\<lparr>j_id := i, j_status := JS_COMPLETED, j_completed_at := Some 1800, j_replacement_status := DR_SUCCEEDED,
     j_original_backup_path := Some ''/m/a.encodr-backup.mkv'', j_final_output_path := Some ''/m/a.mkv'', j_backup_policy := backup_rule,
     j_backup_retention_until := (if backup_rule = ''keep_for_1_day'' then Some 4000 else None)\<rparr>"

definition backup_state :: review_state where
  "backup_state = \<lparr>rs_db = sample_db [backup_job 7 ''keep_for_1_day'', backup_job 8 ''keep''], rs_decisions = [],
     rs_os = \<lparr>files = [path_of ''/m/a.mkv'' \<mapsto> ''new'', path_of ''/m/a.encodr-backup.mkv'' \<mapsto> ''old''], fault_at = (\<lambda>_. NoFault), calls = 0\<rparr>\<rparr>"

lemma backup_rows [simp]: "j_id (backup_job i r) = i" "j_status (backup_job i r) = JS_COMPLETED" "j_tracked_file_id (backup_job i r) = 3"
  "j_original_backup_path (backup_job i r) = Some ''/m/a.encodr-backup.mkv''" "j_backup_policy (backup_job i r) = r" "\<not> is_active (backup_job i r)"
  by (simp_all add: backup_job_def is_active_def active_job_statuses_def)

lemma Inr_run: "\<not> isl (fst r) \<Longrightarrow> \<exists>x s. r = (Inr x, s)"
  by (cases r; cases "fst r") auto

lemma backup_state_keyed: "well_keyed (rs_db backup_state)" "distinct (map j_id (db_jobs (rs_db backup_state)))"
  by (simp_all add: backup_state_def well_keyed_def one_active_per_file_def)

lemma restore_returns_original_witness:
  "\<exists>st'. restore_backup sample_review_env (\<lambda>_. []) 8 (Some 1) backup_state = (Inr (), st') \<and>
     files (rs_os st') (path_of ''/m/a.mkv'') = Some ''old''"
proof -
  have "\<not> isl (fst (restore_backup sample_review_env (\<lambda>_. []) 8 (Some 1) backup_state))" by code_simp
  then obtain st' where run: "restore_backup sample_review_env (\<lambda>_. []) 8 (Some 1) backup_state = (Inr (), st')" using Inr_run by fastforce
  have p: "backup_path_for_job sample_review_env (backup_job 8 ''keep'') = Inr (path_of ''/m/a.encodr-backup.mkv'')"
    "required_media_path sample_review_env ''source_path'' (tf_source_path sample_tracked) = Inr (path_of ''/m/a.mkv'')" by code_simp+
  have rows: "find_job (rs_db backup_state) 8 = Some (backup_job 8 ''keep'')" "find_file (rs_db backup_state) 3 = Some sample_tracked"
    by (simp_all add: backup_state_def find_job_def find_file_def sample_tracked_def)
  have "files (rs_os backup_state) (path_of ''/m/a.encodr-backup.mkv'') = Some ''old''" by code_simp
  then show ?thesis
    using restore_returns_original [OF backup_state_keyed(1) run] rows p run by auto
qed

lemma expired_backup_of_other_job_is_deleted_witness:
  "\<exists>ids st'. cleanup_expired_backups sample_review_env backup_state = (Inr ids, st') \<and>
     \<not> exists_file (rs_os st') (path_of ''/m/a.encodr-backup.mkv'') \<and> backup_job 8 ''keep'' \<in> set (db_jobs (rs_db st'))"
proof -
  have "\<not> isl (fst (cleanup_expired_backups sample_review_env backup_state))" by code_simp
  then obtain ids st' where run: "cleanup_expired_backups sample_review_env backup_state = (Inr ids, st')" using Inr_run by blast
  have "expired_backup (rx_now sample_review_env) (backup_job 7 ''keep_for_1_day'')" "recorded_backup (backup_job 8 ''keep'')"
    "validate_cleanup_backup_path sample_review_env (path_of (or_text (j_original_backup_path (backup_job 7 ''keep_for_1_day'')) []))
       = Some (path_of ''/m/a.encodr-backup.mkv'')" by code_simp+
  note e = this
  have "backup_job 7 ''keep_for_1_day'' \<in> set (db_jobs (rs_db backup_state))" "backup_job 8 ''keep'' \<in> set (db_jobs (rs_db backup_state))"
    by (simp_all add: backup_state_def)
  note m = this
  from expired_backup_of_other_job_is_deleted [OF run m(1) e(1,3) m(2) _ _ e(2) backup_state_keyed(2)] run show ?thesis by simp
qed

lemma restored_backup_undoes_replacement_witness:
  "\<exists>os st'. review_placement = Done (the (run_result review_placement)) os \<and>
     put_backup_back (path_of ''/m/a.encodr-backup.mkv'') (path_of ''/m/a.mkv'') (path_of ''/m/a.mkv'') (review_start\<lparr>rs_os := os\<rparr>) = (Inr (), st') \<and>
     files (rs_os st') (path_of ''/m/a.mkv'') = Some ''old''"
proof -
  have e: "map_option rr_status (run_result review_placement) = Some R_SUCCEEDED"
    "map_option rr_original_backup_path (run_result review_placement) = Some (Some (path_of ''/m/a.encodr-backup.mkv''))"
    "map_option rr_deleted_original_source (run_result review_placement) = Some False"
    "\<not> isl (fst (case review_placement of Done r os \<Rightarrow>
       put_backup_back (path_of ''/m/a.encodr-backup.mkv'') (path_of ''/m/a.mkv'') (path_of ''/m/a.mkv'') (review_start\<lparr>rs_os := os\<rparr>)
     | _ \<Rightarrow> (Inl Never_Returns, review_start)))" by code_simp+
  from e(1) obtain r where r: "run_result review_placement = Some r" "rr_status r = R_SUCCEEDED" by auto
  obtain os where run: "review_placement = Done r os" using run_result_SomeD [OF r(1)] by blast
  obtain st' where undone: "put_backup_back (path_of ''/m/a.encodr-backup.mkv'') (path_of ''/m/a.mkv'') (path_of ''/m/a.mkv'')
      (review_start\<lparr>rs_os := os\<rparr>) = (Inr (), st')" using e(4) Inr_run unfolding run by fastforce
  have s: "in_place (plan_replace (sn_payload sample_snapshot))"
    "existing_backup_strategy (plan_replace (sn_payload sample_snapshot)) \<noteq> ''keep_existing_backup''" by code_simp+
  from restored_backup_undoes_replacement [OF run [unfolded review_placement_def] sample_separate r(2) s _ _ undone] e(2,3) r(1)
  have "files (rs_os st') (path_of ''/m/a.mkv'') = files (sample_os (\<lambda>_. NoFault)) (path_of ''/m/a.mkv'')" by simp
  then show ?thesis using run r undone by (auto simp: sample_old)
qed

end
