(* ===== verification/Probe.thy ===== *)
theory Probe
  imports Verification Scheduling Planner "HOL-Library.Multiset"
begin

text \<open>
  What ffprobe reports becomes a media file (\<open>encodr_core/media/normalise.py\<close>, \<open>encodr_core/probe/client.py\<close>,
  \<open>probe/parser.py\<close>, \<open>probe/errors.py\<close>). The payload is a JSON value; the printing of floats, lists and objects by \<open>str\<close>
  and the JSON parser are parameters. A float is read from decimal notation: \<open>inf\<close> and \<open>nan\<close>, which have no
  place among the rationals of the model, are not numbers here.
\<close>

subsection \<open>Scalars\<close>

fun py_str :: "(json \<Rightarrow> string) \<Rightarrow> json \<Rightarrow> string" where
  "py_str repr (JStr s) = s"
| "py_str repr (JInt n) = show_int n"
| "py_str repr (JBool b) = (if b then ''True'' else ''False'')"
| "py_str repr v = repr v"

definition as_string :: "(json \<Rightarrow> string) \<Rightarrow> json \<Rightarrow> string option" where
  "as_string repr v =
     (if v = JNull then None else let t = py_strip (py_str repr v) in if t = [] then None else Some t)"

definition as_int :: "(json \<Rightarrow> string) \<Rightarrow> json \<Rightarrow> int option" where
  "as_int repr v = (if v \<in> {JNull, JStr [], JStr ''N/A''} then None else py_int (py_str repr v))"

text \<open>\<open>float(text)\<close>: a sign, digits with a point, an exponent; the value is rounded once.\<close>

definition signed :: "string \<Rightarrow> bool \<times> string" where
  "signed s = (case s of [] \<Rightarrow> (False, []) | c # cs \<Rightarrow>
     if c = CHR ''-'' then (True, cs) else if c = CHR ''+'' then (False, cs) else (False, s))"

definition digits_or_none :: "string \<Rightarrow> int option" where
  "digits_or_none s = (if s = [] then Some 0 else int_digits False 0 s)"

definition decimal_places :: "string \<Rightarrow> nat" where
  "decimal_places s = length (filter (\<lambda>c. c \<noteq> CHR ''_'') s)"

definition read_mantissa :: "string \<Rightarrow> rat option" where
  "read_mantissa s =
     (let whole = takeWhile (\<lambda>c. c \<noteq> CHR ''.'') s; part = drop (Suc (length whole)) s in
      if whole = [] \<and> part = [] then None
      else case (digits_or_none whole, digits_or_none part) of
        (Some a, Some b) \<Rightarrow> Some (of_int a + of_int b / 10 ^ decimal_places part)
      | _ \<Rightarrow> None)"

definition is_exponent_mark :: "char \<Rightarrow> bool" where
  "is_exponent_mark c \<longleftrightarrow> c = CHR ''e'' \<or> c = CHR ''E''"

definition read_exponent :: "string \<Rightarrow> int option" where
  "read_exponent s = (case signed s of (neg, t) \<Rightarrow> map_option (\<lambda>n. if neg then - n else n) (int_digits False 0 t))"

definition py_float :: "string \<Rightarrow> rat option" where
  "py_float s =
     (case signed (py_strip s) of (neg, t) \<Rightarrow>
        let mantissa = takeWhile (\<lambda>c. \<not> is_exponent_mark c) t;
            scale = (if length mantissa = length t then Some 0 else read_exponent (drop (Suc (length mantissa)) t))
        in case (read_mantissa mantissa, scale) of
          (Some x, Some e) \<Rightarrow> Some (fl64 ((if neg then - x else x) * 10 powi e))
        | _ \<Rightarrow> None)"

definition text_float :: "string \<Rightarrow> rat option" where
  "text_float s = (if s \<in> {[], ''N/A''} then None else py_float s)"

definition as_float :: "(json \<Rightarrow> string) \<Rightarrow> json \<Rightarrow> rat option" where
  "as_float repr v = (if v \<in> {JNull, JStr [], JStr ''N/A''} then None else py_float (py_str repr v))"

definition parse_frame_rate :: "(json \<Rightarrow> string) \<Rightarrow> json \<Rightarrow> rat option" where
  "parse_frame_rate repr v =
     (case as_string repr v of
        None \<Rightarrow> None
      | Some t \<Rightarrow>
          if t \<in> {''0/0'', ''N/A''} then None
          else let n = takeWhile (\<lambda>c. c \<noteq> CHR ''/'') t in
            if length n = length t then text_float t
            else case (text_float n, text_float (drop (Suc (length n)) t)) of
              (Some a, Some b) \<Rightarrow> if b = 0 then None else Some (fdiv a b)
            | _ \<Rightarrow> None)"

definition contains_any :: "string \<Rightarrow> string list \<Rightarrow> bool" where
  "contains_any text needles \<longleftrightarrow> list_ex (\<lambda>n. py_in n text) needles"

subsection \<open>Tags and dispositions\<close>

definition normalise_generic_tags :: "(json \<Rightarrow> string) \<Rightarrow> json \<Rightarrow> (string \<times> string) list" where
  "normalise_generic_tags repr v =
     (case v of
        JObj kvs \<Rightarrow> map (\<lambda>(k, x). (k, py_strip (py_str repr x))) (filter (\<lambda>(k, x). x \<noteq> JNull) kvs)
      | _ \<Rightarrow> [])"

text \<open>The keys are lowered; of two that become one the last counts.\<close>

definition normalise_stream_tags :: "(json \<Rightarrow> string) \<Rightarrow> json \<Rightarrow> stream_tags" where
  "normalise_stream_tags repr v =
     (let raw = normalise_generic_tags repr v;
          get = map_of (rev (map (\<lambda>(k, x). (py_lower k, x)) raw))
      in \<lparr>t_language = map_option py_lower (get ''language''), t_title = get ''title'', t_handler_name = get ''handler_name'',
          t_vendor_id = get ''vendor_id'', t_mimetype = get ''mimetype'', t_filename = get ''filename'', t_raw = raw\<rparr>)"

definition disposition_flag :: "(json \<Rightarrow> string) \<Rightarrow> json \<Rightarrow> bool" where
  "disposition_flag repr v =
     (case v of JBool b \<Rightarrow> b | _ \<Rightarrow> (case as_int repr v of None \<Rightarrow> False | Some n \<Rightarrow> n \<noteq> 0))"

definition normalise_disposition :: "(json \<Rightarrow> string) \<Rightarrow> json \<Rightarrow> stream_disposition" where
  "normalise_disposition repr v =
     (case v of
        JObj kvs \<Rightarrow>
          let raw = map (\<lambda>(k, x). (k, disposition_flag repr x)) kvs;
              flag = (\<lambda>k. map_of raw k = Some True)
          in \<lparr>d_default = flag ''default'', d_dub = flag ''dub'', d_original = flag ''original'',
              d_commentary = (flag ''comment'' \<or> flag ''commentary''), d_lyrics = flag ''lyrics'', d_karaoke = flag ''karaoke'',
              d_forced = flag ''forced'', d_hearing_impaired = flag ''hearing_impaired'',
              d_visual_impaired = flag ''visual_impaired'', d_clean_effects = flag ''clean_effects'',
              d_attached_pic = flag ''attached_pic'', d_timed_thumbnails = flag ''timed_thumbnails'',
              d_captions = flag ''captions'', d_descriptions = flag ''descriptions'', d_metadata = flag ''metadata'',
              d_dependent = flag ''dependent'', d_still_image = flag ''still_image'', d_raw = raw\<rparr>
      | _ \<Rightarrow> StreamDisposition)"

subsection \<open>Streams\<close>

definition stream_types :: "(string \<times> stream_type) list" where
  "stream_types = [(''video'', ST_VIDEO), (''audio'', ST_AUDIO), (''subtitle'', ST_SUBTITLE), (''attachment'', ST_ATTACHMENT),
     (''data'', ST_DATA), (''unknown'', ST_UNKNOWN)]"

definition normalise_stream_type :: "(json \<Rightarrow> string) \<Rightarrow> json \<Rightarrow> stream_type" where
  "normalise_stream_type repr v =
     (case as_string repr v of
        None \<Rightarrow> ST_UNKNOWN
      | Some t \<Rightarrow> (case map_of stream_types (py_lower t) of None \<Rightarrow> ST_UNKNOWN | Some ty \<Rightarrow> ty))"

text \<open>What the normaliser raises: its own error with a place and a detail, or what Python does with a value it did not expect.\<close>

datatype probe_failure = Invalid_Probe string string string | Not_A_Path | Index_Not_An_Integer int

definition normalise_base_stream :: "(json \<Rightarrow> string) \<Rightarrow> (string \<times> json) list \<Rightarrow> int \<Rightarrow> stream_type \<Rightarrow> probe_failure + base_stream" where
  "normalise_base_stream repr raw order ty =
     (case (if jget raw ''index'' = JNull then Some order else as_int repr (jget raw ''index'')) of
        None \<Rightarrow> Inl (Index_Not_An_Integer order)
      | Some i \<Rightarrow>
          Inr \<lparr>index = i, stream_order = order, stream_type = ty, codec_name = as_string repr (jget raw ''codec_name''),
               codec_long_name = as_string repr (jget raw ''codec_long_name''), profile = as_string repr (jget raw ''profile''),
               codec_tag_string = as_string repr (jget raw ''codec_tag_string''),
               codec_tag = as_string repr (jget raw ''codec_tag''), tags = normalise_stream_tags repr (jget raw ''tags''),
               disposition = normalise_disposition repr (jget raw ''disposition''), raw_stream = raw\<rparr>)"

definition hdr_transfers :: "string list" where
  "hdr_transfers = [''smpte2084'', ''arib-std-b67'']"

definition side_data_types :: "(json \<Rightarrow> string) \<Rightarrow> json \<Rightarrow> string list" where
  "side_data_types repr v =
     (case v of
        JList xs \<Rightarrow>
          concat (map (\<lambda>x. case x of
              JObj kvs \<Rightarrow> (case as_string repr (jget kvs ''side_data_type'') of None \<Rightarrow> [] | Some t \<Rightarrow> [t])
            | _ \<Rightarrow> []) xs)
      | _ \<Rightarrow> [])"

definition normalise_dynamic_range :: "(json \<Rightarrow> string) \<Rightarrow> (string \<times> json) list \<Rightarrow> dynamic_range_metadata" where
  "normalise_dynamic_range repr raw =
     (let transfer = as_string repr (jget raw ''color_transfer'');
          types = side_data_types repr (jget raw ''side_data_list'');
          joined = py_lower (py_join '' '' types);
          mastering = py_in ''mastering display metadata'' joined; light = py_in ''content light level metadata'' joined;
          dolby = py_in ''dovi configuration record'' joined
      in \<lparr>dr_is_hdr_candidate = (transfer \<in> set (map Some hdr_transfers) \<or> mastering \<or> light \<or> dolby),
          dr_is_dolby_vision_candidate = dolby, dr_side_data_types = types,
          dr_mastering_display_metadata_present = mastering, dr_content_light_metadata_present = light,
          dr_dolby_vision_metadata_present = dolby,
          dr_hdr_format = (if dolby then Some ''dolby_vision'' else if transfer = Some ''smpte2084'' then Some ''hdr10_pq''
                           else if transfer = Some ''arib-std-b67'' then Some ''hlg'' else None)\<rparr>)"

definition is_4k_resolution :: "int option \<Rightarrow> int option \<Rightarrow> bool" where
  "is_4k_resolution w h \<longleftrightarrow>
     (case w of None \<Rightarrow> False | Some n \<Rightarrow> 3840 \<le> n) \<or> (case h of None \<Rightarrow> False | Some n \<Rightarrow> 2160 \<le> n)"

definition normalise_video_stream :: "(json \<Rightarrow> string) \<Rightarrow> (string \<times> json) list \<Rightarrow> int \<Rightarrow> probe_failure + video_stream" where
  "normalise_video_stream repr raw order =
     (let int_of = (\<lambda>k. as_int repr (jget raw k)); text_of = (\<lambda>k. as_string repr (jget raw k)) in
      map_sum id (\<lambda>b. base_stream.extend b
        (video_stream.fields (int_of ''width'') (int_of ''height'') (int_of ''coded_width'') (int_of ''coded_height'')
           (text_of ''sample_aspect_ratio'') (text_of ''display_aspect_ratio'') (text_of ''pix_fmt'') (text_of ''field_order'')
           (parse_frame_rate repr (jget raw ''r_frame_rate'')) (text_of ''r_frame_rate'')
           (parse_frame_rate repr (jget raw ''avg_frame_rate'')) (text_of ''avg_frame_rate'') (int_of ''bit_rate'')
           (int_of ''level'') (text_of ''color_range'') (text_of ''color_space'') (text_of ''color_transfer'')
           (text_of ''color_primaries'') (text_of ''chroma_location'') (int_of ''bits_per_raw_sample'')
           (normalise_dynamic_range repr raw) (is_4k_resolution (int_of ''width'') (int_of ''height''))))
        (normalise_base_stream repr raw order ST_VIDEO))"

definition collect_text_markers :: "(json \<Rightarrow> string) \<Rightarrow> (string \<times> json) list \<Rightarrow> stream_tags \<Rightarrow> string" where
  "collect_text_markers repr raw t =
     py_lower (py_join '' '' [or_str (as_string repr (jget raw ''profile'')) [], or_str (t_title t) [], or_str (t_handler_name t) [],
        py_join '' '' (map snd (t_raw t))])"

definition is_surround_audio :: "int option \<Rightarrow> string option \<Rightarrow> bool" where
  "is_surround_audio n layout \<longleftrightarrow>
     (case n of None \<Rightarrow> False | Some c \<Rightarrow> 6 \<le> c) \<or>
     (case layout of None \<Rightarrow> False | Some l \<Rightarrow> contains_any (py_lower l) [''5.1'', ''7.1'', ''6.1''])"

definition atmos_capable :: "string option \<Rightarrow> string option \<Rightarrow> string \<Rightarrow> bool" where
  "atmos_capable codec prof markers \<longleftrightarrow>
     (let text = py_lower (py_join '' '' (filter (\<lambda>s. s \<noteq> []) [or_str codec [], or_str prof [], markers])) in
      py_in ''atmos'' text \<or> codec \<in> {Some ''truehd'', Some ''eac3''} \<and> py_in ''joc'' text)"

definition normalise_audio_stream :: "(json \<Rightarrow> string) \<Rightarrow> (string \<times> json) list \<Rightarrow> int \<Rightarrow> probe_failure + audio_stream" where
  "normalise_audio_stream repr raw order =
     (let t = normalise_stream_tags repr (jget raw ''tags''); markers = collect_text_markers repr raw t;
          chans = as_int repr (jget raw ''channels''); layout = as_string repr (jget raw ''channel_layout'') in
      map_sum id (\<lambda>b. base_stream.extend b
        (audio_stream.fields chans layout (as_int repr (jget raw ''sample_rate'')) (as_int repr (jget raw ''bit_rate''))
           (d_commentary (disposition b) \<or> contains_any markers [''commentary'', ''director commentary'', ''audio commentary''])
           (is_surround_audio chans layout)
           (atmos_capable (as_string repr (jget raw ''codec_name'')) (as_string repr (jget raw ''profile'')) markers)))
        (normalise_base_stream repr raw order ST_AUDIO))"

definition text_subtitle_codecs :: "string list" where
  "text_subtitle_codecs = [''subrip'', ''ass'', ''ssa'', ''mov_text'', ''webvtt'', ''text'', ''ttml'']"

definition image_subtitle_codecs :: "string list" where
  "image_subtitle_codecs = [''hdmv_pgs_subtitle'', ''dvd_subtitle'', ''xsub'', ''dvb_subtitle'']"

definition detect_subtitle_kind :: "string option \<Rightarrow> subtitle_kind" where
  "detect_subtitle_kind codec =
     (case codec of
        None \<Rightarrow> SK_UNKNOWN
      | Some c \<Rightarrow>
          let l = py_lower c in
          if l \<in> set text_subtitle_codecs then SK_TEXT
          else if l \<in> set image_subtitle_codecs then SK_IMAGE
          else if py_in ''teletext'' l \<or> py_in ''dvb'' l then SK_DATA else SK_UNKNOWN)"

definition normalise_subtitle_stream :: "(json \<Rightarrow> string) \<Rightarrow> (string \<times> json) list \<Rightarrow> int \<Rightarrow> probe_failure + subtitle_stream" where
  "normalise_subtitle_stream repr raw order =
     (let t = normalise_stream_tags repr (jget raw ''tags''); markers = collect_text_markers repr raw t in
      map_sum id (\<lambda>b. base_stream.extend b
        (subtitle_stream.fields (detect_subtitle_kind (as_string repr (jget raw ''codec_name'')))
           (d_forced (disposition b) \<or> contains_any markers [''forced''])
           (d_hearing_impaired (disposition b) \<or> contains_any markers [''sdh'', ''hearing impaired'', ''hoh''])))
        (normalise_base_stream repr raw order ST_SUBTITLE))"

subsection \<open>Chapters and the container\<close>

definition normalise_chapter :: "(json \<Rightarrow> string) \<Rightarrow> (string \<times> json) list \<Rightarrow> media_chapter" where
  "normalise_chapter repr raw =
     (let t = normalise_generic_tags repr (jget raw ''tags'') in
      \<lparr>ch_id = as_int repr (jget raw ''id''), ch_time_base = as_string repr (jget raw ''time_base''),
       ch_start = as_int repr (jget raw ''start''), ch_start_time = as_float repr (jget raw ''start_time''),
       ch_end = as_int repr (jget raw ''end''), ch_end_time = as_float repr (jget raw ''end_time''),
       ch_title = map_of t ''title'', ch_tags = t\<rparr>)"

fun chapter_items :: "(json \<Rightarrow> string) \<Rightarrow> int \<Rightarrow> json list \<Rightarrow> probe_failure + media_chapter list" where
  "chapter_items repr i [] = Inr []"
| "chapter_items repr i (x # xs) =
     (case x of
        JObj kvs \<Rightarrow> map_sum id (\<lambda>cs. normalise_chapter repr kvs # cs) (chapter_items repr (i + 1) xs)
      | _ \<Rightarrow> Inl (Invalid_Probe ''Probe payload contains a non-mapping chapter entry.'' (''chapters['' @ show_int i @ '']'')
          ''Expected a chapter mapping.''))"

definition normalise_chapters :: "(json \<Rightarrow> string) \<Rightarrow> json \<Rightarrow> probe_failure + media_chapter list" where
  "normalise_chapters repr v =
     (case v of
        JNull \<Rightarrow> Inr []
      | JList xs \<Rightarrow> chapter_items repr 0 xs
      | _ \<Rightarrow> Inl (Invalid_Probe ''Probe payload contains invalid chapter data.'' ''chapters'' ''Expected a chapter list.''))"

definition normalise_container :: "(json \<Rightarrow> string) \<Rightarrow> (string \<times> json) list \<Rightarrow> path \<Rightarrow> nat \<Rightarrow> container_format" where
  "normalise_container repr raw p n =
     \<lparr>c_file_path = p, c_file_name = path_name p,
      c_extension = (let e = dropWhile (\<lambda>c. c = CHR ''.'') (py_lower (path_suffix p)) in if e = [] then None else Some e),
      format_name = as_string repr (jget raw ''format_name''), format_long_name = as_string repr (jget raw ''format_long_name''),
      duration_seconds = as_float repr (jget raw ''duration''), start_time_seconds = as_float repr (jget raw ''start_time''),
      c_bit_rate = as_int repr (jget raw ''bit_rate''), size_bytes = as_int repr (jget raw ''size''),
      probe_score = as_int repr (jget raw ''probe_score''), stream_count = n, c_tags = normalise_generic_tags repr (jget raw ''tags'')\<rparr>"

subsection \<open>The file\<close>

record media_streams =
  ms_video :: "video_stream list"
  ms_audio :: "audio_stream list"
  ms_subtitle :: "subtitle_stream list"
  ms_attachment :: "base_stream list"
  ms_data :: "base_stream list"
  ms_unknown :: "base_stream list"

definition no_streams :: media_streams where
  "no_streams = \<lparr>ms_video = [], ms_audio = [], ms_subtitle = [], ms_attachment = [], ms_data = [], ms_unknown = []\<rparr>"

definition add_stream :: "(json \<Rightarrow> string) \<Rightarrow> (string \<times> json) list \<Rightarrow> int \<Rightarrow> media_streams \<Rightarrow> probe_failure + media_streams" where
  "add_stream repr raw order ss =
     (let plain = normalise_base_stream repr raw order in
      case normalise_stream_type repr (jget raw ''codec_type'') of
        ST_VIDEO \<Rightarrow> map_sum id (\<lambda>s. ss\<lparr>ms_video := ms_video ss @ [s]\<rparr>) (normalise_video_stream repr raw order)
      | ST_AUDIO \<Rightarrow> map_sum id (\<lambda>s. ss\<lparr>ms_audio := ms_audio ss @ [s]\<rparr>) (normalise_audio_stream repr raw order)
      | ST_SUBTITLE \<Rightarrow> map_sum id (\<lambda>s. ss\<lparr>ms_subtitle := ms_subtitle ss @ [s]\<rparr>) (normalise_subtitle_stream repr raw order)
      | ST_ATTACHMENT \<Rightarrow> map_sum id (\<lambda>s. ss\<lparr>ms_attachment := ms_attachment ss @ [s]\<rparr>) (plain ST_ATTACHMENT)
      | ST_DATA \<Rightarrow> map_sum id (\<lambda>s. ss\<lparr>ms_data := ms_data ss @ [s]\<rparr>) (plain ST_DATA)
      | ST_UNKNOWN \<Rightarrow> map_sum id (\<lambda>s. ss\<lparr>ms_unknown := ms_unknown ss @ [s]\<rparr>) (plain ST_UNKNOWN))"

fun add_streams :: "(json \<Rightarrow> string) \<Rightarrow> int \<Rightarrow> json list \<Rightarrow> media_streams \<Rightarrow> probe_failure + media_streams" where
  "add_streams repr order [] ss = Inr ss"
| "add_streams repr order (x # xs) ss =
     (case x of
        JObj raw \<Rightarrow> (case add_stream repr raw order ss of Inl e \<Rightarrow> Inl e | Inr ss' \<Rightarrow> add_streams repr (order + 1) xs ss')
      | _ \<Rightarrow> Inl (Invalid_Probe ''Probe payload contains a non-mapping stream entry.'' (''streams['' @ show_int order @ '']'')
          ''Expected a stream mapping.''))"

definition assemble_media ::
    "container_format \<Rightarrow> media_streams \<Rightarrow> media_chapter list \<Rightarrow> (string \<times> json) list \<Rightarrow> media_file" where
  "assemble_media c ss cs raw =
     \<lparr>container = c, video_streams = ms_video ss, audio_streams = ms_audio ss, subtitle_streams = ms_subtitle ss,
      attachment_streams = ms_attachment ss, data_streams = ms_data ss, unknown_streams = ms_unknown ss, chapters = cs,
      raw_format = raw, is_4k = list_ex v_is_4k (ms_video ss),
      is_hdr_candidate = list_ex (\<lambda>s. dr_is_hdr_candidate (dynamic_range s)) (ms_video ss),
      has_english_audio = list_ex (\<lambda>s. language s = Some ''eng'') (ms_audio ss),
      has_forced_english_subtitle = list_ex (\<lambda>s. language s = Some ''eng'' \<and> is_forced s) (ms_subtitle ss),
      has_surround_audio = list_ex is_surround_candidate (ms_audio ss),
      has_atmos_capable_audio = list_ex is_atmos_capable (ms_audio ss)\<rparr>"

definition probed_path :: "(string \<times> json) list \<Rightarrow> path \<Rightarrow> probe_failure + path" where
  "probed_path raw p =
     (if \<not> json_truthy (jget raw ''filename'') then Inr p
      else case jget raw ''filename'' of JStr s \<Rightarrow> Inr (path_of s) | _ \<Rightarrow> Inl Not_A_Path)"

definition normalise_ffprobe_payload :: "(json \<Rightarrow> string) \<Rightarrow> json \<Rightarrow> path \<Rightarrow> probe_failure + media_file" where
  "normalise_ffprobe_payload repr payload p =
     (case payload of
        JObj kvs \<Rightarrow>
          (case jget kvs ''streams'' of
             JList xs \<Rightarrow>
               (case jget kvs ''format'' of
                  JObj raw \<Rightarrow>
                    (case probed_path raw p of
                       Inl e \<Rightarrow> Inl e
                     | Inr q \<Rightarrow>
                         (case add_streams repr 0 xs no_streams of
                            Inl e \<Rightarrow> Inl e
                          | Inr ss \<Rightarrow>
                              map_sum id (\<lambda>cs. assemble_media (normalise_container repr raw q (length xs)) ss cs raw)
                                (normalise_chapters repr (jget kvs ''chapters''))))
                | _ \<Rightarrow> Inl (Invalid_Probe ''Probe payload is missing valid format metadata.'' ''format'' ''Expected a format mapping.''))
           | _ \<Rightarrow> Inl (Invalid_Probe ''Probe payload is missing a valid streams list.'' ''streams'' ''Expected a list of streams.''))
      | _ \<Rightarrow> Inl (Invalid_Probe ''Probe payload must be a JSON object.'' ''root'' ''Expected a mapping.''))"

subsection \<open>Running ffprobe\<close>

definition ffprobe_command :: "string \<Rightarrow> path \<Rightarrow> string list" where
  "ffprobe_command binary p =
     [binary, ''-v'', ''error'', ''-print_format'', ''json'', ''-show_format'', ''-show_streams'', ''-show_chapters'', as_posix p]"

datatype ffprobe_run = Binary_Missing | Timed_Out | Exited int string string

datatype probe_answer = Probed media_file | Probe_Failed probe_error | Probe_Crashed probe_failure

definition probe_error_of ::
    "string \<Rightarrow> string \<Rightarrow> path \<Rightarrow> string option \<Rightarrow> int option \<Rightarrow> string option \<Rightarrow> (string \<times> string) list \<Rightarrow> probe_error" where
  "probe_error_of kind message p binary code err details =
     \<lparr>pe_kind = kind, pe_message = message,
      pe_dict = [(''kind'', JStr kind), (''message'', JStr message),
          (''details'', JList (map (\<lambda>(l, m). JObj [(''location'', JStr l), (''message'', JStr m)]) details)),
          (''file_path'', JStr (as_posix p))] @
        (case binary of None \<Rightarrow> [] | Some b \<Rightarrow> [(''binary_path'', JStr b)]) @
        (case code of None \<Rightarrow> [] | Some c \<Rightarrow> [(''exit_code'', JInt c)]) @
        (case err of None \<Rightarrow> [] | Some e \<Rightarrow> if e = [] then [] else [(''stderr'', JStr e)])\<rparr>"

text \<open>The parser of JSON: the value, or the place and the text of its error.\<close>

definition parse_ffprobe_json_output ::
    "(json \<Rightarrow> string) \<Rightarrow> (string \<Rightarrow> (string \<times> string) + json) \<Rightarrow> string \<Rightarrow> path \<Rightarrow> probe_answer" where
  "parse_ffprobe_json_output repr loads text p =
     (let invalid = (\<lambda>details. Probe_Failed (probe_error_of ''probe_invalid_json'' ''ffprobe did not return valid JSON output.''
                       p None None None details)) in
      case loads text of
        Inl (l, m) \<Rightarrow> invalid [(l, m)]
      | Inr (JObj kvs) \<Rightarrow>
          (case normalise_ffprobe_payload repr (JObj kvs) p of
             Inr m \<Rightarrow> Probed m
           | Inl (Invalid_Probe message l detail) \<Rightarrow>
               Probe_Failed (probe_error_of ''probe_data_invalid'' message p None None None [(l, detail)])
           | Inl e \<Rightarrow> Probe_Crashed e)
      | Inr _ \<Rightarrow> invalid [(''root'', ''Expected a JSON object.'')])"

definition probe_timeout_seconds :: int where "probe_timeout_seconds = 60"

definition ffprobe_file ::
    "(json \<Rightarrow> string) \<Rightarrow> (string \<Rightarrow> (string \<times> string) + json) \<Rightarrow> (string list \<Rightarrow> ffprobe_run) \<Rightarrow> string \<Rightarrow> path \<Rightarrow> probe_answer" where
  "ffprobe_file repr loads run binary p =
     (let failed = (\<lambda>code err. Probe_Failed (probe_error_of ''probe_process_failed''
                      ''ffprobe returned a non-zero exit status.'' p (Some binary) (Some code) err [])) in
      case run (ffprobe_command binary p) of
        Binary_Missing \<Rightarrow>
          Probe_Failed (probe_error_of ''probe_binary_missing'' ''ffprobe binary could not be found.'' p (Some binary) None None [])
      | Timed_Out \<Rightarrow> failed (- 1) (Some (''ffprobe timed out after '' @ show_int probe_timeout_seconds @ '' seconds.''))
      | Exited code out err \<Rightarrow>
          if code \<noteq> 0 then failed code (let e = py_strip err in if e = [] then None else Some e)
          else parse_ffprobe_json_output repr loads out p)"

subsection \<open>Every stream once\<close>

definition raw_index :: "(json \<Rightarrow> string) \<Rightarrow> (string \<times> json) list \<Rightarrow> int \<Rightarrow> int option" where
  "raw_index repr raw order = (if jget raw ''index'' = JNull then Some order else as_int repr (jget raw ''index''))"

type_synonym stream_view = "int \<times> int \<times> stream_type \<times> (string \<times> json) list"

definition view :: "'a base_stream_scheme \<Rightarrow> stream_view" where
  "view s = (stream_order s, index s, stream_type s, raw_stream s)"

definition stream_views :: "media_streams \<Rightarrow> stream_view list" where
  "stream_views ss = map view (ms_video ss) @ map view (ms_audio ss) @ map view (ms_subtitle ss) @
     map view (ms_attachment ss) @ map view (ms_data ss) @ map view (ms_unknown ss)"

lemma extended_view [simp]: "view (base_stream.extend b x) = view b"
  by (simp add: view_def base_stream.defs)

lemma base_view:
  "normalise_base_stream repr raw order ty = Inr b \<longleftrightarrow>
     (\<exists>i. raw_index repr raw order = Some i \<and> b = \<lparr>index = i, stream_order = order, stream_type = ty,
        codec_name = as_string repr (jget raw ''codec_name''), codec_long_name = as_string repr (jget raw ''codec_long_name''),
        profile = as_string repr (jget raw ''profile''), codec_tag_string = as_string repr (jget raw ''codec_tag_string''),
        codec_tag = as_string repr (jget raw ''codec_tag''), tags = normalise_stream_tags repr (jget raw ''tags''),
        disposition = normalise_disposition repr (jget raw ''disposition''), raw_stream = raw\<rparr>)"
  by (auto simp: normalise_base_stream_def raw_index_def split: option.splits)

lemma map_sum_id_Inr: "map_sum id f x = Inr y \<longleftrightarrow> (\<exists>z. x = Inr z \<and> y = f z)"
  by (cases x) auto

lemma base_stream_view: "normalise_base_stream repr raw order ty = Inr b \<Longrightarrow> \<exists>i. raw_index repr raw order = Some i \<and> view b = (order, i, ty, raw)"
  by (auto simp: base_view view_def)

lemma stream_view:
  "normalise_video_stream repr raw order = Inr v \<Longrightarrow> \<exists>i. raw_index repr raw order = Some i \<and> view v = (order, i, ST_VIDEO, raw)"
  "normalise_audio_stream repr raw order = Inr a \<Longrightarrow> \<exists>i. raw_index repr raw order = Some i \<and> view a = (order, i, ST_AUDIO, raw)"
  "normalise_subtitle_stream repr raw order = Inr t \<Longrightarrow> \<exists>i. raw_index repr raw order = Some i \<and> view t = (order, i, ST_SUBTITLE, raw)"
  unfolding normalise_video_stream_def normalise_audio_stream_def normalise_subtitle_stream_def Let_def map_sum_id_Inr
  using base_stream_view by fastforce+

lemma add_stream_view:
  assumes "add_stream repr raw order ss = Inr ss'"
  shows "\<exists>i. raw_index repr raw order = Some i \<and>
    mset (stream_views ss') = add_mset (order, i, normalise_stream_type repr (jget raw ''codec_type''), raw) (mset (stream_views ss))"
proof (cases "normalise_stream_type repr (jget raw ''codec_type'')")
  case ST_VIDEO
  then show ?thesis using assms stream_view(1) by (fastforce simp: add_stream_def map_sum_id_Inr stream_views_def)
next
  case ST_AUDIO
  then show ?thesis using assms stream_view(2) by (fastforce simp: add_stream_def map_sum_id_Inr stream_views_def)
next
  case ST_SUBTITLE
  then show ?thesis using assms stream_view(3) by (fastforce simp: add_stream_def map_sum_id_Inr stream_views_def)
qed (use assms base_stream_view in \<open>fastforce simp: add_stream_def Let_def map_sum_id_Inr stream_views_def\<close>)+

text \<open>What a payload holds, as positions, indices, types and descriptions.\<close>

fun payload_views :: "(json \<Rightarrow> string) \<Rightarrow> int \<Rightarrow> json list \<Rightarrow> stream_view list" where
  "payload_views repr order [] = []"
| "payload_views repr order (x # xs) =
     (case x of JObj raw \<Rightarrow> (order, the (raw_index repr raw order), normalise_stream_type repr (jget raw ''codec_type''), raw)
                  # payload_views repr (order + 1) xs
      | _ \<Rightarrow> payload_views repr (order + 1) xs)"

lemma add_streams_view:
  "add_streams repr order xs ss = Inr ss' \<Longrightarrow> mset (stream_views ss') = mset (stream_views ss) + mset (payload_views repr order xs)"
proof (induction repr order xs ss rule: add_streams.induct)
  case (2 repr order x xs ss)
  then obtain raw where x: "x = JObj raw" by (auto split: json.splits)
  with 2 obtain s1 where s: "add_stream repr raw order ss = Inr s1" "add_streams repr (order + 1) xs s1 = Inr ss'"
    by (auto split: sum.splits)
  from add_stream_view [OF s(1)] 2 x s show ?case by auto
qed simp

subsection \<open>The file and its payload\<close>

definition raws_of :: "(json \<Rightarrow> string) \<Rightarrow> stream_type \<Rightarrow> json list \<Rightarrow> (string \<times> json) list list" where
  "raws_of repr ty xs = filter (\<lambda>raw. normalise_stream_type repr (jget raw ''codec_type'') = ty)
     (concat (map (\<lambda>x. case x of JObj raw \<Rightarrow> [raw] | _ \<Rightarrow> []) xs))"

lemma raws_of_simps [simp]:
  "raws_of repr ty [] = []"
  "raws_of repr ty (JObj raw # xs) = (if normalise_stream_type repr (jget raw ''codec_type'') = ty then [raw] else []) @ raws_of repr ty xs"
  by (simp_all add: raws_of_def)

lemma in_raws_of: "raw \<in> set (raws_of repr ty xs) \<longleftrightarrow> JObj raw \<in> set xs \<and> normalise_stream_type repr (jget raw ''codec_type'') = ty"
  by (auto simp: raws_of_def split: json.splits)

text \<open>A field that each stream takes from its own description is a map over the descriptions of its type.\<close>

lemma collected_fields:
  assumes "add_streams repr order xs ss = Inr ss'"
    and V: "\<And>raw n v. normalise_video_stream repr raw n = Inr v \<Longrightarrow> f v = f' raw"
    and A: "\<And>raw n v. normalise_audio_stream repr raw n = Inr v \<Longrightarrow> g v = g' raw"
    and S: "\<And>raw n v. normalise_subtitle_stream repr raw n = Inr v \<Longrightarrow> h v = h' raw"
  shows "map f (ms_video ss') = map f (ms_video ss) @ map f' (raws_of repr ST_VIDEO xs) \<and>
    map g (ms_audio ss') = map g (ms_audio ss) @ map g' (raws_of repr ST_AUDIO xs) \<and>
    map h (ms_subtitle ss') = map h (ms_subtitle ss) @ map h' (raws_of repr ST_SUBTITLE xs)"
  using assms(1)
proof (induction xs arbitrary: order ss)
  case (Cons x xs)
  obtain raw where x: "x = JObj raw" using Cons(2) by (auto split: json.splits)
  obtain s1 where s: "add_stream repr raw order ss = Inr s1" "add_streams repr (order + 1) xs s1 = Inr ss'"
    using Cons(2) x by (auto split: sum.splits)
  note IH = Cons(1) [OF s(2)]
  let ?ty = "normalise_stream_type repr (jget raw ''codec_type'')"
  have "map f (ms_video s1) = map f (ms_video ss) @ (if ?ty = ST_VIDEO then [f' raw] else [])"
    "map g (ms_audio s1) = map g (ms_audio ss) @ (if ?ty = ST_AUDIO then [g' raw] else [])"
    "map h (ms_subtitle s1) = map h (ms_subtitle ss) @ (if ?ty = ST_SUBTITLE then [h' raw] else [])"
    using s(1) by (auto simp: add_stream_def Let_def map_sum_id_Inr split: stream_type.splits intro!: V A S)
  then show ?case using IH x by simp
qed simp

lemma payload_Inr:
  assumes "normalise_ffprobe_payload repr payload p = Inr m"
  obtains kvs xs raw q ss cs where "payload = JObj kvs" "jget kvs ''streams'' = JList xs" "jget kvs ''format'' = JObj raw"
    "add_streams repr 0 xs no_streams = Inr ss" "normalise_chapters repr (jget kvs ''chapters'') = Inr cs"
    "probed_path raw p = Inr q" "m = assemble_media (normalise_container repr raw q (length xs)) ss cs raw"
  using assms by (auto simp: normalise_ffprobe_payload_def map_sum_id_Inr split: json.splits sum.splits)

lemma payload_streams:
  assumes "add_streams repr order xs ss = Inr ss'"
  shows "length (payload_views repr order xs) = length xs"
  using assms by (induction repr order xs ss rule: add_streams.induct) (auto split: json.splits sum.splits)


lemma acceptable_streams:
  "(\<exists>ss'. add_streams repr order xs ss = Inr ss') \<longleftrightarrow>
     (\<forall>x\<in>set xs. \<exists>raw. x = JObj raw \<and> raw_index repr raw 0 \<noteq> None)"
proof (induction repr order xs ss rule: add_streams.induct)
  case (2 repr order x xs ss)
  show ?case
  proof (cases x)
    case (JObj raw)
    have "normalise_base_stream repr raw order ty = Inl (Index_Not_An_Integer order)" if "raw_index repr raw 0 = None" for ty
      using that by (auto simp: normalise_base_stream_def raw_index_def split: if_splits)
    then have bad: "\<exists>e. add_stream repr raw order ss = Inl e" if "raw_index repr raw 0 = None"
      using that by (auto simp: add_stream_def normalise_video_stream_def normalise_audio_stream_def normalise_subtitle_stream_def Let_def
          split: stream_type.split)
    have "\<exists>b. normalise_base_stream repr raw order ty = Inr b" if "raw_index repr raw 0 \<noteq> None" for ty
      using that by (auto simp: normalise_base_stream_def raw_index_def split: if_splits option.splits)
    then have good: "\<exists>s. add_stream repr raw order ss = Inr s" if "raw_index repr raw 0 \<noteq> None"
      using that by (auto simp: add_stream_def normalise_video_stream_def normalise_audio_stream_def normalise_subtitle_stream_def Let_def
          map_sum_id_Inr split: stream_type.split)
    show ?thesis
    proof (cases "raw_index repr raw 0")
      case None
      then show ?thesis using bad JObj by auto
    next
      case (Some i)
      then obtain s where "add_stream repr raw order ss = Inr s" using good by auto
      then show ?thesis using 2 JObj Some by auto
    qed
  qed auto
qed simp

text \<open>C39: ffprobe's answer is refused exactly when its streams, its format or its chapters have the wrong shape, when the
  file name it reports is no string, or when an index it gives is no integer.\<close>

theorem probe_payload_accepted_iff:
  "(\<exists>m. normalise_ffprobe_payload repr (JObj kvs) p = Inr m) \<longleftrightarrow>
     (\<exists>xs. jget kvs ''streams'' = JList xs \<and>
        (\<forall>x\<in>set xs. \<exists>raw. x = JObj raw \<and> (jget raw ''index'' = JNull \<or> as_int repr (jget raw ''index'') \<noteq> None))) \<and>
     (\<exists>raw. jget kvs ''format'' = JObj raw \<and>
        (json_truthy (jget raw ''filename'') \<longrightarrow> (\<exists>s. jget raw ''filename'' = JStr s))) \<and>
     (jget kvs ''chapters'' = JNull \<or> (\<exists>cs. jget kvs ''chapters'' = JList cs \<and> (\<forall>c\<in>set cs. \<exists>raw. c = JObj raw)))"
proof -
  have ch: "(\<exists>cs. chapter_items repr i xs = Inr cs) \<longleftrightarrow> (\<forall>c\<in>set xs. \<exists>raw. c = JObj raw)" for i xs
    by (induction repr i xs rule: chapter_items.induct) (auto simp: map_sum_id_Inr split: json.splits)
  have chapters: "(\<exists>cs. normalise_chapters repr v = Inr cs) \<longleftrightarrow>
      v = JNull \<or> (\<exists>cs. v = JList cs \<and> (\<forall>c\<in>set cs. \<exists>raw. c = JObj raw))" for v
    using ch by (auto simp: normalise_chapters_def split: json.split)
  have path: "(\<exists>q. probed_path raw p = Inr q) \<longleftrightarrow> (json_truthy (jget raw ''filename'') \<longrightarrow> (\<exists>s. jget raw ''filename'' = JStr s))" for raw
    by (auto simp: probed_path_def split: json.split)
  have ix: "raw_index repr raw 0 \<noteq> None \<longleftrightarrow> jget raw ''index'' = JNull \<or> as_int repr (jget raw ''index'') \<noteq> None" for raw
    by (simp add: raw_index_def)
  show ?thesis (is "?l = ?r")
  proof
    assume ?l
    then obtain m where "normalise_ffprobe_payload repr (JObj kvs) p = Inr m" by blast
    then obtain kvs' xs raw q ss cs where *: "JObj kvs = JObj kvs'" "jget kvs' ''streams'' = JList xs" "jget kvs' ''format'' = JObj raw"
      "add_streams repr 0 xs no_streams = Inr ss" "normalise_chapters repr (jget kvs' ''chapters'') = Inr cs" "probed_path raw p = Inr q"
      by (rule payload_Inr)
    have "\<forall>x\<in>set xs. \<exists>raw. x = JObj raw \<and> raw_index repr raw 0 \<noteq> None" using acceptable_streams [of repr 0 xs no_streams] *(4) by blast
    moreover have "kvs' = kvs" using *(1) by simp
    ultimately show ?r unfolding ix using *(2,3,5,6) chapters [of "jget kvs ''chapters''"] path [of raw] by simp
  next
    assume r: ?r
    from r obtain xs where xs: "jget kvs ''streams'' = JList xs" "\<forall>x\<in>set xs. \<exists>raw. x = JObj raw \<and> raw_index repr raw 0 \<noteq> None"
      unfolding ix by (elim conjE exE)
    from r obtain raw where raw: "jget kvs ''format'' = JObj raw" "\<exists>q. probed_path raw p = Inr q"
      unfolding path by (elim conjE exE)
    from r have cs: "\<exists>cs. normalise_chapters repr (jget kvs ''chapters'') = Inr cs" unfolding chapters by (elim conjE)
    have "\<exists>ss'. add_streams repr 0 xs no_streams = Inr ss'" by (rule iffD2 [OF acceptable_streams xs(2)])
    then obtain ss where "add_streams repr 0 xs no_streams = Inr ss" by blast
    moreover obtain q where "probed_path raw p = Inr q" using raw(2) by blast
    moreover obtain hs where "normalise_chapters repr (jget kvs ''chapters'') = Inr hs" using cs by blast
    ultimately show ?l using xs(1) raw(1) by (simp add: normalise_ffprobe_payload_def)
  qed
qed

subsection \<open>What the payload decides\<close>

lemma video_field:
  "normalise_video_stream repr raw n = Inr v \<Longrightarrow> v_is_4k v = is_4k_resolution (as_int repr (jget raw ''width'')) (as_int repr (jget raw ''height''))"
  by (auto simp: normalise_video_stream_def map_sum_id_Inr base_stream.defs video_stream.defs)

lemma audio_field: "normalise_audio_stream repr raw n = Inr a \<Longrightarrow> language a = t_language (normalise_stream_tags repr (jget raw ''tags''))"
  by (auto simp: normalise_audio_stream_def map_sum_id_Inr base_view language_def base_stream.defs Let_def)

lemma subtitle_field:
  "normalise_subtitle_stream repr raw n = Inr s \<Longrightarrow>
     (language s, is_forced s) = (t_language (normalise_stream_tags repr (jget raw ''tags'')),
       d_forced (normalise_disposition repr (jget raw ''disposition'')) \<or>
       py_in ''forced'' (collect_text_markers repr raw (normalise_stream_tags repr (jget raw ''tags''))))"
  by (auto simp: normalise_subtitle_stream_def map_sum_id_Inr base_view language_def base_stream.defs subtitle_stream.defs contains_any_def Let_def)

text \<open>C9: A file is 4K when any of its video entries is, cover art among them: no disposition is looked at. It has English
  audio, or a forced English subtitle, when one of its entries says so by its language tag and, for a subtitle, by its
  disposition or by the word in its texts.\<close>

theorem probed_flags:
  assumes "normalise_ffprobe_payload repr (JObj kvs) p = Inr m" "jget kvs ''streams'' = JList xs"
  defines "tags_of \<equiv> \<lambda>raw. normalise_stream_tags repr (jget raw ''tags'')"
  shows "(is_4k m \<longleftrightarrow> (\<exists>raw\<in>set (raws_of repr ST_VIDEO xs).
        is_4k_resolution (as_int repr (jget raw ''width'')) (as_int repr (jget raw ''height'')))) \<and>
    (has_english_audio m \<longleftrightarrow> (\<exists>raw\<in>set (raws_of repr ST_AUDIO xs). t_language (tags_of raw) = Some ''eng'')) \<and>
    (has_forced_english_subtitle m \<longleftrightarrow> (\<exists>raw\<in>set (raws_of repr ST_SUBTITLE xs). t_language (tags_of raw) = Some ''eng'' \<and>
        (d_forced (normalise_disposition repr (jget raw ''disposition'')) \<or>
         py_in ''forced'' (collect_text_markers repr raw (tags_of raw)))))"
proof -
  from assms(1) obtain kvs' ys raw q ss cs where *: "JObj kvs = JObj kvs'" "jget kvs' ''streams'' = JList ys"
    "add_streams repr 0 ys no_streams = Inr ss" "m = assemble_media (normalise_container repr raw q (length ys)) ss cs raw"
    by (rule payload_Inr)
  have ys: "ys = xs" using *(1,2) assms(2) by simp
  from collected_fields [OF *(3) [unfolded ys], of v_is_4k _ language _ "\<lambda>s. (language s, is_forced s)",
      OF video_field audio_field subtitle_field]
  have f: "map v_is_4k (ms_video ss) = map (\<lambda>raw. is_4k_resolution (as_int repr (jget raw ''width'')) (as_int repr (jget raw ''height''))) (raws_of repr ST_VIDEO xs)"
    "map language (ms_audio ss) = map (\<lambda>raw. t_language (tags_of raw)) (raws_of repr ST_AUDIO xs)"
    "map (\<lambda>s. (language s, is_forced s)) (ms_subtitle ss) = map (\<lambda>raw. (t_language (tags_of raw),
       d_forced (normalise_disposition repr (jget raw ''disposition'')) \<or> py_in ''forced'' (collect_text_markers repr raw (tags_of raw))))
       (raws_of repr ST_SUBTITLE xs)"
    by (simp_all add: no_streams_def tags_of_def)
  have l: "list_ex P (map g zs) \<longleftrightarrow> (\<exists>z\<in>set zs. P (g z))" for P :: "'y \<Rightarrow> bool" and g :: "'z \<Rightarrow> 'y" and zs by (simp add: list_ex_iff)
  have "is_4k m \<longleftrightarrow> list_ex id (map v_is_4k (ms_video ss))" "has_english_audio m \<longleftrightarrow> list_ex (\<lambda>x. x = Some ''eng'') (map language (ms_audio ss))"
    "has_forced_english_subtitle m \<longleftrightarrow> list_ex (\<lambda>(x, b). x = Some ''eng'' \<and> b) (map (\<lambda>s. (language s, is_forced s)) (ms_subtitle ss))"
    unfolding l by (simp_all add: *(4) assemble_media_def list_ex_iff)
  then show ?thesis unfolding f l by simp
qed

subsection \<open>A file with cover art\<close>

definition plain_repr :: "json \<Rightarrow> string" where "plain_repr v = []"

definition film_entry :: json where
  "film_entry = JObj [(''index'', JStr ''0''), (''codec_type'', JStr ''video''), (''codec_name'', JStr ''h264''), (''width'', JStr ''1920''), (''height'', JStr ''1080'')]"

definition cover_entry :: json where
  "cover_entry = JObj [(''index'', JStr ''2''), (''codec_type'', JStr ''video''), (''codec_name'', JStr ''mjpeg''), (''width'', JStr ''3000''), (''height'', JStr ''3000''),
     (''disposition'', JObj [(''attached_pic'', JStr ''1'')])]"

definition sound_entry :: json where
  "sound_entry = JObj [(''index'', JStr ''1''), (''codec_type'', JStr ''audio''), (''codec_name'', JStr ''eac3''), (''channels'', JStr ''6''),
     (''tags'', JObj [(''language'', JStr ''ENG'')])]"

definition film_payload :: "json list \<Rightarrow> (string \<times> json) list" where
  "film_payload xs = [(''streams'', JList xs), (''format'', JObj [(''filename'', JStr ''/m/a.mkv''), (''duration'', JStr ''12.500000'')])]"

lemma accepted: "\<not> isl x \<Longrightarrow> \<exists>m. x = Inr m"
  by (cases x) simp_all


lemma probe_payload_accepted_iff_witness:
  "\<exists>m. normalise_ffprobe_payload plain_repr (JObj (film_payload [film_entry])) (path_of ''/x'') = Inr m"
proof -
  have "jget (film_payload [film_entry]) ''streams'' = JList [film_entry]" "jget (film_payload [film_entry]) ''chapters'' = JNull"
    "jget (film_payload [film_entry]) ''format'' = JObj [(''filename'', JStr ''/m/a.mkv''), (''duration'', JStr ''12.500000'')]"
    by (simp_all add: film_payload_def jget_def)
  moreover have "\<exists>raw. film_entry = JObj raw \<and> as_int plain_repr (jget raw ''index'') \<noteq> None"
  proof (rule exI, rule conjI [OF film_entry_def])
    have "\<not> Option.is_none (as_int plain_repr (JStr ''0''))" by code_simp
    then show "as_int plain_repr (jget [(''index'', JStr ''0''), (''codec_type'', JStr ''video''), (''codec_name'', JStr ''h264''),
        (''width'', JStr ''1920''), (''height'', JStr ''1080'')] ''index'') \<noteq> None"
      by (simp add: jget_def Option.is_none_def)
  qed
  ultimately show ?thesis unfolding probe_payload_accepted_iff by (auto simp: jget_def)
qed

lemma probed_flags_witness:
  "\<exists>m. normalise_ffprobe_payload plain_repr (JObj (film_payload [film_entry, sound_entry, cover_entry])) (path_of ''/x'') = Inr m \<and>
     is_4k m \<and> has_english_audio m \<and> \<not> has_forced_english_subtitle m"
proof -
  let ?xs = "[film_entry, sound_entry, cover_entry]"
  have "\<not> isl (normalise_ffprobe_payload plain_repr (JObj (film_payload ?xs)) (path_of ''/x''))" by code_simp
  from accepted [OF this] obtain m where m: "normalise_ffprobe_payload plain_repr (JObj (film_payload ?xs)) (path_of ''/x'') = Inr m" ..
  have x: "jget (film_payload ?xs) ''streams'' = JList ?xs" by code_simp
  have e: "list_ex (\<lambda>raw. is_4k_resolution (as_int plain_repr (jget raw ''width'')) (as_int plain_repr (jget raw ''height''))) (raws_of plain_repr ST_VIDEO ?xs)"
    "list_ex (\<lambda>raw. t_language (normalise_stream_tags plain_repr (jget raw ''tags'')) = Some ''eng'') (raws_of plain_repr ST_AUDIO ?xs)"
    "raws_of plain_repr ST_SUBTITLE ?xs = []" by code_simp+
  note flags = probed_flags [OF m x]
  have "is_4k m" using flags e(1) unfolding list_ex_iff by blast
  moreover have "has_english_audio m" using flags e(2) unfolding list_ex_iff by blast
  moreover have "\<not> has_forced_english_subtitle m" using flags unfolding e(3) by simp
  ultimately show ?thesis using m by blast
qed


definition planned :: "json list \<Rightarrow> (plan_action \<times> bool) option" where
  "planned xs = (case normalise_ffprobe_payload plain_repr (JObj (film_payload xs)) (path_of ''/x'') of Inl _ \<Rightarrow> None
     | Inr m \<Rightarrow> (case build_processing_plan m (sample_bundle None) None of Inl _ \<Rightarrow> None | Inr p \<Rightarrow> Some (action p, is_4k m)))"

text \<open>A poster of 3000 by 3000 pixels makes an ordinary 1080p film a 4K file, which then waits for a review
  instead of being encoded.\<close>

lemma cover_art_changes_the_plan:
  "planned [film_entry, sound_entry] = Some (TRANSCODE, False)"
  "planned [film_entry, sound_entry, cover_entry] = Some (MANUAL_REVIEW, True)"
  by code_simp+

end
