(* ===== verification/Rulesets.thy ===== *)
theory Rulesets
  imports Probe Planner Path_Safety Backend
begin

text \<open>
  The processing rules an operator sets per library, and the policy a file is planned with
  (\<open>src/apps/api/app/services/setup.py\<close> and \<open>_config_bundle_for_source\<close> of \<open>services/plans.py\<close>). The state is
  one JSON file; what the disk says about it, and the resolution of paths, are parameters. The names of the profiles are a list,
  because the service looks through them in the order of the configuration.
\<close>

subsection \<open>Rules\<close>

datatype handling_mode = H_TRANSCODE | H_STRIP_ONLY | H_PRESERVE_VIDEO

fun handling_mode_value :: "handling_mode \<Rightarrow> string" where
  "handling_mode_value H_TRANSCODE = ''transcode''"
| "handling_mode_value H_STRIP_ONLY = ''strip_only''"
| "handling_mode_value H_PRESERVE_VIDEO = ''preserve_video''"

record processing_rules =
  ru_target_video_codec :: video_codec
  ru_output_container :: output_container
  ru_preferred_audio_languages :: "string list"
  ru_keep_only_preferred_audio :: bool
  ru_preserve_surround :: bool
  ru_preserve_seven_one :: bool
  ru_preserve_atmos :: bool
  ru_preferred_subtitle_languages :: "string list"
  ru_keep_forced_subtitles :: bool
  ru_keep_one_full_preferred_subtitle :: bool
  ru_drop_other_subtitles :: bool
  ru_handling_mode :: handling_mode
  ru_quality_preset :: string
  ru_target_quality_mode :: video_quality_mode
  ru_target_crf :: "int option"
  ru_max_allowed_video_reduction_percent :: int
  ru_low_bitrate_skip_threshold_1080p_mbps :: rat
  ru_low_bitrate_skip_threshold_720p_mbps :: rat
  ru_minimum_output_bitrate_1080p_mbps :: rat
  ru_minimum_output_bitrate_720p_mbps :: rat
  ru_output_larger_than_input_review_percent :: "int option"

subsection \<open>Validation\<close>

text \<open>An \<open>ApiValidationError\<close>, or an exception that nobody here catches.\<close>

datatype rules_error = Rejected string | Unforeseen

definition by_value :: "('a \<Rightarrow> string) \<Rightarrow> 'a list \<Rightarrow> string \<Rightarrow> 'a option" where
  "by_value text xs s = find (\<lambda>x. text x = s) xs"

definition enum_field :: "(json \<Rightarrow> string) \<Rightarrow> ('a \<Rightarrow> string) \<Rightarrow> 'a list \<Rightarrow> (string \<times> json) list \<Rightarrow> string \<Rightarrow> rules_error + 'a" where
  "enum_field repr text xs kvs k =
     (case Option.bind (map_of kvs k) (\<lambda>v. by_value text xs (py_lower (py_strip (py_str repr v)))) of
        None \<Rightarrow> Inl (Rejected ''Processing rules contain an unsupported value.'')
      | Some x \<Rightarrow> Inr x)"

definition field_or :: "(string \<times> json) list \<Rightarrow> string \<Rightarrow> json \<Rightarrow> json" where
  "field_or kvs k dflt = (case map_of kvs k of None \<Rightarrow> dflt | Some v \<Rightarrow> v)"

text \<open>\<open>int(value)\<close> and \<open>float(value)\<close> of a JSON value.\<close>

fun int_of_json :: "json \<Rightarrow> int option" where
  "int_of_json (JInt n) = Some n"
| "int_of_json (JBool b) = Some (of_bool b)"
| "int_of_json (JFloat x) = Some (py_trunc x)"
| "int_of_json (JStr s) = py_int s"
| "int_of_json _ = None"

fun float_of_json :: "json \<Rightarrow> rat option" where
  "float_of_json (JInt n) = Some (to_float n)"
| "float_of_json (JBool b) = Some (of_bool b)"
| "float_of_json (JFloat x) = Some x"
| "float_of_json (JStr s) = py_float s"
| "float_of_json _ = None"

text \<open>\<open>round(x, 2)\<close>: the exact value of the double is rounded to hundredths, half to even.\<close>

definition round_hundredths :: "rat \<Rightarrow> rat" where
  "round_hundredths x = fl64 (of_int (round_even (x * 100)) / 100)"

definition validate_mbps :: "string \<Rightarrow> json \<Rightarrow> rules_error + rat" where
  "validate_mbps name v =
     (case float_of_json v of
        None \<Rightarrow> Inl (Rejected (name @ '' must be a number.''))
      | Some x \<Rightarrow> if x < 0 then Inl (Rejected (name @ '' must not be negative.'')) else Inr (round_hundredths x))"

definition validate_optional_int :: "string \<Rightarrow> int \<Rightarrow> int \<Rightarrow> json \<Rightarrow> rules_error + int option" where
  "validate_optional_int name low high v =
     (if v = JNull \<or> v = JStr [] then Inr None
      else case int_of_json v of
        None \<Rightarrow> Inl (Rejected (name @ '' must be a number.''))
      | Some n \<Rightarrow>
          if n < low \<or> high < n
          then Inl (Rejected (name @ '' must be between '' @ show_int low @ '' and '' @ show_int high @ ''.''))
          else Inr (Some n))"

definition validate_language_list :: "(json \<Rightarrow> string) \<Rightarrow> json \<Rightarrow> rules_error + string list" where
  "validate_language_list repr v =
     (case v of
        JList xs \<Rightarrow>
          let codes = map (\<lambda>x. py_lower (py_strip (py_str repr x))) xs in
          if list_ex (\<lambda>c. \<not> is_language_code c) codes
          then Inl (Rejected ''Language preferences must use three-letter language codes.'')
          else if codes = [] then Inl (Rejected ''At least one preferred language is required.'')
          else Inr (deduplicate_preserving_order codes)
      | _ \<Rightarrow> Inl (Rejected ''Language preferences must be provided as a list.''))"

definition validate_preset :: "(json \<Rightarrow> string) \<Rightarrow> json \<Rightarrow> video_quality_mode \<Rightarrow> rules_error + string" where
  "validate_preset repr v quality =
     (let p = py_lower (py_strip (if json_truthy v then py_str repr v else video_quality_mode_value quality)) in
      if p \<in> {''high_quality'', ''balanced'', ''efficient'', ''custom''} then Inr p
      else Inl (Rejected ''Processing rules contain an unsupported quality preset.''))"

text \<open>The limit on the reduction is read without a guard: what is no number is no \<open>ApiValidationError\<close>.\<close>

definition validate_reduction :: "json \<Rightarrow> rules_error + int" where
  "validate_reduction v =
     (case int_of_json v of
        None \<Rightarrow> Inl Unforeseen
      | Some n \<Rightarrow> if n < 0 \<or> 95 < n then Inl (Rejected ''Maximum allowed video reduction must be between 0 and 95.'') else Inr n)"

definition sum_bind :: "'e + 'a \<Rightarrow> ('a \<Rightarrow> 'e + 'b) \<Rightarrow> 'e + 'b" where
  "sum_bind x f = (case x of Inl e \<Rightarrow> Inl e | Inr y \<Rightarrow> f y)"

definition validate_processing_rules :: "(json \<Rightarrow> string) \<Rightarrow> (string \<times> json) list \<Rightarrow> rules_error + processing_rules" where
  "validate_processing_rules repr kvs =
     sum_bind (enum_field repr video_codec_value [H264, HEVC, AV1, MPEG2, VP9] kvs ''target_video_codec'') (\<lambda>codec.
     sum_bind (enum_field repr output_container_value [MKV, MP4] kvs ''output_container'') (\<lambda>cont.
     sum_bind (enum_field repr handling_mode_value [H_TRANSCODE, H_STRIP_ONLY, H_PRESERVE_VIDEO] kvs ''handling_mode'') (\<lambda>handling.
     sum_bind (enum_field repr video_quality_mode_value [HIGH_QUALITY, BALANCED, EFFICIENT] kvs ''target_quality_mode'') (\<lambda>quality.
     sum_bind (validate_preset repr (jget kvs ''quality_preset'') quality) (\<lambda>preset.
     sum_bind (validate_language_list repr (jget kvs ''preferred_audio_languages'')) (\<lambda>audio_langs.
     sum_bind (validate_language_list repr (jget kvs ''preferred_subtitle_languages'')) (\<lambda>subtitle_langs.
     sum_bind (validate_reduction (field_or kvs ''max_allowed_video_reduction_percent'' (JInt 0))) (\<lambda>reduction.
     sum_bind (validate_optional_int ''CRF'' 0 51 (jget kvs ''target_crf'')) (\<lambda>crf.
     sum_bind (validate_mbps ''1080p low-bitrate skip threshold'' (field_or kvs ''low_bitrate_skip_threshold_1080p_mbps'' (JFloat 3))) (\<lambda>low_1080p.
     sum_bind (validate_mbps ''720p low-bitrate skip threshold'' (field_or kvs ''low_bitrate_skip_threshold_720p_mbps'' (JFloat (3 / 2)))) (\<lambda>low_720p.
     sum_bind (validate_mbps ''1080p minimum output bitrate'' (field_or kvs ''minimum_output_bitrate_1080p_mbps'' (JFloat (7 / 4)))) (\<lambda>min_1080p.
     sum_bind (validate_mbps ''720p minimum output bitrate'' (field_or kvs ''minimum_output_bitrate_720p_mbps'' (JFloat 1))) (\<lambda>min_720p.
     sum_bind (validate_optional_int ''Output larger than input review guard'' 0 100
                 (field_or kvs ''output_larger_than_input_review_percent'' (JInt 5))) (\<lambda>growth.
     let flag = (\<lambda>k. json_truthy (field_or kvs k (JBool True))) in
     Inr \<lparr>ru_target_video_codec = codec, ru_output_container = cont, ru_preferred_audio_languages = audio_langs,
          ru_keep_only_preferred_audio = flag ''keep_only_preferred_audio_languages'', ru_preserve_surround = flag ''preserve_surround'',
          ru_preserve_seven_one = flag ''preserve_seven_one'', ru_preserve_atmos = flag ''preserve_atmos'',
          ru_preferred_subtitle_languages = subtitle_langs, ru_keep_forced_subtitles = flag ''keep_forced_subtitles'',
          ru_keep_one_full_preferred_subtitle = flag ''keep_one_full_preferred_subtitle'',
          ru_drop_other_subtitles = flag ''drop_other_subtitles'', ru_handling_mode = handling, ru_quality_preset = preset,
          ru_target_quality_mode = quality, ru_target_crf = crf, ru_max_allowed_video_reduction_percent = reduction,
          ru_low_bitrate_skip_threshold_1080p_mbps = low_1080p, ru_low_bitrate_skip_threshold_720p_mbps = low_720p,
          ru_minimum_output_bitrate_1080p_mbps = min_1080p, ru_minimum_output_bitrate_720p_mbps = min_720p,
          ru_output_larger_than_input_review_percent = growth\<rparr>))))))))))))))"

definition json_of_option :: "('a \<Rightarrow> json) \<Rightarrow> 'a option \<Rightarrow> json" where
  "json_of_option f x = (case x of None \<Rightarrow> JNull | Some y \<Rightarrow> f y)"

text \<open>What is stored: the validated dictionary.\<close>

definition stored_rules :: "processing_rules \<Rightarrow> (string \<times> json) list" where
  "stored_rules r =
     [(''target_video_codec'', JStr (video_codec_value (ru_target_video_codec r))),
      (''output_container'', JStr (output_container_value (ru_output_container r))),
      (''preferred_audio_languages'', JList (map JStr (ru_preferred_audio_languages r))),
      (''keep_only_preferred_audio_languages'', JBool (ru_keep_only_preferred_audio r)),
      (''preserve_surround'', JBool (ru_preserve_surround r)), (''preserve_seven_one'', JBool (ru_preserve_seven_one r)),
      (''preserve_atmos'', JBool (ru_preserve_atmos r)),
      (''preferred_subtitle_languages'', JList (map JStr (ru_preferred_subtitle_languages r))),
      (''keep_forced_subtitles'', JBool (ru_keep_forced_subtitles r)),
      (''keep_one_full_preferred_subtitle'', JBool (ru_keep_one_full_preferred_subtitle r)),
      (''drop_other_subtitles'', JBool (ru_drop_other_subtitles r)),
      (''handling_mode'', JStr (handling_mode_value (ru_handling_mode r))), (''quality_preset'', JStr (ru_quality_preset r)),
      (''target_quality_mode'', JStr (video_quality_mode_value (ru_target_quality_mode r))),
      (''target_crf'', json_of_option JInt (ru_target_crf r)),
      (''max_allowed_video_reduction_percent'', JInt (ru_max_allowed_video_reduction_percent r)),
      (''low_bitrate_skip_threshold_1080p_mbps'', JFloat (ru_low_bitrate_skip_threshold_1080p_mbps r)),
      (''low_bitrate_skip_threshold_720p_mbps'', JFloat (ru_low_bitrate_skip_threshold_720p_mbps r)),
      (''minimum_output_bitrate_1080p_mbps'', JFloat (ru_minimum_output_bitrate_1080p_mbps r)),
      (''minimum_output_bitrate_720p_mbps'', JFloat (ru_minimum_output_bitrate_720p_mbps r)),
      (''output_larger_than_input_review_percent'', json_of_option JInt (ru_output_larger_than_input_review_percent r))]"

definition coerce_processing_rules :: "(json \<Rightarrow> string) \<Rightarrow> json \<Rightarrow> rules_error + processing_rules option" where
  "coerce_processing_rules repr v =
     (case v of
        JObj kvs \<Rightarrow>
          (case validate_processing_rules repr kvs of
             Inr r \<Rightarrow> Inr (Some r) | Inl (Rejected _) \<Rightarrow> Inr None | Inl Unforeseen \<Rightarrow> Inl Unforeseen)
      | _ \<Rightarrow> Inr None)"

subsection \<open>The state file\<close>

datatype ruleset = Movies | Movies_4k | Tv | Tv_4k

fun ruleset_name :: "ruleset \<Rightarrow> string" where
  "ruleset_name Movies = ''movies''"
| "ruleset_name Movies_4k = ''movies_4k''"
| "ruleset_name Tv = ''tv''"
| "ruleset_name Tv_4k = ''tv_4k''"

record setup_state =
  su_movies_root :: "string option"
  su_tv_root :: "string option"
  su_rules :: "ruleset \<Rightarrow> processing_rules option"
  su_preferred_backend :: string
  su_allow_cpu_fallback :: bool

definition default_backend_preference :: string where "default_backend_preference = ''cpu_only''"

definition empty_setup :: setup_state where
  "empty_setup = \<lparr>su_movies_root = None, su_tv_root = None, su_rules = (\<lambda>_. None),
     su_preferred_backend = default_backend_preference, su_allow_cpu_fallback = True\<rparr>"

text \<open>What reading the file gives: nothing there, an \<open>OSError\<close>, no JSON, or a value.\<close>

datatype state_file = Absent | Unreadable | Not_Json string | Stored json

text \<open>A write goes through a temporary file: it takes place, fails before the file is replaced, or fails when the directory
  is synchronised afterwards.\<close>

datatype write_outcome = Written | Not_Written | Not_Synced

record setup_disk =
  sd_file :: state_file
  sd_backups :: "state_file list"
  sd_copy_fails :: bool
  sd_write :: write_outcome

definition clean_optional_path :: "(json \<Rightarrow> string) \<Rightarrow> json \<Rightarrow> string option" where
  "clean_optional_path repr v = (if v = JNull then None else let t = py_strip (py_str repr v) in if t = [] then None else Some t)"

definition backend_text :: "(json \<Rightarrow> string) \<Rightarrow> json \<Rightarrow> string option" where
  "backend_text repr v = (if json_truthy v then Some (py_str repr v) else None)"

definition setup_of_json :: "(json \<Rightarrow> string) \<Rightarrow> (string \<times> json) list \<Rightarrow> rules_error + setup_state" where
  "setup_of_json repr raw =
     (let base = empty_setup\<lparr>su_movies_root := clean_optional_path repr (jget raw ''movies_root''),
                             su_tv_root := clean_optional_path repr (jget raw ''tv_root'')\<rparr>;
          prefs = (case jget raw ''execution_preferences'' of
                     JObj kvs \<Rightarrow> base\<lparr>su_preferred_backend :=
                         coerce_backend_preference (backend_text repr (jget kvs ''preferred_backend'')) default_backend_preference,
                       su_allow_cpu_fallback := json_truthy (field_or kvs ''allow_cpu_fallback'' (JBool True))\<rparr>
                   | _ \<Rightarrow> base)
      in case jget raw ''processing_rules'' of
           JObj kvs \<Rightarrow>
             sum_bind (coerce_processing_rules repr (jget kvs ''movies'')) (\<lambda>a.
             sum_bind (coerce_processing_rules repr (jget kvs ''movies_4k'')) (\<lambda>b.
             sum_bind (coerce_processing_rules repr (jget kvs ''tv'')) (\<lambda>c.
             sum_bind (coerce_processing_rules repr (jget kvs ''tv_4k'')) (\<lambda>e.
             Inr (prefs\<lparr>su_rules := (\<lambda>r. case r of Movies \<Rightarrow> a | Movies_4k \<Rightarrow> b | Tv \<Rightarrow> c | Tv_4k \<Rightarrow> e)\<rparr>)))))
         | _ \<Rightarrow> Inr prefs)"

definition json_of_setup :: "setup_state \<Rightarrow> json" where
  "json_of_setup s =
     JObj [(''movies_root'', json_of_option JStr (su_movies_root s)), (''tv_root'', json_of_option JStr (su_tv_root s)),
       (''processing_rules'', JObj (map (\<lambda>r. (ruleset_name r, json_of_option (\<lambda>x. JObj (stored_rules x)) (su_rules s r)))
          [Movies, Movies_4k, Tv, Tv_4k])),
       (''execution_preferences'', JObj [(''preferred_backend'', JStr (su_preferred_backend s)),
          (''allow_cpu_fallback'', JBool (su_allow_cpu_fallback s))])]"

text \<open>Whether the write succeeded; the file is written whole or not at all.\<close>

definition write_setup :: "setup_state \<Rightarrow> setup_disk \<Rightarrow> bool \<times> setup_disk" where
  "write_setup s k = (sd_write k = Written, if sd_write k = Not_Written then k else k\<lparr>sd_file := Stored (json_of_setup s)\<rparr>)"

text \<open>A file that holds no state is copied away and replaced by the defaults; the request fails all the same.\<close>

definition recover_corrupt_state :: "setup_disk \<Rightarrow> (rules_error + setup_state) \<times> setup_disk" where
  "recover_corrupt_state k =
     (if sd_copy_fails k then (Inl (Rejected ''Setup state file is corrupt and could not be backed up.''), k)
      else case write_setup empty_setup (k\<lparr>sd_backups := sd_backups k @ [sd_file k]\<rparr>) of (ok, k') \<Rightarrow>
        (Inl (Rejected (if ok then ''Setup state file is corrupt and defaults were restored.''
                        else ''Setup state file is corrupt and defaults could not be restored.'')), k'))"

definition load_state_payload :: "(json \<Rightarrow> string) \<Rightarrow> setup_disk \<Rightarrow> (rules_error + setup_state) \<times> setup_disk" where
  "load_state_payload repr k =
     (case sd_file k of
        Absent \<Rightarrow> (Inr empty_setup, k)
      | Unreadable \<Rightarrow> (Inl (Rejected ''Setup state file could not be read.''), k)
      | Not_Json _ \<Rightarrow> recover_corrupt_state k
      | Stored v \<Rightarrow> (case v of JObj raw \<Rightarrow> (setup_of_json repr raw, k) | _ \<Rightarrow> recover_corrupt_state k))"

text \<open>New rules: all four are validated before anything is written; an \<open>OSError\<close> of the write goes through.\<close>

definition validate_given :: "(json \<Rightarrow> string) \<Rightarrow> (string \<times> json) list option \<Rightarrow> rules_error + processing_rules option" where
  "validate_given repr x = (case x of None \<Rightarrow> Inr None | Some kvs \<Rightarrow> map_sum id Some (validate_processing_rules repr kvs))"

definition stored_answer :: "bool \<times> setup_disk \<Rightarrow> setup_state \<Rightarrow> (rules_error + setup_state) \<times> setup_disk" where
  "stored_answer w s = (if fst w then Inr s else Inl Unforeseen, snd w)"

definition update_processing_rules ::
    "(json \<Rightarrow> string) \<Rightarrow> (ruleset \<Rightarrow> (string \<times> json) list option) \<Rightarrow> setup_disk \<Rightarrow> (rules_error + setup_state) \<times> setup_disk" where
  "update_processing_rules repr given_rules k =
     (case load_state_payload repr k of
        (Inl e, k1) \<Rightarrow> (Inl e, k1)
      | (Inr s, k1) \<Rightarrow>
          (case sum_bind (validate_given repr (given_rules Movies)) (\<lambda>a.
                sum_bind (validate_given repr (given_rules Movies_4k)) (\<lambda>b.
                sum_bind (validate_given repr (given_rules Tv)) (\<lambda>c.
                sum_bind (validate_given repr (given_rules Tv_4k)) (\<lambda>e.
                Inr (s\<lparr>su_rules := (\<lambda>r. case r of Movies \<Rightarrow> a | Movies_4k \<Rightarrow> b | Tv \<Rightarrow> c | Tv_4k \<Rightarrow> e)\<rparr>))))) of
             Inl e \<Rightarrow> (Inl e, k1)
           | Inr s' \<Rightarrow> stored_answer (write_setup s' k1) s'))"

text \<open>The backend preference, and the roots of the libraries, which must be folders below the media mount.\<close>

definition update_execution_preferences ::
    "(json \<Rightarrow> string) \<Rightarrow> string \<Rightarrow> bool \<Rightarrow> setup_disk \<Rightarrow> (rules_error + setup_state) \<times> setup_disk" where
  "update_execution_preferences repr preferred fallback k =
     (if preferred \<notin> set supported_backend_preferences then (Inl (Rejected ''Unsupported execution backend preference.''), k)
      else case load_state_payload repr k of
        (Inl e, k1) \<Rightarrow> (Inl e, k1)
      | (Inr s, k1) \<Rightarrow> let s' = s\<lparr>su_preferred_backend := preferred, su_allow_cpu_fallback := fallback\<rparr> in
          stored_answer (write_setup s' k1) s')"

record folder_env =
  fe_expand :: "path \<Rightarrow> path"
  fe_exists :: "path \<Rightarrow> bool"
  fe_is_dir :: "path \<Rightarrow> bool"
  fe_resolve :: "path \<Rightarrow> path"

definition validate_optional_path :: "folder_env \<Rightarrow> path list \<Rightarrow> string option \<Rightarrow> rules_error + path option" where
  "validate_optional_path v allowed t =
     (case t of
        None \<Rightarrow> Inr None
      | Some x \<Rightarrow>
          if py_strip x = [] then Inr None
          else let p = fe_expand v (path_of x) in
            if \<not> fe_exists v p then Inl (Rejected ''Selected root path does not exist.'')
            else if \<not> fe_is_dir v p then Inl (Rejected ''Selected root path must be a directory.'')
            else if list_ex (under_root (fe_resolve v p)) allowed then Inr (Some (fe_resolve v p))
            else Inl (Rejected ''Selected root path must stay under the configured media mount.''))"

definition update_state ::
    "(json \<Rightarrow> string) \<Rightarrow> folder_env \<Rightarrow> path list \<Rightarrow> string option \<Rightarrow> string option \<Rightarrow> setup_disk \<Rightarrow>
       (rules_error + setup_state) \<times> setup_disk" where
  "update_state repr v allowed movies tv k =
     (case sum_bind (validate_optional_path v allowed movies) (\<lambda>m. map_sum id (Pair m) (validate_optional_path v allowed tv)) of
        Inl e \<Rightarrow> (Inl e, k)
      | Inr (m, t) \<Rightarrow>
          (case load_state_payload repr k of
             (Inl e, k1) \<Rightarrow> (Inl e, k1)
           | (Inr s, k1) \<Rightarrow> let s' = s\<lparr>su_movies_root := map_option as_posix m, su_tv_root := map_option as_posix t\<rparr> in
               stored_answer (write_setup s' k1) s'))"

subsection \<open>The rules of a file\<close>

fun of_library :: "bool \<Rightarrow> bool \<Rightarrow> ruleset" where
  "of_library True uhd = (if uhd then Tv_4k else Tv)"
| "of_library False uhd = (if uhd then Movies_4k else Movies)"

text \<open>The root that contains the file; of two the longer one, and of equal ones the television root.\<close>

definition resolve_ruleset_for_path ::
    "(path \<Rightarrow> path) \<Rightarrow> path \<Rightarrow> string option \<Rightarrow> string option \<Rightarrow> bool \<Rightarrow> ruleset option" where
  "resolve_ruleset_for_path resolve src movies_root tv_root uhd =
     (let found = (\<lambda>b r. case r of None \<Rightarrow> []
                    | Some t \<Rightarrow> if t = [] then [] else let p = resolve (path_of t) in
                        if under_root src p then [(length (as_posix p), b)] else []);
          matches = found False movies_root @ found True tv_root
      in if matches = [] then None else Some (of_library (snd (Max (set matches))) uhd))"

definition ruleset_for_source :: "(path \<Rightarrow> path) \<Rightarrow> setup_state \<Rightarrow> path \<Rightarrow> bool \<Rightarrow> ruleset option" where
  "ruleset_for_source resolve s src uhd = resolve_ruleset_for_path resolve (resolve src) (su_movies_root s) (su_tv_root s) uhd"

definition rules_for_source :: "(path \<Rightarrow> path) \<Rightarrow> setup_state \<Rightarrow> path \<Rightarrow> bool \<Rightarrow> processing_rules option" where
  "rules_for_source resolve s src uhd = Option.bind (ruleset_for_source resolve s src uhd) (su_rules s)"

definition profile_name_for_ruleset :: "config_bundle \<Rightarrow> string list \<Rightarrow> ruleset \<Rightarrow> string option" where
  "profile_name_for_ruleset b names r =
     (let keywords = (if prefix ''movies'' (ruleset_name r) then [''movie'', ''movies''] else [''tv'']) in
      case find (\<lambda>ov. contains_any (py_lower (path_prefix ov)) keywords) (path_overrides (policy b)) of
        Some ov \<Rightarrow> Some (po_profile ov)
      | None \<Rightarrow> find (\<lambda>n. contains_any (py_lower n) keywords) names)"

definition profile_for_ruleset :: "config_bundle \<Rightarrow> string list \<Rightarrow> ruleset \<Rightarrow> profile_config option" where
  "profile_for_ruleset b names r =
     (case profile_name_for_ruleset b names r of None \<Rightarrow> None | Some n \<Rightarrow> if n = [] then None else profiles b n)"

subsection \<open>The policy under rules\<close>

definition forced_languages :: "processing_rules \<Rightarrow> string list" where
  "forced_languages r = (if ru_keep_forced_subtitles r then ru_preferred_subtitle_languages r else [''und''])"

definition four_k_under_rules :: "processing_rules \<Rightarrow> bool \<Rightarrow> four_k_video_rules \<Rightarrow> four_k_video_rules" where
  "four_k_under_rules r uhd f =
     (let f1 = f\<lparr>f_preferred_codec := ru_target_video_codec r, f_quality_mode := ru_target_quality_mode r,
                 f_quality_crf := ru_target_crf r, f_max_video_reduction_percent := ru_max_allowed_video_reduction_percent r,
                 f_minimum_output_bitrate_1080p_mbps := ru_minimum_output_bitrate_1080p_mbps r,
                 f_minimum_output_bitrate_720p_mbps := ru_minimum_output_bitrate_720p_mbps r,
                 f_output_larger_than_input_review_percent := ru_output_larger_than_input_review_percent r\<rparr>;
          transcode = (ru_handling_mode r = H_TRANSCODE)
      in if uhd
         then f1\<lparr>f_mode := (if transcode then POLICY_CONTROLLED else STRIP_ONLY), f_allow_transcode := transcode,
                 f_preserve_original_video := \<not> transcode, f_remove_non_english_audio := ru_keep_only_preferred_audio r,
                 f_remove_non_english_subtitles := ru_drop_other_subtitles r\<rparr>
         else f1)"

definition non_4k_under_rules :: "processing_rules \<Rightarrow> bool \<Rightarrow> non_four_k_video_rules \<Rightarrow> non_four_k_video_rules" where
  "non_4k_under_rules r uhd n =
     (let n1 = n\<lparr>n_preferred_codec := ru_target_video_codec r, n_quality_mode := ru_target_quality_mode r,
                 n_quality_crf := ru_target_crf r, n_max_video_reduction_percent := ru_max_allowed_video_reduction_percent r,
                 n_low_bitrate_skip_threshold_1080p_mbps := ru_low_bitrate_skip_threshold_1080p_mbps r,
                 n_low_bitrate_skip_threshold_720p_mbps := ru_low_bitrate_skip_threshold_720p_mbps r,
                 n_minimum_output_bitrate_1080p_mbps := ru_minimum_output_bitrate_1080p_mbps r,
                 n_minimum_output_bitrate_720p_mbps := ru_minimum_output_bitrate_720p_mbps r,
                 n_output_larger_than_input_review_percent := ru_output_larger_than_input_review_percent r\<rparr>;
          transcode = (ru_handling_mode r = H_TRANSCODE)
      in if uhd then n1
         else n1\<lparr>n_allow_transcode := transcode,
                 n_decision_order := (if transcode then [D_SKIP, D_REMUX, D_TRANSCODE] else [D_SKIP, D_REMUX])\<rparr>)"

definition policy_under_rules :: "processing_rules \<Rightarrow> bool \<Rightarrow> policy_config \<Rightarrow> policy_config" where
  "policy_under_rules r uhd p =
     p\<lparr>audio := (audio p)\<lparr>a_keep_languages := ru_preferred_audio_languages r, keep_only_preferred_languages := ru_keep_only_preferred_audio r,
          preserve_best_surround := ru_preserve_surround r, preserve_seven_one := ru_preserve_seven_one r,
          preserve_atmos_capable := ru_preserve_atmos r\<rparr>,
       subtitles := (subtitles p)\<lparr>s_keep_languages := ru_preferred_subtitle_languages r, s_keep_forced_languages := forced_languages r,
          keep_one_full_preferred_subtitle := ru_keep_one_full_preferred_subtitle r, drop_other_subtitles := ru_drop_other_subtitles r\<rparr>,
       languages := (languages p)\<lparr>preserve_forced_subtitles := ru_keep_forced_subtitles r\<rparr>,
       video := \<lparr>output_container = ru_output_container r, non_4k = non_4k_under_rules r uhd (non_4k (video p)),
                 four_k = four_k_under_rules r uhd (four_k (video p))\<rparr>\<rparr>"

text \<open>The profile of the library: its non-4K rules keep their own permission to transcode.\<close>

definition profile_non_4k_under_rules :: "processing_rules \<Rightarrow> profile_non_four_k_video_rules option \<Rightarrow> profile_non_four_k_video_rules" where
  "profile_non_4k_under_rules r x =
     (let base = (case x of Some n \<Rightarrow> n
                  | None \<Rightarrow> \<lparr>pn_decision_order = None, pn_preferred_codec = None, pn_allow_transcode = None, pn_quality_mode = None,
                             pn_quality_crf = None, pn_max_video_reduction_percent = None, pn_max_video_bitrate_mbps = None,
                             pn_max_width = None, pn_low_bitrate_skip_threshold_1080p_mbps = None,
                             pn_low_bitrate_skip_threshold_720p_mbps = None, pn_minimum_output_bitrate_1080p_mbps = None,
                             pn_minimum_output_bitrate_720p_mbps = None, pn_output_larger_than_input_review_percent = None\<rparr>)
      in base\<lparr>pn_preferred_codec := Some (ru_target_video_codec r), pn_quality_mode := Some (ru_target_quality_mode r),
              pn_quality_crf := ru_target_crf r, pn_max_video_reduction_percent := Some (ru_max_allowed_video_reduction_percent r),
              pn_low_bitrate_skip_threshold_1080p_mbps := Some (ru_low_bitrate_skip_threshold_1080p_mbps r),
              pn_low_bitrate_skip_threshold_720p_mbps := Some (ru_low_bitrate_skip_threshold_720p_mbps r),
              pn_minimum_output_bitrate_1080p_mbps := Some (ru_minimum_output_bitrate_1080p_mbps r),
              pn_minimum_output_bitrate_720p_mbps := Some (ru_minimum_output_bitrate_720p_mbps r),
              pn_output_larger_than_input_review_percent := ru_output_larger_than_input_review_percent r\<rparr>)"

definition profile_four_k_under_rules :: "processing_rules \<Rightarrow> profile_four_k_video_rules option \<Rightarrow> profile_four_k_video_rules" where
  "profile_four_k_under_rules r x =
     (let transcode = (ru_handling_mode r = H_TRANSCODE);
          base = (case x of
                    Some f \<Rightarrow> f\<lparr>pf_preserve_original_video := Some (\<not> transcode),
                                pf_remove_non_english_audio := Some (ru_keep_only_preferred_audio r),
                                pf_remove_non_english_subtitles := Some (ru_drop_other_subtitles r)\<rparr>
                  | None \<Rightarrow> \<lparr>pf_mode = None, pf_preferred_codec = None, pf_preserve_original_video = None,
                             pf_preserve_original_audio = None, pf_allow_transcode = None, pf_quality_mode = None,
                             pf_quality_crf = None, pf_max_video_reduction_percent = None,
                             pf_minimum_output_bitrate_1080p_mbps = None, pf_minimum_output_bitrate_720p_mbps = None,
                             pf_output_larger_than_input_review_percent = None, pf_remove_non_english_audio = None,
                             pf_remove_non_english_subtitles = None\<rparr>)
      in base\<lparr>pf_preferred_codec := Some (ru_target_video_codec r),
              pf_mode := Some (if transcode then POLICY_CONTROLLED else STRIP_ONLY), pf_allow_transcode := Some transcode,
              pf_quality_mode := Some (ru_target_quality_mode r), pf_quality_crf := ru_target_crf r,
              pf_max_video_reduction_percent := Some (ru_max_allowed_video_reduction_percent r),
              pf_minimum_output_bitrate_1080p_mbps := Some (ru_minimum_output_bitrate_1080p_mbps r),
              pf_minimum_output_bitrate_720p_mbps := Some (ru_minimum_output_bitrate_720p_mbps r),
              pf_output_larger_than_input_review_percent := ru_output_larger_than_input_review_percent r\<rparr>)"

definition profile_with_rules :: "profile_config \<Rightarrow> processing_rules \<Rightarrow> profile_config" where
  "profile_with_rules p r =
     p\<lparr>pc_audio := map_option (\<lambda>a. a\<lparr>pa_keep_languages := Some (ru_preferred_audio_languages r),
          pa_keep_only_preferred_languages := Some (ru_keep_only_preferred_audio r), pa_preserve_best_surround := Some (ru_preserve_surround r),
          pa_preserve_seven_one := Some (ru_preserve_seven_one r), pa_preserve_atmos_capable := Some (ru_preserve_atmos r)\<rparr>) (pc_audio p),
       pc_subtitles := map_option (\<lambda>s. s\<lparr>ps_keep_languages := Some (ru_preferred_subtitle_languages r),
          ps_keep_forced_languages := Some (forced_languages r),
          ps_keep_one_full_preferred_subtitle := Some (ru_keep_one_full_preferred_subtitle r),
          ps_drop_other_subtitles := Some (ru_drop_other_subtitles r)\<rparr>) (pc_subtitles p),
       pc_video := map_option (\<lambda>v. v\<lparr>pv_output_container := Some (ru_output_container r),
          pv_non_4k := Some (profile_non_4k_under_rules r (pv_non_4k v)),
          pv_four_k := Some (profile_four_k_under_rules r (pv_four_k v))\<rparr>) (pc_video p)\<rparr>"

definition bundle_under_rules :: "config_bundle \<Rightarrow> string list \<Rightarrow> ruleset \<Rightarrow> processing_rules \<Rightarrow> bool \<Rightarrow> config_bundle" where
  "bundle_under_rules b names rs r uhd =
     \<lparr>policy = policy_under_rules r uhd (policy b),
      profiles = (case profile_name_for_ruleset b names rs of
                    None \<Rightarrow> profiles b
                  | Some n \<Rightarrow> if n = [] then profiles b
                      else case profiles b n of None \<Rightarrow> profiles b | Some p \<Rightarrow> (profiles b)(n \<mapsto> profile_with_rules p r))\<rparr>"

definition config_bundle_for_source ::
    "(path \<Rightarrow> path) \<Rightarrow> config_bundle \<Rightarrow> string list \<Rightarrow> setup_state \<Rightarrow> path \<Rightarrow> media_file \<Rightarrow> ruleset option \<Rightarrow> config_bundle" where
  "config_bundle_for_source resolve b names s src m override =
     (let rs = (case override of Some x \<Rightarrow> Some x | None \<Rightarrow> ruleset_for_source resolve s src (is_4k m));
          r = (case override of Some x \<Rightarrow> su_rules s x | None \<Rightarrow> rules_for_source resolve s src (is_4k m))
      in case (rs, r) of (Some x, Some y) \<Rightarrow> bundle_under_rules b names x y (is_4k m) | _ \<Rightarrow> b)"

subsection \<open>What the operator is shown\<close>

definition default_crf_for_ruleset :: "ruleset \<Rightarrow> int" where
  "default_crf_for_ruleset r = (if prefix ''tv'' (ruleset_name r) then 22 else 21)"

definition default_processing_rules :: "config_bundle \<Rightarrow> string list \<Rightarrow> ruleset \<Rightarrow> processing_rules" where
  "default_processing_rules b names rs =
     (let prof = profile_for_ruleset b names rs; pol = policy b;
          a = merge_audio_rules (audio pol) (Option.bind prof pc_audio);
          s = merge_subtitle_rules (subtitles pol) (Option.bind prof pc_subtitles);
          v = merge_video_rules (video pol) (Option.bind prof pc_video);
          n = non_4k v; f = four_k v; uhd = (rs \<in> {Movies_4k, Tv_4k});
          quality = (if uhd then f_quality_mode f else n_quality_mode n)
      in \<lparr>ru_target_video_codec = (if uhd then f_preferred_codec f else n_preferred_codec n), ru_output_container = output_container v,
          ru_preferred_audio_languages = a_keep_languages a, ru_keep_only_preferred_audio = keep_only_preferred_languages a,
          ru_preserve_surround = preserve_best_surround a, ru_preserve_seven_one = preserve_seven_one a,
          ru_preserve_atmos = preserve_atmos_capable a, ru_preferred_subtitle_languages = s_keep_languages s,
          ru_keep_forced_subtitles = preserve_forced_subtitles (languages pol),
          ru_keep_one_full_preferred_subtitle = keep_one_full_preferred_subtitle s, ru_drop_other_subtitles = drop_other_subtitles s,
          ru_handling_mode =
            (if uhd then (if f_allow_transcode f \<and> f_mode f \<noteq> STRIP_ONLY then H_TRANSCODE else H_PRESERVE_VIDEO)
             else if n_allow_transcode n then H_TRANSCODE else H_STRIP_ONLY),
          ru_quality_preset = video_quality_mode_value quality, ru_target_quality_mode = quality,
          ru_target_crf = (case (if uhd then f_quality_crf f else n_quality_crf n) of
                             None \<Rightarrow> Some (default_crf_for_ruleset rs) | Some c \<Rightarrow> Some c),
          ru_max_allowed_video_reduction_percent = (if uhd then f_max_video_reduction_percent f else n_max_video_reduction_percent n),
          ru_low_bitrate_skip_threshold_1080p_mbps = (if uhd then 3 else n_low_bitrate_skip_threshold_1080p_mbps n),
          ru_low_bitrate_skip_threshold_720p_mbps = (if uhd then 3 / 2 else n_low_bitrate_skip_threshold_720p_mbps n),
          ru_minimum_output_bitrate_1080p_mbps =
            (if uhd then f_minimum_output_bitrate_1080p_mbps f else n_minimum_output_bitrate_1080p_mbps n),
          ru_minimum_output_bitrate_720p_mbps =
            (if uhd then f_minimum_output_bitrate_720p_mbps f else n_minimum_output_bitrate_720p_mbps n),
          ru_output_larger_than_input_review_percent =
            (if uhd then f_output_larger_than_input_review_percent f else n_output_larger_than_input_review_percent n)\<rparr>)"

record ruleset_view =
  rv_profile_name :: "string option"
  rv_current :: processing_rules
  rv_defaults :: processing_rules
  rv_uses_defaults :: bool

definition ruleset_response :: "config_bundle \<Rightarrow> string list \<Rightarrow> ruleset \<Rightarrow> processing_rules option \<Rightarrow> ruleset_view" where
  "ruleset_response b names rs stored =
     (let dflt = default_processing_rules b names rs in
      \<lparr>rv_profile_name = profile_name_for_ruleset b names rs, rv_current = (case stored of None \<Rightarrow> dflt | Some r \<Rightarrow> r),
       rv_defaults = dflt, rv_uses_defaults = (stored = None)\<rparr>)"


subsection \<open>Stored rules come back\<close>

lemma round_even_near: "\<bar>x - of_int n\<bar> < 1 / 2 \<Longrightarrow> round_even x = n"
  using round_even_error [of x] by linarith

lemma fl64_near: "0 < x \<Longrightarrow> \<bar>fl64 x - x\<bar> \<le> x / 2 ^ 53"
proof -
  assume x: "0 < x"
  have u: "ulp x = 2 powi floor_log2 x / 2 ^ 52"
    using power_int_diff [of "2::rat" "floor_log2 x" 52] by (simp add: ulp_def)
  have "\<bar>of_int (round_even (x / ulp x)) - x / ulp x\<bar> * ulp x \<le> 1 / 2 * ulp x"
    using round_even_error [of "x / ulp x"] by (intro mult_right_mono) (simp_all add: less_imp_le)
  moreover have "(of_int (round_even (x / ulp x)) - x / ulp x) * ulp x = fl64 x - x"
    using x ulp_pos [of x] by (simp add: fl64_def fl_pos_def field_simps less_imp_neq [symmetric])
  ultimately have "\<bar>fl64 x - x\<bar> \<le> ulp x / 2" by (metis abs_mult abs_of_pos mult.commute mult.left_neutral times_divide_eq_left ulp_pos)
  also have "\<dots> \<le> x / 2 ^ 53" using floor_log2_bounds(1) [OF x] by (simp add: u)
  finally show ?thesis .
qed

lemma round_hundredths_idem:
  assumes "0 \<le> x" "round_hundredths x < 10 ^ 12"
  shows "round_hundredths (round_hundredths x) = round_hundredths x" "0 \<le> round_hundredths x"
proof -
  define n where "n = round_even (x * 100)"
  have n: "0 \<le> n" "n \<le> 10 ^ 14 + 1"
  proof -
    show "0 \<le> n" using round_even_nonneg [of "x * 100"] assms by (simp add: n_def)
    have "(of_int n :: rat) / 100 < 10 ^ 12"
    proof (rule ccontr)
      assume "\<not> (of_int n :: rat) / 100 < 10 ^ 12"
      then have "fl64 (10 ^ 12) \<le> fl64 (of_int n / 100)" by (intro fl64_mono) simp
      moreover have "fl64 (10 ^ 12) = 10 ^ 12" using fl64_of_int [of "10 ^ 12"] by simp
      ultimately show False using assms(2) by (simp add: round_hundredths_def n_def)
    qed
    then have "(of_int n :: rat) < of_int (10 ^ 14)" by simp
    then have "n < 10 ^ 14" by (simp only: of_int_less_iff)
    then show "n \<le> 10 ^ 14 + 1" by simp
  qed
  show "0 \<le> round_hundredths x" using n by (simp add: round_hundredths_def n_def)
  have "round_even (fl64 (of_int n / 100) * 100) = n"
  proof (cases "n = 0")
    case False
    then have "\<bar>fl64 (of_int n / 100) - of_int n / 100\<bar> \<le> of_int n / 100 / 2 ^ 53" using n by (intro fl64_near) simp
    moreover have "(of_int n :: rat) \<le> of_int (10 ^ 14 + 1)" using n(2) by (simp only: of_int_le_iff)
    ultimately have "\<bar>fl64 (of_int n / 100) - of_int n / 100\<bar> < 1 / 200" by simp
    moreover have "fl64 (of_int n / 100) * 100 - of_int n = 100 * (fl64 (of_int n / 100) - of_int n / 100)" by simp
    ultimately have "\<bar>fl64 (of_int n / 100) * 100 - of_int n\<bar> < 1 / 2" by linarith
    then show ?thesis by (rule round_even_near)
  qed (use round_even_of_int [of 0] in simp)
  then show "round_hundredths (round_hundredths x) = round_hundredths x" by (simp add: round_hundredths_def n_def)
qed

definition mbps_ok :: "rat \<Rightarrow> bool" where
  "mbps_ok x \<longleftrightarrow> 0 \<le> x \<and> round_hundredths x = x"

definition rules_ok :: "processing_rules \<Rightarrow> bool" where
  "rules_ok r \<longleftrightarrow> wf_language_list (ru_preferred_audio_languages r) \<and> wf_language_list (ru_preferred_subtitle_languages r) \<and>
     ru_quality_preset r \<in> {''high_quality'', ''balanced'', ''efficient'', ''custom''} \<and>
     0 \<le> ru_max_allowed_video_reduction_percent r \<and> ru_max_allowed_video_reduction_percent r \<le> 95 \<and>
     (\<forall>n. ru_target_crf r = Some n \<longrightarrow> 0 \<le> n \<and> n \<le> 51) \<and>
     (\<forall>n. ru_output_larger_than_input_review_percent r = Some n \<longrightarrow> 0 \<le> n \<and> n \<le> 100) \<and>
     mbps_ok (ru_low_bitrate_skip_threshold_1080p_mbps r) \<and> mbps_ok (ru_low_bitrate_skip_threshold_720p_mbps r) \<and>
     mbps_ok (ru_minimum_output_bitrate_1080p_mbps r) \<and> mbps_ok (ru_minimum_output_bitrate_720p_mbps r)"

lemma sum_bind_Inr [simp]: "sum_bind x f = Inr y \<longleftrightarrow> (\<exists>z. x = Inr z \<and> f z = Inr y)"
  by (cases x) (simp_all add: sum_bind_def)

lemma sum_bind_run [simp]: "sum_bind (Inr z) f = f z"
  by (simp add: sum_bind_def)

lemma validate_languages:
  "validate_language_list repr v = Inr xs \<Longrightarrow> wf_language_list xs"
  by (auto simp: validate_language_list_def wf_language_list_def Let_def dd.set_dedup dd.distinct_dedup list_ex_iff
      split: json.splits if_splits)

lemma languages_again:
  assumes "wf_language_list xs"
  shows "validate_language_list repr (JList (map JStr xs)) = Inr xs"
proof -
  have "map (\<lambda>x. py_lower (py_strip (py_str repr x))) (map JStr xs) = xs"
    using assms by (auto simp: wf_language_list_def language_code_lower_id intro!: map_idI)
  then show ?thesis using assms
    by (simp add: validate_language_list_def Let_def wf_language_list_def list_ex_iff dd.dedup_fixpoint)
qed

lemma stored_codec [simp]: "by_value video_codec_value [H264, HEVC, AV1, MPEG2, VP9] (py_lower (py_strip (video_codec_value c))) = Some c"
  by (induction c) code_simp+

lemma stored_container [simp]: "by_value output_container_value [MKV, MP4] (py_lower (py_strip (output_container_value t))) = Some t"
  by (induction t) code_simp+

lemma stored_handling [simp]:
  "by_value handling_mode_value [H_TRANSCODE, H_STRIP_ONLY, H_PRESERVE_VIDEO] (py_lower (py_strip (handling_mode_value h))) = Some h"
  by (induction h) code_simp+

lemma stored_quality [simp]:
  "by_value video_quality_mode_value [HIGH_QUALITY, BALANCED, EFFICIENT] (py_lower (py_strip (video_quality_mode_value q))) = Some q"
  by (induction q) code_simp+

lemma enum_field_again: "map_of kvs k = Some (JStr s) \<Longrightarrow> by_value text xs (py_lower (py_strip s)) = Some x \<Longrightarrow> enum_field repr text xs kvs k = Inr x"
  by (simp add: enum_field_def)

lemma preset_again:
  assumes "p \<in> {''high_quality'', ''balanced'', ''efficient'', ''custom''}"
  shows "validate_preset repr (JStr p) q = Inr p"
proof -
  have "list_all (\<lambda>p. p \<noteq> [] \<and> py_lower (py_strip p) = p) [''high_quality'', ''balanced'', ''efficient'', ''custom'']" by code_simp
  then have "p \<noteq> [] \<and> py_lower (py_strip p) = p" using assms by (auto simp: list_all_iff simp del: py_lower_def)
  then show ?thesis using assms by (simp add: validate_preset_def Let_def)
qed

lemma reduction_again: "0 \<le> n \<Longrightarrow> n \<le> 95 \<Longrightarrow> validate_reduction (JInt n) = Inr n"
  by (simp add: validate_reduction_def)

lemma optional_again:
  "(\<forall>n. x = Some n \<longrightarrow> low \<le> n \<and> n \<le> high) \<Longrightarrow> validate_optional_int name low high (json_of_option JInt x) = Inr x"
  by (cases x) (auto simp: validate_optional_int_def json_of_option_def)

lemma mbps_again: "mbps_ok x \<Longrightarrow> validate_mbps name (JFloat x) = Inr x"
  by (simp add: validate_mbps_def mbps_ok_def)

lemma stored_fields [simp]:
  "map_of (stored_rules r) ''target_video_codec'' = Some (JStr (video_codec_value (ru_target_video_codec r)))"
  "map_of (stored_rules r) ''output_container'' = Some (JStr (output_container_value (ru_output_container r)))"
  "map_of (stored_rules r) ''handling_mode'' = Some (JStr (handling_mode_value (ru_handling_mode r)))"
  "map_of (stored_rules r) ''target_quality_mode'' = Some (JStr (video_quality_mode_value (ru_target_quality_mode r)))"
  "jget (stored_rules r) ''quality_preset'' = JStr (ru_quality_preset r)"
  "jget (stored_rules r) ''preferred_audio_languages'' = JList (map JStr (ru_preferred_audio_languages r))"
  "jget (stored_rules r) ''preferred_subtitle_languages'' = JList (map JStr (ru_preferred_subtitle_languages r))"
  "jget (stored_rules r) ''target_crf'' = json_of_option JInt (ru_target_crf r)"
  by (simp_all add: stored_rules_def jget_def)

lemma stored_fields_or [simp]:
  "field_or (stored_rules r) ''max_allowed_video_reduction_percent'' x = JInt (ru_max_allowed_video_reduction_percent r)"
  "field_or (stored_rules r) ''low_bitrate_skip_threshold_1080p_mbps'' x = JFloat (ru_low_bitrate_skip_threshold_1080p_mbps r)"
  "field_or (stored_rules r) ''low_bitrate_skip_threshold_720p_mbps'' x = JFloat (ru_low_bitrate_skip_threshold_720p_mbps r)"
  "field_or (stored_rules r) ''minimum_output_bitrate_1080p_mbps'' x = JFloat (ru_minimum_output_bitrate_1080p_mbps r)"
  "field_or (stored_rules r) ''minimum_output_bitrate_720p_mbps'' x = JFloat (ru_minimum_output_bitrate_720p_mbps r)"
  "field_or (stored_rules r) ''output_larger_than_input_review_percent'' x = json_of_option JInt (ru_output_larger_than_input_review_percent r)"
  by (simp_all add: stored_rules_def field_or_def)

lemma stored_flags [simp]:
  "json_truthy (field_or (stored_rules r) ''keep_only_preferred_audio_languages'' x) = ru_keep_only_preferred_audio r"
  "json_truthy (field_or (stored_rules r) ''preserve_surround'' x) = ru_preserve_surround r"
  "json_truthy (field_or (stored_rules r) ''preserve_seven_one'' x) = ru_preserve_seven_one r"
  "json_truthy (field_or (stored_rules r) ''preserve_atmos'' x) = ru_preserve_atmos r"
  "json_truthy (field_or (stored_rules r) ''keep_forced_subtitles'' x) = ru_keep_forced_subtitles r"
  "json_truthy (field_or (stored_rules r) ''keep_one_full_preferred_subtitle'' x) = ru_keep_one_full_preferred_subtitle r"
  "json_truthy (field_or (stored_rules r) ''drop_other_subtitles'' x) = ru_drop_other_subtitles r"
  by (simp_all add: stored_rules_def field_or_def)

lemma rules_again:
  assumes "rules_ok r"
  shows "validate_processing_rules repr (stored_rules r) = Inr r"
proof -
  note ok = assms [unfolded rules_ok_def]
  show ?thesis
    using ok
    by (simp add: validate_processing_rules_def enum_field_again [OF stored_fields(1)] enum_field_again [OF stored_fields(2)]
        enum_field_again [OF stored_fields(3)] enum_field_again [OF stored_fields(4)] preset_again languages_again reduction_again
        optional_again mbps_again Let_def del: sum_bind_Inr)
qed

definition bounded_thresholds :: "processing_rules \<Rightarrow> bool" where
  "bounded_thresholds r \<longleftrightarrow> list_all (\<lambda>x. x < 10 ^ 12)
     [ru_low_bitrate_skip_threshold_1080p_mbps r, ru_low_bitrate_skip_threshold_720p_mbps r,
      ru_minimum_output_bitrate_1080p_mbps r, ru_minimum_output_bitrate_720p_mbps r]"

lemma mbps_validated:
  assumes "validate_mbps name v = Inr y" "y < 10 ^ 12"
  shows "mbps_ok y"
proof -
  obtain x where x: "0 \<le> x" "y = round_hundredths x"
    using assms(1) by (auto simp: validate_mbps_def not_less split: option.splits if_splits)
  from round_hundredths_idem [OF x(1)] assms(2) show ?thesis unfolding mbps_ok_def x(2) by blast
qed

lemma rules_validated:
  assumes "validate_processing_rules repr kvs = Inr r" "bounded_thresholds r"
  shows "rules_ok r"
proof -
  have p: "validate_preset repr v q = Inr p \<Longrightarrow> p \<in> {''high_quality'', ''balanced'', ''efficient'', ''custom''}" for v q p
    by (auto simp: validate_preset_def Let_def split: if_splits)
  have m: "validate_reduction v = Inr n \<Longrightarrow> 0 \<le> n \<and> n \<le> 95" for v n
    by (auto simp: validate_reduction_def not_less split: option.splits if_splits)
  have x: "validate_optional_int name low high v = Inr y \<Longrightarrow> \<forall>n. y = Some n \<longrightarrow> low \<le> n \<and> n \<le> high" for name low high v y
    by (auto simp: validate_optional_int_def not_less split: option.splits if_splits)
  show ?thesis
    using assms unfolding validate_processing_rules_def sum_bind_Inr Let_def sum.inject
    by (elim exE conjE, hypsubst)
       (unfold rules_ok_def bounded_thresholds_def processing_rules.select_convs list.pred_inject,
        intro conjI validate_languages p m [THEN conjunct1] m [THEN conjunct2] x mbps_validated, (assumption | (elim conjE, assumption))+)
qed

text \<open>What an operator sets is what the next request reads.\<close>

lemma coerce_again: "rules_ok r \<Longrightarrow> coerce_processing_rules repr (JObj (stored_rules r)) = Inr (Some r)"
  by (simp add: coerce_processing_rules_def rules_again)

definition setup_ok :: "setup_state \<Rightarrow> bool" where
  "setup_ok s \<longleftrightarrow> (\<forall>t. su_movies_root s = Some t \<longrightarrow> t \<noteq> [] \<and> py_strip t = t) \<and> (\<forall>t. su_tv_root s = Some t \<longrightarrow> t \<noteq> [] \<and> py_strip t = t) \<and>
     su_preferred_backend s \<in> set supported_backend_preferences \<and> (\<forall>x r. su_rules s x = Some r \<longrightarrow> rules_ok r)"

lemma path_again: "(\<forall>t. x = Some t \<longrightarrow> t \<noteq> [] \<and> py_strip t = t) \<Longrightarrow> clean_optional_path repr (json_of_option JStr x) = x"
  by (cases x) (simp_all add: clean_optional_path_def json_of_option_def Let_def)

lemma coerced: "coerce_processing_rules repr (json_of_option (\<lambda>x. JObj (stored_rules x)) y) = Inr y" if "\<forall>r. y = Some r \<longrightarrow> rules_ok r"
  using that by (cases y) (simp_all add: json_of_option_def coerce_processing_rules_def rules_again)

lemma setup_again:
  assumes "setup_ok s"
  shows "\<exists>kvs. json_of_setup s = JObj kvs \<and> setup_of_json repr kvs = Inr s"
proof -
  have b: "coerce_backend_preference (backend_text repr (JStr (su_preferred_backend s))) d = su_preferred_backend s" for d
  proof -
    have "list_all (\<lambda>x. x \<noteq> []) supported_backend_preferences" by code_simp
    then have "su_preferred_backend s \<noteq> []" using assms by (auto simp: setup_ok_def list_all_iff)
    then show ?thesis using assms by (simp add: setup_ok_def backend_text_def coerce_backend_preference_def Let_def supported_plain del: or_str.simps)
  qed
  have r: "(\<lambda>r. case r of Movies \<Rightarrow> su_rules s Movies | Movies_4k \<Rightarrow> su_rules s Movies_4k | Tv \<Rightarrow> su_rules s Tv | Tv_4k \<Rightarrow> su_rules s Tv_4k) = su_rules s"
    by (rule ext) (simp split: ruleset.split)
  show ?thesis
    using assms unfolding json_of_setup_def setup_of_json_def Let_def
    by (simp add: jget_def field_or_def b path_again coerced setup_ok_def r)
qed

lemma coerced_supported: "coerce_backend_preference v d \<in> set supported_backend_preferences"
  using canonical_key_supported [OF normalise_range] by (simp add: coerce_backend_preference_def Let_def)

lemma cleaned_path: "clean_optional_path repr v = Some t \<Longrightarrow> t \<noteq> [] \<and> py_strip t = t"
  by (auto simp: clean_optional_path_def Let_def split: if_splits)

lemma empty_setup_ok: "setup_ok empty_setup"
proof -
  have "default_backend_preference \<in> set supported_backend_preferences" by code_simp
  then show ?thesis by (simp add: setup_ok_def empty_setup_def)
qed

lemma loaded_roots:
  assumes "load_state_payload repr k = (Inr s, k')"
  shows "k' = k \<and> setup_ok (s\<lparr>su_rules := (\<lambda>_. None)\<rparr>)"
proof (cases "sd_file k")
  case Absent
  then show ?thesis using assms empty_setup_ok by (simp add: load_state_payload_def setup_ok_def)
next
  case (Stored v)
  then obtain raw where "setup_of_json repr raw = Inr s" and k: "k' = k"
    using assms by (auto simp: load_state_payload_def recover_corrupt_state_def split: json.splits if_splits prod.splits)
  from this(1) have "(\<exists>v. su_movies_root s = clean_optional_path repr v) \<and> (\<exists>v. su_tv_root s = clean_optional_path repr v) \<and>
      su_preferred_backend s \<in> set supported_backend_preferences"
    using coerced_supported empty_setup_ok
    by (auto simp: setup_of_json_def Let_def setup_ok_def split: json.splits)
  then obtain v w where vw: "su_movies_root s = clean_optional_path repr v" "su_tv_root s = clean_optional_path repr w"
    "su_preferred_backend s \<in> set supported_backend_preferences" by blast
  then show ?thesis using k cleaned_path [of repr v] cleaned_path [of repr w] by (simp add: setup_ok_def)
qed (use assms in \<open>auto simp: load_state_payload_def recover_corrupt_state_def split: if_splits prod.splits\<close>)

lemma written_setup:
  assumes "write_setup s k = (ok, k')" "setup_ok s"
  shows "sd_backups k' = sd_backups k \<and> (k' = k \<and> \<not> ok \<or> load_state_payload repr k' = (Inr s, k'))"
  using assms setup_again [OF assms(2), of repr] by (auto simp: write_setup_def load_state_payload_def split: if_splits)

text \<open>C22: A request that sets the rules answers the state that the next one reads, and only rules within the limits get there.\<close>

theorem updated_rules_are_loaded:
  assumes "update_processing_rules repr given_rules k = (Inr s, k')" "\<forall>x r. su_rules s x = Some r \<longrightarrow> bounded_thresholds r"
  shows "load_state_payload repr k' = (Inr s, k') \<and> sd_backups k' = sd_backups k \<and>
    (\<forall>x r. su_rules s x = Some r \<longrightarrow> rules_ok r) \<and> (\<forall>x. su_rules s x = None \<longleftrightarrow> given_rules x = None)"
proof -
  obtain s0 k1 a b c e where load: "load_state_payload repr k = (Inr s0, k1)"
    and v: "validate_given repr (given_rules Movies) = Inr a" "validate_given repr (given_rules Movies_4k) = Inr b"
      "validate_given repr (given_rules Tv) = Inr c" "validate_given repr (given_rules Tv_4k) = Inr e"
    and s: "s = s0\<lparr>su_rules := (\<lambda>r. case r of Movies \<Rightarrow> a | Movies_4k \<Rightarrow> b | Tv \<Rightarrow> c | Tv_4k \<Rightarrow> e)\<rparr>"
    and w: "write_setup s k1 = (True, k')"
    using assms(1) by (auto simp: update_processing_rules_def stored_answer_def prod_eq_iff split: prod.splits sum.splits option.splits if_splits)
  have g: "(y = None \<longleftrightarrow> x = None) \<and> (\<forall>r. y = Some r \<longrightarrow> bounded_thresholds r \<longrightarrow> rules_ok r)" if "validate_given repr x = Inr y" for x y
    using that rules_validated by (auto simp: validate_given_def map_sum_id_Inr split: option.splits)
  have all: "(su_rules s x = None \<longleftrightarrow> given_rules x = None) \<and> (\<forall>r. su_rules s x = Some r \<longrightarrow> rules_ok r)" for x
  proof -
    obtain y where y: "validate_given repr (given_rules x) = Inr y" "su_rules s x = y" using v by (cases x) (auto simp: s)
    then show ?thesis using g [OF y(1)] assms(2) by blast
  qed
  have "setup_ok s" using loaded_roots [OF load] all by (simp add: setup_ok_def s)
  from written_setup [OF w this, of repr] all loaded_roots [OF load] show ?thesis by auto
qed

text \<open>C34: Reading the state never loses it: when the file does not hold one, it is kept as a backup before the defaults replace
  it, and a request that is answered leaves everything as it was.\<close>

theorem corrupt_state_is_kept:
  assumes "load_state_payload repr k = (res, k')"
  shows "set (sd_backups k) \<subseteq> set (sd_backups k') \<and> (\<not> isl res \<longrightarrow> k' = k) \<and>
    (sd_file k' = sd_file k \<or> sd_file k \<in> set (sd_backups k') \<and> load_state_payload repr k' = (Inr empty_setup, k'))"
proof -
  have r: "set (sd_backups k) \<subseteq> set (sd_backups k') \<and> isl res \<and>
      (sd_file k' = sd_file k \<or> sd_file k \<in> set (sd_backups k') \<and> load_state_payload repr k' = (Inr empty_setup, k'))"
    if "recover_corrupt_state k = (res, k')"
  proof (cases "sd_copy_fails k")
    case False
    let ?k = "k\<lparr>sd_backups := sd_backups k @ [sd_file k]\<rparr>"
    obtain ok k2 where w: "write_setup empty_setup ?k = (ok, k2)" by force
    then have "k' = k2" "isl res" using that False by (auto simp: recover_corrupt_state_def)
    with written_setup [OF w empty_setup_ok, of repr] show ?thesis by auto
  qed (use that in \<open>auto simp: recover_corrupt_state_def\<close>)
  have "recover_corrupt_state k = (res, k') \<or> k' = k"
    using assms by (auto simp: load_state_payload_def split: state_file.splits json.splits)
  then show ?thesis using r by blast
qed

subsection \<open>Concrete states\<close>

definition sample_rules :: "(string \<times> json) list" where
  "sample_rules =
     [(''target_video_codec'', JStr ''HEVC''), (''output_container'', JStr ''mkv''), (''handling_mode'', JStr ''strip_only''),
      (''target_quality_mode'', JStr ''balanced''), (''preferred_audio_languages'', JList [JStr ''ENG'', JStr ''eng'']),
      (''preferred_subtitle_languages'', JList [JStr ''eng'']), (''target_crf'', JInt 20),
      (''low_bitrate_skip_threshold_1080p_mbps'', JInt 0), (''low_bitrate_skip_threshold_720p_mbps'', JInt 0),
      (''minimum_output_bitrate_1080p_mbps'', JInt 0), (''minimum_output_bitrate_720p_mbps'', JInt 0)]"

definition sample_disk :: "state_file \<Rightarrow> setup_disk" where
  "sample_disk f = \<lparr>sd_file = f, sd_backups = [], sd_copy_fails = False, sd_write = Written\<rparr>"

definition given_movies :: "ruleset \<Rightarrow> (string \<times> json) list option" where
  "given_movies x = (if x = Movies then Some sample_rules else None)"

lemma updated_rules_are_loaded_witness:
  "\<exists>s k. update_processing_rules plain_repr given_movies (sample_disk Absent) = (Inr s, k) \<and>
     load_state_payload plain_repr k = (Inr s, k) \<and> su_rules s Movies \<noteq> None \<and> su_rules s Tv = None"
proof -
  let ?u = "update_processing_rules plain_repr given_movies (sample_disk Absent)"
  have u: "\<not> isl (fst ?u)" by code_simp
  then obtain s k where run: "?u = (Inr s, k)" by (cases ?u, cases "fst ?u") auto
  have "(case ?u of (Inr s, _) \<Rightarrow> list_all (\<lambda>x. case su_rules s x of None \<Rightarrow> True | Some r \<Rightarrow> bounded_thresholds r) [Movies, Movies_4k, Tv, Tv_4k] | _ \<Rightarrow> False)"
    by code_simp
  then have "case su_rules s x of None \<Rightarrow> True | Some r \<Rightarrow> bounded_thresholds r" for x unfolding run by (cases x) simp_all
  note bounded = this
  then have b: "\<forall>x r. su_rules s x = Some r \<longrightarrow> bounded_thresholds r" using bounded by (metis option.simps(5))
  have g: "given_movies Movies \<noteq> None" "given_movies Tv = None" by (simp_all add: given_movies_def)
  note loaded = updated_rules_are_loaded [OF run b]
  have "su_rules s Movies \<noteq> None" using loaded g(1) by metis
  moreover have "su_rules s Tv = None" using loaded g(2) by metis
  ultimately show ?thesis using run loaded by (intro exI [of _ s] exI [of _ k] conjI) simp_all
qed

lemma corrupt_state_is_kept_witness:
  "load_state_payload plain_repr (snd (load_state_payload plain_repr (sample_disk (Not_Json ''{''))))
     = (Inr empty_setup, snd (load_state_payload plain_repr (sample_disk (Not_Json ''{''))))"
proof -
  let ?r = "load_state_payload plain_repr (sample_disk (Not_Json ''{''))"
  have r: "?r = (fst ?r, snd ?r)" by simp
  have "sd_file (snd ?r) \<noteq> sd_file (sample_disk (Not_Json ''{''))"
    by (simp add: sample_disk_def load_state_payload_def recover_corrupt_state_def write_setup_def Let_def)
  then show ?thesis using corrupt_state_is_kept [OF r] by blast
qed


subsection \<open>Rules without transcoding\<close>

text \<open>A profile that permits transcoding by itself, for 4K files or for the others.\<close>

definition profile_permits :: "bool \<Rightarrow> profile_config \<Rightarrow> bool" where
  "profile_permits uhd p \<longleftrightarrow>
     (if uhd then Option.bind (Option.bind (pc_video p) pv_four_k) pf_allow_transcode = Some True
      else Option.bind (Option.bind (pc_video p) pv_non_4k) pn_allow_transcode = Some True)"

lemma over_cases: "over a x = (case x of None \<Rightarrow> a | Some y \<Rightarrow> y)"
  by (cases x) (simp_all add: over_def)

lemma merged_permission:
  "f_allow_transcode (four_k (merge_video_rules v (Option.bind prof pc_video))) \<longleftrightarrow>
     (case Option.bind (Option.bind (Option.bind prof pc_video) pv_four_k) pf_allow_transcode of None \<Rightarrow> f_allow_transcode (four_k v) | Some b \<Rightarrow> b)"
  "n_allow_transcode (non_4k (merge_video_rules v (Option.bind prof pc_video))) \<longleftrightarrow>
     (case Option.bind (Option.bind (Option.bind prof pc_video) pv_non_4k) pn_allow_transcode of None \<Rightarrow> n_allow_transcode (non_4k v) | Some b \<Rightarrow> b)"
  by (auto simp: merge_video_rules_def merge_four_k_def merge_non_four_k_def over_cases split: option.split bind_splits)

lemma rules_permission:
  assumes "ru_handling_mode r \<noteq> H_TRANSCODE"
  shows "uhd \<Longrightarrow> \<not> f_allow_transcode (four_k (video (policy_under_rules r uhd p)))"
    and "\<not> uhd \<Longrightarrow> \<not> n_allow_transcode (non_4k (video (policy_under_rules r uhd p)))"
    and "\<not> profile_permits uhd pr \<Longrightarrow> \<not> profile_permits uhd (profile_with_rules pr r)"
  using assms
  by (auto simp: policy_under_rules_def four_k_under_rules_def non_4k_under_rules_def Let_def profile_permits_def
      profile_with_rules_def profile_four_k_under_rules_def profile_non_4k_under_rules_def split: option.splits if_splits bind_splits)

text \<open>C7: A file planned under rules that do not transcode is never given a transcoding plan, unless the configuration has a
  profile that permits it by itself.\<close>

theorem rules_forbid_transcoding:
  assumes "(case override of Some x \<Rightarrow> su_rules s x | None \<Rightarrow> rules_for_source resolve s src (is_4k m)) = Some r"
    and "ru_handling_mode r \<noteq> H_TRANSCODE" "\<forall>p\<in>ran (profiles b). \<not> profile_permits (is_4k m) p"
    and "build_processing_plan m (config_bundle_for_source resolve b names s src m override) (Some src) = Inr p"
  shows "action p \<noteq> TRANSCODE \<and> (is_4k m \<longrightarrow> vp_handling (plan_video p) = PRESERVE_VIDEO)"
proof -
  define b' where "b' = config_bundle_for_source resolve b names s src m override"
  obtain rs where b': "b' = bundle_under_rules b names rs r (is_4k m)"
  proof (cases override)
    case None
    then obtain rs where "ruleset_for_source resolve s src (is_4k m) = Some rs"
      using assms(1) by (auto simp: rules_for_source_def split: bind_splits)
    then show ?thesis using that None assms(1) by (simp add: b'_def config_bundle_for_source_def)
  next
    case (Some rs)
    then show ?thesis using that assms(1) by (simp add: b'_def config_bundle_for_source_def)
  qed
  have pol: "policy b' = policy_under_rules r (is_4k m) (policy b)" by (simp add: b' bundle_under_rules_def)
  have silent: "\<not> profile_permits (is_4k m) pr" if "pr \<in> ran (profiles b')" for pr
  proof -
    have "pr \<in> ran (profiles b) \<or> (\<exists>q\<in>ran (profiles b). pr = profile_with_rules q r)"
      using that by (auto simp: b' bundle_under_rules_def ran_def split: option.splits if_splits)
    then show ?thesis using assms(2,3) rules_permission(3) by blast
  qed
  obtain rp where q: "resolve_planning_policy m b' (Some src) = Inr rp"
    and p: "p = build_resolved_plan m (languages (policy b')) rp"
    using assms(4) by (auto simp: build_processing_plan_Inr b'_def)
  obtain prof where prof: "\<And>pr. prof = Some pr \<Longrightarrow> pr \<in> ran (profiles b')"
    and rp: "rp_video_rules rp = merge_video_rules (video (policy b')) (Option.bind prof pc_video)"
    using resolved_profile [OF q] by blast
  have none: "if is_4k m then \<not> f_allow_transcode (four_k (rp_video_rules rp)) else \<not> n_allow_transcode (non_4k (rp_video_rules rp))"
    unfolding rp merged_permission pol
    using rules_permission(1,2) [OF assms(2), of "is_4k m" "policy b"] silent prof
    by (cases prof) (auto simp: profile_permits_def split: option.splits)
  then have "action p \<noteq> TRANSCODE"
    unfolding p resolved_plan_fields(1,4) Let_def determine_action_cases(1) by (auto split: if_splits)
  moreover have "vp_handling (plan_video p) = PRESERVE_VIDEO" if "is_4k m"
    using none that by (simp add: p resolved_plan_fields(4) video_handling_transcode video_transcode)
  ultimately show ?thesis by blast
qed

text \<open>The permission of a profile survives: its library is set to strip only, and the film is transcoded all the same.\<close>

definition permissive_profile :: profile_video_rules where
  "permissive_profile = \<lparr>pv_output_container = None, pv_non_4k = Some ((profile_non_4k_under_rules (default_processing_rules (sample_bundle None) [] Movies) None)
      \<lparr>pn_allow_transcode := Some True, pn_decision_order := Some [D_SKIP, D_REMUX, D_TRANSCODE]\<rparr>), pv_four_k = None\<rparr>"

definition movies_bundle :: "profile_video_rules option \<Rightarrow> config_bundle" where
  "movies_bundle v = \<lparr>policy = sample_policy\<lparr>path_overrides := [\<lparr>path_prefix = ''/media/movies'', po_profile = ''movies''\<rparr>]\<rparr>,
     profiles = [''movies'' \<mapsto> sample_profile v]\<rparr>"

definition strip_only_rules :: processing_rules where
  "strip_only_rules = (default_processing_rules (movies_bundle None) [''movies''] Movies)\<lparr>ru_handling_mode := H_STRIP_ONLY\<rparr>"

definition strip_only_setup :: setup_state where
  "strip_only_setup = empty_setup\<lparr>su_movies_root := Some ''/media/movies'', su_rules := (\<lambda>_. Some strip_only_rules)\<rparr>"

definition film :: media_file where "film = sample_file ''/media/movies'' ''h264'' False [sample_audio 1 ''eng'' 6 False]"

definition film_plan :: "profile_video_rules option \<Rightarrow> ruleset option \<Rightarrow> lookup_error + processing_plan" where
  "film_plan v override = build_processing_plan film
     (config_bundle_for_source id (movies_bundle v) [''movies''] strip_only_setup (file_path film) film override) (Some (file_path film))"

theorem profile_transcodes_despite_strip_only:
  "rules_for_source id strip_only_setup (file_path film) (is_4k film) = Some strip_only_rules \<and>
   ru_handling_mode strip_only_rules = H_STRIP_ONLY \<and> map_sum id action (film_plan (Some permissive_profile) None) = Inr TRANSCODE"
  by (intro conjI) code_simp+

text \<open>Without such a profile the film is not stripped either: its codec is not the one of the rules, so it waits for a review.\<close>

lemma strip_only_library_waits_for_review: "map_sum id action (film_plan None None) = Inr MANUAL_REVIEW"
  by code_simp

lemma rules_forbid_transcoding_witness: "\<exists>p. film_plan None None = Inr p \<and> action p \<noteq> TRANSCODE"
proof -
  have r: "(case None of Some x \<Rightarrow> su_rules strip_only_setup x
      | None \<Rightarrow> rules_for_source id strip_only_setup (file_path film) (is_4k film)) = Some strip_only_rules"
    unfolding option.case by code_simp
  have h: "ru_handling_mode strip_only_rules \<noteq> H_TRANSCODE" by code_simp
  have q: "\<forall>p\<in>ran (profiles (movies_bundle None)). \<not> profile_permits (is_4k film) p"
    by (simp add: movies_bundle_def sample_profile_def profile_permits_def)
  have "\<not> isl (film_plan None None)" by code_simp
  then obtain p where p: "film_plan None None = Inr p" by (cases "film_plan None None") auto
  from rules_forbid_transcoding [OF r h q p [unfolded film_plan_def]] p show ?thesis by blast
qed


end
