(* ===== verification/Plan_Service.thy ===== *)
theory Plan_Service
  imports Rulesets Jobs_Service
begin

text \<open>
  From a path to a stored plan (\<open>src/apps/api/app/services/files.py\<close>, \<open>plan_file\<close> and \<open>dry_run_file\<close> of
  \<open>services/plans.py\<close>, \<open>add_probe_snapshot\<close> of \<open>src/packages/db/encodr_db/repositories/snapshots.py\<close>). What the disk
  says of a path and what the probe answers are parameters; the stored probe is the media file itself, so that reading
  it back gives the same.
\<close>

subsection \<open>Files\<close>

record plan_env =
  pl_service :: service_env
  pl_expand :: "path \<Rightarrow> path"
  pl_exists :: "path \<Rightarrow> bool"
  pl_is_file :: "path \<Rightarrow> bool"
  pl_resolve :: "path \<Rightarrow> path"
  pl_modified :: "path \<Rightarrow> instant option"
  pl_probe :: "path \<Rightarrow> probe_answer"
  pl_scratch :: "path option"
  pl_new_file :: "db \<Rightarrow> row_id"
  pl_bundle :: config_bundle
  pl_names :: "string list"
  pl_setup :: "rules_error + setup_state"

definition resolve_source_file :: "plan_env \<Rightarrow> string \<Rightarrow> api_error + path" where
  "resolve_source_file v t =
     (let raw = pl_expand v (path_of t) in
      if \<not> pl_exists v raw then Inl (ApiNotFound ''The source path does not exist.'')
      else if \<not> pl_is_file v raw then Inl (ApiValidation ''The source path must point to a file.'')
      else case encodr_exclusion_reason (sv_resolve (pl_service v)) (pl_resolve v raw) (pl_scratch v) of
        Some e \<Rightarrow> Inl (ApiValidation (exclusion_text e))
      | None \<Rightarrow> Inr (pl_resolve v raw))"

definition probe_media_file :: "plan_env \<Rightarrow> path \<Rightarrow> api_error + media_file" where
  "probe_media_file v p =
     (case pl_probe v p of
        Probed m \<Rightarrow> Inr m
      | Probe_Failed e \<Rightarrow> Inl (if pe_kind e = ''probe_binary_missing'' then ApiDependency (pe_message e) else ApiValidation (pe_message e))
      | Probe_Crashed _ \<Rightarrow> Inl Crashed)"

definition probe_source_file :: "plan_env \<Rightarrow> string \<Rightarrow> api_error + media_file" where
  "probe_source_file v t = (case resolve_source_file v t of Inl e \<Rightarrow> Inl e | Inr p \<Rightarrow> probe_media_file v p)"

definition observe_probe :: "media_file \<Rightarrow> tracked_file \<Rightarrow> tracked_file" where
  "observe_probe m f = f\<lparr>tf_lifecycle_state := FL_PROBED, tf_last_observed_size := size_bytes (container m), tf_is_4k := is_4k m\<rparr>"

definition change_file :: "instant \<Rightarrow> row_id \<Rightarrow> (tracked_file \<Rightarrow> tracked_file) \<Rightarrow> db \<Rightarrow> db_error + db" where
  "change_file now i g d = (case find_file d i of None \<Rightarrow> Inl MissingRow | Some f \<Rightarrow> flush (put_file now (g f) d))"

definition add_probe_snapshot :: "plan_env \<Rightarrow> row_id \<Rightarrow> media_file \<Rightarrow> unit service" where
  "add_probe_snapshot v i m = writes (change_file (sv_now (pl_service v)) i (observe_probe m))"

definition observed_row :: "path \<Rightarrow> db \<Rightarrow> api_error + row_id" where
  "observed_row p d = (case get_by_path d p of None \<Rightarrow> Inl (Unhandled MissingRow) | Some f \<Rightarrow> Inr (tf_id f))"

definition probe_file :: "plan_env \<Rightarrow> string \<Rightarrow> (path \<times> row_id \<times> media_file) service" where
  "probe_file v t =
     andthen (reads (\<lambda>_. resolve_source_file v t)) (\<lambda>p.
     andthen (reads (\<lambda>_. probe_media_file v p)) (\<lambda>m.
     andthen (reads (\<lambda>_. case pl_modified v p of None \<Rightarrow> Inl Crashed | Some x \<Rightarrow> Inr x)) (\<lambda>modified.
     andthen (writes (\<lambda>d. upsert_by_path (pl_new_file v d) (sv_now (pl_service v)) p (Some m) None (Some modified) None d)) (\<lambda>_.
     andthen (reads (observed_row p)) (\<lambda>i.
     andthen (add_probe_snapshot v i m) (\<lambda>_. returns (p, i, m)))))))"

subsection \<open>Plans\<close>

definition plan_media :: "plan_env \<Rightarrow> path \<Rightarrow> path \<Rightarrow> media_file \<Rightarrow> ruleset option \<Rightarrow> api_error + processing_plan" where
  "plan_media v rules_path src m override =
     (case pl_setup v of
        Inl (Rejected e) \<Rightarrow> Inl (ApiValidation e)
      | Inl Unforeseen \<Rightarrow> Inl Crashed
      | Inr s \<Rightarrow>
          (case build_processing_plan m
                  (config_bundle_for_source (pl_resolve v) (pl_bundle v) (pl_names v) s rules_path m override) (Some src) of
             Inl _ \<Rightarrow> Inl Crashed
           | Inr p \<Rightarrow> Inr p))"

definition plan_file :: "plan_env \<Rightarrow> string \<Rightarrow> ruleset option \<Rightarrow> (row_id \<times> plan_snapshot) service" where
  "plan_file v t override =
     andthen (probe_file v t) (\<lambda>(q, i, m).
     andthen (reads (\<lambda>d. case find_file d i of None \<Rightarrow> Inl (Unhandled MissingRow) | Some f \<Rightarrow> Inr f)) (\<lambda>f.
     let src = path_of (tf_source_path f) in
     andthen (reads (\<lambda>_. plan_media v src src m override)) (\<lambda>p.
     andthen (add_plan_snapshot (pl_service v) f p) (\<lambda>s.
     andthen (writes (change_file (sv_now (pl_service v)) i (update_file_state_from_plan_result p))) (\<lambda>_. returns (i, s))))))"

text \<open>A dry run stores nothing; it resolves the path it was given, but expands no home directory for the plan.\<close>

definition dry_run_file :: "plan_env \<Rightarrow> string \<Rightarrow> ruleset option \<Rightarrow> api_error + media_file \<times> processing_plan" where
  "dry_run_file v t override =
     (case probe_source_file v t of
        Inl e \<Rightarrow> Inl e
      | Inr m \<Rightarrow> map_sum id (Pair m) (plan_media v (path_of t) (pl_resolve v (path_of t)) m override))"

subsection \<open>A dry run shows the plan\<close>

lemma found_after_put:
  assumes "find_file d i = Some f" "tf_id g = i"
  shows "find_file (put_file now g d) i = Some (if f = g then g else g\<lparr>tf_updated_at := now\<rparr>)"
proof -
  have "find (\<lambda>r. tf_id r = i) (map (\<lambda>r. if tf_id r = tf_id g \<and> r \<noteq> g then g\<lparr>tf_updated_at := now\<rparr> else r) xs)
      = Some (if f = g then g else g\<lparr>tf_updated_at := now\<rparr>)"
    if "find (\<lambda>r. tf_id r = i) xs = Some f" for xs
    using that
  proof (induction xs)
    case (Cons x xs)
    then show ?case using assms(2) by (cases "tf_id x = i"; cases "x = g") simp_all
  qed simp
  then show ?thesis using assms(1) by (simp add: find_file_def put_file_def)
qed

lemma change_file_Inr:
  assumes "change_file now i g d = Inr d'" "\<And>f. tf_id (g f) = tf_id f"
  obtains f h where "find_file d i = Some f" "find_file d' i = Some h" "h = g f \<or> h = (g f)\<lparr>tf_updated_at := now\<rparr>" "db_jobs d' = db_jobs d"
    "db_plans d' = db_plans d"
proof -
  obtain f where f: "find_file d i = Some f" "flush (put_file now (g f) d) = Inr d'"
    using assms(1) by (auto simp: change_file_def split: option.splits)
  have "d' = put_file now (g f) d" using f(2) by (auto simp: flush_def split: if_splits)
  moreover have "tf_id (g f) = i" using assms(2) find_file_Some [OF f(1)] by simp
  ultimately show ?thesis using that f(1) found_after_put [OF f(1), of "g f" now] by (auto simp: put_file_def)
qed

lemma upsert_tables:
  assumes "upsert_by_path i now p m n t x d = Inr d'"
  shows "db_jobs d' = db_jobs d \<and> db_plans d' = db_plans d"
  using assms by (auto simp: upsert_by_path_def insert_path_if_missing_def put_file_def Let_def split: option.splits if_splits)

lemma resolve_source_Inr:
  "resolve_source_file v t = Inr p \<longleftrightarrow> p = pl_resolve v (pl_expand v (path_of t)) \<and> pl_exists v (pl_expand v (path_of t)) \<and>
     pl_is_file v (pl_expand v (path_of t)) \<and> encodr_exclusion_reason (sv_resolve (pl_service v)) p (pl_scratch v) = None"
  by (auto simp: resolve_source_file_def Let_def split: option.splits)

lemma found_by_path:
  assumes "files_keyed d" "get_by_path d p = Some f"
  shows "find_file d (tf_id f) = Some f \<and> tf_source_path f = as_posix p"
proof -
  have "f \<in> set (db_files d)" "tf_source_path f = as_posix p" using assms(2) by (auto simp: get_by_path_def find_Some_iff)
  then show ?thesis using find_by_key [of tf_id "db_files d" f] assms(1) by (simp add: files_keyed_def find_file_def)
qed

text \<open>C10: Planning a file stores, under the resolved path of the file and never for a file that Encodr made itself, the plan that a
  dry run of the same path shows; the job table is not touched.\<close>

theorem dry_run_shows_stored_plan:
  assumes "files_keyed d" "pl_new_file v d \<notin> tf_id ` set (db_files d)"
    and "plan_file v t override d = (Inr (i, s), d')"
    and "pl_expand v (path_of t) = path_of t" "\<And>p. wf_path (pl_resolve v p)" "\<And>p. pl_resolve v (pl_resolve v p) = pl_resolve v p"
  shows "\<exists>m. dry_run_file v t override = Inr (m, sn_payload s) \<and>
    (\<exists>f. find_file d' i = Some f \<and> path_of (tf_source_path f) = pl_resolve v (path_of t) \<and> tf_is_4k f = is_4k m \<and>
       tf_lifecycle_state f = lifecycle_state_for_plan (sn_payload s)) \<and>
    encodr_exclusion_reason (sv_resolve (pl_service v)) (pl_resolve v (path_of t)) (pl_scratch v) = None \<and>
    db_plans d' = db_plans d @ [s] \<and> sn_tracked_file_id s = i \<and> db_jobs d' = db_jobs d"
proof -
  let ?q = "pl_resolve v (path_of t)" and ?now = "sv_now (pl_service v)"
  obtain m x d1 d2 f p where q: "resolve_source_file v t = Inr ?q" "probe_media_file v ?q = Inr m" "pl_modified v ?q = Some x"
    and up: "upsert_by_path (pl_new_file v d) ?now ?q (Some m) None (Some x) None d = Inr d1"
    and row: "observed_row ?q d1 = Inr i" and pr: "change_file ?now i (observe_probe m) d1 = Inr d2"
    and f: "find_file d2 i = Some f" and pm: "plan_media v (path_of (tf_source_path f)) (path_of (tf_source_path f)) m override = Inr p"
    and st: "fst (add_plan_snapshot (pl_service v) f p d2) = Inr s"
      "change_file ?now i (update_file_state_from_plan_result p) (snd (add_plan_snapshot (pl_service v) f p d2)) = Inr d'"
    using assms(3)
    by (auto simp: plan_file_def probe_file_def add_probe_snapshot_def service_success Let_def resolve_source_Inr assms(4)
        split: option.splits sum.splits)
  obtain g where g: "get_by_path d1 ?q = Some g" "tf_id g = i" using row by (auto simp: observed_row_def split: option.splits)
  have "files_keyed d1" using upsert_keeps_one_row_per_path [OF assms(1,2), of ?now ?q "Some m" None "Some x" None] up by auto
  from found_by_path [OF this g(1)] g(2) have g1: "find_file d1 i = Some g" "tf_source_path g = as_posix ?q" by auto
  from pr have "tf_source_path f = as_posix ?q \<and> tf_is_4k f = is_4k m \<and> db_jobs d2 = db_jobs d1 \<and> db_plans d2 = db_plans d1"
    by (rule change_file_Inr) (use f g1 in \<open>auto simp: observe_probe_def\<close>)
  then have f2: "path_of (tf_source_path f) = ?q" "tf_is_4k f = is_4k m" "db_jobs d2 = db_jobs d" "db_plans d2 = db_plans d"
    using path_of_as_posix [OF assms(5)] upsert_tables [OF up] by simp_all
  let ?d3 = "snd (add_plan_snapshot (pl_service v) f p d2)"
  have s: "sn_payload s = p" "sn_tracked_file_id s = tf_id f" "db_plans ?d3 = db_plans d2 @ [s]" "db_jobs ?d3 = db_jobs d2"
    "find_file ?d3 i = find_file d2 i"
    using st(1) by (auto simp: add_plan_snapshot_def Let_def find_file_def)
  from st(2) obtain h where h: "find_file d' i = Some h" "path_of (tf_source_path h) = ?q" "tf_is_4k h = is_4k m"
      "tf_lifecycle_state h = lifecycle_state_for_plan p" "db_jobs d' = db_jobs d" "db_plans d' = db_plans d @ [s]"
    by (rule change_file_Inr) (use s f f2 in \<open>auto simp: update_file_state_from_plan_result_def\<close>)
  have same: "config_bundle_for_source (pl_resolve v) b n u ?q m override = config_bundle_for_source (pl_resolve v) b n u (path_of t) m override" for b n u
    by (cases override) (simp_all add: config_bundle_for_source_def ruleset_for_source_def rules_for_source_def assms(6))
  have "plan_media v (path_of t) ?q m override = Inr p"
    using pm unfolding plan_media_def f2(1) same .
  then have "dry_run_file v t override = Inr (m, sn_payload s)"
    using q(1,2) by (simp add: dry_run_file_def probe_source_file_def s(1))
  then show ?thesis using h q(1) s(1,2) find_file_Some [OF f] by (auto simp: resolve_source_Inr assms(4))
qed

subsection \<open>A concrete file\<close>

definition sample_plan_env :: plan_env where
  "sample_plan_env =
     \<lparr>pl_service = sample_env, pl_expand = id, pl_exists = (\<lambda>_. True), pl_is_file = (\<lambda>_. True), pl_resolve = (\<lambda>p. path_of (as_posix p)),
      pl_modified = (\<lambda>_. Some 100), pl_probe = (\<lambda>_. Probed sample_old_codec), pl_scratch = None, pl_new_file = (\<lambda>_. 50),
      pl_bundle = sample_bundle None, pl_names = [], pl_setup = Inr empty_setup\<rparr>"

lemma dry_run_shows_stored_plan_witness:
  "\<exists>i s d m. plan_file sample_plan_env ''/media/tv/a.mkv'' None (sample_db []) = (Inr (i, s), d) \<and>
     dry_run_file sample_plan_env ''/media/tv/a.mkv'' None = Inr (m, sn_payload s) \<and> db_plans d = [sample_snapshot, s]"
proof -
  have k: "files_keyed (sample_db [])" by (rule sample_files_keyed)
  have n: "pl_new_file sample_plan_env (sample_db []) \<notin> tf_id ` set (db_files (sample_db []))"
    by (simp add: sample_plan_env_def sample_tracked_def)
  have "\<not> isl (fst (plan_file sample_plan_env ''/media/tv/a.mkv'' None (sample_db [])))" by code_simp
  then obtain i s d where run: "plan_file sample_plan_env ''/media/tv/a.mkv'' None (sample_db []) = (Inr (i, s), d)"
    by (cases "plan_file sample_plan_env ''/media/tv/a.mkv'' None (sample_db [])") (auto simp: not_isl_ex)
  have e: "pl_expand sample_plan_env (path_of ''/media/tv/a.mkv'') = path_of ''/media/tv/a.mkv''"
    "wf_path (pl_resolve sample_plan_env p)" "pl_resolve sample_plan_env (pl_resolve sample_plan_env p) = pl_resolve sample_plan_env p" for p
    by (simp_all add: sample_plan_env_def wf_path_of path_of_as_posix)
  from dry_run_shows_stored_plan [OF k n run e] run show ?thesis by auto
qed

end
