(* ===== verification/Job_Lifecycle.thy ===== *)
theory Job_Lifecycle
  imports Worker_Service Backup_Service
begin

text \<open>
  The requests that move jobs, and what they do together: the routes of \<open>src/apps/api/app/api/jobs.py\<close>,
  \<open>api/review.py\<close> and \<open>api/worker.py\<close>, which commit what a service did and roll the database back when
  it failed, and the passes of the local worker. A run of the system is a sequence of such steps in any
  order; the job table keeps its invariant along every run.
\<close>

subsection \<open>Answers\<close>

text \<open>A request commits, or rolls the database back. What it did to files stays.\<close>

definition answered :: "('a, db) handler \<Rightarrow> ('a, db) handler" where
  "answered m d = (case m d of (Inl e, _) \<Rightarrow> (Inl e, d) | (Inr x, d') \<Rightarrow> (Inr x, d'))"

definition answered_with_files :: "('a, review_state) handler \<Rightarrow> ('a, review_state) handler" where
  "answered_with_files m st =
     (case m st of (Inl e, st') \<Rightarrow> (Inl e, st\<lparr>rs_os := rs_os st'\<rparr>) | (Inr x, st') \<Rightarrow> (Inr x, st'))"

record bulk_answer =
  ba_status :: string
  ba_affected_count :: nat
  ba_affected_ids :: "row_id list"

definition bulk_action :: "string \<Rightarrow> row_id list \<Rightarrow> bulk_answer" where
  "bulk_action status ids = \<lparr>ba_status = status, ba_affected_count = length ids, ba_affected_ids = ids\<rparr>"

subsection \<open>Requests of an operator\<close>

text \<open>What a request for jobs asks of each of them; its windows are those the schema has cleaned.\<close>

record create_payload =
  jq_preferred_worker_id :: "row_id option"
  jq_pinned_worker_id :: "row_id option"
  jq_preferred_backend_override :: "string option"
  jq_schedule_windows :: "schedule_window list"
  jq_backup_policy :: string
  jq_existing_backup_strategy :: string
  jq_reprocess_mode :: string

definition service_request :: "create_payload \<Rightarrow> create_request" where
  "service_request q =
     \<lparr>cr_tracked_file_id = None, cr_plan_snapshot_id = None, cr_allow_review_approved = False,
      cr_preferred_worker_id = jq_preferred_worker_id q, cr_pinned_worker_id = jq_pinned_worker_id q,
      cr_preferred_backend_override = jq_preferred_backend_override q, cr_schedule_windows = Some (jq_schedule_windows q),
      cr_watched_job_id = None, cr_job_kind = EXECUTION, cr_analysis_payload = None, cr_ignore_worker_schedule = False,
      cr_backup_policy = jq_backup_policy q, cr_existing_backup_strategy = jq_existing_backup_strategy q,
      cr_reprocess_mode = jq_reprocess_mode q\<rparr>"

definition create_job_route :: "service_env \<Rightarrow> row_id option \<Rightarrow> row_id option \<Rightarrow> create_payload \<Rightarrow> job service" where
  "create_job_route v tracked plan q =
     answered (create_job v ((service_request q)\<lparr>cr_tracked_file_id := tracked, cr_plan_snapshot_id := plan\<rparr>))"

definition retry_job_route :: "service_env \<Rightarrow> row_id \<Rightarrow> string option \<Rightarrow> job service" where
  "retry_job_route v i strategy = answered (retry_job v i (case strategy of None \<Rightarrow> ''fail'' | Some s \<Rightarrow> s))"

definition recover_job_route :: "service_env \<Rightarrow> row_id \<Rightarrow> job service" where
  "recover_job_route v i = answered (recover_with_strip_only v i)"

definition cancel_job_route :: "service_env \<Rightarrow> row_id \<Rightarrow> unit service" where
  "cancel_job_route v i = answered (cancel_job v i)"

definition clear_queue_route :: "service_env \<Rightarrow> bulk_answer service" where
  "clear_queue_route v = answered (andthen (clear_whole_queue v) (\<lambda>ids. returns (bulk_action ''cleared'' ids)))"

definition clear_failed_route :: "service_env \<Rightarrow> row_id list option \<Rightarrow> bulk_answer service" where
  "clear_failed_route v ids = answered (andthen (clear_history v ids) (\<lambda>is. returns (bulk_action ''cleared'' is)))"

definition resolve_failed_route :: "service_env \<Rightarrow> row_id list \<Rightarrow> string \<Rightarrow> string \<Rightarrow> bulk_answer service" where
  "resolve_failed_route v ids act strategy =
     answered (andthen (resolve_problem_jobs v ids act strategy) (\<lambda>is.
       returns (bulk_action (if act = ''retry'' then ''queued'' else ''skipped'') is)))"

subsection \<open>Batches\<close>

text \<open>The files are planned first; the targets are their paths, rows and plans.\<close>

record batch_answer =
  bt_total_files :: nat
  bt_created_count :: nat
  bt_blocked_count :: nat
  bt_items :: "(string \<times> batch_outcome) list"

definition was_created :: "string \<times> batch_outcome \<Rightarrow> bool" where
  "was_created r \<longleftrightarrow> (case snd r of Batch_Created _ \<Rightarrow> True | Batch_Blocked _ \<Rightarrow> False)"

definition batch_summary :: "bool \<Rightarrow> (string \<times> batch_outcome) list \<Rightarrow> batch_answer" where
  "batch_summary summary_only results =
     \<lparr>bt_total_files = length results, bt_created_count = length (filter was_created results),
      bt_blocked_count = length (filter (\<lambda>r. \<not> was_created r) results), bt_items = (if summary_only then [] else results)\<rparr>"

definition create_batch_route ::
    "service_env \<Rightarrow> create_payload \<Rightarrow> bool \<Rightarrow> (string \<times> row_id \<times> row_id) list \<Rightarrow> batch_answer service" where
  "create_batch_route v q summary_only targets =
     answered (andthen (create_batch_jobs v (service_request q) None targets) (\<lambda>results.
       returns (batch_summary summary_only results)))"

text \<open>
  A dry run takes the windows of the request or, unless it ignores them, those of its pinned worker, which must be open.
  The stored request names the effective configuration of each file, here a parameter.
\<close>

definition pinned_worker_of :: "create_payload \<Rightarrow> db \<Rightarrow> worker option" where
  "pinned_worker_of q d = (case jq_pinned_worker_id q of None \<Rightarrow> None | Some i \<Rightarrow> find_worker d i)"

definition check_pinned_schedule :: "service_env \<Rightarrow> bool \<Rightarrow> worker option \<Rightarrow> api_error + unit" where
  "check_pinned_schedule v ignore_schedule pinned =
     (case pinned of
        None \<Rightarrow> Inr ()
      | Some w \<Rightarrow>
          if w_schedule_windows w \<in> {None, Some []} \<or> ignore_schedule then Inr ()
          else case schedule_windows_allow_now (w_schedule_windows w) (sv_now v + sv_tz v) of
            Inl e \<Rightarrow> Inl (Unhandled (ScheduleError e))
          | Inr opened \<Rightarrow> if opened then Inr ()
              else Inl (ApiConflict ''The selected worker is outside its schedule window.''))"

definition dry_run_windows :: "create_payload \<Rightarrow> bool \<Rightarrow> worker option \<Rightarrow> schedule_window list option" where
  "dry_run_windows q ignore_schedule pinned =
     (if jq_schedule_windows q \<noteq> [] then Some (jq_schedule_windows q)
      else case pinned of None \<Rightarrow> None | Some w \<Rightarrow> if ignore_schedule then None else w_schedule_windows w)"

definition dry_run_payload :: "(string \<Rightarrow> json) \<Rightarrow> (row_id \<Rightarrow> json) \<Rightarrow> string \<Rightarrow> row_id \<Rightarrow> row_id \<Rightarrow> json option" where
  "dry_run_payload config key sp fid sid =
     Some (JObj [(''mode'', JStr ''dry_run_request''), (''source_path'', JStr sp), (''tracked_file_id'', key fid),
       (''plan_snapshot_id'', key sid), (''config_bundle'', config sp)])"

definition dry_run_request :: "create_payload \<Rightarrow> bool \<Rightarrow> worker option \<Rightarrow> create_request" where
  "dry_run_request q ignore_schedule pinned =
     (service_request q)\<lparr>cr_schedule_windows := dry_run_windows q ignore_schedule pinned, cr_job_kind := DRY_RUN,
       cr_ignore_worker_schedule := ignore_schedule, cr_backup_policy := ''keep'', cr_existing_backup_strategy := ''fail'',
       cr_reprocess_mode := ''normal''\<rparr>"

definition create_dry_run_route ::
    "service_env \<Rightarrow> (string \<Rightarrow> json) \<Rightarrow> (row_id \<Rightarrow> json) \<Rightarrow> create_payload \<Rightarrow> bool \<Rightarrow> (string \<times> row_id \<times> row_id) list \<Rightarrow> batch_answer service" where
  "create_dry_run_route v config key q ignore_schedule targets =
     answered (andthen (reads (\<lambda>d. Inr (pinned_worker_of q d))) (\<lambda>pinned.
       andthen (reads (\<lambda>_. check_pinned_schedule v ignore_schedule pinned)) (\<lambda>_.
       andthen (create_batch_jobs v (dry_run_request q ignore_schedule pinned) (Some (dry_run_payload config key)) targets) (\<lambda>results.
       returns (batch_summary False results)))))"

subsection \<open>Requests\<close>

datatype operator_request =
  Create_Job "row_id option" "row_id option" create_payload
| Retry_Job row_id "string option"
| Recover_Job row_id
| Cancel_Job row_id
| Clear_Queue
| Clear_Failed "row_id list option"
| Resolve_Failed "row_id list" string string
| Create_Batch create_payload bool "(string \<times> row_id \<times> row_id) list"
| Create_Dry_Run "string \<Rightarrow> json" "row_id \<Rightarrow> json" create_payload bool "(string \<times> row_id \<times> row_id) list"

definition silently :: "('a, 's) handler \<Rightarrow> (unit, 's) handler" where
  "silently m = andthen m (\<lambda>_. returns ())"

fun operator_route :: "service_env \<Rightarrow> operator_request \<Rightarrow> unit service" where
  "operator_route v (Create_Job f s q) = silently (create_job_route v f s q)"
| "operator_route v (Retry_Job i strategy) = silently (retry_job_route v i strategy)"
| "operator_route v (Recover_Job i) = silently (recover_job_route v i)"
| "operator_route v (Cancel_Job i) = cancel_job_route v i"
| "operator_route v Clear_Queue = silently (clear_queue_route v)"
| "operator_route v (Clear_Failed ids) = silently (clear_failed_route v ids)"
| "operator_route v (Resolve_Failed ids act strategy) = silently (resolve_failed_route v ids act strategy)"
| "operator_route v (Create_Batch q summary_only ts) = silently (create_batch_route v q summary_only ts)"
| "operator_route v (Create_Dry_Run config key q ignore ts) = silently (create_dry_run_route v config key q ignore ts)"

text \<open>Requests about files under review and about backups, which also touch files.\<close>

definition approve_route :: "review_env \<Rightarrow> row_id \<Rightarrow> string option \<Rightarrow> row_id \<Rightarrow> (review_decision \<times> row_id, review_state) handler" where
  "approve_route v i note actor = answered_with_files (approve_item v i actor note)"

definition reject_route :: "review_env \<Rightarrow> row_id \<Rightarrow> string option \<Rightarrow> row_id \<Rightarrow> (review_decision \<times> row_id, review_state) handler" where
  "reject_route v i note actor = answered_with_files (reject_item v i actor note)"

definition hold_route :: "review_env \<Rightarrow> row_id \<Rightarrow> string option \<Rightarrow> row_id \<Rightarrow> (review_decision, review_state) handler" where
  "hold_route v i note actor = answered_with_files (hold_item v i actor note)"

definition mark_protected_route :: "review_env \<Rightarrow> row_id \<Rightarrow> string option \<Rightarrow> row_id \<Rightarrow> (review_decision, review_state) handler" where
  "mark_protected_route v i note actor = answered_with_files (mark_protected v i actor note)"

definition clear_protected_route :: "review_env \<Rightarrow> row_id \<Rightarrow> string option \<Rightarrow> row_id \<Rightarrow> (review_decision, review_state) handler" where
  "clear_protected_route v i note actor = answered_with_files (clear_protected v i actor note)"

definition delete_backup_route :: "review_env \<Rightarrow> row_id \<Rightarrow> (unit, review_state) handler" where
  "delete_backup_route v i = answered_with_files (delete_backup v i)"

definition restore_backup_route :: "review_env \<Rightarrow> (instant \<Rightarrow> string) \<Rightarrow> row_id \<Rightarrow> row_id option \<Rightarrow> (unit, review_state) handler" where
  "restore_backup_route v stamp i actor = answered_with_files (restore_backup v stamp i actor)"

datatype review_request =
  Approve row_id "string option" row_id
| Reject row_id "string option" row_id
| Hold row_id "string option" row_id
| Mark_Protected row_id "string option" row_id
| Clear_Protected row_id "string option" row_id
| Delete_Backup row_id
| Restore_Backup "instant \<Rightarrow> string" row_id "row_id option"
| Cleanup_Backups

fun review_route :: "review_env \<Rightarrow> review_request \<Rightarrow> (unit, review_state) handler" where
  "review_route v (Approve i note actor) = silently (approve_route v i note actor)"
| "review_route v (Reject i note actor) = silently (reject_route v i note actor)"
| "review_route v (Hold i note actor) = silently (hold_route v i note actor)"
| "review_route v (Mark_Protected i note actor) = silently (mark_protected_route v i note actor)"
| "review_route v (Clear_Protected i note actor) = silently (clear_protected_route v i note actor)"
| "review_route v (Delete_Backup i) = delete_backup_route v i"
| "review_route v (Restore_Backup stamp i actor) = restore_backup_route v stamp i actor"
| "review_route v Cleanup_Backups = silently (cleanup_expired_backups v)"

text \<open>Requests of a remote worker: its token is looked at first, in the same session.\<close>

definition as_worker :: "remote_env \<Rightarrow> string \<Rightarrow> (worker \<Rightarrow> 'a service) \<Rightarrow> 'a service" where
  "as_worker v token f =
     andthen (reads (\<lambda>d. case authenticated_worker v d token of
         None \<Rightarrow> Inl (ApiAuthentication ''Invalid worker credentials.'') | Some w \<Rightarrow> Inr w)) (\<lambda>w. answered (f w))"

definition heartbeat_route :: "remote_env \<Rightarrow> string \<Rightarrow> worker_report \<Rightarrow> unit service" where
  "heartbeat_route v token r = as_worker v token (\<lambda>w. heartbeat v w r)"

definition request_remote_job_route :: "remote_env \<Rightarrow> string \<Rightarrow> remote_job option service" where
  "request_remote_job_route v token = as_worker v token (request_job v)"

definition claim_remote_job_route :: "remote_env \<Rightarrow> string \<Rightarrow> row_id \<Rightarrow> job service" where
  "claim_remote_job_route v token i = as_worker v token (\<lambda>w. claim_job v w i)"

definition progress_route :: "remote_env \<Rightarrow> string \<Rightarrow> row_id \<Rightarrow> progress_update \<Rightarrow> json option \<Rightarrow> (bool \<times> string option) service" where
  "progress_route v token i u report = as_worker v token (\<lambda>w. report_job_progress v w i u report)"

definition failure_route :: "remote_env \<Rightarrow> string \<Rightarrow> row_id \<Rightarrow> string \<Rightarrow> string \<Rightarrow> json option \<Rightarrow> job service" where
  "failure_route v token i message category report = as_worker v token (\<lambda>w. report_job_failure v w i message category report)"

definition result_route :: "remote_env \<Rightarrow> string \<Rightarrow> row_id \<Rightarrow> full_result \<Rightarrow> json option \<Rightarrow> job service" where
  "result_route v token i r report = as_worker v token (\<lambda>w. submit_job_result v w i r report)"

datatype worker_request =
  Heartbeat worker_report
| Poll
| Claim row_id
| Progress row_id progress_update "json option"
| Failure row_id string string "json option"
| Result row_id full_result "json option"

fun worker_route :: "remote_env \<Rightarrow> string \<Rightarrow> worker_request \<Rightarrow> unit service" where
  "worker_route v token (Heartbeat r) = heartbeat_route v token r"
| "worker_route v token Poll = silently (request_remote_job_route v token)"
| "worker_route v token (Claim i) = silently (claim_remote_job_route v token i)"
| "worker_route v token (Progress i u report) = silently (progress_route v token i u report)"
| "worker_route v token (Failure i message category report) = silently (failure_route v token i message category report)"
| "worker_route v token (Result i r report) = silently (result_route v token i r report)"

subsection \<open>Runs\<close>

text \<open>
  A step is a request, or a transaction of the local worker: it promotes scheduled jobs, interrupts those of workers
  that are gone, claims a job, reports progress, stores the result of a job it claimed and applies the retry policy.
  Whatever touches other tables only is one more step.
\<close>

inductive system_step :: "review_state \<Rightarrow> review_state \<Rightarrow> bool" where
  by_operator: "fresh_keys v \<Longrightarrow> operator_route (v\<lparr>sv_decisions := rs_decisions st\<rparr>) q (rs_db st) = (r, d) \<Longrightarrow>
    system_step st (st\<lparr>rs_db := d\<rparr>)"
| by_reviewer: "fresh_keys (rx_service v) \<Longrightarrow> review_route v q st = (r, st') \<Longrightarrow> system_step st st'"
| by_worker: "fresh_keys (rv_service v) \<Longrightarrow> worker_route v token q (rs_db st) = (r, d) \<Longrightarrow> system_step st (st\<lparr>rs_db := d\<rparr>)"
| by_registration: "registration_request v g (rs_db st) = (r, d) \<Longrightarrow> system_step st (st\<lparr>rs_db := d\<rparr>)"
| by_schedule: "\<forall>j\<in>set (list_jobs_for_scheduling limit (rs_db st)). stored_schedule (j_schedule_windows j) \<Longrightarrow>
    refresh_scheduled_jobs limit now clock tz (rs_db st) = Inr d \<Longrightarrow> system_step st (st\<lparr>rs_db := d\<rparr>)"
| by_interruption: "handle_worker_interruptions nf limit now clock (rs_db st) = Inr d \<Longrightarrow> system_step st (st\<lparr>rs_db := d\<rparr>)"
| by_local_claim: "claim_pending_for_worker now i w backend cap (rs_db st) = Inr (d, x) \<Longrightarrow> system_step st (st\<lparr>rs_db := d\<rparr>)"
| by_local_progress: "record_progress now i u (rs_db st) = Inr d \<Longrightarrow> system_step st (st\<lparr>rs_db := d\<rparr>)"
| by_local_result: "find_job (rs_db st) i = Some j \<Longrightarrow> j_status j \<notin> {JS_PENDING, JS_SCHEDULED, JS_COMPLETED} \<Longrightarrow>
    mark_result dv dr now i r (rs_db st) = Inr d \<Longrightarrow> system_step st (st\<lparr>rs_db := d\<rparr>)"
| by_retry_policy: "find_job (rs_db st) i = Some j \<Longrightarrow> j_status j \<notin> {JS_PENDING, JS_SCHEDULED, JS_COMPLETED} \<Longrightarrow>
    k \<notin> j_id ` set (db_jobs (rs_db st)) \<Longrightarrow>
    apply_automatic_retry_policy k now tz i r (rs_db st) = Inr (d, x) \<Longrightarrow> system_step st (st\<lparr>rs_db := d\<rparr>)"
| elsewhere: "db_jobs (rs_db st') = db_jobs (rs_db st) \<Longrightarrow> system_step st st'"

subsection \<open>Each request follows the automaton\<close>

lemma serve_answered: "serves anywhere m (\<lambda>_. anywhere) \<Longrightarrow> serves anywhere (answered m) (\<lambda>_. anywhere)"
  by (rule servesI) (auto simp: answered_def edits_none dest: servesD(1) split: prod.splits sum.splits)

lemma serve_silently: "serves anywhere m (\<lambda>_. anywhere) \<Longrightarrow> serves anywhere (silently m) (\<lambda>_. anywhere)"
  unfolding silently_def by (erule serves_andthen) (rule serves_returns, simp)

lemma serve_answer: "serves anywhere m (\<lambda>_. anywhere) \<Longrightarrow> serves anywhere (answered (andthen m (\<lambda>x. returns (g x)))) (\<lambda>_. anywhere)"
  by (intro serve_answered) (erule serves_andthen, rule serves_returns, simp)

lemma serve_dry_run: "fresh_keys v \<Longrightarrow> serves anywhere (create_dry_run_route v config key q ignore ts) (\<lambda>_. anywhere)"
  unfolding create_dry_run_route_def
  by (intro serve_answered, rule serves_andthen [OF serves_reads], simp, rule serves_andthen [OF serves_reads], simp,
      rule serves_andthen [OF serve_batch], assumption, rule serves_returns, simp)

lemma serve_operator: "fresh_keys v \<Longrightarrow> serves anywhere (operator_route v q) (\<lambda>_. anywhere)"
  by (cases q) (simp_all add: serve_silently serve_answered serve_answer create_job_route_def retry_job_route_def recover_job_route_def
      cancel_job_route_def clear_queue_route_def clear_failed_route_def resolve_failed_route_def create_batch_route_def
      serve_create_job serve_retry serve_recover serve_cancel serve_clear_queue serve_clear_history serve_resolve_jobs serve_batch serve_dry_run)

lemma serve_as_worker: "(\<And>w. serves anywhere (f w) (\<lambda>_. anywhere)) \<Longrightarrow> serves anywhere (as_worker v token f) (\<lambda>_. anywhere)"
  unfolding as_worker_def by (rule serves_andthen [where R = "\<lambda>_. anywhere"], rule serves_reads, simp, rule serve_answered, blast)

lemma serve_worker: "fresh_keys (rv_service v) \<Longrightarrow> serves anywhere (worker_route v token q) (\<lambda>_. anywhere)"
  by (cases q) (simp_all add: serve_silently serve_as_worker heartbeat_route_def request_remote_job_route_def claim_remote_job_route_def
      progress_route_def failure_route_def result_route_def serve_heartbeat serve_request serve_claim serve_progress serve_failure serve_submit)

lemma reviews_answered: "reviews m \<Longrightarrow> reviews (answered_with_files m)"
  unfolding reviews_def answered_with_files_def by (fastforce simp: edits_none split: prod.splits sum.splits)

lemma reviews_silently: "reviews m \<Longrightarrow> reviews (silently m)"
  unfolding silently_def by (erule reviews_andthen) simp

lemma reviews_route: "fresh_keys (rx_service v) \<Longrightarrow> reviews (review_route v q)"
  by (cases q) (simp_all add: reviews_silently reviews_answered approve_route_def reject_route_def hold_route_def mark_protected_route_def
      clear_protected_route_def delete_backup_route_def restore_backup_route_def reviews_approve reviews_reject reviews_hold reviews_mark
      reviews_clear reviews_delete_backup reviews_restore_backup reviews_cleanup)

subsection \<open>What holds along every run\<close>

lemma fresh_decisions [simp]: "fresh_keys (v\<lparr>sv_decisions := ds\<rparr>) = fresh_keys v"
  by (simp add: fresh_keys_def)

lemma put_worker_jobs [simp]: "db_jobs (put_worker now w d) = db_jobs d"
  by (simp add: put_worker_def)

lemma registration_jobs: "db_jobs (snd (registration_request v g d)) = db_jobs d"
proof -
  have a: "db_jobs (snd (authenticate_worker v g d)) = db_jobs d"
    using authenticate_cases [of v d g] by (auto simp: mark_auth_failed_def split: if_splits option.splits)
  have r: "db_jobs (register_remote_worker i now key s token rep stamp d) = db_jobs d" for i now key s token rep stamp d
    by (simp add: register_remote_worker_def split: option.split)
  have "db_jobs (snd (register_worker v g d)) = db_jobs d"
    using a by (auto simp: register_worker_def andthen_def require_def touches_def reads_def returns_def fails_def Let_def r
        split: prod.splits sum.splits option.splits)
  then show ?thesis
    by (cases "register_worker v g d") (auto simp: registration_request_def split: sum.splits api_error.splits)
qed

lemma system_step_edits:
  assumes "system_step st st'" "db_ok (rs_db st)"
  shows "edits (db_jobs (rs_db st)) (db_jobs (rs_db st')) \<and> db_ok (rs_db st')"
proof -
  have "edits (db_jobs (rs_db st)) (db_jobs (rs_db st'))"
    using assms
  proof (cases rule: system_step.cases)
    case (by_operator v q r d)
    then show ?thesis using servesD(1) [OF serve_operator] assms(2) by (metis fresh_decisions review_state.select_convs(1) review_state.surjective review_state.update_convs(1))
  next
    case (by_reviewer v q r)
    then show ?thesis using reviewsD [OF reviews_route assms(2)] by blast
  next
    case (by_worker v token q r d)
    then show ?thesis using servesD(1) [OF serve_worker assms(2)] by simp
  next
    case (by_registration v g r d)
    then show ?thesis using registration_jobs [of v g "rs_db st"] by (simp add: edits_none)
  next
    case (by_schedule limit now clock tz d)
    then show ?thesis using refresh_edits [OF _ by_schedule(2,3)] assms(2) by (simp add: db_ok_def)
  next
    case (by_interruption nf limit now clock d)
    then show ?thesis using interruptions_edits assms(2) by (simp add: db_ok_def)
  next
    case (by_local_claim now i w backend cap d x)
    then show ?thesis using claim_edits assms(2) by (simp add: db_ok_def)
  next
    case (by_local_progress now i u d)
    then show ?thesis using record_progress_edits assms(2) by (simp add: db_ok_def)
  next
    case (by_local_result i j dv dr now r d)
    then show ?thesis using mark_result_edits [OF _ by_local_result(4)] assms(2) by (simp add: db_ok_def)
  next
    case (by_retry_policy i j k now tz r d x)
    have "row_ok j" using by_retry_policy(2) assms(2) find_job_Some [OF by_retry_policy(2)] by (simp add: db_ok_def)
    then show ?thesis using retry_policy_edits [OF _ by_retry_policy(4,5)] by_retry_policy assms(2)
      by (simp add: db_ok_def row_ok_def order_ok_def)
  qed (simp add: edits_none)
  then show ?thesis using edits_db_ok [OF assms(2)] by blast
qed

lemma run_edits:
  assumes "system_step\<^sup>*\<^sup>* st st'" "db_ok (rs_db st)"
  shows "edits (db_jobs (rs_db st)) (db_jobs (rs_db st')) \<and> db_ok (rs_db st')"
  using assms
proof (induction rule: rtranclp_induct)
  case (step s t)
  then show ?case using system_step_edits [OF step(2)] edits_trans by blast
qed (simp add: edits_none)

lemma run_row:
  assumes "system_step\<^sup>*\<^sup>* st st'" "db_ok (rs_db st)" "find_job (rs_db st) i = Some j"
  shows "\<exists>k. find_job (rs_db st') i = Some k \<and> row_step\<^sup>*\<^sup>* j k"
  using edits_row [of "rs_db st" "rs_db st'" i j] run_edits [OF assms(1,2)] assms(2,3) by (simp add: db_ok_def)



text \<open>C13: A completed job stays completed, and a job that ended in any way is never active again.\<close>

theorem ended_jobs_stay_ended:
  assumes "system_step\<^sup>*\<^sup>* st st'" "db_ok (rs_db st)" "find_job (rs_db st) i = Some j" "j_status j \<notin> set active_job_statuses"
  shows "\<exists>k. find_job (rs_db st') i = Some k \<and> j_status k \<notin> set active_job_statuses \<and>
    (j_status j = JS_COMPLETED \<longrightarrow> j_status k = JS_COMPLETED \<and> j_completed_at k = j_completed_at j)"
  using run_row [OF assms(1-3)] row_steps_inactive row_steps_completed assms(4) by blast

subsection \<open>Concrete runs\<close>

definition sample_job_request :: create_payload where
  "sample_job_request =
     \<lparr>jq_preferred_worker_id = None, jq_pinned_worker_id = None, jq_preferred_backend_override = None, jq_schedule_windows = [],
      jq_backup_policy = ''keep'', jq_existing_backup_strategy = ''fail'', jq_reprocess_mode = ''normal''\<rparr>"

definition system_at :: "db \<Rightarrow> review_state" where
  "system_at d = \<lparr>rs_db = d, rs_decisions = [], rs_os = sample_os (\<lambda>_. NoFault)\<rparr>"

definition db_after :: "operator_request list \<Rightarrow> db \<Rightarrow> db" where
  "db_after qs d = fold (\<lambda>q d. snd (operator_route (sample_env\<lparr>sv_decisions := []\<rparr>) q d)) qs d"

lemma operator_run: "system_step\<^sup>*\<^sup>* (system_at d) (system_at (db_after qs d))"
proof (induction qs arbitrary: d)
  case (Cons q qs)
  have "system_step (system_at d) ((system_at d)\<lparr>rs_db := snd (operator_route (sample_env\<lparr>sv_decisions := rs_decisions (system_at d)\<rparr>) q (rs_db (system_at d)))\<rparr>)"
    by (rule by_operator [OF fresh_sample_env surjective_pairing])
  then have "system_step (system_at d) (system_at (db_after [q] d))" by (simp add: system_at_def db_after_def)
  moreover have "system_step\<^sup>*\<^sup>* (system_at (db_after [q] d)) (system_at (db_after qs (db_after [q] d)))" by (rule Cons)
  ultimately show ?case by (simp add: db_after_def)
qed (simp add: db_after_def)

definition busy_day :: "operator_request list" where
  "busy_day = [Create_Job (Some 3) None sample_job_request, Create_Job (Some 3) None sample_job_request, Cancel_Job 1, Retry_Job 1 None]"


lemma ended_jobs_stay_ended_witness:
  "length (db_jobs (db_after [Retry_Job 7 None] (sample_db [sample_ended_job]))) = 2 \<and>
   (\<exists>k. find_job (db_after [Retry_Job 7 None] (sample_db [sample_ended_job])) 7 = Some k \<and> j_status k \<notin> set active_job_statuses)"
proof
  show "length (db_jobs (db_after [Retry_Job 7 None] (sample_db [sample_ended_job]))) = 2" by code_simp
  let ?st = "system_at (sample_db [sample_ended_job])"
  have ok: "db_ok (rs_db ?st)" using sample_db_ok(3) by (simp add: system_at_def)
  have j: "find_job (rs_db ?st) 7 = Some sample_ended_job" "j_status sample_ended_job \<notin> set active_job_statuses"
    by (simp_all add: system_at_def find_job_def sample_ended_job_def active_job_statuses_def)
  show "\<exists>k. find_job (db_after [Retry_Job 7 None] (sample_db [sample_ended_job])) 7 = Some k \<and> j_status k \<notin> set active_job_statuses"
    using ended_jobs_stay_ended [OF operator_run ok j, of "[Retry_Job 7 None]"] by (auto simp: system_at_def)
qed


end
