(* ===== verification/Spec2Isabelle.thy ===== *)
theory Spec2Isabelle
  imports Planner Ffmpeg_Builder Safety Replacement Job_Repository Tracked_Files Workers Orchestration Worker_Execution
    Path_Safety Job_Automaton Jobs_Service Runtime_Status Worker_Service Review_Service Job_Views Backup_Service Plan_Service Job_Lifecycle
begin

text \<open>
  A verification development of Encodr, a service that prepares media files: it probes a file, plans what to keep and
  re-encode under a policy, queues a job, runs ffmpeg on a local or a remote worker, verifies the output and puts it in
  the place of the source.

  \<^bold>\<open>The parts\<close>, in the order a file passes through them. \<open>core\<close> is \<open>src/packages/core/encodr_core\<close>, \<open>shared\<close> is
  \<open>src/packages/shared/encodr_shared\<close>, \<open>db\<close> is \<open>src/packages/db/encodr_db\<close>, \<open>api\<close> is \<open>src/apps/api/app\<close>.

    \<^item> \<open>Encodr_Prelude\<close>, \<open>Py_Float\<close>, \<open>Py_Path\<close>: the Python vocabulary. Strings are Latin-1 character lists; \<open>max\<close>,
      \<open>sorted\<close> and ordered de-duplication with a key; IEEE doubles as rationals rounded to 53 bits (half to even, no
      overflow); \<open>PurePosixPath\<close> with its parsing, printing, names and suffixes.
    \<^item> \<open>Media\<close> (\<open>core/media\<close>) and \<open>Probe\<close> (\<open>core/media/normalise.py\<close>, \<open>core/probe\<close>): streams and files as records, and how
      ffprobe's answer becomes one.
    \<^item> \<open>Policy\<close> (\<open>core/config\<close>): the policy and what its validators accept, as a function into an error or the normalised
      record. \<open>Rulesets\<close> (\<open>api/services/setup.py\<close>, \<open>plans.py\<close>): the rules an operator sets per library, the file they are
      kept in and the policy a file is planned with. \<open>Plan_Service\<close> (\<open>api/services/files.py\<close>, \<open>plans.py\<close>): from a path to a
      stored plan, and the dry run.
    \<^item> \<open>Plan\<close>, \<open>Rules\<close>, \<open>Selection\<close>, \<open>Planner\<close> (\<open>core/planning\<close>): the plan and how it is decided: the profile with the
      longest matching path prefix, the merged rules, the selected audio and subtitle streams, the video plan, the action.
    \<^item> \<open>Backend\<close>, \<open>Ffmpeg_Builder\<close> (\<open>core/execution\<close>, \<open>shared/backend_preferences.py\<close>), \<open>Runtime_Status\<close>
      (\<open>shared/worker_runtime.py\<close>): the encoder, the command line, the outcome of a run, the status a worker reports.
    \<^item> \<open>Verification\<close>, \<open>Safety\<close>, \<open>Replacement\<close> (\<open>core/verification\<close>, \<open>core/execution/safety.py\<close>, \<open>core/replacement\<close>): the
      checks on the staged output, the guards that send it to review, its placement over a file system where any call may
      fail.
    \<^item> \<open>Db_Models\<close>, \<open>Job_Repository\<close>, \<open>Tracked_Files\<close>, \<open>Workers\<close> (\<open>db/models\<close>, \<open>db/repositories\<close>, \<open>db/runtime/dispatch.py\<close>):
      the rows as records, the database as a record of tables with the unique index on active jobs, a repository operation
      as a function on it that may fail. \<open>Scheduling\<close> (\<open>shared/scheduling.py\<close>): schedule windows.
    \<^item> \<open>Worker_Execution\<close> (\<open>db/runtime/worker.py\<close>): one claimed job of the local worker up to its stored result.
      \<open>Orchestration\<close> (\<open>api/services/orchestration.py\<close>): the passes over scheduled and running jobs.
    \<^item> \<open>Path_Safety\<close> (\<open>api/services/path_safety.py\<close>, \<open>shared/path_mappings.py\<close>): roots, worker folders, result payloads.
    \<^item> \<open>Jobs_Service\<close>, \<open>Worker_Service\<close>, \<open>Review_Service\<close>, \<open>Backup_Service\<close>, \<open>Job_Views\<close> (\<open>api/services\<close>): requests for jobs, of
      remote workers, about files under review and about backups, and the listings. A request is a function from the
      state to an answer or an error and the state it leaves.
    \<^item> \<open>Job_Automaton\<close> and \<open>Job_Lifecycle\<close> (\<open>api/api/jobs.py\<close>, \<open>review.py\<close>, \<open>worker.py\<close>): the life of a row as an automaton,
      and runs of the whole system, in which the routes, the passes and the local worker take turns in any order.

  \<^bold>\<open>What the lemmas show.\<close> Probe: every entry becomes one stream, which answers are refused; a dry run
  shows the plan that is stored. Selection and planner: the
  streams kept and dropped partition the file, forced subtitles are never lost, an automatic action is executable, a
  skip changes nothing, a transcode needs permission, rules without transcoding give none. Builder and verification: the
  command maps exactly the selected streams, the file a faithful ffmpeg makes passes verification, a file that passes is
  what the plan asks for. Replacement and backups: the source content survives, one failing call is rolled back, a
  restored backup undoes a replacement. Jobs: a job is created exactly when the guards allow it, only the holder
  reports, a worker never exceeds its capacity, stored paths of remote workers lie under the roots, and along every run
  a file has at most one active job and what ended stays ended. Rules: what is stored is what is read back, and a
  corrupt state is kept. Several theorems show behaviour that looks unintended; their texts say so.

  \<^bold>\<open>Interfaces\<close> are locales, each interpreted on the model: \<open>ordered_dedup\<close> (order-preserving de-duplication),
  \<open>best_by_language\<close> (one best stream per language), \<open>file_mover\<close> (a move that succeeds or leaves its source) and
  \<open>job_handler\<close> (an operation whose effect on the job table is a run of the automaton). The services use its functional
  form, \<open>serves\<close> for handlers over the database and \<open>reviews\<close> for those that also touch files.

  \<^bold>\<open>Parameters\<close>, for what is outside the source: the process that runs ffmpeg or ffprobe, the JSON parser and the
  printing of floats, lists and objects, the status and resolution of a path, hardware probes, packet sizes, the faults
  of the file system, random names, fresh keys, hashes and tokens. Definitions are executable; the only loop without a
  structural bound, the draw of a free temporary name, is a \<open>partial_function\<close>, and it is shown to return. There is no
  fuel anywhere.

  \<^bold>\<open>Not modelled\<close>: the worker agent, configuration files, telemetry, accounts and audit records, bulk operations in
  background threads, library browsing, analysis jobs, the command line, the user interface and the installers, which are input
  and output around these decisions; pydantic, SQLAlchemy, FastAPI, ffmpeg and ffprobe, which are libraries and programs
  the source calls. Sessions are transactions that run one after the other. Log records are left out.
\<close>

end
